(* ===== verification/Prelude.thy ===== *)
theory Prelude
  imports Main "HOL-Library.Word" "HOL-Library.AList" "HOL-Library.Multiset"
begin

text \<open>
  What the component theories share: the machine integers and byte strings of the C++ code,
  exceptions as values of a sum type, the outcome of a statement that may throw after having
  changed the state, generic lemmas on lists and association lists, and the locales the
  components' contracts are stated with (an invariant of a step relation, a queue drained from
  the front, a codec that leaves the rest of its input alone).
\<close>

unbundle bit_operations_syntax

named_theorems inv_defs "definitions of the components' invariants"
named_theorems inv_intros "introduction rules that carry an invariant through an operation"

section \<open>Machine integers and byte strings\<close>

type_synonym byte = "8 word"
type_synonym u16 = "16 word"
type_synonym u32 = "32 word"
type_synonym u64 = "64 word"
type_synonym i64 = "64 word" \<comment> \<open>read with \<open>sint\<close>\<close>

text \<open>A \<open>std::string\<close> is a sequence of bytes: the model's \<open>string\<close>, whose characters are bytes.\<close>

definition byte_of_char :: "char \<Rightarrow> byte" where
  "byte_of_char c = of_char c"

definition char_of_byte :: "byte \<Rightarrow> char" where
  "char_of_byte b = char_of (unat b)"

lemma unat_byte_of_char: "unat (byte_of_char c) = of_char c"
proof -
  have "byte_of_char c = word_of_nat (of_char c)"
    by (simp add: byte_of_char_def of_nat_of_char)
  then have "unat (byte_of_char c) = of_char c mod 2 ^ 8"
    by (simp add: unat_of_nat)
  then show ?thesis by simp
qed

lemma char_of_byte_of_char [simp]: "char_of_byte (byte_of_char c) = c"
  by (simp add: char_of_byte_def unat_byte_of_char)

lemma byte_of_char_of_byte [simp]: "byte_of_char (char_of_byte b) = b"
proof -
  have "unat b < 2 ^ 8" using unsigned_less [of b] by simp
  then have "of_char (char_of (unat b) :: char) = unat b"
    by simp
  then have "(of_char (char_of (unat b) :: char) :: byte) = word_of_nat (unat b)"
    by (metis of_nat_of_char)
  then show ?thesis
    by (simp add: byte_of_char_def char_of_byte_def)
qed

lemma map_char_of_byte_of_char [simp]: "map char_of_byte (map byte_of_char s) = s"
  by (induction s) simp_all

lemma map_byte_of_char_of_byte [simp]: "map byte_of_char (map char_of_byte bs) = bs"
  by (induction bs) simp_all

section \<open>Exceptions\<close>

text \<open>
  The exceptions the modelled code throws or lets through, with the text of \<open>what()\<close> where the
  code chooses it. \<open>Json_exception\<close> stands for the exceptions of the JSON library, \<open>Foreign\<close> for
  another class derived from \<open>std::exception\<close>, \<open>Non_std\<close> for anything else.
\<close>

datatype exn =
  Runtime_error string
| Invalid_argument string
| Out_of_range string
| Overflow_error string
| Json_exception string
| Foreign string
| Non_std

type_synonym 'a result = "exn + 'a"

definition bind_result :: "'a result \<Rightarrow> ('a \<Rightarrow> 'b result) \<Rightarrow> 'b result" where
  "bind_result r f = (case r of Inl e \<Rightarrow> Inl e | Inr a \<Rightarrow> f a)"

lemma bind_result_simps [simp]:
  "bind_result (Inl e) f = Inl e"
  "bind_result (Inr a) f = f a"
  by (simp_all add: bind_result_def)

lemma bind_result_Inr_iff:
  "bind_result r f = Inr b \<longleftrightarrow> (\<exists>a. r = Inr a \<and> f a = Inr b)"
  by (simp add: bind_result_def split: sum.splits)

lemma bind_result_InrE:
  assumes "bind_result r f = Inr b"
  obtains a where "r = Inr a" and "f a = Inr b"
  using assms by (auto simp: bind_result_Inr_iff)

text \<open>
  A statement that may throw after part of its effect has happened: the exception, if any, and
  the state it leaves. \<open>run_all\<close> is a range-for loop whose body may throw.
\<close>

type_synonym 's outcome = "exn option \<times> 's"

definition ok :: "'s \<Rightarrow> 's outcome" where
  "ok s = (None, s)"

definition throw :: "exn \<Rightarrow> 's \<Rightarrow> 's outcome" where
  "throw e s = (Some e, s)"

definition and_then :: "'s outcome \<Rightarrow> ('s \<Rightarrow> 's outcome) \<Rightarrow> 's outcome" where
  "and_then r f = (case r of (None, s) \<Rightarrow> f s | (Some e, s) \<Rightarrow> (Some e, s))"

fun run_all :: "('c \<Rightarrow> 's \<Rightarrow> 's outcome) \<Rightarrow> 'c list \<Rightarrow> 's \<Rightarrow> 's outcome" where
  "run_all f [] s = ok s"
| "run_all f (c # cs) s = and_then (f c s) (run_all f cs)"

lemma outcome_simps [simp]:
  "fst (ok s) = None" "snd (ok s) = s" "fst (throw e s) = Some e" "snd (throw e s) = s"
  "and_then (ok s) f = f s" "and_then (throw e s) f = throw e s"
  "and_then (None, s) f = f s" "and_then (Some e, s) f = (Some e, s)"
  by (simp_all add: ok_def throw_def and_then_def)

lemma and_then_inv:
  assumes "P (snd r)" and "\<And>s. P s \<Longrightarrow> P (snd (f s))"
  shows "P (snd (and_then r f))"
  using assms by (cases r) (auto simp: and_then_def split: option.splits)

lemma run_all_inv:
  assumes "\<And>c s. c \<in> set cs \<Longrightarrow> P s \<Longrightarrow> P (snd (f c s))" and "P s"
  shows "P (snd (run_all f cs s))"
  using assms
proof (induction cs arbitrary: s)
  case (Cons c cs)
  have head: "P (snd (f c s))" using Cons.prems by simp
  have tail: "P (snd (run_all f cs t))" if "P t" for t
    using Cons.prems(1) that by (intro Cons.IH) simp_all
  show ?case
    unfolding run_all.simps using head tail by (rule and_then_inv)
qed simp

lemma run_all_append:
  "run_all f (cs @ ds) s = and_then (run_all f cs s) (run_all f ds)"
proof (induction cs arbitrary: s)
  case (Cons c cs)
  show ?case
    by (cases "f c s"; cases "fst (f c s)") (simp_all add: Cons.IH)
qed simp

section \<open>Decimal text\<close>

text \<open>\<open>std::to_string\<close>.\<close>

fun digits_of_nat :: "nat \<Rightarrow> string" where
  "digits_of_nat n = (if n < 10 then [char_of (48 + n)] else digits_of_nat (n div 10) @ [char_of (48 + n mod 10)])"

declare digits_of_nat.simps [simp del]

definition to_string :: "int \<Rightarrow> string" where
  "to_string i = (if i < 0 then CHR ''-'' # digits_of_nat (nat (- i)) else digits_of_nat (nat i))"

section \<open>Lists and association lists\<close>

text \<open>\<open>std::vector\<close> reads and prefixes, as the codecs use them.\<close>

lemma take_drop_split: "take n (drop m xs) @ drop (m + n) xs = drop m xs"
  by (metis add.commute append_take_drop_id drop_drop)

lemma sorted_wrt_less_distinct:
  "sorted_wrt (<) (xs :: 'a :: linorder list) \<Longrightarrow> distinct xs"
  by (simp add: strict_sorted_iff)

lemma map_of_update_conv' [simp]: "map_of (AList.update k v al) k' = (if k = k' then Some v else map_of al k')"
  by (simp add: update_conv')

lemma map_of_delete_if [simp]: "map_of (AList.delete k al) k' = (if k = k' then None else map_of al k')"
  by (simp add: delete_conv')

lemma map_of_filter_value:
  assumes "distinct (map fst al)"
  shows "map_of (filter P al) k = (case map_of al k of None \<Rightarrow> None | Some v \<Rightarrow> if P (k, v) then Some v else None)"
  using assms
proof (induction al)
  case (Cons a al)
  show ?case
  proof (cases "fst a = k")
    case True
    with Cons.prems have "map_of al k = None"
      by (auto simp: map_of_eq_None_iff)
    with True Cons show ?thesis by (cases a) (auto split: option.splits)
  next
    case False
    with Cons show ?thesis by (cases a) (auto split: option.splits)
  qed
qed simp

lemma distinct_fst_filter: "distinct (map fst al) \<Longrightarrow> distinct (map fst (filter P al))"
  by (induction al) auto

lemma distinct_submset:
  assumes "mset xs \<subseteq># mset ys" and "distinct ys"
  shows "distinct xs"
proof (subst distinct_count_atmost_1, rule allI)
  fix a
  have "count (mset ys) a = (if a \<in> set ys then 1 else 0)"
    using assms(2) [unfolded distinct_count_atmost_1] by blast
  then have "count (mset ys) a \<le> 1" by (rule ord_eq_le_trans) simp
  then have "count (mset xs) a \<le> 1"
    using mset_subset_eq_count [OF assms(1), of a] by linarith
  moreover have "0 < count (mset xs) a \<longleftrightarrow> a \<in> set xs" by simp
  ultimately show "count (mset xs) a = (if a \<in> set xs then 1 else 0)"
    by (simp only: split: if_split) linarith
qed

section \<open>Invariants of a step relation\<close>

text \<open>
  A component is a start condition and a step relation; its contract is an invariant of the
  states reached. The locale gives the induction once.
\<close>

locale invariant_system =
  fixes start :: "'s \<Rightarrow> bool"
    and step :: "'s \<Rightarrow> 's \<Rightarrow> bool"
    and inv :: "'s \<Rightarrow> bool"
  assumes inv_start: "start s \<Longrightarrow> inv s"
    and inv_step: "step s t \<Longrightarrow> inv s \<Longrightarrow> inv t"
begin

lemma inv_steps: "step\<^sup>*\<^sup>* s t \<Longrightarrow> inv s \<Longrightarrow> inv t"
proof (induction rule: rtranclp_induct)
  case (step y z)
  then show ?case using inv_step [OF step.hyps(2)] by simp
qed simp

lemma inv_reachable: "start s \<Longrightarrow> step\<^sup>*\<^sup>* s t \<Longrightarrow> inv t"
  using inv_steps inv_start by blast

end

section \<open>Queues drained from the front\<close>

text \<open>
  A poll with a limit, 0 meaning no limit: the results leave in their order, none is lost, none
  is delivered twice.
\<close>

locale drained_queue =
  fixes contents :: "'s \<Rightarrow> 'a list"
    and poll :: "nat \<Rightarrow> 's \<Rightarrow> 'a list \<times> 's"
  assumes poll_split: "poll n s = (out, s') \<Longrightarrow> out @ contents s' = contents s"
    and poll_amount: "poll n s = (out, s') \<Longrightarrow>
      length out = (if n = 0 then length (contents s) else min n (length (contents s)))"
begin

lemma poll_out: "fst (poll n s) = (if n = 0 then contents s else take n (contents s))"
proof -
  obtain out s' where p: "poll n s = (out, s')" by fastforce
  have "out = take (length out) (contents s)"
    by (metis append_eq_conv_conj p poll_split)
  with p poll_amount [OF p] show ?thesis by (auto simp: min_def)
qed

lemma poll_rest: "contents (snd (poll n s)) = (if n = 0 then [] else drop n (contents s))"
proof -
  obtain out s' where p: "poll n s = (out, s')" by fastforce
  have "contents s' = drop (length out) (contents s)"
    by (metis append_eq_conv_conj p poll_split)
  with p poll_amount [OF p] show ?thesis by (auto simp: min_def)
qed

lemma poll_all_empties: "contents (snd (poll 0 s)) = []"
  by (simp add: poll_rest)

lemma poll_twice: "fst (poll m s) @ fst (poll n (snd (poll m s))) = take
   (length (fst (poll m s)) + length (fst (poll n (snd (poll m s))))) (contents s)"
  by (auto simp: poll_out poll_rest take_add min_def)

end

section \<open>Codecs with a read cursor\<close>

text \<open>
  A writer appends the bytes of a value; a reader takes a value at a cursor and returns it with
  the cursor moved past it, or throws. They fit when reading at the position of a written value
  gives it back, and when whatever a reader accepts is what the writer writes for the value read.
\<close>

type_synonym ('b, 'a) reader = "'b list \<Rightarrow> nat \<Rightarrow> ('a \<times> nat) result"

fun read_times :: "('b, 'a) reader \<Rightarrow> nat \<Rightarrow> ('b, 'a list) reader" where
  "read_times rd 0 bs off = Inr ([], off)"
| "read_times rd (Suc n) bs off =
     bind_result (rd bs off) (\<lambda>(x, off').
     bind_result (read_times rd n bs off') (\<lambda>(xs, off''). Inr (x # xs, off'')))"

locale cursor_codec =
  fixes enc :: "'a \<Rightarrow> 'b list"
    and dec :: "('b, 'a) reader"
    and valid :: "'a \<Rightarrow> bool"
  assumes dec_enc: "valid x \<Longrightarrow> off \<le> length bs \<Longrightarrow> drop off bs = enc x @ rest \<Longrightarrow>
      dec bs off = Inr (x, off + length (enc x))"
    and dec_sound: "dec bs off = Inr (x, off') \<Longrightarrow> off \<le> length bs \<Longrightarrow>
      valid x \<and> off' = off + length (enc x) \<and> off' \<le> length bs \<and> drop off bs = enc x @ drop off' bs"
begin

lemma drop_after: "drop off bs = enc x @ rest \<Longrightarrow> drop (off + length (enc x)) bs = rest"
  by (metis add.commute append_eq_conv_conj drop_drop)

lemma after_le: "off \<le> length bs \<Longrightarrow> drop off bs = enc x @ rest \<Longrightarrow> off + length (enc x) \<le> length bs"
  by (metis diff_add_inverse le_add_diff_inverse length_append length_drop nat_add_left_cancel_le le_add1)

lemma read_step:
  assumes "dec bs off = Inr (x, off')" and "off \<le> length bs"
  shows "off' \<le> length bs" and "drop off bs = enc x @ drop off' bs" and "valid x"
  using dec_sound [OF assms] by simp_all

text \<open>One step of a sequence of reads, with what the next step needs.\<close>

lemma dec_step:
  assumes "off \<le> length bs \<and> drop off bs = enc x @ rest" and "valid x"
  shows "dec bs off = Inr (x, off + length (enc x))"
    and "off + length (enc x) \<le> length bs \<and> drop (off + length (enc x)) bs = rest"
  using assms dec_enc after_le drop_after by simp_all

lemma read_times_enc:
  "list_all valid xs \<Longrightarrow> off \<le> length bs \<Longrightarrow> drop off bs = concat (map enc xs) @ rest \<Longrightarrow>
     read_times dec (length xs) bs off = Inr (xs, off + length (concat (map enc xs)))"
proof (induction xs arbitrary: off)
  case (Cons x xs)
  have here: "drop off bs = enc x @ concat (map enc xs) @ rest"
    using Cons.prems by simp
  have "read_times dec (length xs) bs (off + length (enc x))
      = Inr (xs, off + length (enc x) + length (concat (map enc xs)))"
    using Cons.prems after_le [OF _ here] drop_after [OF here] by (intro Cons.IH) simp_all
  then show ?case
    using Cons.prems dec_enc [OF _ _ here] by simp
qed simp

lemma read_times_step:
  assumes "off \<le> length bs \<and> drop off bs = concat (map enc xs) @ rest" and "list_all valid xs"
  shows "read_times dec (length xs) bs off = Inr (xs, off + length (concat (map enc xs)))"
    and "off + length (concat (map enc xs)) \<le> length bs \<and> drop (off + length (concat (map enc xs))) bs = rest"
proof -
  show "read_times dec (length xs) bs off = Inr (xs, off + length (concat (map enc xs)))"
    using assms read_times_enc by simp
  have "length bs - off = length (concat (map enc xs)) + length rest"
    using assms(1) by (metis length_append length_drop)
  moreover have "off \<le> length bs" and "drop (length (concat (map enc xs))) (drop off bs) = rest"
    using assms(1) by simp_all
  ultimately show "off + length (concat (map enc xs)) \<le> length bs \<and> drop (off + length (concat (map enc xs))) bs = rest"
    unfolding drop_drop by (simp add: add.commute)
qed

lemma read_times_sound:
  "read_times dec n bs off = Inr (xs, off') \<Longrightarrow> off \<le> length bs \<Longrightarrow>
     length xs = n \<and> list_all valid xs \<and> off' = off + length (concat (map enc xs))
     \<and> off' \<le> length bs \<and> drop off bs = concat (map enc xs) @ drop off' bs"
proof (induction n arbitrary: off xs)
  case (Suc n)
  obtain x o1 ys where d: "dec bs off = Inr (x, o1)" and r: "read_times dec n bs o1 = Inr (ys, off')"
    and xs: "xs = x # ys"
    using Suc.prems(1) by (auto simp: bind_result_Inr_iff)
  note s = dec_sound [OF d Suc.prems(2)]
  show ?case
    using s Suc.IH [OF r] xs by simp
qed simp

end

end
