(* ===== verification/Auth_Ticket.thy ===== *)
theory Auth_Ticket
  imports Prelude
begin

text \<open>
  The auth tickets of the realtime layer (\<open>src/realtime/auth_ticket.h\<close> and
  \<open>auth_ticket.cpp\<close>): the ticket record, its validation, its JSON form, the hex coding of a
  signature, and the signing and verification of development tickets. libsodium and the JSON
  library are parameters: \<open>sodium\<close> holds the results of the keyed hash, \<open>json_lib\<close> the printer
  and the parser; the conversions from a parsed value are the ones the library documents.
\<close>

section \<open>The ticket\<close>

definition kAuthTicketTransportStringMaxBytes :: nat where
  "kAuthTicketTransportStringMaxBytes = 255"

definition kAuthTicketTransportMaxFeatureCount :: nat where
  "kAuthTicketTransportMaxFeatureCount = 255"

definition kAuthTicketTransportPayloadMaxBytes :: nat where
  "kAuthTicketTransportPayloadMaxBytes = 254"

record auth_ticket =
  ticket_id :: string
  subject_user_id :: string
  client_id :: u64
  server_scope :: string
  allowed_features :: "u16 list"
  issued_at :: i64
  expires_at :: i64

record signed_auth_ticket =
  sat_ticket :: auth_ticket
  payload_json :: string
  signature_hex :: string

text \<open>A \<open>VerifiedAuthTicket\<close> has a private constructor: only verification makes one.\<close>

datatype verified_auth_ticket = VerifiedAuthTicket (vat_ticket: auth_ticket)

section \<open>Hex\<close>

definition kHexDigits :: string where
  "kHexDigits = ''0123456789abcdef''"

text \<open>\<open>char\<close> is signed: a byte above 127 is below every bound, as it is above every one here.\<close>

definition decode_hex_digit :: "char \<Rightarrow> byte result" where
  "decode_hex_digit ch =
     (let c = unat (byte_of_char ch) in
      if 48 \<le> c \<and> c \<le> 57 then Inr (word_of_nat (c - 48))
      else if 97 \<le> c \<and> c \<le> 102 then Inr (word_of_nat (10 + (c - 97)))
      else if 65 \<le> c \<and> c \<le> 70 then Inr (word_of_nat (10 + (c - 65)))
      else Inl (Runtime_error ''invalid hex digit in auth ticket signature''))"

definition hex_encode_byte :: "byte \<Rightarrow> string" where
  "hex_encode_byte v = [kHexDigits ! unat (drop_bit 4 v), kHexDigits ! unat (v AND 15)]"

definition hex_encode :: "string \<Rightarrow> string" where
  "hex_encode bytes = concat (map (\<lambda>c. hex_encode_byte (byte_of_char c)) bytes)"

text \<open>The loop of \<open>hex_decode\<close> reads digits \<open>2 i\<close> and \<open>2 i + 1\<close>; the length is even by its guard.\<close>

fun hex_decode_pairs :: "string \<Rightarrow> string result" where
  "hex_decode_pairs (h # l # text) =
     bind_result (decode_hex_digit h) (\<lambda>high.
     bind_result (decode_hex_digit l) (\<lambda>low.
     bind_result (hex_decode_pairs text) (\<lambda>decoded.
       Inr (char_of_byte (push_bit 4 high OR low) # decoded))))"
| "hex_decode_pairs _ = Inr []"

definition hex_decode :: "string \<Rightarrow> string result" where
  "hex_decode text =
     (if length text mod 2 \<noteq> 0
      then Inl (Runtime_error ''auth ticket signature must have even-length hex encoding'')
      else hex_decode_pairs text)"

section \<open>Validation\<close>

definition is_sorted_unique :: "u16 list \<Rightarrow> bool" where
  "is_sorted_unique values \<longleftrightarrow> sorted values \<and> (\<forall>i < length values - 1. values ! i \<noteq> values ! Suc i)"

definition encoded_auth_ticket_payload_size :: "auth_ticket \<Rightarrow> nat" where
  "encoded_auth_ticket_payload_size t =
     1 + 4 + 8 + 8 + 8 + length (allowed_features t) * 2
     + length (ticket_id t) + length (subject_user_id t) + length (server_scope t)"

definition validate_auth_ticket :: "auth_ticket \<Rightarrow> unit result" where
  "validate_auth_ticket t =
    (if ticket_id t = [] then Inl (Runtime_error ''auth ticket ticket-id must be non-empty'')
     else if subject_user_id t = [] then Inl (Runtime_error ''auth ticket subject-user-id must be non-empty'')
     else if client_id t = 0 then Inl (Runtime_error ''auth ticket client-id must be non-zero'')
     else if server_scope t = [] then Inl (Runtime_error ''auth ticket server-scope must be non-empty'')
     else if sint (issued_at t) \<le> 0 then Inl (Runtime_error ''auth ticket issued-at must be positive'')
     else if sint (expires_at t) \<le> sint (issued_at t)
       then Inl (Runtime_error ''auth ticket expires-at must be greater than issued-at'')
     else if length (ticket_id t) > kAuthTicketTransportStringMaxBytes
          \<or> length (subject_user_id t) > kAuthTicketTransportStringMaxBytes
          \<or> length (server_scope t) > kAuthTicketTransportStringMaxBytes
       then Inl (Runtime_error ''auth ticket string fields exceed transport limits'')
     else if length (allowed_features t) > kAuthTicketTransportMaxFeatureCount
       then Inl (Runtime_error ''auth ticket allowed-features exceed transport limits'')
     else if list_ex (\<lambda>f. f = 0) (allowed_features t)
       then Inl (Runtime_error ''auth ticket allowed-features must not contain zero'')
     else if \<not> is_sorted_unique (allowed_features t)
       then Inl (Runtime_error ''auth ticket allowed-features must be sorted and unique'')
     else if encoded_auth_ticket_payload_size t > kAuthTicketTransportPayloadMaxBytes
       then Inl (Runtime_error ''auth ticket exceeds transport payload limits'')
     else Inr ())"

text \<open>What an accepted ticket satisfies, as one predicate.\<close>

definition valid_ticket :: "auth_ticket \<Rightarrow> bool" where
  "valid_ticket t \<longleftrightarrow>
     ticket_id t \<noteq> [] \<and> subject_user_id t \<noteq> [] \<and> server_scope t \<noteq> [] \<and> client_id t \<noteq> 0
     \<and> 0 < sint (issued_at t) \<and> sint (issued_at t) < sint (expires_at t)
     \<and> 0 \<notin> set (allowed_features t) \<and> sorted_wrt (<) (allowed_features t)
     \<and> encoded_auth_ticket_payload_size t \<le> 254"

lemma is_sorted_unique_iff: "is_sorted_unique xs \<longleftrightarrow> sorted_wrt (<) xs"
proof
  assume s: "is_sorted_unique xs"
  have "xs ! i < xs ! Suc i" if "Suc i < length xs" for i
  proof -
    have "sorted xs" using s by (simp add: is_sorted_unique_def)
    then have "xs ! i \<le> xs ! Suc i" using that by (simp add: sorted_iff_nth_mono)
    moreover have "xs ! i \<noteq> xs ! Suc i" using s that by (simp add: is_sorted_unique_def)
    ultimately show ?thesis by simp
  qed
  then show "sorted_wrt (<) xs" by (simp add: sorted_wrt_iff_nth_Suc_transp)
next
  assume s: "sorted_wrt (<) xs"
  then have "sorted xs" by (simp add: strict_sorted_iff)
  moreover have "xs ! i \<noteq> xs ! Suc i" if "i < length xs - 1" for i
  proof -
    have "Suc i < length xs" using that by simp
    then have "xs ! i < xs ! Suc i" using sorted_wrt_nth_less [OF s, of i "Suc i"] by simp
    then show ?thesis by simp
  qed
  ultimately show "is_sorted_unique xs" by (simp add: is_sorted_unique_def)
qed

lemma validate_auth_ticket_Inr: "validate_auth_ticket t = Inr () \<longleftrightarrow> valid_ticket t"
  by (auto simp: validate_auth_ticket_def valid_ticket_def is_sorted_unique_iff list_ex_iff
      encoded_auth_ticket_payload_size_def kAuthTicketTransportStringMaxBytes_def
      kAuthTicketTransportMaxFeatureCount_def kAuthTicketTransportPayloadMaxBytes_def)

lemma valid_ticket_lengths:
  assumes "valid_ticket t"
  shows "length (ticket_id t) < 256" "length (subject_user_id t) < 256"
    "length (server_scope t) < 256" "length (allowed_features t) < 256"
  using assms by (simp_all add: valid_ticket_def encoded_auth_ticket_payload_size_def)

section \<open>JSON\<close>

text \<open>
  A parsed JSON value. A floating-point number is represented by its integral part, the only
  part the integer conversions read.
\<close>

datatype json =
  JNull
| JBool bool
| JUnsigned u64
| JInteger i64
| JFloat int
| JString string
| JArray "json list"
| JObject "(string \<times> json) list"

record json_lib =
  json_dump :: "json \<Rightarrow> string result"
  json_parse :: "string \<Rightarrow> json result"

definition json_at :: "json \<Rightarrow> string \<Rightarrow> json result" where
  "json_at j k = (case j of
      JObject fs \<Rightarrow> (case map_of fs k of Some v \<Rightarrow> Inr v | None \<Rightarrow> Inl (Json_exception ''out_of_range.403''))
    | _ \<Rightarrow> Inl (Json_exception ''type_error.304''))"

definition get_string :: "json \<Rightarrow> string result" where
  "get_string j = (case j of JString s \<Rightarrow> Inr s | _ \<Rightarrow> Inl (Json_exception ''type_error.302''))"

definition get_int64 :: "json \<Rightarrow> u64 result" where
  "get_int64 j = (case j of
      JUnsigned w \<Rightarrow> Inr w
    | JInteger w \<Rightarrow> Inr w
    | JFloat i \<Rightarrow> Inr (word_of_int i)
    | _ \<Rightarrow> Inl (Json_exception ''type_error.302''))"

text \<open>The conversion to \<open>uint16_t\<close> keeps the low 16 bits, and takes a boolean too.\<close>

definition get_uint16 :: "json \<Rightarrow> u16 result" where
  "get_uint16 j = (case j of
      JUnsigned w \<Rightarrow> Inr (ucast w)
    | JInteger w \<Rightarrow> Inr (ucast w)
    | JFloat i \<Rightarrow> Inr (word_of_int i)
    | JBool b \<Rightarrow> Inr (of_bool b)
    | _ \<Rightarrow> Inl (Json_exception ''type_error.302''))"

fun get_uint16s :: "json list \<Rightarrow> u16 list result" where
  "get_uint16s [] = Inr []"
| "get_uint16s (j # js) = bind_result (get_uint16 j) (\<lambda>x. bind_result (get_uint16s js) (\<lambda>xs. Inr (x # xs)))"

definition get_uint16_vector :: "json \<Rightarrow> u16 list result" where
  "get_uint16_vector j = (case j of JArray js \<Rightarrow> get_uint16s js | _ \<Rightarrow> Inl (Json_exception ''type_error.302''))"

definition ticket_json :: "auth_ticket \<Rightarrow> json" where
  "ticket_json t = JObject
     [(''allowed_features'', JArray (map (\<lambda>f. JUnsigned (ucast f)) (allowed_features t))),
      (''client_id'', JUnsigned (client_id t)),
      (''expires_at'', JInteger (expires_at t)),
      (''issued_at'', JInteger (issued_at t)),
      (''server_scope'', JString (server_scope t)),
      (''subject_user_id'', JString (subject_user_id t)),
      (''ticket_id'', JString (ticket_id t))]"

definition auth_ticket_to_json :: "json_lib \<Rightarrow> auth_ticket \<Rightarrow> string result" where
  "auth_ticket_to_json L t = bind_result (validate_auth_ticket t) (\<lambda>_. json_dump L (ticket_json t))"

definition ticket_of_json :: "json \<Rightarrow> auth_ticket result" where
  "ticket_of_json d =
     bind_result (bind_result (json_at d ''ticket_id'') get_string) (\<lambda>tid.
     bind_result (bind_result (json_at d ''subject_user_id'') get_string) (\<lambda>sub.
     bind_result (bind_result (json_at d ''client_id'') get_int64) (\<lambda>cid.
     bind_result (bind_result (json_at d ''server_scope'') get_string) (\<lambda>scope.
     bind_result (bind_result (json_at d ''allowed_features'') get_uint16_vector) (\<lambda>feats.
     bind_result (bind_result (json_at d ''issued_at'') get_int64) (\<lambda>iat.
     bind_result (bind_result (json_at d ''expires_at'') get_int64) (\<lambda>eat.
       Inr \<lparr>ticket_id = tid, subject_user_id = sub, client_id = cid, server_scope = scope,
            allowed_features = feats, issued_at = iat, expires_at = eat\<rparr>)))))))"

definition auth_ticket_from_json :: "json_lib \<Rightarrow> string \<Rightarrow> auth_ticket result" where
  "auth_ticket_from_json L text =
     bind_result (json_parse L text) (\<lambda>d.
     bind_result (ticket_of_json d) (\<lambda>t.
     bind_result (validate_auth_ticket t) (\<lambda>_. Inr t)))"

section \<open>Signatures\<close>

text \<open>
  libsodium: the result of \<open>sodium_init\<close>, the digest \<open>crypto_generichash\<close> writes (output length,
  message, key, an empty key standing for the null pointer) and its return code, and its two
  size constants.
\<close>

record sodium =
  sodium_init :: int
  generichash :: "nat \<Rightarrow> string \<Rightarrow> string \<Rightarrow> string"
  generichash_rc :: "nat \<Rightarrow> string \<Rightarrow> string \<Rightarrow> int"
  generichash_BYTES :: nat
  generichash_KEYBYTES :: nat

definition ensure_sodium :: "sodium \<Rightarrow> unit result" where
  "ensure_sodium S =
     (if \<not> sodium_init S \<ge> 0
      then Inl (Runtime_error ''failed to initialize libsodium for auth tickets'') else Inr ())"

definition sign_payload :: "sodium \<Rightarrow> string \<Rightarrow> string \<Rightarrow> string result" where
  "sign_payload S payload secret =
     bind_result (ensure_sodium S) (\<lambda>_.
     if secret = [] then Inl (Runtime_error ''auth ticket secret must be non-empty'')
     else let key = generichash S (generichash_KEYBYTES S) secret []
          in if generichash_rc S (generichash_BYTES S) payload key \<noteq> 0
             then Inl (Runtime_error ''failed to sign auth ticket payload'')
             else Inr (generichash S (generichash_BYTES S) payload key))"

definition make_dev_auth_ticket :: "sodium \<Rightarrow> json_lib \<Rightarrow> auth_ticket \<Rightarrow> string \<Rightarrow> signed_auth_ticket result" where
  "make_dev_auth_ticket S L t secret =
     bind_result (auth_ticket_to_json L t) (\<lambda>payload.
     bind_result (sign_payload S payload secret) (\<lambda>signature.
       Inr \<lparr>sat_ticket = t, payload_json = payload, signature_hex = hex_encode signature\<rparr>))"

text \<open>\<open>clock\<close> is \<open>std::time\<close>, read when no \<open>now\<close> is given.\<close>

definition verify_dev_auth_ticket ::
  "sodium \<Rightarrow> json_lib \<Rightarrow> i64 \<Rightarrow> string \<Rightarrow> string \<Rightarrow> string \<Rightarrow> i64 option \<Rightarrow> verified_auth_ticket result" where
  "verify_dev_auth_ticket S L clock payload sig_hex secret now =
     bind_result (hex_decode sig_hex) (\<lambda>decoded.
     if length decoded \<noteq> generichash_BYTES S
     then Inl (Runtime_error ''auth ticket signature has invalid size'')
     else bind_result (sign_payload S payload secret) (\<lambda>expected.
     if decoded \<noteq> expected then Inl (Runtime_error ''auth ticket signature mismatch'')
     else bind_result (auth_ticket_from_json L payload) (\<lambda>t.
     let current = (case now of Some n \<Rightarrow> n | None \<Rightarrow> clock) in
     if sint current < sint (issued_at t) then Inl (Runtime_error ''auth ticket is not valid yet'')
     else if sint current > sint (expires_at t) then Inl (Runtime_error ''auth ticket has expired'')
     else Inr (VerifiedAuthTicket t))))"

section \<open>Lemmas: hex\<close>

lemma decode_hex_digit_kHexDigits:
  assumes "n < 16"
  shows "decode_hex_digit (kHexDigits ! n) = Inr (word_of_nat n)"
proof -
  have "n \<in> {0, 1, 2, 3, 4, 5, 6, 7, 8, 9, 10, 11, 12, 13, 14, 15}"
    using assms by (simp, arith)
  then show ?thesis
    by (auto simp: kHexDigits_def decode_hex_digit_def unat_byte_of_char)
qed

lemma byte_nibbles: "push_bit 4 (drop_bit 4 v) OR (v AND 15) = (v :: byte)"
proof -
  have "(15 :: byte) = mask 4" by (simp add: mask_eq_exp_minus_1)
  then show ?thesis
    by (auto simp: bit_eq_iff bit_push_bit_iff bit_drop_bit_eq bit_or_iff bit_and_iff bit_mask_iff possible_bit_def)
qed

lemma nibble_bounds: "unat (drop_bit 4 (v :: byte)) < 16" "unat (v AND 15) < 16"
proof -
  have "unat v < 2 ^ 8" using unsigned_less [of v] by simp
  then show "unat (drop_bit 4 v) < 16"
    unfolding unsigned_drop_bit_eq by (simp add: drop_bit_eq_div take_bit_eq_mod)
  have "unat (v AND 15) \<le> unat (15 :: byte)"
    by (rule word_and_le1 [THEN word_le_nat_alt [THEN iffD1]])
  then show "unat (v AND 15) < 16" by simp
qed

lemma hex_decode_encode_byte:
  "hex_decode_pairs (hex_encode_byte v @ text) =
     bind_result (hex_decode_pairs text) (\<lambda>d. Inr (char_of_byte v # d))"
  by (simp add: hex_encode_byte_def decode_hex_digit_kHexDigits nibble_bounds byte_nibbles)

lemma length_hex_encode: "length (hex_encode s) = 2 * length s"
  by (induction s) (simp_all add: hex_encode_def hex_encode_byte_def)

lemma hex_decode_pairs_encode: "hex_decode_pairs (hex_encode s) = Inr s"
  by (induction s) (simp_all add: hex_encode_def hex_decode_encode_byte)

lemma hex_decode_encode: "hex_decode (hex_encode s) = Inr s"
  by (simp add: hex_decode_def length_hex_encode hex_decode_pairs_encode)

definition is_hex_digit :: "char \<Rightarrow> bool" where
  "is_hex_digit c \<longleftrightarrow>
     (let n = (of_char c :: nat) in 48 \<le> n \<and> n \<le> 57 \<or> 97 \<le> n \<and> n \<le> 102 \<or> 65 \<le> n \<and> n \<le> 70)"

lemma decode_hex_digit_accepts: "(\<exists>d. decode_hex_digit c = Inr d) \<longleftrightarrow> is_hex_digit c"
  by (auto simp: decode_hex_digit_def is_hex_digit_def unat_byte_of_char Let_def)

lemma hex_decode_pairs_length: "hex_decode_pairs text = Inr s \<Longrightarrow> even (length text) \<Longrightarrow> length text = 2 * length s"
  by (induction "text" arbitrary: s rule: hex_decode_pairs.induct) (auto simp: bind_result_Inr_iff)

lemma hex_decode_pairs_accepts:
  "even (length text) \<Longrightarrow> (\<exists>s. hex_decode_pairs text = Inr s) \<longleftrightarrow> list_all is_hex_digit text"
proof (induction "text" rule: hex_decode_pairs.induct)
  case (1 h l t)
  then show ?case
    using decode_hex_digit_accepts [of h] decode_hex_digit_accepts [of l]
    by (auto simp: bind_result_Inr_iff)
qed simp_all

section \<open>Lemmas: JSON\<close>

text \<open>
  What the library documents about its printer and parser: parsing a printed value gives the
  value back, a non-negative integer coming back as an unsigned number.
\<close>

fun json_norm :: "json \<Rightarrow> json" where
  "json_norm (JInteger w) = (if 0 \<le> sint w then JUnsigned w else JInteger w)"
| "json_norm (JArray js) = JArray (map json_norm js)"
| "json_norm (JObject fs) = JObject (map (\<lambda>(k, v). (k, json_norm v)) fs)"
| "json_norm j = j"

definition json_documented :: "json_lib \<Rightarrow> bool" where
  "json_documented L \<longleftrightarrow> (\<forall>j s. json_dump L j = Inr s \<longrightarrow> json_parse L s = Inr (json_norm j))"

text \<open>A digest has the length it was asked for.\<close>

definition sodium_documented :: "sodium \<Rightarrow> bool" where
  "sodium_documented S \<longleftrightarrow> (\<forall>n m k. length (generichash S n m k) = n)"

lemma ucast_16_64_16: "ucast (ucast f :: u64) = (f :: u16)"
  by (auto simp: bit_eq_iff bit_unsigned_iff possible_bit_def)

lemma get_uint16s_features:
  "get_uint16s (map (\<lambda>f. JUnsigned (ucast f)) fs) = Inr fs"
  by (induction fs) (simp_all add: get_uint16_def ucast_16_64_16)

lemma get_int64_norm: "get_int64 (json_norm (JInteger w)) = Inr w"
  by (simp add: get_int64_def)

lemma ticket_of_json_norm: "ticket_of_json (json_norm (ticket_json t)) = Inr t"
proof -
  have "json_norm \<circ> (\<lambda>f. JUnsigned (ucast f)) = (\<lambda>f :: u16. JUnsigned (ucast f))"
    by auto
  then show ?thesis
    by (simp add: ticket_of_json_def ticket_json_def json_at_def get_string_def get_int64_def
        get_uint16_vector_def get_uint16s_features)
qed

lemma auth_ticket_to_json_Inr:
  "auth_ticket_to_json L t = Inr s \<longleftrightarrow> valid_ticket t \<and> json_dump L (ticket_json t) = Inr s"
  by (auto simp: auth_ticket_to_json_def bind_result_Inr_iff validate_auth_ticket_Inr)

lemma auth_ticket_from_json_Inr:
  "auth_ticket_from_json L s = Inr t \<longleftrightarrow>
     (\<exists>d. json_parse L s = Inr d \<and> ticket_of_json d = Inr t) \<and> valid_ticket t"
  by (auto simp: auth_ticket_from_json_def bind_result_Inr_iff validate_auth_ticket_Inr)

lemma from_json_to_json:
  "json_documented L \<Longrightarrow> auth_ticket_to_json L t = Inr s \<Longrightarrow> auth_ticket_from_json L s = Inr t"
  by (auto simp: auth_ticket_to_json_Inr auth_ticket_from_json_Inr json_documented_def ticket_of_json_norm)

section \<open>Lemmas: signatures\<close>

lemma sign_payload_length:
  "sodium_documented S \<Longrightarrow> sign_payload S p secret = Inr sig \<Longrightarrow> length sig = generichash_BYTES S"
  by (auto simp: sign_payload_def bind_result_Inr_iff sodium_documented_def Let_def split: if_splits)

lemma verify_Inr:
  "verify_dev_auth_ticket S L clock p h secret now = Inr v \<longleftrightarrow>
     (\<exists>sig. hex_decode h = Inr sig \<and> length sig = generichash_BYTES S
        \<and> sign_payload S p secret = Inr sig)
     \<and> auth_ticket_from_json L p = Inr (vat_ticket v)
     \<and> (let current = (case now of Some n \<Rightarrow> n | None \<Rightarrow> clock) in
          sint (issued_at (vat_ticket v)) \<le> sint current \<and> sint current \<le> sint (expires_at (vat_ticket v)))"
  (is "?l \<longleftrightarrow> ?r")
proof
  show ?r if ?l
    using that by (cases v) (auto simp: verify_dev_auth_ticket_def bind_result_Inr_iff Let_def split: if_splits)
  show ?l if ?r
    using that by (cases v) (auto simp: verify_dev_auth_ticket_def Let_def)
qed

section \<open>Examples\<close>

definition example_ticket :: auth_ticket where
  "example_ticket = \<lparr>ticket_id = ''t1'', subject_user_id = ''u1'', client_id = 7, server_scope = ''lo'',
     allowed_features = [1, 2], issued_at = 100, expires_at = 200\<rparr>"

definition example_json_lib :: json_lib where
  "example_json_lib = \<lparr>json_dump = (\<lambda>j. if j = ticket_json example_ticket then Inr ''{}'' else Inl Non_std),
     json_parse = (\<lambda>s. Inr (json_norm (ticket_json example_ticket)))\<rparr>"

text \<open>A hash that copies the key and the message, cut and padded to the length asked for.\<close>

definition example_sodium :: sodium where
  "example_sodium = \<lparr>sodium_init = 0,
     generichash = (\<lambda>n m k. take n (k @ m @ replicate n CHR ''x'')), generichash_rc = (\<lambda>_ _ _. 0),
     generichash_BYTES = 4, generichash_KEYBYTES = 2\<rparr>"

lemma example_json_documented [simp]: "json_documented example_json_lib"
  by (simp add: json_documented_def example_json_lib_def)

lemma example_sodium_documented [simp]: "sodium_documented example_sodium"
  by (auto simp: sodium_documented_def example_sodium_def min_def)

lemma example_ticket_valid [simp]: "valid_ticket example_ticket"
  by (simp add: valid_ticket_def example_ticket_def encoded_auth_ticket_payload_size_def)

section \<open>Properties\<close>

text \<open>A development ticket signed with a secret verifies under the same secret, at any time
  from its issue to its expiry, and verification returns the ticket that was signed.\<close>

theorem make_then_verify:
  assumes "json_documented L" "sodium_documented S"
    and "make_dev_auth_ticket S L t secret = Inr st"
    and "sint (issued_at t) \<le> sint now" "sint now \<le> sint (expires_at t)"
  shows "verify_dev_auth_ticket S L clock (payload_json st) (signature_hex st) secret (Some now)
       = Inr (VerifiedAuthTicket t)"
proof -
  from assms(3) obtain p sig where p: "auth_ticket_to_json L t = Inr p" and sig: "sign_payload S p secret = Inr sig"
    and st: "payload_json st = p" "signature_hex st = hex_encode sig"
    by (auto simp: make_dev_auth_ticket_def bind_result_Inr_iff)
  show ?thesis
    using assms sig from_json_to_json [OF assms(1) p] sign_payload_length [OF assms(2) sig]
    by (simp add: verify_Inr st hex_decode_encode)
qed

theorem make_then_verify_witness:
  "\<exists>st. make_dev_auth_ticket example_sodium example_json_lib example_ticket ''k'' = Inr st
    \<and> verify_dev_auth_ticket example_sodium example_json_lib 0 (payload_json st) (signature_hex st) ''k'' (Some 150)
      = Inr (VerifiedAuthTicket example_ticket)"
proof -
  have "isl (make_dev_auth_ticket example_sodium example_json_lib example_ticket ''k'') = False"
    by (simp add: make_dev_auth_ticket_def auth_ticket_to_json_def bind_result_def sign_payload_def
        ensure_sodium_def example_sodium_def example_json_lib_def validate_auth_ticket_Inr [THEN iffD2] )
  then obtain st where m: "make_dev_auth_ticket example_sodium example_json_lib example_ticket ''k'' = Inr st"
    by (cases "make_dev_auth_ticket example_sodium example_json_lib example_ticket ''k''") auto
  have "verify_dev_auth_ticket example_sodium example_json_lib 0 (payload_json st) (signature_hex st) ''k'' (Some 150)
      = Inr (VerifiedAuthTicket example_ticket)"
    by (rule make_then_verify [OF _ _ m]) (simp_all add: example_ticket_def)
  with m show ?thesis by blast
qed

text \<open>C6: verification accepts nothing else. A verified ticket was parsed from the payload given,
  is valid, the hex signature decodes to the keyed digest of that payload under the secret, and
  the time of the check lies between its issue and its expiry.\<close>

theorem verify_sound:
  assumes "verify_dev_auth_ticket S L clock p h secret now = Inr v"
  shows "hex_decode h = sign_payload S p secret \<and> secret \<noteq> []
    \<and> auth_ticket_from_json L p = Inr (vat_ticket v) \<and> valid_ticket (vat_ticket v)
    \<and> sint (issued_at (vat_ticket v)) \<le> sint (case now of Some n \<Rightarrow> n | None \<Rightarrow> clock)
    \<and> sint (case now of Some n \<Rightarrow> n | None \<Rightarrow> clock) \<le> sint (expires_at (vat_ticket v))"
proof -
  obtain sig where "hex_decode h = Inr sig" and sig: "sign_payload S p secret = Inr sig"
    using assms by (auto simp: verify_Inr)
  moreover have "secret \<noteq> []"
    using sig by (auto simp: sign_payload_def bind_result_Inr_iff)
  ultimately show ?thesis
    using assms by (simp add: verify_Inr auth_ticket_from_json_Inr Let_def)
qed

theorem verify_sound_witness:
  "verify_dev_auth_ticket example_sodium example_json_lib 150 ''{}'' (hex_encode ''kx{}'') ''k'' None
      = Inr (VerifiedAuthTicket example_ticket)
   \<and> hex_decode (hex_encode ''kx{}'') = sign_payload example_sodium ''{}'' ''k''"
proof -
  have "sign_payload example_sodium ''{}'' ''k'' = Inr ''kx{}''"
    by (simp add: sign_payload_def ensure_sodium_def example_sodium_def Let_def)
  moreover have "auth_ticket_from_json example_json_lib ''{}'' = Inr example_ticket"
    by (simp add: auth_ticket_from_json_Inr example_json_lib_def ticket_of_json_norm)
  ultimately have v: "verify_dev_auth_ticket example_sodium example_json_lib 150 ''{}'' (hex_encode ''kx{}'') ''k'' None
      = Inr (VerifiedAuthTicket example_ticket)"
    by (simp add: verify_Inr hex_decode_encode) (simp add: example_sodium_def example_ticket_def)
  with verify_sound [OF v] show ?thesis by blast
qed

end
