(* ===== verification/Ticket_Codec.thy ===== *)
theory Ticket_Codec
  imports Auth_Ticket
begin

text \<open>
  The binary form of an auth ticket that travels in the user data of a connect token
  (\<open>append_u8\<close> to \<open>decode_auth_ticket\<close> of \<open>src/realtime/core.cpp\<close>): the writers and the readers
  of each field, the encoder and the decoder, and their agreement in both directions.
\<close>

definition NETCODE_USER_DATA_BYTES :: nat where
  "NETCODE_USER_DATA_BYTES = 256"

definition kAuthTicketEncodingVersion :: byte where
  "kAuthTicketEncodingVersion = 1"

section \<open>Writers\<close>

definition append_u8 :: "byte list \<Rightarrow> byte \<Rightarrow> byte list" where
  "append_u8 out value = out @ [value]"

definition append_u16 :: "byte list \<Rightarrow> u16 \<Rightarrow> byte list" where
  "append_u16 out value = out @ [ucast (value AND 0xff), ucast (drop_bit 8 value AND 0xff)]"

definition u64_shifts :: "nat list" where
  "u64_shifts = [0, 8, 16, 24, 32, 40, 48, 56]"

definition append_u64 :: "byte list \<Rightarrow> u64 \<Rightarrow> byte list" where
  "append_u64 out value = out @ map (\<lambda>shift. ucast (drop_bit shift value AND 0xff)) u64_shifts"

section \<open>Readers\<close>

definition read_u8 :: "(byte, byte) reader" where
  "read_u8 data offset =
     (if offset \<ge> length data then Inl (Runtime_error ''auth ticket payload truncated'')
      else Inr (data ! offset, offset + 1))"

definition read_u16 :: "(byte, u16) reader" where
  "read_u16 data offset =
     (if offset + 2 > length data then Inl (Runtime_error ''auth ticket payload truncated'')
      else Inr (ucast (data ! offset) OR push_bit 8 (ucast (data ! (offset + 1))), offset + 2))"

fun read_u64_loop :: "byte list \<Rightarrow> nat \<Rightarrow> nat list \<Rightarrow> u64 \<Rightarrow> u64 \<times> nat" where
  "read_u64_loop data offset [] value = (value, offset)"
| "read_u64_loop data offset (shift # shifts) value =
     read_u64_loop data (offset + 1) shifts (value OR push_bit shift (ucast (data ! offset)))"

definition read_u64 :: "(byte, u64) reader" where
  "read_u64 data offset =
     (if offset + 8 > length data then Inl (Runtime_error ''auth ticket payload truncated'')
      else Inr (read_u64_loop data offset u64_shifts 0))"

definition read_auth_ticket_string :: "nat \<Rightarrow> (byte, string) reader" where
  "read_auth_ticket_string len data offset =
     (if offset + len > length data then Inl (Runtime_error ''auth ticket payload truncated'')
      else Inr (map char_of_byte (take len (drop offset data)), offset + len))"

section \<open>The encoder and the decoder\<close>

text \<open>The part of \<open>encode_auth_ticket\<close> that fills the payload vector.\<close>

definition encode_payload :: "auth_ticket \<Rightarrow> byte list" where
  "encode_payload t =
     (let p = append_u8 [] kAuthTicketEncodingVersion;
          p = append_u8 p (word_of_nat (length (ticket_id t)));
          p = append_u8 p (word_of_nat (length (subject_user_id t)));
          p = append_u8 p (word_of_nat (length (server_scope t)));
          p = append_u8 p (word_of_nat (length (allowed_features t)));
          p = append_u64 p (client_id t);
          p = append_u64 p (issued_at t);
          p = append_u64 p (expires_at t);
          p = foldl append_u16 p (allowed_features t);
          p = p @ map byte_of_char (ticket_id t);
          p = p @ map byte_of_char (subject_user_id t)
      in p @ map byte_of_char (server_scope t))"

definition encode_auth_ticket :: "auth_ticket \<Rightarrow> byte list result" where
  "encode_auth_ticket t =
     bind_result (validate_auth_ticket t) (\<lambda>_.
     if length (ticket_id t) > 255 \<or> length (subject_user_id t) > 255 \<or> length (server_scope t) > 255
       then Inl (Runtime_error ''auth ticket string fields exceed transport limits'')
     else if length (allowed_features t) > 255
       then Inl (Runtime_error ''auth ticket allowed-features exceed transport limits'')
     else let payload = encode_payload t in
     if length payload > NETCODE_USER_DATA_BYTES - 2
       then Inl (Runtime_error ''auth ticket too large for connect token user-data'')
     else let payload_size = (word_of_nat (length payload) :: u16) in
       Inr (ucast (payload_size AND 0xff) # ucast (drop_bit 8 payload_size AND 0xff) # payload
            @ replicate (NETCODE_USER_DATA_BYTES - 2 - length payload) 0))"

text \<open>The part of \<open>decode_auth_ticket\<close> that reads the copied payload.\<close>

definition decode_payload :: "byte list \<Rightarrow> auth_ticket result" where
  "decode_payload payload =
     bind_result (read_u8 payload 0) (\<lambda>(version, offset).
     if version \<noteq> kAuthTicketEncodingVersion
       then Inl (Runtime_error ''unsupported auth ticket encoding version'')
     else
     bind_result (read_u8 payload offset) (\<lambda>(ticket_id_size, offset).
     bind_result (read_u8 payload offset) (\<lambda>(subject_user_id_size, offset).
     bind_result (read_u8 payload offset) (\<lambda>(server_scope_size, offset).
     bind_result (read_u8 payload offset) (\<lambda>(feature_count, offset).
     bind_result (read_u64 payload offset) (\<lambda>(cid, offset).
     bind_result (read_u64 payload offset) (\<lambda>(iat, offset).
     bind_result (read_u64 payload offset) (\<lambda>(eat, offset).
     bind_result (read_times read_u16 (unat feature_count) payload offset) (\<lambda>(feats, offset).
     bind_result (read_auth_ticket_string (unat ticket_id_size) payload offset) (\<lambda>(tid, offset).
     bind_result (read_auth_ticket_string (unat subject_user_id_size) payload offset) (\<lambda>(sub, offset).
     bind_result (read_auth_ticket_string (unat server_scope_size) payload offset) (\<lambda>(scope, offset).
     if offset \<noteq> length payload
       then Inl (Runtime_error ''auth ticket payload has trailing bytes'')
     else let t = \<lparr>ticket_id = tid, subject_user_id = sub, client_id = cid, server_scope = scope,
                   allowed_features = feats, issued_at = iat, expires_at = eat\<rparr> in
       bind_result (validate_auth_ticket t) (\<lambda>_. Inr t)))))))))))))"

text \<open>The user data is a pointer, possibly null, to an array of \<open>NETCODE_USER_DATA_BYTES\<close> bytes.\<close>

definition decode_auth_ticket :: "byte list option \<Rightarrow> auth_ticket result" where
  "decode_auth_ticket user_data = (case user_data of
     None \<Rightarrow> Inl (Runtime_error ''missing auth ticket user-data'')
   | Some bytes \<Rightarrow>
     let payload_size = (ucast (bytes ! 0) :: u16) OR push_bit 8 (ucast (bytes ! 1)) in
     if payload_size = 0 then Inl (Runtime_error ''missing auth ticket payload'')
     else if unat payload_size > NETCODE_USER_DATA_BYTES - 2
       then Inl (Runtime_error ''auth ticket payload exceeds transport limits'')
     else decode_payload (take (unat payload_size) (drop 2 bytes)))"

section \<open>Each field is a codec\<close>

definition enc_u8 :: "byte \<Rightarrow> byte list" where
  "enc_u8 v = append_u8 [] v"

definition enc_u16 :: "u16 \<Rightarrow> byte list" where
  "enc_u16 v = append_u16 [] v"

definition enc_u64 :: "u64 \<Rightarrow> byte list" where
  "enc_u64 v = append_u64 [] v"

lemma drop_nth_head: "drop off bs = x # rest \<Longrightarrow> off < length bs \<and> bs ! off = x \<and> drop (Suc off) bs = rest"
  by (metis drop_eq_Nil2 hd_drop_conv_nth list.distinct(1) list.sel(1) not_le drop_Suc list.sel(3) tl_drop)

lemma drop_Suc_nth: "off < length bs \<Longrightarrow> drop off bs = bs ! off # drop (Suc off) bs"
  by (rule Cons_nth_drop_Suc [symmetric])

lemma u16_bytes:
  "ucast (ucast (v AND 0xff) :: byte) OR push_bit 8 (ucast (ucast (drop_bit 8 v AND 0xff) :: byte)) = (v :: u16)"
proof -
  have "(0xff :: u16) = mask 8" by (simp add: mask_eq_exp_minus_1)
  then show ?thesis
    by (auto simp: bit_eq_iff bit_push_bit_iff bit_drop_bit_eq bit_or_iff bit_and_iff bit_mask_iff
        bit_unsigned_iff possible_bit_def)
qed

lemma byte_low: "ucast ((ucast (b :: byte) OR push_bit 8 (ucast (c :: byte)) :: u16) AND 0xff) = b"
proof -
  have "(0xff :: u16) = mask 8" by (simp add: mask_eq_exp_minus_1)
  then show ?thesis
    by (auto simp: bit_eq_iff bit_push_bit_iff bit_or_iff bit_and_iff bit_mask_iff
        bit_unsigned_iff possible_bit_def)
qed

lemma byte_high: "ucast (drop_bit 8 (ucast (b :: byte) OR push_bit 8 (ucast (c :: byte)) :: u16) AND 0xff) = c"
proof -
  have "(0xff :: u16) = mask 8" by (simp add: mask_eq_exp_minus_1)
  then show ?thesis
    by (auto simp: bit_eq_iff bit_push_bit_iff bit_drop_bit_eq bit_or_iff bit_and_iff bit_mask_iff
        bit_unsigned_iff possible_bit_def dest: bit_imp_le_length)
qed

lemma bit_shifted_byte:
  "bit (push_bit s (ucast (b :: byte)) :: u64) n \<longleftrightarrow> n < 64 \<and> s \<le> n \<and> bit b (n - s)"
  by (auto simp: bit_push_bit_iff bit_unsigned_iff possible_bit_def dest: bit_imp_le_length)

lemma bit_ff: "bit (0xff :: u64) n \<longleftrightarrow> n < 8"
proof -
  have "(0xff :: u64) = mask 8" by (simp add: mask_eq_exp_minus_1)
  then have "bit (0xff :: u64) n = bit (mask 8 :: u64) n" by (rule arg_cong)
  also have "\<dots> \<longleftrightarrow> possible_bit TYPE(64 word) n \<and> n < 8" by (rule bit_mask_iff)
  finally show ?thesis by (auto simp: possible_bit_def)
qed

lemma bit_byte_of_u64:
  "bit (ucast (drop_bit s v AND 0xff) :: byte) n \<longleftrightarrow> n < 8 \<and> bit (v :: u64) (s + n)"
  unfolding bit_unsigned_iff bit_and_iff bit_ff bit_drop_bit_eq possible_bit_def by auto

lemma read_u64_loop_off: "snd (read_u64_loop data off shifts v) = off + length shifts"
  by (induction shifts arbitrary: off v) simp_all

lemma bit_read_u64_loop:
  "bit (fst (read_u64_loop data off shifts v)) n \<longleftrightarrow>
     bit v n \<or> (\<exists>i < length shifts. bit (push_bit (shifts ! i) (ucast (data ! (off + i))) :: u64) n)"
proof (induction shifts arbitrary: off v)
  case (Cons s shifts)
  have "(\<exists>i < length (s # shifts). bit (push_bit ((s # shifts) ! i) (ucast (data ! (off + i))) :: u64) n) \<longleftrightarrow>
      bit (push_bit s (ucast (data ! off)) :: u64) n
      \<or> (\<exists>i < length shifts. bit (push_bit (shifts ! i) (ucast (data ! (off + 1 + i))) :: u64) n)"
    by (auto simp: less_Suc_eq_0_disj)
  then show ?case
    by (simp only: read_u64_loop.simps Cons.IH bit_or_iff) blast
qed simp

lemma length_u64_shifts [simp]: "length u64_shifts = 8"
  by (simp add: u64_shifts_def)

lemma nth_u64_shifts: "i < 8 \<Longrightarrow> u64_shifts ! i = 8 * i"
proof -
  assume "i < 8"
  then have "i = 0 \<or> i = 1 \<or> i = 2 \<or> i = 3 \<or> i = 4 \<or> i = 5 \<or> i = 6 \<or> i = 7" by arith
  then show ?thesis by (auto simp: u64_shifts_def)
qed

lemma bit_read_u64:
  "bit (fst (read_u64_loop data off u64_shifts 0)) n \<longleftrightarrow>
     n < 64 \<and> bit (data ! (off + n div 8)) (n mod 8)"
proof -
  have "bit (fst (read_u64_loop data off u64_shifts 0)) n \<longleftrightarrow>
      n < 64 \<and> (\<exists>i < 8. 8 * i \<le> n \<and> bit (data ! (off + i)) (n - 8 * i))"
    by (auto simp only: bit_read_u64_loop length_u64_shifts bit_shifted_byte nth_u64_shifts bit_0_eq bot_apply bot_bool_def)
  also have "\<dots> \<longleftrightarrow> n < 64 \<and> bit (data ! (off + n div 8)) (n mod 8)"
  proof (intro conj_cong refl iffI)
    assume "\<exists>i < 8. 8 * i \<le> n \<and> bit (data ! (off + i)) (n - 8 * i)"
    then obtain i where i: "8 * i \<le> n" "bit (data ! (off + i)) (n - 8 * i)" by blast
    have "n - 8 * i < 8" using bit_imp_le_length [OF i(2)] by simp
    with i(1) have d: "n div 8 = i" by (intro div_nat_eqI) simp_all
    have "n mod 8 = n - 8 * i" by (simp add: d [symmetric] minus_mult_div_eq_mod)
    then show "bit (data ! (off + n div 8)) (n mod 8)" using i(2) d by simp
  next
    assume "n < 64" and b: "bit (data ! (off + n div 8)) (n mod 8)"
    have "n div 8 < 8" using \<open>n < 64\<close> by simp
    moreover have "8 * (n div 8) \<le> n" by simp
    moreover have "n mod 8 = n - 8 * (n div 8)" by (simp add: minus_mult_div_eq_mod)
    ultimately show "\<exists>i < 8. 8 * i \<le> n \<and> bit (data ! (off + i)) (n - 8 * i)" using b by metis
  qed
  finally show ?thesis .
qed

lemma length_enc [simp]:
  "length (enc_u8 a) = 1" "length (enc_u16 b) = 2" "length (enc_u64 c) = 8"
  by (simp_all add: enc_u8_def enc_u16_def enc_u64_def append_u8_def append_u16_def append_u64_def u64_shifts_def)

lemma nth_enc_u64: "i < 8 \<Longrightarrow> enc_u64 v ! i = ucast (drop_bit (8 * i) v AND 0xff)"
  by (simp add: enc_u64_def append_u64_def nth_u64_shifts)

lemma read_u64_enc:
  assumes "off + 8 \<le> length bs" and "take 8 (drop off bs) = enc_u64 v"
  shows "fst (read_u64_loop bs off u64_shifts 0) = v"
proof (rule bit_eqI)
  fix n assume "possible_bit TYPE(64 word) n"
  then have n: "n < 64" by (simp add: possible_bit_def)
  then have i: "n div 8 < 8" by simp
  have "bs ! (off + n div 8) = take 8 (drop off bs) ! (n div 8)"
    using i assms(1) by simp
  then have "bs ! (off + n div 8) = ucast (drop_bit (8 * (n div 8)) v AND 0xff)"
    using i by (simp add: assms(2) nth_enc_u64)
  then show "bit (fst (read_u64_loop bs off u64_shifts 0)) n = bit v n"
    using n by (simp add: bit_read_u64 bit_byte_of_u64)
qed

lemma enc_u64_read:
  assumes "off + 8 \<le> length bs"
  shows "enc_u64 (fst (read_u64_loop bs off u64_shifts 0)) = take 8 (drop off bs)"
proof (rule nth_equalityI)
  fix i assume "i < length (enc_u64 (fst (read_u64_loop bs off u64_shifts 0)))"
  then have i: "i < 8" by simp
  have "bit (enc_u64 (fst (read_u64_loop bs off u64_shifts 0)) ! i) n = bit (bs ! (off + i)) n" if "n < 8" for n
  proof -
    have "(8 * i + n) div 8 = i" "(8 * i + n) mod 8 = n" "8 * i + n < 64" using that i by auto
    then show ?thesis using that i by (simp add: nth_enc_u64 bit_byte_of_u64 bit_read_u64)
  qed
  then have "enc_u64 (fst (read_u64_loop bs off u64_shifts 0)) ! i = bs ! (off + i)"
    by (auto intro!: bit_eqI simp: possible_bit_def)
  then show "enc_u64 (fst (read_u64_loop bs off u64_shifts 0)) ! i = take 8 (drop off bs) ! i"
    using i assms by simp
qed (use assms in simp)

text \<open>The four readers fit their writers.\<close>

interpretation cu8: cursor_codec enc_u8 read_u8 "\<lambda>_. True"
proof unfold_locales
  fix x off bs rest assume "off \<le> length bs" "drop off bs = enc_u8 x @ rest"
  then show "read_u8 bs off = Inr (x, off + length (enc_u8 x))"
    using drop_nth_head [of off bs x rest] by (simp add: read_u8_def enc_u8_def append_u8_def)
next
  fix bs off x off' assume "read_u8 bs off = Inr (x, off')"
  then show "True \<and> off' = off + length (enc_u8 x) \<and> off' \<le> length bs \<and> drop off bs = enc_u8 x @ drop off' bs"
    by (auto simp: read_u8_def enc_u8_def append_u8_def drop_Suc_nth split: if_splits)
qed

interpretation cu16: cursor_codec enc_u16 read_u16 "\<lambda>_. True"
proof unfold_locales
  fix x off bs rest assume "off \<le> length bs" and d: "drop off bs = enc_u16 x @ rest"
  from d have "off < length bs \<and> bs ! off = ucast (x AND 0xff)
      \<and> drop (Suc off) bs = ucast (drop_bit 8 x AND 0xff) # rest"
    using drop_nth_head [of off bs] by (simp add: enc_u16_def append_u16_def)
  moreover from this have "Suc off < length bs \<and> bs ! Suc off = ucast (drop_bit 8 x AND 0xff)"
    using drop_nth_head [of "Suc off" bs] by blast
  ultimately show "read_u16 bs off = Inr (x, off + length (enc_u16 x))"
    by (simp add: read_u16_def u16_bytes)
next
  fix bs off x off' assume r: "read_u16 bs off = Inr (x, off')"
  then have "off + 2 \<le> length bs" by (simp add: read_u16_def split: if_splits)
  then have "drop off bs = bs ! off # bs ! Suc off # drop (off + 2) bs"
    using drop_Suc_nth [of off bs] drop_Suc_nth [of "Suc off" bs] by simp
  moreover have x: "x = ucast (bs ! off) OR push_bit 8 (ucast (bs ! Suc off))" and "off' = off + 2"
    using r by (auto simp: read_u16_def split: if_splits)
  moreover have "enc_u16 x = [bs ! off, bs ! Suc off]"
    unfolding x enc_u16_def append_u16_def by (simp only: byte_low byte_high append_Nil)
  ultimately show "True \<and> off' = off + length (enc_u16 x) \<and> off' \<le> length bs \<and> drop off bs = enc_u16 x @ drop off' bs"
    using \<open>off + 2 \<le> length bs\<close> by simp
qed

interpretation cu64: cursor_codec enc_u64 read_u64 "\<lambda>_. True"
proof unfold_locales
  fix x off bs rest assume "off \<le> length bs" and d: "drop off bs = enc_u64 x @ rest"
  have "length (drop off bs) = 8 + length rest" by (simp add: d)
  with \<open>off \<le> length bs\<close> have "off + 8 \<le> length bs" by simp
  moreover have "take 8 (drop off bs) = enc_u64 x" by (simp add: d)
  ultimately show "read_u64 bs off = Inr (x, off + length (enc_u64 x))"
    using read_u64_enc read_u64_loop_off [of bs off u64_shifts 0] by (simp add: read_u64_def prod_eq_iff)
next
  fix bs off x off' assume r: "read_u64 bs off = Inr (x, off')"
  then have le: "off + 8 \<le> length bs" by (simp add: read_u64_def split: if_splits)
  with r have x: "x = fst (read_u64_loop bs off u64_shifts 0)" and o: "off' = off + 8"
    using read_u64_loop_off [of bs off u64_shifts 0] by (auto simp: read_u64_def prod_eq_iff)
  have "drop off bs = take 8 (drop off bs) @ drop (off + 8) bs"
    by (simp add: take_drop_split)
  then show "True \<and> off' = off + length (enc_u64 x) \<and> off' \<le> length bs \<and> drop off bs = enc_u64 x @ drop off' bs"
    using le by (simp add: x o enc_u64_read)
qed

interpretation cstr: cursor_codec "map byte_of_char" "read_auth_ticket_string n" "\<lambda>s. length s = n" for n
proof unfold_locales
  fix x off bs rest assume n: "length x = n" and "off \<le> length bs" and d: "drop off bs = map byte_of_char x @ rest"
  have "length (drop off bs) = n + length rest" by (simp add: d n)
  with \<open>off \<le> length bs\<close> have "off + n \<le> length bs" by simp
  with d n show "read_auth_ticket_string n bs off = Inr (x, off + length (map byte_of_char x))"
    by (simp add: read_auth_ticket_string_def del: map_map)
next
  fix bs off x off' assume "read_auth_ticket_string n bs off = Inr (x, off')"
  then have "off + n \<le> length bs" "x = map char_of_byte (take n (drop off bs))" "off' = off + n"
    by (auto simp: read_auth_ticket_string_def split: if_splits)
  then show "length x = n \<and> off' = off + length (map byte_of_char x) \<and> off' \<le> length bs
      \<and> drop off bs = map byte_of_char x @ drop off' bs"
    by (simp add: take_drop_split del: map_map)
qed

section \<open>Encoding and decoding agree\<close>

lemma foldl_append_u16: "foldl append_u16 p fs = p @ concat (map enc_u16 fs)"
  by (induction fs arbitrary: p) (simp_all add: append_u16_def enc_u16_def)

lemma length_concat_enc_u16 [simp]: "length (concat (map enc_u16 fs)) = 2 * length fs"
  by (induction fs) simp_all

lemma encode_payload_fields:
  "encode_payload t =
     enc_u8 kAuthTicketEncodingVersion @ enc_u8 (word_of_nat (length (ticket_id t)))
     @ enc_u8 (word_of_nat (length (subject_user_id t))) @ enc_u8 (word_of_nat (length (server_scope t)))
     @ enc_u8 (word_of_nat (length (allowed_features t))) @ enc_u64 (client_id t) @ enc_u64 (issued_at t)
     @ enc_u64 (expires_at t) @ concat (map enc_u16 (allowed_features t)) @ map byte_of_char (ticket_id t)
     @ map byte_of_char (subject_user_id t) @ map byte_of_char (server_scope t) @ []"
  by (simp add: encode_payload_def enc_u8_def append_u8_def enc_u64_def append_u64_def foldl_append_u16)

lemma length_encode_payload: "length (encode_payload t) = encoded_auth_ticket_payload_size t"
  by (simp add: encode_payload_fields encoded_auth_ticket_payload_size_def)

lemma unat_byte_of_nat: "n < 256 \<Longrightarrow> unat (word_of_nat n :: byte) = n"
  by (simp add: unat_of_nat)

lemma auth_ticket_collapse [simp]:
  "\<lparr>ticket_id = ticket_id t, subject_user_id = subject_user_id t, client_id = client_id t,
    server_scope = server_scope t, allowed_features = allowed_features t, issued_at = issued_at t,
    expires_at = expires_at t\<rparr> = t"
  by (cases t) simp

lemma decode_encode_payload:
  assumes v: "valid_ticket t"
  shows "decode_payload (encode_payload t) = Inr t"
proof -
  note len = valid_ticket_lengths [OF v]
  have s0: "0 \<le> length (encode_payload t) \<and> drop 0 (encode_payload t) =
     enc_u8 kAuthTicketEncodingVersion @ enc_u8 (word_of_nat (length (ticket_id t)))
     @ enc_u8 (word_of_nat (length (subject_user_id t))) @ enc_u8 (word_of_nat (length (server_scope t)))
     @ enc_u8 (word_of_nat (length (allowed_features t))) @ enc_u64 (client_id t) @ enc_u64 (issued_at t)
     @ enc_u64 (expires_at t) @ concat (map enc_u16 (allowed_features t)) @ map byte_of_char (ticket_id t)
     @ map byte_of_char (subject_user_id t) @ map byte_of_char (server_scope t) @ []"
    by (simp add: encode_payload_fields)
  note s1 = cu8.dec_step [OF s0 TrueI]
  note s2 = cu8.dec_step [OF s1(2) TrueI]
  note s3 = cu8.dec_step [OF s2(2) TrueI]
  note s4 = cu8.dec_step [OF s3(2) TrueI]
  note s5 = cu8.dec_step [OF s4(2) TrueI]
  note s6 = cu64.dec_step [OF s5(2) TrueI]
  note s7 = cu64.dec_step [OF s6(2) TrueI]
  note s8 = cu64.dec_step [OF s7(2) TrueI]
  have "list_all (\<lambda>_. True) (allowed_features t)" by (simp add: list_all_iff)
  note s9 = cu16.read_times_step [OF s8(2) this]
  note s10 = cstr.dec_step [OF s9(2) refl]
  note s11 = cstr.dec_step [OF s10(2) refl]
  note s12 = cstr.dec_step [OF s11(2) refl]
  have "validate_auth_ticket t = Inr ()" using v by (simp add: validate_auth_ticket_Inr)
  moreover have "length (encode_payload t) = 29 + 2 * length (allowed_features t) + length (ticket_id t)
      + length (subject_user_id t) + length (server_scope t)"
    by (simp add: encode_payload_fields)
  ultimately show ?thesis
    using s1(1) s2(1) s3(1) s4(1) s5(1) s6(1) s7(1) s8(1) s9(1) s10(1) s11(1) s12(1)
    by (simp add: decode_payload_def unat_byte_of_nat len Let_def)
qed

lemma decode_payload_sound:
  assumes "decode_payload P = Inr t"
  shows "P = encode_payload t \<and> valid_ticket t"
proof -
  have le0: "0 \<le> length P" by simp
  from assms obtain v o1 tl o2 sl o3 gl o4 fc o5 where
      r1: "read_u8 P 0 = Inr (v, o1)" and v: "v = kAuthTicketEncodingVersion"
    and r2: "read_u8 P o1 = Inr (tl, o2)" and r3: "read_u8 P o2 = Inr (sl, o3)"
    and r4: "read_u8 P o3 = Inr (gl, o4)" and r5: "read_u8 P o4 = Inr (fc, o5)"
    and rest: "bind_result (read_u64 P o5) (\<lambda>(cid, offset).
     bind_result (read_u64 P offset) (\<lambda>(iat, offset).
     bind_result (read_u64 P offset) (\<lambda>(eat, offset).
     bind_result (read_times read_u16 (unat fc) P offset) (\<lambda>(feats, offset).
     bind_result (read_auth_ticket_string (unat tl) P offset) (\<lambda>(tid, offset).
     bind_result (read_auth_ticket_string (unat sl) P offset) (\<lambda>(sub, offset).
     bind_result (read_auth_ticket_string (unat gl) P offset) (\<lambda>(scope, offset).
     if offset \<noteq> length P
       then Inl (Runtime_error ''auth ticket payload has trailing bytes'')
     else let t = \<lparr>ticket_id = tid, subject_user_id = sub, client_id = cid, server_scope = scope,
                   allowed_features = feats, issued_at = iat, expires_at = eat\<rparr> in
       bind_result (validate_auth_ticket t) (\<lambda>_. Inr t)))))))) = Inr t"
    unfolding decode_payload_def by (auto simp: bind_result_Inr_iff [of "read_u8 _ _"] split: if_splits)
  from rest obtain cid o6 iat o7 eat o8 feats o9 tid o10 sub o11 scope o12 where
      r6: "read_u64 P o5 = Inr (cid, o6)" and r7: "read_u64 P o6 = Inr (iat, o7)"
    and r8: "read_u64 P o7 = Inr (eat, o8)" and r9: "read_times read_u16 (unat fc) P o8 = Inr (feats, o9)"
    and r10: "read_auth_ticket_string (unat tl) P o9 = Inr (tid, o10)"
    and r11: "read_auth_ticket_string (unat sl) P o10 = Inr (sub, o11)"
    and r12: "read_auth_ticket_string (unat gl) P o11 = Inr (scope, o12)" and o12: "o12 = length P"
    and t: "t = \<lparr>ticket_id = tid, subject_user_id = sub, client_id = cid, server_scope = scope,
                   allowed_features = feats, issued_at = iat, expires_at = eat\<rparr>"
    and valid: "valid_ticket t"
    by (auto simp: bind_result_Inr_iff Let_def validate_auth_ticket_Inr split: if_splits)
  note q1 = cu8.read_step [OF r1 le0]
  note q2 = cu8.read_step [OF r2 q1(1)] note q3 = cu8.read_step [OF r3 q2(1)]
  note q4 = cu8.read_step [OF r4 q3(1)] note q5 = cu8.read_step [OF r5 q4(1)]
  note q6 = cu64.read_step [OF r6 q5(1)] note q7 = cu64.read_step [OF r7 q6(1)]
  note q8 = cu64.read_step [OF r8 q7(1)]
  have q9: "o9 \<le> length P" "drop o8 P = concat (map enc_u16 feats) @ drop o9 P" "length feats = unat fc"
    using cu16.read_times_sound [OF r9 q8(1)] by simp_all
  note q10 = cstr.read_step [OF r10 q9(1)] note q11 = cstr.read_step [OF r11 q10(1)]
  note q12 = cstr.read_step [OF r12 q11(1)]
  have "P = enc_u8 v @ drop o1 P" using q1(2) by simp
  also note q2(2) also note q3(2) also note q4(2) also note q5(2) also note q6(2) also note q7(2)
  also note q8(2) also note q9(2) also note q10(2) also note q11(2) also note q12(2)
  finally have "P = encode_payload t"
    by (simp add: encode_payload_fields t v o12 q9(3) q10(3) q11(3) q12(3))
  with valid show ?thesis by simp
qed

lemma payload_size_bounds:
  assumes "valid_ticket t"
  shows "29 \<le> length (encode_payload t)" "length (encode_payload t) \<le> 254"
  using assms by (simp_all add: length_encode_payload valid_ticket_def encoded_auth_ticket_payload_size_def)

lemma encode_valid:
  assumes "valid_ticket t"
  shows "encode_auth_ticket t =
    (let n = (word_of_nat (length (encode_payload t)) :: u16) in
     Inr (ucast (n AND 0xff) # ucast (drop_bit 8 n AND 0xff) # encode_payload t
          @ replicate (254 - length (encode_payload t)) 0))"
proof -
  have "validate_auth_ticket t = Inr ()" using assms by (simp add: validate_auth_ticket_Inr)
  then show ?thesis
    using valid_ticket_lengths [OF assms] payload_size_bounds [OF assms]
    by (simp add: encode_auth_ticket_def NETCODE_USER_DATA_BYTES_def Let_def)
qed

lemma encode_Inr_valid: "encode_auth_ticket t = Inr bs \<Longrightarrow> valid_ticket t"
  by (auto simp: encode_auth_ticket_def bind_result_Inr_iff validate_auth_ticket_Inr)

lemma unat_u16_of_nat: "n \<le> 254 \<Longrightarrow> unat (word_of_nat n :: u16) = n"
  by (simp add: unat_of_nat)

lemma decode_prefixed:
  assumes "n = (word_of_nat (length P) :: u16)" and "29 \<le> length P" "length P \<le> 254"
  shows "decode_auth_ticket (Some (ucast (n AND 0xff) # ucast (drop_bit 8 n AND 0xff) # P @ rest)) = decode_payload P"
proof -
  have "unat n = length P" using assms unat_u16_of_nat by simp
  moreover from this have "n \<noteq> 0" using assms(2) by auto
  ultimately show ?thesis
    unfolding decode_auth_ticket_def option.case nth_Cons_0 One_nat_def nth_Cons_Suc u16_bytes Let_def
    using assms(3) by (simp add: NETCODE_USER_DATA_BYTES_def)
qed

lemma decode_of_encode:
  assumes "encode_auth_ticket t = Inr bytes"
  shows "length bytes = NETCODE_USER_DATA_BYTES" and "decode_auth_ticket (Some bytes) = Inr t"
proof -
  have v: "valid_ticket t" using assms by (rule encode_Inr_valid)
  note b = payload_size_bounds [OF v]
  show "length bytes = NETCODE_USER_DATA_BYTES" and "decode_auth_ticket (Some bytes) = Inr t"
    using assms decode_prefixed [OF refl b] b
    by (auto simp: encode_valid [OF v] decode_encode_payload [OF v] NETCODE_USER_DATA_BYTES_def Let_def)
qed

section \<open>Example\<close>

definition example_user_data :: "byte list" where
  "example_user_data = (case encode_auth_ticket example_ticket of Inr bs \<Rightarrow> bs | Inl _ \<Rightarrow> [])"

lemma example_user_data_decodes [simp]:
  "length example_user_data = NETCODE_USER_DATA_BYTES"
  "decode_auth_ticket (Some example_user_data) = Inr example_ticket"
proof -
  have "encode_auth_ticket example_ticket = Inr example_user_data"
    by (simp add: example_user_data_def encode_valid Let_def)
  from decode_of_encode [OF this] show "length example_user_data = NETCODE_USER_DATA_BYTES"
    "decode_auth_ticket (Some example_user_data) = Inr example_ticket" .
qed

section \<open>Properties\<close>

text \<open>Every valid ticket has a binary form of exactly the user-data size, and decoding it
  gives the ticket back.\<close>

theorem encode_then_decode:
  assumes "validate_auth_ticket t = Inr ()"
  shows "\<exists>bytes. encode_auth_ticket t = Inr bytes \<and> length bytes = NETCODE_USER_DATA_BYTES
    \<and> decode_auth_ticket (Some bytes) = Inr t"
proof -
  have v: "valid_ticket t" using assms by (simp add: validate_auth_ticket_Inr)
  obtain bytes where "encode_auth_ticket t = Inr bytes"
    using encode_valid [OF v] by (simp add: Let_def)
  then show ?thesis using decode_of_encode by blast
qed

theorem encode_then_decode_witness:
  "\<exists>bytes. encode_auth_ticket example_ticket = Inr bytes \<and> length bytes = NETCODE_USER_DATA_BYTES
    \<and> decode_auth_ticket (Some bytes) = Inr example_ticket"
  by (rule encode_then_decode) (simp add: validate_auth_ticket_Inr)

text \<open>C4: the decoder accepts canonical encodings only. A user-data block it accepts holds a valid
  ticket, and up to the zero padding it is the block the encoder writes for that ticket: two
  different payloads never decode to the same ticket.\<close>

theorem decode_canonical:
  assumes "length bytes = NETCODE_USER_DATA_BYTES" and "decode_auth_ticket (Some bytes) = Inr t"
  shows "validate_auth_ticket t = Inr ()
    \<and> encode_auth_ticket t = Inr (take (2 + length (encode_payload t)) bytes
        @ replicate (NETCODE_USER_DATA_BYTES - (2 + length (encode_payload t))) 0)"
proof -
  define n where "n = (ucast (bytes ! 0) :: u16) OR push_bit 8 (ucast (bytes ! 1))"
  have d: "decode_payload (take (unat n) (drop 2 bytes)) = Inr t" and le: "unat n \<le> 254"
    using assms(2) unfolding decode_auth_ticket_def option.case n_def [symmetric]
    by (auto simp: NETCODE_USER_DATA_BYTES_def Let_def split: if_splits)
  have P: "encode_payload t = take (unat n) (drop 2 bytes)" and v: "valid_ticket t"
    using decode_payload_sound [OF d] by simp_all
  have len: "length (encode_payload t) = unat n"
    unfolding P using le assms(1) by (simp add: NETCODE_USER_DATA_BYTES_def)
  then have n': "(word_of_nat (length (encode_payload t)) :: u16) = n" by simp
  obtain b c r where bytes: "bytes = b # c # r"
    using assms(1) by (cases bytes; cases "tl bytes") (auto simp: NETCODE_USER_DATA_BYTES_def)
  then have "min (length r) (unat n) = unat n"
    using assms(1) le by (simp add: NETCODE_USER_DATA_BYTES_def)
  have n: "n = ucast b OR push_bit 8 (ucast c)"
    by (simp add: n_def bytes)
  have "ucast (n AND 0xff) = b" and "ucast (drop_bit 8 n AND 0xff) = c"
    unfolding n by (rule byte_low, rule byte_high)
  with \<open>min (length r) (unat n) = unat n\<close> show ?thesis
    using v P unfolding encode_valid [OF v] n' Let_def
    by (simp add: validate_auth_ticket_Inr bytes len NETCODE_USER_DATA_BYTES_def)
qed

theorem decode_canonical_witness:
  "length example_user_data = NETCODE_USER_DATA_BYTES
   \<and> decode_auth_ticket (Some example_user_data) = Inr example_ticket
   \<and> validate_auth_ticket example_ticket = Inr ()
   \<and> encode_auth_ticket example_ticket = Inr (take (2 + length (encode_payload example_ticket)) example_user_data
        @ replicate (NETCODE_USER_DATA_BYTES - (2 + length (encode_payload example_ticket))) 0)"
  using decode_canonical [OF example_user_data_decodes] by simp

end
