(* ===== verification/Feature_Registry.thy ===== *)
theory Feature_Registry
  imports Ticket_Codec
begin

text \<open>
  The feature registry (\<open>FeatureRegistry\<close> of \<open>src/realtime/core.h\<close> and \<open>core.cpp\<close>) and the
  question the server asks of a ticket, whether it allows a feature
  (\<open>feature_allowed_by_ticket\<close>, a binary search). The locale \<open>feature_store\<close> is what the server
  and the client rely on; the registry interprets it.
\<close>

record feature_definition =
  fd_id :: u16
  fd_version :: u16
  fd_name :: string

text \<open>The hash map from identifiers, in some iteration order.\<close>

type_synonym feature_registry = "(u16 \<times> feature_definition) list"

definition find_feature :: "feature_registry \<Rightarrow> u16 \<Rightarrow> feature_definition option" where
  "find_feature reg i = map_of reg i"

definition register_feature :: "feature_registry \<Rightarrow> feature_definition \<Rightarrow> feature_registry result" where
  "register_feature reg f =
    (if fd_id f = 0 then Inl (Runtime_error ''feature id must be non-zero'')
     else if fd_name f = [] then Inl (Runtime_error ''feature name must be non-empty'')
     else if find_feature reg (fd_id f) \<noteq> None
       then Inl (Runtime_error (''feature id already registered: '' @ to_string (uint (fd_id f))))
     else Inr ((fd_id f, f) # reg))"

definition list_features :: "feature_registry \<Rightarrow> feature_definition list" where
  "list_features reg = sort_key fd_id (map snd reg)"

definition registry_inv :: "feature_registry \<Rightarrow> bool" where
  "registry_inv reg \<longleftrightarrow> distinct (map fst reg)
     \<and> (\<forall>(i, f) \<in> set reg. fd_id f = i \<and> i \<noteq> 0 \<and> fd_name f \<noteq> [])"

section \<open>Features a ticket allows\<close>

text \<open>\<open>std::lower_bound\<close> on a vector: \<open>first\<close> and the length of the range still searched.\<close>

function lower_bound :: "u16 list \<Rightarrow> nat \<Rightarrow> nat \<Rightarrow> u16 \<Rightarrow> nat" where
  "lower_bound xs first len v =
     (if 0 < len
      then let half = len div 2; middle = first + half in
           if xs ! middle < v then lower_bound xs (middle + 1) (len - half - 1) v
           else lower_bound xs first half v
      else first)"
  by pat_completeness auto
termination
  by (relation "measure (\<lambda>(xs, first, len, v). len)") auto

declare lower_bound.simps [simp del]

definition binary_search :: "u16 list \<Rightarrow> u16 \<Rightarrow> bool" where
  "binary_search xs v = (let i = lower_bound xs 0 (length xs) v in i < length xs \<and> \<not> v < xs ! i)"

definition feature_allowed_by_ticket :: "auth_ticket \<Rightarrow> u16 \<Rightarrow> bool" where
  "feature_allowed_by_ticket t i = binary_search (allowed_features t) i"

lemma lower_bound_spec:
  assumes "sorted xs" and "first + len \<le> length xs"
    and "\<forall>j < first. xs ! j < v" and "\<forall>j < length xs. first + len \<le> j \<longrightarrow> v \<le> xs ! j"
  shows "lower_bound xs first len v \<le> length xs
    \<and> (\<forall>j < lower_bound xs first len v. xs ! j < v)
    \<and> (\<forall>j < length xs. lower_bound xs first len v \<le> j \<longrightarrow> v \<le> xs ! j)"
  using assms
proof (induction xs first len v rule: lower_bound.induct)
  case (1 xs first len v)
  let ?half = "len div 2" let ?mid = "first + ?half"
  show ?case
  proof (cases "0 < len")
    case pos: True
    then have mid: "?mid < length xs" using "1.prems" by (simp add: less_le_trans)
    show ?thesis
    proof (cases "xs ! ?mid < v")
      case True
      have "xs ! j < v" if "j < ?mid + 1" for j
      proof -
        have "xs ! j \<le> xs ! ?mid" using sorted_nth_mono [OF "1.prems"(1), of j ?mid] mid that by simp
        then show ?thesis using True by simp
      qed
      moreover have e: "?mid + 1 + (len - ?half - 1) = first + len" using pos by simp
      moreover have eq: "lower_bound xs first len v = lower_bound xs (?mid + 1) (len - ?half - 1) v"
        by (subst lower_bound.simps) (simp add: pos True Let_def)
      ultimately show ?thesis
        unfolding eq using "1.prems" by (intro "1.IH"(1) [OF pos refl refl True]) (simp_all only: e, blast+)
    next
      case False
      have "v \<le> xs ! j" if "j < length xs" "?mid \<le> j" for j
        using sorted_nth_mono [OF "1.prems"(1) that(2,1)] False by simp
      moreover have eq: "lower_bound xs first len v = lower_bound xs first ?half v"
        by (subst lower_bound.simps) (simp add: pos False Let_def)
      moreover have "first + ?half \<le> length xs" using mid by simp
      ultimately show ?thesis
        unfolding eq using "1.prems"(1,3) by (intro "1.IH"(2) [OF pos refl refl False]) blast+
    qed
  next
    case False
    then show ?thesis using "1.prems" by (simp add: lower_bound.simps [of xs first 0 v])
  qed
qed

lemma binary_search_mem:
  assumes "sorted xs"
  shows "binary_search xs v \<longleftrightarrow> v \<in> set xs"
proof -
  let ?i = "lower_bound xs 0 (length xs) v"
  have s: "?i \<le> length xs" "\<forall>j < ?i. xs ! j < v" "\<forall>j < length xs. ?i \<le> j \<longrightarrow> v \<le> xs ! j"
    using lower_bound_spec [of xs 0 "length xs" v] assms by simp_all
  show ?thesis
  proof
    assume "binary_search xs v"
    then have i: "?i < length xs" "\<not> v < xs ! ?i" by (simp_all add: binary_search_def Let_def)
    with s(3) have "xs ! ?i = v" by auto
    with i(1) show "v \<in> set xs" by (metis nth_mem)
  next
    assume "v \<in> set xs"
    then obtain j where j: "j < length xs" "xs ! j = v" by (auto simp: in_set_conv_nth)
    with s(2) have "?i \<le> j" by (meson not_le order_less_irrefl)
    then have "xs ! ?i \<le> v" using j assms sorted_nth_mono by blast
    with \<open>?i \<le> j\<close> j show "binary_search xs v" by (simp add: binary_search_def Let_def)
  qed
qed

lemma feature_allowed_iff:
  "valid_ticket t \<Longrightarrow> feature_allowed_by_ticket t i \<longleftrightarrow> i \<in> set (allowed_features t)"
  by (simp add: feature_allowed_by_ticket_def binary_search_mem valid_ticket_def strict_sorted_iff)

section \<open>The contract of the registry\<close>

locale feature_store =
  fixes find :: "'r \<Rightarrow> u16 \<Rightarrow> feature_definition option"
    and features :: "'r \<Rightarrow> feature_definition list"
    and add :: "'r \<Rightarrow> feature_definition \<Rightarrow> 'r result"
    and inv :: "'r \<Rightarrow> bool"
  assumes find_id: "inv r \<Longrightarrow> find r i = Some f \<Longrightarrow> fd_id f = i \<and> i \<noteq> 0 \<and> fd_name f \<noteq> []"
    and features_find: "inv r \<Longrightarrow> f \<in> set (features r) \<longleftrightarrow> find r (fd_id f) = Some f"
    and features_sorted: "inv r \<Longrightarrow> sorted_wrt (<) (map fd_id (features r))"
    and add_inv: "inv r \<Longrightarrow> add r f = Inr r' \<Longrightarrow> inv r'"
    and add_find: "inv r \<Longrightarrow> add r f = Inr r' \<Longrightarrow> find r' i = (if i = fd_id f then Some f else find r i)"
    and add_new: "inv r \<Longrightarrow> add r f = Inr r' \<Longrightarrow> find r (fd_id f) = None"
begin

text \<open>Registration never changes a feature that is there.\<close>

lemma find_stable: "inv r \<Longrightarrow> add r f = Inr r' \<Longrightarrow> find r i = Some g \<Longrightarrow> find r' i = Some g"
  using add_find add_new by fastforce

text \<open>The features offered to a ticket: in increasing order, the allowed ones that exist.\<close>

lemma offered_ids:
  assumes "inv r" "sorted_wrt (<) allowed"
  shows "map fd_id (filter (\<lambda>f. fd_id f \<in> set allowed) (features r)) = filter (\<lambda>i. find r i \<noteq> None) allowed"
proof (rule strict_sorted_equal)
  show "sorted_wrt (<) (map fd_id (filter (\<lambda>f. fd_id f \<in> set allowed) (features r)))"
    using features_sorted [OF assms(1)] by (simp add: sorted_wrt_map sorted_wrt_filter)
  show "sorted_wrt (<) (filter (\<lambda>i. find r i \<noteq> None) allowed)"
    using assms(2) by (rule sorted_wrt_filter)
  show "set (map fd_id (filter (\<lambda>f. fd_id f \<in> set allowed) (features r))) = set (filter (\<lambda>i. find r i \<noteq> None) allowed)"
  proof (intro set_eqI iffI)
    fix i assume "i \<in> set (map fd_id (filter (\<lambda>f. fd_id f \<in> set allowed) (features r)))"
    then show "i \<in> set (filter (\<lambda>i. find r i \<noteq> None) allowed)"
      using features_find [OF assms(1)] by auto
  next
    fix i assume "i \<in> set (filter (\<lambda>i. find r i \<noteq> None) allowed)"
    then obtain f where f: "find r i = Some f" and i: "i \<in> set allowed" by auto
    then have "fd_id f = i" using find_id [OF assms(1)] by blast
    with f i show "i \<in> set (map fd_id (filter (\<lambda>f. fd_id f \<in> set allowed) (features r)))"
      using features_find [OF assms(1), of f] by auto
  qed
qed

end

lemma registry_inv_empty [simp]: "registry_inv []"
  by (simp add: registry_inv_def)

lemma registry_inv_add: "registry_inv r \<Longrightarrow> register_feature r f = Inr r' \<Longrightarrow> registry_inv r'"
  by (auto simp: registry_inv_def register_feature_def find_feature_def map_of_eq_None_iff split: if_splits)

lemma list_features_set: "registry_inv r \<Longrightarrow> f \<in> set (list_features r) \<longleftrightarrow> find_feature r (fd_id f) = Some f"
  by (force simp: list_features_def find_feature_def registry_inv_def)

lemma map_fd_id_snd: "registry_inv r \<Longrightarrow> map (fd_id \<circ> snd) r = map fst r"
  by (auto simp: registry_inv_def)

lemma list_features_sorted: "registry_inv r \<Longrightarrow> sorted_wrt (<) (map fd_id (list_features r))"
proof -
  assume r: "registry_inv r"
  have "mset (map fd_id (list_features r)) = mset (map fst r)"
    by (metis list_features_def map_fd_id_snd [OF r] map_map mset_map mset_sort)
  then have "distinct (map fd_id (list_features r))"
    using r by (metis mset_eq_imp_distinct_iff registry_inv_def)
  then show ?thesis
    by (simp add: strict_sorted_iff list_features_def)
qed

interpretation registry: feature_store find_feature list_features register_feature registry_inv
proof unfold_locales
  show "registry_inv r \<Longrightarrow> find_feature r i = Some f \<Longrightarrow> fd_id f = i \<and> i \<noteq> 0 \<and> fd_name f \<noteq> []" for r i f
    by (auto simp: registry_inv_def find_feature_def dest!: map_of_SomeD)
  show "registry_inv r \<Longrightarrow> register_feature r f = Inr r' \<Longrightarrow>
      find_feature r' i = (if i = fd_id f then Some f else find_feature r i)" for r f r' i
    by (auto simp: register_feature_def find_feature_def split: if_splits)
  show "registry_inv r \<Longrightarrow> register_feature r f = Inr r' \<Longrightarrow> find_feature r (fd_id f) = None" for r f r'
    by (auto simp: register_feature_def split: if_splits)
qed (fact list_features_set list_features_sorted registry_inv_add)+

end
