(* ===== verification/Realtime_Support.thy ===== *)
theory Realtime_Support
  imports Feature_Registry
begin

text \<open>
  What the realtime server and client share (\<open>src/realtime/core.cpp\<close>): the protocol's constants
  and messages, the feature sets, guarded callbacks, the reference count of the network library,
  and the checks on addresses and indices. yojimbo's address parser is the parameter
  \<open>address_lib\<close>. A callback is described by what calling it does: it is not set, it returns, or
  it throws; whatever it does to the server or client through their public operations is a step
  of its own.
\<close>

section \<open>Constants and messages\<close>

definition kReliableChannel :: int where "kReliableChannel = 0"
definition kUnreliableChannel :: int where "kUnreliableChannel = 1"
definition kMaxPayloadBytes :: nat where "kMaxPayloadBytes = 1024"
definition numChannels :: int where "numChannels = 2"
definition MaxClients :: int where "MaxClients = 64"

datatype control_action = Offer | Activate | Deactivate

fun action_code :: "control_action \<Rightarrow> byte" where
  "action_code Offer = 1"
| "action_code Activate = 2"
| "action_code Deactivate = 3"

text \<open>A control message carries any byte as its action: it comes from the network.\<close>

datatype message =
  ControlMessage (ctl_action: byte) (ctl_feature: u16) (ctl_version: u16)
| PayloadMessage (pay_feature: u16) (pay_bytes: string)

section \<open>Feature sets\<close>

definition feature_set_insert :: "u16 set \<Rightarrow> u16 \<Rightarrow> bool \<times> u16 set" where
  "feature_set_insert s i = (i \<notin> s, insert i s)"

definition feature_set_erase :: "u16 set \<Rightarrow> u16 \<Rightarrow> bool \<times> u16 set" where
  "feature_set_erase s i = (i \<in> s, s - {i})"

definition feature_set_contains :: "u16 set \<Rightarrow> u16 \<Rightarrow> bool" where
  "feature_set_contains s i = (i \<in> s)"

section \<open>Callbacks\<close>

datatype call_result = Unset | Returns | Throws exn

type_synonym 'ev callbacks = "'ev \<Rightarrow> call_result"

text \<open>What the code does to the outside, in order: library calls, callbacks, lines on \<open>std::cerr\<close>.\<close>

datatype ('io, 'ev) entry = Io 'io | Call 'ev | Stderr string

fun describe_exception :: "exn option \<Rightarrow> string" where
  "describe_exception None = ''unknown exception''"
| "describe_exception (Some (Runtime_error m)) = m"
| "describe_exception (Some (Invalid_argument m)) = m"
| "describe_exception (Some (Out_of_range m)) = m"
| "describe_exception (Some (Overflow_error m)) = m"
| "describe_exception (Some (Json_exception m)) = m"
| "describe_exception (Some (Foreign m)) = m"
| "describe_exception (Some Non_std) = ''non-std exception''"

text \<open>\<open>mk\<close> makes the event of the error callback, \<open>cb\<close> says what calling it does.\<close>

definition report_callback_failure ::
  "'ev callbacks \<Rightarrow> (string \<Rightarrow> 'ev) \<Rightarrow> string \<Rightarrow> exn \<Rightarrow> ('io, 'ev) entry list" where
  "report_callback_failure cb mk ctx e =
     (let message = ctx @ '': '' @ describe_exception (Some e) in
      case cb (mk message) of
        Returns \<Rightarrow> [Call (mk message)]
      | Throws e' \<Rightarrow> [Call (mk message),
          Stderr (''[realtime] error callback failed while reporting '' @ [CHR 0x27] @ message @ [CHR 0x27]
                  @ '': '' @ describe_exception (Some e') @ [CHR 0x0A])]
      | Unset \<Rightarrow> [Stderr (''[realtime] '' @ message @ [CHR 0x0A])])"

text \<open>With the caller's test that the callback is set; \<open>noexcept\<close>: no exception leaves it.\<close>

definition invoke_callback_guarded ::
  "'ev callbacks \<Rightarrow> 'ev \<Rightarrow> 'ev callbacks \<Rightarrow> (string \<Rightarrow> 'ev) \<Rightarrow> string \<Rightarrow> ('io, 'ev) entry list" where
  "invoke_callback_guarded cb ev err mk ctx = (case cb ev of
      Unset \<Rightarrow> []
    | Returns \<Rightarrow> [Call ev]
    | Throws e \<Rightarrow> Call ev # report_callback_failure err mk ctx e)"

lemma report_callback_failure_no_io: "Io x \<notin> set (report_callback_failure cb mk ctx e)"
  by (simp add: report_callback_failure_def Let_def split: call_result.splits)

lemma invoke_callback_guarded_no_io: "Io x \<notin> set (invoke_callback_guarded cb ev err mk ctx)"
  by (simp add: invoke_callback_guarded_def report_callback_failure_no_io split: call_result.splits)

section \<open>The library's reference count\<close>

record library_state =
  library_refs :: int
  library_initialized :: bool

text \<open>\<open>init_ok\<close> is the result of \<open>InitializeYojimbo\<close>.\<close>

definition retain_library :: "bool \<Rightarrow> library_state \<Rightarrow> library_state outcome" where
  "retain_library init_ok s =
     (if library_refs s = 0
      then if \<not> init_ok then throw (Runtime_error ''failed to initialize yojimbo'') s
           else ok (s\<lparr>library_initialized := True, library_refs := library_refs s + 1\<rparr>)
      else ok (s\<lparr>library_refs := library_refs s + 1\<rparr>))"

definition release_library :: "library_state \<Rightarrow> library_state" where
  "release_library s =
     (if library_refs s \<le> 0 then s
      else let s = s\<lparr>library_refs := library_refs s - 1\<rparr> in
           if library_refs s = 0 then s\<lparr>library_initialized := False\<rparr> else s)"

definition library_inv :: "library_state \<Rightarrow> bool" where
  "library_inv s \<longleftrightarrow> 0 \<le> library_refs s \<and> (library_initialized s \<longleftrightarrow> 0 < library_refs s)"

lemma library_inv_retain: "library_inv s \<Longrightarrow> library_inv (snd (retain_library b s))"
  by (auto simp: library_inv_def retain_library_def)

lemma library_inv_release: "library_inv s \<Longrightarrow> library_inv (release_library s)"
  by (auto simp: library_inv_def release_library_def Let_def)

text \<open>A release undoes a retain.\<close>

lemma retain_release:
  assumes "library_inv lib" and "retain_library b lib = (None, lib')"
  shows "release_library lib' = lib" "library_inv lib'" "0 < library_refs lib'"
proof -
  have "lib' = (if library_refs lib = 0 then lib\<lparr>library_initialized := True, library_refs := 1\<rparr>
      else lib\<lparr>library_refs := library_refs lib + 1\<rparr>)"
    using assms(2) by (auto simp: retain_library_def ok_def throw_def split: if_splits)
  moreover have "lib\<lparr>library_refs := 0, library_initialized := False\<rparr> = lib" if "library_refs lib = 0"
    using assms(1) that by (cases lib) (simp add: library_inv_def)
  ultimately show "release_library lib' = lib" "library_inv lib'" "0 < library_refs lib'"
    using assms(1) by (auto simp: release_library_def library_inv_def Let_def)
qed

section \<open>Addresses and indices\<close>

datatype address_type = ADDRESS_NONE | ADDRESS_IPV4 | ADDRESS_IPV6

record address =
  addr_type :: address_type
  addr_bytes4 :: "byte list"
  addr_words6 :: "u16 list"
  addr_port :: u16

record address_lib =
  address_of :: "string \<Rightarrow> address"
  address_text :: "address \<Rightarrow> string"

definition address_valid :: "address \<Rightarrow> bool" where
  "address_valid a \<longleftrightarrow> addr_type a \<noteq> ADDRESS_NONE"

definition validate_bind_address :: "address_lib \<Rightarrow> string \<Rightarrow> unit result" where
  "validate_bind_address A bind =
     (if \<not> address_valid (address_of A bind)
      then Inl (Runtime_error (''invalid realtime server bind address: '' @ bind)) else Inr ())"

definition parse_address :: "address_lib \<Rightarrow> string \<Rightarrow> string \<Rightarrow> address result" where
  "parse_address A t context_name =
     (if \<not> address_valid (address_of A t)
      then Inl (Runtime_error (''invalid realtime '' @ context_name @ '' address: '' @ t))
      else Inr (address_of A t))"

definition address_is_wildcard :: "address \<Rightarrow> bool" where
  "address_is_wildcard a = (case addr_type a of
      ADDRESS_IPV4 \<Rightarrow> addr_bytes4 a ! 0 = 0 \<and> addr_bytes4 a ! 1 = 0 \<and> addr_bytes4 a ! 2 = 0 \<and> addr_bytes4 a ! 3 = 0
    | ADDRESS_IPV6 \<Rightarrow> list_all (\<lambda>i. addr_words6 a ! i = 0) [0..<8]
    | ADDRESS_NONE \<Rightarrow> False)"

fun address_family_name :: "address_type \<Rightarrow> string" where
  "address_family_name ADDRESS_IPV4 = ''IPv4''"
| "address_family_name ADDRESS_IPV6 = ''IPv6''"
| "address_family_name ADDRESS_NONE = ''unknown''"

definition validate_max_clients :: "int \<Rightarrow> unit result" where
  "validate_max_clients n =
     (if n \<le> 0 \<or> n > MaxClients
      then Inl (Runtime_error (''realtime max-clients must be in range [1,'' @ to_string MaxClients @ '']''))
      else Inr ())"

definition validate_registry :: "feature_registry option \<Rightarrow> string \<Rightarrow> unit result" where
  "validate_registry reg owner_kind =
     (if reg = None
      then Inl (Runtime_error (''realtime '' @ owner_kind @ '' requires a feature registry'')) else Inr ())"

fun validate_connect_addresses :: "address_lib \<Rightarrow> address \<Rightarrow> string list \<Rightarrow> unit result" where
  "validate_connect_addresses A bind [] = Inr ()"
| "validate_connect_addresses A bind (t # ts) =
     bind_result (parse_address A t ''server connect'') (\<lambda>a.
     if address_is_wildcard a
       then Inl (Runtime_error (''realtime connect-address must not use a wildcard host: '' @ t))
     else if addr_type a \<noteq> addr_type bind
       then Inl (Runtime_error (''realtime connect-address family mismatch: bind ''
              @ address_family_name (addr_type bind) @ '' connect '' @ address_family_name (addr_type a)))
     else validate_connect_addresses A bind ts)"

definition validate_client_index :: "int \<Rightarrow> int \<Rightarrow> bool \<Rightarrow> unit result" where
  "validate_client_index i max_clients allow_broadcast =
     (if allow_broadcast \<and> i = -1 then Inr ()
      else if i < 0 \<or> i \<ge> max_clients
        then Inl (Runtime_error (''realtime client-index out of range: '' @ to_string i))
      else Inr ())"

lemma validate_connect_addresses_Inr:
  "validate_connect_addresses A bind ts = Inr () \<longleftrightarrow>
     (\<forall>t \<in> set ts. address_valid (address_of A t) \<and> \<not> address_is_wildcard (address_of A t)
        \<and> addr_type (address_of A t) = addr_type bind)"
  by (induction ts) (auto simp: bind_result_Inr_iff parse_address_def split: if_splits)

lemma validate_client_index_Inr:
  "validate_client_index i n b = Inr () \<longleftrightarrow> 0 \<le> i \<and> i < n \<or> b \<and> i = -1"
  by (auto simp: validate_client_index_def)

end
