(* ===== verification/Realtime_Server.thy ===== *)
theory Realtime_Server
  imports Realtime_Support
begin

text \<open>
  The realtime server (\<open>RealtimeServer\<close> and \<open>RealtimeServer::Impl\<close> of \<open>src/realtime/core.h\<close> and
  \<open>core.cpp\<close>). The network library is a parameter: \<open>server_transport\<close> holds what its queries
  answer during one iteration of the worker loop, \<open>transport_event\<close> the connections and
  disconnections it reports, and what the server does to it is recorded in the log. An iteration
  of the worker loop is one step; the public operations, which other threads and the callbacks
  call, are steps between iterations: of the server's state they only append to the command
  queue, which an iteration empties once, at its start.
\<close>

section \<open>State\<close>

datatype server_event =
  SvStarted string
| SvStopped
| SvClientConnected int u64 auth_ticket
| SvClientDisconnected int
| SvFeatureActivated int u16
| SvFeatureDeactivated int u16
| SvMessage int u16 string
| SvError string

datatype server_io =
  SrvSend int int message \<comment> \<open>client, channel, message\<close>
| SrvDisconnect int
| SrvRelease int message

type_synonym server_entry = "(server_io, server_event) entry"

datatype server_command_type = ActivateFeature | DeactivateFeature | SendPayload

record server_command =
  sc_type :: server_command_type
  sc_client :: int
  sc_feature :: u16
  sc_reliable :: bool
  sc_payload :: string

record server_config =
  cfg_bind_address :: string
  cfg_max_clients :: int
  cfg_auth_scope :: string
  cfg_connect_addresses :: "string list"

text \<open>\<open>worker\<close> as \<open>std::thread\<close> sees it: no thread, a running one, one that ended and was not joined.\<close>

datatype worker_thread = No_thread | Live_thread | Ended_thread

record server_state =
  sv_registry :: feature_registry
  sv_running :: bool
  sv_worker :: worker_thread
  sv_bound_address :: string
  sv_commands :: "server_command list"
  sv_active :: "int \<rightharpoonup> u16 set"
  sv_tickets :: "int \<rightharpoonup> auth_ticket"
  sv_terminated :: bool \<comment> \<open>\<open>std::terminate\<close> was called\<close>
  sv_log :: "server_entry list"

record server_transport =
  tr_connected :: "int \<Rightarrow> bool"
  tr_user_data :: "int \<Rightarrow> byte list option"
  tr_client_id :: "int \<Rightarrow> u64"
  tr_inbox :: "int \<Rightarrow> int \<Rightarrow> message list" \<comment> \<open>what \<open>ReceiveMessage\<close> gives until it gives null\<close>

datatype transport_event = TConnected int | TDisconnected int

definition sv_emit :: "server_entry list \<Rightarrow> server_state \<Rightarrow> server_state" where
  "sv_emit es s = s\<lparr>sv_log := sv_log s @ es\<rparr>"

text \<open>\<open>if (current.error) current.error(message)\<close>, outside any guard.\<close>

definition sv_error :: "server_event callbacks \<Rightarrow> string \<Rightarrow> server_state \<Rightarrow> server_state outcome" where
  "sv_error cb message s = (case cb (SvError message) of
      Unset \<Rightarrow> ok s
    | Returns \<Rightarrow> ok (sv_emit [Call (SvError message)] s)
    | Throws e \<Rightarrow> throw e (sv_emit [Call (SvError message)] s))"

text \<open>\<open>if (current.f) invoke_callback_guarded(current.f, current.error, context)\<close>.\<close>

definition sv_guarded :: "server_event callbacks \<Rightarrow> server_event \<Rightarrow> string \<Rightarrow> server_state \<Rightarrow> server_state" where
  "sv_guarded cb ev ctx s = sv_emit (invoke_callback_guarded cb ev cb SvError ctx) s"

section \<open>Construction\<close>

definition initial_server :: "feature_registry \<Rightarrow> server_state" where
  "initial_server reg = \<lparr>sv_registry = reg, sv_running = False, sv_worker = No_thread, sv_bound_address = [],
     sv_commands = [], sv_active = Map.empty, sv_tickets = Map.empty, sv_terminated = False, sv_log = []\<rparr>"

definition construct_server ::
  "address_lib \<Rightarrow> bool \<Rightarrow> feature_registry option \<Rightarrow> server_config \<Rightarrow> library_state
    \<Rightarrow> library_state \<times> server_state result" where
  "construct_server A init_ok reg cfg lib =
     (case bind_result (validate_registry reg ''server'') (\<lambda>_.
           bind_result (validate_bind_address A (cfg_bind_address cfg)) (\<lambda>_.
           bind_result (validate_max_clients (cfg_max_clients cfg)) (\<lambda>_.
           bind_result (parse_address A (cfg_bind_address cfg) ''server bind'') (\<lambda>bind.
             validate_connect_addresses A bind (cfg_connect_addresses cfg))))) of
        Inl e \<Rightarrow> (lib, Inl e)
      | Inr _ \<Rightarrow> (case retain_library init_ok lib of
          (Some e, lib') \<Rightarrow> (lib', Inl e)
        | (None, lib') \<Rightarrow> (lib', Inr (initial_server (the reg)))))"

section \<open>Connections\<close>

definition effective_auth_scope :: "server_config \<Rightarrow> server_state \<Rightarrow> string result" where
  "effective_auth_scope cfg s =
     (if cfg_auth_scope cfg \<noteq> [] then Inr (cfg_auth_scope cfg)
      else if sv_bound_address s \<noteq> [] then Inr (sv_bound_address s)
      else Inl (Runtime_error ''realtime server auth scope is unavailable before startup''))"

definition offer_messages :: "feature_registry \<Rightarrow> auth_ticket \<Rightarrow> int \<Rightarrow> server_entry list" where
  "offer_messages reg t i = concat (map (\<lambda>f.
      if \<not> feature_allowed_by_ticket t (fd_id f) then []
      else [Io (SrvSend i kReliableChannel (ControlMessage (action_code Offer) (fd_id f) (fd_version f)))])
    (list_features reg))"

definition sv_reject :: "server_event callbacks \<Rightarrow> int \<Rightarrow> string \<Rightarrow> server_state \<Rightarrow> server_state outcome" where
  "sv_reject cb i message s =
     and_then (sv_error cb message s) (\<lambda>s. ok (sv_emit [Io (SrvDisconnect i)] s))"

definition on_client_connected ::
  "server_event callbacks \<Rightarrow> server_transport \<Rightarrow> server_config \<Rightarrow> int \<Rightarrow> server_state \<Rightarrow> server_state outcome" where
  "on_client_connected cb T cfg i s = (case decode_auth_ticket (tr_user_data T i) of
      Inl e \<Rightarrow> sv_reject cb i (''client connected with invalid auth ticket: '' @ describe_exception (Some e)) s
    | Inr t \<Rightarrow>
      let cid = tr_client_id T i in
      if client_id t \<noteq> cid
      then sv_reject cb i (''client auth ticket client-id mismatch: ticket '' @ to_string (uint (client_id t))
                           @ '' transport '' @ to_string (uint cid)) s
      else (case effective_auth_scope cfg s of
        Inl e \<Rightarrow> throw e s
      | Inr scope \<Rightarrow>
        if server_scope t \<noteq> scope
        then sv_reject cb i (''client auth ticket server-scope mismatch: ticket '' @ [CHR 0x27] @ server_scope t
               @ [CHR 0x27] @ '' server '' @ [CHR 0x27] @ scope @ [CHR 0x27]) s
        else
          let s = s\<lparr>sv_tickets := (sv_tickets s)(i \<mapsto> t)\<rparr>;
              s = sv_guarded cb (SvClientConnected i cid t) ''realtime server client-connected callback failed'' s
          in ok (sv_emit (offer_messages (sv_registry s) t i) s)))"

definition on_client_disconnected ::
  "server_event callbacks \<Rightarrow> int \<Rightarrow> server_state \<Rightarrow> server_state" where
  "on_client_disconnected cb i s =
     sv_guarded cb (SvClientDisconnected i) ''realtime server client-disconnected callback failed''
       (s\<lparr>sv_active := (sv_active s)(i := None), sv_tickets := (sv_tickets s)(i := None)\<rparr>)"

fun handle_transport_event ::
  "server_event callbacks \<Rightarrow> server_transport \<Rightarrow> server_config \<Rightarrow> transport_event \<Rightarrow> server_state \<Rightarrow> server_state outcome" where
  "handle_transport_event cb T cfg (TConnected i) s = on_client_connected cb T cfg i s"
| "handle_transport_event cb T cfg (TDisconnected i) s = ok (on_client_disconnected cb i s)"

section \<open>Commands\<close>

definition client_features :: "server_state \<Rightarrow> int \<Rightarrow> u16 set" where
  "client_features s i = (case sv_active s i of None \<Rightarrow> {} | Some fs \<Rightarrow> fs)"

definition send_to_client ::
  "server_transport \<Rightarrow> u16 \<Rightarrow> string \<Rightarrow> bool \<Rightarrow> int \<Rightarrow> server_state \<Rightarrow> server_state" where
  "send_to_client T fid payload reliable i s =
     (if \<not> tr_connected T i then s
      else case sv_active s i of
        None \<Rightarrow> s
      | Some fs \<Rightarrow>
        if \<not> feature_set_contains fs fid then s
        else sv_emit [Io (SrvSend i (if reliable then kReliableChannel else kUnreliableChannel)
                            (PayloadMessage fid payload))] s)"

definition send_payload ::
  "server_event callbacks \<Rightarrow> server_transport \<Rightarrow> server_config \<Rightarrow> int \<Rightarrow> u16 \<Rightarrow> string \<Rightarrow> bool
    \<Rightarrow> server_state \<Rightarrow> server_state outcome" where
  "send_payload cb T cfg i fid payload reliable s =
     (if find_feature (sv_registry s) fid = None
      then sv_error cb (''cannot send payload for unknown feature id '' @ to_string (uint fid)) s
      else if length payload > kMaxPayloadBytes then sv_error cb ''payload exceeds max size'' s
      else if i \<ge> 0 then ok (send_to_client T fid payload reliable i s)
      else ok (fold (send_to_client T fid payload reliable) [0..cfg_max_clients cfg - 1] s))"

definition activate_command ::
  "server_event callbacks \<Rightarrow> server_command \<Rightarrow> server_state \<Rightarrow> server_state outcome" where
  "activate_command cb c s = (case find_feature (sv_registry s) (sc_feature c) of
      None \<Rightarrow> ok s
    | Some feature \<Rightarrow> (case sv_tickets s (sc_client c) of
        None \<Rightarrow> sv_error cb ''cannot activate feature for client without auth ticket'' s
      | Some t \<Rightarrow>
        if \<not> feature_allowed_by_ticket t (sc_feature c)
        then sv_error cb (''client auth ticket does not allow feature id '' @ to_string (uint (sc_feature c))) s
        else
          let (inserted, fs) = feature_set_insert (client_features s (sc_client c)) (sc_feature c);
              s = s\<lparr>sv_active := (sv_active s)(sc_client c \<mapsto> fs)\<rparr>
          in if \<not> inserted then ok s
             else ok (sv_guarded cb (SvFeatureActivated (sc_client c) (sc_feature c))
                        ''realtime server feature-activated callback failed''
                      (sv_emit [Io (SrvSend (sc_client c) kReliableChannel
                          (ControlMessage (action_code Activate) (sc_feature c) (fd_version feature)))] s))))"

definition deactivate_command ::
  "server_event callbacks \<Rightarrow> server_command \<Rightarrow> server_state \<Rightarrow> server_state outcome" where
  "deactivate_command cb c s =
     (if find_feature (sv_registry s) (sc_feature c) = None
      then sv_error cb (''cannot deactivate unknown feature id '' @ to_string (uint (sc_feature c))) s
      else case sv_active s (sc_client c) of
        None \<Rightarrow> ok s
      | Some fs \<Rightarrow>
        let (erased, fs') = feature_set_erase fs (sc_feature c) in
        if \<not> erased then ok s
        else
          let s = s\<lparr>sv_active := (if fs' = {} then (sv_active s)(sc_client c := None)
                                  else (sv_active s)(sc_client c \<mapsto> fs'))\<rparr>
          in ok (sv_guarded cb (SvFeatureDeactivated (sc_client c) (sc_feature c))
                   ''realtime server feature-deactivated callback failed''
                 (sv_emit [Io (SrvSend (sc_client c) kReliableChannel
                     (ControlMessage (action_code Deactivate) (sc_feature c) 0))] s)))"

definition process_command ::
  "server_event callbacks \<Rightarrow> server_transport \<Rightarrow> server_config \<Rightarrow> server_command \<Rightarrow> server_state \<Rightarrow> server_state outcome" where
  "process_command cb T cfg c s =
     (if sc_client c \<ge> 0 \<and> \<not> tr_connected T (sc_client c) then ok s
      else case sc_type c of
        ActivateFeature \<Rightarrow> activate_command cb c s
      | DeactivateFeature \<Rightarrow> deactivate_command cb c s
      | SendPayload \<Rightarrow> send_payload cb T cfg (sc_client c) (sc_feature c) (sc_payload c) (sc_reliable c) s)"

definition process_commands ::
  "server_event callbacks \<Rightarrow> server_transport \<Rightarrow> server_config \<Rightarrow> server_state \<Rightarrow> server_state outcome" where
  "process_commands cb T cfg s =
     run_all (process_command cb T cfg) (sv_commands s) (s\<lparr>sv_commands := []\<rparr>)"

section \<open>Messages\<close>

definition process_message ::
  "server_event callbacks \<Rightarrow> int \<Rightarrow> message \<Rightarrow> server_state \<Rightarrow> server_state" where
  "process_message cb i incoming s = sv_emit [Io (SrvRelease i incoming)] (case incoming of
      ControlMessage _ _ _ \<Rightarrow> s
    | PayloadMessage fid payload \<Rightarrow> (case sv_active s i of
        None \<Rightarrow> s
      | Some fs \<Rightarrow>
        if feature_set_contains fs fid
        then sv_guarded cb (SvMessage i fid payload) ''realtime server message callback failed'' s else s))"

definition process_client_messages ::
  "server_event callbacks \<Rightarrow> server_transport \<Rightarrow> int \<Rightarrow> server_state \<Rightarrow> server_state" where
  "process_client_messages cb T i s =
     (if \<not> tr_connected T i then s
      else fold (\<lambda>channel. fold (process_message cb i) (tr_inbox T i channel)) [0..numChannels - 1] s)"

definition process_messages ::
  "server_event callbacks \<Rightarrow> server_transport \<Rightarrow> server_config \<Rightarrow> server_state \<Rightarrow> server_state" where
  "process_messages cb T cfg s = fold (process_client_messages cb T) [0..cfg_max_clients cfg - 1] s"

section \<open>The worker loop\<close>

text \<open>One iteration: \<open>evs\<close> are the events the library reports while time advances and packets arrive.\<close>

definition server_iteration ::
  "server_event callbacks \<Rightarrow> server_transport \<Rightarrow> server_config \<Rightarrow> transport_event list \<Rightarrow> server_state \<Rightarrow> server_state" where
  "server_iteration cb T cfg evs s =
     (case and_then (run_all (handle_transport_event cb T cfg) evs s) (\<lambda>s.
           and_then (process_commands cb T cfg s) (\<lambda>s. ok (process_messages cb T cfg s))) of
        (None, s) \<Rightarrow> s
      | (Some e, s) \<Rightarrow>
        (sv_emit (report_callback_failure cb SvError ''realtime server worker failed'' e) s)\<lparr>sv_running := False\<rparr>)"

text \<open>After the loop the worker stops the library's server, which disconnects the clients \<open>ids\<close>.\<close>

definition server_worker_exit :: "server_event callbacks \<Rightarrow> int list \<Rightarrow> server_state \<Rightarrow> server_state" where
  "server_worker_exit cb ids s = (fold (on_client_disconnected cb) ids s)\<lparr>sv_worker := Ended_thread\<rparr>"

text \<open>
  \<open>listening\<close> is what \<open>IsRunning\<close> answers after \<open>Start\<close>, \<open>addr\<close> the library's address then,
  \<open>spawn\<close> the exception of the thread's constructor, if any. Assigning a thread to a joinable
  \<open>std::thread\<close> calls \<open>std::terminate\<close>.
\<close>

definition server_start ::
  "server_event callbacks \<Rightarrow> bool \<Rightarrow> string \<Rightarrow> exn option \<Rightarrow> server_state \<Rightarrow> server_state outcome" where
  "server_start cb listening addr spawn s =
     (if sv_running s then ok s
      else if \<not> listening then throw (Runtime_error ''failed to start realtime server'') s
      else let s = s\<lparr>sv_running := True\<rparr> in
        (case spawn of
          Some e \<Rightarrow> throw e (s\<lparr>sv_running := False\<rparr>)
        | None \<Rightarrow>
          if sv_worker s \<noteq> No_thread then ok (s\<lparr>sv_terminated := True\<rparr>)
          else ok (sv_guarded cb (SvStarted addr) ''realtime server started callback failed''
                     (s\<lparr>sv_worker := Live_thread, sv_bound_address := addr\<rparr>))))"

text \<open>\<open>ids\<close> are the clients the worker disconnects on its way out, while \<open>stop\<close> waits for it.\<close>

definition server_stop :: "server_event callbacks \<Rightarrow> int list \<Rightarrow> server_state \<Rightarrow> server_state" where
  "server_stop cb ids s =
     (if \<not> sv_running s then s\<lparr>sv_commands := []\<rparr>
      else
        let s = s\<lparr>sv_running := False\<rparr>;
            s = (if sv_worker s = Live_thread then server_worker_exit cb ids s else s)\<lparr>sv_worker := No_thread\<rparr>;
            s = s\<lparr>sv_commands := [], sv_active := Map.empty, sv_tickets := Map.empty\<rparr>
        in sv_guarded cb SvStopped ''realtime server stopped callback failed'' s)"

text \<open>The destructor: a joinable thread that is destroyed calls \<open>std::terminate\<close>.\<close>

definition server_destroy ::
  "server_event callbacks \<Rightarrow> int list \<Rightarrow> server_state \<times> library_state \<Rightarrow> server_state \<times> library_state" where
  "server_destroy cb ids = (\<lambda>(s, lib).
     let s = server_stop cb ids s; lib = release_library lib in
     (if sv_worker s \<noteq> No_thread then s\<lparr>sv_terminated := True\<rparr> else s, lib))"

section \<open>Public operations\<close>

definition enqueue_command :: "server_command \<Rightarrow> server_state \<Rightarrow> server_state" where
  "enqueue_command c s = s\<lparr>sv_commands := sv_commands s @ [c]\<rparr>"

definition check_operation ::
  "server_config \<Rightarrow> bool \<Rightarrow> string \<Rightarrow> int \<Rightarrow> u16 \<Rightarrow> server_state \<Rightarrow> unit result" where
  "check_operation cfg broadcast what i fid s =
     (if \<not> sv_running s then Inl (Runtime_error ''realtime server is not running'')
      else bind_result (validate_client_index i (cfg_max_clients cfg) broadcast) (\<lambda>_.
        if find_feature (sv_registry s) fid = None
        then Inl (Runtime_error (''unknown feature id for '' @ what @ '': '' @ to_string (uint fid)))
        else Inr ()))"

definition activate_feature :: "server_config \<Rightarrow> int \<Rightarrow> u16 \<Rightarrow> server_state \<Rightarrow> server_state result" where
  "activate_feature cfg i fid s = bind_result (check_operation cfg False ''activation'' i fid s) (\<lambda>_.
     Inr (enqueue_command \<lparr>sc_type = ActivateFeature, sc_client = i, sc_feature = fid,
            sc_reliable = True, sc_payload = []\<rparr> s))"

definition deactivate_feature :: "server_config \<Rightarrow> int \<Rightarrow> u16 \<Rightarrow> server_state \<Rightarrow> server_state result" where
  "deactivate_feature cfg i fid s = bind_result (check_operation cfg False ''deactivation'' i fid s) (\<lambda>_.
     Inr (enqueue_command \<lparr>sc_type = DeactivateFeature, sc_client = i, sc_feature = fid,
            sc_reliable = True, sc_payload = []\<rparr> s))"

definition send_reliable :: "server_config \<Rightarrow> int \<Rightarrow> u16 \<Rightarrow> string \<Rightarrow> server_state \<Rightarrow> server_state result" where
  "send_reliable cfg i fid payload s = bind_result (check_operation cfg True ''send'' i fid s) (\<lambda>_.
     Inr (enqueue_command \<lparr>sc_type = SendPayload, sc_client = i, sc_feature = fid,
            sc_reliable = True, sc_payload = payload\<rparr> s))"

definition send_unreliable :: "server_config \<Rightarrow> int \<Rightarrow> u16 \<Rightarrow> string \<Rightarrow> server_state \<Rightarrow> server_state result" where
  "send_unreliable cfg i fid payload s = bind_result (check_operation cfg True ''send'' i fid s) (\<lambda>_.
     Inr (enqueue_command \<lparr>sc_type = SendPayload, sc_client = i, sc_feature = fid,
            sc_reliable = False, sc_payload = payload\<rparr> s))"

definition broadcast_reliable :: "server_config \<Rightarrow> u16 \<Rightarrow> string \<Rightarrow> server_state \<Rightarrow> server_state result" where
  "broadcast_reliable cfg fid payload s = send_reliable cfg (-1) fid payload s"

definition broadcast_unreliable :: "server_config \<Rightarrow> u16 \<Rightarrow> string \<Rightarrow> server_state \<Rightarrow> server_state result" where
  "broadcast_unreliable cfg fid payload s = send_unreliable cfg (-1) fid payload s"

section \<open>Connect tokens\<close>

fun resolve_addresses :: "address_lib \<Rightarrow> address \<Rightarrow> string list \<Rightarrow> string list result" where
  "resolve_addresses A bound [] = Inr []"
| "resolve_addresses A bound (configured # cs) =
     bind_result (parse_address A configured ''server connect'') (\<lambda>a.
     let a = (if addr_port a = 0 then a\<lparr>addr_port := addr_port bound\<rparr> else a) in
     bind_result (resolve_addresses A bound cs) (\<lambda>resolved. Inr (address_text A a # resolved)))"

definition resolved_connect_addresses ::
  "address_lib \<Rightarrow> server_config \<Rightarrow> server_state \<Rightarrow> string list result" where
  "resolved_connect_addresses A cfg s =
     (if sv_bound_address s = []
      then Inl (Runtime_error ''realtime server connect addresses are unavailable before startup'')
      else bind_result (parse_address A (sv_bound_address s) ''server bound'') (\<lambda>bound.
        if cfg_connect_addresses cfg = []
        then if address_is_wildcard bound
             then Inl (Runtime_error ''realtime server create-connect-token requires connect-addresses for wildcard binds'')
             else Inr [sv_bound_address s]
        else resolve_addresses A bound (cfg_connect_addresses cfg)))"

text \<open>What \<open>netcode_generate_connect_token\<close> is given, the server's key and the protocol apart.\<close>

record token_request =
  tk_public :: "string list"
  tk_internal :: "string list"
  tk_expire_seconds :: int
  tk_timeout_seconds :: int
  tk_client_id :: u64
  tk_user_data :: "byte list"

fun check_features_known :: "feature_registry \<Rightarrow> u16 list \<Rightarrow> unit result" where
  "check_features_known reg [] = Inr ()"
| "check_features_known reg (f # fs) =
     (if find_feature reg f = None
      then Inl (Runtime_error (''auth ticket allowed unknown feature id '' @ to_string (uint f)))
      else check_features_known reg fs)"

definition token_request_of ::
  "address_lib \<Rightarrow> server_config \<Rightarrow> i64 \<Rightarrow> verified_auth_ticket \<Rightarrow> int \<Rightarrow> int \<Rightarrow> server_state \<Rightarrow> token_request result" where
  "token_request_of A cfg clock v expire_seconds timeout_seconds s =
    (let t = vat_ticket v in
     if \<not> sv_running s \<or> sv_bound_address s = []
       then Inl (Runtime_error ''server must be running before creating connect tokens'')
     else if expire_seconds \<le> 0
       then Inl (Runtime_error ''connect token expire-seconds must be positive'')
     else if timeout_seconds \<le> 0
       then Inl (Runtime_error ''connect token timeout-seconds must be positive'')
     else if sint clock < sint (issued_at t)
       then Inl (Runtime_error ''verified auth ticket is not valid yet'')
     else if sint clock > sint (expires_at t)
       then Inl (Runtime_error ''verified auth ticket has expired'')
     else bind_result (check_features_known (sv_registry s) (allowed_features t)) (\<lambda>_.
     bind_result (effective_auth_scope cfg s) (\<lambda>scope.
     if server_scope t \<noteq> scope
       then Inl (Runtime_error (''auth ticket server-scope mismatch: ticket '' @ [CHR 0x27] @ server_scope t
              @ [CHR 0x27] @ '' server '' @ [CHR 0x27] @ scope @ [CHR 0x27]))
     else let remaining_lifetime = sint (expires_at t) - sint clock in
     if remaining_lifetime \<le> 0
       then Inl (Runtime_error ''verified auth ticket has no remaining lifetime'')
     else let effective_expire_seconds = min expire_seconds remaining_lifetime;
              effective_timeout_seconds = min timeout_seconds effective_expire_seconds in
     bind_result (encode_auth_ticket t) (\<lambda>encoded.
     bind_result (resolved_connect_addresses A cfg s) (\<lambda>addresses.
       Inr \<lparr>tk_public = addresses, tk_internal = map (\<lambda>_. sv_bound_address s) addresses,
            tk_expire_seconds = effective_expire_seconds, tk_timeout_seconds = effective_timeout_seconds,
            tk_client_id = client_id t, tk_user_data = encoded\<rparr>)))))"

text \<open>\<open>generate\<close> is the library's generator, \<open>None\<close> for a result other than \<open>NETCODE_OK\<close>.\<close>

definition create_connect_token ::
  "(token_request \<Rightarrow> string option) \<Rightarrow> address_lib \<Rightarrow> server_config \<Rightarrow> i64 \<Rightarrow> verified_auth_ticket \<Rightarrow> int \<Rightarrow> int
    \<Rightarrow> server_state \<Rightarrow> string result" where
  "create_connect_token generate A cfg clock v expire_seconds timeout_seconds s =
     bind_result (token_request_of A cfg clock v expire_seconds timeout_seconds s) (\<lambda>r.
     case generate r of
       None \<Rightarrow> Inl (Runtime_error ''failed to generate connect token'')
     | Some token \<Rightarrow> Inr token)"

end
