(* ===== verification/Realtime_Server_Safety.thy ===== *)
theory Realtime_Server_Safety
  imports Realtime_Server
begin

text \<open>
  What the realtime server promises: the invariant of its state and of the system it forms with
  the network library (\<open>server_step\<close>), what is sent to whom, and what happens to a worker that
  failed.
\<close>

section \<open>Operations that only log\<close>

definition core_eq :: "server_state \<Rightarrow> server_state \<Rightarrow> bool" where
  "core_eq s s' \<longleftrightarrow> s'\<lparr>sv_log := []\<rparr> = s\<lparr>sv_log := []\<rparr>"

lemma core_eq_refl [simp]: "core_eq s s"
  by (simp add: core_eq_def)

lemma core_eq_trans: "core_eq s t \<Longrightarrow> core_eq t u \<Longrightarrow> core_eq s u"
  by (simp add: core_eq_def)

lemma core_eq_fields:
  assumes "core_eq s s'"
  shows "sv_registry s' = sv_registry s" "sv_running s' = sv_running s" "sv_worker s' = sv_worker s"
    "sv_bound_address s' = sv_bound_address s" "sv_commands s' = sv_commands s" "sv_active s' = sv_active s"
    "sv_tickets s' = sv_tickets s" "sv_terminated s' = sv_terminated s"
  using assms by (cases s; cases s'; simp add: core_eq_def)+

lemma core_eq_emit [simp]: "core_eq s (sv_emit es t) \<longleftrightarrow> core_eq s t"
  by (simp add: core_eq_def sv_emit_def)

lemma core_eq_guarded [simp]: "core_eq s (sv_guarded cb ev ctx t) \<longleftrightarrow> core_eq s t"
  by (simp add: sv_guarded_def)

lemmas sv_emit_fields [simp] = core_eq_fields [of s "sv_emit es s" for s es, simplified]
lemmas sv_guarded_fields [simp] = core_eq_fields [of s "sv_guarded cb ev ctx s" for s cb ev ctx, simplified]

lemma effective_auth_scope_update [simp]:
  "effective_auth_scope cfg (s\<lparr>sv_active := a\<rparr>) = effective_auth_scope cfg s"
  "effective_auth_scope cfg (s\<lparr>sv_tickets := b\<rparr>) = effective_auth_scope cfg s"
  "effective_auth_scope cfg (s\<lparr>sv_registry := r\<rparr>) = effective_auth_scope cfg s"
  by (simp_all add: effective_auth_scope_def)

lemma core_eq_error [simp]: "core_eq s (snd (sv_error cb m s))"
  by (simp add: sv_error_def split: call_result.splits)

lemma core_eq_fold:
  assumes "\<And>x s. core_eq s (f x s)"
  shows "core_eq s (fold f xs s)"
  using assms by (induction xs arbitrary: s) (auto intro: core_eq_trans)

lemma core_eq_send_to_client [simp]: "core_eq s (send_to_client T fid p r i s)"
  by (simp add: send_to_client_def split: option.splits)

lemma core_eq_send_payload [simp]: "core_eq s (snd (send_payload cb T cfg i fid p r s))"
  by (simp add: send_payload_def core_eq_fold)

lemma core_eq_process_message [simp]: "core_eq s (process_message cb i m s)"
  by (simp add: process_message_def split: message.splits option.splits)

lemma core_eq_process_messages [simp]: "core_eq s (process_messages cb T cfg s)"
  unfolding process_messages_def
  by (rule core_eq_fold) (auto simp: process_client_messages_def intro!: core_eq_fold)

lemma core_eq_reject [simp]: "core_eq s (snd (sv_reject cb i m s))"
proof -
  obtain e s' where r: "sv_error cb m s = (e, s')" by fastforce
  then have "core_eq s s'" using core_eq_error [of s cb m] by simp
  then show ?thesis
    by (cases e) (auto simp: sv_reject_def r intro: core_eq_trans)
qed

section \<open>The invariant\<close>

definition server_inv :: "server_config \<Rightarrow> server_state \<Rightarrow> bool" where
  "server_inv cfg s \<longleftrightarrow> registry_inv (sv_registry s)
     \<and> (\<forall>i t. sv_tickets s i = Some t \<longrightarrow> valid_ticket t \<and> effective_auth_scope cfg s = Inr (server_scope t))
     \<and> (\<forall>i fs. sv_active s i = Some fs \<longrightarrow> fs \<noteq> {} \<and> (\<exists>t. sv_tickets s i = Some t
          \<and> (\<forall>f \<in> fs. f \<in> set (allowed_features t) \<and> find_feature (sv_registry s) f \<noteq> None)))"

lemma server_inv_core: "core_eq s s' \<Longrightarrow> server_inv cfg s' \<longleftrightarrow> server_inv cfg s"
  by (simp add: server_inv_def effective_auth_scope_def core_eq_fields)

lemma server_inv_emit [simp]:
  "server_inv cfg (sv_emit es s) \<longleftrightarrow> server_inv cfg s"
  "server_inv cfg (sv_guarded cb ev ctx s) \<longleftrightarrow> server_inv cfg s"
  by (rule server_inv_core, simp)+

lemma server_inv_frame:
  assumes "sv_registry s' = sv_registry s" "sv_bound_address s' = sv_bound_address s"
    "sv_active s' = sv_active s" "sv_tickets s' = sv_tickets s"
  shows "server_inv cfg s' \<longleftrightarrow> server_inv cfg s"
  using assms by (simp add: server_inv_def effective_auth_scope_def)

lemma on_client_disconnected_inv:
  "server_inv cfg s \<Longrightarrow> server_inv cfg (on_client_disconnected cb i s)"
  by (auto simp: on_client_disconnected_def) (auto simp: server_inv_def)

lemma on_client_disconnected_maps:
  "sv_tickets (on_client_disconnected cb i s) = (sv_tickets s)(i := None)"
  "sv_active (on_client_disconnected cb i s) = (sv_active s)(i := None)"
  by (simp_all add: on_client_disconnected_def)

text \<open>A connection stores its ticket or leaves the state as it is.\<close>

lemma on_client_connected_cases:
  obtains (same) "core_eq s (snd (on_client_connected cb T cfg i s))"
  | (stored) t where "decode_auth_ticket (tr_user_data T i) = Inr t" "client_id t = tr_client_id T i"
      "effective_auth_scope cfg s = Inr (server_scope t)"
      "core_eq (s\<lparr>sv_tickets := (sv_tickets s)(i \<mapsto> t)\<rparr>) (snd (on_client_connected cb T cfg i s))"
      "fst (on_client_connected cb T cfg i s) = None"
proof (cases "decode_auth_ticket (tr_user_data T i)")
  case (Inl e)
  then show thesis by (intro same) (simp add: on_client_connected_def)
next
  case (Inr t)
  show thesis
  proof (cases "client_id t = tr_client_id T i \<and> effective_auth_scope cfg s = Inr (server_scope t)")
    case True
    with Inr show thesis
      by (intro stored [of t]) (auto simp: on_client_connected_def Let_def)
  next
    case False
    with Inr show thesis
      by (intro same) (auto simp: on_client_connected_def Let_def split: sum.splits)
  qed
qed

lemma decode_valid: "decode_auth_ticket u = Inr t \<Longrightarrow> valid_ticket t"
  by (auto simp: decode_auth_ticket_def Let_def split: option.splits if_splits dest: decode_payload_sound)

lemma on_client_connected_inv:
  assumes "server_inv cfg s" and free: "sv_active s i = None"
  shows "server_inv cfg (snd (on_client_connected cb T cfg i s))"
  using on_client_connected_cases [of s cb T cfg i]
proof cases
  case same
  then show ?thesis using assms(1) by (simp add: server_inv_core)
next
  case (stored t)
  have "server_inv cfg (s\<lparr>sv_tickets := (sv_tickets s)(i \<mapsto> t)\<rparr>)"
    using assms stored decode_valid [OF stored(1)]
    by (auto simp: server_inv_def)
  then show ?thesis using stored(4) by (simp add: server_inv_core)
qed

lemma activate_command_inv:
  assumes inv: "server_inv cfg s"
  shows "server_inv cfg (snd (activate_command cb c s))"
proof (cases "find_feature (sv_registry s) (sc_feature c)")
  case None
  then show ?thesis using inv by (simp add: activate_command_def)
next
  case (Some f)
  show ?thesis
  proof (cases "sv_tickets s (sc_client c)")
    case None
    then show ?thesis using Some inv by (simp add: activate_command_def server_inv_core [OF core_eq_error])
  next
    case t: (Some t)
    show ?thesis
    proof (cases "feature_allowed_by_ticket t (sc_feature c)")
      case False
      then show ?thesis using Some t inv by (simp add: activate_command_def server_inv_core [OF core_eq_error])
    next
      case True
      have "valid_ticket t" using inv t by (simp add: server_inv_def)
      then have allowed: "sc_feature c \<in> set (allowed_features t)"
        using True by (simp add: feature_allowed_iff)
      let ?s = "s\<lparr>sv_active := (sv_active s)(sc_client c \<mapsto> insert (sc_feature c) (client_features s (sc_client c)))\<rparr>"
      have old: "\<forall>f \<in> client_features s (sc_client c). f \<in> set (allowed_features t) \<and> find_feature (sv_registry s) f \<noteq> None"
        using inv t by (fastforce simp: server_inv_def client_features_def split: option.splits)
      have inv': "server_inv cfg ?s"
        using inv t old allowed Some by (auto simp: server_inv_def)
      have "core_eq ?s (snd (activate_command cb c s))"
        using Some t True
        by (auto simp: activate_command_def feature_set_insert_def Let_def)
      then show ?thesis using inv' by (simp add: server_inv_core)
    qed
  qed
qed

lemma deactivate_command_inv:
  assumes inv: "server_inv cfg s"
  shows "server_inv cfg (snd (deactivate_command cb c s))"
proof (cases "find_feature (sv_registry s) (sc_feature c) \<noteq> None
    \<and> (\<exists>fs. sv_active s (sc_client c) = Some fs \<and> sc_feature c \<in> fs)")
  case False
  then show ?thesis
    using inv by (auto simp: deactivate_command_def feature_set_erase_def server_inv_core [OF core_eq_error]
        split: option.splits)
next
  case True
  then obtain fs where known: "find_feature (sv_registry s) (sc_feature c) \<noteq> None"
    and fs: "sv_active s (sc_client c) = Some fs" and f: "sc_feature c \<in> fs" by blast
  let ?s = "s\<lparr>sv_active := (if fs - {sc_feature c} = {} then (sv_active s)(sc_client c := None)
                            else (sv_active s)(sc_client c \<mapsto> fs - {sc_feature c}))\<rparr>"
  have inv': "server_inv cfg ?s"
    using inv fs by (fastforce simp: server_inv_def)
  have "core_eq ?s (snd (deactivate_command cb c s))"
    using known fs f
    by (auto simp: deactivate_command_def feature_set_erase_def Let_def)
  then show ?thesis using inv' by (simp add: server_inv_core)
qed

lemma process_command_inv:
  "server_inv cfg s \<Longrightarrow> server_inv cfg (snd (process_command cb T cfg c s))"
  by (simp add: process_command_def activate_command_inv deactivate_command_inv
      server_inv_core [OF core_eq_send_payload] split: server_command_type.split)

lemma process_commands_inv:
  assumes "server_inv cfg s"
  shows "server_inv cfg (snd (process_commands cb T cfg s))"
  unfolding process_commands_def
  by (rule run_all_inv [where P = "server_inv cfg"])
    (simp_all add: process_command_inv assms server_inv_frame [of "s\<lparr>sv_commands := []\<rparr>" s])

section \<open>The server and its library\<close>

text \<open>
  The library keeps a slot per connected client. It reports a connection for a free slot in the
  range and a disconnection for a taken one: \<open>deliver\<close> is the set of taken slots after a
  sequence of reports, \<open>None\<close> when the library never makes that sequence. A connection that the
  server rejects with \<open>DisconnectClient\<close> is reported as a disconnection before anything else.
\<close>

fun deliver :: "int \<Rightarrow> transport_event list \<Rightarrow> int set \<Rightarrow> int set option" where
  "deliver n [] occ = Some occ"
| "deliver n (TConnected i # evs) occ =
     (if 0 \<le> i \<and> i < n \<and> i \<notin> occ then deliver n evs (insert i occ) else None)"
| "deliver n (TDisconnected i # evs) occ = (if i \<in> occ then deliver n evs (occ - {i}) else None)"

record server_system =
  sys_server :: server_state
  sys_slots :: "int set"

definition start_system :: "feature_registry \<Rightarrow> server_system" where
  "start_system reg = \<lparr>sys_server = initial_server reg, sys_slots = {}\<rparr>"

text \<open>
  The steps of a server: a registration in the registry it shares, its public operations, an
  iteration of the worker (an exception in a connection handler ends the reports of that
  iteration), and the end of a worker that failed. Nothing follows \<open>std::terminate\<close>.
\<close>

inductive server_step :: "server_config \<Rightarrow> server_system \<Rightarrow> server_system \<Rightarrow> bool" for cfg where
  Register: "\<not> sv_terminated s \<Longrightarrow> register_feature (sv_registry s) f = Inr reg
    \<Longrightarrow> server_step cfg \<lparr>sys_server = s, sys_slots = occ\<rparr> \<lparr>sys_server = s\<lparr>sv_registry := reg\<rparr>, sys_slots = occ\<rparr>"
| Activate: "\<not> sv_terminated s \<Longrightarrow> activate_feature cfg i fid s = Inr s'
    \<Longrightarrow> server_step cfg \<lparr>sys_server = s, sys_slots = occ\<rparr> \<lparr>sys_server = s', sys_slots = occ\<rparr>"
| Deactivate: "\<not> sv_terminated s \<Longrightarrow> deactivate_feature cfg i fid s = Inr s'
    \<Longrightarrow> server_step cfg \<lparr>sys_server = s, sys_slots = occ\<rparr> \<lparr>sys_server = s', sys_slots = occ\<rparr>"
| Send: "\<not> sv_terminated s \<Longrightarrow> (if reliable then send_reliable else send_unreliable) cfg i fid payload s = Inr s'
    \<Longrightarrow> server_step cfg \<lparr>sys_server = s, sys_slots = occ\<rparr> \<lparr>sys_server = s', sys_slots = occ\<rparr>"
| Start: "\<not> sv_terminated s \<Longrightarrow> sv_running s \<or> sv_worker s \<noteq> Live_thread
    \<Longrightarrow> snd (server_start cb listening addr spawn s) = s'
    \<Longrightarrow> server_step cfg \<lparr>sys_server = s, sys_slots = occ\<rparr> \<lparr>sys_server = s', sys_slots = occ\<rparr>"
| Stop: "\<not> sv_terminated s \<Longrightarrow> set ids = occ \<Longrightarrow> server_stop cb ids s = s'
    \<Longrightarrow> server_step cfg \<lparr>sys_server = s, sys_slots = occ\<rparr>
          \<lparr>sys_server = s', sys_slots = (if sv_running s then {} else occ)\<rparr>"
| Iterate: "\<not> sv_terminated s \<Longrightarrow> sv_running s \<Longrightarrow> sv_worker s = Live_thread
    \<Longrightarrow> deliver (cfg_max_clients cfg) evs occ = Some occ' \<Longrightarrow> (\<And>i. tr_connected T i \<Longrightarrow> i \<in> occ')
    \<Longrightarrow> fst (run_all (handle_transport_event cb T cfg) (butlast evs) s) = None
    \<Longrightarrow> server_iteration cb T cfg evs s = s'
    \<Longrightarrow> server_step cfg \<lparr>sys_server = s, sys_slots = occ\<rparr> \<lparr>sys_server = s', sys_slots = occ'\<rparr>"
| Worker_exit: "\<not> sv_terminated s \<Longrightarrow> \<not> sv_running s \<Longrightarrow> sv_worker s = Live_thread \<Longrightarrow> set ids = occ
    \<Longrightarrow> server_worker_exit cb ids s = s'
    \<Longrightarrow> server_step cfg \<lparr>sys_server = s, sys_slots = occ\<rparr> \<lparr>sys_server = s', sys_slots = {}\<rparr>"

inductive_cases server_stepE: "server_step cfg S S'"

definition system_inv :: "server_config \<Rightarrow> server_system \<Rightarrow> bool" where
  "system_inv cfg S \<longleftrightarrow> server_inv cfg (sys_server S)
     \<and> dom (sv_tickets (sys_server S)) \<subseteq> sys_slots S
     \<and> sys_slots S \<subseteq> {0..<cfg_max_clients cfg}
     \<and> (sv_worker (sys_server S) \<noteq> Live_thread \<longrightarrow> sys_slots S = {})
     \<and> (sv_running (sys_server S) \<and> \<not> sv_terminated (sys_server S) \<longrightarrow> sv_worker (sys_server S) = Live_thread)"

text \<open>\<open>slots_inv\<close> is the part that a report of the library changes.\<close>

definition slots_inv :: "server_config \<Rightarrow> int set \<Rightarrow> server_state \<Rightarrow> bool" where
  "slots_inv cfg occ s \<longleftrightarrow> server_inv cfg s \<and> dom (sv_tickets s) \<subseteq> occ"

lemma slots_inv_core: "core_eq s s' \<Longrightarrow> slots_inv cfg occ s' \<longleftrightarrow> slots_inv cfg occ s"
  by (simp add: slots_inv_def server_inv_core core_eq_fields)

lemma free_slot: "slots_inv cfg occ s \<Longrightarrow> i \<notin> occ \<Longrightarrow> sv_active s i = None"
  by (cases "sv_active s i") (force simp: slots_inv_def server_inv_def)+

lemma slots_inv_connected:
  assumes inv: "slots_inv cfg occ s" and i: "i \<notin> occ"
  shows "slots_inv cfg (insert i occ) (snd (on_client_connected cb T cfg i s))"
proof -
  have "server_inv cfg (snd (on_client_connected cb T cfg i s))"
    using inv free_slot [OF inv i] by (intro on_client_connected_inv) (simp_all add: slots_inv_def)
  moreover have "dom (sv_tickets (snd (on_client_connected cb T cfg i s))) \<subseteq> insert i occ"
    using inv by (cases rule: on_client_connected_cases [of s cb T cfg i])
      (auto simp: slots_inv_def core_eq_fields split: if_splits)
  ultimately show ?thesis by (simp add: slots_inv_def)
qed

lemma slots_inv_disconnected:
  "slots_inv cfg occ s \<Longrightarrow> slots_inv cfg (occ - {i}) (on_client_disconnected cb i s)"
  by (auto simp: slots_inv_def on_client_disconnected_inv on_client_disconnected_maps split: if_splits)

text \<open>The reports of an iteration, each handled in the state the previous one left.\<close>

lemma slots_inv_events:
  assumes "deliver (cfg_max_clients cfg) evs occ = Some occ'" and "slots_inv cfg occ s"
    and "fst (run_all (handle_transport_event cb T cfg) (butlast evs) s) = None"
  shows "slots_inv cfg occ' (snd (run_all (handle_transport_event cb T cfg) evs s))"
  using assms
proof (induction evs arbitrary: occ s)
  case (Cons ev evs)
  let ?h = "handle_transport_event cb T cfg"
  obtain occ1 where occ1: "deliver (cfg_max_clients cfg) [ev] occ = Some occ1"
    and rest: "deliver (cfg_max_clients cfg) evs occ1 = Some occ'"
    using Cons.prems(1) by (cases ev) (auto split: if_splits)
  have one: "slots_inv cfg occ1 (snd (?h ev s))"
    using occ1 Cons.prems(2) slots_inv_connected slots_inv_disconnected
    by (cases ev) (auto split: if_splits)
  show ?case
  proof (cases "evs = []")
    case True
    then show ?thesis using one rest by (cases "?h ev s"; cases "fst (?h ev s)") auto
  next
    case False
    then obtain s1 where s1: "?h ev s = (None, s1)"
      using Cons.prems(3) by (cases "?h ev s"; cases "fst (?h ev s)") auto
    have "slots_inv cfg occ' (snd (run_all ?h evs s1))"
      using False Cons.prems(3) one s1 by (intro Cons.IH [OF rest]) simp_all
    then show ?thesis by (simp add: s1)
  qed
qed simp

section \<open>Every step keeps the invariant\<close>

text \<open>What the handlers of an iteration leave alone.\<close>

definition same_life :: "server_state \<Rightarrow> server_state \<Rightarrow> bool" where
  "same_life s s' \<longleftrightarrow> sv_running s' = sv_running s \<and> sv_worker s' = sv_worker s
     \<and> sv_terminated s' = sv_terminated s \<and> sv_registry s' = sv_registry s \<and> sv_bound_address s' = sv_bound_address s"

lemma same_life_core: "core_eq s s' \<Longrightarrow> same_life s s'"
  by (simp add: same_life_def core_eq_fields)

lemma same_life_trans: "same_life s t \<Longrightarrow> same_life t u \<Longrightarrow> same_life s u"
  by (simp add: same_life_def)

lemma same_life_event: "same_life s (snd (handle_transport_event cb T cfg ev s))"
proof (cases ev)
  case (TConnected i)
  then show ?thesis
    by (cases rule: on_client_connected_cases [of s cb T cfg i]) (auto simp: same_life_def core_eq_fields)
qed (simp add: same_life_def on_client_disconnected_def)

lemma some_active: "core_eq (s\<lparr>sv_active := b\<rparr>) s' \<Longrightarrow> \<exists>a. core_eq (s\<lparr>sv_active := a\<rparr>) s'"
  by blast

lemma activate_command_core: "\<exists>a. core_eq (s\<lparr>sv_active := a\<rparr>) (snd (activate_command cb c s))"
proof -
  have same: ?thesis if "core_eq s (snd (activate_command cb c s))"
    using that by (intro exI [of _ "sv_active s"]) simp
  show ?thesis
  proof (cases "\<exists>f t. find_feature (sv_registry s) (sc_feature c) = Some f \<and> sv_tickets s (sc_client c) = Some t
      \<and> feature_allowed_by_ticket t (sc_feature c)")
    case True
    then show ?thesis
      by (auto simp: activate_command_def feature_set_insert_def Let_def intro: some_active [OF core_eq_refl])
  next
    case False
    then show ?thesis
      by (intro same) (auto simp: activate_command_def split: option.split)
  qed
qed

lemma deactivate_command_core: "\<exists>a. core_eq (s\<lparr>sv_active := a\<rparr>) (snd (deactivate_command cb c s))"
proof -
  have same: ?thesis if "core_eq s (snd (deactivate_command cb c s))"
    using that by (intro exI [of _ "sv_active s"]) simp
  show ?thesis
  proof (cases "\<exists>f fs. find_feature (sv_registry s) (sc_feature c) = Some f \<and> sv_active s (sc_client c) = Some fs
      \<and> sc_feature c \<in> fs")
    case True
    then obtain f fs where d: "find_feature (sv_registry s) (sc_feature c) = Some f" "sv_active s (sc_client c) = Some fs"
      "sc_feature c \<in> fs" by blast
    show ?thesis
      by (rule some_active [where b = "if fs - {sc_feature c} = {} then (sv_active s)(sc_client c := None)
          else (sv_active s)(sc_client c \<mapsto> fs - {sc_feature c})"])
        (simp add: deactivate_command_def feature_set_erase_def Let_def d)
  next
    case False
    then show ?thesis
      by (intro same) (auto simp: deactivate_command_def feature_set_erase_def split: option.split)
  qed
qed

lemma command_frame:
  "same_life s (snd (process_command cb T cfg c s)) \<and> sv_tickets (snd (process_command cb T cfg c s)) = sv_tickets s"
proof -
  have "\<exists>a. core_eq (s\<lparr>sv_active := a\<rparr>) (snd (process_command cb T cfg c s))"
    using activate_command_core [of s cb c] deactivate_command_core [of s cb c]
      exI [of "\<lambda>a. core_eq (s\<lparr>sv_active := a\<rparr>) s'" "sv_active s" for s']
    by (auto simp: process_command_def split: server_command_type.split)
  then obtain a where "core_eq (s\<lparr>sv_active := a\<rparr>) (snd (process_command cb T cfg c s))" ..
  from core_eq_fields [OF this] show ?thesis by (simp add: same_life_def)
qed

lemma same_life_run_all:
  assumes "\<And>c s. same_life s (snd (f c s))"
  shows "same_life s (snd (run_all f cs s))"
proof (rule run_all_inv [where P = "same_life s"])
  show "same_life s (snd (f c t))" if "same_life s t" for c t
    using that assms by (rule same_life_trans)
qed (simp add: same_life_def)

lemma process_commands_frame:
  "same_life s (snd (process_commands cb T cfg s)) \<and> sv_tickets (snd (process_commands cb T cfg s)) = sv_tickets s"
  unfolding process_commands_def
proof (rule run_all_inv [where P = "\<lambda>t. same_life s t \<and> sv_tickets t = sv_tickets s"])
  show "same_life s (snd (process_command cb T cfg c t)) \<and> sv_tickets (snd (process_command cb T cfg c t)) = sv_tickets s"
    if "same_life s t \<and> sv_tickets t = sv_tickets s" for c t
  proof
    show "same_life s (snd (process_command cb T cfg c t))"
      using that command_frame by (blast intro: same_life_trans)
    show "sv_tickets (snd (process_command cb T cfg c t)) = sv_tickets s"
      using that command_frame [of t cb T cfg c] by simp
  qed
qed (simp add: same_life_def)

text \<open>An iteration is a run of the handlers, then the stop of a failed worker.\<close>

lemma server_iteration_inv:
  assumes "P (snd (run_all (handle_transport_event cb T cfg) evs s))"
    and "\<And>s. P s \<Longrightarrow> P (snd (process_commands cb T cfg s))"
    and "\<And>s s'. core_eq s s' \<Longrightarrow> P s \<Longrightarrow> P s'"
    and "\<And>s. P s \<Longrightarrow> P (s\<lparr>sv_running := False\<rparr>)"
  shows "P (server_iteration cb T cfg evs s)"
proof -
  define r where "r = and_then (run_all (handle_transport_event cb T cfg) evs s) (\<lambda>s.
      and_then (process_commands cb T cfg s) (\<lambda>s. ok (process_messages cb T cfg s)))"
  have r: "P (snd r)"
    unfolding r_def
  proof (rule and_then_inv [where P = P])
    show "P (snd (and_then (process_commands cb T cfg t) (\<lambda>s. ok (process_messages cb T cfg s))))" if "P t" for t
      using assms(2) [OF that] by (rule and_then_inv [where P = P]) (simp add: assms(3) [OF core_eq_process_messages])
  qed (fact assms(1))
  have "P (sv_emit es (snd r))" for es
    by (rule assms(3) [OF _ r]) simp
  with r show ?thesis
    unfolding server_iteration_def r_def [symmetric]
    by (cases r; cases "fst r") (simp_all add: assms(4))
qed

lemma slots_inv_commands: "slots_inv cfg occ s \<Longrightarrow> slots_inv cfg occ (snd (process_commands cb T cfg s))"
  by (simp add: slots_inv_def process_commands_inv process_commands_frame)

lemma slots_inv_running [simp]:
  "slots_inv cfg occ (s\<lparr>sv_running := b\<rparr>) \<longleftrightarrow> slots_inv cfg occ s"
  "slots_inv cfg occ (s\<lparr>sv_worker := w\<rparr>) \<longleftrightarrow> slots_inv cfg occ s"
  by (simp_all add: slots_inv_def server_inv_def effective_auth_scope_def)

lemma slots_inv_iteration:
  assumes "deliver (cfg_max_clients cfg) evs occ = Some occ'" and "slots_inv cfg occ s"
    and "fst (run_all (handle_transport_event cb T cfg) (butlast evs) s) = None"
  shows "slots_inv cfg occ' (server_iteration cb T cfg evs s)"
  using slots_inv_events [OF assms]
  by (rule server_iteration_inv) (simp_all add: slots_inv_commands slots_inv_core)

lemma iteration_life:
  "sv_worker (server_iteration cb T cfg evs s) = sv_worker s \<and>
   sv_terminated (server_iteration cb T cfg evs s) = sv_terminated s \<and>
   (sv_running (server_iteration cb T cfg evs s) \<longrightarrow> sv_running s)"
proof (rule server_iteration_inv)
  show "sv_worker (snd (run_all (handle_transport_event cb T cfg) evs s)) = sv_worker s \<and>
    sv_terminated (snd (run_all (handle_transport_event cb T cfg) evs s)) = sv_terminated s \<and>
    (sv_running (snd (run_all (handle_transport_event cb T cfg) evs s)) \<longrightarrow> sv_running s)"
    using same_life_run_all [where f = "handle_transport_event cb T cfg" and s = s and cs = evs] same_life_event by (simp add: same_life_def)
  show "sv_worker (snd (process_commands cb T cfg t)) = sv_worker s \<and>
    sv_terminated (snd (process_commands cb T cfg t)) = sv_terminated s \<and>
    (sv_running (snd (process_commands cb T cfg t)) \<longrightarrow> sv_running s)"
    if "sv_worker t = sv_worker s \<and> sv_terminated t = sv_terminated s \<and> (sv_running t \<longrightarrow> sv_running s)" for t
    using process_commands_frame [of t cb T cfg] that by (simp add: same_life_def)
qed (simp_all add: core_eq_fields)

lemma server_inv_registry:
  "server_inv cfg s \<Longrightarrow> register_feature (sv_registry s) f = Inr reg \<Longrightarrow> server_inv cfg (s\<lparr>sv_registry := reg\<rparr>)"
proof -
  assume inv: "server_inv cfg s" and reg: "register_feature (sv_registry s) f = Inr reg"
  then have r: "registry_inv (sv_registry s)" by (simp add: server_inv_def)
  have "find_feature reg i \<noteq> None" if "find_feature (sv_registry s) i \<noteq> None" for i
    using registry.find_stable [OF r reg] that by auto
  with inv registry_inv_add [OF r reg] show ?thesis
    unfolding server_inv_def by (simp del: not_None_eq) blast
qed

lemma enqueue_Inr:
  "activate_feature cfg i fid s = Inr s' \<Longrightarrow> \<exists>c. s' = enqueue_command c s"
  "deactivate_feature cfg i fid s = Inr s' \<Longrightarrow> \<exists>c. s' = enqueue_command c s"
  "(if reliable then send_reliable else send_unreliable) cfg i fid payload s = Inr s' \<Longrightarrow> \<exists>c. s' = enqueue_command c s"
  by (auto simp: activate_feature_def deactivate_feature_def send_reliable_def send_unreliable_def
      bind_result_Inr_iff split: if_splits)

lemma system_inv_frame:
  assumes "sv_registry s' = sv_registry s" "sv_bound_address s' = sv_bound_address s"
    "sv_active s' = sv_active s" "sv_tickets s' = sv_tickets s" "sv_running s' = sv_running s"
    "sv_worker s' = sv_worker s" "sv_terminated s' = sv_terminated s"
  shows "system_inv cfg \<lparr>sys_server = s', sys_slots = occ\<rparr> \<longleftrightarrow> system_inv cfg \<lparr>sys_server = s, sys_slots = occ\<rparr>"
  using assms server_inv_frame [OF assms(1-4)] by (simp add: system_inv_def)

lemma system_inv_enqueue:
  "system_inv cfg \<lparr>sys_server = s, sys_slots = occ\<rparr> \<Longrightarrow> \<exists>c. s' = enqueue_command c s
    \<Longrightarrow> system_inv cfg \<lparr>sys_server = s', sys_slots = occ\<rparr>"
  using system_inv_frame [of s' s cfg occ] by (auto simp: enqueue_command_def)

lemma server_inv_no_tickets:
  "registry_inv (sv_registry s) \<Longrightarrow> sv_tickets s = Map.empty \<Longrightarrow> server_inv cfg s \<longleftrightarrow> sv_active s = Map.empty"
  by (auto simp: server_inv_def fun_eq_iff)

lemma on_client_disconnected_life: "same_life s (on_client_disconnected cb i s)"
  by (simp add: same_life_def on_client_disconnected_def)

lemma fold_disconnect:
  "slots_inv cfg occ s \<Longrightarrow> slots_inv cfg (occ - set ids) (fold (on_client_disconnected cb) ids s)
     \<and> same_life s (fold (on_client_disconnected cb) ids s)"
proof (induction ids arbitrary: occ s)
  case (Cons i ids)
  note ih = Cons.IH [OF slots_inv_disconnected [OF Cons.prems, of i cb]]
  have "occ - {i} - set ids = occ - set (i # ids)" by auto
  with ih same_life_trans [OF on_client_disconnected_life [of s cb i]] show ?case by simp
qed (simp add: same_life_def)

lemma system_inv_empty:
  assumes "registry_inv (sv_registry s)" "sv_tickets s = Map.empty" "sv_active s = Map.empty"
    and "sv_running s \<and> \<not> sv_terminated s \<longrightarrow> sv_worker s = Live_thread"
  shows "system_inv cfg \<lparr>sys_server = s, sys_slots = {}\<rparr>"
  using assms server_inv_no_tickets [OF assms(1,2)] by (simp add: system_inv_def)

lemma system_inv_slots:
  "system_inv cfg \<lparr>sys_server = s, sys_slots = occ\<rparr> \<Longrightarrow> slots_inv cfg occ s"
  by (simp add: system_inv_def slots_inv_def)

lemma no_slots:
  assumes "slots_inv cfg {} s"
  shows "registry_inv (sv_registry s)" "sv_tickets s = Map.empty" "sv_active s = Map.empty"
proof -
  show "registry_inv (sv_registry s)" "sv_tickets s = Map.empty"
    using assms by (simp_all add: slots_inv_def server_inv_def)
  then show "sv_active s = Map.empty"
    using assms server_inv_no_tickets [of s cfg] by (simp add: slots_inv_def)
qed

lemma system_inv_start:
  assumes "system_inv cfg \<lparr>sys_server = s, sys_slots = occ\<rparr>" "sv_running s \<or> sv_worker s \<noteq> Live_thread"
  shows "system_inv cfg \<lparr>sys_server = snd (server_start cb listening addr spawn s), sys_slots = occ\<rparr>"
proof (cases "sv_running s")
  case True
  then show ?thesis using assms(1) by (simp add: server_start_def)
next
  case False
  with assms have occ: "occ = {}" by (simp add: system_inv_def)
  note e = no_slots [OF system_inv_slots [OF assms(1) [unfolded occ]]]
  show ?thesis
    unfolding occ using False e
    by (intro system_inv_empty) (auto simp: server_start_def Let_def split: option.split)
qed

lemma worker_exit_slots:
  assumes "slots_inv cfg (set ids) s"
  shows "slots_inv cfg {} (server_worker_exit cb ids s)" "sv_running (server_worker_exit cb ids s) = sv_running s"
proof -
  note f = fold_disconnect [OF assms, of ids cb]
  then show "slots_inv cfg {} (server_worker_exit cb ids s)"
    by (simp add: server_worker_exit_def)
  show "sv_running (server_worker_exit cb ids s) = sv_running s"
    using f by (simp add: server_worker_exit_def same_life_def)
qed

lemma system_inv_stop:
  assumes inv: "system_inv cfg \<lparr>sys_server = s, sys_slots = set ids\<rparr>" and "\<not> sv_terminated s"
  shows "system_inv cfg \<lparr>sys_server = server_stop cb ids s, sys_slots = (if sv_running s then {} else set ids)\<rparr>"
proof (cases "sv_running s")
  case True
  with assms have live: "sv_worker s = Live_thread" by (simp add: system_inv_def)
  have "slots_inv cfg (set ids) (s\<lparr>sv_running := False\<rparr>)"
    using system_inv_slots [OF inv] by simp
  note x = worker_exit_slots [OF this, of cb] no_slots [OF worker_exit_slots(1) [OF this, of cb]]
  show ?thesis
    using True live x
    by (simp add: server_stop_def Let_def) (intro system_inv_empty; simp)
next
  case False
  then show ?thesis
    using inv system_inv_frame [of "s\<lparr>sv_commands := []\<rparr>" s] by (simp add: server_stop_def)
qed

lemma deliver_range:
  "deliver n evs occ = Some occ' \<Longrightarrow> occ \<subseteq> {0..<n} \<Longrightarrow> occ' \<subseteq> {0..<n}"
proof (induction evs arbitrary: occ)
  case (Cons ev evs)
  then show ?case by (cases ev) (auto split: if_splits elim!: Cons.IH)
qed simp

lemma system_inv_step:
  "server_step cfg S S' \<Longrightarrow> system_inv cfg S \<Longrightarrow> system_inv cfg S'"
proof (induction rule: server_step.induct)
  case (Register s f reg occ)
  then show ?case by (simp add: system_inv_def server_inv_registry)
next
  case (Activate s i fid s' occ)
  show ?case by (rule system_inv_enqueue [OF Activate.prems enqueue_Inr(1) [OF Activate.hyps(2)]])
next
  case (Deactivate s i fid s' occ)
  show ?case by (rule system_inv_enqueue [OF Deactivate.prems enqueue_Inr(2) [OF Deactivate.hyps(2)]])
next
  case (Send s reliable i fid payload s' occ)
  show ?case by (rule system_inv_enqueue [OF Send.prems enqueue_Inr(3) [OF Send.hyps(2)]])
next
  case (Start s cb listening addr spawn s' occ)
  then show ?case using system_inv_start by blast
next
  case (Stop s ids occ cb s')
  then show ?case using system_inv_stop by blast
next
  case (Iterate s evs occ occ' T cb s')
  have "slots_inv cfg occ' s'"
    using slots_inv_iteration [OF Iterate.hyps(4) system_inv_slots [OF Iterate.prems] Iterate.hyps(6)] Iterate.hyps(7)
    by simp
  moreover have "occ' \<subseteq> {0..<cfg_max_clients cfg}"
    using deliver_range [OF Iterate.hyps(4)] Iterate.prems by (simp add: system_inv_def)
  moreover have "sv_worker s' = Live_thread"
    using iteration_life [of cb T cfg evs s] Iterate.hyps by simp
  ultimately show ?case by (simp add: system_inv_def slots_inv_def)
next
  case (Worker_exit s ids occ cb s')
  have "slots_inv cfg (set ids) s"
    using system_inv_slots [OF Worker_exit.prems] Worker_exit.hyps(4) by simp
  note x = worker_exit_slots [OF this, of cb]
  show ?case
    using no_slots [OF x(1)] x(2) Worker_exit.hyps by (intro system_inv_empty) auto
qed

lemma system_inv_initial: "registry_inv reg \<Longrightarrow> system_inv cfg (start_system reg)"
  unfolding start_system_def by (intro system_inv_empty) (simp_all add: initial_server_def)

interpretation server: invariant_system "\<lambda>S. \<exists>reg. registry_inv reg \<and> S = start_system reg"
  "server_step cfg" "system_inv cfg" for cfg
  by unfold_locales (auto simp: system_inv_initial system_inv_step)

end
