(* ===== verification/Realtime_Server_Properties.thy ===== *)
theory Realtime_Server_Properties
  imports Realtime_Server_Safety
begin

text \<open>
  The properties of the realtime server: who may have a feature, who gets a payload, what a
  connection leads to, what a connect token grants, and how a failure of the worker ends.
\<close>

section \<open>Lemmas\<close>

lemma sv_guarded_log:
  "sv_log (sv_guarded cb ev ctx s) = sv_log s @ invoke_callback_guarded cb ev cb SvError ctx"
  by (simp add: sv_guarded_def sv_emit_def)

lemma sv_emit_log [simp]: "sv_log (sv_emit es s) = sv_log s @ es"
  by (simp add: sv_emit_def)

lemma sv_emit_append [simp]: "sv_emit es (sv_emit fs s) = sv_emit (fs @ es) s"
  by (simp add: sv_emit_def)

lemma fold_emit:
  assumes "\<And>x es. f x (sv_emit es s) = sv_emit (es @ g x) s"
  shows "fold f xs (sv_emit es s) = sv_emit (es @ concat (map g xs)) s"
  using assms by (induction xs arbitrary: es) simp_all

lemma sv_emit_Nil [simp]: "sv_emit [] s = s"
  by (simp add: sv_emit_def)

definition accepts :: "server_config \<Rightarrow> server_transport \<Rightarrow> int \<Rightarrow> server_state \<Rightarrow> auth_ticket \<Rightarrow> bool" where
  "accepts cfg T i s t \<longleftrightarrow> decode_auth_ticket (tr_user_data T i) = Inr t \<and> client_id t = tr_client_id T i
     \<and> effective_auth_scope cfg s = Inr (server_scope t)"

definition quiet :: "server_event callbacks \<Rightarrow> bool" where
  "quiet cb \<longleftrightarrow> (\<forall>m e. cb (SvError m) \<noteq> Throws e)"

lemma quiet_error: "quiet cb \<Longrightarrow> \<exists>es. sv_error cb m s = ok (sv_emit es s) \<and> (\<forall>x. Io x \<notin> set es)"
  by (cases "cb (SvError m)")
    (auto simp: quiet_def sv_error_def intro: exI [of _ "[]"] exI [of _ "[Call (SvError m)]"])

lemma quiet_reject:
  assumes "quiet cb"
  shows "\<exists>es. sv_reject cb i m s = ok (sv_emit (es @ [Io (SrvDisconnect i)]) s) \<and> (\<forall>x. Io x \<notin> set es)"
  using quiet_error [OF assms, of m s] by (auto simp: sv_reject_def)

lemma offered_features:
  assumes "registry_inv reg" "valid_ticket t"
  shows "map fd_id (filter (\<lambda>f. feature_allowed_by_ticket t (fd_id f)) (list_features reg))
    = filter (\<lambda>f. find_feature reg f \<noteq> None) (allowed_features t)"
  using registry.offered_ids [OF assms(1), of "allowed_features t"] assms(2)
  by (simp add: feature_allowed_iff) (simp add: valid_ticket_def)

definition the_version :: "feature_registry \<Rightarrow> u16 \<Rightarrow> u16" where
  "the_version reg i = (case find_feature reg i of Some f \<Rightarrow> fd_version f | None \<Rightarrow> 0)"

lemma offer_messages_ids:
  assumes "registry_inv reg" "valid_ticket t"
  shows "offer_messages reg t i = map (\<lambda>f. Io (SrvSend i kReliableChannel (ControlMessage 1 f (the_version reg f))))
    (filter (\<lambda>f. find_feature reg f \<noteq> None) (allowed_features t))"
proof -
  let ?al = "\<lambda>f. feature_allowed_by_ticket t (fd_id f)"
  have "offer_messages reg t i = map (\<lambda>f. Io (SrvSend i kReliableChannel (ControlMessage 1 (fd_id f) (fd_version f))))
      (filter ?al (list_features reg))"
    unfolding offer_messages_def by (rule list.induct [of _ "list_features reg"]) simp_all
  also have "\<dots> = map (\<lambda>f. Io (SrvSend i kReliableChannel (ControlMessage 1 f (the_version reg f))))
      (map fd_id (filter ?al (list_features reg)))"
    by (auto simp: the_version_def registry.features_find [OF assms(1)])
  finally show ?thesis by (simp only: offered_features [OF assms])
qed

lemma run_all_quiet:
  assumes "\<And>c s. P s \<Longrightarrow> fst (f c s) = None \<and> P (snd (f c s))" and "P s"
  shows "fst (run_all f cs s) = None \<and> P (snd (run_all f cs s))"
  using assms(2)
proof (induction cs arbitrary: s)
  case (Cons c cs)
  then show ?case using assms(1) [OF Cons.prems, of c] by (cases "f c s") auto
qed simp

section \<open>Example\<close>

text \<open>A server with features 1 and 2, and a library that reports client 0 with the example ticket.\<close>

definition example_registry :: feature_registry where
  "example_registry = [(2, \<lparr>fd_id = 2, fd_version = 1, fd_name = ''chat''\<rparr>), (1, \<lparr>fd_id = 1, fd_version = 3, fd_name = ''move''\<rparr>)]"

definition example_cfg :: server_config where
  "example_cfg = \<lparr>cfg_bind_address = ''lo'', cfg_max_clients = 2, cfg_auth_scope = [], cfg_connect_addresses = []\<rparr>"

definition example_transport :: server_transport where
  "example_transport = \<lparr>tr_connected = (\<lambda>i. i = 0), tr_user_data = (\<lambda>_. Some example_user_data),
     tr_client_id = (\<lambda>_. 7), tr_inbox = (\<lambda>_ _. [])\<rparr>"

definition example_started :: server_state where
  "example_started = (initial_server example_registry)\<lparr>sv_running := True, sv_worker := Live_thread, sv_bound_address := ''lo''\<rparr>"

lemma example_registry_inv [simp]: "registry_inv example_registry"
  by (simp add: registry_inv_def example_registry_def)

lemma example_registry_find [simp]:
  "find_feature example_registry 1 = Some \<lparr>fd_id = 1, fd_version = 3, fd_name = ''move''\<rparr>"
  "find_feature example_registry 2 = Some \<lparr>fd_id = 2, fd_version = 1, fd_name = ''chat''\<rparr>"
  by (simp_all add: find_feature_def example_registry_def)

lemma example_ticket_fields [simp]:
  "client_id example_ticket = 7" "server_scope example_ticket = ''lo''" "allowed_features example_ticket = [1, 2]"
  by (simp_all add: example_ticket_def)

lemma example_scope [simp]: "sv_bound_address s = ''lo'' \<Longrightarrow> effective_auth_scope example_cfg s = Inr ''lo''"
  by (simp add: effective_auth_scope_def example_cfg_def)

lemma example_started_fields [simp]:
  "sv_registry example_started = example_registry" "sv_running example_started" "sv_worker example_started = Live_thread"
  "sv_bound_address example_started = ''lo''" "sv_commands example_started = []" "\<not> sv_terminated example_started"
  "sv_tickets example_started = Map.empty" "sv_active example_started = Map.empty"
  by (simp_all add: example_started_def initial_server_def)

lemma example_start:
  "server_step example_cfg (start_system example_registry) \<lparr>sys_server = example_started, sys_slots = {}\<rparr>"
proof -
  have "snd (server_start (\<lambda>_. Unset) True ''lo'' None (initial_server example_registry)) = example_started"
    by (simp add: server_start_def example_started_def initial_server_def sv_guarded_def sv_emit_def
        invoke_callback_guarded_def)
  then show ?thesis
    unfolding start_system_def by (intro Start) (simp_all add: initial_server_def)
qed

lemma example_allowed [simp]: "feature_allowed_by_ticket example_ticket 1"
  by (simp add: feature_allowed_iff)

definition example_activating :: server_state where
  "example_activating = enqueue_command
     \<lparr>sc_type = ActivateFeature, sc_client = 0, sc_feature = 1, sc_reliable = True, sc_payload = []\<rparr> example_started"

definition example_active :: server_state where
  "example_active = server_iteration (\<lambda>_. Unset) example_transport example_cfg [TConnected 0] example_activating"

lemma example_active_fields:
  "sv_active example_active = [0 \<mapsto> {1}]" "sv_tickets example_active = [0 \<mapsto> example_ticket]"
  "sv_running example_active" "sv_worker example_active = Live_thread" "\<not> sv_terminated example_active"
proof -
  let ?s = "example_activating\<lparr>sv_tickets := [0 \<mapsto> example_ticket]\<rparr>"
  obtain es where "on_client_connected (\<lambda>_. Unset) example_transport example_cfg 0 example_activating = ok (sv_emit es ?s)"
    by (simp add: on_client_connected_def example_transport_def example_activating_def enqueue_command_def
        sv_guarded_def Let_def)
  moreover obtain es' where "process_commands (\<lambda>_. Unset) example_transport example_cfg (sv_emit es ?s)
      = ok (sv_emit es' (?s\<lparr>sv_commands := [], sv_active := [0 \<mapsto> {1}]\<rparr>))"
    by (simp add: process_commands_def example_activating_def enqueue_command_def process_command_def
        activate_command_def example_transport_def sv_emit_def feature_set_insert_def client_features_def
        sv_guarded_def Let_def)
  ultimately have "core_eq (sv_emit es' (?s\<lparr>sv_commands := [], sv_active := [0 \<mapsto> {1}]\<rparr>)) example_active"
    by (simp add: example_active_def server_iteration_def) (simp add: ok_def)
  from core_eq_fields [OF this] show "sv_active example_active = [0 \<mapsto> {1}]" "sv_tickets example_active = [0 \<mapsto> example_ticket]"
    "sv_running example_active" "sv_worker example_active = Live_thread" "\<not> sv_terminated example_active"
    by (simp_all add: example_activating_def enqueue_command_def)
qed

lemma example_reachable:
  "(server_step example_cfg)\<^sup>*\<^sup>* (start_system example_registry) \<lparr>sys_server = example_active, sys_slots = {0}\<rparr>"
proof -
  have "activate_feature example_cfg 0 1 example_started = Inr example_activating"
    by (simp add: activate_feature_def check_operation_def example_activating_def validate_client_index_def
        example_cfg_def)
  then have "server_step example_cfg \<lparr>sys_server = example_started, sys_slots = {}\<rparr>
      \<lparr>sys_server = example_activating, sys_slots = {}\<rparr>"
    by (intro Activate) simp_all
  moreover have "server_step example_cfg \<lparr>sys_server = example_activating, sys_slots = {}\<rparr>
      \<lparr>sys_server = example_active, sys_slots = {0}\<rparr>"
    by (rule Iterate [where evs = "[TConnected 0]" and T = example_transport and cb = "\<lambda>_. Unset"])
      (simp_all add: example_activating_def enqueue_command_def example_cfg_def example_transport_def
        example_active_def)
  ultimately show ?thesis
    using example_start by (meson rtranclp.rtrancl_into_rtrancl rtranclp.rtrancl_refl)
qed

definition example_addresses :: address_lib where
  "example_addresses = \<lparr>address_of = (\<lambda>_. \<lparr>addr_type = ADDRESS_IPV4, addr_bytes4 = [127, 0, 0, 1], addr_words6 = [],
     addr_port = 9\<rparr>), address_text = (\<lambda>_. ''lo'')\<rparr>"

definition example_request :: token_request where
  "example_request = \<lparr>tk_public = [''lo''], tk_internal = [''lo''], tk_expire_seconds = 50, tk_timeout_seconds = 5,
     tk_client_id = 7, tk_user_data = example_user_data\<rparr>"

lemma example_token:
  "token_request_of example_addresses example_cfg 150 (VerifiedAuthTicket example_ticket) 60 5 example_started
    = Inr example_request"
proof -
  have "resolved_connect_addresses example_addresses example_cfg example_started = Inr [''lo'']"
    by (simp add: resolved_connect_addresses_def parse_address_def address_valid_def address_is_wildcard_def
        example_addresses_def example_cfg_def)
  moreover have "encode_auth_ticket example_ticket = Inr example_user_data"
    by (simp add: example_user_data_def encode_valid Let_def)
  moreover have "sint (issued_at example_ticket) = 100" "sint (expires_at example_ticket) = 200"
    by (simp_all add: example_ticket_def)
  ultimately show ?thesis
    by (simp add: token_request_of_def example_request_def)
qed

section \<open>Properties\<close>

text \<open>C2: in every state a server reaches, a feature is active for a client only if the client holds
  a slot and a valid ticket for this server's scope that allows the feature, and the feature is
  registered. No order of connections, registrations, commands, restarts and callback failures
  lets a feature become or stay active without its ticket.\<close>

theorem active_features_authorised:
  assumes "registry_inv reg" and "(server_step cfg)\<^sup>*\<^sup>* (start_system reg) S"
    and "sv_active (sys_server S) i = Some fs" and "f \<in> fs"
  shows "\<exists>t. sv_tickets (sys_server S) i = Some t \<and> valid_ticket t \<and> f \<in> set (allowed_features t)
    \<and> effective_auth_scope cfg (sys_server S) = Inr (server_scope t)
    \<and> find_feature (sv_registry (sys_server S)) f \<noteq> None
    \<and> i \<in> sys_slots S \<and> 0 \<le> i \<and> i < cfg_max_clients cfg \<and> sv_worker (sys_server S) = Live_thread"
proof -
  have inv: "system_inv cfg S"
    using server.inv_reachable [OF _ assms(2)] assms(1) by blast
  then have server: "server_inv cfg (sys_server S)" and slots: "dom (sv_tickets (sys_server S)) \<subseteq> sys_slots S"
    "sys_slots S \<subseteq> {0..<cfg_max_clients cfg}" "sv_worker (sys_server S) \<noteq> Live_thread \<longrightarrow> sys_slots S = {}"
    by (simp_all add: system_inv_def)
  obtain t where t: "sv_tickets (sys_server S) i = Some t" "f \<in> set (allowed_features t)"
      "find_feature (sv_registry (sys_server S)) f \<noteq> None"
    using server assms(3,4) unfolding server_inv_def by blast
  have "valid_ticket t \<and> effective_auth_scope cfg (sys_server S) = Inr (server_scope t)"
    using server t(1) by (simp add: server_inv_def)
  moreover have "i \<in> sys_slots S" using slots(1) t(1) by auto
  ultimately show ?thesis
    using slots(2,3) t by auto
qed

theorem active_features_authorised_witness:
  "\<exists>t. sv_tickets example_active 0 = Some t \<and> valid_ticket t \<and> 1 \<in> set (allowed_features t)
    \<and> effective_auth_scope example_cfg example_active = Inr (server_scope t)"
  using active_features_authorised [OF example_registry_inv example_reachable, of 0 "{1}" 1]
  by (auto simp: example_active_fields)

text \<open>C3: a connection is accepted exactly for a valid ticket of this server's scope that carries the
  transport's client id. Then no exception leaves the handler, the ticket is stored, and after
  the callback the client is offered, on the reliable channel and in increasing order, the
  features of its ticket that are registered, each with its registered version, and no other.\<close>

theorem accepted_connection_offers:
  assumes "registry_inv (sv_registry s)" and "accepts cfg T i s t"
  shows "\<exists>calls s'. on_client_connected cb T cfg i s = ok s'
    \<and> sv_tickets s' = (sv_tickets s)(i \<mapsto> t) \<and> sv_active s' = sv_active s \<and> sv_running s' = sv_running s
    \<and> (\<forall>x. Io x \<notin> set calls)
    \<and> sv_log s' = sv_log s @ calls
        @ map (\<lambda>f. Io (SrvSend i kReliableChannel (ControlMessage 1 f (the_version (sv_registry s) f))))
            (filter (\<lambda>f. find_feature (sv_registry s) f \<noteq> None) (allowed_features t))"
proof -
  let ?c = "invoke_callback_guarded cb (SvClientConnected i (tr_client_id T i) t) cb SvError
      ''realtime server client-connected callback failed''"
  have "valid_ticket t" using assms(2) decode_valid by (auto simp: accepts_def)
  note o = offer_messages_ids [OF assms(1) this]
  have "\<forall>x. Io x \<notin> set ?c" by (simp add: invoke_callback_guarded_no_io)
  then show ?thesis
    using assms(2)
    by (intro exI [of _ ?c] exI [of _ "snd (on_client_connected cb T cfg i s)"])
      (simp add: on_client_connected_def accepts_def Let_def o sv_guarded_log ok_def)
qed

theorem accepted_connection_offers_witness:
  "\<exists>calls s'. on_client_connected (\<lambda>_. Returns) example_transport example_cfg 0 example_started = ok s'
    \<and> sv_tickets s' = [0 \<mapsto> example_ticket]
    \<and> sv_log s' = sv_log example_started @ calls
        @ [Io (SrvSend 0 0 (ControlMessage 1 1 3)), Io (SrvSend 0 0 (ControlMessage 1 2 1))]"
proof -
  have "accepts example_cfg example_transport 0 example_started example_ticket"
    by (simp add: accepts_def example_transport_def)
  from accepted_connection_offers [OF _ this, of "\<lambda>_. Returns"] show ?thesis
    by (force simp: the_version_def kReliableChannel_def)
qed

text \<open>Any other connection stores no ticket, activates nothing and is offered nothing. When the
  error callback does not throw and the scope is known, the client is disconnected; nothing but
  the error callback happens before.\<close>

theorem rejected_connection:
  assumes "\<nexists>t. accepts cfg T i s t" and "quiet cb" and "effective_auth_scope cfg s = Inr scope"
  shows "\<exists>calls s'. on_client_connected cb T cfg i s = ok s'
    \<and> sv_tickets s' = sv_tickets s \<and> sv_active s' = sv_active s
    \<and> (\<forall>x. Io x \<notin> set calls) \<and> sv_log s' = sv_log s @ calls @ [Io (SrvDisconnect i)]"
proof -
  have "\<exists>m. on_client_connected cb T cfg i s = sv_reject cb i m s"
    using assms(1,3) by (auto simp: on_client_connected_def accepts_def Let_def split: sum.split)
  then obtain m where "on_client_connected cb T cfg i s = sv_reject cb i m s" ..
  moreover obtain es where "sv_reject cb i m s = ok (sv_emit (es @ [Io (SrvDisconnect i)]) s)" "\<forall>x. Io x \<notin> set es"
    using quiet_reject [OF assms(2), of i m s] by blast
  ultimately show ?thesis
    by (intro exI [of _ es] exI [of _ "sv_emit (es @ [Io (SrvDisconnect i)]) s"]) simp
qed

theorem rejected_connection_witness:
  "\<exists>calls s'. on_client_connected (\<lambda>_. Returns) (example_transport\<lparr>tr_client_id := \<lambda>_. 8\<rparr>) example_cfg 0 example_started = ok s'
    \<and> sv_tickets s' = Map.empty \<and> sv_log s' = sv_log example_started @ calls @ [Io (SrvDisconnect 0)]"
proof -
  have "\<nexists>t. accepts example_cfg (example_transport\<lparr>tr_client_id := \<lambda>_. 8\<rparr>) 0 example_started t"
    by (simp add: accepts_def example_transport_def)
  from rejected_connection [OF this, of "\<lambda>_. Returns" "''lo''"] show ?thesis
    by (auto simp: quiet_def)
qed

text \<open>A payload reaches exactly the connected clients, of those it is addressed to, that have its
  feature active, once each and in order of their index, on the channel asked for. A payload of
  an unregistered feature or of more than 1024 bytes reaches nobody.\<close>

theorem payload_recipients:
  "\<exists>es. snd (send_payload cb T cfg i fid payload reliable s) = sv_emit es s
    \<and> filter (\<lambda>e. \<exists>x. e = Io x) es =
      (if find_feature (sv_registry s) fid = None \<or> 1024 < length payload then []
       else map (\<lambda>j. Io (SrvSend j (if reliable then 0 else 1) (PayloadMessage fid payload)))
         (filter (\<lambda>j. tr_connected T j \<and> fid \<in> client_features s j)
           (if 0 \<le> i then [i] else [0..cfg_max_clients cfg - 1])))"
proof -
  let ?ok = "\<lambda>j. tr_connected T j \<and> fid \<in> client_features s j"
  let ?m = "\<lambda>j. Io (SrvSend j (if reliable then 0 else 1) (PayloadMessage fid payload)) :: server_entry"
  have one: "send_to_client T fid payload reliable j (sv_emit es s) = sv_emit (es @ (if ?ok j then [?m j] else [])) s" for j es
    by (simp add: send_to_client_def client_features_def feature_set_contains_def kReliableChannel_def
        kUnreliableChannel_def split: option.split)
  have all: "fold (send_to_client T fid payload reliable) js (sv_emit es s) = sv_emit (es @ map ?m (filter ?ok js)) s" for js es
    by (induction js arbitrary: es) (simp_all add: one)
  have io: "filter (\<lambda>e. \<exists>x. e = Io x) (map ?m js) = map ?m js" for js
    by (simp add: filter_map comp_def)
  show ?thesis
  proof (cases "find_feature (sv_registry s) fid = None \<or> 1024 < length payload")
    case True
    have "\<exists>es. snd (sv_error cb m s) = sv_emit es s \<and> filter (\<lambda>e. \<exists>x. e = Io x) es = []" for m
      by (auto simp: sv_error_def split: call_result.split intro: exI [of _ "[]"] exI [of _ "[Call (SvError m)]"])
    then show ?thesis
      using True by (auto simp: send_payload_def kMaxPayloadBytes_def)
  next
    case False
    let ?js = "if 0 \<le> i then [i] else [0..cfg_max_clients cfg - 1]"
    have "snd (send_payload cb T cfg i fid payload reliable s) = fold (send_to_client T fid payload reliable) ?js s"
      using False by (auto simp: send_payload_def kMaxPayloadBytes_def)
    also have "\<dots> = sv_emit (map ?m (filter ?ok ?js)) s"
      using all [of ?js "[]"] by simp
    finally show ?thesis
      unfolding if_not_P [OF False] using io [of "filter ?ok ?js"]
      by (intro exI [of _ "map ?m (filter ?ok ?js)"]) (rule conjI)
  qed
qed

text \<open>Every message received from a connected client is released exactly once, and the message
  callback is called for exactly the payload messages whose feature is active for that client, in
  the order of the clients, the channels and the messages.\<close>

theorem messages_delivered:
  "process_messages cb T cfg s = sv_emit
     (concat (map (\<lambda>i. if \<not> tr_connected T i then [] else
        concat (map (\<lambda>channel. concat (map (\<lambda>m.
          (case m of
             PayloadMessage fid payload \<Rightarrow>
               if fid \<in> client_features s i
               then invoke_callback_guarded cb (SvMessage i fid payload) cb SvError ''realtime server message callback failed''
               else []
           | ControlMessage a f v \<Rightarrow> []) @ [Io (SrvRelease i m)]) (tr_inbox T i channel))) [0, 1])) [0..cfg_max_clients cfg - 1])) s"
proof -
  let ?m = "\<lambda>i m. (case m of
             PayloadMessage fid payload \<Rightarrow>
               if fid \<in> client_features s i
               then invoke_callback_guarded cb (SvMessage i fid payload) cb SvError ''realtime server message callback failed''
               else []
           | ControlMessage a f v \<Rightarrow> []) @ [Io (SrvRelease i m)]"
  have one: "process_message cb i m (sv_emit es s) = sv_emit (es @ ?m i m) s" for i m es
    by (simp add: process_message_def client_features_def feature_set_contains_def sv_guarded_def
        split: message.split option.split)
  have "process_client_messages cb T i (sv_emit es s) = sv_emit (es @ (if \<not> tr_connected T i then [] else
        concat (map (\<lambda>channel. concat (map (?m i) (tr_inbox T i channel))) [0, 1]))) s" for i es
  proof (cases "tr_connected T i")
    case True
    have "[0..numChannels - 1] = [0, 1]" by (simp add: numChannels_def upto.simps)
    then have "process_client_messages cb T i (sv_emit es s)
        = fold (\<lambda>channel. fold (process_message cb i) (tr_inbox T i channel)) [0, 1] (sv_emit es s)"
      using True by (simp only: process_client_messages_def not_True_eq_False if_False)
    also have "\<dots> = sv_emit (es @ concat (map (\<lambda>channel. concat (map (?m i) (tr_inbox T i channel))) [0, 1])) s"
      by (rule fold_emit [OF fold_emit [OF one]])
    finally show ?thesis using True by simp
  qed (simp add: process_client_messages_def)
  from fold_emit [where es = "[]" and xs = "[0..cfg_max_clients cfg - 1]", OF this] show ?thesis
    by (simp only: process_messages_def append_Nil sv_emit_Nil)
qed

text \<open>A connect token never outlives its ticket. It is only generated by a running server, for a
  ticket of its scope that is valid at the time and names registered features only; it expires
  no later than the ticket, its timeout is no longer than that, and both are positive.\<close>

theorem token_bounds:
  assumes "token_request_of A cfg clock v expire_seconds timeout_seconds s = Inr r"
  shows "sv_running s \<and> tk_public r \<noteq> [] \<and> tk_internal r = replicate (length (tk_public r)) (sv_bound_address s)
    \<and> 0 < tk_timeout_seconds r \<and> tk_timeout_seconds r \<le> tk_expire_seconds r
    \<and> tk_timeout_seconds r \<le> timeout_seconds \<and> tk_expire_seconds r \<le> expire_seconds
    \<and> sint (issued_at (vat_ticket v)) \<le> sint clock
    \<and> sint clock + tk_expire_seconds r \<le> sint (expires_at (vat_ticket v))
    \<and> effective_auth_scope cfg s = Inr (server_scope (vat_ticket v))
    \<and> (\<forall>f \<in> set (allowed_features (vat_ticket v)). find_feature (sv_registry s) f \<noteq> None)"
proof -
  have known: "check_features_known reg fs = Inr () \<Longrightarrow> f \<in> set fs \<Longrightarrow> find_feature reg f \<noteq> None" for reg fs f
    by (induction fs) (auto split: if_splits)
  have resolved: "resolve_addresses A b cs = Inr addrs \<Longrightarrow> length addrs = length cs" for b cs addrs
    by (induction cs arbitrary: addrs) (auto simp: bind_result_Inr_iff Let_def)
  have some: "resolved_connect_addresses A cfg s = Inr addrs \<Longrightarrow> addrs \<noteq> []" for addrs
    by (auto simp: resolved_connect_addresses_def bind_result_Inr_iff dest: resolved split: if_splits)
  from assms obtain addrs where a: "resolved_connect_addresses A cfg s = Inr addrs"
    and r: "tk_public r = addrs" "tk_internal r = map (\<lambda>_. sv_bound_address s) addrs"
    "tk_expire_seconds r = min expire_seconds (sint (expires_at (vat_ticket v)) - sint clock)"
    "tk_timeout_seconds r = min timeout_seconds (tk_expire_seconds r)"
    and c: "sv_running s" "0 < expire_seconds" "0 < timeout_seconds" "sint (issued_at (vat_ticket v)) \<le> sint clock"
    "sint clock < sint (expires_at (vat_ticket v))" "check_features_known (sv_registry s) (allowed_features (vat_ticket v)) = Inr ()"
    "effective_auth_scope cfg s = Inr (server_scope (vat_ticket v))"
    unfolding token_request_of_def by (auto simp: bind_result_Inr_iff Let_def split: if_splits)
  show ?thesis
    using some [OF a] known [OF c(6)] c r by (auto simp: map_replicate_const)
qed

theorem token_bounds_witness:
  "0 < tk_timeout_seconds example_request \<and> tk_timeout_seconds example_request \<le> tk_expire_seconds example_request
   \<and> 150 + tk_expire_seconds example_request \<le> sint (expires_at example_ticket)"
  using token_bounds [OF example_token] by simp

text \<open>C5: a token grants what it was made for. A client that presents the token's user data under
  the token's client id to a server of the same scope is accepted with exactly the ticket the
  token was made from.\<close>

theorem token_admits:
  assumes "token_request_of A cfg clock v expire_seconds timeout_seconds s = Inr r"
    and "tr_user_data T i = Some (tk_user_data r)" and "tr_client_id T i = tk_client_id r"
    and "effective_auth_scope cfg' s' = effective_auth_scope cfg s"
  shows "length (tk_user_data r) = NETCODE_USER_DATA_BYTES
    \<and> (\<exists>s''. on_client_connected cb T cfg' i s' = ok s'' \<and> sv_tickets s'' = (sv_tickets s')(i \<mapsto> vat_ticket v))"
proof -
  have r: "encode_auth_ticket (vat_ticket v) = Inr (tk_user_data r)" "tk_client_id r = client_id (vat_ticket v)"
    "effective_auth_scope cfg s = Inr (server_scope (vat_ticket v))"
    using assms(1) unfolding token_request_of_def by (auto simp: bind_result_Inr_iff Let_def split: if_splits)
  have "on_client_connected cb T cfg' i s' = ok (snd (on_client_connected cb T cfg' i s'))
      \<and> sv_tickets (snd (on_client_connected cb T cfg' i s')) = (sv_tickets s')(i \<mapsto> vat_ticket v)"
    using assms(2-4) r decode_of_encode(2) [OF r(1)] by (simp add: on_client_connected_def Let_def)
  then show ?thesis using decode_of_encode(1) [OF r(1)] by blast
qed

theorem token_admits_witness:
  "\<exists>s''. on_client_connected (\<lambda>_. Unset) example_transport example_cfg 0 example_started = ok s''
    \<and> sv_tickets s'' = [0 \<mapsto> example_ticket]"
  using token_admits [OF example_token, of example_transport 0 example_cfg example_started "\<lambda>_. Unset"]
  by (simp add: example_transport_def example_request_def)

text \<open>An iteration of the worker survives whatever connects, is commanded or arrives, and
  whatever the other callbacks throw, as long as the error callback does not throw and the server
  has a scope.\<close>

theorem iteration_survives:
  assumes "quiet cb" and "effective_auth_scope cfg s = Inr scope"
  shows "sv_running (server_iteration cb T cfg evs s) = sv_running s"
proof -
  have err: "fst (sv_error cb m t) = None" for m t
    using quiet_error [OF assms(1), of m t] by auto
  have conn: "fst (on_client_connected cb T cfg i t) = None" if "effective_auth_scope cfg t = Inr scope" for i t
  proof -
    have "fst (sv_reject cb i m t) = None" for m
      using quiet_reject [OF assms(1), of i m t] by auto
    then show ?thesis using that by (simp add: on_client_connected_def Let_def split: sum.split)
  qed
  have life: "effective_auth_scope cfg t = effective_auth_scope cfg u" if "same_life u t" for t u
    using that by (simp add: effective_auth_scope_def same_life_def)
  let ?P = "\<lambda>t. same_life s t"
  have evs: "fst (run_all (handle_transport_event cb T cfg) evs s) = None
      \<and> ?P (snd (run_all (handle_transport_event cb T cfg) evs s))"
  proof (rule run_all_quiet [where P = ?P])
    show "fst (handle_transport_event cb T cfg ev t) = None \<and> ?P (snd (handle_transport_event cb T cfg ev t))"
      if "?P t" for ev t
    proof
      show "fst (handle_transport_event cb T cfg ev t) = None"
        using assms(2) life [OF that] conn [of t] by (cases ev) simp_all
    qed (rule same_life_trans [OF that same_life_event])
  qed (simp add: same_life_def)
  have com: "fst (process_commands cb T cfg t) = None" for t
    unfolding process_commands_def
  proof (rule run_all_quiet [where P = "\<lambda>_. True", THEN conjunct1])
    show "fst (process_command cb T cfg c u) = None \<and> True" for c u
      by (auto simp: process_command_def activate_command_def deactivate_command_def send_payload_def Let_def err
          split: server_command_type.split option.split prod.split)
  qed simp
  obtain s1 where s1: "run_all (handle_transport_event cb T cfg) evs s = ok s1" "same_life s s1"
    using evs by (cases "run_all (handle_transport_event cb T cfg) evs s") (auto simp: ok_def)
  obtain s2 where s2: "process_commands cb T cfg s1 = ok s2"
    using com [of s1] by (cases "process_commands cb T cfg s1") (auto simp: ok_def)
  have "server_iteration cb T cfg evs s = process_messages cb T cfg s2"
    by (simp add: server_iteration_def s1 s2) (simp add: ok_def)
  moreover have "same_life s1 s2" using process_commands_frame [of s1 cb T cfg] by (simp add: s2)
  ultimately show ?thesis
    using s1(2) by (simp add: core_eq_fields [OF core_eq_process_messages] same_life_def)
qed

theorem iteration_survives_witness:
  "sv_running (server_iteration (\<lambda>_. Returns) (example_transport\<lparr>tr_client_id := \<lambda>_. 8\<rparr>) example_cfg [TConnected 0] example_started)"
  using iteration_survives [of "\<lambda>_. Returns" example_cfg example_started "''lo''" _ "[TConnected 0]"]
  by (simp add: quiet_def)

text \<open>A worker that failed cannot be cleaned up. When an exception leaves a connection handler,
  the worker clears the running flag itself and ends; \<open>stop\<close> then returns before it joins the
  thread, so that destroying the server, or starting it again, calls \<open>std::terminate\<close>.\<close>

theorem failed_worker_terminates:
  assumes "sv_running s" "sv_worker s = Live_thread"
    and "fst (run_all (handle_transport_event cb T cfg) evs s) \<noteq> None"
  shows "let s' = server_worker_exit cb ids (server_iteration cb T cfg evs s) in
      \<not> sv_running s' \<and> sv_worker (server_stop cb' ids' s') = Ended_thread
      \<and> sv_terminated (fst (server_destroy cb' ids' (s', lib)))
      \<and> sv_terminated (snd (server_start cb' True addr None s'))"
proof -
  obtain e s1 where r: "run_all (handle_transport_event cb T cfg) evs s = (Some e, s1)"
    using assms(3) by (cases "run_all (handle_transport_event cb T cfg) evs s") auto
  have "\<not> sv_running (server_iteration cb T cfg evs s)"
    by (simp add: server_iteration_def r)
  moreover have "sv_running (fold (on_client_disconnected cb) ids t) = sv_running t" for t
    by (induction ids arbitrary: t) (simp_all add: on_client_disconnected_def)
  ultimately show ?thesis
    by (simp add: server_worker_exit_def server_stop_def server_destroy_def server_start_def Let_def)
qed

theorem failed_worker_terminates_witness:
  "let cb = (\<lambda>ev. case ev of SvError m \<Rightarrow> Throws (Runtime_error m) | _ \<Rightarrow> Unset);
       s' = server_worker_exit cb [0] (server_iteration cb (example_transport\<lparr>tr_client_id := \<lambda>_. 8\<rparr>) example_cfg
              [TConnected 0] example_started)
   in sv_terminated (fst (server_destroy cb [] (s', \<lparr>library_refs = 1, library_initialized = True\<rparr>)))"
proof -
  let ?cb = "\<lambda>ev. case ev of SvError m \<Rightarrow> Throws (Runtime_error m) | _ \<Rightarrow> Unset"
  have "fst (run_all (handle_transport_event ?cb (example_transport\<lparr>tr_client_id := \<lambda>_. 8\<rparr>) example_cfg)
      [TConnected 0] example_started) \<noteq> None"
    by (simp add: on_client_connected_def example_transport_def sv_reject_def sv_error_def)
  from failed_worker_terminates [OF _ _ this] show ?thesis by (simp add: Let_def)
qed

text \<open>Construction checks its configuration and leaves the library's reference count as it was
  when it fails; when it succeeds, the library is initialised, the clients are between 1 and 64,
  no advertised address is a wildcard or of another family than the bind address, and destroying
  the server gives the count back, whatever the server did.\<close>

theorem construct_then_destroy:
  assumes "library_inv lib" and "construct_server A init_ok reg cfg lib = (lib', r)"
  shows "case r of
      Inl e \<Rightarrow> lib' = lib
    | Inr s \<Rightarrow> library_inv lib' \<and> 0 < library_refs lib' \<and> s = initial_server (the reg) \<and> reg \<noteq> None
        \<and> 1 \<le> cfg_max_clients cfg \<and> cfg_max_clients cfg \<le> 64
        \<and> (\<forall>t \<in> set (cfg_connect_addresses cfg). \<not> address_is_wildcard (address_of A t)
             \<and> addr_type (address_of A t) = addr_type (address_of A (cfg_bind_address cfg)))
        \<and> (\<forall>cb ids s'. snd (server_destroy cb ids (s', lib')) = lib)"
proof (cases r)
  case (Inl e)
  then show ?thesis
    using assms(2) by (auto simp: construct_server_def retain_library_def ok_def throw_def split: sum.splits if_splits option.splits)
next
  case (Inr s)
  from assms(2) Inr have c: "validate_registry reg ''server'' = Inr ()" "validate_max_clients (cfg_max_clients cfg) = Inr ()"
    "parse_address A (cfg_bind_address cfg) ''server bind'' = Inr (address_of A (cfg_bind_address cfg))"
    "validate_connect_addresses A (address_of A (cfg_bind_address cfg)) (cfg_connect_addresses cfg) = Inr ()"
    "retain_library init_ok lib = (None, lib')" "s = initial_server (the reg)"
    by (auto simp: construct_server_def bind_result_Inr_iff parse_address_def
        split: sum.splits prod.splits if_splits option.splits)
  show ?thesis
    using retain_release [OF assms(1) c(5)] c Inr by (auto simp: validate_registry_def validate_max_clients_def MaxClients_def
        validate_connect_addresses_Inr server_destroy_def Let_def split: if_splits)
qed

theorem construct_then_destroy_witness:
  "snd (server_destroy (\<lambda>_. Unset) [] (initial_server example_registry, \<lparr>library_refs = 1, library_initialized = True\<rparr>))
     = \<lparr>library_refs = 0, library_initialized = False\<rparr>"
proof -
  have "construct_server example_addresses True (Some example_registry) example_cfg \<lparr>library_refs = 0, library_initialized = False\<rparr>
      = (\<lparr>library_refs = 1, library_initialized = True\<rparr>, Inr (initial_server example_registry))"
    by (simp add: construct_server_def validate_registry_def validate_bind_address_def validate_max_clients_def
        parse_address_def address_valid_def example_addresses_def example_cfg_def MaxClients_def retain_library_def ok_def)
  from construct_then_destroy [OF _ this] show ?thesis by (simp add: library_inv_def)
qed

end
