(* ===== verification/Realtime_Client.thy ===== *)
theory Realtime_Client
  imports Realtime_Server
begin

text \<open>
  The realtime client (\<open>RealtimeClient\<close> and \<open>RealtimeClient::Impl\<close> of \<open>src/realtime/core.h\<close> and
  \<open>core.cpp\<close>). The network library is the parameter \<open>client_transport\<close>: whether it accepts a
  connect token, how its state changes while time advances, and the messages it has received.
  What the client does to it is recorded in the log, sends with the state the library was in.

  Two threads share a client: the worker it starts, and the thread of the scripts, which makes all calls (the callbacks
  only queue events for it). Nothing excludes one while the other runs, so both are machines that stop between any two
  accesses to what they share: the lifecycle, the connected flag, the running flag and the queue of commands. A step is
  one such access with the local work around it; the worker's handling of one command or one message touches only
  what is its own and is a step as well.
\<close>

section \<open>State\<close>

text \<open>yojimbo's \<open>ClientState\<close>; the code compares it with \<open>\<le>\<close>, so it is ordered by its values.\<close>

datatype client_lib_state = CLIENT_STATE_ERROR | CLIENT_STATE_DISCONNECTED | CLIENT_STATE_CONNECTING | CLIENT_STATE_CONNECTED

fun client_state_code :: "client_lib_state \<Rightarrow> int" where
  "client_state_code CLIENT_STATE_ERROR = -1"
| "client_state_code CLIENT_STATE_DISCONNECTED = 0"
| "client_state_code CLIENT_STATE_CONNECTING = 1"
| "client_state_code CLIENT_STATE_CONNECTED = 2"

lemma client_state_code_inject: "client_state_code a = client_state_code b \<Longrightarrow> a = b"
  by (cases a; cases b) simp_all

instantiation client_lib_state :: linorder
begin

definition less_eq_client_lib_state :: "client_lib_state \<Rightarrow> client_lib_state \<Rightarrow> bool" where
  "less_eq_client_lib_state a b \<longleftrightarrow> client_state_code a \<le> client_state_code b"

definition less_client_lib_state :: "client_lib_state \<Rightarrow> client_lib_state \<Rightarrow> bool" where
  "less_client_lib_state a b \<longleftrightarrow> client_state_code a < client_state_code b"

instance
  by standard (auto simp: less_eq_client_lib_state_def less_client_lib_state_def intro: client_state_code_inject)

end

lemma le_DISCONNECTED:
  "st \<le> CLIENT_STATE_DISCONNECTED \<longleftrightarrow> st = CLIENT_STATE_ERROR \<or> st = CLIENT_STATE_DISCONNECTED"
  by (cases st) (simp_all add: less_eq_client_lib_state_def)

datatype lifecycle_state = Idle | Connecting | Connected | Closed

datatype client_event =
  ClConnected
| ClDisconnected
| ClFeatureOffered u16 u16 string
| ClFeatureActivated u16
| ClFeatureDeactivated u16
| ClMessage u16 string
| ClError string

datatype client_io =
  CliConnect u64 string
| CliDisconnect
| CliSend client_lib_state int message
| CliRelease message

type_synonym client_entry = "(client_io, client_event) entry"

datatype client_command_type = CConnect | CDisconnect | CSendPayload

record client_command =
  cc_type :: client_command_type
  cc_client_id :: u64
  cc_feature :: u16
  cc_reliable :: bool
  cc_token :: string
  cc_payload :: string

text \<open>\<open>cl_previous\<close> is the worker's local \<open>previous_state\<close>; \<open>cl_exists\<close> is false after \<open>client.reset()\<close>.\<close>

record client_state =
  cl_registry :: feature_registry
  cl_lifecycle :: lifecycle_state
  cl_connected :: bool
  cl_running :: bool
  cl_worker :: worker_thread
  cl_commands :: "client_command list"
  cl_active :: "u16 set"
  cl_lib :: client_lib_state
  cl_previous :: client_lib_state
  cl_exists :: bool
  cl_terminated :: bool
  cl_log :: "client_entry list"

record client_transport =
  ct_accepts :: "u64 \<Rightarrow> string \<Rightarrow> bool"
  ct_advance :: "client_lib_state \<Rightarrow> client_lib_state"
  ct_inbox :: "int \<Rightarrow> message list"

definition cl_emit :: "client_entry list \<Rightarrow> client_state \<Rightarrow> client_state" where
  "cl_emit es s = s\<lparr>cl_log := cl_log s @ es\<rparr>"

definition cl_error :: "client_event callbacks \<Rightarrow> string \<Rightarrow> client_state \<Rightarrow> client_state outcome" where
  "cl_error cb message s = (case cb (ClError message) of
      Unset \<Rightarrow> ok s
    | Returns \<Rightarrow> ok (cl_emit [Call (ClError message)] s)
    | Throws e \<Rightarrow> throw e (cl_emit [Call (ClError message)] s))"

definition cl_guarded :: "client_event callbacks \<Rightarrow> client_event \<Rightarrow> string \<Rightarrow> client_state \<Rightarrow> client_state" where
  "cl_guarded cb ev ctx s = cl_emit (invoke_callback_guarded cb ev cb ClError ctx) s"

text \<open>The error callback guarded without an error callback of its own.\<close>

definition cl_guarded_error :: "client_event callbacks \<Rightarrow> string \<Rightarrow> client_state \<Rightarrow> client_state" where
  "cl_guarded_error cb message s =
     cl_emit (invoke_callback_guarded cb (ClError message) (\<lambda>_. Unset) ClError ''realtime client error callback failed'') s"

section \<open>The library's calls\<close>

definition lib_disconnect :: "client_state \<Rightarrow> client_state" where
  "lib_disconnect s = cl_emit [Io CliDisconnect] (s\<lparr>cl_lib := CLIENT_STATE_DISCONNECTED\<rparr>)"

definition lib_connect :: "client_transport \<Rightarrow> u64 \<Rightarrow> string \<Rightarrow> client_state \<Rightarrow> client_state" where
  "lib_connect T cid token s = cl_emit [Io (CliConnect cid token)]
     (s\<lparr>cl_lib := (if ct_accepts T cid token then CLIENT_STATE_CONNECTING else CLIENT_STATE_DISCONNECTED)\<rparr>)"

section \<open>Commands\<close>

definition client_command_step ::
  "client_event callbacks \<Rightarrow> client_transport \<Rightarrow> client_command \<Rightarrow> client_state \<Rightarrow> client_state outcome" where
  "client_command_step cb T c s = (case cc_type c of
      CConnect \<Rightarrow> ok (lib_connect T (cc_client_id c) (cc_token c) s)
    | CDisconnect \<Rightarrow> ok (lib_disconnect s)
    | CSendPayload \<Rightarrow>
        if find_feature (cl_registry s) (cc_feature c) = None
        then cl_error cb (''cannot send payload for unknown feature id '' @ to_string (uint (cc_feature c))) s
        else if \<not> feature_set_contains (cl_active s) (cc_feature c) then ok s
        else if length (cc_payload c) > kMaxPayloadBytes then cl_error cb ''payload exceeds max size'' s
        else ok (cl_emit [Io (CliSend (cl_lib s) (if cc_reliable c then kReliableChannel else kUnreliableChannel)
                               (PayloadMessage (cc_feature c) (cc_payload c)))] s))"

section \<open>Messages\<close>

definition release :: "message \<Rightarrow> client_state \<Rightarrow> client_state" where
  "release m s = cl_emit [Io (CliRelease m)] s"

text \<open>The early return of \<open>process_messages\<close>: the flag tells that it returned.\<close>

definition refuse :: "client_event callbacks \<Rightarrow> string \<Rightarrow> message \<Rightarrow> client_state \<Rightarrow> (bool \<times> client_state) outcome" where
  "refuse cb message m s = (case cl_error cb message s of
      (Some e, s') \<Rightarrow> (Some e, (False, s'))
    | (None, s') \<Rightarrow> ok (True, (lib_disconnect (release m s'))\<lparr>cl_active := {}\<rparr>))"

definition version_mismatch :: "string \<Rightarrow> u16 \<Rightarrow> u16 \<Rightarrow> feature_definition \<Rightarrow> string" where
  "version_mismatch verb fid version feature =
     ''server '' @ verb @ '' incompatible feature version for id '' @ to_string (uint fid)
       @ '': remote '' @ to_string (uint version) @ '' local '' @ to_string (uint (fd_version feature))"

definition handle_offer ::
  "client_event callbacks \<Rightarrow> message \<Rightarrow> u16 \<Rightarrow> u16 \<Rightarrow> client_state \<Rightarrow> (bool \<times> client_state) outcome" where
  "handle_offer cb m fid version s = (case find_feature (cl_registry s) fid of
      None \<Rightarrow> refuse cb (''server offered unknown feature id '' @ to_string (uint fid)) m s
    | Some feature \<Rightarrow>
        if fd_version feature \<noteq> version then refuse cb (version_mismatch ''offered'' fid version feature) m s
        else ok (False, release m (cl_guarded cb (ClFeatureOffered fid version (fd_name feature))
               ''realtime client feature-offered callback failed'' s)))"

definition handle_activate ::
  "client_event callbacks \<Rightarrow> message \<Rightarrow> u16 \<Rightarrow> u16 \<Rightarrow> client_state \<Rightarrow> (bool \<times> client_state) outcome" where
  "handle_activate cb m fid version s = (case find_feature (cl_registry s) fid of
      None \<Rightarrow> refuse cb (''server activated unknown feature id '' @ to_string (uint fid)) m s
    | Some feature \<Rightarrow>
        if fd_version feature \<noteq> version then refuse cb (version_mismatch ''activated'' fid version feature) m s
        else
          let (inserted, fs) = feature_set_insert (cl_active s) fid; s = s\<lparr>cl_active := fs\<rparr> in
          if \<not> inserted then ok (False, release m s)
          else ok (False, release m (cl_guarded cb (ClFeatureActivated fid)
                 ''realtime client feature-activated callback failed'' s)))"

definition handle_deactivate ::
  "client_event callbacks \<Rightarrow> message \<Rightarrow> u16 \<Rightarrow> client_state \<Rightarrow> (bool \<times> client_state) outcome" where
  "handle_deactivate cb m fid s = (case find_feature (cl_registry s) fid of
      None \<Rightarrow> refuse cb (''server deactivated unknown feature id '' @ to_string (uint fid)) m s
    | Some feature \<Rightarrow>
        let (erased, fs) = feature_set_erase (cl_active s) fid; s = s\<lparr>cl_active := fs\<rparr> in
        if \<not> erased then ok (False, release m s)
        else ok (False, release m (cl_guarded cb (ClFeatureDeactivated fid)
               ''realtime client feature-deactivated callback failed'' s)))"

definition client_message ::
  "client_event callbacks \<Rightarrow> message \<Rightarrow> client_state \<Rightarrow> (bool \<times> client_state) outcome" where
  "client_message cb m s = (case m of
      ControlMessage action fid version \<Rightarrow>
        if action = action_code Offer then handle_offer cb m fid version s
        else if action = action_code Activate then handle_activate cb m fid version s
        else if action = action_code Deactivate then handle_deactivate cb m fid s
        else ok (False, release m s)
    | PayloadMessage fid payload \<Rightarrow>
        ok (False, release m (if feature_set_contains (cl_active s) fid
             then cl_guarded cb (ClMessage fid payload) ''realtime client message callback failed'' s else s)))"

fun client_message_step ::
  "client_event callbacks \<Rightarrow> message \<Rightarrow> bool \<times> client_state \<Rightarrow> (bool \<times> client_state) outcome" where
  "client_message_step cb m (returned, s) = (if returned then ok (returned, s) else client_message cb m s)"

section \<open>The worker\<close>

text \<open>Why the worker gives up a connection: three branches of the comparison of states, or an exception.\<close>

datatype drop_reason = Lost_connection | Lost_attempt | Lost_error | Failed exn

text \<open>
  Where the worker stands in \<open>run_loop\<close>: before the first look at the library, before \<open>while\<close>, before the queue is
  swapped, in the commands taken, before time advances, in the messages received, before the states are compared;
  then before each access of the branch for a new connection, of the branches that drop one and of the handler of
  exceptions, and of what follows the loop.
\<close>

datatype worker_at =
  W_none
| W_start
| W_head
| W_swap
| W_commands "client_command list"
| W_advance
| W_messages "message list"
| W_compare
| W_up_flag
| W_up_load
| W_up_store
| W_up_call
| W_drop drop_reason
| W_load drop_reason
| W_store drop_reason
| W_report drop_reason
| W_stop
| W_leave
| W_leave_load
| W_leave_store

definition compare_states :: "client_state \<Rightarrow> worker_at \<times> client_state" where
  "compare_states s =
    (let current = cl_lib s; previous = cl_previous s in
     if current = previous then (W_head, s)
     else if current = CLIENT_STATE_CONNECTED then (W_up_flag, s)
     else if current \<le> CLIENT_STATE_DISCONNECTED \<and> previous = CLIENT_STATE_CONNECTED then (W_drop Lost_connection, s)
     else if current = CLIENT_STATE_DISCONNECTED \<and> previous = CLIENT_STATE_CONNECTING then (W_drop Lost_attempt, s)
     else if current = CLIENT_STATE_ERROR then (W_drop Lost_error, s)
     else (W_head, s\<lparr>cl_previous := current\<rparr>))"

fun report_drop :: "client_event callbacks \<Rightarrow> drop_reason \<Rightarrow> client_state \<Rightarrow> worker_at \<times> client_state" where
  "report_drop cb Lost_connection s =
     (W_head, (cl_guarded cb ClDisconnected ''realtime client disconnected callback failed'' s)\<lparr>cl_previous := cl_lib s\<rparr>)"
| "report_drop cb Lost_attempt s =
     (W_head, (cl_guarded_error cb ''client disconnected before connection completed'' s)\<lparr>cl_previous := cl_lib s\<rparr>)"
| "report_drop cb Lost_error s =
     (W_head, (cl_guarded_error cb ''client connection failed'' s)\<lparr>cl_previous := cl_lib s\<rparr>)"
| "report_drop cb (Failed e) s =
     (W_stop, cl_emit (report_callback_failure cb ClError ''realtime client worker failed'' e) s)"

text \<open>The null pointer behind a client that was reset ends the process.\<close>

fun worker_step :: "client_event callbacks \<Rightarrow> client_transport \<Rightarrow> worker_at \<Rightarrow> client_state \<Rightarrow> worker_at \<times> client_state" where
  "worker_step cb T W_none s = (W_none, s)"
| "worker_step cb T W_start s =
     (if \<not> cl_exists s then (W_none, s\<lparr>cl_terminated := True\<rparr>) else (W_head, s\<lparr>cl_previous := cl_lib s\<rparr>))"
| "worker_step cb T W_head s = (if cl_running s then (W_swap, s) else (W_leave, s))"
| "worker_step cb T W_swap s = (W_commands (cl_commands s), s\<lparr>cl_commands := []\<rparr>)"
| "worker_step cb T (W_commands []) s = (W_advance, s)"
| "worker_step cb T (W_commands (c # cs)) s =
     (case client_command_step cb T c s of (None, s) \<Rightarrow> (W_commands cs, s) | (Some e, s) \<Rightarrow> (W_drop (Failed e), s))"
| "worker_step cb T W_advance s =
     (let s = s\<lparr>cl_lib := ct_advance T (cl_lib s)\<rparr> in
      if cl_lib s = CLIENT_STATE_CONNECTED then (W_messages (concat (map (ct_inbox T) [0..numChannels - 1])), s)
      else (W_compare, s))"
| "worker_step cb T (W_messages []) s = (W_compare, s)"
| "worker_step cb T (W_messages (m # ms)) s =
     (case client_message cb m s of
        (None, (returned, s)) \<Rightarrow> (if returned then W_compare else W_messages ms, s)
      | (Some e, (returned, s)) \<Rightarrow> (W_drop (Failed e), s))"
| "worker_step cb T W_compare s = compare_states s"
| "worker_step cb T W_up_flag s = (W_up_load, s\<lparr>cl_connected := True\<rparr>)"
| "worker_step cb T W_up_load s = (if cl_lifecycle s \<noteq> Closed then W_up_store else W_up_call, s)"
| "worker_step cb T W_up_store s = (W_up_call, s\<lparr>cl_lifecycle := Connected\<rparr>)"
| "worker_step cb T W_up_call s =
     (W_head, (cl_guarded cb ClConnected ''realtime client connected callback failed'' s)\<lparr>cl_previous := cl_lib s\<rparr>)"
| "worker_step cb T (W_drop r) s = (W_load r, s\<lparr>cl_connected := False, cl_active := {}\<rparr>)"
| "worker_step cb T (W_load r) s = (if cl_lifecycle s \<noteq> Closed then W_store r else W_report r, s)"
| "worker_step cb T (W_store r) s = (W_report r, s\<lparr>cl_lifecycle := Idle\<rparr>)"
| "worker_step cb T (W_report r) s = report_drop cb r s"
| "worker_step cb T W_stop s = (W_head, s\<lparr>cl_running := False\<rparr>)"
| "worker_step cb T W_leave s = (W_leave_load, lib_disconnect s)"
| "worker_step cb T W_leave_load s =
     (if cl_lifecycle s \<noteq> Closed then (W_leave_store, s) else (W_none, s\<lparr>cl_worker := Ended_thread\<rparr>))"
| "worker_step cb T W_leave_store s = (W_none, s\<lparr>cl_lifecycle := Idle, cl_worker := Ended_thread\<rparr>)"

section \<open>The caller\<close>

definition closed_error :: exn where
  "closed_error = Runtime_error ''realtime client is closed''"

definition NETCODE_CONNECT_TOKEN_BYTES :: nat where "NETCODE_CONNECT_TOKEN_BYTES = 2048"

definition connect_command :: "u64 \<Rightarrow> string \<Rightarrow> client_command" where
  "connect_command cid token = \<lparr>cc_type = CConnect, cc_client_id = cid, cc_feature = 0, cc_reliable = True,
     cc_token = token, cc_payload = []\<rparr>"

definition disconnect_command :: client_command where
  "disconnect_command = \<lparr>cc_type = CDisconnect, cc_client_id = 0, cc_feature = 0, cc_reliable = True, cc_token = [], cc_payload = []\<rparr>"

definition send_command :: "bool \<Rightarrow> u16 \<Rightarrow> string \<Rightarrow> client_command" where
  "send_command reliable fid payload = \<lparr>cc_type = CSendPayload, cc_client_id = 0, cc_feature = fid,
     cc_reliable = reliable, cc_token = [], cc_payload = payload\<rparr>"

datatype client_call =
  Call_connect u64 string
| Call_disconnect
| Call_send_reliable u16 string
| Call_send_unreliable u16 string
| Call_close
| Call_register feature_definition

text \<open>
  Where the caller stands: outside every call; in \<open>connect\<close> before the exchange of the lifecycle, in \<open>start_worker\<close> before
  the lifecycle is looked at, before the exchange of the running flag, before the thread is made, before the flag is
  taken back; in \<open>rollback_connect_start\<close>; in \<open>disconnect\<close> before the running flag; in \<open>enqueue\<close> (the flag tells that
  an exception rolls a \<open>connect\<close> back) before the lifecycle and before the queue; in \<open>close\<close>.
\<close>

datatype rollback_at = Rb_flag | Rb_active | Rb_commands | Rb_running | Rb_join | Rb_library | Rb_load | Rb_store

datatype close_at = Cl_flag | Cl_running | Cl_join | Cl_commands | Cl_library

datatype caller_at =
  C_ready
| C_connect u64 string
| C_start u64 string
| C_run u64 string
| C_spawn u64 string
| C_unstart exn
| C_rollback exn rollback_at
| C_disconnect
| C_enqueue bool client_command
| C_push client_command
| C_close close_at

text \<open>
  \<open>cr_thrown\<close> is what the last call threw, if anything. \<open>cr_calm\<close> is a ghost: no \<open>close\<close> has begun, and no \<open>connect\<close> has
  set the running flag again while a worker that failed had not ended.
\<close>

record client_run =
  cr_state :: client_state
  cr_worker :: worker_at
  cr_caller :: caller_at
  cr_thrown :: "exn option"
  cr_calm :: bool

definition returns :: "exn option \<Rightarrow> client_run \<Rightarrow> client_run" where
  "returns e r = r\<lparr>cr_caller := C_ready, cr_thrown := e\<rparr>"

definition goes :: "caller_at \<Rightarrow> client_state \<Rightarrow> client_run \<Rightarrow> client_run" where
  "goes c s r = r\<lparr>cr_state := s, cr_caller := c\<rparr>"

text \<open>The first access of each call.\<close>

definition begin_connect :: "u64 \<Rightarrow> string \<Rightarrow> client_run \<Rightarrow> client_run" where
  "begin_connect cid token r =
    (if cl_lifecycle (cr_state r) = Closed then returns (Some closed_error) r
     else if cid = 0 then returns (Some (Runtime_error ''realtime client connect requires non-zero client-id'')) r
     else if length token \<noteq> NETCODE_CONNECT_TOKEN_BYTES then returns (Some (Runtime_error ''connect token size mismatch'')) r
     else goes (C_connect cid token) (cr_state r) r)"

definition begin_disconnect :: "client_run \<Rightarrow> client_run" where
  "begin_disconnect r =
    (if cl_lifecycle (cr_state r) = Closed then returns (Some closed_error) r
     else if cl_lifecycle (cr_state r) = Idle then returns None r
     else goes C_disconnect (cr_state r) r)"

definition begin_send :: "bool \<Rightarrow> u16 \<Rightarrow> string \<Rightarrow> client_run \<Rightarrow> client_run" where
  "begin_send reliable fid payload r =
    (if cl_lifecycle (cr_state r) = Closed then returns (Some closed_error) r
     else if find_feature (cl_registry (cr_state r)) fid = None
     then returns (Some (Runtime_error (''unknown feature id for send: '' @ to_string (uint fid)))) r
     else goes (C_enqueue False (send_command reliable fid payload)) (cr_state r) r)"

definition begin_send_reliable :: "u16 \<Rightarrow> string \<Rightarrow> client_run \<Rightarrow> client_run" where
  "begin_send_reliable = begin_send True"

definition begin_send_unreliable :: "u16 \<Rightarrow> string \<Rightarrow> client_run \<Rightarrow> client_run" where
  "begin_send_unreliable = begin_send False"

definition begin_close :: "client_run \<Rightarrow> client_run" where
  "begin_close r =
    (if cl_lifecycle (cr_state r) = Closed then returns None r
     else (goes (C_close Cl_flag) ((cr_state r)\<lparr>cl_lifecycle := Closed\<rparr>) r)\<lparr>cr_calm := False\<rparr>)"

text \<open>Features are registered with the registry the client shares; the caller may do so at any time.\<close>

definition register_with_client :: "feature_definition \<Rightarrow> client_run \<Rightarrow> client_run" where
  "register_with_client f r =
    (case register_feature (cl_registry (cr_state r)) f of
       Inl e \<Rightarrow> returns (Some e) r
     | Inr reg \<Rightarrow> returns None (goes C_ready ((cr_state r)\<lparr>cl_registry := reg\<rparr>) r))"

fun begin_call :: "client_call \<Rightarrow> client_run \<Rightarrow> client_run" where
  "begin_call (Call_connect cid token) r = begin_connect cid token r"
| "begin_call Call_disconnect r = begin_disconnect r"
| "begin_call (Call_send_reliable fid payload) r = begin_send_reliable fid payload r"
| "begin_call (Call_send_unreliable fid payload) r = begin_send_unreliable fid payload r"
| "begin_call Call_close r = begin_close r"
| "begin_call (Call_register f) r = register_with_client f r"

text \<open>The steps of \<open>rollback_connect_start\<close>, after which the exception is thrown again, and of \<open>close\<close>.\<close>

definition disconnect_library :: "client_state \<Rightarrow> client_state" where
  "disconnect_library s = (if cl_exists s \<and> \<not> cl_lib s \<le> CLIENT_STATE_DISCONNECTED then lib_disconnect s else s)"

fun rollback_step :: "exn \<Rightarrow> rollback_at \<Rightarrow> client_state \<Rightarrow> client_run \<Rightarrow> client_run" where
  "rollback_step e Rb_flag s r = goes (C_rollback e Rb_active) (s\<lparr>cl_connected := False\<rparr>) r"
| "rollback_step e Rb_active s r = goes (C_rollback e Rb_commands) (s\<lparr>cl_active := {}\<rparr>) r"
| "rollback_step e Rb_commands s r = goes (C_rollback e Rb_running) (s\<lparr>cl_commands := []\<rparr>) r"
| "rollback_step e Rb_running s r =
     goes (C_rollback e (if cl_running s \<and> cl_worker s \<noteq> No_thread then Rb_join else Rb_library)) (s\<lparr>cl_running := False\<rparr>) r"
| "rollback_step e Rb_join s r = goes (C_rollback e Rb_library) (s\<lparr>cl_worker := No_thread\<rparr>) r"
| "rollback_step e Rb_library s r = goes (C_rollback e Rb_load) (disconnect_library s) r"
| "rollback_step e Rb_load s r =
     (if cl_lifecycle s \<noteq> Closed then goes (C_rollback e Rb_store) s r else returns (Some e) r)"
| "rollback_step e Rb_store s r = returns (Some e) (goes C_ready (s\<lparr>cl_lifecycle := Idle\<rparr>) r)"

fun close_step :: "close_at \<Rightarrow> client_state \<Rightarrow> client_run \<Rightarrow> client_run" where
  "close_step Cl_flag s r = goes (C_close Cl_running) (s\<lparr>cl_connected := False\<rparr>) r"
| "close_step Cl_running s r =
     goes (C_close (if cl_worker s \<noteq> No_thread then Cl_join else Cl_commands)) (s\<lparr>cl_running := False\<rparr>) r"
| "close_step Cl_join s r = goes (C_close Cl_commands) (s\<lparr>cl_worker := No_thread\<rparr>) r"
| "close_step Cl_commands s r = goes (C_close Cl_library) (s\<lparr>cl_commands := []\<rparr>) r"
| "close_step Cl_library s r =
     returns None (goes C_ready ((disconnect_library s)\<lparr>cl_exists := False, cl_active := {}\<rparr>) r)"

text \<open>\<open>spawn\<close> is what making a thread throws, if anything; assigning to a joinable thread ends the process.\<close>

fun caller_step :: "exn option \<Rightarrow> caller_at \<Rightarrow> client_state \<Rightarrow> client_run \<Rightarrow> client_run" where
  "caller_step spawn C_ready s r = r"
| "caller_step spawn (C_connect cid token) s r =
     (if cl_lifecycle s = Idle then goes (C_start cid token) (s\<lparr>cl_lifecycle := Connecting\<rparr>) r
      else returns (Some (Runtime_error ''realtime client is already connecting or connected'')) r)"
| "caller_step spawn (C_start cid token) s r =
     (if cl_lifecycle s = Closed then goes (C_rollback closed_error Rb_flag) s r else goes (C_run cid token) s r)"
| "caller_step spawn (C_run cid token) s r =
     (if cl_running s then goes (C_enqueue True (connect_command cid token)) s r
      else (goes (C_spawn cid token) (s\<lparr>cl_running := True\<rparr>) r)\<lparr>cr_calm := cr_calm r \<and> cr_worker r = W_none\<rparr>)"
| "caller_step spawn (C_spawn cid token) s r =
     (case spawn of
        Some e \<Rightarrow> goes (C_unstart e) s r
      | None \<Rightarrow>
          if cl_worker s \<noteq> No_thread then goes C_ready (s\<lparr>cl_terminated := True\<rparr>) r
          else (goes (C_enqueue True (connect_command cid token)) (s\<lparr>cl_worker := Live_thread\<rparr>) r)\<lparr>cr_worker := W_start\<rparr>)"
| "caller_step spawn (C_unstart e) s r = goes (C_rollback e Rb_flag) (s\<lparr>cl_running := False\<rparr>) r"
| "caller_step spawn (C_rollback e at) s r = rollback_step e at s r"
| "caller_step spawn C_disconnect s r =
     (if cl_running s then goes (C_enqueue False disconnect_command) s r else returns None r)"
| "caller_step spawn (C_enqueue connecting c) s r =
     (if cl_lifecycle s = Closed
      then (if connecting then goes (C_rollback closed_error Rb_flag) s r else returns (Some closed_error) r)
      else goes (C_push c) s r)"
| "caller_step spawn (C_push c) s r = returns None (goes C_ready (s\<lparr>cl_commands := cl_commands s @ [c]\<rparr>) r)"
| "caller_step spawn (C_close at) s r = close_step at s r"

text \<open>A \<open>join\<close> waits until the worker has ended.\<close>

fun waits_for_worker :: "caller_at \<Rightarrow> bool" where
  "waits_for_worker (C_rollback e Rb_join) = True"
| "waits_for_worker (C_close Cl_join) = True"
| "waits_for_worker _ = False"

definition worker_turn :: "client_event callbacks \<Rightarrow> client_transport \<Rightarrow> client_run \<Rightarrow> client_run" where
  "worker_turn cb T r = (case worker_step cb T (cr_worker r) (cr_state r) of (w, s) \<Rightarrow> r\<lparr>cr_worker := w, cr_state := s\<rparr>)"

definition caller_turn :: "exn option \<Rightarrow> client_run \<Rightarrow> client_run" where
  "caller_turn spawn r = caller_step spawn (cr_caller r) (cr_state r) r"

section \<open>Construction and destruction\<close>

definition initial_client :: "feature_registry \<Rightarrow> client_state" where
  "initial_client reg = \<lparr>cl_registry = reg, cl_lifecycle = Idle, cl_connected = False, cl_running = False,
     cl_worker = No_thread, cl_commands = [], cl_active = {}, cl_lib = CLIENT_STATE_DISCONNECTED,
     cl_previous = CLIENT_STATE_DISCONNECTED, cl_exists = True, cl_terminated = False, cl_log = []\<rparr>"

definition construct_client ::
  "address_lib \<Rightarrow> bool \<Rightarrow> feature_registry option \<Rightarrow> string \<Rightarrow> library_state \<Rightarrow> library_state \<times> client_state result" where
  "construct_client A init_ok reg bind lib =
     (case bind_result (validate_registry reg ''client'') (\<lambda>_. validate_bind_address A bind) of
        Inl e \<Rightarrow> (lib, Inl e)
      | Inr _ \<Rightarrow> (case retain_library init_ok lib of
          (Some e, lib') \<Rightarrow> (lib', Inl e)
        | (None, lib') \<Rightarrow> (lib', Inr (initial_client (the reg)))))"

definition initial_run :: "feature_registry \<Rightarrow> client_run" where
  "initial_run reg = \<lparr>cr_state = initial_client reg, cr_worker = W_none, cr_caller = C_ready, cr_thrown = None, cr_calm = True\<rparr>"

text \<open>The destructor calls \<open>close\<close>, and then this.\<close>

definition end_destroy :: "library_state \<Rightarrow> library_state" where
  "end_destroy lib = release_library lib"

end
