(* ===== verification/Realtime_Client_Safety.thy ===== *)
theory Realtime_Client_Safety
  imports Realtime_Client
begin

text \<open>
  The invariant of the realtime client, for every interleaving of its worker with the thread that calls it: an
  assertion for each place the worker and the caller can stand at.
\<close>

section \<open>What the handlers of an iteration change\<close>

definition cl_frame :: "client_state \<Rightarrow> client_state \<Rightarrow> bool" where
  "cl_frame s s' \<longleftrightarrow> cl_registry s' = cl_registry s \<and> cl_lifecycle s' = cl_lifecycle s \<and> cl_connected s' = cl_connected s
     \<and> cl_running s' = cl_running s \<and> cl_worker s' = cl_worker s \<and> cl_previous s' = cl_previous s
     \<and> cl_exists s' = cl_exists s \<and> cl_terminated s' = cl_terminated s"

lemma cl_frame_refl [simp]: "cl_frame s s"
  by (simp add: cl_frame_def)

lemma cl_frame_trans: "cl_frame s t \<Longrightarrow> cl_frame t u \<Longrightarrow> cl_frame s u"
  by (simp add: cl_frame_def)

lemma cl_emit_fields [simp]:
  "cl_registry (cl_emit es s) = cl_registry s" "cl_lifecycle (cl_emit es s) = cl_lifecycle s"
  "cl_connected (cl_emit es s) = cl_connected s" "cl_running (cl_emit es s) = cl_running s"
  "cl_worker (cl_emit es s) = cl_worker s" "cl_commands (cl_emit es s) = cl_commands s"
  "cl_active (cl_emit es s) = cl_active s" "cl_lib (cl_emit es s) = cl_lib s"
  "cl_previous (cl_emit es s) = cl_previous s" "cl_exists (cl_emit es s) = cl_exists s"
  "cl_terminated (cl_emit es s) = cl_terminated s" "cl_log (cl_emit es s) = cl_log s @ es"
  by (simp_all add: cl_emit_def)

lemma cl_guarded_fields [simp]:
  "cl_registry (cl_guarded cb ev ctx s) = cl_registry s" "cl_lifecycle (cl_guarded cb ev ctx s) = cl_lifecycle s"
  "cl_connected (cl_guarded cb ev ctx s) = cl_connected s" "cl_running (cl_guarded cb ev ctx s) = cl_running s"
  "cl_worker (cl_guarded cb ev ctx s) = cl_worker s" "cl_commands (cl_guarded cb ev ctx s) = cl_commands s"
  "cl_active (cl_guarded cb ev ctx s) = cl_active s" "cl_lib (cl_guarded cb ev ctx s) = cl_lib s"
  "cl_previous (cl_guarded cb ev ctx s) = cl_previous s" "cl_exists (cl_guarded cb ev ctx s) = cl_exists s"
  "cl_terminated (cl_guarded cb ev ctx s) = cl_terminated s"
  by (simp_all add: cl_guarded_def)

lemma cl_guarded_error_fields [simp]:
  "cl_registry (cl_guarded_error cb m s) = cl_registry s" "cl_lifecycle (cl_guarded_error cb m s) = cl_lifecycle s"
  "cl_connected (cl_guarded_error cb m s) = cl_connected s" "cl_running (cl_guarded_error cb m s) = cl_running s"
  "cl_worker (cl_guarded_error cb m s) = cl_worker s" "cl_commands (cl_guarded_error cb m s) = cl_commands s"
  "cl_active (cl_guarded_error cb m s) = cl_active s" "cl_lib (cl_guarded_error cb m s) = cl_lib s"
  "cl_previous (cl_guarded_error cb m s) = cl_previous s" "cl_exists (cl_guarded_error cb m s) = cl_exists s"
  "cl_terminated (cl_guarded_error cb m s) = cl_terminated s"
  by (simp_all add: cl_guarded_error_def)

lemma cl_error_emit: "\<exists>e es. cl_error cb m s = (e, cl_emit es s)"
  by (auto simp: cl_error_def ok_def throw_def cl_emit_def split: call_result.split intro: exI [of _ "[]"])

lemma cl_error_snd: "\<exists>es. snd (cl_error cb m s) = cl_emit es s"
  using cl_error_emit [of cb m s] by auto

lemma cl_emit_Nil [simp]: "cl_emit [] s = s"
  by (simp add: cl_emit_def)

lemma emit_same: "\<exists>es. s = cl_emit es s" "\<exists>es. cl_emit fs s = cl_emit es s"
  by (rule exI [of _ "[]"], simp) blast

lemma lib_disconnect_fields [simp]:
  "cl_frame s (lib_disconnect t) \<longleftrightarrow> cl_frame s t" "cl_active (lib_disconnect s) = cl_active s"
  "cl_lib (lib_disconnect s) = CLIENT_STATE_DISCONNECTED" "cl_commands (lib_disconnect s) = cl_commands s"
  by (simp_all add: lib_disconnect_def cl_frame_def)

lemma cl_frame_emit [simp]:
  "cl_frame s (cl_emit es t) \<longleftrightarrow> cl_frame s t" "cl_frame s (cl_guarded cb ev ctx t) \<longleftrightarrow> cl_frame s t"
  "cl_frame s (t\<lparr>cl_lib := l\<rparr>) \<longleftrightarrow> cl_frame s t" "cl_frame s (t\<lparr>cl_active := a\<rparr>) \<longleftrightarrow> cl_frame s t"
  "cl_frame s (t\<lparr>cl_commands := c\<rparr>) \<longleftrightarrow> cl_frame s t"
  by (simp_all add: cl_frame_def)

text \<open>A command moves the library's state and leaves the rest.\<close>

lemma command_step_core:
  "\<exists>l es. snd (client_command_step cb T c t) = cl_emit es (t\<lparr>cl_lib := l\<rparr>)
     \<and> (l = cl_lib t \<or> l = CLIENT_STATE_DISCONNECTED \<or> cc_type c = CConnect \<and> l = CLIENT_STATE_CONNECTING)"
proof (cases "cc_type c")
  case CConnect
  let ?l = "if ct_accepts T (cc_client_id c) (cc_token c) then CLIENT_STATE_CONNECTING else CLIENT_STATE_DISCONNECTED"
  show ?thesis
    using CConnect
    by (intro exI [of _ ?l] exI [of _ "[Io (CliConnect (cc_client_id c) (cc_token c))]"])
      (simp add: client_command_step_def lib_connect_def)
next
  case CDisconnect
  then show ?thesis
    by (intro exI [of _ CLIENT_STATE_DISCONNECTED] exI [of _ "[Io CliDisconnect]"])
      (simp add: client_command_step_def lib_disconnect_def)
next
  case CSendPayload
  have "\<exists>es. snd (client_command_step cb T c t) = cl_emit es t"
    using CSendPayload by (simp add: client_command_step_def cl_error_snd emit_same)
  then show ?thesis by (intro exI [of _ "cl_lib t"]) auto
qed

text \<open>A message handler keeps the features registered and never leaves a feature without a connection.\<close>

definition active_known :: "client_state \<Rightarrow> bool" where
  "active_known s \<longleftrightarrow> (\<forall>f \<in> cl_active s. find_feature (cl_registry s) f \<noteq> None)"

definition message_effect :: "client_state \<Rightarrow> client_state \<Rightarrow> bool" where
  "message_effect s s' \<longleftrightarrow> cl_frame s s' \<and> cl_commands s' = cl_commands s \<and> active_known s'
     \<and> (cl_lib s' = cl_lib s \<or> cl_lib s' = CLIENT_STATE_DISCONNECTED \<and> cl_active s' = {})"

lemma message_effect_trans: "message_effect s t \<Longrightarrow> message_effect t u \<Longrightarrow> cl_lib t = cl_lib s \<Longrightarrow> message_effect s u"
  by (auto simp: message_effect_def cl_frame_def)

lemma release_fields [simp]:
  "cl_frame s (release m t) \<longleftrightarrow> cl_frame s t" "cl_active (release m s) = cl_active s" "cl_lib (release m s) = cl_lib s"
  "cl_commands (release m s) = cl_commands s" "cl_registry (release m s) = cl_registry s"
  by (simp_all add: release_def)

text \<open>The result of a handler: only a handler that returned early touches the library.\<close>

definition flow_effect :: "client_state \<Rightarrow> (bool \<times> client_state) outcome \<Rightarrow> bool" where
  "flow_effect s r \<longleftrightarrow> message_effect s (snd (snd r)) \<and> (\<not> fst (snd r) \<longrightarrow> cl_lib (snd (snd r)) = cl_lib s)"

lemma flow_effect_refuse:
  assumes "active_known s"
  shows "flow_effect s (refuse cb x m s)"
proof -
  obtain e es where e: "cl_error cb x s = (e, cl_emit es s)"
    using cl_error_emit by blast
  show ?thesis
    using assms by (cases e) (auto simp: refuse_def e ok_def flow_effect_def message_effect_def active_known_def
        cl_frame_def lib_disconnect_def release_def)
qed

lemma flow_effect_release:
  assumes "\<forall>f \<in> fs. find_feature (cl_registry s) f \<noteq> None"
  shows "flow_effect s (ok (False, release m (s\<lparr>cl_active := fs\<rparr>)))"
    "flow_effect s (ok (False, release m (cl_guarded cb ev ctx (s\<lparr>cl_active := fs\<rparr>))))"
  using assms by (simp_all add: flow_effect_def message_effect_def active_known_def)

lemma flow_effect_release_same:
  assumes "active_known s"
  shows "flow_effect s (ok (False, release m s))" "flow_effect s (ok (False, release m (cl_guarded cb ev ctx s)))"
  using flow_effect_release [of "cl_active s" s] assms by (simp_all add: active_known_def)

lemma flow_effect_handlers:
  assumes "active_known s"
  shows "flow_effect s (handle_offer cb m fid v s)" "flow_effect s (handle_activate cb m fid v s)"
    "flow_effect s (handle_deactivate cb m fid s)"
proof -
  have ins: "find_feature (cl_registry s) fid = Some g \<Longrightarrow> \<forall>f \<in> insert fid (cl_active s). find_feature (cl_registry s) f \<noteq> None" for g
    using assms by (simp add: active_known_def)
  have del: "\<forall>f \<in> cl_active s - {fid}. find_feature (cl_registry s) f \<noteq> None"
    using assms by (simp add: active_known_def)
  note r = flow_effect_refuse [OF assms] flow_effect_release_same [OF assms]
  show "flow_effect s (handle_offer cb m fid v s)"
    by (simp add: handle_offer_def r split: option.split)
  show "flow_effect s (handle_activate cb m fid v s)"
    by (simp add: handle_activate_def feature_set_insert_def Let_def r flow_effect_release [OF ins] split: option.split)
  show "flow_effect s (handle_deactivate cb m fid s)"
    by (simp add: handle_deactivate_def feature_set_erase_def Let_def r flow_effect_release [OF del] split: option.split)
qed

lemma flow_effect_message: "active_known s \<Longrightarrow> flow_effect s (client_message cb m s)"
  by (simp add: client_message_def flow_effect_handlers flow_effect_release_same split: message.split)

text \<open>
  Message by message the worker does what the loop over all messages does, and so for commands.
\<close>

lemma worker_messages:
  assumes "run_all (client_message_step cb) ms (False, s) = ok (False, s')"
  shows "((\<lambda>(w, s). worker_step cb T w s) ^^ length ms) (W_messages ms, s) = (W_messages [], s')"
  using assms
proof (induction ms arbitrary: s)
  case (Cons m ms)
  obtain e returned t where m: "client_message cb m s = (e, (returned, t))" by (metis surj_pair)
  have stays: "run_all (client_message_step cb) ns (True, u) = ok (True, u)" for ns u
    by (induction ns) simp_all
  have "e = None" using Cons.prems m by (cases e) (auto simp: and_then_def ok_def)
  moreover have "\<not> returned"
    using Cons.prems m \<open>e = None\<close> stays [of ms t] by (auto simp: and_then_def ok_def)
  ultimately have "worker_step cb T (W_messages (m # ms)) s = (W_messages ms, t)"
    and "run_all (client_message_step cb) ms (False, t) = ok (False, s')"
    using Cons.prems m by (simp_all add: and_then_def)
  then show ?case using Cons.IH by (simp add: funpow_swap1)
qed (simp add: ok_def)

lemma worker_commands:
  assumes "run_all (client_command_step cb T) cs s = ok s'"
  shows "((\<lambda>(w, s). worker_step cb T w s) ^^ length cs) (W_commands cs, s) = (W_commands [], s')"
  using assms
proof (induction cs arbitrary: s)
  case (Cons c cs)
  obtain e t where c: "client_command_step cb T c s = (e, t)" by (metis surj_pair)
  have "e = None" using Cons.prems c by (cases e) (auto simp: and_then_def ok_def)
  then have "worker_step cb T (W_commands (c # cs)) s = (W_commands cs, t)" "run_all (client_command_step cb T) cs t = ok s'"
    using Cons.prems c by (simp_all add: and_then_def)
  then show ?case using Cons.IH by (simp add: funpow_swap1)
qed (simp add: ok_def)

section \<open>Steps of the two threads\<close>

text \<open>What the library's state does while time advances: only a connection attempt can succeed.\<close>

definition advance_ok :: "(client_lib_state \<Rightarrow> client_lib_state) \<Rightarrow> bool" where
  "advance_ok adv \<longleftrightarrow> adv CLIENT_STATE_DISCONNECTED = CLIENT_STATE_DISCONNECTED \<and> adv CLIENT_STATE_ERROR = CLIENT_STATE_ERROR
     \<and> adv CLIENT_STATE_CONNECTED \<noteq> CLIENT_STATE_CONNECTING"

text \<open>Every step of the worker may meet other callbacks and other messages; the process runs until it is terminated.\<close>

inductive client_next :: "client_run \<Rightarrow> client_run \<Rightarrow> bool" where
  Worker: "\<not> cl_terminated (cr_state r) \<Longrightarrow> cr_worker r \<noteq> W_none \<Longrightarrow> advance_ok (ct_advance T) \<Longrightarrow>
    client_next r (worker_turn cb T r)"
| Begin: "\<not> cl_terminated (cr_state r) \<Longrightarrow> cr_caller r = C_ready \<Longrightarrow> client_next r (begin_call c r)"
| Continue: "\<not> cl_terminated (cr_state r) \<Longrightarrow> cr_caller r \<noteq> C_ready \<Longrightarrow>
    waits_for_worker (cr_caller r) \<longrightarrow> cr_worker r = W_none \<Longrightarrow> client_next r (caller_turn spawn r)"

section \<open>Assertions\<close>

text \<open>The connection attempts on their way to the library: in the queue, in the worker's hands, in the caller's.\<close>

definition connects :: "client_command list \<Rightarrow> nat" where
  "connects cs = length (filter (\<lambda>c. cc_type c = CConnect) cs)"

fun taken_connects :: "worker_at \<Rightarrow> nat" where
  "taken_connects (W_commands cs) = connects cs"
| "taken_connects _ = 0"

fun calling_connects :: "caller_at \<Rightarrow> nat" where
  "calling_connects (C_start cid token) = 1"
| "calling_connects (C_run cid token) = 1"
| "calling_connects (C_spawn cid token) = 1"
| "calling_connects (C_enqueue b c) = connects [c]"
| "calling_connects (C_push c) = connects [c]"
| "calling_connects _ = 0"

definition attempts :: "client_run \<Rightarrow> nat" where
  "attempts r = connects (cl_commands (cr_state r)) + taken_connects (cr_worker r) + calling_connects (cr_caller r)"

lemma connects_simps [simp]:
  "connects [] = 0" "connects (c # cs) = (if cc_type c = CConnect then 1 else 0) + connects cs" "connects (cs @ ds) = connects cs + connects ds"
  by (simp_all add: connects_def)

definition one_attempt :: "nat \<Rightarrow> client_state \<Rightarrow> bool" where
  "one_attempt n s \<longleftrightarrow> (n \<noteq> 0 \<longrightarrow> n = 1 \<and> cl_lifecycle s = Connecting)"

text \<open>The worker in its loop, outside the branches that change what the client shows.\<close>

definition steady :: "nat \<Rightarrow> client_state \<Rightarrow> bool" where
  "steady n s \<longleftrightarrow> cl_running s \<and> (cl_connected s \<longleftrightarrow> cl_lifecycle s = Connected)
     \<and> (cl_lifecycle s = Connected \<longleftrightarrow> cl_previous s = CLIENT_STATE_CONNECTED)
     \<and> one_attempt n s
     \<and> (cl_lib s \<noteq> CLIENT_STATE_DISCONNECTED \<and> cl_lib s \<noteq> cl_previous s \<and> cl_previous s \<noteq> CLIENT_STATE_CONNECTED
          \<longrightarrow> cl_lifecycle s = Connecting \<and> n = 0)
     \<and> (cl_previous s = CLIENT_STATE_CONNECTING \<longrightarrow> cl_lifecycle s = Connecting \<and> n = 0)
     \<and> (cl_previous s = CLIENT_STATE_CONNECTED \<longrightarrow> cl_lib s \<noteq> CLIENT_STATE_CONNECTING)"

text \<open>The worker has nothing to show, and the library no connection: at its start, and when a lost one was taken note of.\<close>

definition resting :: "nat \<Rightarrow> client_state \<Rightarrow> bool" where
  "resting n s \<longleftrightarrow> \<not> cl_connected s \<and> cl_active s = {} \<and> (cl_lifecycle s = Idle \<or> cl_lifecycle s = Connecting)
     \<and> cl_lib s \<le> CLIENT_STATE_DISCONNECTED \<and> one_attempt n s"

definition failed :: "client_state \<Rightarrow> bool" where
  "failed s \<longleftrightarrow> \<not> cl_connected s \<and> cl_active s = {} \<and> (cl_lifecycle s = Idle \<or> cl_lifecycle s = Connecting)"

definition going_up :: "nat \<Rightarrow> client_state \<Rightarrow> bool" where
  "going_up n s \<longleftrightarrow> cl_running s \<and> n = 0 \<and> cl_lib s = CLIENT_STATE_CONNECTED"

text \<open>A connection that is given up; after an exception the library's state is not known.\<close>

definition dropping :: "drop_reason \<Rightarrow> nat \<Rightarrow> client_state \<Rightarrow> bool" where
  "dropping d n s \<longleftrightarrow> cl_running s
     \<and> (case d of Failed e \<Rightarrow> cl_lifecycle s \<noteq> Closed
        | _ \<Rightarrow> (cl_lifecycle s = Connected \<or> cl_lifecycle s = Connecting) \<and> n = 0 \<and> cl_lib s \<le> CLIENT_STATE_DISCONNECTED)"

fun at_worker :: "worker_at \<Rightarrow> nat \<Rightarrow> client_state \<Rightarrow> bool" where
  "at_worker W_none n s \<longleftrightarrow> failed s \<and> cl_lib s \<le> CLIENT_STATE_DISCONNECTED \<and> (cl_worker s = No_thread \<longrightarrow> one_attempt n s)"
| "at_worker W_start n s \<longleftrightarrow> cl_running s \<and> resting n s"
| "at_worker W_head n s \<longleftrightarrow>
     (if cl_running s then steady n s \<and> cl_lib s = cl_previous s \<and> (cl_active s \<noteq> {} \<longrightarrow> cl_previous s = CLIENT_STATE_CONNECTED)
      else failed s)"
| "at_worker W_swap n s \<longleftrightarrow>
     steady n s \<and> cl_lib s = cl_previous s \<and> (cl_active s \<noteq> {} \<longrightarrow> cl_previous s = CLIENT_STATE_CONNECTED)"
| "at_worker (W_commands cs) n s \<longleftrightarrow> steady n s \<and> (cl_lib s = CLIENT_STATE_CONNECTED \<longrightarrow> cl_previous s = CLIENT_STATE_CONNECTED)
     \<and> (cl_active s \<noteq> {} \<longrightarrow> cl_previous s = CLIENT_STATE_CONNECTED)"
| "at_worker W_advance n s \<longleftrightarrow> steady n s \<and> (cl_lib s = CLIENT_STATE_CONNECTED \<longrightarrow> cl_previous s = CLIENT_STATE_CONNECTED)
     \<and> (cl_active s \<noteq> {} \<longrightarrow> cl_previous s = CLIENT_STATE_CONNECTED)"
| "at_worker (W_messages ms) n s \<longleftrightarrow> steady n s \<and> cl_lib s = CLIENT_STATE_CONNECTED"
| "at_worker W_compare n s \<longleftrightarrow> steady n s
     \<and> (cl_active s \<noteq> {} \<longrightarrow> cl_lib s = CLIENT_STATE_CONNECTED \<or> cl_previous s = CLIENT_STATE_CONNECTED)"
| "at_worker W_up_flag n s \<longleftrightarrow> going_up n s \<and> \<not> cl_connected s \<and> cl_lifecycle s = Connecting"
| "at_worker W_up_load n s \<longleftrightarrow> going_up n s \<and> cl_connected s \<and> cl_lifecycle s = Connecting"
| "at_worker W_up_store n s \<longleftrightarrow> going_up n s \<and> cl_connected s \<and> cl_lifecycle s = Connecting"
| "at_worker W_up_call n s \<longleftrightarrow> going_up n s \<and> cl_connected s \<and> cl_lifecycle s = Connected"
| "at_worker (W_drop d) n s \<longleftrightarrow> dropping d n s \<and> (cl_connected s \<longleftrightarrow> cl_lifecycle s = Connected)"
| "at_worker (W_load d) n s \<longleftrightarrow> dropping d n s \<and> \<not> cl_connected s \<and> cl_active s = {}"
| "at_worker (W_store d) n s \<longleftrightarrow> dropping d n s \<and> \<not> cl_connected s \<and> cl_active s = {}"
| "at_worker (W_report d) n s \<longleftrightarrow> cl_running s \<and> (case d of Failed e \<Rightarrow> failed s | _ \<Rightarrow> resting n s)"
| "at_worker W_stop n s \<longleftrightarrow> cl_running s \<and> failed s"
| "at_worker W_leave n s \<longleftrightarrow> \<not> cl_running s \<and> failed s"
| "at_worker W_leave_load n s \<longleftrightarrow> \<not> cl_running s \<and> failed s \<and> cl_lib s \<le> CLIENT_STATE_DISCONNECTED"
| "at_worker W_leave_store n s \<longleftrightarrow> \<not> cl_running s \<and> failed s \<and> cl_lib s \<le> CLIENT_STATE_DISCONNECTED"

fun at_caller :: "caller_at \<Rightarrow> worker_at \<Rightarrow> nat \<Rightarrow> client_state \<Rightarrow> bool" where
  "at_caller (C_spawn cid token) w n s \<longleftrightarrow> w = W_none \<and> cl_running s"
| "at_caller (C_unstart e) w n s \<longleftrightarrow> w = W_none \<and> cl_running s \<and> (cl_worker s = No_thread \<longrightarrow> n = 0)"
| "at_caller (C_rollback e at) w n s \<longleftrightarrow> w = W_none \<and> \<not> cl_running s \<and> at \<noteq> Rb_join \<and> (cl_worker s = No_thread \<longrightarrow> n = 0)"
| "at_caller (C_close at) w n s \<longleftrightarrow> False"
| "at_caller _ w n s \<longleftrightarrow> (w = W_none \<longrightarrow> \<not> cl_running s)"

text \<open>As long as nothing has overtaken the worker.\<close>

definition calm_inv :: "client_run \<Rightarrow> bool" where
  "calm_inv r \<longleftrightarrow> cl_lifecycle (cr_state r) \<noteq> Closed \<and> cl_exists (cr_state r)
     \<and> at_worker (cr_worker r) (attempts r) (cr_state r) \<and> at_caller (cr_caller r) (cr_worker r) (attempts r) (cr_state r)"

text \<open>A client whose close has returned and was not undone.\<close>

definition closed_down :: "client_run \<Rightarrow> bool" where
  "closed_down r \<longleftrightarrow> (let s = cr_state r in cr_caller r = C_ready \<and> cr_worker r = W_none \<and> cl_lifecycle s = Closed
     \<and> cl_worker s = No_thread \<and> \<not> cl_running s \<and> cl_commands s = [] \<and> cl_active s = {}
     \<and> cl_lib s \<le> CLIENT_STATE_DISCONNECTED \<and> \<not> cl_exists s)"

fun closing :: "caller_at \<Rightarrow> bool" where
  "closing (C_close at) = True"
| "closing _ = False"

fun at_close :: "close_at \<Rightarrow> worker_at \<Rightarrow> client_state \<Rightarrow> bool" where
  "at_close Cl_flag w s = True"
| "at_close Cl_running w s = True"
| "at_close Cl_join w s \<longleftrightarrow> \<not> cl_running s"
| "at_close Cl_commands w s \<longleftrightarrow> \<not> cl_running s \<and> w = W_none \<and> cl_worker s = No_thread"
| "at_close Cl_library w s \<longleftrightarrow> \<not> cl_running s \<and> w = W_none \<and> cl_worker s = No_thread \<and> cl_commands s = []"

definition ever_inv :: "client_run \<Rightarrow> bool" where
  "ever_inv r \<longleftrightarrow> (let s = cr_state r in registry_inv (cl_registry s) \<and> active_known s
     \<and> (cl_worker s = Live_thread \<longleftrightarrow> cr_worker r \<noteq> W_none)
     \<and> (\<forall>at. cr_caller r = C_close at \<longrightarrow> at_close at (cr_worker r) s
          \<and> (cr_worker r = W_none \<longrightarrow> cl_lifecycle s = Closed \<or> cl_lifecycle s = Idle))
     \<and> (cl_lifecycle s = Closed \<longrightarrow> closing (cr_caller r) \<or> closed_down r)
     \<and> (\<not> cl_exists s \<longrightarrow> cl_lib s \<le> CLIENT_STATE_DISCONNECTED \<and> cl_active s = {} \<and> (cr_worker r = W_none \<or> cr_worker r = W_start)))"

definition client_inv :: "client_run \<Rightarrow> bool" where
  "client_inv r \<longleftrightarrow> ever_inv r \<and> (cr_calm r \<longrightarrow> calm_inv r)"

section \<open>The worker's steps\<close>

lemmas assertion_defs = steady_def one_attempt_def resting_def failed_def going_up_def dropping_def le_DISCONNECTED

lemma lib_disconnect_more [simp]:
  "cl_lifecycle (lib_disconnect s) = cl_lifecycle s" "cl_registry (lib_disconnect s) = cl_registry s"
  "cl_connected (lib_disconnect s) = cl_connected s" "cl_running (lib_disconnect s) = cl_running s"
  "cl_worker (lib_disconnect s) = cl_worker s" "cl_previous (lib_disconnect s) = cl_previous s"
  "cl_exists (lib_disconnect s) = cl_exists s" "cl_terminated (lib_disconnect s) = cl_terminated s"
  "cl_log (lib_disconnect s) = cl_log s @ [Io CliDisconnect]"
  by (simp_all add: lib_disconnect_def)

lemma active_known_simps [simp]:
  "active_known (cl_emit es s) = active_known s" "active_known (cl_guarded cb ev ctx s) = active_known s"
  "active_known (cl_guarded_error cb m s) = active_known s" "active_known (lib_disconnect s) = active_known s"
  "active_known (s\<lparr>cl_commands := cs\<rparr>) = active_known s" "active_known (s\<lparr>cl_lib := l\<rparr>) = active_known s"
  "active_known (s\<lparr>cl_previous := l\<rparr>) = active_known s" "active_known (s\<lparr>cl_connected := b\<rparr>) = active_known s"
  "active_known (s\<lparr>cl_lifecycle := lc\<rparr>) = active_known s" "active_known (s\<lparr>cl_running := b\<rparr>) = active_known s"
  "active_known (s\<lparr>cl_worker := w\<rparr>) = active_known s" "active_known (s\<lparr>cl_exists := b\<rparr>) = active_known s"
  "active_known (s\<lparr>cl_terminated := b\<rparr>) = active_known s" "active_known (s\<lparr>cl_active := {}\<rparr>)"
  by (simp_all add: active_known_def)

text \<open>What a step of the worker does in any state, overtaken or not.\<close>

definition worker_frame :: "worker_at \<Rightarrow> client_state \<Rightarrow> worker_at \<times> client_state \<Rightarrow> bool" where
  "worker_frame w s q \<longleftrightarrow> (case q of (w', s') \<Rightarrow> cl_registry s' = cl_registry s \<and> active_known s' \<and> cl_exists s' = cl_exists s
     \<and> (cl_running s' \<longrightarrow> cl_running s) \<and> (cl_lifecycle s' = Closed \<longrightarrow> cl_lifecycle s = Closed)
     \<and> (w' \<noteq> W_none \<longrightarrow> cl_worker s' = cl_worker s)
     \<and> (w' = W_none \<and> \<not> cl_terminated s' \<longrightarrow> cl_worker s' = Ended_thread \<and> (cl_lifecycle s' = Closed \<or> cl_lifecycle s' = Idle))
     \<and> (w = W_start \<and> \<not> cl_exists s \<longrightarrow> cl_terminated s')
     \<and> (cl_exists s \<longrightarrow> cl_terminated s' = cl_terminated s))"

lemma report_drop_frame: "active_known s \<Longrightarrow> worker_frame (W_report d) s (report_drop cb d s)"
  by (cases d) (simp_all add: worker_frame_def)

lemma compare_frame: "active_known s \<Longrightarrow> worker_frame W_compare s (compare_states s)"
  by (simp add: worker_frame_def compare_states_def Let_def)

lemma worker_step_frame:
  assumes "active_known s" and "w \<noteq> W_none"
  shows "worker_frame w s (worker_step cb T w s)"
proof (cases w)
  case (W_commands cs)
  show ?thesis
  proof (cases cs)
    case Nil
    then show ?thesis using assms by (simp add: W_commands worker_frame_def)
  next
    case (Cons c ds)
    obtain l es where "snd (client_command_step cb T c s) = cl_emit es (s\<lparr>cl_lib := l\<rparr>)" using command_step_core by metis
    then obtain e where "client_command_step cb T c s = (e, cl_emit es (s\<lparr>cl_lib := l\<rparr>))" by (metis prod.collapse)
    with assms show ?thesis by (cases e) (simp_all add: W_commands Cons worker_frame_def)
  qed
next
  case (W_messages ms)
  show ?thesis
  proof (cases ms)
    case Nil
    then show ?thesis using assms by (simp add: W_messages worker_frame_def)
  next
    case (Cons m ns)
    obtain e returned s' where m: "client_message cb m s = (e, (returned, s'))" by (metis surj_pair)
    with flow_effect_message [OF assms(1), of cb m] have "cl_frame s s'" "active_known s'"
      by (simp_all add: flow_effect_def message_effect_def)
    then show ?thesis by (cases e) (simp_all add: W_messages Cons m worker_frame_def cl_frame_def)
  qed
qed (use assms in \<open>simp_all add: report_drop_frame compare_frame\<close>, simp_all add: worker_frame_def Let_def)

text \<open>The assertions, location by location; \<open>k\<close> counts the attempts in the caller's hands.\<close>

abbreviation holds_at :: "nat \<Rightarrow> worker_at \<times> client_state \<Rightarrow> bool" where
  "holds_at k q \<equiv> at_worker (fst q) (connects (cl_commands (snd q)) + taken_connects (fst q) + k) (snd q)
     \<and> cl_lifecycle (snd q) \<noteq> Closed \<and> (fst q = W_none \<longrightarrow> \<not> cl_running (snd q))"

lemma compare_holds:
  assumes "holds_at k (W_compare, s)"
  shows "holds_at k (compare_states s)"
  using assms by (cases "cl_lib s"; cases "cl_previous s") (auto simp: compare_states_def assertion_defs)

lemma report_holds:
  assumes "holds_at k (W_report d, s)"
  shows "holds_at k (report_drop cb d s)"
  using assms by (cases d) (auto simp: assertion_defs)

lemma command_fails_as_send: "client_command_step cb T c s = (Some e, s') \<Longrightarrow> cc_type c = CSendPayload"
  by (cases "cc_type c") (simp_all add: client_command_step_def ok_def)

lemma command_holds:
  assumes "holds_at k (W_commands (c # cs), s)"
  shows "holds_at k (worker_step cb T (W_commands (c # cs)) s)"
proof -
  obtain l es where "snd (client_command_step cb T c s) = cl_emit es (s\<lparr>cl_lib := l\<rparr>)"
    and l: "l = cl_lib s \<or> l = CLIENT_STATE_DISCONNECTED \<or> cc_type c = CConnect \<and> l = CLIENT_STATE_CONNECTING"
    using command_step_core by metis
  then obtain e where e: "client_command_step cb T c s = (e, cl_emit es (s\<lparr>cl_lib := l\<rparr>))" by (metis prod.collapse)
  show ?thesis
  proof (cases e)
    case (Some x)
    with e assms show ?thesis by (simp add: steady_def dropping_def)
  next
    case None
    from l consider "l = cl_lib s" | "l = CLIENT_STATE_DISCONNECTED" | "cc_type c = CConnect" "l = CLIENT_STATE_CONNECTING" by blast
    then show ?thesis
    proof cases
      case 1
      with e None assms show ?thesis by (cases "cc_type c = CConnect") (clarsimp simp: steady_def one_attempt_def; simp)+
    next
      case 2
      with e None assms show ?thesis by (cases "cc_type c = CConnect") (clarsimp simp: steady_def one_attempt_def; simp)+
    next
      case 3
      with e None assms show ?thesis by (clarsimp simp: steady_def one_attempt_def; simp)
    qed
  qed
qed

lemma message_holds:
  assumes "holds_at k (W_messages (m # ms), s)" and "active_known s"
  shows "holds_at k (worker_step cb T (W_messages (m # ms)) s)"
proof -
  obtain e returned s' where m: "client_message cb m s = (e, (returned, s'))" by (metis surj_pair)
  with flow_effect_message [OF assms(2), of cb m] have "cl_frame s s'" "cl_commands s' = cl_commands s"
      "cl_lib s' = cl_lib s \<or> cl_lib s' = CLIENT_STATE_DISCONNECTED \<and> cl_active s' = {}" "\<not> returned \<longrightarrow> cl_lib s' = cl_lib s"
    by (simp_all add: flow_effect_def message_effect_def)
  then show ?thesis using assms(1) by (cases e; cases returned) (auto simp: m assertion_defs cl_frame_def)
qed

lemma advance_holds:
  assumes "holds_at k (W_advance, s)" and "advance_ok (ct_advance T)"
  shows "holds_at k (worker_step cb T W_advance s)"
proof -
  obtain l where l: "ct_advance T (cl_lib s) = l" by simp
  have "l = cl_lib s" if "cl_lib s \<le> CLIENT_STATE_DISCONNECTED" using that l assms(2) by (auto simp: le_DISCONNECTED advance_ok_def)
  moreover have "l \<noteq> CLIENT_STATE_CONNECTING" if "cl_lib s = CLIENT_STATE_CONNECTED" using that l assms(2) by (auto simp: advance_ok_def)
  ultimately show ?thesis using assms(1) l by (cases "cl_lib s"; cases "cl_previous s") (auto simp: Let_def assertion_defs)
qed

lemma worker_step_holds:
  assumes "holds_at k (w, s)" and "active_known s" and "advance_ok (ct_advance T)" and "cl_exists s" and "w \<noteq> W_none"
  shows "holds_at k (worker_step cb T w s)"
proof (cases w)
  case (W_commands cs)
  with assms(1) show ?thesis
    by (cases cs) (simp, metis command_holds)
next
  case (W_messages ms)
  with assms(1,2) show ?thesis
    by (cases ms) (simp add: steady_def, metis message_holds)
next
  case W_advance
  with assms(1,3) show ?thesis using advance_holds by blast
next
  case W_compare
  have "holds_at k (compare_states s)" using assms(1) W_compare compare_holds by blast
  then show ?thesis by (simp add: W_compare)
next
  case (W_report d)
  have "holds_at k (report_drop cb d s)" using assms(1) W_report report_holds by blast
  then show ?thesis by (simp add: W_report)
qed (use assms in \<open>auto simp: assertion_defs split: drop_reason.splits\<close>)

section \<open>The caller's steps\<close>

lemmas run_defs = goes_def returns_def

lemma attempts_simps [simp]:
  "attempts (r\<lparr>cr_state := s, cr_caller := c\<rparr>) = connects (cl_commands s) + taken_connects (cr_worker r) + calling_connects c"
  "attempts (r\<lparr>cr_state := s, cr_caller := c, cr_calm := b\<rparr>) = connects (cl_commands s) + taken_connects (cr_worker r) + calling_connects c"
  "attempts (r\<lparr>cr_state := s, cr_caller := c, cr_worker := w\<rparr>) = connects (cl_commands s) + taken_connects w + calling_connects c"
  "attempts (r\<lparr>cr_state := s, cr_caller := c, cr_thrown := e\<rparr>) = connects (cl_commands s) + taken_connects (cr_worker r) + calling_connects c"
  "attempts (r\<lparr>cr_caller := c, cr_thrown := e\<rparr>) = connects (cl_commands (cr_state r)) + taken_connects (cr_worker r) + calling_connects c"
  by (simp_all add: attempts_def)

text \<open>An assertion of the worker reads neither the queue nor the registry.\<close>

lemma at_worker_cong:
  assumes "cl_running t = cl_running s" "cl_connected t = cl_connected s" "cl_lifecycle t = cl_lifecycle s"
    and "cl_previous t = cl_previous s" "cl_lib t = cl_lib s" "cl_active t = cl_active s" "cl_worker t = cl_worker s"
  shows "at_worker w n t \<longleftrightarrow> at_worker w n s"
  using assms by (cases w) (simp_all add: assertion_defs split: drop_reason.split)

lemma at_worker_commands [simp]:
  "at_worker w n (s\<lparr>cl_commands := cs\<rparr>) = at_worker w n s" "at_worker w n (s\<lparr>cl_registry := reg\<rparr>) = at_worker w n s"
  by (rule at_worker_cong; simp)+

text \<open>Only a client that is idle begins an attempt.\<close>

lemma idle_no_attempt:
  assumes "at_worker w n s" "cl_lifecycle s = Idle"
  shows "at_worker w (Suc n) (s\<lparr>cl_lifecycle := Connecting\<rparr>)"
  using assms by (cases w) (auto simp: assertion_defs split: drop_reason.splits)

definition calm_step :: "client_run \<Rightarrow> client_run \<Rightarrow> bool" where
  "calm_step r t \<longleftrightarrow> (calm_inv r \<and> cr_calm r \<and> cr_calm t \<and> \<not> cl_terminated (cr_state t) \<longrightarrow> calm_inv t)"

lemma calm_begin:
  assumes "cr_caller r = C_ready"
  shows "calm_step r (begin_call c r)"
proof (cases c)
  case (Call_connect cid token)
  then show ?thesis
    using assms by (simp add: calm_step_def begin_connect_def run_defs calm_inv_def attempts_def)
next
  case Call_disconnect
  then show ?thesis
    using assms by (simp add: calm_step_def begin_disconnect_def run_defs calm_inv_def attempts_def)
next
  case (Call_send_reliable f p)
  then show ?thesis
    using assms by (simp add: calm_step_def begin_send_reliable_def begin_send_def run_defs calm_inv_def attempts_def send_command_def)
next
  case (Call_send_unreliable f p)
  then show ?thesis
    using assms by (simp add: calm_step_def begin_send_unreliable_def begin_send_def run_defs calm_inv_def attempts_def send_command_def)
next
  case Call_close
  then show ?thesis
    using assms by (simp add: calm_step_def begin_close_def run_defs calm_inv_def)
next
  case (Call_register f)
  then show ?thesis
    using assms by (simp add: calm_step_def register_with_client_def run_defs calm_inv_def attempts_def split: sum.split)
qed

lemma calm_rollback:
  assumes "cr_caller r = C_rollback e at"
  shows "calm_step r (rollback_step e at (cr_state r) r)"
  using assms
  by (cases at) (auto simp: calm_step_def run_defs calm_inv_def attempts_def assertion_defs disconnect_library_def)

lemma calm_caller:
  assumes "cr_caller r \<noteq> C_ready"
  shows "calm_step r (caller_turn spawn r)"
proof (cases "cr_caller r")
  case (C_connect cid token)
  then show ?thesis
    using idle_no_attempt [of "cr_worker r" "attempts r" "cr_state r"]
    by (simp add: calm_step_def caller_turn_def run_defs calm_inv_def attempts_def)
next
  case (C_run cid token)
  then show ?thesis
    by (auto simp: calm_step_def caller_turn_def run_defs calm_inv_def attempts_def connect_command_def assertion_defs)
next
  case (C_spawn cid token)
  then show ?thesis
    by (cases spawn) (auto simp: calm_step_def caller_turn_def run_defs calm_inv_def attempts_def connect_command_def assertion_defs)
next
  case (C_unstart e)
  then show ?thesis
    by (auto simp: calm_step_def caller_turn_def run_defs calm_inv_def attempts_def assertion_defs)
next
  case (C_rollback e at)
  then show ?thesis using calm_rollback by (simp add: caller_turn_def)
next
  case (C_close at)
  then show ?thesis by (simp add: calm_step_def calm_inv_def)
qed (use assms in \<open>simp_all add: calm_step_def caller_turn_def run_defs calm_inv_def attempts_def disconnect_command_def\<close>)

section \<open>The invariant\<close>

lemma calm_worker:
  assumes "calm_inv r" "active_known (cr_state r)" "advance_ok (ct_advance T)" "cr_worker r \<noteq> W_none"
  shows "calm_inv (worker_turn cb T r)"
proof -
  obtain w s where q: "worker_step cb T (cr_worker r) (cr_state r) = (w, s)" by (metis surj_pair)
  have "holds_at (calling_connects (cr_caller r)) (cr_worker r, cr_state r)"
    using assms(1,4) by (simp add: calm_inv_def attempts_def)
  from worker_step_holds [OF this assms(2,3) _ assms(4), of cb] worker_step_frame [OF assms(2,4), of cb T]
  have h: "holds_at (calling_connects (cr_caller r)) (w, s)" "cl_exists s"
    using assms(1) by (simp_all add: calm_inv_def q worker_frame_def)
  have "at_caller (cr_caller r) w (attempts (r\<lparr>cr_worker := w, cr_state := s\<rparr>)) s"
    using assms(1,4) h(1) by (cases "cr_caller r") (simp_all add: calm_inv_def)
  then show ?thesis
    using h by (simp add: worker_turn_def q calm_inv_def attempts_def)
qed

lemma ever_worker:
  assumes "ever_inv r" "cr_worker r \<noteq> W_none" and "\<not> cl_terminated (cr_state (worker_turn cb T r))"
  shows "ever_inv (worker_turn cb T r)"
proof -
  obtain w s where q: "worker_step cb T (cr_worker r) (cr_state r) = (w, s)" by (metis surj_pair)
  have known: "active_known (cr_state r)" using assms(1) by (simp add: ever_inv_def Let_def)
  note f = worker_step_frame [OF known assms(2), of cb T, unfolded q worker_frame_def, simplified]
  have t: "\<not> cl_terminated s" using assms(3) by (simp add: worker_turn_def q)
  have exists: "cl_exists (cr_state r)" using assms(1,2) f t by (auto simp: ever_inv_def Let_def)
  have closing: "at_close at w s" if "cr_caller r = C_close at" for at
    using assms(1,2) that f by (cases at) (auto simp: ever_inv_def Let_def)
  show ?thesis
    using assms(1,2) f t exists closing
    by (simp add: worker_turn_def q ever_inv_def Let_def closed_down_def) auto
qed

lemma closing_iff: "closing c \<longleftrightarrow> (\<exists>at. c = C_close at)"
  by (cases c) simp_all

lemma active_known_register:
  assumes "registry_inv (cl_registry s)" "active_known s" "register_feature (cl_registry s) f = Inr reg"
  shows "registry_inv reg \<and> active_known (s\<lparr>cl_registry := reg\<rparr>)"
proof -
  have "find_feature reg i \<noteq> None" if "find_feature (cl_registry s) i \<noteq> None" for i
    using registry.find_stable [OF assms(1,3)] that by auto
  then show ?thesis
    using assms(2) registry_inv_add [OF assms(1,3)] by (simp add: active_known_def del: not_None_eq)
qed

lemma ever_register:
  assumes "ever_inv r" "cr_caller r = C_ready"
  shows "ever_inv (register_with_client f r)"
proof (cases "register_feature (cl_registry (cr_state r)) f")
  case (Inl e)
  with assms show ?thesis by (simp add: register_with_client_def run_defs ever_inv_def closed_down_def Let_def)
next
  case (Inr reg)
  with assms active_known_register [of "cr_state r" f reg] show ?thesis
    by (simp add: register_with_client_def run_defs ever_inv_def closed_down_def Let_def)
qed

lemma ever_begin:
  assumes "ever_inv r" "cr_caller r = C_ready"
  shows "ever_inv (begin_call c r)"
proof (cases c)
  case (Call_register f)
  then show ?thesis using ever_register assms by simp
qed (use assms in \<open>auto simp: begin_connect_def begin_disconnect_def begin_send_reliable_def begin_send_unreliable_def
    begin_send_def begin_close_def run_defs ever_inv_def closed_down_def Let_def\<close>)

lemma disconnect_library_fields [simp]:
  "cl_lifecycle (disconnect_library s) = cl_lifecycle s" "cl_registry (disconnect_library s) = cl_registry s"
  "cl_running (disconnect_library s) = cl_running s" "cl_worker (disconnect_library s) = cl_worker s"
  "cl_exists (disconnect_library s) = cl_exists s" "cl_active (disconnect_library s) = cl_active s"
  "cl_commands (disconnect_library s) = cl_commands s" "active_known (disconnect_library s) = active_known s"
  "cl_exists s \<Longrightarrow> cl_lib (disconnect_library s) \<le> CLIENT_STATE_DISCONNECTED"
  "\<not> cl_exists s \<Longrightarrow> disconnect_library s = s"
  by (auto simp: disconnect_library_def)

lemma ever_rollback:
  assumes "ever_inv r" "cr_caller r = C_rollback e at" "waits_for_worker (cr_caller r) \<longrightarrow> cr_worker r = W_none"
  shows "ever_inv (rollback_step e at (cr_state r) r)"
  using assms
  by (cases "cl_exists (cr_state r)"; cases at)
    (auto simp: run_defs ever_inv_def closed_down_def Let_def le_DISCONNECTED)

lemma ever_close:
  assumes "ever_inv r" "cr_caller r = C_close at" "waits_for_worker (cr_caller r) \<longrightarrow> cr_worker r = W_none"
  shows "ever_inv (close_step at (cr_state r) r)"
  using assms
  by (cases "cl_exists (cr_state r)"; cases at)
    (auto simp: run_defs ever_inv_def closed_down_def Let_def)

lemma ever_caller:
  assumes "ever_inv r" "cr_caller r \<noteq> C_ready" "waits_for_worker (cr_caller r) \<longrightarrow> cr_worker r = W_none"
    and "\<not> cl_terminated (cr_state (caller_turn spawn r))"
  shows "ever_inv (caller_turn spawn r)"
proof (cases "cr_caller r")
  case (C_rollback e at)
  then show ?thesis using ever_rollback assms by (simp add: caller_turn_def)
next
  case (C_close at)
  then show ?thesis using ever_close assms by (simp add: caller_turn_def)
next
  case (C_spawn cid token)
  then show ?thesis
    using assms by (cases spawn) (auto simp: caller_turn_def run_defs ever_inv_def closed_down_def Let_def split: if_splits)
qed (use assms in \<open>auto simp: caller_turn_def run_defs ever_inv_def closed_down_def Let_def\<close>)

lemma calm_parts [simp]:
  "cr_calm (rollback_step e at s r) = cr_calm r" "cr_calm (close_step cl s r) = cr_calm r"
  by (cases at; simp add: run_defs) (cases cl; simp add: run_defs)

lemma caller_turn_calm: "cr_calm (caller_turn spawn r) \<Longrightarrow> cr_calm r"
  by (cases "cr_caller r"; cases spawn) (auto simp: caller_turn_def run_defs split: if_splits)

lemma begin_call_calm: "cr_calm (begin_call c r) \<Longrightarrow> cr_calm r"
  by (cases c) (auto simp: begin_connect_def begin_disconnect_def begin_send_reliable_def begin_send_unreliable_def
      begin_send_def begin_close_def register_with_client_def run_defs split: if_splits sum.splits)

lemma client_next_inv:
  assumes "client_next r t" "client_inv r" "\<not> cl_terminated (cr_state t)"
  shows "client_inv t"
  using assms(1)
proof cases
  case (Worker T cb)
  have "cr_calm t = cr_calm r" by (simp add: Worker worker_turn_def split: prod.split)
  then show ?thesis
    using assms(2,3) Worker ever_worker calm_worker by (auto simp: client_inv_def ever_inv_def Let_def)
next
  case (Begin c)
  then show ?thesis
    using assms(2,3) ever_begin [of r c] calm_begin [of r c] begin_call_calm [of c r]
    by (simp add: client_inv_def calm_step_def)
next
  case (Continue spawn)
  then show ?thesis
    using assms(2,3) ever_caller [of r spawn] calm_caller [of r spawn] caller_turn_calm [of spawn r]
    by (simp add: client_inv_def calm_step_def)
qed

lemma client_inv_initial: "registry_inv reg \<Longrightarrow> client_inv (initial_run reg)"
  by (simp add: client_inv_def ever_inv_def calm_inv_def closed_down_def initial_run_def initial_client_def active_known_def
      attempts_def assertion_defs Let_def)

lemma client_next_running: "client_next r t \<Longrightarrow> \<not> cl_terminated (cr_state r)"
  by (cases rule: client_next.cases) simp_all

interpretation client: invariant_system "\<lambda>r. \<exists>reg. registry_inv reg \<and> r = initial_run reg" client_next
  "\<lambda>r. \<not> cl_terminated (cr_state r) \<longrightarrow> client_inv r"
  by unfold_locales (auto intro: client_inv_initial client_next_inv dest: client_next_running)

end
