(* ===== verification/Realtime_Protocol.thy ===== *)
theory Realtime_Protocol
  imports Realtime_Server_Properties Realtime_Client_Safety
begin

text \<open>
  Server and client together: the control messages that the server sends to a client while it
  executes commands, handled by the client in their order, keep the client's active features equal
  to the server's.
\<close>

section \<open>What a client is sent\<close>

fun sent_entry :: "int \<Rightarrow> server_entry \<Rightarrow> message list" where
  "sent_entry i (Io (SrvSend j channel m)) = (if j = i \<and> channel = kReliableChannel then [m] else [])"
| "sent_entry i e = []"

definition sent_to :: "int \<Rightarrow> server_entry list \<Rightarrow> message list" where
  "sent_to i es = concat (map (sent_entry i) es)"

lemma sent_to_simps [simp]:
  "sent_to i [] = []" "sent_to i (es @ fs) = sent_to i es @ sent_to i fs" "sent_to i (e # es) = sent_entry i e @ sent_to i es"
  by (simp_all add: sent_to_def)

lemma sent_to_calls [simp]: "sent_to i (invoke_callback_guarded cb ev err mk ctx) = []"
  by (simp add: invoke_callback_guarded_def report_callback_failure_def Let_def split: call_result.split)

text \<open>A client and a server agree on the features of the client.\<close>

definition synced :: "server_state \<Rightarrow> int \<Rightarrow> client_state \<Rightarrow> bool" where
  "synced s i c \<longleftrightarrow> cl_registry c = sv_registry s \<and> cl_active c = client_features s i"

text \<open>From \<open>c\<close>, the messages for client \<open>i\<close> that \<open>s'\<close> has logged since \<open>s\<close> lead to an agreement with \<open>s'\<close>.\<close>

definition follows :: "client_event callbacks \<Rightarrow> int \<Rightarrow> server_state \<Rightarrow> client_state \<Rightarrow> server_state \<Rightarrow> bool" where
  "follows ccb i s c s' \<longleftrightarrow> (\<exists>es c'. sv_log s' = sv_log s @ es \<and> sv_registry s' = sv_registry s \<and> synced s' i c'
     \<and> cl_frame c c' \<and> run_all (client_message_step ccb) (sent_to i es) (False, c) = ok (False, c'))"

lemma follows_trans:
  assumes "follows ccb i s c t" and "\<And>c'. synced t i c' \<Longrightarrow> follows ccb i t c' u"
  shows "follows ccb i s c u"
proof -
  obtain es c' where a: "sv_log t = sv_log s @ es" "sv_registry t = sv_registry s" "synced t i c'" "cl_frame c c'"
      "run_all (client_message_step ccb) (sent_to i es) (False, c) = ok (False, c')"
    using assms(1) by (auto simp: follows_def)
  obtain fs d where b: "sv_log u = sv_log t @ fs" "sv_registry u = sv_registry t" "synced u i d" "cl_frame c' d"
      "run_all (client_message_step ccb) (sent_to i fs) (False, c') = ok (False, d)"
    using assms(2) [OF a(3)] by (auto simp: follows_def)
  have "run_all (client_message_step ccb) (sent_to i (es @ fs)) (False, c) = ok (False, d)"
    using a(5) b(5) by (simp add: run_all_append)
  then show ?thesis
    using a b cl_frame_trans unfolding follows_def by (intro exI [of _ "es @ fs"] exI [of _ d]) auto
qed

lemma follows_quiet:
  assumes "synced s i c" "sv_log s' = sv_log s @ es" "sent_to i es = []" "sv_registry s' = sv_registry s"
    "client_features s' i = client_features s i"
  shows "follows ccb i s c s'"
  using assms by (auto simp: follows_def synced_def)

lemma follows_one:
  assumes "sv_log s' = sv_log s @ es" "sent_to i es = [m]" "sv_registry s' = sv_registry s"
    "client_message ccb m c = ok (False, c')" "cl_frame c c'" "synced s' i c'"
  shows "follows ccb i s c s'"
  using assms by (auto simp: follows_def)

lemma client_features_simps [simp]:
  "client_features (sv_emit es s) i = client_features s i"
  "client_features (sv_guarded cb ev ctx s) i = client_features s i"
  "client_features (s\<lparr>sv_active := (sv_active s)(j := v)\<rparr>) i =
     (if i = j then (case v of None \<Rightarrow> {} | Some fs \<Rightarrow> fs) else client_features s i)"
  by (simp_all add: client_features_def sv_guarded_def sv_emit_def)

lemma sv_error_log:
  "\<exists>es. snd (sv_error cb m s) = sv_emit es s \<and> sent_to i es = []"
  by (auto simp: sv_error_def split: call_result.split intro: exI [of _ "[]"] exI [of _ "[Call (SvError m)]"])

lemma follows_error: "synced s i c \<Longrightarrow> follows ccb i s c (snd (sv_error cb m s))"
  using sv_error_log [of cb m s i] by (auto intro!: follows_quiet)

lemma follows_refl: "synced s i c \<Longrightarrow> follows ccb i s c s"
  by (rule follows_quiet [of _ _ _ _ "[]"]) simp_all

lemma follows_activate:
  assumes "synced s i c"
  shows "follows ccb i s c (snd (activate_command cb cmd s))"
proof (cases "\<exists>g t. find_feature (sv_registry s) (sc_feature cmd) = Some g \<and> sv_tickets s (sc_client cmd) = Some t
    \<and> feature_allowed_by_ticket t (sc_feature cmd)")
  case False
  then show ?thesis
    using follows_error [OF assms] follows_refl [OF assms] by (auto simp: activate_command_def split: option.split)
next
  case True
  then obtain g t where g: "find_feature (sv_registry s) (sc_feature cmd) = Some g" "sv_tickets s (sc_client cmd) = Some t"
    "feature_allowed_by_ticket t (sc_feature cmd)" by blast
  let ?f = "sc_feature cmd" and ?j = "sc_client cmd"
  let ?fs = "insert ?f (client_features s ?j)"
  let ?s = "s\<lparr>sv_active := (sv_active s)(?j := Some ?fs)\<rparr>"
  show ?thesis
  proof (cases "?f \<in> client_features s ?j")
    case True
    then have "snd (activate_command cb cmd s) = ?s"
      using g by (simp add: activate_command_def feature_set_insert_def insert_absorb)
    moreover have "follows ccb i s c ?s"
      using assms True by (intro follows_quiet [where es = "[]"]) (simp_all add: insert_absorb)
    ultimately show ?thesis by simp
  next
    case new: False
    let ?m = "ControlMessage (action_code Activate) ?f (fd_version g)"
    define s' where "s' = snd (activate_command cb cmd s)"
    obtain es where s': "s' = sv_emit (Io (SrvSend ?j kReliableChannel ?m) # es) ?s" and es: "sent_to i es = []"
      unfolding s'_def using new g
      by (simp add: activate_command_def feature_set_insert_def sv_guarded_def)
    show ?thesis
    proof (cases "?j = i")
      case False
      then have "follows ccb i s c s'"
        using assms es unfolding s' by (intro follows_quiet [where es = "Io (SrvSend ?j kReliableChannel ?m) # es"]) simp_all
      then show ?thesis by (simp add: s'_def)
    next
      case True
      define c' where "c' = release ?m (cl_guarded ccb (ClFeatureActivated ?f)
          ''realtime client feature-activated callback failed'' (c\<lparr>cl_active := insert ?f (cl_active c)\<rparr>))"
      have "client_message ccb ?m c = ok (False, c')"
        using assms new True g(1)
        by (simp add: client_message_def handle_activate_def synced_def feature_set_insert_def c'_def)
      moreover have "synced s' i c'"
        using assms True by (simp add: s' synced_def c'_def)
      ultimately have "follows ccb i s c s'"
        using es True unfolding s'
        by (intro follows_one [where es = "Io (SrvSend ?j kReliableChannel ?m) # es" and m = ?m]) (simp_all add: c'_def)
      then show ?thesis by (simp add: s'_def)
    qed
  qed
qed

lemma follows_deactivate:
  assumes "synced s i c"
  shows "follows ccb i s c (snd (deactivate_command cb cmd s))"
proof (cases "\<exists>g. find_feature (sv_registry s) (sc_feature cmd) = Some g \<and> sc_feature cmd \<in> client_features s (sc_client cmd)")
  case False
  then show ?thesis
    using follows_error [OF assms] follows_refl [OF assms]
    by (auto simp: deactivate_command_def feature_set_erase_def client_features_def split: option.split)
next
  case True
  let ?f = "sc_feature cmd" and ?j = "sc_client cmd"
  obtain g fs where g: "find_feature (sv_registry s) ?f = Some g" "sv_active s ?j = Some fs" "?f \<in> fs"
    using True by (auto simp: client_features_def split: option.splits)
  let ?s = "s\<lparr>sv_active := (sv_active s)(?j := (if fs - {?f} = {} then None else Some (fs - {?f})))\<rparr>"
  let ?m = "ControlMessage (action_code Deactivate) ?f 0"
  define s' where "s' = snd (deactivate_command cb cmd s)"
  obtain es where s': "s' = sv_emit (Io (SrvSend ?j kReliableChannel ?m) # es) ?s" and es: "sent_to i es = []"
    unfolding s'_def using g
    by (cases "fs \<subseteq> {?f}") (simp_all add: deactivate_command_def feature_set_erase_def sv_guarded_def)
  have after: "client_features s' i = (if i = ?j then fs - {?f} else client_features s i)"
    by (simp add: s')
  show ?thesis
  proof (cases "?j = i")
    case False
    then have "follows ccb i s c s'"
      using assms es after by (intro follows_quiet [where es = "Io (SrvSend ?j kReliableChannel ?m) # es"]) (simp_all add: s')
    then show ?thesis by (simp add: s'_def)
  next
    case here: True
    have c: "cl_active c = fs" "cl_registry c = sv_registry s"
      using assms here g(2) by (simp_all add: synced_def client_features_def)
    define c' where "c' = release ?m (cl_guarded ccb (ClFeatureDeactivated ?f)
        ''realtime client feature-deactivated callback failed'' (c\<lparr>cl_active := cl_active c - {?f}\<rparr>))"
    have "client_message ccb ?m c = ok (False, c')"
      using c g by (simp add: client_message_def handle_deactivate_def feature_set_erase_def c'_def)
    moreover have "synced s' i c'"
      using c here after by (simp add: synced_def c'_def) (simp add: s')
    moreover have "sv_log s' = sv_log s @ Io (SrvSend ?j kReliableChannel ?m) # es" "sv_registry s' = sv_registry s"
      by (simp_all add: s')
    ultimately have "follows ccb i s c s'"
      using es here
      by (intro follows_one [where es = "Io (SrvSend ?j kReliableChannel ?m) # es" and m = ?m]) (simp_all add: c'_def)
    then show ?thesis by (simp add: s'_def)
  qed
qed

lemma follows_send_to_client:
  assumes "synced s i c"
  shows "follows ccb i s c (send_to_client T fid payload reliable j s)"
proof (cases "tr_connected T j \<and> fid \<in> client_features s j")
  case False
  then have "send_to_client T fid payload reliable j s = s"
    by (auto simp: send_to_client_def client_features_def feature_set_contains_def split: option.splits)
  then show ?thesis using follows_refl [OF assms] by simp
next
  case True
  let ?m = "PayloadMessage fid payload"
  let ?e = "Io (SrvSend j (if reliable then kReliableChannel else kUnreliableChannel) ?m) :: server_entry"
  have s': "send_to_client T fid payload reliable j s = sv_emit [?e] s"
    using True by (auto simp: send_to_client_def client_features_def feature_set_contains_def split: option.splits)
  show ?thesis
  proof (cases "j = i \<and> reliable")
    case False
    then show ?thesis
      using assms unfolding s' by (intro follows_quiet [where es = "[?e]"]) (auto simp: kReliableChannel_def kUnreliableChannel_def)
  next
    case here: True
    then have "fid \<in> cl_active c" using True assms by (simp add: synced_def)
    then have "client_message ccb ?m c = ok (False, release ?m (cl_guarded ccb (ClMessage fid payload)
        ''realtime client message callback failed'' c))"
      by (simp add: client_message_def feature_set_contains_def)
    then show ?thesis
      using assms here unfolding s'
      by (intro follows_one [where es = "[?e]" and m = ?m and c' = "release ?m (cl_guarded ccb (ClMessage fid payload)
        ''realtime client message callback failed'' c)"]) (simp_all add: synced_def)
  qed
qed

lemma follows_fold:
  assumes "\<And>x s c. synced s i c \<Longrightarrow> follows ccb i s c (f x s)" and "synced s i c"
  shows "follows ccb i s c (fold f xs s)"
  using assms(2)
proof (induction xs arbitrary: s c)
  case Nil
  then show ?case by (simp add: follows_refl)
next
  case (Cons x xs)
  show ?case using follows_trans [OF assms(1) [OF Cons.prems] Cons.IH] by simp
qed

lemma follows_command:
  assumes "synced s i c"
  shows "follows ccb i s c (snd (process_command cb T cfg cmd s))"
proof -
  have "follows ccb i s c (snd (send_payload cb T cfg j fid payload reliable s))" for j fid payload reliable
    using follows_error [OF assms] follows_send_to_client [OF assms]
      follows_fold [where f = "send_to_client T fid payload reliable", OF follows_send_to_client assms]
    by (simp add: send_payload_def)
  then show ?thesis
    using follows_activate [OF assms] follows_deactivate [OF assms] follows_refl [OF assms]
    by (simp add: process_command_def split: server_command_type.split)
qed

lemma follows_run_all:
  assumes "\<And>x s c. synced s i c \<Longrightarrow> follows ccb i s c (snd (f x s))" and "synced s i c"
  shows "follows ccb i s c (snd (run_all f xs s))"
  using assms(2)
proof (induction xs arbitrary: s c)
  case Nil
  then show ?case by (simp add: follows_refl)
next
  case (Cons x xs)
  obtain e t where t: "f x s = (e, t)" by fastforce
  have one: "follows ccb i s c t" using assms(1) [OF Cons.prems, of x] by (simp add: t)
  show ?case
    using one follows_trans [OF one Cons.IH] by (cases e) (simp_all add: t)
qed

section \<open>Properties\<close>

text \<open>C1: server and client agree on the active features. Whatever commands the server executes in an
  iteration, and even if it fails halfway, a client that had the server's view of its features and
  then handles the messages it was sent on the reliable channel, in their order, has the server's
  new view; it never refuses a message and does not disconnect.\<close>

theorem features_stay_in_sync:
  assumes "cl_registry c = sv_registry s" and "cl_active c = client_features s i"
    and "process_commands cb T cfg s = (e, s')"
  shows "\<exists>es c'. sv_log s' = sv_log s @ es
    \<and> run_all (client_message_step ccb) (sent_to i es) (False, c) = ok (False, c')
    \<and> cl_active c' = client_features s' i \<and> cl_frame c c'"
proof -
  let ?s = "s\<lparr>sv_commands := []\<rparr>"
  have "synced ?s i c" using assms(1,2) by (simp add: synced_def client_features_def)
  from follows_run_all [where f = "process_command cb T cfg" and ccb = ccb and xs = "sv_commands s", OF follows_command this]
  have "follows ccb i ?s c s'"
    using assms(3) by (simp add: process_commands_def)
  then show ?thesis unfolding follows_def synced_def by auto
qed

theorem features_stay_in_sync_witness:
  "let s' = snd (process_commands (\<lambda>_. Unset) example_transport example_cfg (example_activating\<lparr>sv_tickets := [0 \<mapsto> example_ticket]\<rparr>))
   in \<exists>es c'. sv_log s' = sv_log (example_activating\<lparr>sv_tickets := [0 \<mapsto> example_ticket]\<rparr>) @ es
    \<and> run_all (client_message_step (\<lambda>_. Unset)) (sent_to 0 es) (False, initial_client example_registry) = ok (False, c')
    \<and> cl_active c' = client_features s' 0"
proof -
  let ?s = "example_activating\<lparr>sv_tickets := [0 \<mapsto> example_ticket]\<rparr>"
  have "cl_registry (initial_client example_registry) = sv_registry ?s"
    and "cl_active (initial_client example_registry) = client_features ?s 0"
    by (simp_all add: initial_client_def example_activating_def enqueue_command_def client_features_def)
  from features_stay_in_sync [OF this surjective_pairing [of "process_commands (\<lambda>_. Unset) example_transport example_cfg ?s"]]
  show ?thesis unfolding Let_def by blast
qed

end
