(* ===== verification/Realtime_Client_Properties.thy ===== *)
theory Realtime_Client_Properties
  imports Realtime_Client_Safety
begin

text \<open>
  The properties of the realtime client: what its lifecycle tells while its two threads take turns, what closing it
  means, how it treats an incompatible server, and the runs in which a close is overtaken or the client gets stuck.
\<close>

section \<open>Runs\<close>

text \<open>A given order of turns: of the worker, of the caller, and of the calls it begins.\<close>

datatype client_turn = Worker_turn | Caller_turn | Begins client_call

fun may_turn :: "client_turn \<Rightarrow> client_run \<Rightarrow> bool" where
  "may_turn Worker_turn r \<longleftrightarrow> \<not> cl_terminated (cr_state r) \<and> cr_worker r \<noteq> W_none"
| "may_turn Caller_turn r \<longleftrightarrow> \<not> cl_terminated (cr_state r) \<and> cr_caller r \<noteq> C_ready
     \<and> (waits_for_worker (cr_caller r) \<longrightarrow> cr_worker r = W_none)"
| "may_turn (Begins c) r \<longleftrightarrow> \<not> cl_terminated (cr_state r) \<and> cr_caller r = C_ready"

fun take_turn :: "client_event callbacks \<Rightarrow> client_transport \<Rightarrow> client_turn \<Rightarrow> client_run \<Rightarrow> client_run" where
  "take_turn cb T Worker_turn r = worker_turn cb T r"
| "take_turn cb T Caller_turn r = caller_turn None r"
| "take_turn cb T (Begins c) r = begin_call c r"

fun client_turns :: "client_event callbacks \<Rightarrow> client_transport \<Rightarrow> client_turn list \<Rightarrow> client_run \<Rightarrow> client_run option" where
  "client_turns cb T [] r = Some r"
| "client_turns cb T (t # ts) r = (if may_turn t r then client_turns cb T ts (take_turn cb T t r) else None)"

lemma client_turns_reachable:
  assumes "advance_ok (ct_advance T)" and "client_turns cb T ts r = Some r'"
  shows "client_next\<^sup>*\<^sup>* r r'"
  using assms(2)
proof (induction ts arbitrary: r)
  case (Cons t ts)
  then have "client_next r (take_turn cb T t r)"
    using assms(1) client_next.intros by (cases t) (simp_all split: if_splits)
  with Cons show ?case by (simp split: if_splits) (meson converse_rtranclp_into_rtranclp)
qed simp

lemma client_turns_append:
  "client_turns cb T (ts @ us) r = (case client_turns cb T ts r of None \<Rightarrow> None | Some r' \<Rightarrow> client_turns cb T us r')"
  by (induction ts arbitrary: r) simp_all

section \<open>Example\<close>

definition example_client_registry :: feature_registry where
  "example_client_registry = [(1, \<lparr>fd_id = 1, fd_version = 3, fd_name = ''move''\<rparr>)]"

lemma example_client_registry_inv [simp]: "registry_inv example_client_registry"
  by (simp add: registry_inv_def example_client_registry_def)

definition example_token :: string where
  "example_token = replicate NETCODE_CONNECT_TOKEN_BYTES CHR ''t''"

lemma example_token_length [simp]: "length example_token = NETCODE_CONNECT_TOKEN_BYTES"
  by (simp add: example_token_def)

text \<open>A library that accepts every token and connects at once; the server activates feature 1.\<close>

definition example_client_transport :: client_transport where
  "example_client_transport = \<lparr>ct_accepts = (\<lambda>_ _. True),
     ct_advance = (\<lambda>st. if st = CLIENT_STATE_CONNECTING then CLIENT_STATE_CONNECTED else st),
     ct_inbox = (\<lambda>ch. if ch = 0 then [ControlMessage 2 1 3] else [])\<rparr>"

lemma example_advance_ok [simp]: "advance_ok (ct_advance example_client_transport)"
  by (simp add: advance_ok_def example_client_transport_def)

text \<open>The client connects; its worker stands before it says so.\<close>

definition example_connect_turns :: "client_turn list" where
  "example_connect_turns = Begins (Call_connect 7 example_token) # replicate 6 Caller_turn @ replicate 9 Worker_turn"

definition example_up_state :: client_state where
  "example_up_state = \<lparr>cl_registry = example_client_registry, cl_lifecycle = Connecting, cl_connected = False, cl_running = True,
     cl_worker = Live_thread, cl_commands = [], cl_active = {1}, cl_lib = CLIENT_STATE_CONNECTED,
     cl_previous = CLIENT_STATE_DISCONNECTED, cl_exists = True, cl_terminated = False,
     cl_log = [Io (CliConnect 7 example_token), Io (CliRelease (ControlMessage 2 1 3))]\<rparr>"

definition example_up :: client_run where
  "example_up = \<lparr>cr_state = example_up_state, cr_worker = W_up_flag, cr_caller = C_ready, cr_thrown = None, cr_calm = True\<rparr>"

lemma example_up_turns:
  "client_turns (\<lambda>_. Unset) example_client_transport example_connect_turns (initial_run example_client_registry) = Some example_up"
proof -
  have inbox: "concat (map (ct_inbox example_client_transport) [0..numChannels - 1]) = [ControlMessage 2 1 3]"
    by (simp add: numChannels_def upto.simps example_client_transport_def)
  have f: "find_feature example_client_registry 1 = Some \<lparr>fd_id = 1, fd_version = 3, fd_name = ''move''\<rparr>"
    by (simp add: find_feature_def example_client_registry_def)
  have t: "ct_accepts example_client_transport c tok"
    "ct_advance example_client_transport CLIENT_STATE_CONNECTING = CLIENT_STATE_CONNECTED" for c tok
    by (simp_all add: example_client_transport_def)
  have r: "replicate 6 x = [x, x, x, x, x, x]" "replicate 9 x = [x, x, x, x, x, x, x, x, x]" for x :: client_turn
    by (simp_all add: numeral_eq_Suc)
  have n: "(7 :: u64) \<noteq> 0" by simp
  show ?thesis
    by (simp add: example_connect_turns_def r n initial_run_def initial_client_def begin_connect_def run_defs
        caller_turn_def worker_turn_def connect_command_def client_command_step_def lib_connect_def t inbox Let_def
        client_message_def handle_activate_def f feature_set_insert_def compare_states_def ok_def cl_emit_def cl_guarded_def
        release_def invoke_callback_guarded_def example_up_def example_up_state_def)
qed

text \<open>The worker says so, unhurried.\<close>

definition example_connected :: client_run where
  "example_connected = example_up\<lparr>cr_worker := W_head, cr_state := example_up_state\<lparr>cl_lifecycle := Connected,
     cl_connected := True, cl_previous := CLIENT_STATE_CONNECTED\<rparr>\<rparr>"

lemmas example_evaluation = example_up_def example_up_state_def worker_turn_def caller_turn_def run_defs cl_guarded_def
  invoke_callback_guarded_def cl_emit_def lib_disconnect_def disconnect_library_def begin_close_def begin_connect_def

lemma example_connected_turns:
  "client_turns (\<lambda>_. Unset) example_client_transport [Worker_turn, Worker_turn, Worker_turn, Worker_turn] example_up
     = Some example_connected"
  by (simp add: example_connected_def example_evaluation)

lemma example_up_reachable: "client_next\<^sup>*\<^sup>* (initial_run example_client_registry) example_up"
  by (rule client_turns_reachable [OF example_advance_ok example_up_turns])

lemma example_connected_reachable: "client_next\<^sup>*\<^sup>* (initial_run example_client_registry) example_connected"
  using example_up_reachable client_turns_reachable [OF example_advance_ok example_connected_turns] by (rule rtranclp_trans)

section \<open>Properties\<close>

text \<open>The places of the worker between two of the accesses that make a new connection, or the loss of one, visible.\<close>

fun between_stores :: "worker_at \<Rightarrow> bool" where
  "between_stores W_up_load = True"
| "between_stores W_up_store = True"
| "between_stores (W_load d) = True"
| "between_stores (W_store d) = True"
| "between_stores _ = False"

lemma calm_shows:
  assumes "calm_inv r" and "\<not> between_stores (cr_worker r)"
  shows "(cl_connected (cr_state r) \<longleftrightarrow> cl_lifecycle (cr_state r) = Connected)
    \<and> (cl_connected (cr_state r) \<longrightarrow> cl_running (cr_state r) \<and> cr_worker r \<noteq> W_none)"
  using assms by (cases "cr_worker r") (auto simp: calm_inv_def assertion_defs split: if_splits drop_reason.splits)

lemma calm_rests:
  assumes "calm_inv r" and "cr_worker r = W_head \<or> cr_worker r = W_swap"
  shows "(cl_connected (cr_state r) \<longrightarrow> cl_lib (cr_state r) = CLIENT_STATE_CONNECTED)
    \<and> (cl_active (cr_state r) \<noteq> {} \<longrightarrow> cl_connected (cr_state r))"
  using assms by (auto simp: calm_inv_def assertion_defs split: if_splits)

text \<open>C7: the states a client shows fit together, whatever the order in which the single accesses of its
  worker and of its caller interleave. In every run in which no \<open>close\<close> has begun, and no \<open>connect\<close> has set the running
  flag again while a worker that failed had not ended (\<open>cr_calm\<close>): the client says it is connected exactly when its
  lifecycle is Connected, and then its worker runs, except between the worker's own stores of the two; when the worker is
  between two rounds, a connected client has a connected library and only a connected client has active features. In every
  run at all, the overtaken ones too: every active feature is registered; and a client found Closed when no call
  is in progress has no worker, no pending command, no active feature and no connection.\<close>

theorem client_states_agree:
  assumes "registry_inv reg" and "client_next\<^sup>*\<^sup>* (initial_run reg) r" and "\<not> cl_terminated (cr_state r)"
  shows "let s = cr_state r; w = cr_worker r in
      (cr_calm r \<and> \<not> between_stores w \<longrightarrow>
         (cl_connected s \<longleftrightarrow> cl_lifecycle s = Connected)
         \<and> (cl_connected s \<longrightarrow> cl_running s \<and> cl_worker s = Live_thread))
    \<and> (cr_calm r \<and> (w = W_head \<or> w = W_swap) \<longrightarrow>
         (cl_connected s \<longrightarrow> cl_lib s = CLIENT_STATE_CONNECTED) \<and> (cl_active s \<noteq> {} \<longrightarrow> cl_connected s))
    \<and> (\<forall>f \<in> cl_active s. find_feature (cl_registry s) f \<noteq> None)
    \<and> (cr_caller r = C_ready \<and> cl_lifecycle s = Closed \<longrightarrow>
         w = W_none \<and> cl_worker s = No_thread \<and> \<not> cl_running s \<and> cl_commands s = [] \<and> cl_active s = {}
         \<and> cl_lib s \<le> CLIENT_STATE_DISCONNECTED)"
proof -
  have inv: "ever_inv r" "cr_calm r \<Longrightarrow> calm_inv r"
    using client.inv_reachable [OF _ assms(2)] assms(1,3) by (auto simp: client_inv_def)
  have live: "cl_worker (cr_state r) = Live_thread \<longleftrightarrow> cr_worker r \<noteq> W_none"
    and known: "active_known (cr_state r)"
    and closed: "cr_caller r = C_ready \<and> cl_lifecycle (cr_state r) = Closed \<longrightarrow> closed_down r"
    using inv(1) by (auto simp: ever_inv_def Let_def)
  show ?thesis
    using calm_shows [OF inv(2)] calm_rests [OF inv(2)] live known closed
    by (simp add: Let_def active_known_def closed_down_def del: not_None_eq)
qed

theorem client_states_agree_witness:
  "cl_connected (cr_state example_connected) \<and> cl_running (cr_state example_connected)
    \<and> cl_worker (cr_state example_connected) = Live_thread"
  using client_states_agree [OF example_client_registry_inv example_connected_reachable]
  by (simp add: example_connected_def example_up_def example_up_state_def Let_def)

section \<open>Closing\<close>

text \<open>A client whose close has returned stays closed, unless the close was overtaken: connecting, disconnecting and
  sending throw, no thread starts, nothing is called back and the library is not touched.\<close>

theorem closed_is_final:
  assumes "closed_down r" and "client_next\<^sup>*\<^sup>* r r'"
  shows "closed_down r' \<and> cl_log (cr_state r') = cl_log (cr_state r)
    \<and> begin_connect cid token r' = returns (Some closed_error) r' \<and> begin_disconnect r' = returns (Some closed_error) r'
    \<and> begin_send reliable fid payload r' = returns (Some closed_error) r' \<and> begin_close r' = returns None r'"
proof -
  have step: "closed_down u \<and> cl_log (cr_state u) = cl_log (cr_state t)" if "closed_down t" "client_next t u" for t u
    using that(2,1)
  proof cases
    case (Begin c)
    with that(1) show ?thesis
      by (cases c) (auto simp: closed_down_def begin_connect_def begin_disconnect_def begin_send_reliable_def
          begin_send_unreliable_def begin_send_def begin_close_def register_with_client_def run_defs Let_def split: sum.split)
  qed (auto simp: closed_down_def Let_def)
  have "closed_down r' \<and> cl_log (cr_state r') = cl_log (cr_state r)"
    using assms(2,1) by (induction rule: rtranclp_induct) (auto dest: step)
  then show ?thesis
    by (simp add: closed_down_def begin_connect_def begin_disconnect_def begin_send_def begin_close_def Let_def)
qed

text \<open>A \<open>close\<close> can be overtaken by a worker that is about to show a new connection. When the flag is set after \<open>close\<close>
  has cleared it, the closed client says it is connected for good. When the lifecycle was looked at before \<open>close\<close> and is
  stored after it, the client does not stay closed: it is Idle in the end, and connecting again starts a worker on a
  library client that is no more, which ends the process.\<close>

definition closed_under_flag :: "client_turn list" where
  "closed_under_flag = [Begins Call_close, Caller_turn, Worker_turn, Worker_turn, Worker_turn, Caller_turn,
     Worker_turn, Worker_turn, Worker_turn, Caller_turn, Caller_turn, Caller_turn]"

definition closed_under_store :: "client_turn list" where
  "closed_under_store = [Worker_turn, Worker_turn, Begins Call_close, Caller_turn, Caller_turn, Worker_turn, Worker_turn,
     Worker_turn, Worker_turn, Worker_turn, Worker_turn, Caller_turn, Caller_turn, Caller_turn]"

definition connects_again :: "client_turn list" where
  "connects_again = [Begins (Call_connect 7 example_token), Caller_turn, Caller_turn, Caller_turn, Caller_turn, Worker_turn]"

lemma close_overtaken:
  "\<exists>r. client_turns (\<lambda>_. Unset) example_client_transport closed_under_flag example_up = Some r
     \<and> closed_down r \<and> cl_connected (cr_state r)"
  by (simp add: closed_under_flag_def example_evaluation closed_down_def Let_def le_DISCONNECTED)

lemma close_undone:
  "\<exists>r r'. client_turns (\<lambda>_. Unset) example_client_transport closed_under_store example_up = Some r
     \<and> cr_caller r = C_ready \<and> cr_thrown r = None \<and> cl_lifecycle (cr_state r) = Idle \<and> \<not> cl_exists (cr_state r)
     \<and> client_turns (\<lambda>_. Unset) example_client_transport connects_again r = Some r' \<and> cl_terminated (cr_state r')"
proof -
  have n: "(7 :: u64) \<noteq> 0" by simp
  show ?thesis
    by (simp add: closed_under_store_def connects_again_def example_evaluation n)
qed

lemma overtaken_reachable:
  "\<exists>r. client_next\<^sup>*\<^sup>* (initial_run example_client_registry) r \<and> closed_down r \<and> cl_connected (cr_state r)"
  using close_overtaken client_turns_reachable [OF example_advance_ok] example_up_reachable by (meson rtranclp_trans)

section \<open>Getting stuck\<close>

abbreviation worker_steps :: "nat \<Rightarrow> client_event callbacks \<Rightarrow> client_transport \<Rightarrow> worker_at \<times> client_state \<Rightarrow> worker_at \<times> client_state" where
  "worker_steps n cb T \<equiv> (\<lambda>(w, s). worker_step cb T w s) ^^ n"

text \<open>A round of a worker with nothing to do changes nothing.\<close>

lemma idle_round:
  assumes "cl_running s" "cl_commands s = []" "cl_lib s = CLIENT_STATE_DISCONNECTED" "cl_previous s = CLIENT_STATE_DISCONNECTED"
    and "advance_ok (ct_advance T)"
  shows "worker_steps 5 cb T (W_head, s) = (W_head, s)"
proof -
  have "s\<lparr>cl_commands := []\<rparr> = s" "s\<lparr>cl_lib := CLIENT_STATE_DISCONNECTED\<rparr> = s"
    using assms(2,3) by (cases s; simp)+
  then show ?thesis
    using assms by (simp add: numeral_eq_Suc advance_ok_def compare_states_def Let_def)
qed

text \<open>An attempt that ends before the worker compares states is never reported. When the library rejects
  the token, or the attempt is cancelled before the worker's next round, the client stays in Connecting: no callback is
  called, no later round changes anything, and connecting again throws.\<close>

theorem attempt_stuck_connecting:
  assumes "cl_running s" "cl_lifecycle s = Connecting" "cl_lib s = CLIENT_STATE_DISCONNECTED"
    "cl_previous s = CLIENT_STATE_DISCONNECTED" and T: "advance_ok (ct_advance T)"
    and "cl_commands s = [c] \<and> \<not> ct_accepts T (cc_client_id c) (cc_token c) \<or> cl_commands s = [c, disconnect_command]"
    and "cc_type c = CConnect"
  shows "\<exists>n s'. worker_steps n cb T (W_head, s) = (W_head, s') \<and> cl_lifecycle s' = Connecting
    \<and> (\<forall>ev. Call ev \<in> set (cl_log s') \<longrightarrow> Call ev \<in> set (cl_log s))
    \<and> (\<forall>m cb'. worker_steps (5 * m) cb' T (W_head, s') = (W_head, s'))
    \<and> (cr_state r = s' \<and> cr_caller r = C_connect cid token \<longrightarrow> cr_thrown (caller_turn spawn r) \<noteq> None)"
proof -
  obtain n s' where s': "worker_steps n cb T (W_head, s) = (W_head, s')" "cl_lifecycle s' = Connecting" "cl_running s'"
    "cl_lib s' = CLIENT_STATE_DISCONNECTED" "cl_previous s' = CLIENT_STATE_DISCONNECTED" "cl_commands s' = []"
    "\<forall>ev. Call ev \<in> set (cl_log s') \<longrightarrow> Call ev \<in> set (cl_log s)"
    using assms(6)
  proof (elim disjE conjE)
    assume "cl_commands s = [c]" "\<not> ct_accepts T (cc_client_id c) (cc_token c)"
    then show ?thesis
      using assms by (intro that [of 6 "snd (worker_steps 6 cb T (W_head, s))"])
        (simp_all add: numeral_eq_Suc client_command_step_def lib_connect_def ok_def advance_ok_def compare_states_def Let_def)
  next
    assume "cl_commands s = [c, disconnect_command]"
    then show ?thesis
      using assms by (intro that [of 7 "snd (worker_steps 7 cb T (W_head, s))"])
        (simp_all add: numeral_eq_Suc client_command_step_def disconnect_command_def lib_connect_def lib_disconnect_def ok_def
          advance_ok_def compare_states_def Let_def)
  qed
  have "worker_steps (5 * m) cb' T (W_head, s') = (W_head, s')" for m cb'
    using idle_round [OF s'(3,6,4,5) T, of cb'] by (simp add: funpow_mult [symmetric]) (induction m; simp)
  then show ?thesis
    using s' by (intro exI [of _ n] exI [of _ s']) (simp add: caller_turn_def run_defs)
qed

text \<open>A client whose worker failed cannot be used again: the thread has ended without being joined, so that the next
  \<open>connect\<close> assigns to a joinable thread, which ends the process.\<close>

lemma reconnect_after_failure:
  assumes "cl_lifecycle (cr_state r) = Idle" "cl_worker (cr_state r) = Ended_thread" "\<not> cl_running (cr_state r)"
    and "cid \<noteq> 0" "length token = NETCODE_CONNECT_TOKEN_BYTES"
  shows "cl_terminated (cr_state ((caller_turn None ^^ 4) (begin_connect cid token r)))"
  using assms by (simp add: numeral_eq_Suc begin_connect_def caller_turn_def run_defs)

section \<open>Commands and messages\<close>

text \<open>A disconnect and, behind it in the queue, a send on a feature that is still active: the worker creates a message on
  a library that is disconnected already and has freed its message factory.\<close>

lemma send_after_disconnect:
  assumes "f \<in> cl_active s" "find_feature (cl_registry s) f \<noteq> None" "length payload \<le> 1024"
  shows "\<exists>s'. run_all (client_command_step cb T) [disconnect_command, send_command reliable f payload] s = ok s'
    \<and> Io (CliSend CLIENT_STATE_DISCONNECTED (if reliable then 0 else 1) (PayloadMessage f payload)) \<in> set (cl_log s')"
  using assms
  by (simp add: client_command_step_def disconnect_command_def send_command_def feature_set_contains_def kMaxPayloadBytes_def
      kReliableChannel_def kUnreliableChannel_def ok_def and_then_def del: not_None_eq)

text \<open>An incompatible server is left at once. When the server offers or activates a feature the
  client does not know, or in another version, or deactivates an unknown one, the client reports
  the error, releases the message, disconnects and drops its features; the messages behind it are
  not looked at.\<close>

theorem incompatible_server_left:
  assumes "case find_feature (cl_registry s) fid of None \<Rightarrow> True | Some g \<Rightarrow> a \<noteq> Deactivate \<and> fd_version g \<noteq> version"
    and "\<And>m e. cb (ClError m) \<noteq> Throws e"
  shows "\<exists>m s'. worker_step cb T (W_messages (ControlMessage (action_code a) fid version # rest)) s = (W_compare, s')
    \<and> cl_lib s' = CLIENT_STATE_DISCONNECTED \<and> cl_active s' = {}
    \<and> cl_log s' = cl_log s @ (if cb (ClError m) = Unset then [] else [Call (ClError m)])
        @ [Io (CliRelease (ControlMessage (action_code a) fid version)), Io CliDisconnect]"
proof -
  let ?m = "ControlMessage (action_code a) fid version"
  obtain x where x: "client_message cb ?m s = refuse cb x ?m s"
    using assms(1) by (cases a) (auto simp: client_message_def handle_offer_def handle_activate_def handle_deactivate_def
        split: option.splits)
  define s1 where "s1 = cl_emit (if cb (ClError x) = Unset then [] else [Call (ClError x)]) s"
  have "cl_error cb x s = ok s1"
    using assms(2) [of x] by (cases "cb (ClError x)") (auto simp: cl_error_def s1_def)
  then have "refuse cb x ?m s = ok (True, (lib_disconnect (release ?m s1))\<lparr>cl_active := {}\<rparr>)"
    by (simp add: refuse_def ok_def)
  then show ?thesis
    by (intro exI [of _ x] exI [of _ "(lib_disconnect (release ?m s1))\<lparr>cl_active := {}\<rparr>"])
      (simp add: x ok_def s1_def release_def)
qed

end
