(* ===== verification/Ssh_Service.thy ===== *)
theory Ssh_Service
  imports Prelude "HOL-Library.Sublist"
begin

text \<open>
  The SSH service (\<open>src/ssh_types.h\<close>, \<open>src/ssh_service.h\<close> and \<open>src/ssh_service.cpp\<close>): operations
  with an id, events that report them, and the sessions, channels and tunnels the events make
  known. The backend is a parameter: it does what a thread of the service asks for by calling
  \<open>emit\<close> and the allocators at any time, and may throw. Each function of the model is one critical
  section of the service's mutex, or the sequence of them that a public operation is. The clock is
  an argument, in milliseconds. The creation of a thread is taken to succeed.
\<close>

section \<open>Types\<close>

datatype auth_method_type = Agent | PrivateKey | Password
datatype known_host_policy = PolicyReject | PolicyAsk | PolicyAcceptOnce | PolicyAcceptAndStore
datatype known_host_decision = DecisionReject | DecisionAcceptOnce | DecisionAcceptAndStore

datatype error_code =
  NoError | UnavailableBackend | MalformedOptions | InvalidId | UnknownHost | ChangedHostKey | AuthFailed | Timeout
| Cancelled | ClosedError | Unsupported | LocalFileError | RemoteFileError | TunnelBindFailed | BackendError

datatype event_kind =
  OperationStarted | KnownHostChallenge | ConnectedEvent | SessionClosed | ExecStdout | ExecStderr | ExecComplete
| SftpProgress | SftpComplete | ShellOpened | ChannelData | ChannelClosed | TunnelOpened | TunnelClosed
| OperationSuccess | OperationError | OperationTimeout | OperationCancelled

record target =
  tgt_host :: string
  tgt_port :: u16
  tgt_username :: string

record auth_method =
  am_type :: auth_method_type
  am_key_path :: string
  am_passphrase :: string
  am_password :: string

record connect_options =
  co_target :: target
  co_auth_methods :: "auth_method list"
  co_known_hosts_path :: string
  co_timeout_ms :: u64
  co_known_host_policy :: known_host_policy

record exec_options =
  eo_command :: string
  eo_env :: "string \<rightharpoonup> string"
  eo_timeout_ms :: u64

record sftp_transfer_options =
  fo_local_path :: string
  fo_remote_path :: string
  fo_timeout_ms :: u64

record shell_options =
  sh_request_pty :: bool
  sh_term :: string
  sh_cols :: u32
  sh_rows :: u32
  sh_timeout_ms :: u64

record tunnel_options =
  to_local_host :: string
  to_local_port :: u16
  to_remote_host :: string
  to_remote_port :: u16
  to_timeout_ms :: u64

record event =
  ev_kind :: event_kind
  ev_operation :: u64
  ev_session :: u64
  ev_channel :: u64
  ev_tunnel :: u64
  ev_fields :: "string \<rightharpoonup> string"
  ev_error_code :: error_code
  ev_message :: string

fun error_code_to_string :: "error_code \<Rightarrow> string" where
  "error_code_to_string NoError = ''none''"
| "error_code_to_string UnavailableBackend = ''unavailable-backend''"
| "error_code_to_string MalformedOptions = ''malformed-options''"
| "error_code_to_string InvalidId = ''invalid-id''"
| "error_code_to_string UnknownHost = ''unknown-host''"
| "error_code_to_string ChangedHostKey = ''changed-host-key''"
| "error_code_to_string AuthFailed = ''auth-failed''"
| "error_code_to_string Timeout = ''timeout''"
| "error_code_to_string Cancelled = ''cancelled''"
| "error_code_to_string ClosedError = ''closed''"
| "error_code_to_string Unsupported = ''unsupported''"
| "error_code_to_string LocalFileError = ''local-file-error''"
| "error_code_to_string RemoteFileError = ''remote-file-error''"
| "error_code_to_string TunnelBindFailed = ''tunnel-bind-failed''"
| "error_code_to_string BackendError = ''backend-error''"

fun event_kind_to_string :: "event_kind \<Rightarrow> string" where
  "event_kind_to_string OperationStarted = ''operation-started''"
| "event_kind_to_string KnownHostChallenge = ''known-host-challenge''"
| "event_kind_to_string ConnectedEvent = ''connected''"
| "event_kind_to_string SessionClosed = ''session-closed''"
| "event_kind_to_string ExecStdout = ''exec-stdout''"
| "event_kind_to_string ExecStderr = ''exec-stderr''"
| "event_kind_to_string ExecComplete = ''exec-complete''"
| "event_kind_to_string SftpProgress = ''sftp-progress''"
| "event_kind_to_string SftpComplete = ''sftp-complete''"
| "event_kind_to_string ShellOpened = ''shell-opened''"
| "event_kind_to_string ChannelData = ''channel-data''"
| "event_kind_to_string ChannelClosed = ''channel-closed''"
| "event_kind_to_string TunnelOpened = ''tunnel-opened''"
| "event_kind_to_string TunnelClosed = ''tunnel-closed''"
| "event_kind_to_string OperationSuccess = ''operation-success''"
| "event_kind_to_string OperationError = ''operation-error''"
| "event_kind_to_string OperationTimeout = ''operation-timeout''"
| "event_kind_to_string OperationCancelled = ''operation-cancelled''"

definition terminal_kind :: "event_kind \<Rightarrow> bool" where
  "terminal_kind k \<longleftrightarrow> k = OperationSuccess \<or> k = OperationError \<or> k = OperationTimeout \<or> k = OperationCancelled"

text \<open>\<open>key.find(part) != npos\<close> is \<open>sublist part key\<close>.\<close>

definition secret_field_name :: "string \<Rightarrow> bool" where
  "secret_field_name key \<longleftrightarrow> sublist ''password'' key \<or> sublist ''passphrase'' key \<or> sublist ''secret'' key
     \<or> sublist ''token'' key \<or> sublist ''private-key'' key"

definition redact_secret_fields :: "(string \<rightharpoonup> string) \<Rightarrow> (string \<rightharpoonup> string)" where
  "redact_secret_fields fs = (\<lambda>key. case fs key of
      None \<Rightarrow> None
    | Some v \<Rightarrow> Some (if secret_field_name key then ''[redacted]'' else v))"

definition error_fields :: "error_code \<Rightarrow> (string \<rightharpoonup> string)" where
  "error_fields code = [''error-code'' \<mapsto> error_code_to_string code]"

section \<open>State\<close>

text \<open>A token with its deadline, and the operation state that shares it.\<close>

record operation_state =
  os_id :: u64
  os_cancelled :: bool
  os_deadline :: "nat option"
  os_terminal :: bool

text \<open>What a worker thread runs: a call of the backend, or the timer of an operation.\<close>

datatype backend_call =
  BConnect connect_options
| BResolveKnownHost known_host_decision
| BCloseSession u64
| BExec u64 exec_options
| BSftpUpload u64 sftp_transfer_options
| BSftpDownload u64 sftp_transfer_options
| BOpenShell u64 shell_options
| BChannelWrite u64 string
| BChannelResize u64 u32 u32
| BChannelClose u64
| BOpenLocalTunnel u64 tunnel_options
| BOpenRemoteTunnel u64 tunnel_options
| BCloseTunnel u64

datatype worker =
  Backend_work u64 nat backend_call
| Timer u64 nat nat \<comment> \<open>operation, its state, deadline\<close>

text \<open>
  \<open>sv_states\<close> are the operation states in the order they were made, \<open>operations\<close> points into
  them. \<open>history\<close> is every event ever queued, in order, and \<open>cancels\<close> the calls of the backend's
  \<open>cancel_operation\<close>; the code keeps neither.
\<close>

record ssh_state =
  next_operation_id :: u64
  next_session_id :: u64
  next_channel_id :: u64
  next_tunnel_id :: u64
  states :: "operation_state list"
  operations :: "u64 \<rightharpoonup> nat"
  sessions :: "u64 set"
  channels :: "u64 set"
  tunnels :: "u64 set"
  channel_sessions :: "(u64 \<times> u64) list"
  tunnel_sessions :: "(u64 \<times> u64) list"
  events :: "event list"
  workers :: "worker list"
  is_shutdown :: bool
  channel_write_timeout_ms :: u64
  history :: "event list"
  cancels :: "u64 list"

definition initial_ssh :: "u64 \<Rightarrow> ssh_state" where
  "initial_ssh write_timeout = \<lparr>next_operation_id = 1, next_session_id = 1, next_channel_id = 1, next_tunnel_id = 1,
     states = [], operations = Map.empty, sessions = {}, channels = {}, tunnels = {}, channel_sessions = [],
     tunnel_sessions = [], events = [], workers = [], is_shutdown = False, channel_write_timeout_ms = write_timeout,
     history = [], cancels = []\<rparr>"

definition construct_ssh :: "bool \<Rightarrow> u64 \<Rightarrow> ssh_state result" where
  "construct_ssh has_backend write_timeout =
     (if \<not> has_backend then Inl (Invalid_argument ''ssh service requires a backend'') else Inr (initial_ssh write_timeout))"

section \<open>Events\<close>

definition queue_event_locked :: "event \<Rightarrow> ssh_state \<Rightarrow> ssh_state" where
  "queue_event_locked e s = (if is_shutdown s then s else s\<lparr>events := events s @ [e], history := history s @ [e]\<rparr>)"

text \<open>The loop over the handles of a session that was closed.\<close>

fun erase_session :: "u64 \<Rightarrow> (u64 \<times> u64) list \<Rightarrow> u64 set \<Rightarrow> (u64 \<times> u64) list \<times> u64 set" where
  "erase_session sid [] handles = ([], handles)"
| "erase_session sid ((h, s) # hs) handles =
     (if s = sid then erase_session sid hs (handles - {h})
      else let (kept, handles') = erase_session sid hs handles in ((h, s) # kept, handles'))"

definition note_handles_for_event_locked :: "event \<Rightarrow> ssh_state \<Rightarrow> ssh_state" where
  "note_handles_for_event_locked e s =
     (if ev_kind e = ConnectedEvent \<and> ev_session e \<noteq> 0 then s\<lparr>sessions := insert (ev_session e) (sessions s)\<rparr>
      else if ev_kind e = SessionClosed \<and> ev_session e \<noteq> 0 then
        let (cs, chans) = erase_session (ev_session e) (channel_sessions s) (channels s);
            (ts, tuns) = erase_session (ev_session e) (tunnel_sessions s) (tunnels s)
        in s\<lparr>sessions := sessions s - {ev_session e}, channel_sessions := cs, channels := chans,
             tunnel_sessions := ts, tunnels := tuns\<rparr>
      else if ev_kind e = ShellOpened \<and> ev_channel e \<noteq> 0 then
        s\<lparr>channels := insert (ev_channel e) (channels s),
          channel_sessions := (if ev_session e \<noteq> 0 then AList.update (ev_channel e) (ev_session e) (channel_sessions s)
                               else channel_sessions s)\<rparr>
      else if ev_kind e = ChannelClosed \<and> ev_channel e \<noteq> 0 then
        s\<lparr>channels := channels s - {ev_channel e}, channel_sessions := AList.delete (ev_channel e) (channel_sessions s)\<rparr>
      else if ev_kind e = TunnelOpened \<and> ev_tunnel e \<noteq> 0 then
        s\<lparr>tunnels := insert (ev_tunnel e) (tunnels s),
          tunnel_sessions := (if ev_session e \<noteq> 0 then AList.update (ev_tunnel e) (ev_session e) (tunnel_sessions s)
                              else tunnel_sessions s)\<rparr>
      else if ev_kind e = TunnelClosed \<and> ev_tunnel e \<noteq> 0 then
        s\<lparr>tunnels := tunnels s - {ev_tunnel e}, tunnel_sessions := AList.delete (ev_tunnel e) (tunnel_sessions s)\<rparr>
      else s)"

text \<open>Marks an operation's state terminal, cancels its token and forgets it.\<close>

definition end_operation :: "u64 \<Rightarrow> nat \<Rightarrow> ssh_state \<Rightarrow> ssh_state" where
  "end_operation i a s = s\<lparr>states := (states s)[a := (states s ! a)\<lparr>os_terminal := True, os_cancelled := True\<rparr>],
     operations := (operations s)(i := None)\<rparr>"

definition emit :: "event \<Rightarrow> ssh_state \<Rightarrow> ssh_state" where
  "emit e s =
    (let e = e\<lparr>ev_fields := redact_secret_fields (ev_fields e)\<rparr> in
     if is_shutdown s then s
     else if ev_operation e \<noteq> 0 then
       (case operations s (ev_operation e) of
          None \<Rightarrow> s
        | Some a \<Rightarrow>
          if os_terminal (states s ! a) then s
          else
            let s = (if terminal_kind (ev_kind e) then end_operation (ev_operation e) a s else s)
            in queue_event_locked e (note_handles_for_event_locked e s))
     else queue_event_locked e (note_handles_for_event_locked e s))"

definition make_event :: "event_kind \<Rightarrow> u64 \<Rightarrow> error_code \<Rightarrow> string \<Rightarrow> event" where
  "make_event k i code message = \<lparr>ev_kind = k, ev_operation = i, ev_session = 0, ev_channel = 0, ev_tunnel = 0,
     ev_fields = error_fields code, ev_error_code = code, ev_message = message\<rparr>"

definition finish_operation :: "u64 \<Rightarrow> event_kind \<Rightarrow> error_code \<Rightarrow> string \<Rightarrow> ssh_state \<Rightarrow> bool \<times> ssh_state" where
  "finish_operation i k code message s =
     (if is_shutdown s then (False, s)
      else case operations s i of
        None \<Rightarrow> (False, s)
      | Some a \<Rightarrow>
        if os_terminal (states s ! a) then (False, s)
        else let s = queue_event_locked (make_event k i code message) (end_operation i a s)
             in (True, s\<lparr>cancels := cancels s @ [i]\<rparr>))"

section \<open>Identifiers\<close>

definition allocate_session :: "ssh_state \<Rightarrow> u64 \<times> ssh_state" where
  "allocate_session s = (if is_shutdown s then (0, s) else (next_session_id s, s\<lparr>next_session_id := next_session_id s + 1\<rparr>))"

definition allocate_channel :: "ssh_state \<Rightarrow> u64 \<times> ssh_state" where
  "allocate_channel s = (if is_shutdown s then (0, s) else (next_channel_id s, s\<lparr>next_channel_id := next_channel_id s + 1\<rparr>))"

definition allocate_tunnel :: "ssh_state \<Rightarrow> u64 \<times> ssh_state" where
  "allocate_tunnel s = (if is_shutdown s then (0, s) else (next_tunnel_id s, s\<lparr>next_tunnel_id := next_tunnel_id s + 1\<rparr>))"

definition next_operation_id_locked :: "ssh_state \<Rightarrow> u64 \<times> ssh_state" where
  "next_operation_id_locked s = (next_operation_id s, s\<lparr>next_operation_id := next_operation_id s + 1\<rparr>)"

section \<open>Operations\<close>

definition enqueue_error :: "error_code \<Rightarrow> string \<Rightarrow> ssh_state \<Rightarrow> u64 \<times> ssh_state" where
  "enqueue_error code message s =
     (if is_shutdown s then (0, s)
      else let (i, s) = (next_operation_id s, s\<lparr>next_operation_id := next_operation_id s + 1\<rparr>)
           in (i, queue_event_locked (make_event OperationError i code message) s))"

text \<open>\<open>operations_.emplace\<close> keeps an entry that is there.\<close>

definition start_operation :: "nat \<Rightarrow> u64 \<Rightarrow> ssh_state \<Rightarrow> u64 \<times> ssh_state" where
  "start_operation now timeout_ms s =
    (let i = next_operation_id s in
     (i, s\<lparr>next_operation_id := next_operation_id s + 1,
           states := states s @ [\<lparr>os_id = i, os_cancelled = False,
              os_deadline = (if timeout_ms > 0 then Some (now + unat timeout_ms) else None), os_terminal = False\<rparr>],
           operations := (case operations s i of None \<Rightarrow> (operations s)(i \<mapsto> length (states s)) | Some a \<Rightarrow> operations s)\<rparr>))"

text \<open>\<open>operations_.at\<close> throws when the operation is gone.\<close>

definition dispatch :: "nat \<Rightarrow> u64 \<Rightarrow> u64 \<Rightarrow> backend_call \<Rightarrow> ssh_state \<Rightarrow> ssh_state outcome" where
  "dispatch now i timeout_ms call s =
     (if is_shutdown s then ok s
      else case operations s i of
        None \<Rightarrow> throw (Out_of_range ''unordered_map::at'') s
      | Some a \<Rightarrow> ok (s\<lparr>workers := workers s @ [Backend_work i a call]
            @ (if timeout_ms > 0 then [Timer i a (now + unat timeout_ms)] else [])\<rparr>))"

definition dispatch_existing_operation :: "u64 \<Rightarrow> backend_call \<Rightarrow> ssh_state \<Rightarrow> bool \<times> ssh_state" where
  "dispatch_existing_operation i call s =
     (if is_shutdown s then (False, s)
      else case operations s i of
        None \<Rightarrow> (False, s)
      | Some a \<Rightarrow>
        if os_terminal (states s ! a) then (False, s)
        else (True, s\<lparr>workers := workers s @ [Backend_work i a call]\<rparr>))"

text \<open>\<open>run_backend_work\<close> when the backend's call throws; it may have emitted events before.\<close>

definition backend_work_failed :: "u64 \<Rightarrow> ssh_state \<Rightarrow> ssh_state" where
  "backend_work_failed i s = emit (make_event OperationError i BackendError ''SSH backend operation failed'') s"

text \<open>One turn of a timer's loop and what follows it: whether the timer is done.\<close>

definition timer_turn :: "nat \<Rightarrow> u64 \<Rightarrow> nat \<Rightarrow> nat \<Rightarrow> ssh_state \<Rightarrow> bool \<times> ssh_state" where
  "timer_turn now i a deadline s =
     (if \<not> os_cancelled (states s ! a) \<and> now < deadline then (False, s)
      else if os_cancelled (states s ! a) then (True, s)
      else (True, snd (finish_operation i OperationTimeout Timeout ''SSH operation timed out'' s)))"

section \<open>Public operations\<close>

definition run_operation :: "nat \<Rightarrow> u64 \<Rightarrow> backend_call \<Rightarrow> ssh_state \<Rightarrow> u64 result \<times> ssh_state" where
  "run_operation now timeout_ms call s =
     (case start_operation now timeout_ms s of (i, s) \<Rightarrow>
      (case dispatch now i timeout_ms call s of
         (None, s) \<Rightarrow> (Inr i, s)
       | (Some e, s) \<Rightarrow> (Inl e, s)))"

definition refuse_operation :: "error_code \<Rightarrow> string \<Rightarrow> ssh_state \<Rightarrow> u64 result \<times> ssh_state" where
  "refuse_operation code message s = (case enqueue_error code message s of (i, s) \<Rightarrow> (Inr i, s))"

definition ssh_connect :: "nat \<Rightarrow> connect_options \<Rightarrow> ssh_state \<Rightarrow> u64 result \<times> ssh_state" where
  "ssh_connect now options s =
     (if tgt_host (co_target options) = [] then
        (case next_operation_id_locked s of (i, s) \<Rightarrow>
          (Inr i, queue_event_locked (make_event OperationError i MalformedOptions ''connect target.host must be non-empty'') s))
      else run_operation now (co_timeout_ms options) (BConnect options) s)"

definition ssh_resolve_known_host :: "u64 \<Rightarrow> known_host_decision \<Rightarrow> ssh_state \<Rightarrow> bool \<times> ssh_state" where
  "ssh_resolve_known_host i decision s = dispatch_existing_operation i (BResolveKnownHost decision) s"

definition with_session :: "nat \<Rightarrow> u64 \<Rightarrow> u64 \<Rightarrow> backend_call \<Rightarrow> ssh_state \<Rightarrow> u64 result \<times> ssh_state" where
  "with_session now sid timeout_ms call s =
     (if sid \<notin> sessions s then refuse_operation InvalidId ''unknown SSH session id'' s
      else run_operation now timeout_ms call s)"

definition ssh_close_session :: "nat \<Rightarrow> u64 \<Rightarrow> ssh_state \<Rightarrow> u64 result \<times> ssh_state" where
  "ssh_close_session now sid s = with_session now sid 0 (BCloseSession sid) s"

definition ssh_exec :: "nat \<Rightarrow> u64 \<Rightarrow> exec_options \<Rightarrow> ssh_state \<Rightarrow> u64 result \<times> ssh_state" where
  "ssh_exec now sid options s =
     (if eo_command options = [] then refuse_operation MalformedOptions ''exec command must be non-empty'' s
      else with_session now sid (eo_timeout_ms options) (BExec sid options) s)"

definition ssh_sftp_upload :: "nat \<Rightarrow> u64 \<Rightarrow> sftp_transfer_options \<Rightarrow> ssh_state \<Rightarrow> u64 result \<times> ssh_state" where
  "ssh_sftp_upload now sid options s =
     (if fo_local_path options = [] \<or> fo_remote_path options = []
      then refuse_operation MalformedOptions ''sftp upload local_path and remote_path must be non-empty'' s
      else with_session now sid (fo_timeout_ms options) (BSftpUpload sid options) s)"

definition ssh_sftp_download :: "nat \<Rightarrow> u64 \<Rightarrow> sftp_transfer_options \<Rightarrow> ssh_state \<Rightarrow> u64 result \<times> ssh_state" where
  "ssh_sftp_download now sid options s =
     (if fo_local_path options = [] \<or> fo_remote_path options = []
      then refuse_operation MalformedOptions ''sftp download local_path and remote_path must be non-empty'' s
      else with_session now sid (fo_timeout_ms options) (BSftpDownload sid options) s)"

definition ssh_open_shell :: "nat \<Rightarrow> u64 \<Rightarrow> shell_options \<Rightarrow> ssh_state \<Rightarrow> u64 result \<times> ssh_state" where
  "ssh_open_shell now sid options s =
     (if sh_request_pty options \<and> (sh_cols options = 0 \<or> sh_rows options = 0)
      then refuse_operation MalformedOptions ''shell PTY rows and cols must be non-zero'' s
      else with_session now sid (sh_timeout_ms options) (BOpenShell sid options) s)"

definition with_channel :: "nat \<Rightarrow> u64 \<Rightarrow> u64 \<Rightarrow> backend_call \<Rightarrow> ssh_state \<Rightarrow> u64 result \<times> ssh_state" where
  "with_channel now cid timeout_ms call s =
     (if is_shutdown s then (Inr 0, s)
      else if cid \<notin> channels s then refuse_operation InvalidId ''unknown SSH channel id'' s
      else run_operation now timeout_ms call s)"

definition ssh_channel_write :: "nat \<Rightarrow> u64 \<Rightarrow> string \<Rightarrow> ssh_state \<Rightarrow> u64 result \<times> ssh_state" where
  "ssh_channel_write now cid data s = with_channel now cid (channel_write_timeout_ms s) (BChannelWrite cid data) s"

definition ssh_channel_resize :: "nat \<Rightarrow> u64 \<Rightarrow> u32 \<Rightarrow> u32 \<Rightarrow> ssh_state \<Rightarrow> u64 result \<times> ssh_state" where
  "ssh_channel_resize now cid cols rows s = with_channel now cid 0 (BChannelResize cid cols rows) s"

definition ssh_channel_close :: "nat \<Rightarrow> u64 \<Rightarrow> ssh_state \<Rightarrow> u64 result \<times> ssh_state" where
  "ssh_channel_close now cid s = with_channel now cid 0 (BChannelClose cid) s"

definition ssh_open_local_tunnel :: "nat \<Rightarrow> u64 \<Rightarrow> tunnel_options \<Rightarrow> ssh_state \<Rightarrow> u64 result \<times> ssh_state" where
  "ssh_open_local_tunnel now sid options s =
     (if to_remote_host options = [] \<or> to_remote_port options = 0
      then refuse_operation MalformedOptions ''local tunnel remote_host and remote_port must be set'' s
      else with_session now sid (to_timeout_ms options) (BOpenLocalTunnel sid options) s)"

definition ssh_open_remote_tunnel :: "nat \<Rightarrow> u64 \<Rightarrow> tunnel_options \<Rightarrow> ssh_state \<Rightarrow> u64 result \<times> ssh_state" where
  "ssh_open_remote_tunnel now sid options s =
     (if to_remote_host options = [] \<or> to_remote_port options = 0
      then refuse_operation MalformedOptions ''remote tunnel remote_host and remote_port must be set'' s
      else with_session now sid (to_timeout_ms options) (BOpenRemoteTunnel sid options) s)"

definition ssh_close_tunnel :: "nat \<Rightarrow> u64 \<Rightarrow> ssh_state \<Rightarrow> u64 result \<times> ssh_state" where
  "ssh_close_tunnel now tid s =
     (if is_shutdown s then (Inr 0, s)
      else if tid \<notin> tunnels s then refuse_operation InvalidId ''unknown SSH tunnel id'' s
      else run_operation now 0 (BCloseTunnel tid) s)"

definition ssh_cancel :: "u64 \<Rightarrow> ssh_state \<Rightarrow> bool \<times> ssh_state" where
  "ssh_cancel i s = finish_operation i OperationCancelled Cancelled ''SSH operation cancelled'' s"

text \<open>\<open>poll\<close>, with its loop over the queue.\<close>

fun pop_events :: "nat \<Rightarrow> event list \<Rightarrow> event list \<times> event list" where
  "pop_events 0 es = ([], es)"
| "pop_events (Suc n) [] = ([], [])"
| "pop_events (Suc n) (e # es) = (let (out, rest) = pop_events n es in (e # out, rest))"

definition ssh_poll :: "nat \<Rightarrow> ssh_state \<Rightarrow> event list \<times> ssh_state" where
  "ssh_poll max_results s =
    (let limit = (if max_results = 0 then length (events s) else min max_results (length (events s)));
         (out, rest) = pop_events limit (events s)
     in (out, s\<lparr>events := rest\<rparr>))"

text \<open>
  \<open>order\<close> is the order in which the hash map lists the live operations: the backend is told to
  cancel them in that order after everything has been cleared.
\<close>

fun cancel_states :: "(u64 \<rightharpoonup> nat) \<Rightarrow> u64 list \<Rightarrow> operation_state list \<Rightarrow> operation_state list" where
  "cancel_states ops [] sts = sts"
| "cancel_states ops (i # is) sts = (case ops i of
      None \<Rightarrow> cancel_states ops is sts
    | Some a \<Rightarrow> cancel_states ops is (sts[a := (sts ! a)\<lparr>os_terminal := True, os_cancelled := True\<rparr>]))"

definition ssh_shutdown :: "u64 list \<Rightarrow> ssh_state \<Rightarrow> ssh_state" where
  "ssh_shutdown order s =
     (if is_shutdown s then s
      else s\<lparr>is_shutdown := True, states := cancel_states (operations s) order (states s), operations := Map.empty,
             sessions := {}, channels := {}, tunnels := {}, channel_sessions := [], tunnel_sessions := [], events := [],
             workers := [], cancels := cancels s @ order\<rparr>)"

end
