(* ===== verification/Ssh_Properties.thy ===== *)
theory Ssh_Properties
  imports Ssh_Service
begin

text \<open>
  What the SSH service promises whatever its backend does: the step relation of its critical
  sections, the invariant of its state and of the events it has queued, and the properties.
\<close>

section \<open>Steps\<close>

text \<open>
  The critical sections, in any order: the public operations are sequences of them, the backend
  calls \<open>emit\<close> and the allocators from any thread. Fewer than \<open>2 ^ 64 - 1\<close> operations are started.
\<close>

inductive ssh_step :: "ssh_state \<Rightarrow> ssh_state \<Rightarrow> bool" where
  S_start: "next_operation_id s \<noteq> - 1 \<Longrightarrow> start_operation now timeout_ms s = (i, s') \<Longrightarrow> ssh_step s s'"
| S_dispatch: "dispatch now i timeout_ms call s = (e, s') \<Longrightarrow> ssh_step s s'"
| S_dispatch_existing: "dispatch_existing_operation i call s = (b, s') \<Longrightarrow> ssh_step s s'"
| S_error: "next_operation_id s \<noteq> - 1 \<Longrightarrow> enqueue_error code message s = (i, s') \<Longrightarrow> ssh_step s s'"
| S_malformed: "next_operation_id s \<noteq> - 1 \<Longrightarrow> tgt_host (co_target options) = [] \<Longrightarrow> ssh_connect now options s = (r, s')
    \<Longrightarrow> ssh_step s s'"
| S_emit: "emit e s = s' \<Longrightarrow> ssh_step s s'"
| S_finish: "terminal_kind k \<Longrightarrow> finish_operation i k code message s = (b, s') \<Longrightarrow> ssh_step s s'"
| S_timer: "Timer i a deadline \<in> set (workers s) \<Longrightarrow> timer_turn now i a deadline s = (b, s') \<Longrightarrow> ssh_step s s'"
| S_session: "allocate_session s = (h, s') \<Longrightarrow> ssh_step s s'"
| S_channel: "allocate_channel s = (h, s') \<Longrightarrow> ssh_step s s'"
| S_tunnel: "allocate_tunnel s = (h, s') \<Longrightarrow> ssh_step s s'"
| S_poll: "ssh_poll n s = (out, s') \<Longrightarrow> ssh_step s s'"
| S_shutdown: "set order = dom (operations s) \<Longrightarrow> distinct order \<Longrightarrow> ssh_shutdown order s = s' \<Longrightarrow> ssh_step s s'"

inductive_cases ssh_stepE: "ssh_step s s'"

section \<open>The invariant\<close>

text \<open>The operations: each live one has a state of its own, not terminal; every other state is.\<close>

definition operations_inv :: "ssh_state \<Rightarrow> bool" where
  "operations_inv s \<longleftrightarrow> 0 < next_operation_id s
     \<and> (\<forall>i a. operations s i = Some a \<longrightarrow> a < length (states s) \<and> os_id (states s ! a) = i \<and> \<not> os_terminal (states s ! a)
          \<and> i \<noteq> 0 \<and> i < next_operation_id s)
     \<and> (\<forall>st \<in> set (states s). os_cancelled st = os_terminal st)"

definition of_operation :: "u64 \<Rightarrow> event list \<Rightarrow> event list" where
  "of_operation i es = filter (\<lambda>e. ev_operation e = i) es"

text \<open>The events: an operation's terminal event is its last one, and then it is not live.\<close>

definition history_inv :: "ssh_state \<Rightarrow> bool" where
  "history_inv s \<longleftrightarrow> (\<forall>e \<in> set (history s). ev_operation e = 0 \<or> ev_operation e < next_operation_id s)
     \<and> (\<forall>i. i \<noteq> 0 \<longrightarrow> (\<forall>e \<in> set (butlast (of_operation i (history s))). \<not> terminal_kind (ev_kind e))
          \<and> ((\<exists>e \<in> set (of_operation i (history s)). terminal_kind (ev_kind e)) \<longrightarrow> operations s i = None))"

definition redacted :: "event \<Rightarrow> bool" where
  "redacted e \<longleftrightarrow> (\<forall>k v. ev_fields e k = Some v \<longrightarrow> secret_field_name k \<longrightarrow> v = ''[redacted]'')"

definition handles_inv :: "ssh_state \<Rightarrow> bool" where
  "handles_inv s \<longleftrightarrow> distinct (map fst (channel_sessions s)) \<and> distinct (map fst (tunnel_sessions s))
     \<and> fst ` set (channel_sessions s) \<subseteq> channels s \<and> fst ` set (tunnel_sessions s) \<subseteq> tunnels s
     \<and> 0 \<notin> sessions s \<and> 0 \<notin> channels s \<and> 0 \<notin> tunnels s"

definition shutdown_inv :: "ssh_state \<Rightarrow> bool" where
  "shutdown_inv s \<longleftrightarrow> (is_shutdown s \<longrightarrow> events s = [] \<and> workers s = [] \<and> sessions s = {} \<and> channels s = {} \<and> tunnels s = {}
     \<and> channel_sessions s = [] \<and> tunnel_sessions s = [])"

definition ssh_inv :: "ssh_state \<Rightarrow> bool" where
  "ssh_inv s \<longleftrightarrow> operations_inv s \<and> history_inv s \<and> (\<forall>e \<in> set (history s). redacted e) \<and> handles_inv s \<and> shutdown_inv s"

lemma of_operation_append [simp]: "of_operation i (es @ [e]) = of_operation i es @ (if ev_operation e = i then [e] else [])"
  by (simp add: of_operation_def)

lemma set_of_operation: "e \<in> set (of_operation i es) \<longleftrightarrow> e \<in> set es \<and> ev_operation e = i"
  by (auto simp: of_operation_def)

lemma not_max_less: "w \<noteq> - 1 \<Longrightarrow> (w :: u64) < w + 1"
  using inc_less_eq_self_iff_eq [of w] by (simp add: not_le)

text \<open>Redaction.\<close>

lemma redacted_emit: "redacted (e\<lparr>ev_fields := redact_secret_fields (ev_fields e)\<rparr>)"
  by (auto simp: redacted_def redact_secret_fields_def split: option.splits)

lemma error_code_not_secret [simp]: "\<not> secret_field_name ''error-code''"
  by (simp add: secret_field_name_def sublist_code)

lemma redacted_make_event [simp]: "redacted (make_event k i code m)"
  by (simp add: redacted_def make_event_def error_fields_def)

lemma make_event_fields [simp]: "ev_operation (make_event k i code m) = i" "ev_kind (make_event k i code m) = k"
  by (simp_all add: make_event_def)

section \<open>What each section changes\<close>

lemma erase_session_eq:
  "erase_session sid hs H = (filter (\<lambda>(h, t). t \<noteq> sid) hs, {h \<in> H. (h, sid) \<notin> set hs})"
  by (induction sid hs H rule: erase_session.induct) (auto split: prod.splits)

lemma note_handles_fields [simp]:
  "next_operation_id (note_handles_for_event_locked e s) = next_operation_id s"
  "states (note_handles_for_event_locked e s) = states s" "operations (note_handles_for_event_locked e s) = operations s"
  "events (note_handles_for_event_locked e s) = events s" "workers (note_handles_for_event_locked e s) = workers s"
  "is_shutdown (note_handles_for_event_locked e s) = is_shutdown s" "history (note_handles_for_event_locked e s) = history s"
  "cancels (note_handles_for_event_locked e s) = cancels s"
  by (simp_all add: note_handles_for_event_locked_def split: prod.split)

lemma end_operation_fields [simp]:
  "next_operation_id (end_operation i a s) = next_operation_id s" "operations (end_operation i a s) = (operations s)(i := None)"
  "states (end_operation i a s) = (states s)[a := (states s ! a)\<lparr>os_terminal := True, os_cancelled := True\<rparr>]"
  "events (end_operation i a s) = events s" "workers (end_operation i a s) = workers s"
  "is_shutdown (end_operation i a s) = is_shutdown s" "history (end_operation i a s) = history s"
  "sessions (end_operation i a s) = sessions s" "channels (end_operation i a s) = channels s"
  "tunnels (end_operation i a s) = tunnels s" "channel_sessions (end_operation i a s) = channel_sessions s"
  "tunnel_sessions (end_operation i a s) = tunnel_sessions s"
  by (simp_all add: end_operation_def)

lemma queue_fields [simp]:
  "next_operation_id (queue_event_locked e s) = next_operation_id s" "operations (queue_event_locked e s) = operations s"
  "states (queue_event_locked e s) = states s" "workers (queue_event_locked e s) = workers s"
  "is_shutdown (queue_event_locked e s) = is_shutdown s"
  "sessions (queue_event_locked e s) = sessions s" "channels (queue_event_locked e s) = channels s"
  "tunnels (queue_event_locked e s) = tunnels s" "channel_sessions (queue_event_locked e s) = channel_sessions s"
  "tunnel_sessions (queue_event_locked e s) = tunnel_sessions s"
  "history (queue_event_locked e s) = (if is_shutdown s then history s else history s @ [e])"
  "events (queue_event_locked e s) = (if is_shutdown s then events s else events s @ [e])"
  by (simp_all add: queue_event_locked_def)

lemma shutdown_no_handles: "shutdown_inv s \<Longrightarrow> \<not> is_shutdown s \<Longrightarrow> is_shutdown t = is_shutdown s \<Longrightarrow> shutdown_inv t"
  by (simp add: shutdown_inv_def)

text \<open>The sub-invariants see few fields.\<close>

lemma operations_inv_frame:
  assumes "next_operation_id t = next_operation_id s" "operations t = operations s" "states t = states s"
  shows "operations_inv t \<longleftrightarrow> operations_inv s"
  using assms by (simp add: operations_inv_def)

lemma history_inv_frame:
  assumes "history t = history s" "operations t = operations s" "next_operation_id t = next_operation_id s"
  shows "history_inv t \<longleftrightarrow> history_inv s"
  using assms by (simp add: history_inv_def)

lemma handles_inv_frame:
  assumes "sessions t = sessions s" "channels t = channels s" "tunnels t = tunnels s"
    "channel_sessions t = channel_sessions s" "tunnel_sessions t = tunnel_sessions s"
  shows "handles_inv t \<longleftrightarrow> handles_inv s"
  using assms by (simp add: handles_inv_def)

lemma operations_inv_end:
  assumes inv: "operations_inv s" and a: "operations s i = Some a"
  shows "operations_inv (end_operation i a s)"
proof -
  have al: "a < length (states s)" using inv a by (simp add: operations_inv_def)
  have other: "b \<noteq> a" if "operations s j = Some b" "j \<noteq> i" for j b
    using inv a that unfolding operations_inv_def by metis
  have "os_cancelled st = os_terminal st"
    if "st \<in> set ((states s)[a := (states s ! a)\<lparr>os_terminal := True, os_cancelled := True\<rparr>])" for st
  proof -
    have "st \<in> insert ((states s ! a)\<lparr>os_terminal := True, os_cancelled := True\<rparr>) (set (states s))"
      using that set_update_subset_insert by (rule subsetD [rotated])
    then show ?thesis using inv by (auto simp: operations_inv_def)
  qed
  then show ?thesis
    using inv other al by (auto simp: operations_inv_def nth_list_update)
qed

text \<open>A new event of a live operation, which ends with it if the event is terminal.\<close>

lemma history_inv_live:
  assumes inv: "history_inv s" and ops: "operations_inv s" and live: "operations s (ev_operation e) = Some a"
    and h: "history t = history s @ [e]" "next_operation_id t = next_operation_id s"
    and o: "operations t = (if terminal_kind (ev_kind e) then (operations s)(ev_operation e := None) else operations s)"
  shows "history_inv t"
proof -
  let ?i = "ev_operation e"
  have new: "\<forall>x \<in> set (of_operation ?i (history s)). \<not> terminal_kind (ev_kind x)" and i: "?i \<noteq> 0" "?i < next_operation_id s"
    using inv ops live unfolding history_inv_def operations_inv_def by (metis option.distinct(1))+
  have ids: "\<forall>x \<in> set (history t). ev_operation x = 0 \<or> ev_operation x < next_operation_id t"
    using inv i(2) h by (auto simp: history_inv_def)
  have "(\<forall>x \<in> set (butlast (of_operation j (history t))). \<not> terminal_kind (ev_kind x))
      \<and> ((\<exists>x \<in> set (of_operation j (history t)). terminal_kind (ev_kind x)) \<longrightarrow> operations t j = None)" if "j \<noteq> 0" for j
  proof (cases "j = ?i")
    case True
    then show ?thesis using new h o by (auto simp: butlast_append)
  next
    case False
    then have "of_operation j (history t) = of_operation j (history s)" and "operations t j = operations s j"
      using h o by (auto simp: of_operation_def)
    then show ?thesis using inv that by (simp add: history_inv_def)
  qed
  with ids show ?thesis unfolding history_inv_def by blast
qed

text \<open>The terminal event of an operation that is refused at once, under a fresh id.\<close>

lemma history_inv_fresh:
  assumes inv: "history_inv s" and ops: "operations_inv s" and e: "ev_operation e = next_operation_id s"
    and h: "history t = history s @ [e]" "next_operation_id t = next_operation_id s + 1" "operations t = operations s"
    and room: "next_operation_id s \<noteq> - 1"
  shows "history_inv t"
proof -
  let ?i = "next_operation_id s"
  note less = not_max_less [OF room]
  have none: "of_operation ?i (history s) = []" "operations s ?i = None"
  proof -
    have "ev_operation x \<noteq> ?i" if "x \<in> set (history s)" for x
      using inv ops that by (fastforce simp: history_inv_def operations_inv_def)
    then show "of_operation ?i (history s) = []" by (simp add: of_operation_def)
    show "operations s ?i = None"
      using ops by (cases "operations s ?i") (auto simp: operations_inv_def)
  qed
  have ids: "\<forall>x \<in> set (history t). ev_operation x = 0 \<or> ev_operation x < next_operation_id t"
    using inv less e h by (auto simp: history_inv_def intro: less_trans)
  have "(\<forall>x \<in> set (butlast (of_operation j (history t))). \<not> terminal_kind (ev_kind x))
      \<and> ((\<exists>x \<in> set (of_operation j (history t)). terminal_kind (ev_kind x)) \<longrightarrow> operations t j = None)" if "j \<noteq> 0" for j
  proof (cases "j = ?i")
    case True
    then show ?thesis using none h e by simp
  next
    case False
    then have "of_operation j (history t) = of_operation j (history s)"
      using h e by (simp add: of_operation_def)
    then show ?thesis using inv that h by (simp add: history_inv_def)
  qed
  with ids show ?thesis unfolding history_inv_def by blast
qed

text \<open>The handles.\<close>

lemma erase_session_inv:
  assumes "erase_session sid hs H = (hs', H')" "distinct (map fst hs)" "fst ` set hs \<subseteq> H" "0 \<notin> H"
  shows "distinct (map fst hs')" "fst ` set hs' \<subseteq> H'" "0 \<notin> H'" "H' \<subseteq> H"
    "h \<in> H' \<longleftrightarrow> h \<in> H \<and> map_of hs h \<noteq> Some sid"
proof -
  have e: "hs' = filter (\<lambda>(h, t). t \<noteq> sid) hs" "H' = {h \<in> H. (h, sid) \<notin> set hs}"
    using assms(1) by (simp_all add: erase_session_eq)
  show "distinct (map fst hs')" unfolding e using assms(2) by (rule distinct_fst_filter)
  show "fst ` set hs' \<subseteq> H'"
    using assms(2,3) unfolding e by (auto dest: map_of_is_SomeI [OF assms(2)])
  show "0 \<notin> H'" "H' \<subseteq> H" using assms(4) by (auto simp: e)
  show "h \<in> H' \<longleftrightarrow> h \<in> H \<and> map_of hs h \<noteq> Some sid"
    using assms(2) by (simp add: e)
qed

lemma note_handles_inv:
  assumes inv: "handles_inv s"
  shows "handles_inv (note_handles_for_event_locked e s)"
proof (cases "ev_kind e = SessionClosed \<and> ev_session e \<noteq> 0")
  case True
  obtain cs chans where c: "erase_session (ev_session e) (channel_sessions s) (channels s) = (cs, chans)" by fastforce
  obtain ts tuns where t: "erase_session (ev_session e) (tunnel_sessions s) (tunnels s) = (ts, tuns)" by fastforce
  show ?thesis
    using True inv erase_session_inv(1-3) [OF c] erase_session_inv(1-3) [OF t]
    by (simp add: note_handles_for_event_locked_def c t handles_inv_def)
next
  case False
  have upd: "distinct (map fst (AList.update k v al))" "distinct (map fst (AList.delete k al))"
    if "distinct (map fst al)" for k v and al :: "(u64 \<times> u64) list"
    using that by (simp_all add: distinct_update distinct_delete)
  have keys: "fst ` set (AList.update k v al) = insert k (fst ` set al)" "fst ` set (AList.delete k al) = fst ` set al - {k}"
    for k v and al :: "(u64 \<times> u64) list"
    by (simp_all flip: set_map add: update_keys delete_keys insert_absorb)
  show ?thesis
    using False inv
    by (auto simp: note_handles_for_event_locked_def handles_inv_def upd keys)
qed

section \<open>Every step keeps the invariant\<close>

lemma ssh_invI:
  assumes "operations_inv s" "history_inv s" "\<And>e. e \<in> set (history s) \<Longrightarrow> redacted e" "handles_inv s" "shutdown_inv s"
  shows "ssh_inv s"
  using assms by (simp add: ssh_inv_def)

lemma ssh_invD:
  assumes "ssh_inv s"
  shows "operations_inv s" "history_inv s" "e \<in> set (history s) \<Longrightarrow> redacted e" "handles_inv s" "shutdown_inv s"
  using assms by (simp_all add: ssh_inv_def)

text \<open>An event that \<open>emit\<close> or \<open>finish_operation\<close> accepts.\<close>

lemma accepted_event_inv:
  assumes inv: "ssh_inv s" and live: "operations s (ev_operation e) = Some a" and up: "\<not> is_shutdown s"
    and red: "redacted e"
    and u: "u = (if terminal_kind (ev_kind e) then end_operation (ev_operation e) a s else s)"
    and t: "t = queue_event_locked e (note_handles_for_event_locked e' u)"
  shows "ssh_inv t"
proof -
  have ops: "operations_inv u" "operations u = (if terminal_kind (ev_kind e) then (operations s)(ev_operation e := None) else operations s)"
    "history u = history s" "next_operation_id u = next_operation_id s" "is_shutdown u = is_shutdown s"
    using ssh_invD(1) [OF inv] operations_inv_end [OF ssh_invD(1) [OF inv] live] by (simp_all add: u)
  have handles: "handles_inv u"
    using ssh_invD(4) [OF inv] by (simp add: u handles_inv_def)
  show ?thesis
  proof (rule ssh_invI)
    have "operations_inv t \<longleftrightarrow> operations_inv u" by (rule operations_inv_frame) (simp_all add: t)
    then show "operations_inv t" using ops(1) by simp
    show "history_inv t"
      by (rule history_inv_live [OF ssh_invD(2,1) [OF inv] live]) (use ops up in \<open>simp_all add: t\<close>)
    show "redacted x" if "x \<in> set (history t)" for x
      using that red ssh_invD(3) [OF inv] ops up by (auto simp: t)
    have "handles_inv t \<longleftrightarrow> handles_inv (note_handles_for_event_locked e' u)"
      by (rule handles_inv_frame) (simp_all add: t)
    then show "handles_inv t" using note_handles_inv [OF handles, of e'] by simp
    show "shutdown_inv t" using up ops by (simp add: shutdown_inv_def t)
  qed
qed

lemma emit_inv:
  assumes inv: "ssh_inv s"
  shows "ssh_inv (emit e s)"
proof -
  let ?e = "e\<lparr>ev_fields := redact_secret_fields (ev_fields e)\<rparr>"
  show ?thesis
  proof (cases "is_shutdown s")
    case True
    then show ?thesis using inv by (simp add: emit_def Let_def)
  next
    case up: False
    show ?thesis
    proof (cases "ev_operation e = 0")
      case True
      let ?t = "queue_event_locked ?e (note_handles_for_event_locked ?e s)"
      have "history_inv ?t"
        using ssh_invD(2) [OF inv] up True by (auto simp: history_inv_def of_operation_def)
      then have "ssh_inv ?t"
        using up ssh_invD [OF inv] redacted_emit [of e] note_handles_inv [OF ssh_invD(4) [OF inv], of ?e]
        by (intro ssh_invI) (auto simp: operations_inv_frame [of ?t s] shutdown_inv_def
            handles_inv_frame [of ?t "note_handles_for_event_locked ?e s"])
      then show ?thesis using up True by (simp add: emit_def Let_def)
    next
      case i: False
      show ?thesis
      proof (cases "operations s (ev_operation e)")
        case None
        then show ?thesis using inv up i by (simp add: emit_def Let_def)
      next
        case (Some a)
        have nt: "\<not> os_terminal (states s ! a)" using ssh_invD(1) [OF inv] Some by (simp add: operations_inv_def)
        show ?thesis
          using accepted_event_inv [OF inv, of ?e a, OF _ up redacted_emit refl refl, of ?e] Some up i nt
          by (simp add: emit_def Let_def)
      qed
    qed
  qed
qed

lemma plain_event: "note_handles_for_event_locked (make_event k i code m) s = s" if "terminal_kind k"
  using that by (auto simp: note_handles_for_event_locked_def terminal_kind_def make_event_def)

lemma ssh_inv_cancels [simp]: "ssh_inv (s\<lparr>cancels := cs\<rparr>) \<longleftrightarrow> ssh_inv s"
  by (simp add: ssh_inv_def operations_inv_def history_inv_def handles_inv_def shutdown_inv_def)

lemma finish_inv:
  assumes inv: "ssh_inv s" and k: "terminal_kind k" and f: "finish_operation i k code message s = (b, s')"
  shows "ssh_inv s'"
proof (cases "is_shutdown s \<or> operations s i = None")
  case True
  then show ?thesis using inv f by (auto simp: finish_operation_def split: if_splits)
next
  case False
  then obtain a where a: "operations s i = Some a" "\<not> is_shutdown s" by auto
  have nt: "\<not> os_terminal (states s ! a)" using ssh_invD(1) [OF inv] a by (simp add: operations_inv_def)
  let ?e = "make_event k i code message"
  have "ssh_inv (queue_event_locked ?e (end_operation i a s))"
    by (rule accepted_event_inv [OF inv, of ?e a _ _ ?e]) (use a k in \<open>simp_all add: plain_event\<close>)
  then show ?thesis using f a nt by (auto simp: finish_operation_def Let_def)
qed

lemma timer_inv:
  assumes "ssh_inv s" "timer_turn now i a deadline s = (b, s')"
  shows "ssh_inv s'"
proof -
  have "s' = s \<or> s' = snd (finish_operation i OperationTimeout Timeout ''SSH operation timed out'' s)"
    using assms(2) by (auto simp: timer_turn_def split: if_splits)
  then show ?thesis
    using assms(1) finish_inv [OF assms(1), of OperationTimeout i Timeout "''SSH operation timed out''"]
    by (auto simp: terminal_kind_def) (metis prod.collapse)
qed

lemma ssh_inv_frame:
  assumes "next_operation_id t = next_operation_id s" "states t = states s" "operations t = operations s"
    "sessions t = sessions s" "channels t = channels s" "tunnels t = tunnels s" "channel_sessions t = channel_sessions s"
    "tunnel_sessions t = tunnel_sessions s" "history t = history s" "is_shutdown t = is_shutdown s"
    "is_shutdown s \<Longrightarrow> events t = [] \<and> workers t = []"
  shows "ssh_inv s \<Longrightarrow> ssh_inv t"
  using assms unfolding ssh_inv_def operations_inv_def history_inv_def handles_inv_def shutdown_inv_def by simp

lemma start_operation_inv:
  assumes inv: "ssh_inv s" and room: "next_operation_id s \<noteq> - 1" and r: "start_operation now timeout_ms s = (i, t)"
  shows "ssh_inv t \<and> i = next_operation_id s \<and> operations t i = Some (length (states s))"
proof -
  let ?i = "next_operation_id s"
  note less = not_max_less [OF room]
  have fresh: "operations s ?i = None"
    using ssh_invD(1) [OF inv] by (cases "operations s ?i") (auto simp: operations_inv_def)
  define st where "st = \<lparr>os_id = ?i, os_cancelled = False,
      os_deadline = (if timeout_ms > 0 then Some (now + unat timeout_ms) else None), os_terminal = False\<rparr>"
  have t: "t = s\<lparr>next_operation_id := ?i + 1, states := states s @ [st], operations := (operations s)(?i \<mapsto> length (states s))\<rparr>"
    and i: "i = ?i"
    using r fresh by (auto simp: start_operation_def st_def Let_def)
  have "operations_inv t"
    using ssh_invD(1) [OF inv] less
    by (auto simp: operations_inv_def t st_def nth_append dest: less_trans [OF _ less] intro: less_SucI)
  moreover have "history_inv t"
    unfolding history_inv_def
  proof (intro conjI allI impI ballI)
    fix e assume "e \<in> set (history t)"
    then show "ev_operation e = 0 \<or> ev_operation e < next_operation_id t"
      using ssh_invD(2) [OF inv] less by (auto simp: t history_inv_def intro: less_trans)
  next
    fix j e assume "j \<noteq> 0" "e \<in> set (butlast (of_operation j (history t)))"
    then show "\<not> terminal_kind (ev_kind e)" using ssh_invD(2) [OF inv] by (simp add: t history_inv_def)
  next
    fix j assume j: "j \<noteq> 0" and e: "\<exists>e \<in> set (of_operation j (history t)). terminal_kind (ev_kind e)"
    then have "operations s j = None" using ssh_invD(2) [OF inv] by (simp add: t history_inv_def)
    moreover have "j \<noteq> ?i"
    proof
      assume "j = ?i"
      then obtain e where "e \<in> set (history s)" "ev_operation e = ?i" using e by (auto simp: t set_of_operation)
      then show False using ssh_invD(1,2) [OF inv] by (fastforce simp: history_inv_def operations_inv_def)
    qed
    ultimately show "operations t j = None" by (simp add: t)
  qed
  ultimately have "ssh_inv t"
    using ssh_invD [OF inv] by (intro ssh_invI) (simp_all add: t handles_inv_def shutdown_inv_def)
  then show ?thesis using i by (simp add: t)
qed

text \<open>An error event under a fresh id.\<close>

lemma fresh_error_inv:
  assumes inv: "ssh_inv s" and room: "next_operation_id s \<noteq> - 1"
    and t: "t = queue_event_locked (make_event k (next_operation_id s) code message) (s\<lparr>next_operation_id := next_operation_id s + 1\<rparr>)"
  shows "ssh_inv t"
proof (cases "is_shutdown s")
  case True
  note less = not_max_less [OF room]
  have "operations_inv t"
    using ssh_invD(1) [OF inv] less unfolding t operations_inv_def by (auto intro: less_trans)
  moreover have "history_inv t"
    using ssh_invD(2) [OF inv] less True unfolding t history_inv_def by (auto intro: less_trans)
  ultimately show ?thesis
    using ssh_invD [OF inv] True by (intro ssh_invI) (simp_all add: t handles_inv_def shutdown_inv_def)
next
  case False
  note less = not_max_less [OF room]
  have "operations_inv t"
    using ssh_invD(1) [OF inv] less unfolding t operations_inv_def by (auto intro: less_trans)
  moreover have "history_inv t"
    by (rule history_inv_fresh [OF ssh_invD(2,1) [OF inv], of "make_event k (next_operation_id s) code message"])
      (use False room in \<open>simp_all add: t\<close>)
  ultimately show ?thesis
    using ssh_invD [OF inv] False by (intro ssh_invI) (auto simp: t handles_inv_def shutdown_inv_def)
qed

lemma cancel_states_fields:
  "length (cancel_states ops is sts) = length sts"
  "\<forall>st \<in> set sts. os_cancelled st = os_terminal st \<Longrightarrow> \<forall>st \<in> set (cancel_states ops is sts). os_cancelled st = os_terminal st"
proof -
  show "length (cancel_states ops is sts) = length sts"
    by (induction ops "is" sts rule: cancel_states.induct) (simp_all split: option.split)
  show "\<forall>st \<in> set sts. os_cancelled st = os_terminal st \<Longrightarrow> \<forall>st \<in> set (cancel_states ops is sts). os_cancelled st = os_terminal st"
  proof (induction ops "is" sts rule: cancel_states.induct)
    case (2 ops i "is" sts)
    have "\<forall>st \<in> set (sts[a := (sts ! a)\<lparr>os_terminal := True, os_cancelled := True\<rparr>]). os_cancelled st = os_terminal st" for a
    proof
      fix st assume "st \<in> set (sts[a := (sts ! a)\<lparr>os_terminal := True, os_cancelled := True\<rparr>])"
      then have "st \<in> insert ((sts ! a)\<lparr>os_terminal := True, os_cancelled := True\<rparr>) (set sts)"
        using set_update_subset_insert by (rule subsetD [rotated])
      then show "os_cancelled st = os_terminal st" using "2.prems" by auto
    qed
    then show ?case using 2 by (cases "ops i") simp_all
  qed simp
qed

lemma shutdown_step_inv:
  assumes inv: "ssh_inv s"
  shows "ssh_inv (ssh_shutdown order s)"
proof (cases "is_shutdown s")
  case True
  then show ?thesis using inv by (simp add: ssh_shutdown_def)
next
  case False
  have "operations_inv (ssh_shutdown order s)"
    using ssh_invD(1) [OF inv] False cancel_states_fields(2) [of "states s" "operations s" order]
    by (simp add: ssh_shutdown_def operations_inv_def)
  moreover have "history_inv (ssh_shutdown order s)"
    using ssh_invD(2) [OF inv] False by (simp add: ssh_shutdown_def history_inv_def)
  ultimately show ?thesis
    using False ssh_invD(3) [OF inv]
    by (intro ssh_invI) (simp_all add: ssh_shutdown_def handles_inv_def shutdown_inv_def)
qed

lemma ssh_step_inv:
  assumes "ssh_step s s'" and inv: "ssh_inv s"
  shows "ssh_inv s'"
  using assms(1)
proof cases
  case (S_start now timeout_ms i)
  then show ?thesis using start_operation_inv [OF inv] by blast
next
  case (S_dispatch now i timeout_ms call e)
  then show ?thesis
    using inv by (auto simp: dispatch_def ok_def throw_def split: if_splits option.splits intro: ssh_inv_frame [OF _ _ _ _ _ _ _ _ _ _ _ inv])
next
  case (S_dispatch_existing i call b)
  then show ?thesis
    using inv by (auto simp: dispatch_existing_operation_def split: if_splits option.splits
        intro: ssh_inv_frame [OF _ _ _ _ _ _ _ _ _ _ _ inv])
next
  case (S_error code message i)
  then show ?thesis
    using fresh_error_inv [OF inv S_error(1) refl] inv by (auto simp: enqueue_error_def split: if_splits)
next
  case (S_malformed options now r)
  then show ?thesis
    using fresh_error_inv [OF inv S_malformed(1) refl] by (auto simp: ssh_connect_def next_operation_id_locked_def)
next
  case (S_emit e)
  then show ?thesis using emit_inv [OF inv] by blast
next
  case (S_finish k i code message b)
  then show ?thesis using finish_inv [OF inv] by blast
next
  case (S_timer i a deadline now b)
  then show ?thesis using timer_inv [OF inv] by blast
next
  case (S_session h)
  then show ?thesis
    using inv by (auto simp: allocate_session_def split: if_splits intro: ssh_inv_frame [OF _ _ _ _ _ _ _ _ _ _ _ inv])
next
  case (S_channel h)
  then show ?thesis
    using inv by (auto simp: allocate_channel_def split: if_splits intro: ssh_inv_frame [OF _ _ _ _ _ _ _ _ _ _ _ inv])
next
  case (S_tunnel h)
  then show ?thesis
    using inv by (auto simp: allocate_tunnel_def split: if_splits intro: ssh_inv_frame [OF _ _ _ _ _ _ _ _ _ _ _ inv])
next
  case (S_poll n out)
  have "pop_events m [] = ([], [])" for m by (cases m) simp_all
  then show ?thesis using S_poll ssh_invD(5) [OF inv]
    by (auto simp: ssh_poll_def Let_def shutdown_inv_def split: prod.splits intro!: ssh_inv_frame [OF _ _ _ _ _ _ _ _ _ _ _ inv])
next
  case (S_shutdown order)
  then show ?thesis using shutdown_step_inv [OF inv] by blast
qed

lemma ssh_inv_initial: "ssh_inv (initial_ssh w)"
  by (simp add: ssh_inv_def operations_inv_def history_inv_def handles_inv_def shutdown_inv_def initial_ssh_def of_operation_def)

interpretation ssh: invariant_system "\<lambda>s. \<exists>w. s = initial_ssh w" ssh_step ssh_inv
  by unfold_locales (auto simp: ssh_inv_initial ssh_step_inv)

section \<open>The queue of events\<close>

lemma pop_events_eq: "pop_events n es = (take n es, drop n es)"
  by (induction n es rule: pop_events.induct) simp_all

interpretation ssh_events: drained_queue events ssh_poll
  by unfold_locales (auto simp: ssh_poll_def pop_events_eq Let_def)

section \<open>Example\<close>

definition example_connect :: connect_options where
  "example_connect = \<lparr>co_target = \<lparr>tgt_host = ''h'', tgt_port = 22, tgt_username = ''u''\<rparr>, co_auth_methods = [],
     co_known_hosts_path = [], co_timeout_ms = 5, co_known_host_policy = PolicyAsk\<rparr>"

text \<open>A connect that the backend completes with a session, then reports a success.\<close>

definition example_event :: "event_kind \<Rightarrow> event" where
  "example_event k = \<lparr>ev_kind = k, ev_operation = 1, ev_session = 4, ev_channel = 0, ev_tunnel = 0,
     ev_fields = [''password'' \<mapsto> ''p''], ev_error_code = NoError, ev_message = []\<rparr>"

definition example_ssh :: ssh_state where
  "example_ssh = emit (example_event OperationSuccess) (emit (example_event ConnectedEvent)
     (snd (start_operation 0 5 (initial_ssh 9))))"

lemma example_ssh_reachable: "ssh_step\<^sup>*\<^sup>* (initial_ssh 9) example_ssh"
proof -
  have "ssh_step (initial_ssh 9) (snd (start_operation 0 5 (initial_ssh 9)))"
    by (rule S_start [where now = 0 and timeout_ms = 5 and i = "fst (start_operation 0 5 (initial_ssh 9))"])
      (simp_all add: initial_ssh_def)
  then show ?thesis
    unfolding example_ssh_def by (meson S_emit rtranclp.rtrancl_into_rtrancl rtranclp.rtrancl_refl)
qed

lemma example_ssh_fields:
  "map ev_kind (history example_ssh) = [ConnectedEvent, OperationSuccess]" "map ev_operation (history example_ssh) = [1, 1]"
  "sessions example_ssh = {4}" "\<not> is_shutdown example_ssh" "next_operation_id example_ssh = 2" "operations example_ssh = Map.empty"
  "workers example_ssh = []" "channels example_ssh = {}" "tunnels example_ssh = {}"
  by (simp_all add: example_ssh_def emit_def start_operation_def initial_ssh_def example_event_def terminal_kind_def
      end_operation_def queue_event_locked_def note_handles_for_event_locked_def Let_def)

section \<open>Properties\<close>

text \<open>C8: an operation ends once. In every state the service reaches, whatever the backend emits, the
  timers do and the caller cancels, an operation has at most one terminal event among all events
  ever queued, it is the last event of the operation, and the operation is no longer live then.\<close>

theorem one_terminal_event:
  assumes "ssh_step\<^sup>*\<^sup>* (initial_ssh w) s" and "history s = before @ e # after"
    and "ev_operation e \<noteq> 0" and "terminal_kind (ev_kind e)"
  shows "(\<forall>e' \<in> set after. ev_operation e' \<noteq> ev_operation e)
    \<and> (\<forall>e' \<in> set before. ev_operation e' = ev_operation e \<longrightarrow> \<not> terminal_kind (ev_kind e'))
    \<and> operations s (ev_operation e) = None"
proof -
  let ?i = "ev_operation e"
  have inv: "history_inv s" using ssh.inv_reachable [OF _ assms(1)] ssh_invD(2) by blast
  have of_i: "of_operation ?i (history s) = of_operation ?i before @ e # of_operation ?i after"
    by (simp add: assms(2) of_operation_def)
  have last: "\<not> terminal_kind (ev_kind x)" if "x \<in> set (butlast (of_operation ?i (history s)))" for x
    using inv assms(3) that by (simp add: history_inv_def)
  have none: "of_operation ?i after = []"
  proof (rule ccontr)
    assume "of_operation ?i after \<noteq> []"
    then have "e \<in> set (butlast (of_operation ?i (history s)))" by (simp add: of_i butlast_append)
    then show False using last assms(4) by blast
  qed
  have "\<not> terminal_kind (ev_kind x)" if "x \<in> set before" "ev_operation x = ?i" for x
  proof -
    have "x \<in> set (butlast (of_operation ?i (history s)))"
      using that by (simp add: of_i none butlast_append set_of_operation)
    then show ?thesis using last by blast
  qed
  moreover have "e \<in> set (of_operation ?i (history s))" by (simp add: of_i)
  ultimately show ?thesis
    using none inv assms(3,4) unfolding history_inv_def by (auto simp: of_operation_def filter_empty_conv)
qed

theorem one_terminal_event_witness:
  "operations example_ssh 1 = None \<and> (\<exists>e. history example_ssh = [e, last (history example_ssh)] \<and> \<not> terminal_kind (ev_kind e))"
proof -
  obtain a b where h: "history example_ssh = [a] @ b # []" "ev_kind b = OperationSuccess" "ev_operation a = 1" "ev_operation b = 1"
    using example_ssh_fields(1,2) by (auto simp: map_eq_Cons_conv)
  from one_terminal_event [OF example_ssh_reachable h(1)] h show ?thesis by (simp add: terminal_kind_def)
qed

text \<open>C9: no secret leaves the service. In every event ever queued, each field whose name contains
  password, passphrase, secret, token or private-key has the value [redacted].\<close>

theorem secrets_redacted:
  assumes "ssh_step\<^sup>*\<^sup>* (initial_ssh w) s" and "e \<in> set (history s)"
    and "ev_fields e key = Some v" and "\<exists>part \<in> {''password'', ''passphrase'', ''secret'', ''token'', ''private-key''}. sublist part key"
  shows "v = ''[redacted]''"
proof -
  have "redacted e" using ssh.inv_reachable [OF _ assms(1)] ssh_invD(3) assms(2) by blast
  then show ?thesis using assms(3,4) by (auto simp: redacted_def secret_field_name_def)
qed

theorem secrets_redacted_witness:
  "\<exists>e \<in> set (history example_ssh). ev_fields e ''password'' = Some ''[redacted]''"
proof -
  have "\<exists>e v. e \<in> set (history example_ssh) \<and> ev_fields e ''password'' = Some v"
    by (simp add: example_ssh_def emit_def start_operation_def initial_ssh_def example_event_def terminal_kind_def
      end_operation_def queue_event_locked_def note_handles_for_event_locked_def redact_secret_fields_def Let_def) force
  then obtain e v where "e \<in> set (history example_ssh)" "ev_fields e ''password'' = Some v" by blast
  with secrets_redacted [OF example_ssh_reachable this] show ?thesis by auto
qed

text \<open>After \<open>shutdown\<close> the service is silent for good. Whatever its threads and callers still
  do, no event is queued, polling gives nothing, no handle is known, no thread is started and no
  operation can be cancelled successfully; the events that were not polled are lost.\<close>

theorem shutdown_silences:
  assumes "ssh_step\<^sup>*\<^sup>* (initial_ssh w) s" and "ssh_step\<^sup>*\<^sup>* (ssh_shutdown order s) t"
    and "set order = dom (operations s)" "distinct order"
  shows "is_shutdown t \<and> history t = history s \<and> ssh_poll n t = ([], t) \<and> workers t = []
    \<and> sessions t = {} \<and> channels t = {} \<and> tunnels t = {} \<and> ssh_cancel i t = (False, t)"
proof -
  have down: "is_shutdown (ssh_shutdown order s)" by (simp add: ssh_shutdown_def)
  have "ssh_step s (ssh_shutdown order s)" using assms(3,4) by (intro S_shutdown) simp_all
  then have reach: "ssh_step\<^sup>*\<^sup>* (initial_ssh w) t"
    using assms(1,2) by (meson rtranclp.rtrancl_into_rtrancl rtranclp_trans)
  have "is_shutdown t \<and> history t = history (ssh_shutdown order s)"
    using assms(2)
  proof (induction rule: rtranclp_induct)
    case base
    show ?case using down by simp
  next
    case (step u v)
    have sd: "is_shutdown u" using step.IH by simp
    have "is_shutdown v \<and> history v = history u"
      using step.hyps(2) sd
      by cases (auto simp: start_operation_def dispatch_def dispatch_existing_operation_def enqueue_error_def
          ssh_connect_def next_operation_id_locked_def emit_def finish_operation_def timer_turn_def allocate_session_def
          allocate_channel_def allocate_tunnel_def ssh_poll_def ssh_shutdown_def ok_def Let_def
          split: if_splits prod.splits)
    then show ?case using step.IH by simp
  qed
  moreover have hist: "history (ssh_shutdown order s) = history s" by (simp add: ssh_shutdown_def)
  moreover have "shutdown_inv t" using ssh.inv_reachable [OF _ reach] ssh_invD(5) by blast
  ultimately show ?thesis
    using hist ssh_events.poll_all_empties [of t]
    by (cases t) (simp add: shutdown_inv_def ssh_cancel_def finish_operation_def ssh_poll_def pop_events_eq)
qed

theorem shutdown_silences_witness:
  "history (emit (example_event SessionClosed) (ssh_shutdown [] example_ssh)) = history example_ssh"
proof -
  have "ssh_step\<^sup>*\<^sup>* (ssh_shutdown [] example_ssh) (emit (example_event SessionClosed) (ssh_shutdown [] example_ssh))"
    by (meson S_emit rtranclp.rtrancl_into_rtrancl rtranclp.rtrancl_refl)
  from shutdown_silences [OF example_ssh_reachable this, of 0 0] show ?thesis
    by (simp add: example_ssh_fields)
qed

text \<open>When a session closes, the service forgets it with exactly its channels and tunnels, and
  nothing else.\<close>

theorem session_closed_forgets:
  assumes "ssh_step\<^sup>*\<^sup>* (initial_ssh w) s" "\<not> is_shutdown s"
    and "ev_kind e = SessionClosed" "ev_session e = sid" "sid \<noteq> 0"
    and "ev_operation e = 0 \<or> operations s (ev_operation e) \<noteq> None"
  shows "sessions (emit e s) = sessions s - {sid}
    \<and> channels (emit e s) = {c \<in> channels s. map_of (channel_sessions s) c \<noteq> Some sid}
    \<and> tunnels (emit e s) = {t \<in> tunnels s. map_of (tunnel_sessions s) t \<noteq> Some sid}
    \<and> operations (emit e s) = operations s"
proof -
  have inv: "ssh_inv s" using ssh.inv_reachable [OF _ assms(1)] by blast
  obtain cs chans where c: "erase_session sid (channel_sessions s) (channels s) = (cs, chans)" by fastforce
  obtain ts tuns where t: "erase_session sid (tunnel_sessions s) (tunnels s) = (ts, tuns)" by fastforce
  have h: "distinct (map fst (channel_sessions s))" "fst ` set (channel_sessions s) \<subseteq> channels s" "0 \<notin> channels s"
    "distinct (map fst (tunnel_sessions s))" "fst ` set (tunnel_sessions s) \<subseteq> tunnels s" "0 \<notin> tunnels s"
    using ssh_invD(4) [OF inv] by (simp_all add: handles_inv_def)
  let ?e = "e\<lparr>ev_fields := redact_secret_fields (ev_fields e)\<rparr>"
  have nt: "\<not> os_terminal (states s ! a)" if "operations s i = Some a" for i a
    using ssh_invD(1) [OF inv] that by (simp add: operations_inv_def)
  have "emit e s = queue_event_locked ?e (note_handles_for_event_locked ?e s)"
    using assms(2,3,6) nt by (auto simp: emit_def terminal_kind_def Let_def)
  then show ?thesis
    using assms(3-5) erase_session_inv(5) [OF c h(1-3)] erase_session_inv(5) [OF t h(4-6)]
    by (auto simp: note_handles_for_event_locked_def c t)
qed

theorem session_closed_forgets_witness:
  "sessions (emit (example_event SessionClosed\<lparr>ev_operation := 0\<rparr>) example_ssh) = {}"
  using session_closed_forgets [OF example_ssh_reachable, of "example_event SessionClosed\<lparr>ev_operation := 0\<rparr>" 4]
  by (simp add: example_ssh_fields) (simp add: example_event_def)

text \<open>An operation on a handle the service does not know is refused at once, under a fresh id:
  the only effect is one error event of that id. No thread is started and the backend is not
  called.\<close>

theorem unknown_handles_refused:
  assumes "\<not> is_shutdown s" and "sid \<notin> sessions s" "cid \<notin> channels s" "tid \<notin> tunnels s"
  shows "\<forall>operation \<in> set [ssh_close_session now sid, ssh_exec now sid eo, ssh_sftp_upload now sid fo, ssh_sftp_download now sid fo,
      ssh_open_shell now sid so, ssh_open_local_tunnel now sid tu, ssh_open_remote_tunnel now sid tu,
      ssh_channel_write now cid data, ssh_channel_resize now cid cols rows, ssh_channel_close now cid, ssh_close_tunnel now tid].
    \<exists>code message e. (code = InvalidId \<or> code = MalformedOptions)
      \<and> e = make_event OperationError (next_operation_id s) code message
      \<and> operation s = (Inr (next_operation_id s), s\<lparr>next_operation_id := next_operation_id s + 1,
          events := events s @ [e], history := history s @ [e]\<rparr>)"
proof -
  let ?ok = "\<lambda>r. \<exists>code message e. (code = InvalidId \<or> code = MalformedOptions)
      \<and> e = make_event OperationError (next_operation_id s) code message
      \<and> r = (Inr (next_operation_id s), s\<lparr>next_operation_id := next_operation_id s + 1,
          events := events s @ [e], history := history s @ [e]\<rparr>)"
  have r: "?ok (refuse_operation code message s)" if "code = InvalidId \<or> code = MalformedOptions" for code message
    using that assms(1) by (auto simp: refuse_operation_def enqueue_error_def queue_event_locked_def)
  have w: "?ok (with_session now sid t call s)" "?ok (with_channel now cid t call s)" "?ok (ssh_close_tunnel now tid s)" for t call
    using assms r by (simp_all only: with_session_def with_channel_def ssh_close_tunnel_def if_True if_False simp_thms)
  show ?thesis
    using r w
    by (simp only: list.set ball_simps ssh_close_session_def ssh_exec_def ssh_sftp_upload_def ssh_sftp_download_def
        ssh_open_shell_def ssh_open_local_tunnel_def ssh_open_remote_tunnel_def ssh_channel_write_def
        ssh_channel_resize_def ssh_channel_close_def split: if_splits) simp
qed

theorem unknown_handles_refused_witness:
  "\<exists>code message e. (code = InvalidId \<or> code = MalformedOptions) \<and> e = make_event OperationError 2 code message
    \<and> ssh_close_session 0 8 example_ssh = (Inr 2, example_ssh\<lparr>next_operation_id := 3,
          events := events example_ssh @ [e], history := history example_ssh @ [e]\<rparr>)"
  using unknown_handles_refused [of example_ssh 8 0 0]
  by (simp add: example_ssh_fields)

text \<open>An operation on a known handle with well-formed options starts: it returns the next id, under
  which the operation is live, and starts one thread that calls the backend with what was asked,
  and a timer exactly when there is a timeout. It queues no event and throws nothing.\<close>

theorem known_handles_started:
  assumes "ssh_step\<^sup>*\<^sup>* (initial_ssh w) s" "\<not> is_shutdown s" "next_operation_id s \<noteq> - 1"
    and "sid \<in> sessions s" "cid \<in> channels s" "tid \<in> tunnels s"
    and "tgt_host (co_target co) \<noteq> []" "eo_command eo \<noteq> []" "fo_local_path fo \<noteq> []" "fo_remote_path fo \<noteq> []"
    and "\<not> sh_request_pty so \<or> sh_cols so \<noteq> 0 \<and> sh_rows so \<noteq> 0" "to_remote_host tu \<noteq> []" "to_remote_port tu \<noteq> 0"
    and "(operation, timeout, call) \<in> set [(ssh_connect now co, co_timeout_ms co, BConnect co),
      (ssh_close_session now sid, 0, BCloseSession sid), (ssh_exec now sid eo, eo_timeout_ms eo, BExec sid eo),
      (ssh_sftp_upload now sid fo, fo_timeout_ms fo, BSftpUpload sid fo),
      (ssh_sftp_download now sid fo, fo_timeout_ms fo, BSftpDownload sid fo),
      (ssh_open_shell now sid so, sh_timeout_ms so, BOpenShell sid so),
      (ssh_open_local_tunnel now sid tu, to_timeout_ms tu, BOpenLocalTunnel sid tu),
      (ssh_open_remote_tunnel now sid tu, to_timeout_ms tu, BOpenRemoteTunnel sid tu),
      (ssh_channel_write now cid data, channel_write_timeout_ms s, BChannelWrite cid data),
      (ssh_channel_resize now cid cols rows, 0, BChannelResize cid cols rows),
      (ssh_channel_close now cid, 0, BChannelClose cid), (ssh_close_tunnel now tid, 0, BCloseTunnel tid)]"
  shows "let (r, t) = operation s; i = next_operation_id s; a = length (states s) in
    r = Inr i \<and> i \<noteq> 0 \<and> operations s i = None \<and> operations t = (operations s)(i \<mapsto> a)
    \<and> history t = history s \<and> events t = events s
    \<and> workers t = workers s @ [Backend_work i a call] @ (if timeout > 0 then [Timer i a (now + unat timeout)] else [])"
proof -
  have inv: "ssh_inv s" using ssh.inv_reachable [OF _ assms(1)] by blast
  have fresh: "operations s (next_operation_id s) = None"
    using ssh_invD(1) [OF inv] by (cases "operations s (next_operation_id s)") (auto simp: operations_inv_def)
  have "next_operation_id s \<noteq> 0" using ssh_invD(1) [OF inv] by (auto simp: operations_inv_def)
  have "operation s = run_operation now timeout call s"
    using assms by (auto simp: ssh_connect_def ssh_close_session_def ssh_exec_def ssh_sftp_upload_def ssh_sftp_download_def
        ssh_open_shell_def ssh_open_local_tunnel_def ssh_open_remote_tunnel_def ssh_channel_write_def
        ssh_channel_resize_def ssh_channel_close_def ssh_close_tunnel_def with_session_def with_channel_def)
  then show ?thesis
    using assms(2) fresh \<open>next_operation_id s \<noteq> 0\<close>
    by (simp add: run_operation_def start_operation_def dispatch_def Let_def) (simp add: ok_def)
qed

definition example_exec :: exec_options where
  "example_exec = \<lparr>eo_command = ''ls'', eo_env = Map.empty, eo_timeout_ms = 0\<rparr>"

definition example_shell :: ssh_state where
  "example_shell = emit (example_event TunnelOpened\<lparr>ev_operation := 0, ev_tunnel := 6\<rparr>)
     (emit (example_event ShellOpened\<lparr>ev_operation := 0, ev_channel := 5\<rparr>) example_ssh)"

lemma example_shell_fields:
  "sessions example_shell = {4}" "channels example_shell = {5}" "tunnels example_shell = {6}"
  "\<not> is_shutdown example_shell" "next_operation_id example_shell = 2" "workers example_shell = []"
  by (simp_all add: example_shell_def emit_def example_event_def example_ssh_fields note_handles_for_event_locked_def Let_def)

lemma example_shell_reachable: "ssh_step\<^sup>*\<^sup>* (initial_ssh 9) example_shell"
  unfolding example_shell_def using example_ssh_reachable by (meson S_emit rtranclp.rtrancl_into_rtrancl)

theorem known_handles_started_witness:
  "let (r, t) = ssh_exec 0 4 example_exec example_shell in
    r = Inr 2 \<and> (\<exists>a. workers t = [Backend_work 2 a (BExec 4 example_exec)] \<and> operations t 2 = Some a)"
proof -
  let ?fo = "\<lparr>fo_local_path = ''l'', fo_remote_path = ''r'', fo_timeout_ms = 0\<rparr>"
  let ?so = "\<lparr>sh_request_pty = False, sh_term = [], sh_cols = 80, sh_rows = 24, sh_timeout_ms = 0\<rparr>"
  let ?tu = "\<lparr>to_local_host = [], to_local_port = 0, to_remote_host = ''r'', to_remote_port = 1, to_timeout_ms = 0\<rparr>"
  show ?thesis
    using known_handles_started [OF example_shell_reachable, where sid = 4 and cid = 5 and tid = 6 and co = example_connect
        and eo = example_exec and fo = ?fo and so = ?so and tu = ?tu and operation = "ssh_exec 0 4 example_exec"
        and timeout = 0 and call = "BExec 4 example_exec" and now = 0]
    by (auto simp: example_shell_fields example_connect_def example_exec_def Let_def split: prod.splits)
qed

text \<open>Cancelling ends a live operation: it succeeds once, queues the cancelled event, cancels the
  operation's token and tells the backend. Afterwards a second cancel fails, an event the backend
  still emits for the operation is dropped, and a timer of the operation ends without an effect.\<close>

theorem cancel_ends_operation:
  assumes "ssh_step\<^sup>*\<^sup>* (initial_ssh w) s" "\<not> is_shutdown s" "operations s i = Some a"
  shows "\<exists>t. ssh_cancel i s = (True, t) \<and> history t = history s @ [make_event OperationCancelled i Cancelled ''SSH operation cancelled'']
    \<and> os_cancelled (states t ! a) \<and> cancels t = cancels s @ [i] \<and> operations t = (operations s)(i := None)
    \<and> ssh_cancel i t = (False, t) \<and> (\<forall>e. ev_operation e = i \<longrightarrow> emit e t = t)
    \<and> (\<forall>now deadline. timer_turn now i a deadline t = (True, t))"
proof -
  have inv: "operations_inv s" using ssh.inv_reachable [OF _ assms(1)] ssh_invD(1) by blast
  have a: "a < length (states s)" "\<not> os_terminal (states s ! a)" "i \<noteq> 0"
    using inv assms(3) by (simp_all add: operations_inv_def)
  define t where "t = (queue_event_locked (make_event OperationCancelled i Cancelled ''SSH operation cancelled'')
      (end_operation i a s))\<lparr>cancels := cancels s @ [i]\<rparr>"
  have c: "ssh_cancel i s = (True, t)"
    using assms(2,3) a by (simp add: ssh_cancel_def finish_operation_def t_def Let_def)
      (simp add: queue_event_locked_def end_operation_def)
  have f: "operations t i = None" "\<not> is_shutdown t" "os_cancelled (states t ! a)"
    "history t = history s @ [make_event OperationCancelled i Cancelled ''SSH operation cancelled'']"
    "cancels t = cancels s @ [i]" "operations t = (operations s)(i := None)"
    using a assms(2) by (simp_all add: t_def)
  have "ssh_cancel i t = (False, t)" using f by (simp add: ssh_cancel_def finish_operation_def)
  moreover have "\<forall>e. ev_operation e = i \<longrightarrow> emit e t = t" using f a by (simp add: emit_def Let_def)
  moreover have "\<forall>now deadline. timer_turn now i a deadline t = (True, t)" using f by (simp add: timer_turn_def)
  ultimately show ?thesis using c f by blast
qed

theorem cancel_ends_operation_witness:
  "\<exists>t. ssh_cancel 1 (snd (start_operation 0 5 (initial_ssh 9))) = (True, t) \<and> ssh_cancel 1 t = (False, t)"
proof -
  have "ssh_step\<^sup>*\<^sup>* (initial_ssh 9) (snd (start_operation 0 5 (initial_ssh 9)))"
    by (rule r_into_rtranclp, rule S_start [where now = 0 and timeout_ms = 5 and i = "fst (start_operation 0 5 (initial_ssh 9))"])
      (simp_all add: initial_ssh_def)
  from cancel_ends_operation [OF this, of 1 0] show ?thesis
    by (auto simp: start_operation_def initial_ssh_def Let_def)
qed

text \<open>After \<open>shutdown\<close>, connecting is the only operation that does not answer 0: it returns an id
  that looks started, but no thread runs it, no event is ever queued for it, and its entry stays
  among the operations.\<close>

theorem connect_after_shutdown:
  assumes "ssh_step\<^sup>*\<^sup>* (initial_ssh w) s" "is_shutdown s" "next_operation_id s \<noteq> - 1"
  shows "(let (r, t) = ssh_connect now co s in r = Inr (next_operation_id s) \<and> next_operation_id s \<noteq> 0
      \<and> history t = history s \<and> workers t = []
      \<and> (tgt_host (co_target co) \<noteq> [] \<longrightarrow> operations t (next_operation_id s) = Some (length (states s))))
    \<and> (\<forall>operation \<in> set [ssh_close_session now sid, ssh_exec now sid eo, ssh_sftp_upload now sid fo, ssh_sftp_download now sid fo,
      ssh_open_shell now sid so, ssh_open_local_tunnel now sid tu, ssh_open_remote_tunnel now sid tu,
      ssh_channel_write now cid data, ssh_channel_resize now cid cols rows, ssh_channel_close now cid, ssh_close_tunnel now tid].
      operation s = (Inr 0, s))"
proof -
  have inv: "ssh_inv s" using ssh.inv_reachable [OF _ assms(1)] by blast
  have fresh: "operations s (next_operation_id s) = None"
    using ssh_invD(1) [OF inv] by (cases "operations s (next_operation_id s)") (auto simp: operations_inv_def)
  have nz: "next_operation_id s \<noteq> 0" using ssh_invD(1) [OF inv] by (auto simp: operations_inv_def)
  have down: "workers s = []" "sessions s = {}"
    using ssh_invD(5) [OF inv] assms(2) by (simp_all add: shutdown_inv_def)
  have connect: "let (r, t) = ssh_connect now co s in r = Inr (next_operation_id s) \<and> next_operation_id s \<noteq> 0
      \<and> history t = history s \<and> workers t = []
      \<and> (tgt_host (co_target co) \<noteq> [] \<longrightarrow> operations t (next_operation_id s) = Some (length (states s)))"
    using fresh nz down assms(2)
    by (simp add: ssh_connect_def next_operation_id_locked_def run_operation_def start_operation_def dispatch_def
        queue_event_locked_def Let_def) (simp add: ok_def)
  have r: "refuse_operation code message s = (Inr 0, s)" for code message
    using assms(2) by (simp add: refuse_operation_def enqueue_error_def)
  have w: "with_session now sid t call s = (Inr 0, s)" "with_channel now cid t call s = (Inr 0, s)"
    "ssh_close_tunnel now tid s = (Inr 0, s)" for t call
    using assms(2) r down by (simp_all add: with_session_def with_channel_def ssh_close_tunnel_def)
  have rest: "\<forall>operation \<in> set [ssh_close_session now sid, ssh_exec now sid eo, ssh_sftp_upload now sid fo, ssh_sftp_download now sid fo,
      ssh_open_shell now sid so, ssh_open_local_tunnel now sid tu, ssh_open_remote_tunnel now sid tu,
      ssh_channel_write now cid data, ssh_channel_resize now cid cols rows, ssh_channel_close now cid, ssh_close_tunnel now tid].
      operation s = (Inr 0, s)"
    using r w by (simp add: ssh_close_session_def ssh_exec_def ssh_sftp_upload_def ssh_sftp_download_def
        ssh_open_shell_def ssh_open_local_tunnel_def ssh_open_remote_tunnel_def ssh_channel_write_def
        ssh_channel_resize_def ssh_channel_close_def)
  show ?thesis using connect rest by (rule conjI)
qed

theorem connect_after_shutdown_witness:
  "let (r, t) = ssh_connect 0 example_connect (ssh_shutdown [] example_ssh) in
     r = Inr 2 \<and> history t = history example_ssh \<and> operations t 2 \<noteq> None"
proof -
  have "ssh_step example_ssh (ssh_shutdown [] example_ssh)"
    by (rule S_shutdown [where order = "[]"]) (simp_all add: example_ssh_fields)
  with example_ssh_reachable have "ssh_step\<^sup>*\<^sup>* (initial_ssh 9) (ssh_shutdown [] example_ssh)"
    by (rule rtranclp.rtrancl_into_rtrancl)
  from connect_after_shutdown [OF this, of 0 example_connect] show ?thesis
    by (auto simp: example_ssh_fields ssh_shutdown_def example_connect_def split: prod.splits)
qed

text \<open>Polling delivers the queued events in their order, at most as many as asked for, all of them
  for a limit of 0, none twice and none lost between two polls.\<close>

theorem poll_in_order:
  "fst (ssh_poll m s) @ fst (ssh_poll n (snd (ssh_poll m s))) @ events (snd (ssh_poll n (snd (ssh_poll m s)))) = events s
    \<and> fst (ssh_poll m s) = (if m = 0 then events s else take m (events s))
    \<and> snd (ssh_poll m s) = s\<lparr>events := drop (length (fst (ssh_poll m s))) (events s)\<rparr>"
proof -
  have "snd (ssh_poll m s) = s\<lparr>events := drop (length (fst (ssh_poll m s))) (events s)\<rparr>"
    by (simp add: ssh_poll_def pop_events_eq Let_def)
  moreover have split: "fst (ssh_poll n t) @ events (snd (ssh_poll n t)) = events t" for n t
    using ssh_events.poll_split [of n t] by simp
  have "fst (ssh_poll m s) @ fst (ssh_poll n (snd (ssh_poll m s))) @ events (snd (ssh_poll n (snd (ssh_poll m s)))) = events s"
    by (simp only: split)
  ultimately show ?thesis
    using ssh_events.poll_out [of m s] by blast
qed

end
