(* ===== verification/Floats.thy ===== *)
theory Floats
  imports Prelude
begin

text \<open>
  Comparisons of 32-bit IEEE floats, read off their bits. A float is a \<open>u32\<close>; nothing here rounds.
\<close>

definition f32_nan :: "u32 \<Rightarrow> bool" where
  "f32_nan a = (a AND 0x7FFFFFFF > 0x7F800000)"

text \<open>\<open>a != b\<close>: a NaN differs from everything, the two zeros are equal.\<close>

definition f32_ne :: "u32 \<Rightarrow> u32 \<Rightarrow> bool" where
  "f32_ne a b = (f32_nan a \<or> f32_nan b \<or> (a \<noteq> b \<and> \<not> (a AND 0x7FFFFFFF = 0 \<and> b AND 0x7FFFFFFF = 0)))"

text \<open>The sign and magnitude of a float that is no NaN order it.\<close>

definition f32_key :: "u32 \<Rightarrow> int" where
  "f32_key a = (if a AND 0x80000000 \<noteq> 0 then - uint (a AND 0x7FFFFFFF) else uint (a AND 0x7FFFFFFF))"

definition f32_less :: "u32 \<Rightarrow> u32 \<Rightarrow> bool" where
  "f32_less a b = (\<not> f32_nan a \<and> \<not> f32_nan b \<and> f32_key a < f32_key b)"

definition f32_one :: u32 where
  "f32_one = 0x3F800000"

definition f32_minus_one :: u32 where
  "f32_minus_one = 0xBF800000"

text \<open>\<open>std::clamp\<close>: a NaN compares false with both bounds and passes.\<close>

definition f32_clamp :: "u32 \<Rightarrow> u32 \<Rightarrow> u32 \<Rightarrow> u32" where
  "f32_clamp v lo hi = (if f32_less v lo then lo else if f32_less hi v then hi else v)"

lemma f32_clamp_bounds:
  assumes "\<not> f32_less hi lo"
  shows "\<not> f32_less (f32_clamp v lo hi) lo" and "\<not> f32_less hi (f32_clamp v lo hi)"
  using assms by (auto simp: f32_clamp_def f32_less_def)

lemma unit_interval: "\<not> f32_less f32_one f32_minus_one"
  by (simp add: f32_less_def f32_key_def f32_one_def f32_minus_one_def f32_nan_def)

end
