(* ===== verification/Vector_Buffer.thy ===== *)
theory Vector_Buffer
  imports Floats "HOL-Library.Multiset"
begin

text \<open>
  The region allocator of \<open>src/src/vector_buffer.h\<close> and the write operations its clients use
  (\<open>src/src/lua_vector_buffer.cpp\<close>): one growing array of floats, handles that name regions of it,
  a free list per region size, the logical end \<open>freeFrom\<close> and one dirty interval.

  A \<open>size_t\<close> is a \<open>nat\<close> and every addition or multiplication of the code that can leave the 64-bit
  range is written with \<open>wrap\<close>. A float is its 32 bits. \<open>std::unordered_map\<close>s are association
  lists; the order in which the code would visit them is the order of the list. \<open>wild\<close> is a ghost:
  it records that an access left the storage of the vector, which is undefined behaviour in C++.
\<close>

section \<open>Sizes\<close>

definition wrap :: "nat \<Rightarrow> nat" where
  "wrap n = n mod 2 ^ 64"

lemma wrap_less [simp]: "n < 2 ^ 64 \<Longrightarrow> wrap n = n"
  by (simp add: wrap_def)

definition size_max :: nat where
  "size_max = 2 ^ 64 - 1"

text \<open>\<open>std::vector<float>::max_size()\<close>: \<open>resize\<close> beyond it throws \<open>std::length_error\<close>.\<close>

definition max_cells :: nat where
  "max_cells = 2 ^ 61 - 1"

definition length_error :: exn where
  "length_error = Foreign ''vector::_M_default_append''"

section \<open>State\<close>

record vhandle =
  v_index :: nat
  v_size :: nat

abbreviation vhandle :: "nat \<Rightarrow> nat \<Rightarrow> vhandle" where
  "vhandle i s \<equiv> \<lparr>v_index = i, v_size = s\<rparr>"

record vbuf =
  cells :: "u32 list"
  free_from :: nat
  dirty_from :: nat
  dirty_to :: nat
  freed :: "(nat \<times> vhandle list) list"
  active :: "(nat \<times> nat) list"
  wild :: bool

definition clear_dirty :: "vbuf \<Rightarrow> vbuf" where
  "clear_dirty b = b\<lparr>dirty_from := size_max, dirty_to := 0\<rparr>"

definition new_buffer :: "nat \<Rightarrow> vbuf result" where
  "new_buffer n =
    (if n \<le> max_cells
     then Inr (clear_dirty \<lparr>cells = replicate n 0, free_from = 0, dirty_from = 0, dirty_to = 0,
                            freed = [], active = [], wild = False\<rparr>)
     else Inl length_error)"

section \<open>Queries\<close>

definition used_size :: "vbuf \<Rightarrow> nat" where
  "used_size b = wrap (free_from b * 4)"

definition free_count :: "vbuf \<Rightarrow> nat" where
  "free_count b = foldl (\<lambda>n e. wrap (n + length (snd e))) 0 (freed b)"

definition free_size :: "vbuf \<Rightarrow> nat" where
  "free_size b = foldl (\<lambda>n e. wrap (n + fst e * length (snd e))) 0 (freed b)"

definition is_active :: "vhandle \<Rightarrow> vbuf \<Rightarrow> bool" where
  "is_active h b = (map_of (active b) (v_index h) = Some (v_size h))"

definition validate_handle :: "vhandle \<Rightarrow> string \<Rightarrow> vbuf \<Rightarrow> unit result" where
  "validate_handle h label b =
    (if v_size h = 0 then Inr ()
     else if v_index h > length (cells b) \<or> v_size h > length (cells b) - v_index h
     then Inl (Runtime_error (label @ '' out of bounds: invalid handle''))
     else if map_of (active b) (v_index h) \<noteq> Some (v_size h)
     then Inl (Runtime_error (label @ '' invalid handle: handle is not active''))
     else Inr ())"

text \<open>\<open>view\<close> returns a pointer into the storage: its distance from \<open>buffer.data()\<close>.\<close>

definition view :: "vhandle \<Rightarrow> vbuf \<Rightarrow> nat result" where
  "view h b = bind_result (validate_handle h ''VectorBuffer.view'' b)
    (\<lambda>_. Inr (if v_size h = 0 then 0 else v_index h))"

section \<open>The dirty interval\<close>

definition has_dirty :: "vbuf \<Rightarrow> bool" where
  "has_dirty b = (dirty_from b \<noteq> size_max \<and> dirty_to b > dirty_from b)"

definition dirty_range :: "vbuf \<Rightarrow> nat \<times> nat" where
  "dirty_range b = (if \<not> has_dirty b then (0, 0) else (dirty_from b, dirty_to b))"

definition mark_dirty :: "nat \<Rightarrow> nat \<Rightarrow> vbuf \<Rightarrow> vbuf" where
  "mark_dirty start n b =
    (if n = 0 then b
     else if start \<ge> free_from b then b
     else let e = wrap (start + n);
              e = (if e > free_from b then free_from b else e)
          in if \<not> has_dirty b then b\<lparr>dirty_from := start, dirty_to := e\<rparr>
             else let b = (if start < dirty_from b then b\<lparr>dirty_from := start\<rparr> else b)
                  in if e > dirty_to b then b\<lparr>dirty_to := e\<rparr> else b)"

definition clamp_dirty_to_length :: "vbuf \<Rightarrow> vbuf" where
  "clamp_dirty_to_length b =
    (if \<not> has_dirty b then b
     else if dirty_from b \<ge> free_from b then clear_dirty b
     else if dirty_to b > free_from b then b\<lparr>dirty_to := free_from b\<rparr>
     else b)"

section \<open>Growing, zeroing, releasing\<close>

definition fill_cells :: "nat \<Rightarrow> nat \<Rightarrow> u32 \<Rightarrow> u32 list \<Rightarrow> u32 list" where
  "fill_cells start n x xs = take start xs @ replicate n x @ drop (start + n) xs"

definition zero_region :: "nat \<Rightarrow> nat \<Rightarrow> vbuf \<Rightarrow> vbuf outcome" where
  "zero_region start n b =
    (if n = 0 then ok b
     else if start > length (cells b) \<or> n > length (cells b) - start
     then throw (Runtime_error ''VectorBuffer.zeroRegion out of bounds'') b
     else let b = mark_dirty start n b in ok (b\<lparr>cells := fill_cells start n 0 (cells b)\<rparr>))"

definition resize_buffer :: "nat \<Rightarrow> vbuf \<Rightarrow> vbuf result" where
  "resize_buffer n b =
    (if n \<le> length (cells b) then Inl (Runtime_error ''Cannot downsize buffer manually.'')
     else if n > max_cells then Inl length_error
     else Inr (b\<lparr>cells := cells b @ replicate (n - length (cells b)) 0\<rparr>))"

text \<open>
  One pass of the loop in \<open>releaseTailFreeBlocks\<close>: the first free handle that ends at \<open>freeFrom\<close> is
  removed; lists found or left empty on the way are erased.
\<close>

fun take_tail :: "nat \<Rightarrow> vhandle list \<Rightarrow> (nat \<times> vhandle list) option" where
  "take_tail ff [] = None"
| "take_tail ff (h # hs) =
    (if wrap (v_index h + v_size h) = ff then Some (v_index h, hs)
     else map_option (\<lambda>(i, hs'). (i, h # hs')) (take_tail ff hs))"

fun release_pass :: "nat \<Rightarrow> (nat \<times> vhandle list) list \<Rightarrow> nat option \<times> (nat \<times> vhandle list) list" where
  "release_pass ff [] = (None, [])"
| "release_pass ff ((k, hs) # m) =
    (case take_tail ff hs of
       Some (i, hs') \<Rightarrow> (Some i, if hs' = [] then m else (k, hs') # m)
     | None \<Rightarrow> (case release_pass ff m of
                 (r, m') \<Rightarrow> (r, if hs = [] then m' else (k, hs) # m')))"

lemma take_tail_length: "take_tail ff hs = Some (i, hs') \<Longrightarrow> length hs = Suc (length hs')"
  by (induction hs arbitrary: i hs') (auto split: if_splits)

lemma release_pass_length:
  "release_pass ff m = (Some i, m') \<Longrightarrow>
    length (concat (map snd m)) = Suc (length (concat (map snd m')))"
proof (induction m arbitrary: m')
  case (Cons e m)
  obtain k hs where e: "e = (k, hs)" by fastforce
  show ?case
  proof (cases "take_tail ff hs")
    case None
    then show ?thesis using Cons by (auto simp: e split: prod.splits if_splits)
  next
    case (Some r)
    then show ?thesis using Cons
      by (cases r) (auto simp: e split: if_splits dest: take_tail_length)
  qed
qed simp

function release_tail :: "nat \<Rightarrow> (nat \<times> vhandle list) list \<Rightarrow> nat \<times> (nat \<times> vhandle list) list" where
  "release_tail ff m =
    (case release_pass ff m of (Some i, m') \<Rightarrow> release_tail i m' | (None, m') \<Rightarrow> (ff, m'))"
  by pat_completeness auto

termination
  by (relation "measure (\<lambda>(ff, m). length (concat (map snd m)))")
    (auto dest: release_pass_length [OF sym])

declare release_tail.simps [simp del]

definition release_tail_free_blocks :: "vbuf \<Rightarrow> vbuf" where
  "release_tail_free_blocks b =
    (case release_tail (free_from b) (freed b) of (ff, m) \<Rightarrow> b\<lparr>free_from := ff, freed := m\<rparr>)"

definition release_region :: "vhandle \<Rightarrow> vbuf \<Rightarrow> vbuf outcome" where
  "release_region h b =
    (if v_size h = 0 then ok b
     else if wrap (v_index h + v_size h) = free_from b
     then ok (clamp_dirty_to_length (release_tail_free_blocks (b\<lparr>free_from := v_index h\<rparr>)))
     else and_then (zero_region (v_index h) (v_size h) b)
       (\<lambda>b. ok (b\<lparr>freed := AList.update (v_size h)
                  ((case map_of (freed b) (v_size h) of None \<Rightarrow> [] | Some hs \<Rightarrow> hs) @ [h])
                  (freed b)\<rparr>)))"

section \<open>Allocation\<close>

text \<open>When \<open>allocate\<close> throws, it has changed nothing.\<close>

definition allocate :: "nat \<Rightarrow> vbuf \<Rightarrow> (vhandle \<times> vbuf) result" where
  "allocate n b =
    (if n = 0 then Inr (vhandle (free_from b) 0, b)
     else case map_of (freed b) n of
       Some (h # hs) \<Rightarrow>
         Inr (h, b\<lparr>freed := (if hs = [] then AList.delete n (freed b) else AList.update n hs (freed b)),
                  active := AList.update (v_index h) (v_size h) (active b)\<rparr>)
     | _ \<Rightarrow>
         bind_result
           (if wrap (free_from b + n) > length (cells b)
            then resize_buffer (wrap (2 * length (cells b) + n)) b else Inr b)
           (\<lambda>b. let h = vhandle (free_from b) n
                in Inr (h, b\<lparr>free_from := wrap (free_from b + n),
                            active := AList.update (v_index h) (v_size h) (active b)\<rparr>)))"

definition delete_handle :: "vhandle \<Rightarrow> vbuf \<Rightarrow> vbuf outcome" where
  "delete_handle h b =
    (if v_size h = 0 then ok b
     else case validate_handle h ''VectorBuffer.delete'' b of
       Inl e \<Rightarrow> throw e b
     | Inr _ \<Rightarrow> release_region h (b\<lparr>active := AList.delete (v_index h) (active b)\<rparr>))"

text \<open>The handle is a reference parameter: it is part of the state the call leaves.\<close>

definition reallocate :: "vhandle \<Rightarrow> nat \<Rightarrow> vbuf \<Rightarrow> (vhandle \<times> vbuf) outcome" where
  "reallocate h n b =
    (if n = v_size h then ok (h, b)
     else case validate_handle h ''VectorBuffer.reallocate'' b of
       Inl e \<Rightarrow> throw e (h, b)
     | Inr _ \<Rightarrow>
         if n < v_size h
         then let released = vhandle (wrap (v_index h + n)) (v_size h - n);
                  b = b\<lparr>active := (if n = 0 then AList.delete (v_index h) (active b)
                                  else AList.update (v_index h) n (active b))\<rparr>
              in map_prod id (Pair (h\<lparr>v_size := n\<rparr>)) (release_region released b)
         else case delete_handle h b of
           (Some e, b) \<Rightarrow> throw e (h, b)
         | (None, b) \<Rightarrow> (case allocate n b of
              Inl e \<Rightarrow> throw e (h, b)
            | Inr (h, b) \<Rightarrow> ok (h, b)))"

text \<open>What \<open>print\<close> shows: the message for a handle out of bounds, or the cells it lists.\<close>

datatype printed =
  Print_invalid
| Print_handle nat nat "u32 list"
| Print_full nat nat "u32 list"

definition print_buffer :: "vhandle option \<Rightarrow> vbuf \<Rightarrow> printed result" where
  "print_buffer ho b =
    (case ho of
       Some h \<Rightarrow>
         if wrap (v_index h + v_size h) > length (cells b) then Inr Print_invalid
         else bind_result (view h b)
           (\<lambda>p. Inr (Print_handle (v_index h) (v_size h) (take (v_size h) (drop p (cells b)))))
     | None \<Rightarrow> Inr (Print_full (free_from b) (length (cells b)) (take (free_from b) (cells b))))"

end
