(* ===== verification/Vector_Writes.thy ===== *)
theory Vector_Writes
  imports Vector_Buffer
begin

text \<open>
  The writes the script bindings offer on a \<open>VectorBuffer\<close> (\<open>src/src/lua_vector_buffer.cpp\<close>): each
  checks its handle and the range inside it, writes through the pointer \<open>view\<close> returned and marks
  the interval it changed. A glm vector or matrix is the list of its 2, 3, 4 or 16 floats. The diff
  variants write only the cells that differ and return how many did.
\<close>

section \<open>Access through a pointer\<close>

text \<open>
  \<open>v + offset\<close> on 4-byte elements: addresses are 64 bits wide, so distances between elements are
  counted modulo \<open>2 ^ 62\<close>. An access that leaves the vector's storage sets the ghost \<open>wild\<close>.
\<close>

definition elem :: "nat \<Rightarrow> nat \<Rightarrow> nat" where
  "elem p off = (p + off) mod 2 ^ 62"

definition touch :: "nat \<Rightarrow> vbuf \<Rightarrow> vbuf" where
  "touch p b = (if p < length (cells b) then b else b\<lparr>wild := True\<rparr>)"

definition store :: "nat \<Rightarrow> u32 \<Rightarrow> vbuf \<Rightarrow> vbuf" where
  "store p x b = (touch p b)\<lparr>cells := (cells b)[p := x]\<rparr>"

definition peek :: "nat \<Rightarrow> vbuf \<Rightarrow> u32" where
  "peek p b = (if p < length (cells b) then cells b ! p else 0)"

fun store_all :: "nat \<Rightarrow> nat \<Rightarrow> u32 list \<Rightarrow> vbuf \<Rightarrow> vbuf" where
  "store_all p off [] b = b"
| "store_all p off (x # xs) b = store_all p (off + 1) xs (store (elem p off) x b)"

section \<open>Checks\<close>

definition validate_handle_range :: "vhandle \<Rightarrow> nat \<Rightarrow> nat \<Rightarrow> string \<Rightarrow> vbuf \<Rightarrow> unit result" where
  "validate_handle_range h off cnt label b =
    (if v_size h = 0 then Inl (Runtime_error (label @ '' requires a non-empty handle''))
     else if wrap (off + cnt) > v_size h
     then Inl (Runtime_error (label @ '' out of bounds: offset exceeds handle size''))
     else validate_handle h label b)"

text \<open>The pointer a write goes through: the range check, then \<open>view\<close>.\<close>

definition with_view :: "unit result \<Rightarrow> vhandle \<Rightarrow> vbuf \<Rightarrow> (nat \<Rightarrow> vbuf outcome) \<Rightarrow> vbuf outcome" where
  "with_view check h b f =
    (case bind_result check (\<lambda>_. view h b) of Inl e \<Rightarrow> throw e b | Inr p \<Rightarrow> f p)"

definition lua_view :: "vhandle \<Rightarrow> vbuf \<Rightarrow> u32 list result" where
  "lua_view h b =
    bind_result (validate_handle_range h 0 1 ''VectorBuffer.view'' b) (\<lambda>_.
    bind_result (view h b) (\<lambda>p. Inr (take (v_size h) (drop p (cells b)))))"

definition lua_view_ptr :: "vhandle \<Rightarrow> vbuf \<Rightarrow> nat result" where
  "lua_view_ptr h b =
    bind_result (validate_handle h ''VectorBuffer.view-ptr'' b) (\<lambda>_.
      if v_size h = 0 then Inl (Runtime_error ''VectorBuffer.view-ptr requires a non-empty handle'')
      else view h b)"

section \<open>Whole writes\<close>

definition set_block :: "string \<Rightarrow> nat \<Rightarrow> vhandle \<Rightarrow> nat \<Rightarrow> u32 list \<Rightarrow> vbuf \<Rightarrow> vbuf outcome" where
  "set_block label n h off xs b =
    with_view (validate_handle_range h off n label b) h b
      (\<lambda>p. ok (mark_dirty (wrap (v_index h + off)) n (store_all p off xs b)))"

definition set_glm_vec4 :: "vhandle \<Rightarrow> nat \<Rightarrow> u32 list \<Rightarrow> vbuf \<Rightarrow> vbuf outcome" where
  "set_glm_vec4 = set_block ''VectorBuffer.set-glm-vec4'' 4"

definition set_glm_vec3 :: "vhandle \<Rightarrow> nat \<Rightarrow> u32 list \<Rightarrow> vbuf \<Rightarrow> vbuf outcome" where
  "set_glm_vec3 = set_block ''VectorBuffer.set-glm-vec3'' 3"

definition set_glm_vec2 :: "vhandle \<Rightarrow> nat \<Rightarrow> u32 list \<Rightarrow> vbuf \<Rightarrow> vbuf outcome" where
  "set_glm_vec2 = set_block ''VectorBuffer.set-glm-vec2'' 2"

definition set_glm_mat4 :: "vhandle \<Rightarrow> nat \<Rightarrow> u32 list \<Rightarrow> vbuf \<Rightarrow> vbuf outcome" where
  "set_glm_mat4 = set_block ''VectorBuffer.set-glm-mat4'' 16"

definition set_float :: "vhandle \<Rightarrow> nat \<Rightarrow> u32 \<Rightarrow> vbuf \<Rightarrow> vbuf outcome" where
  "set_float h off x = set_block ''VectorBuffer.set-float'' 1 h off [x]"

text \<open>The bytes of a float on the little-endian targets of the program.\<close>

fun floats_of_bytes :: "byte list \<Rightarrow> u32 list" where
  "floats_of_bytes (a # b # c # d # bs) = (word_rcat [d, c, b, a] :: u32) # floats_of_bytes bs"
| "floats_of_bytes _ = []"

definition set_floats_from_bytes :: "vhandle \<Rightarrow> nat \<Rightarrow> byte list \<Rightarrow> vbuf \<Rightarrow> vbuf outcome" where
  "set_floats_from_bytes h off bytes b =
    (if bytes = [] then ok b
     else if length bytes mod 4 \<noteq> 0
     then throw (Runtime_error ''VectorBuffer.set-floats-from-bytes requires float-aligned byte size'') b
     else let float_count = length bytes div 4 in
       if wrap (off + float_count) > v_size h
       then throw (Runtime_error ''VectorBuffer.set-floats-from-bytes exceeds handle size'') b
       else with_view (validate_handle h ''VectorBuffer.set-floats-from-bytes'' b) h b
         (\<lambda>p. ok (mark_dirty (wrap (v_index h + off)) float_count
                    (store_all p off (floats_of_bytes bytes) b))))"

section \<open>Writes of what differs\<close>

fun diff_loop :: "vhandle \<Rightarrow> nat \<Rightarrow> nat \<Rightarrow> nat \<Rightarrow> u32 list \<Rightarrow> nat \<times> vbuf \<Rightarrow> nat \<times> vbuf" where
  "diff_loop h p off i [] (c, b) = (c, b)"
| "diff_loop h p off i (x # xs) (c, b) =
    (let a = elem p (off + i); b = touch a b
     in if f32_ne (peek a b) x
        then diff_loop h p off (i + 1) xs
               (c + 1, mark_dirty (wrap (v_index h + off + i)) 1 (store a x b))
        else diff_loop h p off (i + 1) xs (c, b))"

text \<open>The call returns the number of changed cells beside the buffer.\<close>

definition set_block_diff ::
  "string \<Rightarrow> nat \<Rightarrow> vhandle \<Rightarrow> nat \<Rightarrow> u32 list \<Rightarrow> nat \<times> vbuf \<Rightarrow> (nat \<times> vbuf) outcome" where
  "set_block_diff label n h off xs cb =
    (case bind_result (validate_handle_range h off n label (snd cb)) (\<lambda>_. view h (snd cb)) of
       Inl e \<Rightarrow> throw e cb
     | Inr p \<Rightarrow> ok (diff_loop h p off 0 xs cb))"

definition set_glm_mat4_diff :: "vhandle \<Rightarrow> nat \<Rightarrow> u32 list \<Rightarrow> vbuf \<Rightarrow> (nat \<times> vbuf) outcome" where
  "set_glm_mat4_diff h off m b = set_block_diff ''VectorBuffer.set-glm-mat4-diff'' 16 h off m (0, b)"

definition set_floats_diff :: "vhandle \<Rightarrow> nat \<Rightarrow> u32 list \<Rightarrow> vbuf \<Rightarrow> (nat \<times> vbuf) outcome" where
  "set_floats_diff h off xs b =
    (if xs = [] then ok (0, b)
     else set_block_diff ''VectorBuffer.set-floats-diff'' (length xs) h off xs (0, b))"

definition set_float_fill_diff :: "vhandle \<Rightarrow> nat \<Rightarrow> nat \<Rightarrow> u32 \<Rightarrow> vbuf \<Rightarrow> (nat \<times> vbuf) outcome" where
  "set_float_fill_diff h off cnt x b =
    (if cnt = 0 then ok (0, b)
     else set_block_diff ''VectorBuffer.set-float-fill-diff'' cnt h off (replicate cnt x) (0, b))"

section \<open>Batches\<close>

definition set_glm_mat4_batch :: "vhandle list \<Rightarrow> nat \<Rightarrow> u32 list list \<Rightarrow> vbuf \<Rightarrow> vbuf outcome" where
  "set_glm_mat4_batch hs off mats b =
    (if hs = [] then ok b
     else if length hs \<noteq> length mats
     then throw (Runtime_error ''VectorBuffer.set-glm-mat4-batch requires equal handle and matrix counts'') b
     else run_all (\<lambda>(h, m). set_block ''VectorBuffer.set-glm-mat4-batch'' 16 h off m) (zip hs mats) b)"

definition set_glm_mat4_diff_batch ::
  "vhandle list \<Rightarrow> nat \<Rightarrow> u32 list list \<Rightarrow> vbuf \<Rightarrow> (nat \<times> vbuf) outcome" where
  "set_glm_mat4_diff_batch hs off mats b =
    (if hs = [] then ok (0, b)
     else if length hs \<noteq> length mats
     then throw (Runtime_error ''VectorBuffer.set-glm-mat4-diff-batch requires equal handle and matrix counts'') (0, b)
     else run_all (\<lambda>(h, m). set_block_diff ''VectorBuffer.set-glm-mat4-diff-batch'' 16 h off m)
            (zip hs mats) (0, b))"

text \<open>
  Each handle of the batch takes its \<open>stride\<close> values from the value list; reading past the end of
  that list is an access outside a vector's storage as well.
\<close>

definition batch_slice :: "nat \<Rightarrow> nat \<Rightarrow> u32 list \<Rightarrow> u32 list" where
  "batch_slice i stride xs = take stride (drop (wrap (i * stride)) xs)"

definition set_floats_batch ::
  "vhandle list \<Rightarrow> nat \<Rightarrow> u32 list \<Rightarrow> nat \<Rightarrow> vbuf \<Rightarrow> vbuf outcome" where
  "set_floats_batch hs off xs stride b =
    (if stride = 0
     then throw (Runtime_error ''VectorBuffer.set-floats-batch requires a non-zero stride'') b
     else if hs = [] then ok b
     else if length xs < wrap (length hs * stride)
     then throw (Runtime_error ''VectorBuffer.set-floats-batch missing values for handles'') b
     else run_all (\<lambda>(i, h) b.
            with_view (validate_handle_range h off stride ''VectorBuffer.set-floats-batch'' b) h b
              (\<lambda>p. let src = batch_slice i stride xs;
                       b = (if length src < stride then b\<lparr>wild := True\<rparr> else b)
                   in ok (mark_dirty (wrap (v_index h + off)) stride (store_all p off src b))))
          (zip [0..<length hs] hs) b)"

end
