(* ===== verification/Vector_Safety.thy ===== *)
theory Vector_Safety
  imports Vector_Writes
begin

text \<open>
  The invariant of the region allocator: the active and the free regions tile the array up to the
  logical end, no free region reaches that end, free regions hold zeros, the dirty interval stays
  below the end, and no access has left the storage.
\<close>

section \<open>Tilings\<close>

definition covers :: "nat \<Rightarrow> nat \<times> nat \<Rightarrow> bool" where
  "covers p blk = (fst blk \<le> p \<and> p < fst blk + snd blk)"

definition tiles :: "(nat \<times> nat) multiset \<Rightarrow> nat \<Rightarrow> bool" where
  "tiles bs n = (\<forall>p. size (filter_mset (covers p) bs) = (if p < n then 1 else 0))"

lemma covers_pair [simp]: "covers p (i, s) \<longleftrightarrow> i \<le> p \<and> p < i + s"
  by (simp add: covers_def)

lemma tiles_bound:
  assumes "tiles bs n" and "(i, s) \<in># bs" and "0 < s"
  shows "i + s \<le> n"
proof -
  have "(i, s) \<in># filter_mset (covers (i + s - 1)) bs" using assms by auto
  then have "0 < size (filter_mset (covers (i + s - 1)) bs)" by (metis empty_iff gr0I set_mset_empty size_eq_0_iff_empty)
  then have "i + s - 1 < n" using assms(1) by (auto simp: tiles_def split: if_splits)
  then show ?thesis using assms(3) by linarith
qed

lemma tiles_disjoint:
  assumes "tiles (add_mset x (add_mset y bs)) n"
  shows "\<not> (covers p x \<and> covers p y)"
proof
  assume c: "covers p x \<and> covers p y"
  have "size (filter_mset (covers p) (add_mset x (add_mset y bs))) \<le> 1"
    using assms by (simp add: tiles_def del: filter_mset_add_mset)
  with c show False by simp
qed

lemma tiles_disjoint_in:
  assumes "tiles (add_mset x bs) n" and "y \<in># bs"
  shows "\<not> (covers p x \<and> covers p y)"
  using assms tiles_disjoint [of x y "bs - {#y#}" n p] by simp

lemma tiles_empty [simp]: "tiles {#} n \<longleftrightarrow> n = 0"
  by (auto simp: tiles_def intro: gr0I)

lemma tiles_push:
  assumes "tiles bs n"
  shows "tiles (add_mset (n, s) bs) (n + s)"
  using assms by (auto simp: tiles_def)

lemma tiles_pop:
  assumes t: "tiles (add_mset (i, s) bs) n" and e: "i + s = n"
  shows "tiles bs i"
proof (unfold tiles_def, intro allI)
  fix p
  have "size (filter_mset (covers p) (add_mset (i, s) bs)) = (if p < n then 1 else 0)"
    using t unfolding tiles_def by blast
  then show "size (filter_mset (covers p) bs) = (if p < i then 1 else 0)"
    using e by (auto split: if_splits)
qed

lemma tiles_cut:
  assumes t: "tiles (add_mset (i, s) bs) n" and k: "k \<le> s"
  shows "tiles (add_mset (i + k, s - k) (add_mset (i, k) bs)) n"
proof (unfold tiles_def, intro allI)
  fix p
  have "size (filter_mset (covers p) (add_mset (i, s) bs)) = (if p < n then 1 else 0)"
    using t unfolding tiles_def by blast
  then show "size (filter_mset (covers p) (add_mset (i + k, s - k) (add_mset (i, k) bs))) =
      (if p < n then 1 else 0)"
    using k by (auto split: if_splits)
qed

lemma tiles_zero:
  assumes "tiles (add_mset (i, 0) bs) n"
  shows "tiles bs n"
proof (unfold tiles_def, intro allI)
  fix p
  have "size (filter_mset (covers p) (add_mset (i, 0) bs)) = (if p < n then 1 else 0)"
    using assms unfolding tiles_def by blast
  then show "size (filter_mset (covers p) bs) = (if p < n then 1 else 0)"
    by (auto split: if_splits)
qed

lemma tiles_nonempty:
  assumes "tiles bs n" and "0 < n"
  obtains i s where "(i, s) \<in># bs" and "i + s = n"
proof -
  have "size (filter_mset (covers (n - 1)) bs) = Suc 0" using assms by (simp add: tiles_def)
  then obtain x where "x \<in># filter_mset (covers (n - 1)) bs" by (blast dest: size_eq_Suc_imp_elem)
  then obtain i s where x: "(i, s) \<in># bs" "i \<le> n - 1" "n - 1 < i + s" by (cases x) auto
  then have "i + s \<le> n" using tiles_bound [OF assms(1) x(1)] by linarith
  with x assms(2) have "i + s = n" by linarith
  with x(1) show thesis by (rule that)
qed

section \<open>Blocks of a state\<close>

definition handle_block :: "vhandle \<Rightarrow> nat \<times> nat" where
  "handle_block h = (v_index h, v_size h)"

definition free_blocks :: "(nat \<times> vhandle list) list \<Rightarrow> (nat \<times> nat) multiset" where
  "free_blocks m = mset (map handle_block (concat (map snd m)))"

lemma free_blocks_simps [simp]:
  "free_blocks [] = {#}"
  "free_blocks ((k, hs) # m) = mset (map handle_block hs) + free_blocks m"
  by (simp_all add: free_blocks_def)

lemma delete_absent: "k \<notin> fst ` set al \<Longrightarrow> AList.delete k al = al"
  by (induction al) (auto simp: AList.delete_eq)

lemma mset_delete_pair:
  assumes "distinct (map fst al)" and "map_of al k = Some v"
  shows "mset al = add_mset (k, v) (mset (AList.delete k al))"
  using assms
proof (induction al)
  case (Cons x al)
  show ?case
  proof (cases "fst x = k")
    case True
    then have "AList.delete k al = al" using Cons.prems(1) by (auto intro: delete_absent)
    with True Cons.prems(2) show ?thesis by (cases x) simp
  next
    case False
    with Cons show ?thesis by (cases x) (auto simp: AList.delete_eq)
  qed
qed simp

lemma mset_update_new:
  assumes "map_of al k = None"
  shows "mset (AList.update k v al) = add_mset (k, v) (mset al)"
  using assms by (induction al) (auto split: if_splits)

lemma mset_update_old:
  assumes "distinct (map fst al)" and "map_of al k = Some w"
  shows "add_mset (k, w) (mset (AList.update k v al)) = add_mset (k, v) (mset al)"
  using assms by (induction al) (auto split: if_splits)

lemma free_blocks_delete:
  assumes "distinct (map fst m)" and "map_of m k = Some hs"
  shows "free_blocks m = mset (map handle_block hs) + free_blocks (AList.delete k m)"
  using assms
proof (induction m)
  case (Cons x m)
  show ?case
  proof (cases "fst x = k")
    case True
    then have "AList.delete k m = m" using Cons.prems(1) by (auto intro: delete_absent)
    with True Cons.prems(2) show ?thesis by (cases x) simp
  next
    case False
    with Cons show ?thesis by (cases x) (auto simp: AList.delete_eq)
  qed
qed simp

lemma free_blocks_update:
  assumes "distinct (map fst m)"
  shows "mset (map handle_block (case map_of m k of None \<Rightarrow> [] | Some hs \<Rightarrow> hs)) +
      free_blocks (AList.update k hs' m) = mset (map handle_block hs') + free_blocks m"
  using assms
proof (induction m)
  case (Cons x m)
  show ?case
  proof (cases "fst x = k")
    case True
    with Cons.prems show ?thesis by (cases x) (simp add: ac_simps)
  next
    case False
    then have "free_blocks (AList.update k hs' (x # m)) =
        mset (map handle_block (snd x)) + free_blocks (AList.update k hs' m)"
      by (cases x) simp
    moreover have "free_blocks (x # m) = mset (map handle_block (snd x)) + free_blocks m"
      by (cases x) simp
    ultimately show ?thesis using False Cons by (simp add: ac_simps)
  qed
qed simp

definition tables :: "(nat \<times> vhandle list) list \<Rightarrow> bool" where
  "tables m = (distinct (map fst m) \<and>
    (\<forall>(k, hs) \<in> set m. hs \<noteq> [] \<and> (\<forall>h \<in> set hs. v_size h = k)))"

lemma tables_Nil [simp]: "tables []"
  by (simp add: tables_def)

lemma tables_find: "tables m \<Longrightarrow> map_of m k = Some hs \<Longrightarrow> hs \<noteq> [] \<and> (\<forall>h \<in> set hs. v_size h = k)"
  by (auto simp: tables_def dest!: map_of_SomeD)

lemma set_update_subset: "set (AList.update k v al) \<subseteq> insert (k, v) (set al)"
  by (induction al) auto

lemma set_delete_subset: "set (AList.delete k al) \<subseteq> set al"
  by (auto simp: AList.delete_eq)

lemma tables_update:
  "tables m \<Longrightarrow> hs \<noteq> [] \<Longrightarrow> \<forall>h \<in> set hs. v_size h = k \<Longrightarrow> tables (AList.update k hs m)"
  using set_update_subset [of k hs m] by (fastforce simp: tables_def distinct_update)

lemma tables_delete: "tables m \<Longrightarrow> tables (AList.delete k m)"
  using set_delete_subset [of k m] by (fastforce simp: tables_def distinct_delete)

lemma take_tail_Some:
  "take_tail ff hs = Some (i, hs') \<Longrightarrow>
    \<exists>h. wrap (v_index h + v_size h) = ff \<and> i = v_index h \<and> mset hs = add_mset h (mset hs')"
  by (induction hs arbitrary: i hs') (fastforce split: if_splits)+

lemma take_tail_None:
  "take_tail ff hs = None \<Longrightarrow> h \<in> set hs \<Longrightarrow> wrap (v_index h + v_size h) \<noteq> ff"
  by (induction hs) (auto split: if_splits)

lemma release_pass_None:
  "release_pass ff m = (None, m') \<Longrightarrow>
    free_blocks m' = free_blocks m \<and> (\<forall>blk \<in># free_blocks m. wrap (fst blk + snd blk) \<noteq> ff)"
proof (induction m arbitrary: m')
  case (Cons e m)
  obtain k hs where e: "e = (k, hs)" by fastforce
  from Cons.prems obtain m'' where tt: "take_tail ff hs = None" and r: "release_pass ff m = (None, m'')"
    and m': "m' = (if hs = [] then m'' else (k, hs) # m'')"
    by (auto simp: e split: option.splits prod.splits)
  have "\<forall>h \<in> set hs. wrap (v_index h + v_size h) \<noteq> ff" using take_tail_None [OF tt] by blast
  then show ?case using Cons.IH [OF r] m' by (auto simp: e handle_block_def)
qed simp

lemma release_pass_Some:
  "release_pass ff m = (Some i, m') \<Longrightarrow>
    \<exists>s. wrap (i + s) = ff \<and> free_blocks m = add_mset (i, s) (free_blocks m')"
proof (induction m arbitrary: m')
  case (Cons e m)
  obtain k hs where e: "e = (k, hs)" by fastforce
  show ?case
  proof (cases "take_tail ff hs")
    case None
    then obtain m'' where r: "release_pass ff m = (Some i, m'')"
      and m': "m' = (if hs = [] then m'' else (k, hs) # m'')"
      using Cons.prems by (auto simp: e split: prod.splits)
    from Cons.IH [OF r] m' show ?thesis by (auto simp: e)
  next
    case (Some r)
    then obtain hs' where tt: "take_tail ff hs = Some (i, hs')"
      and m': "m' = (if hs' = [] then m else (k, hs') # m)"
      using Cons.prems by (cases r) (auto simp: e)
    from take_tail_Some [OF tt] obtain h where "wrap (v_index h + v_size h) = ff" "i = v_index h"
      "mset hs = add_mset h (mset hs')" by blast
    with m' show ?thesis by (intro exI [of _ "v_size h"]) (auto simp: e handle_block_def)
  qed
qed simp

lemma take_tail_set: "take_tail ff hs = Some (i, hs') \<Longrightarrow> set hs' \<subseteq> set hs"
  by (induction hs arbitrary: i hs') (fastforce split: if_splits)+

lemma release_pass_keys: "fst ` set (snd (release_pass ff m)) \<subseteq> fst ` set m"
proof (induction m)
  case (Cons e m)
  obtain r m' where r: "release_pass ff m = (r, m')" by fastforce
  show ?case using Cons r by (cases e) (auto split: option.splits)
qed simp

lemma release_pass_tables: "tables m \<Longrightarrow> tables (snd (release_pass ff m))"
proof (induction m)
  case (Cons e m)
  obtain k hs where e: "e = (k, hs)" by fastforce
  have tm: "tables m" and k: "k \<notin> fst ` set m" and hs: "\<forall>h \<in> set hs. v_size h = k"
    using Cons.prems by (auto simp: tables_def e)
  obtain r m' where r: "release_pass ff m = (r, m')" by fastforce
  have keys: "k \<notin> fst ` set m'" using release_pass_keys [of ff m] k r by auto
  have IH: "tables m'" using Cons.IH [OF tm] r by simp
  show ?case
    using IH tm k hs keys r by (fastforce simp: e tables_def split: option.splits dest: take_tail_set)
qed simp

section \<open>Releasing at the tail\<close>

definition trimmed :: "nat \<Rightarrow> (nat \<times> vhandle list) list \<Rightarrow> bool" where
  "trimmed n m = (\<forall>blk \<in># free_blocks m. fst blk + snd blk \<noteq> n)"

definition sized :: "(nat \<times> nat) multiset \<Rightarrow> bool" where
  "sized bs = (\<forall>blk \<in># bs. 0 < snd blk)"

lemma sized_simps [simp]:
  "sized {#}"
  "sized (add_mset x bs) \<longleftrightarrow> 0 < snd x \<and> sized bs"
  "sized (bs + cs) \<longleftrightarrow> sized bs \<and> sized cs"
  by (auto simp: sized_def)

lemma tiles_end:
  assumes "tiles bs n" and "sized bs" and "n \<le> max_cells" and "blk \<in># bs"
  shows "fst blk + snd blk \<le> n" and "wrap (fst blk + snd blk) = fst blk + snd blk"
proof -
  show le: "fst blk + snd blk \<le> n"
    using tiles_bound [of bs n "fst blk" "snd blk"] assms by (auto simp: sized_def)
  show "wrap (fst blk + snd blk) = fst blk + snd blk"
    using le assms(3) by (intro wrap_less) (simp add: max_cells_def)
qed

lemma release_tail_spec:
  assumes "release_tail ff m = (ff', m')" and "tiles (A + free_blocks m) ff" and "sized (A + free_blocks m)"
    and "ff \<le> max_cells" and "tables m"
  shows "tiles (A + free_blocks m') ff' \<and> ff' \<le> ff \<and> tables m' \<and> trimmed ff' m' \<and>
    free_blocks m' \<subseteq># free_blocks m"
  using assms
proof (induction ff m arbitrary: ff' m' rule: release_tail.induct)
  case (1 ff m)
  obtain r m1 where r: "release_pass ff m = (r, m1)" by fastforce
  have tm1: "tables m1" using release_pass_tables [OF "1.prems"(5), of ff] r by simp
  show ?case
  proof (cases r)
    case None
    with r "1.prems"(1) have eq: "ff' = ff" "m' = m1" by (simp_all add: release_tail.simps [of ff m])
    from release_pass_None [of ff m m1] r None
    have fb: "free_blocks m1 = free_blocks m" and no: "\<forall>blk \<in># free_blocks m. wrap (fst blk + snd blk) \<noteq> ff"
      by simp_all
    have "\<forall>blk \<in># free_blocks m. fst blk + snd blk \<noteq> ff"
      using no tiles_end(2) [OF "1.prems"(2,3,4)] by fastforce
    then show ?thesis using "1.prems" eq fb tm1 by (simp add: trimmed_def)
  next
    case (Some i)
    with r have p: "release_pass ff m = (Some i, m1)" by simp
    from release_pass_Some [OF p] obtain s where s: "wrap (i + s) = ff"
      and fb: "free_blocks m = add_mset (i, s) (free_blocks m1)" by blast
    have e: "i + s = ff" using s tiles_end(2) [OF "1.prems"(2,3,4), of "(i, s)"] fb by simp
    have t: "tiles (A + free_blocks m1) i"
      using "1.prems"(2) fb e by (intro tiles_pop [of i s]) simp_all
    have z: "sized (A + free_blocks m1)" using "1.prems"(3) fb by simp
    have rec: "release_tail i m1 = (ff', m')" using "1.prems"(1) p by (simp add: release_tail.simps [of ff m])
    have le: "i \<le> max_cells" using e "1.prems"(4) by simp
    from "1.IH" [OF p [symmetric] refl rec t z le tm1] e fb show ?thesis
      by (auto intro: subset_mset.order_trans)
  qed
qed

section \<open>The invariant\<close>

definition blocks :: "vbuf \<Rightarrow> (nat \<times> nat) multiset" where
  "blocks b = mset (active b) + free_blocks (freed b)"

text \<open>
  \<open>held b xs\<close>: the invariant while the regions \<open>xs\<close> are in the hands of an operation, neither active
  nor free. Between operations nothing is.
\<close>

definition held :: "vbuf \<Rightarrow> (nat \<times> nat) multiset \<Rightarrow> bool" where
  "held b xs =
    (free_from b \<le> length (cells b) \<and> length (cells b) \<le> max_cells \<and>
     tiles (xs + blocks b) (free_from b) \<and> sized (xs + blocks b) \<and>
     distinct (map fst (active b)) \<and> tables (freed b) \<and> trimmed (free_from b) (freed b) \<and>
     (has_dirty b \<longrightarrow> dirty_to b \<le> free_from b) \<and>
     (\<forall>blk \<in># free_blocks (freed b). \<forall>p. covers p blk \<longrightarrow> cells b ! p = 0) \<and>
     \<not> wild b)"

definition vb_inv :: "vbuf \<Rightarrow> bool" where
  [inv_defs]: "vb_inv b = held b {#}"

lemma heldD:
  assumes "held b xs"
  shows "free_from b \<le> length (cells b)" "length (cells b) \<le> max_cells"
    "tiles (xs + blocks b) (free_from b)" "sized (xs + blocks b)"
    "distinct (map fst (active b))" "tables (freed b)" "trimmed (free_from b) (freed b)"
    "has_dirty b \<Longrightarrow> dirty_to b \<le> free_from b"
    "blk \<in># free_blocks (freed b) \<Longrightarrow> covers p blk \<Longrightarrow> cells b ! p = 0"
    "\<not> wild b"
  using assms by (auto simp: held_def)

lemma heldI:
  assumes "free_from b \<le> length (cells b)" "length (cells b) \<le> max_cells"
    "tiles (xs + blocks b) (free_from b)" "sized (xs + blocks b)"
    "distinct (map fst (active b))" "tables (freed b)" "trimmed (free_from b) (freed b)"
    "has_dirty b \<Longrightarrow> dirty_to b \<le> free_from b"
    "\<And>blk p. blk \<in># free_blocks (freed b) \<Longrightarrow> covers p blk \<Longrightarrow> cells b ! p = 0"
    "\<not> wild b"
  shows "held b xs"
  using assms by (auto simp: held_def)

lemma held_bound:
  assumes "held b xs" and "blk \<in># xs + blocks b"
  shows "fst blk + snd blk \<le> free_from b" and "wrap (fst blk + snd blk) = fst blk + snd blk"
proof -
  have "free_from b \<le> max_cells" using heldD(1,2) [OF assms(1)] by simp
  then show "fst blk + snd blk \<le> free_from b" "wrap (fst blk + snd blk) = fst blk + snd blk"
    using tiles_end [OF heldD(3,4) [OF assms(1)]] assms(2) by blast+
qed

section \<open>Dirty interval, zeroing, releasing\<close>

lemma mark_dirty_frame [simp]:
  "cells (mark_dirty i n b) = cells b" "free_from (mark_dirty i n b) = free_from b"
  "freed (mark_dirty i n b) = freed b" "active (mark_dirty i n b) = active b"
  "wild (mark_dirty i n b) = wild b"
  by (simp_all add: mark_dirty_def Let_def)

lemma mark_dirty_bound:
  assumes "has_dirty b \<longrightarrow> dirty_to b \<le> free_from b"
  shows "has_dirty (mark_dirty i n b) \<longrightarrow> dirty_to (mark_dirty i n b) \<le> free_from b"
  using assms by (auto simp: mark_dirty_def Let_def has_dirty_def)

lemma clear_dirty_frame [simp]:
  "cells (clear_dirty b) = cells b" "free_from (clear_dirty b) = free_from b"
  "freed (clear_dirty b) = freed b" "active (clear_dirty b) = active b"
  "wild (clear_dirty b) = wild b" "\<not> has_dirty (clear_dirty b)"
  by (simp_all add: clear_dirty_def has_dirty_def)

lemma clamp_frame [simp]:
  "cells (clamp_dirty_to_length b) = cells b" "free_from (clamp_dirty_to_length b) = free_from b"
  "freed (clamp_dirty_to_length b) = freed b" "active (clamp_dirty_to_length b) = active b"
  "wild (clamp_dirty_to_length b) = wild b"
  by (simp_all add: clamp_dirty_to_length_def)

lemma clamp_bound: "has_dirty (clamp_dirty_to_length b) \<Longrightarrow> dirty_to (clamp_dirty_to_length b) \<le> free_from b"
  by (auto simp: clamp_dirty_to_length_def has_dirty_def clear_dirty_def split: if_splits)

lemma fill_cells_length: "start + n \<le> length xs \<Longrightarrow> length (fill_cells start n x xs) = length xs"
  by (simp add: fill_cells_def)

lemma fill_cells_nth:
  assumes "start + n \<le> length xs" and "p < length xs"
  shows "fill_cells start n x xs ! p = (if start \<le> p \<and> p < start + n then x else xs ! p)"
  using assms by (auto simp: fill_cells_def nth_append)

text \<open>The region itself may be anything the operation holds; the buffer gets it back.\<close>

lemma release_region_held:
  assumes h: "held b (add_mset (handle_block h) xs)" and s: "0 < v_size h" and xs: "xs = {#}"
  obtains b' where "release_region h b = ok b'" and "held b' xs" and "active b' = active b"
    and "length (cells b') = length (cells b)"
    and "\<And>p. p < length (cells b) \<Longrightarrow> \<not> covers p (handle_block h) \<Longrightarrow> cells b' ! p = cells b ! p"
    and "free_from b' \<le> free_from b"
proof -
  define i n where "i = v_index h" and "n = v_size h"
  have n0: "0 < n" using s by (simp add: n_def)
  have hb: "handle_block h = (i, n)" by (simp add: handle_block_def i_def n_def)
  have bound: "i + n \<le> free_from b" and nowrap: "wrap (i + n) = i + n"
    using held_bound [OF h, of "(i, n)"] by (simp_all add: hb)
  have t: "tiles (add_mset (i, n) (xs + blocks b)) (free_from b)" using heldD(3) [OF h] by (simp add: hb)
  have z: "sized (xs + blocks b)" using heldD(4) [OF h] by simp
  show thesis
  proof (cases "i + n = free_from b")
    case True
    define b1 where "b1 = b\<lparr>free_from := i\<rparr>"
    obtain ff m where rt: "release_tail i (freed b) = (ff, m)" by fastforce
    have t1: "tiles (mset (active b) + free_blocks (freed b)) i"
      using tiles_pop [OF t True] by (simp add: xs blocks_def)
    have z1: "sized (mset (active b) + free_blocks (freed b))" using z by (simp add: xs blocks_def)
    have le: "i \<le> max_cells" using bound heldD(1,2) [OF h] by linarith
    from release_tail_spec [OF rt t1 z1 le heldD(6) [OF h]]
    have spec: "tiles (mset (active b) + free_blocks m) ff" "ff \<le> i" "tables m" "trimmed ff m"
      "free_blocks m \<subseteq># free_blocks (freed b)" by simp_all
    define b2 where "b2 = b1\<lparr>free_from := ff, freed := m\<rparr>"
    have b2 [simp]: "cells b2 = cells b" "free_from b2 = ff" "freed b2 = m" "active b2 = active b"
      "wild b2 = wild b" by (simp_all add: b2_def b1_def)
    have eq: "release_region h b = ok (clamp_dirty_to_length b2)"
      using s nowrap True rt
      by (simp add: release_region_def release_tail_free_blocks_def b1_def b2_def i_def n_def)
    have sz: "sized (free_blocks m)" using z1 spec(5) by (auto simp: sized_def dest: mset_subset_eqD)
    show thesis
    proof (rule that [OF eq])
      show "held (clamp_dirty_to_length b2) xs"
        using spec h z1 sz bound clamp_bound [of b2]
        by (intro heldI) (auto simp: xs blocks_def dest: heldD mset_subset_eqD)
    qed (use spec(2) bound in simp_all)
  next
    case False
    have len: "i + n \<le> length (cells b)" using bound heldD(1) [OF h] by linarith
    define hs where "hs = (case map_of (freed b) n of None \<Rightarrow> [] | Some hs \<Rightarrow> hs)"
    define b1 where "b1 = (mark_dirty i n b)\<lparr>cells := fill_cells i n 0 (cells b)\<rparr>"
    define b2 where "b2 = b1\<lparr>freed := AList.update n (hs @ [h]) (freed b)\<rparr>"
    have b1 [simp]: "free_from b1 = free_from b" "freed b1 = freed b" "active b1 = active b"
      "wild b1 = wild b" "cells b1 = fill_cells i n 0 (cells b)" by (simp_all add: b1_def)
    have b2 [simp]: "free_from b2 = free_from b" "freed b2 = AList.update n (hs @ [h]) (freed b)"
      "active b2 = active b" "wild b2 = wild b" "cells b2 = fill_cells i n 0 (cells b)"
      "has_dirty b2 = has_dirty b1" "dirty_to b2 = dirty_to b1"
      by (simp_all add: b2_def has_dirty_def)
    have zr: "zero_region i n b = ok b1"
    proof -
      have "\<not> (i > length (cells b) \<or> n > length (cells b) - i)" using len by linarith
      with s show ?thesis by (simp add: zero_region_def n_def b1_def Let_def)
    qed
    have eq: "release_region h b = ok b2"
      using s nowrap False zr
      by (simp add: release_region_def i_def n_def b2_def hs_def split: option.splits)
    have fb: "free_blocks (AList.update n (hs @ [h]) (freed b)) = add_mset (i, n) (free_blocks (freed b))"
      using free_blocks_update [of "freed b" n "hs @ [h]"] heldD(6) [OF h]
      by (simp add: hs_def tables_def hb)
    have tab: "tables (freed b2)"
      using tables_find [OF heldD(6) [OF h], of n] heldD(6) [OF h]
      by (auto simp: hs_def n_def intro!: tables_update split: option.splits)
    have dirty: "has_dirty b1 \<longrightarrow> dirty_to b1 \<le> free_from b"
      using mark_dirty_bound [of b i n] heldD(8) [OF h] by (simp add: b1_def has_dirty_def)
    have zero: "cells b2 ! p = 0" if "blk \<in># free_blocks (freed b2)" "covers p blk" for blk p
    proof -
      have "blk \<in># add_mset (handle_block h) xs + blocks b" using that(1) by (auto simp: fb hb blocks_def)
      then have "p < length (cells b)"
        using that(2) held_bound(1) [OF h] heldD(1) [OF h] by (fastforce simp: covers_def)
      then show ?thesis using that heldD(9) [OF h, of blk p] by (auto simp: fb fill_cells_nth [OF len])
    qed
    show thesis
    proof (rule that [OF eq])
      show "held b2 xs"
        using h t z n0 len dirty tab zero False heldD(7) [OF h]
        by (intro heldI)
          (auto simp: xs blocks_def fb trimmed_def fill_cells_length dest: heldD)
    qed (auto simp: fill_cells_length len fill_cells_nth hb)
  qed
qed

section \<open>Allocation and deletion\<close>

lemma vb_invD:
  assumes "vb_inv b"
  shows "held b {#}" "free_from b \<le> length (cells b)" "length (cells b) \<le> max_cells"
    "tiles (blocks b) (free_from b)" "sized (blocks b)" "distinct (map fst (active b))"
    "tables (freed b)" "trimmed (free_from b) (freed b)" "\<not> wild b"
  using assms heldD [of b "{#}"] by (auto simp: vb_inv_def)

lemma active_block:
  assumes "vb_inv b"
  shows "map_of (active b) i = Some n \<longleftrightarrow> (i, n) \<in> set (active b)"
  using map_of_eq_Some_iff [OF vb_invD(6) [OF assms]] .

lemma active_bound:
  assumes "vb_inv b" and "(i, n) \<in> set (active b)"
  shows "0 < n" and "i + n \<le> free_from b" and "i + n \<le> length (cells b)"
proof -
  have m: "(i, n) \<in># blocks b" using assms(2) by (simp add: blocks_def)
  show "0 < n" using vb_invD(5) [OF assms(1)] m by (auto simp: sized_def)
  show "i + n \<le> free_from b" using held_bound(1) [OF vb_invD(1) [OF assms(1)], of "(i, n)"] m by simp
  then show "i + n \<le> length (cells b)" using vb_invD(2) [OF assms(1)] by linarith
qed

lemma active_disjoint:
  assumes "vb_inv b" and "(i, n) \<in> set (active b)" and "(j, m) \<in> set (active b)" and "(i, n) \<noteq> (j, m)"
  shows "\<not> (covers p (i, n) \<and> covers p (j, m))"
proof -
  define A where "A = mset (active b) - {#(i, n)#}"
  have A: "mset (active b) = add_mset (i, n) A" using assms(2) by (simp add: A_def)
  have "(j, m) \<in># add_mset (i, n) A" using assms(3) by (simp flip: A)
  then have j: "(j, m) \<in># A + free_blocks (freed b)" using assms(4) by auto
  have "tiles (add_mset (i, n) (A + free_blocks (freed b))) (free_from b)"
    using vb_invD(4) [OF assms(1)] by (simp add: blocks_def A)
  then show ?thesis using j by (rule tiles_disjoint_in)
qed

lemma validate_active:
  assumes "vb_inv b"
  shows "validate_handle h l b = Inr () \<longleftrightarrow> v_size h = 0 \<or> handle_block h \<in> set (active b)"
proof -
  have inside: "v_index h \<le> length (cells b) \<and> v_size h \<le> length (cells b) - v_index h"
    if "handle_block h \<in> set (active b)"
    using active_bound(3) [OF assms, of "v_index h" "v_size h"] that
    unfolding handle_block_def by linarith
  have look: "map_of (active b) (v_index h) = Some (v_size h) \<longleftrightarrow> handle_block h \<in> set (active b)"
    using active_block [OF assms] by (simp add: handle_block_def)
  show ?thesis
  proof (cases "handle_block h \<in> set (active b)")
    case True
    with inside look show ?thesis by (simp add: validate_handle_def)
  next
    case False
    with look show ?thesis by (simp add: validate_handle_def)
  qed
qed

lemma allocate_spec:
  assumes inv: "vb_inv b" and n: "0 < n" "n < 2 ^ 63" and al: "allocate n b = Inr (h, b')"
  shows "vb_inv b' \<and> v_size h = n \<and> mset (active b') = add_mset (handle_block h) (mset (active b)) \<and>
    length (cells b) \<le> length (cells b') \<and> (\<forall>p < length (cells b). cells b' ! p = cells b ! p) \<and>
    free_from b \<le> free_from b'"
proof -
  note D = vb_invD [OF inv] and H = heldD [OF vb_invD(1) [OF inv]]
  show ?thesis
  proof (cases "\<exists>h hs. map_of (freed b) n = Some (h # hs)")
    case True
    then obtain h1 hs where f: "map_of (freed b) n = Some (h1 # hs)" by blast
    define m where "m = (if hs = [] then AList.delete n (freed b) else AList.update n hs (freed b))"
    have eqs: "h = h1" "b' = b\<lparr>freed := m, active := AList.update (v_index h1) (v_size h1) (active b)\<rparr>"
      using al n(1) f by (auto simp: allocate_def m_def)
    have sz: "v_size h1 = n" using tables_find [OF D(7) f] by simp
    have dm: "distinct (map fst (freed b))" using D(7) by (simp add: tables_def)
    have fb: "free_blocks (freed b) = add_mset (handle_block h1) (free_blocks m)"
      using free_blocks_delete [OF dm f] free_blocks_update [OF dm, of n hs] f by (simp add: m_def)
    have tm: "tables m" using tables_find [OF D(7) f] D(7)
      by (auto simp: m_def intro: tables_update tables_delete)
    have new: "map_of (active b) (v_index h1) = None"
    proof (rule ccontr)
      assume "map_of (active b) (v_index h1) \<noteq> None"
      then obtain w where w: "(v_index h1, w) \<in> set (active b)" by (auto dest: map_of_SomeD)
      have "tiles (add_mset (handle_block h1) (mset (active b) + free_blocks m)) (free_from b)"
        using D(4) by (simp add: blocks_def fb)
      from tiles_disjoint_in [OF this, of "(v_index h1, w)" "v_index h1"] w active_bound(1) [OF inv w]
      show False using sz n(1) by (simp add: handle_block_def)
    qed
    have ma: "mset (active b') = add_mset (handle_block h1) (mset (active b))"
      using mset_update_new [OF new] by (simp add: eqs handle_block_def)
    have bl: "blocks b' = blocks b" using fb ma by (simp add: blocks_def eqs)
    have "held b' {#}"
      using D(2-5,7-9) H(8) H(9) fb tm bl
      by (intro heldI) (auto simp: eqs distinct_update D(6) trimmed_def has_dirty_def)
    then show ?thesis using ma sz by (simp add: vb_inv_def eqs)
  next
    case False
    obtain b1 where g: "(if wrap (free_from b + n) > length (cells b)
          then resize_buffer (wrap (2 * length (cells b) + n)) b else Inr b) = Inr b1"
      and eqs: "h = vhandle (free_from b1) n" "b' = b1\<lparr>free_from := wrap (free_from b1 + n),
                   active := AList.update (free_from b1) n (active b1)\<rparr>"
      using al n(1) False
      by (auto simp: allocate_def bind_result_Inr_iff Let_def split: option.splits list.splits)
    have w1: "wrap (free_from b + n) = free_from b + n"
      using D(2,3) n by (intro wrap_less) (simp add: max_cells_def)
    have w2: "wrap (2 * length (cells b) + n) = 2 * length (cells b) + n"
      using D(3) n by (intro wrap_less) (simp add: max_cells_def)
    obtain zs where b1: "b1 = b\<lparr>cells := cells b @ zs\<rparr>" "length (cells b1) \<le> max_cells"
      "free_from b + n \<le> length (cells b1)"
    proof (cases "free_from b + n > length (cells b)")
      case True
      with g w1 w2 show thesis using D(2)
        by (intro that [of "replicate (length (cells b) + n) 0"])
          (auto simp: resize_buffer_def split: if_splits)
    next
      case False
      with g w1 D(3) show thesis by (intro that [of "[]"]) (auto split: if_splits)
    qed
    have b1s [simp]: "free_from b1 = free_from b" "active b1 = active b" "freed b1 = freed b"
      "wild b1 = wild b" "has_dirty b1 = has_dirty b" "dirty_to b1 = dirty_to b"
      "cells b1 = cells b @ zs" by (simp_all add: b1 has_dirty_def)
    have new: "map_of (active b) (free_from b) = None"
    proof (rule ccontr)
      assume "map_of (active b) (free_from b) \<noteq> None"
      then obtain w where w: "(free_from b, w) \<in> set (active b)" by (auto dest: map_of_SomeD)
      then show False using active_bound(1,2) [OF inv w] by simp
    qed
    have ma: "mset (AList.update (free_from b) n (active b)) = add_mset (free_from b, n) (mset (active b))"
      using mset_update_new [OF new] by simp
    have dirty: "has_dirty b' \<Longrightarrow> dirty_to b' \<le> free_from b + n"
      using H(8) by (auto simp: eqs b1 has_dirty_def)
    have t: "tiles (blocks b') (free_from b + n)"
      using tiles_push [OF D(4), of n] ma by (simp add: blocks_def eqs)
    have tr: "trimmed (free_from b + n) (freed b)"
      using held_bound(1) [OF D(1)] n(1) by (fastforce simp: trimmed_def blocks_def)
    have z: "(cells b @ zs) ! p = 0" if "blk \<in># free_blocks (freed b)" "covers p blk" for blk p
    proof -
      have "p < length (cells b)"
        using held_bound(1) [OF D(1), of blk] that D(2) by (auto simp: blocks_def covers_def)
      then show ?thesis using H(9) [OF that] by (simp add: nth_append)
    qed
    have "held b' {#}"
      using D(5) b1(2,3) t tr z n(1) dirty w1
      by (intro heldI) (auto simp: eqs blocks_def ma distinct_update D(6,7,9))
    then show ?thesis using ma by (simp add: vb_inv_def eqs handle_block_def nth_append w1)
  qed
qed

lemma allocate_zero: "allocate 0 b = Inr (vhandle (free_from b) 0, b)"
  by (simp add: allocate_def)

lemma held_drop_active:
  assumes inv: "vb_inv b" and a: "(i, n) \<in> set (active b)"
  shows "held (b\<lparr>active := AList.delete i (active b)\<rparr>) {#(i, n)#}"
    and "mset (active b) = add_mset (i, n) (mset (AList.delete i (active b)))"
proof -
  note D = vb_invD [OF inv] and H = heldD [OF vb_invD(1) [OF inv]]
  show m: "mset (active b) = add_mset (i, n) (mset (AList.delete i (active b)))"
    using mset_delete_pair [OF D(6)] active_block [OF inv] a by simp
  show "held (b\<lparr>active := AList.delete i (active b)\<rparr>) {#(i, n)#}"
    using D(2-5,7-9) H(8,9) m
    by (intro heldI) (auto simp: blocks_def distinct_delete D(6) has_dirty_def)
qed

lemma delete_handle_spec:
  assumes inv: "vb_inv b" and a: "handle_block h \<in> set (active b)"
  obtains b' where "delete_handle h b = ok b'" and "vb_inv b'"
    and "active b' = AList.delete (v_index h) (active b)"
    and "mset (active b) = add_mset (handle_block h) (mset (active b'))"
    and "length (cells b') = length (cells b)"
    and "\<And>p. p < length (cells b) \<Longrightarrow> \<not> covers p (handle_block h) \<Longrightarrow> cells b' ! p = cells b ! p"
    and "free_from b' \<le> free_from b"
proof -
  define b1 where "b1 = b\<lparr>active := AList.delete (v_index h) (active b)\<rparr>"
  have b1 [simp]: "cells b1 = cells b" "free_from b1 = free_from b" by (simp_all add: b1_def)
  have pos: "0 < v_size h" using active_bound(1) [OF inv] a by (simp add: handle_block_def)
  have hb: "handle_block h = (v_index h, v_size h)" by (simp add: handle_block_def)
  have held: "held b1 {#handle_block h#}"
    using held_drop_active(1) [OF inv] a by (simp add: b1_def hb)
  have val: "validate_handle h ''VectorBuffer.delete'' b = Inr ()" using a by (simp add: validate_active [OF inv])
  obtain b' where r: "release_region h b1 = ok b'" "held b' {#}" "active b' = active b1"
    "length (cells b') = length (cells b)"
    "\<And>p. p < length (cells b) \<Longrightarrow> \<not> covers p (handle_block h) \<Longrightarrow> cells b' ! p = cells b ! p"
    "free_from b' \<le> free_from b"
    using release_region_held [OF held pos refl] by auto
  have eq: "delete_handle h b = ok b'" using r(1) val pos by (simp add: delete_handle_def b1_def)
  show thesis
  proof (rule that [OF eq _ _ _ r(4,5,6)])
    show "vb_inv b'" using r(2) by (simp add: vb_inv_def)
    show "active b' = AList.delete (v_index h) (active b)" using r(3) by (simp add: b1_def)
    show "mset (active b) = add_mset (handle_block h) (mset (active b'))"
      using held_drop_active(2) [OF inv] a r(3) by (simp add: hb b1_def)
  qed
qed

lemma delete_handle_inactive:
  assumes "vb_inv b" and "handle_block h \<notin> set (active b)"
  shows "snd (delete_handle h b) = b" and "fst (delete_handle h b) = None \<longleftrightarrow> v_size h = 0"
  using validate_active [OF assms(1), of h "''VectorBuffer.delete''"] assms(2)
  by (auto simp: delete_handle_def split: sum.splits)

end
