(* ===== verification/Vector_Steps.thy ===== *)
theory Vector_Steps
  imports Vector_Safety
begin

text \<open>
  What the operations of the region allocator do to the regions of others, and the steps its
  clients take: every step keeps the invariant and the regions its handles do not name.
\<close>

section \<open>Growing and shrinking\<close>

lemma reallocate_inactive:
  assumes "vb_inv b" and "handle_block h \<notin> set (active b)" and "0 < v_size h"
  shows "snd (reallocate h n b) = (h, b)" and "fst (reallocate h n b) = None \<longleftrightarrow> n = v_size h"
  using validate_active [OF assms(1), of h "''VectorBuffer.reallocate''"] assms(2,3)
  by (auto simp: reallocate_def split: sum.splits)

lemma shrink_spec:
  assumes inv: "vb_inv b" and a: "handle_block h \<in> set (active b)" and n: "n < v_size h"
  obtains b' where "reallocate h n b = ok (h\<lparr>v_size := n\<rparr>, b')" and "vb_inv b'"
    and "set (active b') = set (active b) - {handle_block h} \<union> (if n = 0 then {} else {(v_index h, n)})"
    and "length (cells b') = length (cells b)"
    and "\<And>p. p < length (cells b) \<Longrightarrow> \<not> covers p (v_index h + n, v_size h - n) \<Longrightarrow> cells b' ! p = cells b ! p"
    and "free_from b' \<le> free_from b"
proof -
  define i s where "i = v_index h" and "s = v_size h"
  have hb: "handle_block h = (i, s)" by (simp add: handle_block_def i_def s_def)
  have a': "(i, s) \<in> set (active b)" using a by (simp add: hb)
  note D = vb_invD [OF inv] and H = heldD [OF vb_invD(1) [OF inv]]
  define al where "al = (if n = 0 then AList.delete i (active b) else AList.update i n (active b))"
  define b1 where "b1 = b\<lparr>active := al\<rparr>"
  have b1 [simp]: "cells b1 = cells b" "free_from b1 = free_from b" "freed b1 = freed b"
    "wild b1 = wild b" "active b1 = al" by (simp_all add: b1_def)
  define r where "r = vhandle (i + n) (s - n)"
  have bound: "i + s \<le> free_from b" using active_bound(2) [OF inv a'] .
  have nowrap: "wrap (i + n) = i + n"
    using bound n D(2,3) by (intro wrap_less) (simp add: max_cells_def s_def)
  have look: "map_of (active b) i = Some s" using active_block [OF inv] a' by simp
  define A where "A = mset (AList.delete i (active b))"
  have mA: "mset (active b) = add_mset (i, s) A"
    using mset_delete_pair [OF D(6) look] by (simp add: A_def)
  have al: "mset al = A + (if n = 0 then {#} else {#(i, n)#})"
    using mset_update_old [OF D(6) look, of n] mA by (auto simp: al_def A_def)
  have "tiles (add_mset (i, s) (A + free_blocks (freed b))) (free_from b)"
    using D(4) mA by (simp add: blocks_def)
  from tiles_cut [OF this, of n] n
  have t: "tiles (add_mset (i + n, s - n) (add_mset (i, n) (A + free_blocks (freed b)))) (free_from b)"
    by (simp add: s_def)
  have "tiles (add_mset (i + n, s - n) (mset al + free_blocks (freed b))) (free_from b)"
  proof (cases "n = 0")
    case True
    then show ?thesis using t tiles_zero [of i "add_mset (i, s) (A + free_blocks (freed b))"]
      by (simp add: al add_mset_commute)
  next
    case False
    then show ?thesis using t by (simp add: al)
  qed
  then have held: "held b1 (add_mset (handle_block r) {#})"
    using D(2,3,5-7,9) H(7-9) n mA al
    by (intro heldI)
      (auto simp: blocks_def handle_block_def r_def s_def al_def distinct_update distinct_delete has_dirty_def b1_def)
  have pos: "0 < v_size r" using n by (simp add: r_def s_def)
  obtain b' where rr: "release_region r b1 = ok b'" "held b' {#}" "active b' = al"
    "length (cells b') = length (cells b)"
    "\<And>p. p < length (cells b) \<Longrightarrow> \<not> covers p (handle_block r) \<Longrightarrow> cells b' ! p = cells b ! p"
    "free_from b' \<le> free_from b"
    using release_region_held [OF held pos refl] by auto
  have val: "validate_handle h ''VectorBuffer.reallocate'' b = Inr ()"
    using a by (simp add: validate_active [OF inv])
  have eq: "reallocate h n b = ok (h\<lparr>v_size := n\<rparr>, b')"
  proof -
    have "reallocate h n b = map_prod id (Pair (h\<lparr>v_size := n\<rparr>)) (release_region r b1)"
      using val n nowrap unfolding reallocate_def r_def b1_def al_def i_def s_def Let_def by simp
    then show ?thesis using rr(1) by (simp add: ok_def)
  qed
  show thesis
  proof (rule that [OF eq])
    show "vb_inv b'" using rr(2) by (simp add: vb_inv_def)
    have "i \<notin> fst ` set (AList.delete i (active b))" by (auto simp: AList.delete_eq)
    then have "(i, s) \<notin># A" by (force simp: A_def)
    moreover have "set (active b) = insert (i, s) (set_mset A)"
      by (metis mA set_mset_add_mset_insert set_mset_mset)
    ultimately have A: "set_mset A = set (active b) - {(i, s)}" by auto
    have "set al = set_mset A \<union> (if n = 0 then {} else {(i, n)})"
      by (subst set_mset_mset [symmetric], subst al) simp
    then show "set (active b') = set (active b) - {handle_block h} \<union> (if n = 0 then {} else {(v_index h, n)})"
      by (simp only: rr(3) hb A i_def)
  qed (use rr(4-6) in \<open>simp_all add: handle_block_def r_def i_def s_def\<close>)
qed

section \<open>Writing\<close>

text \<open>What a write through a handle may change.\<close>

definition writes_in :: "nat \<times> nat \<Rightarrow> vbuf \<Rightarrow> vbuf \<Rightarrow> bool" where
  "writes_in blk b b' =
    (free_from b' = free_from b \<and> freed b' = freed b \<and> active b' = active b \<and> wild b' = wild b \<and>
     length (cells b') = length (cells b) \<and>
     (\<forall>p < length (cells b). \<not> covers p blk \<longrightarrow> cells b' ! p = cells b ! p) \<and>
     ((has_dirty b \<longrightarrow> dirty_to b \<le> free_from b) \<longrightarrow> (has_dirty b' \<longrightarrow> dirty_to b' \<le> free_from b')))"

lemma writes_in_refl [simp]: "writes_in blk b b"
  by (simp add: writes_in_def)

lemma writes_in_trans: "writes_in blk b b1 \<Longrightarrow> writes_in blk b1 b2 \<Longrightarrow> writes_in blk b b2"
  by (auto simp: writes_in_def)

lemma writes_in_mark: "writes_in blk b b1 \<Longrightarrow> writes_in blk b (mark_dirty i n b1)"
  using mark_dirty_bound [of b1 i n] by (auto simp: writes_in_def)

lemma writes_in_inv:
  assumes inv: "vb_inv b" and a: "(i, n) \<in> set (active b)" and w: "writes_in (i, n) b b'"
  shows "vb_inv b'"
proof -
  note D = vb_invD [OF inv] and H = heldD [OF vb_invD(1) [OF inv]]
  have W: "free_from b' = free_from b" "freed b' = freed b" "active b' = active b" "wild b' = wild b"
    "length (cells b') = length (cells b)" "has_dirty b' \<Longrightarrow> dirty_to b' \<le> free_from b"
    "\<And>p. p < length (cells b) \<Longrightarrow> \<not> covers p (i, n) \<Longrightarrow> cells b' ! p = cells b ! p"
    using w H(8) unfolding writes_in_def by auto
  have zero: "cells b' ! p = 0" if f: "blk \<in># free_blocks (freed b)" and c: "covers p blk" for blk p
  proof -
    define A where "A = mset (active b) - {#(i, n)#}"
    have "mset (active b) = add_mset (i, n) A" using a by (simp add: A_def)
    then have "tiles (add_mset (i, n) (A + free_blocks (freed b))) (free_from b)"
      using D(4) by (simp add: blocks_def)
    from tiles_disjoint_in [OF this, of blk p] f c have "\<not> covers p (i, n)" by auto
    moreover have "p < length (cells b)"
      using held_bound(1) [OF D(1), of blk] f c D(2) by (auto simp: blocks_def covers_def)
    ultimately show ?thesis using W(7) H(9) [OF f c] by simp
  qed
  have "held b' {#}"
    using D(2-9) W zero by (intro heldI) (simp_all add: blocks_def)
  then show ?thesis by (simp add: vb_inv_def)
qed

definition overwrite :: "nat \<Rightarrow> u32 list \<Rightarrow> u32 list \<Rightarrow> u32 list" where
  "overwrite p xs cs = take p cs @ xs @ drop (p + length xs) cs"

lemma overwrite_Nil [simp]: "overwrite p [] cs = cs"
  by (simp add: overwrite_def)

lemma overwrite_Cons: "p + length xs < length cs \<Longrightarrow> overwrite p (x # xs) cs = overwrite (p + 1) xs (cs[p := x])"
  by (simp add: overwrite_def upd_conv_take_nth_drop take_Suc_conv_app_nth min_def add.commute)

lemma overwrite_length: "p + length xs \<le> length cs \<Longrightarrow> length (overwrite p xs cs) = length cs"
  by (simp add: overwrite_def)

lemma overwrite_nth:
  "p + length xs \<le> length cs \<Longrightarrow> q < length cs \<Longrightarrow>
    overwrite p xs cs ! q = (if p \<le> q \<and> q < p + length xs then xs ! (q - p) else cs ! q)"
  by (auto simp: overwrite_def nth_append min_def)

lemma elem_less [simp]: "p + off < 2 ^ 62 \<Longrightarrow> elem p off = p + off"
  by (simp add: elem_def)

lemma store_all_overwrite:
  assumes "p + off + length xs \<le> length (cells b)" and "length (cells b) \<le> max_cells"
  shows "store_all p off xs b = b\<lparr>cells := overwrite (p + off) xs (cells b)\<rparr>"
  using assms
proof (induction xs arbitrary: off b)
  case (Cons x xs)
  have "p + off < 2 ^ 62" using Cons.prems by (simp add: max_cells_def)
  then have st: "store (elem p off) x b = b\<lparr>cells := (cells b)[p + off := x]\<rparr>"
    using Cons.prems by (simp add: store_def touch_def)
  show ?case using Cons.IH [of "off + 1" "b\<lparr>cells := (cells b)[p + off := x]\<rparr>"] Cons.prems
    by (simp add: st overwrite_Cons)
qed simp

text \<open>The cells after a diff write, and the number of changed ones.\<close>

definition diff_cells :: "u32 list \<Rightarrow> u32 list \<Rightarrow> u32 list" where
  "diff_cells old new = map2 (\<lambda>a x. if f32_ne a x then x else a) old new"

definition diff_count :: "u32 list \<Rightarrow> u32 list \<Rightarrow> nat" where
  "diff_count old new = length (filter (\<lambda>(a, x). f32_ne a x) (zip old new))"

lemma diff_loop_spec:
  assumes "p + off + i + length xs \<le> length (cells b)" and "length (cells b) \<le> max_cells"
    and "diff_loop h p off i xs (c, b) = (c', b')"
  shows "cells b' = overwrite (p + off + i) (diff_cells (take (length xs) (drop (p + off + i) (cells b))) xs) (cells b) \<and>
    c' = c + diff_count (take (length xs) (drop (p + off + i) (cells b))) xs \<and>
    free_from b' = free_from b \<and> freed b' = freed b \<and> active b' = active b \<and> wild b' = wild b \<and>
    ((has_dirty b \<longrightarrow> dirty_to b \<le> free_from b) \<longrightarrow> (has_dirty b' \<longrightarrow> dirty_to b' \<le> free_from b'))"
  using assms
proof (induction xs arbitrary: i c b)
  case Nil
  then show ?case by (simp add: diff_cells_def diff_count_def)
next
  case (Cons x xs)
  define q where "q = p + off + i"
  have q: "q + length xs < length (cells b)" and small: "p + (off + i) < 2 ^ 62"
    using Cons.prems by (simp_all add: q_def max_cells_def)
  have a: "elem p (off + i) = q" using small by (simp add: q_def)
  have t [simp]: "touch q b = b" using q by (simp add: touch_def)
  have pk: "peek q b = cells b ! q" using q by (simp add: peek_def)
  have dr: "take (length (x # xs)) (drop q (cells b)) = cells b ! q # take (length xs) (drop (q + 1) (cells b))"
    using q by (simp add: Cons_nth_drop_Suc [symmetric])
  show ?case
  proof (cases "f32_ne (cells b ! q) x")
    case True
    define b1 where "b1 = mark_dirty (wrap (v_index h + off + i)) 1 (store q x b)"
    have b1 [simp]: "cells b1 = (cells b)[q := x]" "free_from b1 = free_from b" "freed b1 = freed b"
      "active b1 = active b" "wild b1 = wild b"
      using q by (simp_all add: b1_def store_def)
    have db: "(has_dirty b \<longrightarrow> dirty_to b \<le> free_from b) \<longrightarrow> (has_dirty b1 \<longrightarrow> dirty_to b1 \<le> free_from b1)"
      using mark_dirty_bound [of "store q x b" "wrap (v_index h + off + i)" 1] q
      by (simp add: b1_def store_def has_dirty_def)
    have rec: "diff_loop h p off (i + 1) xs (c + 1, b1) = (c', b')"
      using Cons.prems(3) True by (simp add: a pk b1_def Let_def)
    have ge: "p + off + (i + 1) + length xs \<le> length (cells b1)" using q by (simp add: q_def)
    from Cons.IH [OF ge _ rec] Cons.prems(2) db True dr q
    show ?thesis by (auto simp: q_def diff_cells_def diff_count_def overwrite_Cons drop_update_cancel)
  next
    case False
    have rec: "diff_loop h p off (i + 1) xs (c, b) = (c', b')"
      using Cons.prems(3) False by (simp add: a pk Let_def)
    have ge: "p + off + (i + 1) + length xs \<le> length (cells b)" using q by (simp add: q_def)
    from Cons.IH [OF ge Cons.prems(2) rec] False dr q
    show ?thesis by (auto simp: q_def diff_cells_def diff_count_def overwrite_Cons list_update_id)
  qed
qed

lemma mark_dirty_covers:
  assumes "start + n \<le> free_from b" and "free_from b \<le> max_cells" and "0 < n"
  shows "has_dirty (mark_dirty start n b)" and "dirty_from (mark_dirty start n b) \<le> start"
    and "start + n \<le> dirty_to (mark_dirty start n b)"
    and "has_dirty b \<Longrightarrow> dirty_from (mark_dirty start n b) \<le> dirty_from b"
    and "has_dirty b \<Longrightarrow> dirty_to b \<le> dirty_to (mark_dirty start n b)"
proof -
  have "wrap (start + n) = start + n" using assms by (intro wrap_less) (simp add: max_cells_def)
  then show "has_dirty (mark_dirty start n b)" "dirty_from (mark_dirty start n b) \<le> start"
    "start + n \<le> dirty_to (mark_dirty start n b)"
    "has_dirty b \<Longrightarrow> dirty_from (mark_dirty start n b) \<le> dirty_from b"
    "has_dirty b \<Longrightarrow> dirty_to b \<le> dirty_to (mark_dirty start n b)"
    using assms by (auto simp: mark_dirty_def has_dirty_def size_max_def max_cells_def Let_def)
qed

text \<open>The range check of a write, without wrap-around.\<close>

lemma validate_active_Inr:
  assumes "vb_inv b" and "handle_block h \<in> set (active b)"
  shows "validate_handle h l b = Inr ()" and "view h b = Inr (v_index h)"
proof -
  have "0 < v_size h" using active_bound(1) [OF assms(1)] assms(2) by (simp add: handle_block_def)
  moreover have "validate_handle h l b = Inr ()" for l using validate_active [OF assms(1)] assms(2) by blast
  ultimately show "validate_handle h l b = Inr ()" "view h b = Inr (v_index h)" by (simp_all add: view_def)
qed

lemma checked_view:
  assumes inv: "vb_inv b" and off: "off + n < 2 ^ 64"
    and r: "bind_result (validate_handle_range h off n l b) (\<lambda>_. view h b) = Inr p"
  shows "handle_block h \<in> set (active b) \<and> off + n \<le> v_size h \<and> p = v_index h"
proof -
  have "wrap (off + n) = off + n" using off by (intro wrap_less) simp
  then have "0 < v_size h" "off + n \<le> v_size h" "validate_handle h l b = Inr ()" "view h b = Inr p"
    using r by (auto simp: bind_result_Inr_iff validate_handle_range_def split: if_splits)
  then show ?thesis using validate_active [OF inv, of h l] validate_active_Inr(2) [OF inv, of h] by auto
qed

lemma writes_in_overwrite:
  assumes inv: "vb_inv b" and a: "handle_block h \<in> set (active b)" and len: "off + length xs \<le> v_size h"
  shows "store_all (v_index h) off xs b = b\<lparr>cells := overwrite (v_index h + off) xs (cells b)\<rparr>"
    and "writes_in (handle_block h) b (b\<lparr>cells := overwrite (v_index h + off) xs (cells b)\<rparr>)"
proof -
  have bound: "v_index h + v_size h \<le> length (cells b)"
    using active_bound(3) [OF inv] a by (simp add: handle_block_def)
  then have le: "v_index h + off + length xs \<le> length (cells b)" using len by linarith
  show "store_all (v_index h) off xs b = b\<lparr>cells := overwrite (v_index h + off) xs (cells b)\<rparr>"
    using store_all_overwrite [OF le vb_invD(3) [OF inv]] .
  show "writes_in (handle_block h) b (b\<lparr>cells := overwrite (v_index h + off) xs (cells b)\<rparr>)"
    using len le by (auto simp: writes_in_def overwrite_length overwrite_nth handle_block_def has_dirty_def)
qed

lemma set_block_spec:
  assumes inv: "vb_inv b" and off: "off + n < 2 ^ 64" and n: "length xs = n"
  shows "(\<exists>e. set_block l n h off xs b = throw e b) \<or>
    (handle_block h \<in> set (active b) \<and> off + n \<le> v_size h \<and>
     set_block l n h off xs b =
       ok (mark_dirty (v_index h + off) n (b\<lparr>cells := overwrite (v_index h + off) xs (cells b)\<rparr>)) \<and>
     writes_in (handle_block h) b
       (mark_dirty (v_index h + off) n (b\<lparr>cells := overwrite (v_index h + off) xs (cells b)\<rparr>)))"
proof (cases "bind_result (validate_handle_range h off n l b) (\<lambda>_. view h b)")
  case (Inl e)
  then show ?thesis by (auto simp: set_block_def with_view_def)
next
  case (Inr p)
  from checked_view [OF inv off Inr] n have a: "handle_block h \<in> set (active b)"
    and len: "off + length xs \<le> v_size h" and p: "p = v_index h" by auto
  have "wrap (v_index h + off) = v_index h + off"
    using active_bound(3) [OF inv] a len vb_invD(3) [OF inv]
    by (intro wrap_less) (force simp: handle_block_def max_cells_def)
  then show ?thesis using writes_in_overwrite [OF inv a len] Inr a len n
    by (simp add: set_block_def with_view_def p writes_in_mark)
qed

lemma set_block_diff_spec:
  assumes inv: "vb_inv b" and off: "off + n < 2 ^ 64" and n: "length xs = n"
  shows "(\<exists>e. set_block_diff l n h off xs (c, b) = throw e (c, b)) \<or>
    (\<exists>b'. handle_block h \<in> set (active b) \<and> off + n \<le> v_size h \<and>
      set_block_diff l n h off xs (c, b) =
        ok (c + diff_count (take n (drop (v_index h + off) (cells b))) xs, b') \<and>
      cells b' = overwrite (v_index h + off) (diff_cells (take n (drop (v_index h + off) (cells b))) xs) (cells b) \<and>
      writes_in (handle_block h) b b')"
proof (cases "bind_result (validate_handle_range h off n l b) (\<lambda>_. view h b)")
  case (Inl e)
  then show ?thesis by (auto simp: set_block_diff_def)
next
  case (Inr p)
  from checked_view [OF inv off Inr] n have a: "handle_block h \<in> set (active b)"
    and len: "off + length xs \<le> v_size h" and p: "p = v_index h" by auto
  have le: "v_index h + off + length xs \<le> length (cells b)"
    using active_bound(3) [OF inv] a len by (fastforce simp: handle_block_def)
  obtain c' b' where d: "diff_loop h p off 0 xs (c, b) = (c', b')" by fastforce
  define ds where "ds = diff_cells (take n (drop (v_index h + off) (cells b))) xs"
  have lds: "length ds = length xs" using le n by (simp add: ds_def diff_cells_def)
  have D: "cells b' = overwrite (v_index h + off) ds (cells b)"
    "c' = c + diff_count (take n (drop (v_index h + off) (cells b))) xs"
    "free_from b' = free_from b" "freed b' = freed b" "active b' = active b" "wild b' = wild b"
    "(has_dirty b \<longrightarrow> dirty_to b \<le> free_from b) \<longrightarrow> (has_dirty b' \<longrightarrow> dirty_to b' \<le> free_from b')"
    using diff_loop_spec [of p off 0 xs b h c c' b', OF _ vb_invD(3) [OF inv] d] le n
    by (auto simp: p ds_def)
  have "writes_in (handle_block h) b b'"
    using D writes_in_overwrite(2) [OF inv a, of off ds] len lds by (simp add: writes_in_def)
  then show ?thesis using Inr d a len D(1,2) n by (auto simp: set_block_diff_def ds_def)
qed

lemma floats_of_bytes_length: "length (floats_of_bytes bytes) = length bytes div 4"
  by (induction bytes rule: floats_of_bytes.induct) auto

lemma set_floats_from_bytes_spec:
  assumes inv: "vb_inv b" and off: "off + length bytes div 4 < 2 ^ 64"
  shows "snd (set_floats_from_bytes h off bytes b) = b \<or>
    handle_block h \<in> set (active b) \<and> writes_in (handle_block h) b (snd (set_floats_from_bytes h off bytes b))"
proof (cases "bytes = [] \<or> length bytes mod 4 \<noteq> 0 \<or> wrap (off + length bytes div 4) > v_size h")
  case True
  then show ?thesis by (auto simp: set_floats_from_bytes_def Let_def)
next
  case False
  define n where "n = length bytes div 4"
  define r where "r = with_view (validate_handle h ''VectorBuffer.set-floats-from-bytes'' b) h b
    (\<lambda>p. ok (mark_dirty (wrap (v_index h + off)) n (store_all p off (floats_of_bytes bytes) b)))"
  have r: "set_floats_from_bytes h off bytes b = r"
    using False unfolding set_floats_from_bytes_def Let_def r_def n_def de_Morgan_disj
    by (simp only: if_False not_not simp_thms)
  from off have "wrap (off + n) = off + n" by (intro wrap_less) (simp add: n_def)
  with False have fits: "off + length (floats_of_bytes bytes) \<le> v_size h"
    by (simp add: floats_of_bytes_length n_def)
  have "4 \<le> length bytes" using False by (cases bytes rule: floats_of_bytes.cases) auto
  then have pos: "v_size h \<noteq> 0" using fits by (simp add: floats_of_bytes_length)
  show ?thesis
  proof (cases "handle_block h \<in> set (active b)")
    case True
    note w = writes_in_overwrite [OF inv True fits]
    have "r = ok (mark_dirty (wrap (v_index h + off)) n
        (b\<lparr>cells := overwrite (v_index h + off) (floats_of_bytes bytes) (cells b)\<rparr>))"
      by (simp add: r_def with_view_def validate_active_Inr [OF inv True] w(1))
    then show ?thesis using True writes_in_mark [OF w(2)] by (simp add: r)
  next
    case nact: False
    have "validate_handle h ''VectorBuffer.set-floats-from-bytes'' b \<noteq> Inr ()"
      using nact pos by (simp only: validate_active [OF inv] simp_thms)
    then obtain e where "validate_handle h ''VectorBuffer.set-floats-from-bytes'' b = Inl e"
      by (cases "validate_handle h ''VectorBuffer.set-floats-from-bytes'' b") auto
    then show ?thesis by (simp add: r r_def with_view_def)
  qed
qed

section \<open>Steps of the clients\<close>

definition keeps :: "(nat \<times> nat) set \<Rightarrow> vbuf \<Rightarrow> vbuf \<Rightarrow> bool" where
  "keeps X b b' = (\<forall>r \<in> set (active b). r \<notin> X \<longrightarrow>
    r \<in> set (active b') \<and> (\<forall>p. covers p r \<longrightarrow> cells b' ! p = cells b ! p))"

lemma keeps_refl [simp]: "keeps X b b"
  by (simp add: keeps_def)

lemma keeps_trans: "keeps X b b1 \<Longrightarrow> keeps X b1 b2 \<Longrightarrow> keeps X b b2"
  unfolding keeps_def by metis

lemma keeps_mono: "keeps X b b' \<Longrightarrow> X \<subseteq> Y \<Longrightarrow> keeps Y b b'"
  by (auto simp: keeps_def)

lemma covers_active:
  assumes "vb_inv b" and "r \<in> set (active b)" and "covers p r"
  shows "p < length (cells b)"
  using active_bound(3) [OF assms(1), of "fst r" "snd r"] assms(2,3) by (auto simp: covers_def)

lemma covers_apart:
  assumes "vb_inv b" and "r \<in> set (active b)" and "x \<in> set (active b)" and "r \<noteq> x" and "covers p r"
  shows "\<not> covers p x"
  using active_disjoint [OF assms(1), of "fst r" "snd r" "fst x" "snd x" p] assms(2-5) by auto

lemma keeps_one:
  assumes inv: "vb_inv b" and a: "x \<in> set (active b)"
    and act: "set (active b) - {x} \<subseteq> set (active b')"
    and eq: "\<And>p. p < length (cells b) \<Longrightarrow> \<not> covers p x \<Longrightarrow> cells b' ! p = cells b ! p"
  shows "keeps {x} b b'"
  unfolding keeps_def
proof (intro ballI impI conjI allI)
  fix r p assume r: "r \<in> set (active b)" "r \<notin> {x}"
  show "r \<in> set (active b')" using r act by blast
  show "cells b' ! p = cells b ! p" if c: "covers p r"
    using eq [OF covers_active [OF inv r(1) c] covers_apart [OF inv r(1) a _ c]] r(2) by simp
qed

lemma writes_in_keeps:
  assumes inv: "vb_inv b" and a: "x \<in> set (active b)" and w: "writes_in x b b'"
  shows "vb_inv b' \<and> keeps {x} b b'"
proof
  show "vb_inv b'" using writes_in_inv [OF inv, of "fst x" "snd x"] a w by simp
  show "keeps {x} b b'"
    using w by (intro keeps_one [OF inv a]) (simp_all add: writes_in_def)
qed

lemma delete_keeps:
  assumes inv: "vb_inv b"
  shows "vb_inv (snd (delete_handle h b)) \<and> keeps {handle_block h} b (snd (delete_handle h b))"
proof (cases "handle_block h \<in> set (active b)")
  case True
  from delete_handle_spec [OF inv True] obtain b' where d: "delete_handle h b = ok b'" "vb_inv b'"
    "mset (active b) = add_mset (handle_block h) (mset (active b'))"
    "\<And>p. p < length (cells b) \<Longrightarrow> \<not> covers p (handle_block h) \<Longrightarrow> cells b' ! p = cells b ! p" by metis
  have s: "set (active b) = insert (handle_block h) (set (active b'))"
    using arg_cong [OF d(3), of set_mset] by simp
  have "keeps {handle_block h} b b'"
    using d(4) s by (intro keeps_one [OF inv True]) auto
  then show ?thesis using d(1,2) by simp
next
  case False
  then show ?thesis using delete_handle_inactive(1) [OF inv False] inv by simp
qed

lemma allocate_keeps:
  assumes inv: "vb_inv b" and n: "n < 2 ^ 63" and al: "allocate n b = Inr (h, b')"
  shows "vb_inv b' \<and> keeps {} b b'"
proof (cases "n = 0")
  case True
  then show ?thesis using al inv by (simp add: allocate_zero)
next
  case False
  from allocate_spec [OF inv _ n al] False
  have "vb_inv b'" "mset (active b') = add_mset (handle_block h) (mset (active b))"
    "\<forall>p < length (cells b). cells b' ! p = cells b ! p" by simp_all
  moreover from this(2) have "set (active b') = insert (handle_block h) (set (active b))"
    by (metis set_mset_add_mset_insert set_mset_mset)
  ultimately show ?thesis using covers_active [OF inv] by (auto simp: keeps_def)
qed

lemma reallocate_keeps:
  assumes inv: "vb_inv b" and n: "n < 2 ^ 63"
  shows "vb_inv (snd (snd (reallocate h n b))) \<and> keeps {handle_block h} b (snd (snd (reallocate h n b)))"
proof (cases "handle_block h \<in> set (active b)")
  case True
  show ?thesis
  proof (cases "n < v_size h")
    case less: True
    from shrink_spec [OF inv True less] obtain b' where r: "reallocate h n b = ok (h\<lparr>v_size := n\<rparr>, b')" "vb_inv b'"
      "set (active b') = set (active b) - {handle_block h} \<union> (if n = 0 then {} else {(v_index h, n)})"
      "\<And>p. p < length (cells b) \<Longrightarrow> \<not> covers p (v_index h + n, v_size h - n) \<Longrightarrow> cells b' ! p = cells b ! p" by metis
    have "keeps {handle_block h} b b'"
    proof (rule keeps_one [OF inv True])
      show "set (active b) - {handle_block h} \<subseteq> set (active b')" using r(3) by auto
    qed (use r(4) less in \<open>auto simp: handle_block_def\<close>)
    then show ?thesis using r(1,2) by simp
  next
    case ge: False
    obtain x b1 where d: "delete_handle h b = (x, b1)" by fastforce
    have del: "vb_inv b1 \<and> keeps {handle_block h} b b1" using delete_keeps [OF inv, of h] d by simp
    have al: "vb_inv b2 \<and> keeps {} b1 b2" if "allocate n b1 = Inr (h2, b2)" for h2 b2
      using allocate_keeps [OF _ n that] del by blast
    have step: "snd (snd (reallocate h n b)) \<in> {b, b1} \<or>
        (\<exists>h2. allocate n b1 = Inr (h2, snd (snd (reallocate h n b))))"
      using ge d validate_active_Inr(1) [OF inv True, of "''VectorBuffer.reallocate''"]
      by (auto simp: reallocate_def split: option.splits sum.splits)
    then consider "snd (snd (reallocate h n b)) = b" | "snd (snd (reallocate h n b)) = b1"
      | h2 where "allocate n b1 = Inr (h2, snd (snd (reallocate h n b)))" by auto
    then show ?thesis
    proof cases
      case (3 h2)
      from al [OF this] del show ?thesis
        using keeps_trans [OF _ keeps_mono] by (metis empty_subsetI)
    qed (use inv del in simp_all)
  qed
next
  case False
  show ?thesis
  proof (cases "v_size h = 0")
    case True
    have d: "delete_handle h b = ok b" using True by (simp add: delete_handle_def)
    have v: "validate_handle h l b = Inr ()" for l using True by (simp add: validate_handle_def)
    have "snd (snd (reallocate h n b)) = b \<or> (\<exists>h2. allocate n b = Inr (h2, snd (snd (reallocate h n b))))"
      using True d v by (auto simp: reallocate_def ok_def split: sum.splits)
    then show ?thesis using inv allocate_keeps [OF inv n] keeps_mono [of "{}"] by (metis empty_subsetI keeps_refl)
  next
    case pos: False
    then show ?thesis using reallocate_inactive(1) [OF inv False, of n] inv by simp
  qed
qed

text \<open>
  The calls of a client, with whatever handles, offsets and sizes it passes: a handle may be stale or forged, and
  every offset and size is a \<open>size_t\<close>. \<open>Write\<close> stands for the block writes, \<open>Write_diff\<close> for the diff writes.
  \<open>exec_call\<close> is the buffer a call leaves, also when it throws; \<open>named\<close> the regions its handle arguments name.
\<close>

datatype vb_call =
  Allocate nat
| Delete vhandle
| Reallocate vhandle nat
| Write string vhandle nat "u32 list"
| Write_bytes vhandle nat "byte list"
| Write_diff string vhandle nat "u32 list"
| Write_batch "vhandle list" nat "u32 list list"
| Write_diff_batch "vhandle list" nat "u32 list list"
| Write_floats_batch "vhandle list" nat "u32 list" nat
| Clear_dirty

fun exec_call :: "vb_call \<Rightarrow> vbuf \<Rightarrow> vbuf" where
  "exec_call (Allocate n) b = (case allocate n b of Inl e \<Rightarrow> b | Inr (h, b') \<Rightarrow> b')"
| "exec_call (Delete h) b = snd (delete_handle h b)"
| "exec_call (Reallocate h n) b = snd (snd (reallocate h n b))"
| "exec_call (Write l h off xs) b = snd (set_block l (length xs) h off xs b)"
| "exec_call (Write_bytes h off bytes) b = snd (set_floats_from_bytes h off bytes b)"
| "exec_call (Write_diff l h off xs) b = snd (snd (set_block_diff l (length xs) h off xs (0, b)))"
| "exec_call (Write_batch hs off mats) b = snd (set_glm_mat4_batch hs off mats b)"
| "exec_call (Write_diff_batch hs off mats) b = snd (snd (set_glm_mat4_diff_batch hs off mats b))"
| "exec_call (Write_floats_batch hs off xs stride) b = snd (set_floats_batch hs off xs stride b)"
| "exec_call Clear_dirty b = clear_dirty b"

definition exec_calls :: "vb_call list \<Rightarrow> vbuf \<Rightarrow> vbuf" where
  "exec_calls cs b = fold exec_call cs b"

fun named :: "vb_call \<Rightarrow> (nat \<times> nat) set" where
  "named (Delete h) = {handle_block h}"
| "named (Reallocate h n) = {handle_block h}"
| "named (Write l h off xs) = {handle_block h}"
| "named (Write_bytes h off bytes) = {handle_block h}"
| "named (Write_diff l h off xs) = {handle_block h}"
| "named (Write_batch hs off mats) = handle_block ` set hs"
| "named (Write_diff_batch hs off mats) = handle_block ` set hs"
| "named (Write_floats_batch hs off xs stride) = handle_block ` set hs"
| "named _ = {}"

text \<open>
  The calls the code is meant for: no offset plus count and no number of values wraps around, no size asks for half
  of the address range or more, and a matrix has sixteen floats. The code checks none of the first three
  (\<open>Vector_Properties.wrapped_offset_corrupts\<close>, \<open>huge_allocation_overlaps\<close>).
\<close>

fun call_fits :: "vb_call \<Rightarrow> bool" where
  "call_fits (Allocate n) \<longleftrightarrow> n < 2 ^ 63"
| "call_fits (Reallocate h n) \<longleftrightarrow> n < 2 ^ 63"
| "call_fits (Write l h off xs) \<longleftrightarrow> off + length xs < 2 ^ 64"
| "call_fits (Write_bytes h off bytes) \<longleftrightarrow> off + length bytes div 4 < 2 ^ 64"
| "call_fits (Write_diff l h off xs) \<longleftrightarrow> off + length xs < 2 ^ 64"
| "call_fits (Write_batch hs off mats) \<longleftrightarrow> off + 16 < 2 ^ 64 \<and> (\<forall>m \<in> set mats. length m = 16)"
| "call_fits (Write_diff_batch hs off mats) \<longleftrightarrow> off + 16 < 2 ^ 64 \<and> (\<forall>m \<in> set mats. length m = 16)"
| "call_fits (Write_floats_batch hs off xs stride) \<longleftrightarrow> off + stride < 2 ^ 64 \<and> length hs * stride < 2 ^ 64"
| "call_fits _ \<longleftrightarrow> True"

text \<open>A call that fits, labelled with the regions it names.\<close>

definition vb_step :: "(nat \<times> nat) set \<Rightarrow> vbuf \<Rightarrow> vbuf \<Rightarrow> bool" where
  "vb_step X b b' \<longleftrightarrow> (\<exists>c. call_fits c \<and> X = named c \<and> b' = exec_call c b)"

lemma set_block_keeps:
  assumes "vb_inv b" and "off + n < 2 ^ 64" and "length xs = n"
  shows "vb_inv (snd (set_block l n h off xs b)) \<and> keeps {handle_block h} b (snd (set_block l n h off xs b))"
  using set_block_spec [OF assms, of l h] writes_in_keeps [OF assms(1), of "handle_block h"] assms(1) by auto

lemma set_block_diff_keeps:
  assumes "vb_inv b" and "off + n < 2 ^ 64" and "length xs = n"
  shows "vb_inv (snd (snd (set_block_diff l n h off xs (c, b)))) \<and>
    keeps {handle_block h} b (snd (snd (set_block_diff l n h off xs (c, b))))"
  using set_block_diff_spec [OF assms, of l h c] writes_in_keeps [OF assms(1), of "handle_block h"] assms(1)
  by auto

text \<open>A loop over handles keeps what each of its rounds keeps.\<close>

lemma keeps_run_all:
  assumes "\<And>c s. c \<in> set cs \<Longrightarrow> vb_inv (buf s) \<Longrightarrow>
      vb_inv (buf (snd (f c s))) \<and> keeps (X c) (buf s) (buf (snd (f c s)))"
    and "\<And>c. c \<in> set cs \<Longrightarrow> X c \<subseteq> Y" and "vb_inv (buf s)"
  shows "vb_inv (buf (snd (run_all f cs s))) \<and> keeps Y (buf s) (buf (snd (run_all f cs s)))"
proof (rule run_all_inv [where P = "\<lambda>t. vb_inv (buf t) \<and> keeps Y (buf s) (buf t)"])
  fix c t
  assume "c \<in> set cs" "vb_inv (buf t) \<and> keeps Y (buf s) (buf t)"
  then show "vb_inv (buf (snd (f c t))) \<and> keeps Y (buf s) (buf (snd (f c t)))"
    using assms(1,2) keeps_trans keeps_mono by metis
qed (simp add: assms(3))

lemma batch_round:
  assumes inv: "vb_inv b" and off: "off + stride < 2 ^ 64" and len: "length src = stride"
    and r: "r = with_view (validate_handle_range h off stride l b) h b
      (\<lambda>p. ok (mark_dirty (wrap (v_index h + off)) stride (store_all p off src b)))"
  shows "vb_inv (snd r) \<and> keeps {handle_block h} b (snd r)"
  using set_block_keeps [OF inv off len, of l h] by (simp add: r set_block_def)

lemma batch_slice_length:
  assumes "wrap (n * stride) \<le> length xs" and "n * stride < 2 ^ 64" and "i < n"
  shows "length (batch_slice i stride xs) = stride"
proof -
  have le: "i * stride + stride \<le> n * stride" using assms(3) mult_le_mono1 [of "Suc i" n stride] by simp
  then have "wrap (i * stride) = i * stride" "wrap (n * stride) = n * stride"
    using assms(2) by (auto intro!: wrap_less)
  then show ?thesis using le assms(1) by (simp add: batch_slice_def)
qed

lemma set_floats_batch_keeps:
  assumes inv: "vb_inv b" and off: "off + stride < 2 ^ 64" and small: "length hs * stride < 2 ^ 64"
  shows "vb_inv (snd (set_floats_batch hs off xs stride b)) \<and>
    keeps (handle_block ` set hs) b (snd (set_floats_batch hs off xs stride b))"
proof (cases "stride = 0 \<or> hs = [] \<or> length xs < wrap (length hs * stride)")
  case True
  then show ?thesis using inv by (auto simp: set_floats_batch_def)
next
  case False
  define f where "f = (\<lambda>(i, h) b. with_view (validate_handle_range h off stride ''VectorBuffer.set-floats-batch'' b) h b
      (\<lambda>p. let src = batch_slice i stride xs;
               b = (if length src < stride then b\<lparr>wild := True\<rparr> else b)
           in ok (mark_dirty (wrap (v_index h + off)) stride (store_all p off src b))))"
  have eq: "set_floats_batch hs off xs stride b = run_all f (zip [0..<length hs] hs) b"
    using False by (simp add: set_floats_batch_def f_def)
  have enough: "wrap (length hs * stride) \<le> length xs" using False by simp
  have round: "vb_inv (snd (f c s)) \<and> keeps {handle_block (snd c)} s (snd (f c s))"
    if c: "c \<in> set (zip [0..<length hs] hs)" and s: "vb_inv s" for c s
  proof -
    obtain i h where ih: "c = (i, h)" by fastforce
    with c have "i < length hs" by (auto dest: set_zip_leftD)
    then have len: "length (batch_slice i stride xs) = stride"
      by (rule batch_slice_length [OF enough small])
    show ?thesis
      using batch_round [OF s off len refl, of h "''VectorBuffer.set-floats-batch''"] len
      by (simp add: ih f_def Let_def)
  qed
  show ?thesis unfolding eq
  proof (rule keeps_run_all [where buf = "\<lambda>b. b" and X = "\<lambda>c. {handle_block (snd c)}"])
    show "c \<in> set (zip [0..<length hs] hs) \<Longrightarrow> {handle_block (snd c)} \<subseteq> handle_block ` set hs" for c
      by (cases c) (auto dest: set_zip_rightD)
  qed (use round inv in simp_all)
qed

lemma mat4_batch_keeps:
  assumes inv: "vb_inv b" and off: "off + 16 < 2 ^ 64" and m: "\<forall>m \<in> set mats. length m = 16"
  shows "vb_inv (snd (set_glm_mat4_batch hs off mats b)) \<and>
    keeps (handle_block ` set hs) b (snd (set_glm_mat4_batch hs off mats b))"
proof (cases "hs = [] \<or> length hs \<noteq> length mats")
  case True
  then show ?thesis using inv by (auto simp: set_glm_mat4_batch_def)
next
  case False
  let ?f = "\<lambda>(h, m). set_block ''VectorBuffer.set-glm-mat4-batch'' 16 h off m"
  have eq: "set_glm_mat4_batch hs off mats b = run_all ?f (zip hs mats) b"
    using False by (simp add: set_glm_mat4_batch_def)
  show ?thesis unfolding eq
  proof (rule keeps_run_all [where buf = "\<lambda>b. b" and X = "\<lambda>c. {handle_block (fst c)}"])
    show "c \<in> set (zip hs mats) \<Longrightarrow> {handle_block (fst c)} \<subseteq> handle_block ` set hs" for c
      by (cases c) (auto dest: set_zip_leftD)
  qed (use set_block_keeps off m inv in \<open>auto dest!: set_zip_rightD\<close>)
qed

lemma mat4_diff_batch_keeps:
  assumes inv: "vb_inv b" and off: "off + 16 < 2 ^ 64" and m: "\<forall>m \<in> set mats. length m = 16"
  shows "vb_inv (snd (snd (set_glm_mat4_diff_batch hs off mats b))) \<and>
    keeps (handle_block ` set hs) b (snd (snd (set_glm_mat4_diff_batch hs off mats b)))"
proof (cases "hs = [] \<or> length hs \<noteq> length mats")
  case True
  then show ?thesis using inv by (auto simp: set_glm_mat4_diff_batch_def)
next
  case False
  let ?f = "\<lambda>(h, m). set_block_diff ''VectorBuffer.set-glm-mat4-diff-batch'' 16 h off m"
  have eq: "set_glm_mat4_diff_batch hs off mats b = run_all ?f (zip hs mats) (0, b)"
    using False by (simp add: set_glm_mat4_diff_batch_def)
  have "vb_inv (snd (snd (run_all ?f (zip hs mats) (0, b)))) \<and>
      keeps (handle_block ` set hs) (snd (0 :: nat, b)) (snd (snd (run_all ?f (zip hs mats) (0, b))))"
  proof (rule keeps_run_all [where buf = snd and X = "\<lambda>c. {handle_block (fst c)}"])
    show "c \<in> set (zip hs mats) \<Longrightarrow> {handle_block (fst c)} \<subseteq> handle_block ` set hs" for c
      by (cases c) (auto dest: set_zip_leftD)
  qed (use set_block_diff_keeps off m inv in \<open>auto dest!: set_zip_rightD\<close>)
  then show ?thesis by (simp add: eq)
qed

lemma clear_dirty_keeps: "vb_inv b \<Longrightarrow> vb_inv (clear_dirty b) \<and> keeps {} b (clear_dirty b)"
  by (simp add: vb_inv_def held_def keeps_def blocks_def)

lemma call_keeps:
  assumes "call_fits c" and "vb_inv b"
  shows "vb_inv (exec_call c b) \<and> keeps (named c) b (exec_call c b)"
proof (cases c)
  case (Allocate n)
  with assms allocate_keeps [of b n] show ?thesis by (auto split: sum.split)
next
  case (Write_bytes h off bytes)
  with assms set_floats_from_bytes_spec [of b off bytes h] writes_in_keeps [OF assms(2), of "handle_block h"]
  show ?thesis by auto
qed (use assms in \<open>simp_all add: delete_keeps reallocate_keeps set_block_keeps set_block_diff_keeps
    mat4_batch_keeps mat4_diff_batch_keeps set_floats_batch_keeps clear_dirty_keeps\<close>)

lemma vb_step_keeps: "vb_step X b b' \<Longrightarrow> vb_inv b \<Longrightarrow> vb_inv b' \<and> keeps X b b'"
  by (auto simp: vb_step_def call_keeps)

section \<open>The contract of a region owner\<close>

text \<open>
  What the owner of a region relies on: a call that does not name the region leaves it in place
  with its contents, so any number of such calls do.
\<close>

locale owned_regions =
  fixes inv :: "'s \<Rightarrow> bool"
    and live :: "'s \<Rightarrow> 'r set"
    and data :: "'r \<Rightarrow> 's \<Rightarrow> 'd"
    and step :: "'r set \<Rightarrow> 's \<Rightarrow> 's \<Rightarrow> bool"
  assumes step_inv: "step X s t \<Longrightarrow> inv s \<Longrightarrow> inv t"
    and step_frame: "step X s t \<Longrightarrow> inv s \<Longrightarrow> r \<in> live s \<Longrightarrow> r \<notin> X \<Longrightarrow> r \<in> live t \<and> data r t = data r s"
begin

lemma inv_steps: "(\<lambda>s t. \<exists>X. step X s t)\<^sup>*\<^sup>* s t \<Longrightarrow> inv s \<Longrightarrow> inv t"
  by (induction rule: rtranclp_induct) (auto intro: step_inv)

lemma others_steps:
  "(\<lambda>s t. \<exists>X. r \<notin> X \<and> step X s t)\<^sup>*\<^sup>* s t \<Longrightarrow> inv s \<Longrightarrow> r \<in> live s \<Longrightarrow>
    inv t \<and> r \<in> live t \<and> data r t = data r s"
  by (induction rule: rtranclp_induct) (auto dest: step_frame intro: step_inv)

end

definition region_data :: "nat \<times> nat \<Rightarrow> vbuf \<Rightarrow> u32 list" where
  "region_data r b = take (snd r) (drop (fst r) (cells b))"

lemma keeps_region_data:
  assumes "vb_inv b" and "vb_inv b'" and "keeps X b b'" and "r \<in> set (active b)" and "r \<notin> X"
  shows "r \<in> set (active b') \<and> region_data r b' = region_data r b"
proof -
  obtain i n where r: "r = (i, n)" by fastforce
  have mem: "(i, n) \<in> set (active b')" and eq: "\<And>p. i \<le> p \<Longrightarrow> p < i + n \<Longrightarrow> cells b' ! p = cells b ! p"
    using assms(3-5) by (auto simp: keeps_def r)
  have "i + n \<le> length (cells b)" "i + n \<le> length (cells b')"
    using active_bound(3) [OF assms(1)] active_bound(3) [OF assms(2) mem] assms(4) r by auto
  then have "region_data r b' = region_data r b"
    using eq by (intro nth_equalityI) (auto simp: region_data_def r)
  with mem show ?thesis by (simp add: r)
qed

interpretation vb: owned_regions vb_inv "\<lambda>b. set (active b)" region_data vb_step
proof unfold_locales
  show "vb_inv b'" if "vb_step X b b'" "vb_inv b" for X b b'
    using vb_step_keeps [OF that] by simp
  show "r \<in> set (active b') \<and> region_data r b' = region_data r b"
    if "vb_step X b b'" "vb_inv b" "r \<in> set (active b)" "r \<notin> X" for X b b' r
    using keeps_region_data [OF that(2) _ _ that(3,4)] vb_step_keeps [OF that(1,2)] by blast
qed

lemma new_buffer_inv: "new_buffer n = Inr b \<Longrightarrow> vb_inv b"
  by (auto simp: new_buffer_def vb_inv_def held_def blocks_def trimmed_def split: if_splits)

text \<open>The buffers a client can reach from a new one by calls that fit.\<close>

definition reachable_buffer :: "vbuf \<Rightarrow> bool" where
  "reachable_buffer b \<longleftrightarrow> (\<exists>n b0 cs. new_buffer n = Inr b0 \<and> (\<forall>c \<in> set cs. call_fits c) \<and> b = exec_calls cs b0)"

lemma exec_calls_steps:
  assumes "\<forall>c \<in> set cs. call_fits c \<and> r \<notin> named c"
  shows "(\<lambda>s t. \<exists>X. r \<notin> X \<and> vb_step X s t)\<^sup>*\<^sup>* b (exec_calls cs b)"
  using assms
proof (induction cs arbitrary: b)
  case (Cons c cs)
  then have "\<exists>X. r \<notin> X \<and> vb_step X b (exec_call c b)" by (auto simp: vb_step_def)
  then show ?case using Cons by (simp add: exec_calls_def) (rule converse_rtranclp_into_rtranclp)
qed (simp add: exec_calls_def)

lemma exec_calls_inv:
  assumes "\<forall>c \<in> set cs. call_fits c" and "vb_inv b"
  shows "vb_inv (exec_calls cs b)"
  using assms by (induction cs arbitrary: b) (simp_all add: exec_calls_def call_keeps)

lemma reachable_inv: "reachable_buffer b \<Longrightarrow> vb_inv b"
  using exec_calls_inv new_buffer_inv by (auto simp: reachable_buffer_def)

end
