(* ===== verification/Vector_Properties.thy ===== *)
theory Vector_Properties
  imports Vector_Steps
begin

text \<open>
  The properties of the region allocator and of the writes through it.
\<close>

section \<open>An example buffer\<close>

text \<open>Three regions of one, two and one cells, the middle one released again.\<close>

definition example_buffer :: vbuf where
  "example_buffer = \<lparr>cells = [5, 0, 0, 7], free_from = 4, dirty_from = 1, dirty_to = 3,
     freed = [(2, [vhandle 1 2])], active = [(0, 1), (3, 1)], wild = False\<rparr>"

definition empty_buffer :: vbuf where
  "empty_buffer = \<lparr>cells = [0, 0, 0, 0], free_from = 0, dirty_from = size_max, dirty_to = 0,
     freed = [], active = [], wild = False\<rparr>"

lemma replicate_cells: "replicate 2 (0 :: u32) = [0, 0]" "replicate 4 (0 :: u32) = [0, 0, 0, 0]"
  by (simp_all add: numeral_eq_Suc)

lemma empty_reachable: "reachable_buffer empty_buffer"
  unfolding reachable_buffer_def
proof (intro exI conjI)
  show "new_buffer 4 = Inr empty_buffer"
    by (simp add: new_buffer_def max_cells_def clear_dirty_def empty_buffer_def replicate_cells)
  show "empty_buffer = exec_calls [] empty_buffer" by (simp add: exec_calls_def)
qed simp

lemmas vector_eval = allocate_def delete_handle_def validate_handle_def release_region_def zero_region_def
  mark_dirty_def has_dirty_def clear_dirty_def fill_cells_def set_float_def set_block_def with_view_def
  validate_handle_range_def view_def store_def touch_def elem_def wrap_def size_max_def max_cells_def
  reallocate_def bind_result_def Let_def ok_def replicate_cells

lemma reachable_call:
  assumes "reachable_buffer b" and "call_fits c"
  shows "reachable_buffer (exec_call c b)"
proof -
  obtain n b0 cs where "new_buffer n = Inr b0" "\<forall>c \<in> set cs. call_fits c" "b = exec_calls cs b0"
    using assms(1) by (auto simp: reachable_buffer_def)
  with assms(2) have "new_buffer n = Inr b0 \<and> (\<forall>c \<in> set (cs @ [c]). call_fits c) \<and> exec_call c b = exec_calls (cs @ [c]) b0"
    by (auto simp: exec_calls_def)
  then show ?thesis unfolding reachable_buffer_def by blast
qed

definition example_calls :: "vb_call list" where
  "example_calls = [Allocate 1, Allocate 2, Allocate 1, Write ''w'' (vhandle 0 1) 0 [5], Write ''w'' (vhandle 3 1) 0 [7],
     Clear_dirty, Delete (vhandle 1 2)]"

lemma example_calls_fit: "\<forall>c \<in> set example_calls. call_fits c"
  by (simp add: example_calls_def)

lemma example_new: "new_buffer 4 = Inr empty_buffer"
  by (simp add: new_buffer_def max_cells_def clear_dirty_def empty_buffer_def replicate_cells)

lemma example_exec: "exec_calls example_calls empty_buffer = example_buffer"
proof -
  define b1 where "b1 = empty_buffer\<lparr>free_from := 1, active := [(0, 1)]\<rparr>"
  define b2 where "b2 = b1\<lparr>free_from := 3, active := [(0, 1), (1, 2)]\<rparr>"
  define b3 where "b3 = b2\<lparr>free_from := 4, active := [(0, 1), (1, 2), (3, 1)]\<rparr>"
  define b4 where "b4 = b3\<lparr>cells := [5, 0, 0, 0], dirty_from := 0, dirty_to := 1\<rparr>"
  define b5 where "b5 = b4\<lparr>cells := [5, 0, 0, 7], dirty_from := 0, dirty_to := 4\<rparr>"
  note bs = b1_def b2_def b3_def b4_def b5_def empty_buffer_def
  have "exec_call (Allocate 1) empty_buffer = b1" by (simp add: bs vector_eval)
  moreover have "exec_call (Allocate 2) b1 = b2" by (simp add: bs vector_eval)
  moreover have "exec_call (Allocate 1) b2 = b3" by (simp add: bs vector_eval)
  moreover have "exec_call (Write ''w'' (vhandle 0 1) 0 [5]) b3 = b4" by (simp add: bs vector_eval)
  moreover have "exec_call (Write ''w'' (vhandle 3 1) 0 [7]) b4 = b5" by (simp add: bs vector_eval)
  moreover have "exec_call (Delete (vhandle 1 2)) (exec_call Clear_dirty b5) = example_buffer"
    by (simp add: bs vector_eval example_buffer_def)
  ultimately show ?thesis by (simp add: exec_calls_def example_calls_def)
qed

lemma example_buffer_reachable: "reachable_buffer example_buffer"
  unfolding reachable_buffer_def using example_new example_calls_fit example_exec by metis

section \<open>Properties\<close>

text \<open>C10: The regions tile the array. Let a client make any sequence of calls on a new buffer, with whatever handles, in
  which no offset plus count reaches 2^64, no requested size reaches 2^63, no batch has 2^64 values or more and a matrix
  has sixteen floats. Then the active and the free regions tile the array up to its logical length: every cell below
  the length belongs to exactly one region and no region reaches beyond it. The length stays within the storage, free
  regions hold zeros, the dirty interval ends below the length, and no call has accessed memory outside the storage.
  The code does not check the bounds: beyond them the regions may overlap (\<open>wrapped_offset_corrupts\<close>,
  \<open>huge_allocation_overlaps\<close>).\<close>

theorem regions_tile:
  assumes "new_buffer n = Inr b0" and "\<forall>c \<in> set cs. call_fits c" and "b = exec_calls cs b0"
  shows "(\<forall>p. size (filter_mset (covers p) (mset (active b) + free_blocks (freed b))) =
      (if p < free_from b then 1 else 0)) \<and>
    free_from b \<le> length (cells b) \<and> \<not> wild b \<and> snd (dirty_range b) \<le> free_from b \<and>
    (\<forall>r \<in> set_mset (free_blocks (freed b)). \<forall>p. covers p r \<longrightarrow> cells b ! p = 0)"
proof -
  have inv: "vb_inv b" using exec_calls_inv [OF assms(2) new_buffer_inv [OF assms(1)]] by (simp add: assms(3))
  note H = heldD [OF vb_invD(1) [OF inv]]
  show ?thesis
    using vb_invD(4) [OF inv] H(1,8,10) H(9)
    by (simp add: tiles_def blocks_def dirty_range_def)
qed

theorem regions_tile_witness:
  "let b = exec_calls example_calls empty_buffer in b = example_buffer \<and>
   size (filter_mset (covers 1) (mset (active b) + free_blocks (freed b))) = 1"
proof -
  have "size (filter_mset (covers 1) (mset (active example_buffer) + free_blocks (freed example_buffer))) =
      (if 1 < free_from example_buffer then 1 else 0)"
    using regions_tile [OF example_new example_calls_fit example_exec [symmetric]] by blast
  then show ?thesis by (simp add: example_exec Let_def) (simp add: example_buffer_def)
qed

text \<open>An allocation either returns a handle of the requested size for a region that is active afterwards,
shares no cell with any region active before, and leaves those regions active with their contents; or it
throws, which happens only when the grown array would exceed the vector's maximal length.\<close>

theorem allocate_fresh:
  assumes "reachable_buffer b" and "0 < n" and "n < 2 ^ 63"
  shows "case allocate n b of
      Inl e \<Rightarrow> e = length_error \<and> max_cells < 2 * length (cells b) + n
    | Inr (h, b') \<Rightarrow> v_size h = n \<and> is_active h b' \<and> v_index h + n \<le> free_from b' \<and>
        (\<forall>r \<in> set (active b). (\<forall>p. \<not> (covers p r \<and> covers p (v_index h, n))) \<and>
           r \<in> set (active b') \<and> region_data r b' = region_data r b)"
proof (cases "allocate n b")
  case (Inl e)
  have len: "length (cells b) \<le> max_cells" "free_from b \<le> length (cells b)"
    using vb_invD(2,3) [OF reachable_inv [OF assms(1)]] by auto
  then have w: "wrap (2 * length (cells b) + n) = 2 * length (cells b) + n"
    using assms(3) by (intro wrap_less) (simp add: max_cells_def)
  from Inl assms(2) w have "e = length_error \<and> max_cells < 2 * length (cells b) + n"
    by (auto simp: allocate_def resize_buffer_def bind_result_def Let_def
        split: option.splits list.splits if_splits sum.splits)
  then show ?thesis by (simp add: Inl)
next
  case (Inr hb)
  obtain h b' where hb: "hb = (h, b')" by fastforce
  note inv = reachable_inv [OF assms(1)]
  have al: "allocate n b = Inr (h, b')" using Inr hb by simp
  from allocate_spec [OF inv assms(2,3) al] have S: "vb_inv b'" "v_size h = n"
    "mset (active b') = add_mset (handle_block h) (mset (active b))" by simp_all
  have hn: "handle_block h = (v_index h, n)" by (simp add: handle_block_def S(2))
  have mem: "(v_index h, n) \<in> set (active b')"
    using arg_cong [OF S(3), of set_mset] by (simp add: hn)
  have "tiles (add_mset (v_index h, n) (mset (active b) + free_blocks (freed b'))) (free_from b')"
    using vb_invD(4) [OF S(1)] by (simp add: blocks_def S(3) hn)
  then have apart: "\<not> (covers p r \<and> covers p (v_index h, n))" if "r \<in> set (active b)" for p r
    using tiles_disjoint_in [of "(v_index h, n)" "mset (active b) + free_blocks (freed b')" "free_from b'" r p] that
    by auto
  have kept: "r \<in> set (active b') \<and> region_data r b' = region_data r b" if "r \<in> set (active b)" for r
    using keeps_region_data [OF inv S(1) _ that, of "{}"] allocate_keeps [OF inv assms(3) al] by simp
  show ?thesis
    using active_bound(2) [OF S(1) mem] active_block [OF S(1)] mem apart kept S(2)
    by (simp add: al is_active_def)
qed

theorem allocate_fresh_witness:
  "v_index (fst (projr (allocate 2 example_buffer))) = 1 \<and>
   region_data (3, 1) (snd (projr (allocate 2 example_buffer))) = [7]"
proof -
  have al: "allocate 2 example_buffer = Inr (vhandle 1 2, example_buffer\<lparr>freed := [],
      active := [(0, 1), (3, 1), (1, 2)]\<rparr>)"
    by (simp add: example_buffer_def vector_eval AList.delete_eq)
  have "region_data (3, 1) (example_buffer\<lparr>freed := [], active := [(0, 1), (3, 1), (1, 2)]\<rparr>) =
      region_data (3, 1) example_buffer"
    using allocate_fresh [OF example_buffer_reachable, of 2] by (simp add: al) (simp add: example_buffer_def)
  then show ?thesis by (simp add: al) (simp add: region_data_def example_buffer_def)
qed

text \<open>C11: A region belongs to its owner. Take a buffer a client has reached from a new one and any further sequence of
  calls, none of which names the region (by its exact position and size). If in all these calls no offset plus count
  reaches 2^64, no requested size reaches 2^63, no batch has 2^64 values or more and a matrix has sixteen floats, then
  the region is still active with its contents unchanged. The code does not check the bounds: a call with an offset
  that wraps around writes into a region it does not name (\<open>wrapped_offset_corrupts\<close>).\<close>

theorem region_isolated:
  assumes "reachable_buffer b" and "r \<in> set (active b)" and "\<forall>c \<in> set cs. call_fits c \<and> r \<notin> named c"
  shows "r \<in> set (active (exec_calls cs b)) \<and> region_data r (exec_calls cs b) = region_data r b"
  using vb.others_steps [OF exec_calls_steps [OF assms(3)] reachable_inv [OF assms(1)] assms(2)] by simp

theorem region_isolated_witness:
  "region_data (0, 1) (exec_calls [Delete (vhandle 3 1), Allocate 2, Write ''w'' (vhandle 1 2) 0 [8, 9]] example_buffer) = [5]"
  using region_isolated [OF example_buffer_reachable, of "(0, 1)"
      "[Delete (vhandle 3 1), Allocate 2, Write ''w'' (vhandle 1 2) 0 [8, 9]]"]
  by (simp add: handle_block_def) (simp add: example_buffer_def region_data_def)

text \<open>C12: Nothing leaks: once every region has been released the logical length is zero again and no free
region is left behind, in whatever order the regions were allocated, resized and released.\<close>

theorem all_released_empty:
  assumes "reachable_buffer b" and "active b = []"
  shows "free_from b = 0 \<and> freed b = [] \<and> free_count b = 0 \<and> \<not> has_dirty b"
proof -
  note inv = reachable_inv [OF assms(1)]
  have zero: "free_from b = 0"
  proof (rule ccontr)
    assume "free_from b \<noteq> 0"
    then obtain i s where "(i, s) \<in># blocks b" "i + s = free_from b"
      using tiles_nonempty [OF vb_invD(4) [OF inv]] by blast
    then show False using vb_invD(8) [OF inv] assms(2) by (auto simp: blocks_def trimmed_def)
  qed
  have "x \<notin># blocks b" for x
    using held_bound(1) [OF vb_invD(1) [OF inv], of x] vb_invD(5) [OF inv] zero by (force simp: sized_def)
  then have "blocks b = {#}" by (metis multiset_nonemptyE)
  then have none: "free_blocks (freed b) = {#}" by (simp add: blocks_def)
  have "freed b = []"
  proof (cases "freed b")
    case (Cons e m)
    then show ?thesis using none vb_invD(7) [OF inv] by (cases e) (auto simp: tables_def)
  qed
  then show ?thesis using zero heldD(8) [OF vb_invD(1) [OF inv]] by (auto simp: free_count_def has_dirty_def)
qed

theorem all_released_empty_witness:
  "free_from (snd (delete_handle (vhandle 0 1) (snd (delete_handle (vhandle 3 1) example_buffer)))) = 0"
proof -
  define b1 where "b1 = snd (delete_handle (vhandle 3 1) example_buffer)"
  define b2 where "b2 = snd (delete_handle (vhandle 0 1) b1)"
  have r1: "reachable_buffer b1" unfolding b1_def using reachable_call [OF example_buffer_reachable, of "Delete (vhandle 3 1)"] by simp
  have r2: "reachable_buffer b2" unfolding b2_def using reachable_call [OF r1, of "Delete (vhandle 0 1)"] by simp
  have inv: "vb_inv example_buffer" by (rule reachable_inv [OF example_buffer_reachable])
  obtain c1 where c1: "delete_handle (vhandle 3 1) example_buffer = ok c1" "vb_inv c1"
    "active c1 = AList.delete 3 (active example_buffer)"
    using delete_handle_spec [OF inv, of "vhandle 3 1"] by (auto simp: handle_block_def example_buffer_def)
  have a1: "active b1 = [(0, 1)]" using c1 by (simp add: b1_def example_buffer_def AList.delete_eq)
  obtain c2 where "delete_handle (vhandle 0 1) b1 = ok c2" "active c2 = AList.delete 0 (active b1)"
    using delete_handle_spec [OF reachable_inv [OF r1], of "vhandle 0 1"] a1
    by (auto simp: handle_block_def)
  then have "active b2 = []" by (simp add: b2_def a1 AList.delete_eq)
  from all_released_empty [OF r2 this] show ?thesis by (simp add: b2_def b1_def)
qed

text \<open>C13: The diff write is the plain write as far as float comparison can tell: it throws in the same cases, with
the buffer untouched; otherwise every cell ends up with the same bits, or with a float that compares equal,
it counts the cells that compared different before, and when none did it changes no cell.\<close>

theorem diff_write_equivalent:
  assumes "reachable_buffer b" and "xs \<noteq> []" and "off + length xs < 2 ^ 64"
  shows "case set_floats_diff h off xs b of
      (Some e, cb) \<Rightarrow> cb = (0, b) \<and>
        set_block ''VectorBuffer.set-floats-diff'' (length xs) h off xs b = throw e b
    | (None, c, b') \<Rightarrow> (\<exists>w. set_block ''VectorBuffer.set-floats-diff'' (length xs) h off xs b = ok w \<and>
        length (cells b') = length (cells w) \<and>
        (\<forall>p < length (cells w). cells b' ! p = cells w ! p \<or> \<not> f32_ne (cells b' ! p) (cells w ! p)) \<and>
        c = length (filter (\<lambda>(a, x). f32_ne a x) (zip (take (length xs) (drop (v_index h + off) (cells b))) xs)) \<and>
        (c = 0 \<longrightarrow> cells b' = cells b))"
proof -
  let ?l = "''VectorBuffer.set-floats-diff''"
  note inv = reachable_inv [OF assms(1)]
  have eq: "set_floats_diff h off xs b = set_block_diff ?l (length xs) h off xs (0, b)"
    using assms(2) by (simp add: set_floats_diff_def)
  show ?thesis
  proof (cases "bind_result (validate_handle_range h off (length xs) ?l b) (\<lambda>_. view h b)")
    case (Inl e)
    then show ?thesis by (simp add: eq set_block_diff_def set_block_def with_view_def throw_def)
  next
    case (Inr p0)
    define old where "old = take (length xs) (drop (v_index h + off) (cells b))"
    obtain b' where D: "handle_block h \<in> set (active b)" "off + length xs \<le> v_size h"
      "set_block_diff ?l (length xs) h off xs (0, b) = ok (diff_count old xs, b')"
      "cells b' = overwrite (v_index h + off) (diff_cells old xs) (cells b)"
      using set_block_diff_spec [OF inv assms(3) refl, of ?l h 0] Inr
      by (auto simp: set_block_diff_def ok_def throw_def old_def)
    define w where "w = mark_dirty (v_index h + off) (length xs)
      (b\<lparr>cells := overwrite (v_index h + off) xs (cells b)\<rparr>)"
    have W: "set_block ?l (length xs) h off xs b = ok w"
      using set_block_spec [OF inv assms(3) refl, of ?l h] Inr
      by (auto simp: set_block_def with_view_def ok_def throw_def w_def)
    have le: "v_index h + off + length xs \<le> length (cells b)"
      using active_bound(3) [OF inv, of "v_index h" "v_size h"] D(1,2) by (simp add: handle_block_def)
    then have lo: "length old = length xs" by (simp add: old_def)
    then have ld: "length (diff_cells old xs) = length xs" by (simp add: diff_cells_def)
    have cell: "cells b' ! p = cells w ! p \<or> \<not> f32_ne (cells b' ! p) (cells w ! p)" if "p < length (cells b)" for p
      using that le lo ld by (auto simp: D(4) w_def overwrite_nth diff_cells_def split: if_splits)
    have none: "cells b' = cells b" if "diff_count old xs = 0"
    proof -
      have "\<not> f32_ne (old ! i) (xs ! i)" if "i < length xs" for i
        using \<open>diff_count old xs = 0\<close> that lo
        by (force simp: diff_count_def filter_empty_conv in_set_zip)
      then have "diff_cells old xs = old"
        using lo by (intro nth_equalityI) (auto simp: diff_cells_def)
      then show ?thesis
        using le by (intro nth_equalityI) (auto simp: D(4) overwrite_length overwrite_nth lo old_def)
    qed
    show ?thesis
      using cell none W D(3) le ld
      by (simp add: eq ok_def D(4) w_def overwrite_length diff_count_def old_def)
  qed
qed

theorem diff_write_equivalent_witness:
  "cells (snd (snd (set_floats_diff (vhandle 3 1) 0 [9] example_buffer))) ! 3 = 9"
proof -
  have e: "set_floats_diff (vhandle 3 1) 0 [9] example_buffer =
      (None, 1, example_buffer\<lparr>cells := [5, 0, 0, 9], dirty_from := 1, dirty_to := 4\<rparr>)"
    by (simp add: example_buffer_def vector_eval set_floats_diff_def set_block_diff_def peek_def
        f32_ne_def f32_nan_def)
  have w: "set_block ''VectorBuffer.set-floats-diff'' 1 (vhandle 3 1) 0 [9] example_buffer =
      ok (example_buffer\<lparr>cells := [5, 0, 0, 9], dirty_from := 1, dirty_to := 4\<rparr>)"
    by (simp add: example_buffer_def vector_eval)
  from diff_write_equivalent [OF example_buffer_reachable, of "[9]" 0 "vhandle 3 1"]
  have "\<forall>p < 4. [5, 0, 0, 9 :: u32] ! p = [5, 0, 0, 9] ! p \<or> \<not> f32_ne ([5, 0, 0, 9] ! p) ([5, 0, 0, 9] ! p)"
    unfolding e by (simp add: w)
  then show ?thesis unfolding e by simp
qed

section \<open>Where the checks fall short\<close>

text \<open>
  The range check adds offset and length without regard to wrap-around: an offset of \<open>-1\<close> (from a
  script: \<open>2 ^ 64 - 1\<close>) passes and the write lands on the last cell of the neighbour.
\<close>

lemma wrapped_offset_corrupts:
  "set_float (vhandle 3 1) size_max 9 example_buffer =
    ok (example_buffer\<lparr>cells := [5, 0, 9, 7]\<rparr>)"
  by (simp add: example_buffer_def vector_eval)

text \<open>
  A request that wraps the logical length is accepted: the length shrinks, and the next allocation is
  handed a region that is still active.
\<close>

definition wrapped_buffer :: vbuf where
  "wrapped_buffer = empty_buffer\<lparr>free_from := 0, active := [(0, 1), (1, size_max)]\<rparr>"

lemma huge_allocation_overlaps:
  "allocate 1 empty_buffer = Inr (vhandle 0 1, empty_buffer\<lparr>free_from := 1, active := [(0, 1)]\<rparr>) \<and>
   allocate size_max (empty_buffer\<lparr>free_from := 1, active := [(0, 1)]\<rparr>) =
     Inr (vhandle 1 size_max, wrapped_buffer) \<and>
   allocate 1 wrapped_buffer = Inr (vhandle 0 1, wrapped_buffer\<lparr>free_from := 1\<rparr>)"
  by (simp add: empty_buffer_def wrapped_buffer_def vector_eval)

text \<open>A handle kept beyond its release is valid again once its region is handed out in the same shape.\<close>

lemma stale_handle_accepted:
  "allocate 2 example_buffer = Inr (vhandle 1 2, b) \<Longrightarrow> view (vhandle 1 2) b = Inr 1"
  by (auto simp: example_buffer_def vector_eval AList.delete_eq)

end
