(* ===== verification/Job_System.thy ===== *)
theory Job_System
  imports Prelude
begin

text \<open>
  The worker pool of \<open>src/src/job_system.h\<close> and \<open>src/src/job_system.cpp\<close>: requests with fresh ids, a table of
  handlers by kind, the queue of jobs, the list of completed results and the polls that drain it.

  A call is cut where the code releases or takes a mutex, so that calls of several threads and the workers
  interleave: the state of each worker and of each \<open>submit\<close> in progress is part of the state of the pool.
  A handler is a parameter: a function from the request to what its call ends with. Requests carry their
  own id, so a handler may answer every request differently.
\<close>

section \<open>Requests, results, handlers\<close>

datatype job_owner = Engine_owner | Lua_owner

record job_request =
  q_id :: nat
  q_kind :: string
  q_payload :: string
  q_owner :: job_owner

text \<open>Native memory handed over with a result: its address, none for \<open>nullptr\<close>, and its shape.\<close>

record native_payload =
  np_data :: "nat option"
  np_size_bytes :: nat
  np_alignment :: nat
  np_element_size :: nat

definition no_payload :: native_payload where
  "no_payload = \<lparr>np_data = None, np_size_bytes = 0, np_alignment = 1, np_element_size = 1\<rparr>"

definition from_owned :: "nat option \<Rightarrow> nat \<Rightarrow> nat \<Rightarrow> nat \<Rightarrow> native_payload" where
  "from_owned p bytes alignment elem =
    no_payload\<lparr>np_data := p, np_size_bytes := bytes, np_alignment := alignment, np_element_size := elem\<rparr>"

definition from_array :: "nat option \<Rightarrow> nat \<Rightarrow> nat \<Rightarrow> nat \<Rightarrow> native_payload" where
  "from_array p cnt elem alignment = from_owned p (cnt * elem mod 2 ^ 64) alignment elem"

record job_result =
  r_id :: nat
  r_ok :: bool
  r_kind :: string
  r_result :: string
  r_error :: string
  r_payload :: native_payload
  r_aux_a :: int
  r_aux_b :: int
  r_aux_c :: int
  r_aux_d :: int
  r_owner :: job_owner

definition plain_result :: "nat \<Rightarrow> bool \<Rightarrow> string \<Rightarrow> string \<Rightarrow> string \<Rightarrow> job_owner \<Rightarrow> job_result" where
  "plain_result i k kind res err own =
    \<lparr>r_id = i, r_ok = k, r_kind = kind, r_result = res, r_error = err, r_payload = no_payload,
     r_aux_a = 0, r_aux_b = 0, r_aux_c = 0, r_aux_d = 0, r_owner = own\<rparr>"

datatype handler_run =
  Returned job_result
| Threw string      \<comment> \<open>an exception derived from \<open>std::exception\<close>, with its \<open>what()\<close>\<close>
| Threw_other

type_synonym job_handler = "job_request \<Rightarrow> handler_run"

section \<open>The shared state\<close>

record job_system =
  stop :: bool
  next_id :: nat
  handlers :: "(string \<times> job_handler) list"
  job_queue :: "job_request list"
  completed :: "job_result list"

definition resolve_thread_count :: "nat \<Rightarrow> nat \<Rightarrow> nat" where
  "resolve_thread_count requested hardware =
    (if requested > 0 then requested
     else if hardware = 0 then 1
     else max 1 (hardware - 1))"

definition initial_jobs :: job_system where
  "initial_jobs = \<lparr>stop = False, next_id = 1, handlers = [], job_queue = [], completed = []\<rparr>"

text \<open>An empty \<open>std::function\<close> is \<open>None\<close>.\<close>

definition register_handler :: "string \<Rightarrow> job_handler option \<Rightarrow> job_system \<Rightarrow> job_system outcome" where
  "register_handler kind h j =
    (case h of
       None \<Rightarrow> throw (Invalid_argument ''Job handler must not be empty'') j
     | Some f \<Rightarrow> ok (j\<lparr>handlers := AList.update kind f (handlers j)\<rparr>))"

section \<open>Submitting\<close>

definition fetch_id :: "job_system \<Rightarrow> nat \<times> job_system" where
  "fetch_id j = (next_id j, j\<lparr>next_id := (next_id j + 1) mod 2 ^ 64\<rparr>)"

definition unknown_kind :: "job_request \<Rightarrow> job_result" where
  "unknown_kind r = plain_result (q_id r) False (q_kind r) [] (''Unknown job kind: '' @ q_kind r) (q_owner r)"

text \<open>The section under \<open>handlerMutex\<close>: whether the call ends here, and the state it leaves.\<close>

definition submit_check :: "job_request \<Rightarrow> job_system \<Rightarrow> bool \<times> job_system" where
  "submit_check r j =
    (if map_of (handlers j) (q_kind r) = None
     then (True, j\<lparr>completed := completed j @ [unknown_kind r]\<rparr>)
     else (False, j))"

definition submit_push :: "job_request \<Rightarrow> job_system \<Rightarrow> job_system" where
  "submit_push r j = j\<lparr>job_queue := job_queue j @ [r]\<rparr>"

definition submit :: "string \<Rightarrow> string \<Rightarrow> job_owner \<Rightarrow> job_system \<Rightarrow> nat \<times> job_system" where
  "submit kind payload own j =
    (case fetch_id j of (i, j) \<Rightarrow>
       let r = \<lparr>q_id = i, q_kind = kind, q_payload = payload, q_owner = own\<rparr>
       in case submit_check r j of
         (True, j) \<Rightarrow> (i, j)
       | (False, j) \<Rightarrow> (i, submit_push r j))"

section \<open>Polling\<close>

definition poll :: "nat \<Rightarrow> job_system \<Rightarrow> job_result list \<times> job_system" where
  "poll n j =
    (if completed j = [] then ([], j)
     else if n = 0 \<or> n \<ge> length (completed j) then (completed j, j\<lparr>completed := []\<rparr>)
     else (take n (completed j), j\<lparr>completed := drop n (completed j)\<rparr>))"

text \<open>The erasing loop the selective polls share; \<open>n\<close> is how many results are still wanted.\<close>

fun select :: "('a \<Rightarrow> bool) \<Rightarrow> nat \<Rightarrow> 'a list \<Rightarrow> 'a list \<times> 'a list" where
  "select P n [] = ([], [])"
| "select P n (x # xs) =
    (if n = 0 then ([], x # xs)
     else if P x then (case select P (n - 1) xs of (out, rest) \<Rightarrow> (x # out, rest))
     else (case select P n xs of (out, rest) \<Rightarrow> (out, x # rest)))"

definition poll_where :: "(job_result \<Rightarrow> bool) \<Rightarrow> nat \<Rightarrow> job_system \<Rightarrow> job_result list \<times> job_system" where
  "poll_where P n j =
    (if completed j = [] then ([], j)
     else case select P (if n = 0 then length (completed j) else n) (completed j) of
       (out, rest) \<Rightarrow> (out, j\<lparr>completed := rest\<rparr>))"

definition poll_kind :: "string \<Rightarrow> nat \<Rightarrow> job_system \<Rightarrow> job_result list \<times> job_system" where
  "poll_kind kind = poll_where (\<lambda>r. r_kind r = kind)"

definition poll_owner :: "job_owner \<Rightarrow> nat \<Rightarrow> job_system \<Rightarrow> job_result list \<times> job_system" where
  "poll_owner own = poll_where (\<lambda>r. r_owner r = own)"

definition poll_kind_owner :: "string \<Rightarrow> job_owner \<Rightarrow> nat \<Rightarrow> job_system \<Rightarrow> job_result list \<times> job_system" where
  "poll_kind_owner kind own = poll_where (\<lambda>r. r_kind r = kind \<and> r_owner r = own)"

section \<open>Workers\<close>

text \<open>
  \<open>pop_job\<close> takes the mutex and evaluates the predicate of the wait: no value when it is false and
  the thread is about to block, otherwise what the call returns.
\<close>

definition pop_job :: "job_system \<Rightarrow> (job_request option \<times> job_system) option" where
  "pop_job j =
    (if \<not> (stop j \<or> job_queue j \<noteq> []) then None
     else case job_queue j of
       [] \<Rightarrow> Some (None, j)
     | r # rs \<Rightarrow> Some (Some r, j\<lparr>job_queue := rs\<rparr>))"

text \<open>The result of a request, from the handler the worker looked up.\<close>

definition run_job :: "job_handler option \<Rightarrow> job_request \<Rightarrow> job_result" where
  "run_job h r =
    (let result = plain_result (q_id r) False (q_kind r) [] [] Engine_owner;
         result = (case h of
             None \<Rightarrow> result\<lparr>r_error := ''Unknown job kind: '' @ q_kind r\<rparr>
           | Some f \<Rightarrow> (case f r of
               Returned x \<Rightarrow> x\<lparr>r_id := q_id r\<rparr>
             | Threw what \<Rightarrow> result\<lparr>r_ok := False, r_error := what\<rparr>
             | Threw_other \<Rightarrow> result\<lparr>r_ok := False, r_error := ''Unhandled exception in job handler''\<rparr>))
     in result\<lparr>r_owner := q_owner r\<rparr>)"

text \<open>
  Where a worker stands in \<open>worker_loop\<close>: before the test of \<open>stop\<close>; before the predicate of the wait;
  with the predicate found false and \<open>queueMutex\<close> held, not yet blocked; blocked; with a request; with the
  handler looked up; with the result; gone.
\<close>

datatype worker =
  At_test
| At_wait
| Found_idle
| Blocked
| Popped job_request
| Looked_up job_request "job_handler option"
| Has_result job_result
| Exited

definition worker_turn :: "worker \<Rightarrow> job_system \<Rightarrow> worker \<times> job_system" where
  "worker_turn w j =
    (case w of
       At_test \<Rightarrow> (if stop j then Exited else At_wait, j)
     | At_wait \<Rightarrow> (case pop_job j of
           None \<Rightarrow> (Found_idle, j)
         | Some (None, j) \<Rightarrow> (Exited, j)
         | Some (Some r, j) \<Rightarrow> (Popped r, j))
     | Found_idle \<Rightarrow> (Blocked, j)
     | Popped r \<Rightarrow> (Looked_up r (map_of (handlers j) (q_kind r)), j)
     | Looked_up r h \<Rightarrow> (Has_result (run_job h r), j)
     | Has_result x \<Rightarrow> (At_test, j\<lparr>completed := completed j @ [x]\<rparr>)
     | Blocked \<Rightarrow> (Blocked, j)
     | Exited \<Rightarrow> (Exited, j))"

section \<open>The pool\<close>

datatype shutdown_phase = Running | Stop_stored | Joining | Returned_from_shutdown

datatype pending_submit = To_check job_request | To_push job_request | To_notify

text \<open>\<open>delivered\<close> is a ghost: every result a poll has returned.\<close>

record pool =
  jobs :: job_system
  workers :: "worker list"
  submits :: "pending_submit list"
  phase :: shutdown_phase
  delivered :: "job_result list"

definition construct_pool :: "nat \<Rightarrow> nat \<Rightarrow> pool" where
  "construct_pool requested hardware =
    \<lparr>jobs = initial_jobs, workers = replicate (resolve_thread_count requested hardware) At_test,
     submits = [], phase = Running, delivered = []\<rparr>"

text \<open>\<open>queueMutex\<close> is held across sections only by a worker that has found nothing to do.\<close>

definition queue_free :: "pool \<Rightarrow> bool" where
  "queue_free p = (Found_idle \<notin> set (workers p))"

definition notify_all :: "pool \<Rightarrow> pool" where
  "notify_all p = p\<lparr>workers := map (\<lambda>w. if w = Blocked then At_wait else w) (workers p)\<rparr>"

text \<open>\<open>shutdown\<close>: the exchange of \<open>stop\<close>, the notification, the joins.\<close>

definition shutdown_store :: "pool \<Rightarrow> pool" where
  "shutdown_store p =
    (if stop (jobs p) then p else p\<lparr>jobs := (jobs p)\<lparr>stop := True\<rparr>, phase := Stop_stored\<rparr>)"

definition shutdown_notify :: "pool \<Rightarrow> pool" where
  "shutdown_notify p = (notify_all p)\<lparr>phase := Joining\<rparr>"

definition shutdown_joined :: "pool \<Rightarrow> bool" where
  "shutdown_joined p = list_all (\<lambda>w. w = Exited) (workers p)"

section \<open>The default handlers\<close>

definition is_space :: "char \<Rightarrow> bool" where
  "is_space c = (c \<in> set [CHR '' '', CHR 0x09, CHR 0x0A, CHR 0x0B, CHR 0x0C, CHR 0x0D])"

definition is_digit :: "char \<Rightarrow> bool" where
  "is_digit c = (48 \<le> (of_char c :: nat) \<and> (of_char c :: nat) \<le> 57)"

fun decimal :: "nat \<Rightarrow> string \<Rightarrow> nat" where
  "decimal n [] = n"
| "decimal n (c # cs) = (if is_digit c then decimal (10 * n + (of_char c - 48)) cs else n)"

text \<open>\<open>std::stoul\<close> in base 10, with the text its exceptions carry.\<close>

definition stoul :: "string \<Rightarrow> nat result" where
  "stoul s =
    (let s = dropWhile is_space s;
         neg = (s \<noteq> [] \<and> hd s = CHR ''-'');
         s = (if s \<noteq> [] \<and> (hd s = CHR ''-'' \<or> hd s = CHR ''+'') then tl s else s)
     in if s = [] \<or> \<not> is_digit (hd s) then Inl (Invalid_argument ''stoul'')
        else if decimal 0 s \<ge> 2 ^ 64 then Inl (Out_of_range ''stoul'')
        else Inr (if neg then (2 ^ 64 - decimal 0 s) mod 2 ^ 64 else decimal 0 s))"

definition echo_handler :: job_handler where
  "echo_handler r = Returned (plain_result (q_id r) True (q_kind r) (q_payload r) [] Engine_owner)"

text \<open>Sleeping changes nothing but the time.\<close>

definition sleep_ms_handler :: job_handler where
  "sleep_ms_handler r =
    (case stoul (q_payload r) of
       Inr _ \<Rightarrow> Returned (plain_result (q_id r) True (q_kind r) (q_payload r) [] Engine_owner)
     | Inl _ \<Rightarrow> Returned (plain_result (q_id r) False (q_kind r) [] ''sleep_ms: stoul'' Engine_owner))"

definition to_upper :: "char \<Rightarrow> char" where
  "to_upper c =
    (if 97 \<le> (of_char c :: nat) \<and> (of_char c :: nat) \<le> 122 then char_of (of_char c - 32 :: nat) else c)"

definition uppercase_handler :: job_handler where
  "uppercase_handler r =
    Returned (plain_result (q_id r) True (q_kind r) (map to_upper (q_payload r)) [] Engine_owner)"

definition register_default_job_handlers :: "job_system \<Rightarrow> job_system outcome" where
  "register_default_job_handlers j =
    and_then (register_handler ''echo'' (Some echo_handler) j) (\<lambda>j.
    and_then (register_handler ''sleep_ms'' (Some sleep_ms_handler) j) (\<lambda>j.
    register_handler ''uppercase'' (Some uppercase_handler) j))"

end
