(* ===== verification/Job_Properties.thy ===== *)
theory Job_Properties
  imports Job_System "HOL-Library.Multiset"
begin

text \<open>
  The steps of a worker pool with its callers, the conservation of jobs, the polls against their
  specification, and what a shutdown may leave behind.
\<close>

section \<open>Polls\<close>

text \<open>What a selective poll of at most \<open>n\<close> results must return and leave.\<close>

definition chosen :: "('a \<Rightarrow> bool) \<Rightarrow> nat \<Rightarrow> 'a list \<Rightarrow> 'a list" where
  "chosen P n xs = take n (filter P xs)"

fun unchosen :: "('a \<Rightarrow> bool) \<Rightarrow> nat \<Rightarrow> 'a list \<Rightarrow> 'a list" where
  "unchosen P n [] = []"
| "unchosen P n (x # xs) =
    (if P x \<and> n > 0 then unchosen P (n - 1) xs else x # unchosen P n xs)"

lemma unchosen_0 [simp]: "unchosen P 0 xs = xs"
  by (induction xs) auto

lemma unchosen_all: "length (filter P xs) \<le> n \<Longrightarrow> unchosen P n xs = filter (\<lambda>x. \<not> P x) xs"
  by (induction xs arbitrary: n) (auto simp: Suc_le_eq filter_empty_conv intro: filter_True [symmetric])

lemma select_chosen: "select P n xs = (chosen P n xs, unchosen P n xs)"
proof (induction P n xs rule: select.induct)
  case (2 P n x xs)
  then show ?case by (cases n) (auto simp: chosen_def)
qed (simp add: chosen_def)

lemma mset_chosen: "mset (chosen P n xs) + mset (unchosen P n xs) = mset xs"
  unfolding chosen_def
proof (induction xs arbitrary: n)
  case (Cons x xs)
  then show ?case by (cases n) auto
qed simp

lemma poll_where_eq:
  "poll_where P n j =
    (chosen P (if n = 0 then length (completed j) else n) (completed j),
     j\<lparr>completed := unchosen P (if n = 0 then length (completed j) else n) (completed j)\<rparr>)"
  by (cases "completed j = []") (simp_all add: poll_where_def select_chosen chosen_def)

lemma poll_eq:
  "poll n j =
    (if n = 0 then completed j else take n (completed j),
     j\<lparr>completed := (if n = 0 then [] else drop n (completed j))\<rparr>)"
  by (auto simp: poll_def)

interpretation jobs: drained_queue completed poll
  by unfold_locales (auto simp: poll_eq min_def)

section \<open>Steps\<close>

definition wants :: "nat \<Rightarrow> string \<Rightarrow> string \<Rightarrow> job_owner \<Rightarrow> job_request" where
  "wants i kind payload own = \<lparr>q_id = i, q_kind = kind, q_payload = payload, q_owner = own\<rparr>"

text \<open>
  Who makes a step. A call of \<open>submit\<close> is four steps; \<open>notify_one\<close> wakes any one of the blocked workers;
  the standard lets a blocked worker wake without a notification as well.
\<close>

datatype actor = Caller | Worker_thread | Spurious_wakeup | Shutdown_caller

inductive pool_step :: "actor \<Rightarrow> pool \<Rightarrow> pool \<Rightarrow> bool" where
  Submit: "fetch_id (jobs p) = (i, j) \<Longrightarrow> next_id (jobs p) < 2 ^ 64 - 1 \<Longrightarrow>
    pool_step Caller p (p\<lparr>jobs := j, submits := submits p @ [To_check (wants i kind payload own)]\<rparr>)"
| Refuse: "submits p = xs @ To_check r # ys \<Longrightarrow> submit_check r (jobs p) = (True, j) \<Longrightarrow>
    pool_step Caller p (p\<lparr>jobs := j, submits := xs @ ys\<rparr>)"
| Accept: "submits p = xs @ To_check r # ys \<Longrightarrow> submit_check r (jobs p) = (False, j) \<Longrightarrow>
    pool_step Caller p (p\<lparr>jobs := j, submits := xs @ To_push r # ys\<rparr>)"
| Push: "submits p = xs @ To_push r # ys \<Longrightarrow> queue_free p \<Longrightarrow>
    pool_step Caller p (p\<lparr>jobs := submit_push r (jobs p), submits := xs @ To_notify # ys\<rparr>)"
| Notify: "submits p = xs @ To_notify # ys \<Longrightarrow> workers p = us @ Blocked # vs \<Longrightarrow>
    pool_step Caller p (p\<lparr>workers := us @ At_wait # vs, submits := xs @ ys\<rparr>)"
| Notify_none: "submits p = xs @ To_notify # ys \<Longrightarrow> Blocked \<notin> set (workers p) \<Longrightarrow>
    pool_step Caller p (p\<lparr>submits := xs @ ys\<rparr>)"
| Register: "pool_step Caller p (p\<lparr>jobs := snd (register_handler kind h (jobs p))\<rparr>)"
| Poll: "poll n (jobs p) = (out, j) \<Longrightarrow>
    pool_step Caller p (p\<lparr>jobs := j, delivered := delivered p @ out\<rparr>)"
| Poll_where: "poll_where P n (jobs p) = (out, j) \<Longrightarrow>
    pool_step Caller p (p\<lparr>jobs := j, delivered := delivered p @ out\<rparr>)"
| Work: "workers p = us @ w # vs \<Longrightarrow> w \<notin> {Blocked, Exited} \<Longrightarrow> (w = At_wait \<Longrightarrow> queue_free p) \<Longrightarrow>
    worker_turn w (jobs p) = (w', j) \<Longrightarrow>
    pool_step Worker_thread p (p\<lparr>jobs := j, workers := us @ w' # vs\<rparr>)"
| Wake: "workers p = us @ Blocked # vs \<Longrightarrow> pool_step Spurious_wakeup p (p\<lparr>workers := us @ At_wait # vs\<rparr>)"
| Store: "phase p = Running \<Longrightarrow> pool_step Shutdown_caller p (shutdown_store p)"
| Notify_all: "phase p = Stop_stored \<Longrightarrow> pool_step Shutdown_caller p (shutdown_notify p)"
| Join: "phase p = Joining \<Longrightarrow> shutdown_joined p \<Longrightarrow>
    pool_step Shutdown_caller p (p\<lparr>phase := Returned_from_shutdown\<rparr>)"

abbreviation pool_steps :: "pool \<Rightarrow> pool \<Rightarrow> bool" where
  "pool_steps \<equiv> (\<lambda>p q. \<exists>a. pool_step a p q)\<^sup>*\<^sup>*"

lemma pool_steps_Cons: "pool_step a p q \<Longrightarrow> pool_steps q r \<Longrightarrow> pool_steps p r"
  by (blast intro: converse_rtranclp_into_rtranclp)

section \<open>Conservation of jobs\<close>

text \<open>The jobs of a pool, by id and owner, wherever they are.\<close>

definition request_tag :: "job_request \<Rightarrow> nat \<times> job_owner" where
  "request_tag r = (q_id r, q_owner r)"

definition result_tag :: "job_result \<Rightarrow> nat \<times> job_owner" where
  "result_tag x = (r_id x, r_owner x)"

fun submit_tags :: "pending_submit \<Rightarrow> (nat \<times> job_owner) multiset" where
  "submit_tags (To_check r) = {#request_tag r#}"
| "submit_tags (To_push r) = {#request_tag r#}"
| "submit_tags To_notify = {#}"

fun worker_tags :: "worker \<Rightarrow> (nat \<times> job_owner) multiset" where
  "worker_tags (Popped r) = {#request_tag r#}"
| "worker_tags (Looked_up r h) = {#request_tag r#}"
| "worker_tags (Has_result x) = {#result_tag x#}"
| "worker_tags _ = {#}"

definition answered :: "pool \<Rightarrow> (nat \<times> job_owner) multiset" where
  "answered p = mset (map result_tag (completed (jobs p) @ delivered p))"

definition unanswered :: "pool \<Rightarrow> (nat \<times> job_owner) multiset" where
  "unanswered p = mset (map request_tag (job_queue (jobs p))) +
     sum_list (map submit_tags (submits p)) + sum_list (map worker_tags (workers p))"

lemma run_job_tag [simp]: "result_tag (run_job h r) = request_tag r"
  by (simp add: run_job_def result_tag_def request_tag_def plain_result_def Let_def
      split: option.splits handler_run.splits)

lemma unknown_kind_tag [simp]: "result_tag (unknown_kind r) = request_tag r"
  by (simp add: unknown_kind_def result_tag_def request_tag_def plain_result_def)

lemma worker_turn_tags:
  assumes "worker_turn w j = (w', j')"
  shows "worker_tags w' + mset (map request_tag (job_queue j')) + mset (map result_tag (completed j')) =
      worker_tags w + mset (map request_tag (job_queue j)) + mset (map result_tag (completed j))"
    and "next_id j' = next_id j" and "stop j' = stop j"
  using assms
  by (auto simp: worker_turn_def pop_job_def split: worker.splits option.splits list.splits if_splits)

lemma notify_all_tags:
  "sum_list (map (worker_tags \<circ> (\<lambda>w. if w = Blocked then At_wait else w)) ws) = sum_list (map worker_tags ws)"
  by (induction ws) auto

text \<open>A step other than a new submission moves jobs between places, and keeps their number.\<close>

lemma submit_tags_step:
  assumes "fetch_id (jobs p) = (i, j)"
  shows "answered (p\<lparr>jobs := j, submits := submits p @ [To_check (wants i kind payload own)]\<rparr>) = answered p"
    and "unanswered (p\<lparr>jobs := j, submits := submits p @ [To_check (wants i kind payload own)]\<rparr>) =
      add_mset (next_id (jobs p), own) (unanswered p)"
  using assms by (auto simp: fetch_id_def answered_def unanswered_def request_tag_def wants_def)

inductive_cases worker_stepE: "pool_step Worker_thread p q"
inductive_cases shutdown_stepE: "pool_step Shutdown_caller p q"
inductive_cases caller_stepE: "pool_step Caller p q"

lemma step_conserves:
  assumes "pool_step a p q" and "next_id (jobs q) = next_id (jobs p)"
  shows "answered q + unanswered q = answered p + unanswered p"
  using assms
proof (cases rule: pool_step.cases)
  case (Submit i j kind payload own)
  then show ?thesis using assms(2) by (auto simp: fetch_id_def)
next
  case (Poll n out j)
  have "image_mset result_tag (mset (drop n (completed (jobs p)))) +
      image_mset result_tag (mset (take n (completed (jobs p)))) = image_mset result_tag (mset (completed (jobs p)))"
    by (metis append_take_drop_id image_mset_union mset_append union_commute)
  then show ?thesis using Poll
    by (auto simp: poll_eq answered_def unanswered_def ac_simps split: if_splits)
next
  case (Poll_where P n out j)
  let ?m = "if n = 0 then length (completed (jobs p)) else n"
  have "image_mset result_tag (mset (chosen P ?m (completed (jobs p))) + mset (unchosen P ?m (completed (jobs p)))) =
      image_mset result_tag (mset (completed (jobs p)))" by (simp only: mset_chosen)
  then show ?thesis using Poll_where by (auto simp: poll_where_eq answered_def unanswered_def ac_simps)
next
  case (Work us w vs w' j)
  then show ?thesis using worker_turn_tags(1) [OF Work(6)]
    by (simp add: answered_def unanswered_def ac_simps)
qed (auto simp: answered_def unanswered_def submit_check_def submit_push_def register_handler_def
    shutdown_store_def shutdown_notify_def notify_all_def notify_all_tags throw_def ok_def
    split: if_splits option.splits)

lemma step_next_id:
  assumes "pool_step a p q" and "next_id (jobs q) \<noteq> next_id (jobs p)"
  obtains kind payload own where "a = Caller" and "next_id (jobs p) < 2 ^ 64 - 1"
    and "q = p\<lparr>jobs := (jobs p)\<lparr>next_id := next_id (jobs p) + 1\<rparr>,
               submits := submits p @ [To_check (wants (next_id (jobs p)) kind payload own)]\<rparr>"
  using assms
proof (cases rule: pool_step.cases)
  case (Submit i j kind payload own)
  show thesis
  proof (rule that)
    show "a = Caller" "next_id (jobs p) < 2 ^ 64 - 1" using Submit by simp_all
    then show "q = p\<lparr>jobs := (jobs p)\<lparr>next_id := next_id (jobs p) + 1\<rparr>,
               submits := submits p @ [To_check (wants (next_id (jobs p)) kind payload own)]\<rparr>"
      using Submit by (auto simp: fetch_id_def)
  qed
next
  case (Work us w vs w' j)
  then show thesis using worker_turn_tags(2) [OF Work(6)] assms(2) by simp
qed (auto simp: submit_check_def submit_push_def register_handler_def poll_eq poll_where_eq
    shutdown_store_def shutdown_notify_def notify_all_def throw_def ok_def split: if_splits option.splits)

text \<open>Ids are issued once: the jobs of a pool carry exactly the ids below the next one.\<close>

definition tags :: "pool \<Rightarrow> (nat \<times> job_owner) multiset" where
  "tags p = answered p + unanswered p"

definition ids_inv :: "pool \<Rightarrow> bool" where
  [inv_defs]: "ids_inv p = (1 \<le> next_id (jobs p) \<and> image_mset fst (tags p) = mset [1..<next_id (jobs p)])"

lemma ids_inv_construct: "ids_inv (construct_pool n h)"
proof -
  have "sum_list (map worker_tags (replicate k At_test)) = {#}" for k by (induction k) auto
  then show ?thesis
    by (simp add: ids_inv_def tags_def answered_def unanswered_def construct_pool_def initial_jobs_def)
qed

lemma submit_tags_add:
  "tags (p\<lparr>jobs := (jobs p)\<lparr>next_id := n\<rparr>, submits := submits p @ [To_check (wants i kind payload own)]\<rparr>) =
    add_mset (i, own) (tags p)"
  by (simp add: tags_def answered_def unanswered_def request_tag_def wants_def)

lemma ids_inv_step:
  assumes "pool_step a p q" and "ids_inv p"
  shows "ids_inv q"
proof (cases "next_id (jobs q) = next_id (jobs p)")
  case True
  then show ?thesis using step_conserves [OF assms(1)] assms(2) by (simp add: ids_inv_def tags_def)
next
  case False
  from step_next_id [OF assms(1) False] obtain kind payload own where
    q: "q = p\<lparr>jobs := (jobs p)\<lparr>next_id := next_id (jobs p) + 1\<rparr>,
               submits := submits p @ [To_check (wants (next_id (jobs p)) kind payload own)]\<rparr>" by metis
  show ?thesis using assms(2) submit_tags_add [of p] by (simp add: q ids_inv_def)
qed

interpretation pools: invariant_system "\<lambda>p. \<exists>n h. p = construct_pool n h" "\<lambda>p q. \<exists>a. pool_step a p q" ids_inv
  by unfold_locales (auto intro: ids_inv_construct ids_inv_step)

lemma count_upt_ids: "ids_inv p \<Longrightarrow> t \<in># tags p \<Longrightarrow> fst t < next_id (jobs p)"
proof -
  assume inv: "ids_inv p" and t: "t \<in># tags p"
  have "fst t \<in># image_mset fst (tags p)" using t by auto
  then have "fst t \<in># mset [1..<next_id (jobs p)]" using inv by (simp only: ids_inv_def)
  then show ?thesis by simp
qed

text \<open>Once issued, an id keeps exactly one job, with the owner it was submitted for.\<close>

definition one_job :: "nat \<Rightarrow> job_owner \<Rightarrow> pool \<Rightarrow> bool" where
  "one_job i own p = (i < next_id (jobs p) \<and> filter_mset (\<lambda>t. fst t = i) (tags p) = {#(i, own)#})"

lemma one_job_step:
  assumes "pool_step a p q" and "one_job i own p"
  shows "one_job i own q"
proof (cases "next_id (jobs q) = next_id (jobs p)")
  case True
  then show ?thesis using step_conserves [OF assms(1)] assms(2) by (simp add: one_job_def tags_def)
next
  case False
  from step_next_id [OF assms(1) False] obtain kind payload ow where
    q: "q = p\<lparr>jobs := (jobs p)\<lparr>next_id := next_id (jobs p) + 1\<rparr>,
               submits := submits p @ [To_check (wants (next_id (jobs p)) kind payload ow)]\<rparr>" by metis
  show ?thesis using assms(2) submit_tags_add [of p] by (auto simp: q one_job_def)
qed

lemma one_job_steps: "pool_steps p q \<Longrightarrow> one_job i own p \<Longrightarrow> one_job i own q"
  by (induction rule: rtranclp_induct) (auto intro: one_job_step)

section \<open>Shutdown\<close>

text \<open>After \<open>shutdown\<close> has returned no worker is left to take a job.\<close>

definition shut_down :: "pool \<Rightarrow> bool" where
  "shut_down p = (phase p = Returned_from_shutdown \<and> shutdown_joined p)"

lemma shut_down_workers: "shut_down p \<Longrightarrow> workers p = us @ w # vs \<Longrightarrow> w = Exited"
  by (simp add: shut_down_def shutdown_joined_def)

lemma shut_down_step:
  assumes "pool_step a p q" and "shut_down p"
  shows "shut_down q \<and> (\<exists>more. job_queue (jobs q) = job_queue (jobs p) @ more)"
  using assms
proof (cases rule: pool_step.cases)
  case (Work us w vs w' j)
  then show ?thesis using shut_down_workers [OF assms(2) Work(3)] by simp
next
  case (Notify xs ys us vs)
  then show ?thesis using shut_down_workers [OF assms(2) Notify(4)] by simp
next
  case (Wake us vs)
  then show ?thesis using shut_down_workers [OF assms(2) Wake(3)] by simp
qed (auto simp: shut_down_def shutdown_joined_def fetch_id_def submit_check_def submit_push_def
    register_handler_def poll_eq poll_where_eq throw_def ok_def split: if_splits option.splits)

lemma shut_down_steps:
  "pool_steps p q \<Longrightarrow> shut_down p \<Longrightarrow> shut_down q \<and> (\<exists>more. job_queue (jobs q) = job_queue (jobs p) @ more)"
proof (induction rule: rtranclp_induct)
  case (step q r)
  then show ?case using shut_down_step by fastforce
qed simp

definition joined_inv :: "pool \<Rightarrow> bool" where
  "joined_inv p = (phase p = Returned_from_shutdown \<longrightarrow> shutdown_joined p)"

lemma joined_inv_step:
  assumes "pool_step a p q" and "joined_inv p"
  shows "joined_inv q"
proof (cases "phase p = Returned_from_shutdown")
  case True
  then have "shut_down p" using assms(2) by (simp add: shut_down_def joined_inv_def)
  then show ?thesis using shut_down_step [OF assms(1)] by (simp add: shut_down_def joined_inv_def)
next
  case False
  with assms(1) show ?thesis
    by (cases rule: pool_step.cases)
      (auto simp: joined_inv_def shutdown_store_def shutdown_notify_def notify_all_def shutdown_joined_def)
qed

lemma joined_inv_steps: "pool_steps (construct_pool n h) p \<Longrightarrow> joined_inv p"
proof (induction rule: rtranclp_induct)
  case base
  show ?case by (simp add: joined_inv_def construct_pool_def)
next
  case (step q r)
  then show ?case by (blast intro: joined_inv_step)
qed

section \<open>Properties\<close>

text \<open>C14: Every submission is one job with one answer. The id \<open>submit\<close> takes is new, and from then on, whatever
the callers, the workers and a shutdown do, exactly one job carries it: it is on its way into the queue, in the
queue, with a worker, or answered (waiting to be polled or delivered), never twice, never lost, and always with
the owner it was submitted for.\<close>

theorem every_job_once:
  assumes "pool_steps (construct_pool n h) p" and "fetch_id (jobs p) = (i, j)" and "next_id (jobs p) < 2 ^ 64 - 1"
    and "pool_steps (p\<lparr>jobs := j, submits := submits p @ [To_check (wants i kind payload own)]\<rparr>) q"
  shows "(\<forall>t. t \<in># answered p + unanswered p \<longrightarrow> fst t \<noteq> i) \<and>
    filter_mset (\<lambda>t. fst t = i) (answered q + unanswered q) = {#(i, own)#}"
proof -
  have inv: "ids_inv p" by (rule pools.inv_reachable [OF _ assms(1)]) blast
  have i: "i = next_id (jobs p)" and j: "j = (jobs p)\<lparr>next_id := next_id (jobs p) + 1\<rparr>"
    using assms(2,3) by (auto simp: fetch_id_def)
  have new: "\<forall>t. t \<in># tags p \<longrightarrow> fst t \<noteq> i" using count_upt_ids [OF inv] i by fastforce
  then have "filter_mset (\<lambda>t. fst t = i) (tags p) = {#}" by (simp add: filter_mset_eq_conv) auto
  then have "one_job i own (p\<lparr>jobs := j, submits := submits p @ [To_check (wants i kind payload own)]\<rparr>)"
    using submit_tags_add [where p = p and n = "next_id (jobs p) + 1" and i = i] by (simp add: one_job_def i j)
  with one_job_steps [OF assms(4)] new show ?thesis by (simp add: one_job_def tags_def)
qed

definition example_pool :: pool where
  "example_pool = \<lparr>jobs = \<lparr>stop = False, next_id = 2, handlers = [], job_queue = [],
       completed = [plain_result 1 False ''x'' [] ''Unknown job kind: x'' Lua_owner]\<rparr>,
     workers = [At_test], submits = [], phase = Running, delivered = []\<rparr>"

theorem every_job_once_witness:
  "filter_mset (\<lambda>t. fst t = 1) (answered example_pool + unanswered example_pool) = {#(1, Lua_owner)#}"
proof -
  let ?p = "construct_pool 1 0" and ?r = "wants 1 ''x'' [] Lua_owner"
  define j where "j = initial_jobs\<lparr>next_id := 2\<rparr>"
  have f: "fetch_id (jobs ?p) = (1, j)" by (simp add: fetch_id_def construct_pool_def initial_jobs_def j_def)
  have "pool_step Caller (?p\<lparr>jobs := j, submits := submits ?p @ [To_check ?r]\<rparr>) example_pool"
  proof -
    have chk: "submit_check ?r j = (True, j\<lparr>completed := [unknown_kind ?r]\<rparr>)"
      by (simp add: submit_check_def j_def initial_jobs_def)
    have "pool_step Caller (?p\<lparr>jobs := j, submits := submits ?p @ [To_check ?r]\<rparr>)
        (?p\<lparr>jobs := j\<lparr>completed := [unknown_kind ?r]\<rparr>, submits := [] @ []\<rparr>)"
      using Refuse [of "?p\<lparr>jobs := j, submits := submits ?p @ [To_check ?r]\<rparr>" "[]" ?r "[]"] chk
      by (simp add: construct_pool_def)
    moreover have "?p\<lparr>jobs := j\<lparr>completed := [unknown_kind ?r]\<rparr>, submits := [] @ []\<rparr> = example_pool"
      by (simp add: construct_pool_def resolve_thread_count_def j_def initial_jobs_def example_pool_def
          unknown_kind_def wants_def)
    ultimately show ?thesis by simp
  qed
  then have "pool_steps (?p\<lparr>jobs := j, submits := submits ?p @ [To_check ?r]\<rparr>) example_pool" by blast
  from every_job_once [OF _ f _ this, of 1 0]
  show ?thesis by (simp add: construct_pool_def initial_jobs_def)
qed

text \<open>The erasing loops of the selective polls are equivalent to their specification: at most the wanted
number (all, when it is 0) of the completed results of that kind and owner, in the order of completion, and
everything else left in place and in order.\<close>

theorem poll_kind_owner_equiv:
  "poll_kind_owner kind own n j =
    (let P = (\<lambda>r. r_kind r = kind \<and> r_owner r = own);
         m = (if n = 0 then length (completed j) else n)
     in (take m (filter P (completed j)), j\<lparr>completed := unchosen P m (completed j)\<rparr>)) \<and>
   poll_kind_owner kind own 0 j =
    (filter (\<lambda>r. r_kind r = kind \<and> r_owner r = own) (completed j),
     j\<lparr>completed := filter (\<lambda>r. \<not> (r_kind r = kind \<and> r_owner r = own)) (completed j)\<rparr>)"
  by (simp add: poll_kind_owner_def poll_where_eq chosen_def unchosen_all [OF length_filter_le] Let_def)

text \<open>One worker, as long as it is not told to stop: five turns for every job in the queue.\<close>

fun worker_turns :: "nat \<Rightarrow> worker \<times> job_system \<Rightarrow> worker \<times> job_system" where
  "worker_turns 0 wj = wj"
| "worker_turns (Suc n) wj = worker_turns n (case wj of (w, j) \<Rightarrow> worker_turn w j)"

lemma worker_turns_add: "worker_turns (m + n) wj = worker_turns n (worker_turns m wj)"
  by (induction m arbitrary: wj) simp_all

definition answer :: "job_system \<Rightarrow> job_request \<Rightarrow> job_result" where
  "answer j r = run_job (map_of (handlers j) (q_kind r)) r"

lemma worker_serves_one:
  assumes "\<not> stop j" "job_queue j = r # rs"
  shows "worker_turns 5 (At_test, j) = (At_test, j\<lparr>job_queue := rs, completed := completed j @ [answer j r]\<rparr>)"
  using assms by (simp add: numeral_eq_Suc worker_turn_def pop_job_def answer_def)

text \<open>The queue is served in a bounded number of steps. A worker that nobody stops answers all \<open>n\<close> queued
jobs within \<open>5 * n\<close> of its steps, in the order of their submission, each by the handler registered for its
kind, and then finds the queue empty and goes to sleep.\<close>

theorem queue_served:
  assumes "\<not> stop j"
  shows "worker_turns (5 * length (job_queue j)) (At_test, j)
      = (At_test, j\<lparr>job_queue := [], completed := completed j @ map (answer j) (job_queue j)\<rparr>)
    \<and> worker_turns (5 * length (job_queue j) + 3) (At_test, j)
      = (Blocked, j\<lparr>job_queue := [], completed := completed j @ map (answer j) (job_queue j)\<rparr>)"
proof -
  have served: "worker_turns (5 * length rs) (At_test, j)
      = (At_test, j\<lparr>job_queue := [], completed := completed j @ map (answer j) rs\<rparr>)"
    if "\<not> stop j" "job_queue j = rs" for j rs
    using that
  proof (induction rs arbitrary: j)
    case (Cons r rs)
    let ?j = "j\<lparr>job_queue := rs, completed := completed j @ [answer j r]\<rparr>"
    have "worker_turns (5 * length (r # rs)) (At_test, j) = worker_turns (5 * length rs) (At_test, ?j)"
      using worker_turns_add [of 5 "5 * length rs"] worker_serves_one [OF Cons.prems] by simp
    moreover have "answer ?j = answer j" by (rule ext) (simp add: answer_def)
    ultimately show ?case using Cons.IH [of ?j] Cons.prems by simp
  qed simp
  have "worker_turns 3 (At_test, j) = (Blocked, j)" if "\<not> stop j" "job_queue j = []" for j
    using that by (simp add: numeral_eq_Suc worker_turn_def pop_job_def)
  with served [OF assms refl] show ?thesis using assms by (simp add: worker_turns_add)
qed

theorem queue_served_witness:
  "let r = \<lparr>q_id = 1, q_kind = ''nothing'', q_payload = [], q_owner = Engine_owner\<rparr>;
       j = initial_jobs\<lparr>job_queue := [r]\<rparr>
   in worker_turns 5 (At_test, j) = (At_test, j\<lparr>job_queue := [], completed := [answer j r]\<rparr>)
     \<and> r_error (answer j r) = ''Unknown job kind: nothing''"
proof -
  let ?r = "\<lparr>q_id = 1, q_kind = ''nothing'', q_payload = [], q_owner = Engine_owner\<rparr>"
  have "\<not> stop (initial_jobs\<lparr>job_queue := [?r]\<rparr>)" by (simp add: initial_jobs_def)
  from queue_served [OF this] show ?thesis
    by (simp add: Let_def initial_jobs_def answer_def run_job_def plain_result_def)
qed

text \<open>A shutdown that has returned leaves no worker, so a job still in the queue, or submitted later, stays
there for good and is never answered, whatever the callers do.\<close>

theorem shutdown_strands_jobs:
  assumes "pool_steps (construct_pool n h) p" and "phase p = Returned_from_shutdown"
    and "r \<in> set (job_queue (jobs p))" and "pool_steps p q"
  shows "r \<in> set (job_queue (jobs q)) \<and> (q_id r, q_owner r) \<notin># answered q \<and> set (workers q) \<subseteq> {Exited}"
proof -
  have "shut_down p" using joined_inv_steps [OF assms(1)] assms(2) by (simp add: joined_inv_def shut_down_def)
  from shut_down_steps [OF assms(4) this] assms(3)
  have mem: "r \<in> set (job_queue (jobs q))" and w: "shut_down q" by auto
  have inv: "ids_inv q"
    by (rule pools.inv_reachable [of "construct_pool n h"]) (use assms(1,4) in \<open>auto intro: rtranclp_trans\<close>)
  define T where "T = tags q - {#request_tag r#}"
  have T: "tags q = add_mset (request_tag r) T"
    using mem by (auto simp: T_def tags_def unanswered_def)
  have "(q_id r, q_owner r) \<notin># answered q"
  proof
    assume a: "(q_id r, q_owner r) \<in># answered q"
    have "request_tag r \<in># unanswered q" using mem by (auto simp: unanswered_def)
    then have "count (tags q) (request_tag r) \<ge> 2"
      using a by (auto simp: tags_def request_tag_def simp flip: count_greater_zero_iff)
    then have "request_tag r \<in># T" by (simp add: T flip: count_greater_zero_iff)
    then have "count (image_mset fst (tags q)) (q_id r) \<ge> 2"
      by (auto simp: T request_tag_def dest!: multi_member_split)
    moreover have "count (mset [1..<next_id (jobs q)]) (q_id r) \<le> 1"
      using distinct_count_atmost_1 [of "[1..<next_id (jobs q)]"] by simp
    ultimately show False using inv by (simp only: ids_inv_def)
  qed
  then show ?thesis using mem w by (auto simp: shut_down_def shutdown_joined_def list_all_iff)
qed

definition stranded_pool :: pool where
  "stranded_pool = \<lparr>jobs = \<lparr>stop = True, next_id = 2, handlers = [(''echo'', echo_handler)],
       job_queue = [wants 1 ''echo'' ''hi'' Lua_owner], completed = []\<rparr>,
     workers = [Exited], submits = [To_notify], phase = Returned_from_shutdown, delivered = []\<rparr>"

lemma stranded_reachable: "pool_steps (construct_pool 1 0) stranded_pool"
proof -
  let ?r = "wants 1 ''echo'' ''hi'' Lua_owner"
  define js where "js = (\<lambda>st n hs q. \<lparr>stop = st, next_id = n, handlers = hs, job_queue = q, completed = []\<rparr>)"
  define mk where "mk = (\<lambda>w j s f. \<lparr>jobs = j, workers = [w], submits = s, phase = f, delivered = []\<rparr>)"
  let ?hs = "[(''echo'', echo_handler)]"
  note defs = mk_def js_def
  have start: "construct_pool 1 0 = mk At_test (js False 1 [] []) [] Running"
    by (simp add: construct_pool_def resolve_thread_count_def initial_jobs_def defs)
  have 1: "pool_step Shutdown_caller (mk At_test (js False 1 [] []) [] Running) (mk At_test (js True 1 [] []) [] Stop_stored)"
    using Store [of "mk At_test (js False 1 [] []) [] Running"] by (simp add: shutdown_store_def defs)
  have 2: "pool_step Shutdown_caller (mk At_test (js True 1 [] []) [] Stop_stored) (mk At_test (js True 1 [] []) [] Joining)"
    using Notify_all [of "mk At_test (js True 1 [] []) [] Stop_stored"]
    by (simp add: shutdown_notify_def notify_all_def defs)
  have 3: "pool_step Worker_thread (mk At_test (js True 1 [] []) [] Joining) (mk Exited (js True 1 [] []) [] Joining)"
    using Work [of "mk At_test (js True 1 [] []) [] Joining" "[]" At_test "[]" Exited "js True 1 [] []"]
    by (simp add: worker_turn_def defs)
  have 4: "pool_step Shutdown_caller (mk Exited (js True 1 [] []) [] Joining) (mk Exited (js True 1 [] []) [] Returned_from_shutdown)"
    using Join [of "mk Exited (js True 1 [] []) [] Joining"] by (simp add: shutdown_joined_def defs)
  have 5: "pool_step Caller (mk Exited (js True 1 [] []) [] Returned_from_shutdown)
      (mk Exited (js True 1 ?hs []) [] Returned_from_shutdown)"
    using Register [of "mk Exited (js True 1 [] []) [] Returned_from_shutdown" "''echo''" "Some echo_handler"]
    by (simp add: register_handler_def defs)
  have 6: "pool_step Caller (mk Exited (js True 1 ?hs []) [] Returned_from_shutdown)
      (mk Exited (js True 2 ?hs []) [To_check ?r] Returned_from_shutdown)"
    using Submit [of "mk Exited (js True 1 ?hs []) [] Returned_from_shutdown" 1 "js True 2 ?hs []" "''echo''" "''hi''" Lua_owner]
    by (simp add: fetch_id_def defs)
  have 7: "pool_step Caller (mk Exited (js True 2 ?hs []) [To_check ?r] Returned_from_shutdown)
      (mk Exited (js True 2 ?hs []) [To_push ?r] Returned_from_shutdown)"
    using Accept [of "mk Exited (js True 2 ?hs []) [To_check ?r] Returned_from_shutdown" "[]" ?r "[]" "js True 2 ?hs []"]
    by (simp add: submit_check_def wants_def defs)
  have 8: "pool_step Caller (mk Exited (js True 2 ?hs []) [To_push ?r] Returned_from_shutdown) stranded_pool"
    using Push [of "mk Exited (js True 2 ?hs []) [To_push ?r] Returned_from_shutdown" "[]" ?r "[]"]
    by (simp add: submit_push_def queue_free_def stranded_pool_def defs)
  show ?thesis
    unfolding start
    by (rule pool_steps_Cons [OF 1], rule pool_steps_Cons [OF 2], rule pool_steps_Cons [OF 3],
        rule pool_steps_Cons [OF 4], rule pool_steps_Cons [OF 5], rule pool_steps_Cons [OF 6],
        rule pool_steps_Cons [OF 7], rule pool_steps_Cons [OF 8], rule rtranclp.rtrancl_refl)
qed

theorem shutdown_strands_jobs_witness:
  "wants 1 ''echo'' ''hi'' Lua_owner \<in> set (job_queue (jobs stranded_pool)) \<and>
   (1, Lua_owner) \<notin># answered stranded_pool"
  using shutdown_strands_jobs [OF stranded_reachable, of "wants 1 ''echo'' ''hi'' Lua_owner" stranded_pool]
  by (simp add: stranded_pool_def wants_def)

text \<open>A shutdown can wait for ever. \<open>stop\<close> is stored and the notification sent without \<open>queueMutex\<close>, so both can
fall between a worker's test of the predicate and its blocking: then the worker is blocked, the shutdown joins
it, and no step of a worker or of the shutdown is possible any more.\<close>

theorem lost_wakeup:
  "\<exists>p. pool_steps (construct_pool 1 0) p \<and> phase p = Joining \<and> \<not> shutdown_joined p \<and>
    \<not> (\<exists>q. pool_step Worker_thread p q \<or> pool_step Shutdown_caller p q)"
proof -
  define j where "j = initial_jobs\<lparr>stop := True\<rparr>"
  define mk where "mk = (\<lambda>w j f. \<lparr>jobs = j, workers = [w], submits = [], phase = f, delivered = []\<rparr>)"
  define p where "p = mk Blocked j Joining"
  have start: "construct_pool 1 0 = mk At_test initial_jobs Running"
    by (simp add: construct_pool_def resolve_thread_count_def mk_def)
  have turn: "pool_step Worker_thread (mk w j f) (mk w' j' f)"
    if "worker_turn w j = (w', j')" "w \<notin> {Blocked, Exited}" for w w' j j' f
    using Work [of "mk w j f" "[]" w "[]" w' j'] that by (auto simp: mk_def queue_free_def)
  have 1: "pool_step Worker_thread (mk At_test initial_jobs Running) (mk At_wait initial_jobs Running)"
    by (rule turn) (simp_all add: worker_turn_def initial_jobs_def)
  have 2: "pool_step Worker_thread (mk At_wait initial_jobs Running) (mk Found_idle initial_jobs Running)"
    by (rule turn) (simp_all add: worker_turn_def pop_job_def initial_jobs_def)
  have 3: "pool_step Shutdown_caller (mk Found_idle initial_jobs Running) (mk Found_idle j Stop_stored)"
    using Store [of "mk Found_idle initial_jobs Running"]
    by (simp add: shutdown_store_def mk_def j_def initial_jobs_def)
  have 4: "pool_step Shutdown_caller (mk Found_idle j Stop_stored) (mk Found_idle j Joining)"
    using Notify_all [of "mk Found_idle j Stop_stored"] by (simp add: shutdown_notify_def notify_all_def mk_def)
  have 5: "pool_step Worker_thread (mk Found_idle j Joining) p"
    unfolding p_def by (rule turn) (simp_all add: worker_turn_def)
  have run: "pool_steps (construct_pool 1 0) p"
    unfolding start
    by (rule pool_steps_Cons [OF 1], rule pool_steps_Cons [OF 2], rule pool_steps_Cons [OF 3],
        rule pool_steps_Cons [OF 4], rule pool_steps_Cons [OF 5], rule rtranclp.rtrancl_refl)
  have "\<not> pool_step Worker_thread p q" for q
    by (auto simp: p_def mk_def Cons_eq_append_conv elim!: worker_stepE)
  moreover have "\<not> pool_step Shutdown_caller p q" for q
    by (auto simp: p_def mk_def shutdown_joined_def elim!: shutdown_stepE)
  ultimately show ?thesis using run by (auto simp: p_def mk_def shutdown_joined_def)
qed

end
