(* ===== verification/Input_Devices.thy ===== *)
theory Input_Devices
  imports Floats
begin

text \<open>
  The states of keyboard, mouse and gamepad: \<open>src/src/input_keyboard_state.*\<close>, \<open>src/src/input_mouse_state.*\<close>,
  \<open>src/src/input_gamepad_state.*\<close>. A float is its bits; the rounding addition is the argument \<open>fadd\<close> of the
  operations that use it. The sizes of the arrays are the constants of the SDL headers under
  \<open>src/external/sdl\<close>.
\<close>

section \<open>Key status\<close>

datatype key_status = Key_none | Just_pressed | Held | Just_released

definition key_status_for_transition :: "bool \<Rightarrow> bool \<Rightarrow> key_status" where
  "key_status_for_transition current previous =
    (if \<not> previous then (if current then Just_pressed else Key_none)
     else (if current then Held else Just_released))"

section \<open>Keyboard\<close>

definition scancode_count :: nat where
  "scancode_count = 512"

text \<open>\<open>currentValue\<close> points to an array the event library keeps up to date; \<open>None\<close> is the null pointer.\<close>

record keyboard =
  kb_current :: "bool list option"
  kb_previous :: "bool list"

definition key_value :: "int \<Rightarrow> keyboard \<Rightarrow> bool" where
  "key_value k kb =
    (if k < 0 \<or> k \<ge> int scancode_count then False
     else case kb_current kb of None \<Rightarrow> False | Some cur \<Rightarrow> cur ! nat k)"

definition key_state :: "int \<Rightarrow> keyboard \<Rightarrow> key_status" where
  "key_state k kb =
    (if k < 0 \<or> k \<ge> int scancode_count then Key_none
     else case kb_current kb of
       None \<Rightarrow> Key_none
     | Some cur \<Rightarrow>
         if \<not> kb_previous kb ! nat k then (if \<not> cur ! nat k then Key_none else Just_pressed)
         else (if \<not> cur ! nat k then Just_released else Held))"

definition key_is_up :: "int \<Rightarrow> keyboard \<Rightarrow> bool" where
  "key_is_up k kb = (\<not> key_value k kb)"

definition key_is_free :: "int \<Rightarrow> keyboard \<Rightarrow> bool" where
  "key_is_free k kb = (key_state k kb = Key_none)"

definition key_is_just_pressed :: "int \<Rightarrow> keyboard \<Rightarrow> bool" where
  "key_is_just_pressed k kb = (key_state k kb = Just_pressed)"

definition key_is_down :: "int \<Rightarrow> keyboard \<Rightarrow> bool" where
  "key_is_down k kb = key_value k kb"

definition key_is_held :: "int \<Rightarrow> keyboard \<Rightarrow> bool" where
  "key_is_held k kb = (key_state k kb = Held)"

definition key_is_just_released :: "int \<Rightarrow> keyboard \<Rightarrow> bool" where
  "key_is_just_released k kb = (key_state k kb = Just_released)"

section \<open>Mouse\<close>

definition mouse_buttons :: nat where
  "mouse_buttons = 8"

record mouse =
  mo_x :: u32
  mo_y :: u32
  mo_xrel :: u32
  mo_yrel :: u32
  mo_wheel_x :: u32
  mo_wheel_y :: u32
  mo_current :: "nat list"
  mo_previous :: "nat list"

definition initial_mouse :: mouse where
  "initial_mouse = \<lparr>mo_x = 0, mo_y = 0, mo_xrel = 0, mo_yrel = 0, mo_wheel_x = 0, mo_wheel_y = 0,
     mo_current = replicate mouse_buttons 0, mo_previous = replicate mouse_buttons 0\<rparr>"

definition mouse_index :: "byte \<Rightarrow> nat" where
  "mouse_index button =
    (if button = 0 then mouse_buttons
     else if unat button \<ge> mouse_buttons then mouse_buttons else unat button)"

definition mouse_begin_frame :: "mouse \<Rightarrow> mouse" where
  "mouse_begin_frame m =
    m\<lparr>mo_previous := mo_current m, mo_xrel := 0, mo_yrel := 0, mo_wheel_x := 0, mo_wheel_y := 0\<rparr>"

definition mouse_set_button :: "byte \<Rightarrow> bool \<Rightarrow> mouse \<Rightarrow> mouse" where
  "mouse_set_button button pressed m =
    (let i = mouse_index button in
     if i \<ge> mouse_buttons then m else m\<lparr>mo_current := (mo_current m)[i := if pressed then 1 else 0]\<rparr>)"

text \<open>\<open>update_from_mask\<close>: buttons 1 to 7, bit \<open>button - 1\<close> of the mask each.\<close>

definition mouse_update_from_mask :: "u32 \<Rightarrow> mouse \<Rightarrow> mouse" where
  "mouse_update_from_mask flags m =
    fold (\<lambda>button m. m\<lparr>mo_current := (mo_current m)[mouse_index (of_nat button) :=
        if bit flags (button - 1) then 1 else 0]\<rparr>) [1..<mouse_buttons] m"

definition mouse_set_motion ::
  "(u32 \<Rightarrow> u32 \<Rightarrow> u32) \<Rightarrow> u32 \<Rightarrow> u32 \<Rightarrow> u32 \<Rightarrow> u32 \<Rightarrow> mouse \<Rightarrow> mouse" where
  "mouse_set_motion fadd x y dx dy m =
    m\<lparr>mo_x := x, mo_y := y, mo_xrel := fadd (mo_xrel m) dx, mo_yrel := fadd (mo_yrel m) dy\<rparr>"

definition mouse_add_wheel :: "(u32 \<Rightarrow> u32 \<Rightarrow> u32) \<Rightarrow> u32 \<Rightarrow> u32 \<Rightarrow> mouse \<Rightarrow> mouse" where
  "mouse_add_wheel fadd dx dy m =
    m\<lparr>mo_wheel_x := fadd (mo_wheel_x m) dx, mo_wheel_y := fadd (mo_wheel_y m) dy\<rparr>"

definition mouse_button_state :: "byte \<Rightarrow> mouse \<Rightarrow> key_status" where
  "mouse_button_state button m =
    (let i = mouse_index button in
     if i \<ge> mouse_buttons then Key_none
     else if mo_previous m ! i = 0 then (if mo_current m ! i = 0 then Key_none else Just_pressed)
     else (if mo_current m ! i = 0 then Just_released else Held))"

definition mouse_is_down :: "byte \<Rightarrow> mouse \<Rightarrow> bool" where
  "mouse_is_down button m =
    (let i = mouse_index button in if i \<ge> mouse_buttons then False else mo_current m ! i = 1)"

definition mouse_is_up :: "byte \<Rightarrow> mouse \<Rightarrow> bool" where
  "mouse_is_up button m = (\<not> mouse_is_down button m)"

definition mouse_is_free :: "byte \<Rightarrow> mouse \<Rightarrow> bool" where
  "mouse_is_free button m = (mouse_button_state button m = Key_none)"

definition mouse_is_just_pressed :: "byte \<Rightarrow> mouse \<Rightarrow> bool" where
  "mouse_is_just_pressed button m = (mouse_button_state button m = Just_pressed)"

definition mouse_is_held :: "byte \<Rightarrow> mouse \<Rightarrow> bool" where
  "mouse_is_held button m = (mouse_button_state button m = Held)"

definition mouse_is_just_released :: "byte \<Rightarrow> mouse \<Rightarrow> bool" where
  "mouse_is_just_released button m = (mouse_button_state button m = Just_released)"

section \<open>Gamepads\<close>

definition gamepad_buttons :: nat where
  "gamepad_buttons = 26"

definition gamepad_axes :: nat where
  "gamepad_axes = 6"

record gamepad =
  gp_connected :: bool
  gp_instance_id :: u32
  gp_device_index :: int
  gp_timestamp :: u64
  gp_axes :: "u32 list"
  gp_current :: "bool list"
  gp_previous :: "bool list"

definition initial_gamepad :: gamepad where
  "initial_gamepad = \<lparr>gp_connected = False, gp_instance_id = 0, gp_device_index = -1, gp_timestamp = 0,
     gp_axes = replicate gamepad_axes 0, gp_current = replicate gamepad_buttons False,
     gp_previous = replicate gamepad_buttons False\<rparr>"

definition gamepad_button_index :: "byte \<Rightarrow> nat result" where
  "gamepad_button_index button =
    (if unat button \<ge> gamepad_buttons then Inl (Out_of_range ''gamepad button out of range'')
     else Inr (unat button))"

definition gamepad_axis_index :: "byte \<Rightarrow> nat result" where
  "gamepad_axis_index a =
    (if unat a \<ge> gamepad_axes then Inl (Out_of_range ''gamepad axis out of range'') else Inr (unat a))"

definition gamepad_begin_frame :: "gamepad \<Rightarrow> gamepad" where
  "gamepad_begin_frame g = g\<lparr>gp_previous := gp_current g\<rparr>"

definition gamepad_connect :: "int \<Rightarrow> u32 \<Rightarrow> u64 \<Rightarrow> gamepad \<Rightarrow> gamepad" where
  "gamepad_connect dev inst ts g =
    g\<lparr>gp_connected := True, gp_device_index := dev, gp_instance_id := inst, gp_timestamp := ts\<rparr>"

definition gamepad_disconnect :: "u32 \<Rightarrow> u64 \<Rightarrow> gamepad \<Rightarrow> gamepad" where
  "gamepad_disconnect removed ts g =
    (if \<not> gp_connected g \<or> (gp_instance_id g \<noteq> 0 \<and> gp_instance_id g \<noteq> removed) then g
     else initial_gamepad\<lparr>gp_timestamp := ts\<rparr>)"

definition gamepad_set_button :: "byte \<Rightarrow> bool \<Rightarrow> u32 \<Rightarrow> u64 \<Rightarrow> gamepad \<Rightarrow> gamepad result" where
  "gamepad_set_button button pressed source ts g =
    bind_result (gamepad_button_index button) (\<lambda>i.
      Inr (g\<lparr>gp_connected := True, gp_instance_id := source, gp_timestamp := ts,
             gp_current := (gp_current g)[i := pressed]\<rparr>))"

definition gamepad_set_axis :: "byte \<Rightarrow> u32 \<Rightarrow> u32 \<Rightarrow> u64 \<Rightarrow> gamepad \<Rightarrow> gamepad result" where
  "gamepad_set_axis a v source ts g =
    bind_result (gamepad_axis_index a) (\<lambda>i.
      Inr (g\<lparr>gp_connected := True, gp_instance_id := source, gp_timestamp := ts,
             gp_axes := (gp_axes g)[i := f32_clamp v f32_minus_one f32_one]\<rparr>))"

definition gamepad_button_state :: "byte \<Rightarrow> gamepad \<Rightarrow> key_status result" where
  "gamepad_button_state button g =
    bind_result (gamepad_button_index button) (\<lambda>i.
      let current = gp_current g ! i; previous = gp_previous g ! i
      in if current \<and> \<not> previous then Inr Just_pressed
         else if current \<and> previous then Inr Held
         else if \<not> current \<and> previous then Inr Just_released
         else Inr Key_none)"

definition gamepad_status_in :: "key_status set \<Rightarrow> byte \<Rightarrow> gamepad \<Rightarrow> bool result" where
  "gamepad_status_in S button g = bind_result (gamepad_button_state button g) (\<lambda>s. Inr (s \<in> S))"

definition gamepad_is_up :: "byte \<Rightarrow> gamepad \<Rightarrow> bool result" where
  "gamepad_is_up = gamepad_status_in {Key_none, Just_released}"

definition gamepad_is_free :: "byte \<Rightarrow> gamepad \<Rightarrow> bool result" where
  "gamepad_is_free = gamepad_status_in {Key_none}"

definition gamepad_is_just_pressed :: "byte \<Rightarrow> gamepad \<Rightarrow> bool result" where
  "gamepad_is_just_pressed = gamepad_status_in {Just_pressed}"

definition gamepad_is_down :: "byte \<Rightarrow> gamepad \<Rightarrow> bool result" where
  "gamepad_is_down = gamepad_status_in {Just_pressed, Held}"

definition gamepad_is_held :: "byte \<Rightarrow> gamepad \<Rightarrow> bool result" where
  "gamepad_is_held = gamepad_status_in {Held}"

definition gamepad_is_just_released :: "byte \<Rightarrow> gamepad \<Rightarrow> bool result" where
  "gamepad_is_just_released = gamepad_status_in {Just_released}"

definition gamepad_axis :: "byte \<Rightarrow> gamepad \<Rightarrow> u32 result" where
  "gamepad_axis a g = bind_result (gamepad_axis_index a) (\<lambda>i. Inr (gp_axes g ! i))"

end
