(* ===== verification/Input_State.thy ===== *)
theory Input_State
  imports Input_Devices
begin

text \<open>
  Touch contacts, pens and the state of all input devices: \<open>src/src/input_state.h\<close> and
  \<open>src/src/input_state.cpp\<close>, with the start of a frame as \<open>src/src/engine.cpp\<close> performs it.

  The \<open>std::unordered_map\<close>s hold shared pointers that are never null: they are association lists of the
  states themselves, in the order the code would visit them. \<open>fsub\<close> is the rounding float subtraction.
\<close>

section \<open>Touch contacts\<close>

type_synonym touch_id = "u64 \<times> u64"

definition touch_id_valid :: "touch_id \<Rightarrow> bool" where
  "touch_id_valid i = (fst i \<noteq> 0 \<or> snd i \<noteq> 0)"

record touch_point =
  tp_touch :: u64
  tp_finger :: u64
  tp_x :: u32
  tp_y :: u32
  tp_dx :: u32
  tp_dy :: u32
  tp_pressure :: u32
  tp_timestamp :: u64
  tp_current :: bool
  tp_previous :: bool

definition initial_touch :: touch_point where
  "initial_touch = \<lparr>tp_touch = 0, tp_finger = 0, tp_x = 0, tp_y = 0, tp_dx = 0, tp_dy = 0,
     tp_pressure = 0, tp_timestamp = 0, tp_current = False, tp_previous = False\<rparr>"

definition touch_begin_frame :: "touch_point \<Rightarrow> touch_point" where
  "touch_begin_frame t = t\<lparr>tp_previous := tp_current t, tp_dx := 0, tp_dy := 0\<rparr>"

text \<open>Where a contact is: position, movement and pressure.\<close>

record contact =
  ct_x :: u32
  ct_y :: u32
  ct_dx :: u32
  ct_dy :: u32
  ct_pressure :: u32

definition touch_set_contact :: "touch_id \<Rightarrow> contact \<Rightarrow> bool \<Rightarrow> u64 \<Rightarrow> touch_point \<Rightarrow> touch_point" where
  "touch_set_contact i c pressed ts t =
    t\<lparr>tp_touch := fst i, tp_finger := snd i, tp_x := ct_x c, tp_y := ct_y c, tp_dx := ct_dx c,
      tp_dy := ct_dy c, tp_pressure := ct_pressure c, tp_timestamp := ts, tp_current := pressed\<rparr>"

definition touch_state :: "touch_point \<Rightarrow> key_status" where
  "touch_state t = key_status_for_transition (tp_current t) (tp_previous t)"

definition touch_is_down :: "touch_point \<Rightarrow> bool" where
  "touch_is_down t = tp_current t"

definition touch_is_up :: "touch_point \<Rightarrow> bool" where
  "touch_is_up t = (\<not> touch_is_down t)"

definition touch_is_free :: "touch_point \<Rightarrow> bool" where
  "touch_is_free t = (touch_state t = Key_none)"

definition touch_is_just_pressed :: "touch_point \<Rightarrow> bool" where
  "touch_is_just_pressed t = (touch_state t = Just_pressed)"

definition touch_is_held :: "touch_point \<Rightarrow> bool" where
  "touch_is_held t = (touch_state t = Held)"

definition touch_is_just_released :: "touch_point \<Rightarrow> bool" where
  "touch_is_just_released t = (touch_state t = Just_released)"

section \<open>Pens\<close>

definition pen_button_count :: nat where
  "pen_button_count = 5"

definition pen_history_limit :: nat where
  "pen_history_limit = 128"

definition pen_axis_count :: nat where
  "pen_axis_count = 7"

definition pen_input_down :: u32 where
  "pen_input_down = 1"

definition pen_input_eraser_tip :: u32 where
  "pen_input_eraser_tip = 0x40000000"

datatype pen_event_type =
  Proximity_in | Proximity_out | Pen_motion | Pen_down | Pen_up | Button_down | Button_up | Pen_axis

record pen_event =
  pe_type :: pen_event_type
  pe_pen :: u32
  pe_x :: u32
  pe_y :: u32
  pe_xrel :: u32
  pe_yrel :: u32
  pe_timestamp :: u64
  pe_input_state :: u32
  pe_eraser :: bool
  pe_in_range :: bool
  pe_down :: bool
  pe_button :: byte
  pe_button_down :: bool
  pe_axis :: nat
  pe_value :: u32
  pe_axes :: "u32 list"

record pen =
  pn_id :: u32
  pn_x :: u32
  pn_y :: u32
  pn_xrel :: u32
  pn_yrel :: u32
  pn_timestamp :: u64
  pn_input_state :: u32
  pn_eraser :: bool
  pn_current_in_range :: bool
  pn_previous_in_range :: bool
  pn_current_down :: bool
  pn_previous_down :: bool
  pn_has_position :: bool
  pn_seen_axes :: u32
  pn_current_buttons :: "bool list"
  pn_previous_buttons :: "bool list"
  pn_axes :: "u32 list"
  pn_recent :: "pen_event list"

definition initial_pen :: pen where
  "initial_pen = \<lparr>pn_id = 0, pn_x = 0, pn_y = 0, pn_xrel = 0, pn_yrel = 0, pn_timestamp = 0,
     pn_input_state = 0, pn_eraser = False, pn_current_in_range = False, pn_previous_in_range = False,
     pn_current_down = False, pn_previous_down = False, pn_has_position = False, pn_seen_axes = 0,
     pn_current_buttons = replicate pen_button_count False,
     pn_previous_buttons = replicate pen_button_count False,
     pn_axes = replicate pen_axis_count 0, pn_recent = []\<rparr>"

definition pen_button_index :: "byte \<Rightarrow> nat" where
  "pen_button_index button = (if button > 0 then unat button - 1 else pen_button_count)"

definition pen_button_flag :: "nat \<Rightarrow> u32" where
  "pen_button_flag button = (if 1 \<le> button \<and> button \<le> 5 then push_bit button 1 else 0)"

definition sync_pen_buttons_from_state :: "pen \<Rightarrow> pen" where
  "sync_pen_buttons_from_state p =
    p\<lparr>pn_current_buttons := map (\<lambda>i. pn_input_state p AND pen_button_flag (i + 1) \<noteq> 0) [0..<pen_button_count]\<rparr>"

definition clear_pen_buttons :: "pen \<Rightarrow> pen" where
  "clear_pen_buttons p = p\<lparr>pn_current_buttons := replicate pen_button_count False\<rparr>"

definition update_pen_position :: "(u32 \<Rightarrow> u32 \<Rightarrow> u32) \<Rightarrow> u32 \<Rightarrow> u32 \<Rightarrow> pen \<Rightarrow> pen" where
  "update_pen_position fsub x y p =
    (let p = (if pn_has_position p
              then p\<lparr>pn_xrel := fsub x (pn_x p), pn_yrel := fsub y (pn_y p)\<rparr>
              else p\<lparr>pn_xrel := 0, pn_yrel := 0, pn_has_position := True\<rparr>)
     in p\<lparr>pn_x := x, pn_y := y\<rparr>)"

definition pen_begin_frame :: "pen \<Rightarrow> pen" where
  "pen_begin_frame p =
    p\<lparr>pn_previous_in_range := pn_current_in_range p, pn_previous_down := pn_current_down p,
      pn_previous_buttons := pn_current_buttons p, pn_xrel := 0, pn_yrel := 0\<rparr>"

definition pen_set_proximity :: "bool \<Rightarrow> u64 \<Rightarrow> pen \<Rightarrow> pen" where
  "pen_set_proximity in_range ts p =
    (let p = p\<lparr>pn_xrel := 0, pn_yrel := 0, pn_timestamp := ts, pn_current_in_range := in_range\<rparr>;
         p = (if in_range
              then p\<lparr>pn_has_position := False, pn_input_state := 0, pn_seen_axes := 0,
                     pn_axes := replicate pen_axis_count 0\<rparr>
              else p);
         p = p\<lparr>pn_current_down := False\<rparr>
     in if \<not> in_range
        then clear_pen_buttons (p\<lparr>pn_input_state := 0, pn_eraser := False, pn_has_position := False,
               pn_seen_axes := 0, pn_axes := replicate pen_axis_count 0\<rparr>)
        else p)"

text \<open>What motion, touch, button and axis events have in common: the position, the time and the flags.\<close>

definition pen_set_position :: "(u32 \<Rightarrow> u32 \<Rightarrow> u32) \<Rightarrow> u32 \<Rightarrow> u32 \<Rightarrow> bool \<Rightarrow> bool \<Rightarrow> u32 \<Rightarrow> u64 \<Rightarrow> pen \<Rightarrow> pen" where
  "pen_set_position fsub x y down eraser flags ts p =
    sync_pen_buttons_from_state ((update_pen_position fsub x y p)
      \<lparr>pn_timestamp := ts, pn_input_state := flags, pn_current_in_range := True,
       pn_current_down := down, pn_eraser := eraser\<rparr>)"

definition pen_set_motion :: "(u32 \<Rightarrow> u32 \<Rightarrow> u32) \<Rightarrow> u32 \<Rightarrow> u32 \<Rightarrow> u32 \<Rightarrow> u64 \<Rightarrow> pen \<Rightarrow> pen" where
  "pen_set_motion fsub x y flags ts p =
    pen_set_position fsub x y (flags AND pen_input_down \<noteq> 0) (flags AND pen_input_eraser_tip \<noteq> 0) flags ts p"

definition pen_set_touch ::
  "(u32 \<Rightarrow> u32 \<Rightarrow> u32) \<Rightarrow> u32 \<Rightarrow> u32 \<Rightarrow> bool \<Rightarrow> bool \<Rightarrow> u32 \<Rightarrow> u64 \<Rightarrow> pen \<Rightarrow> pen" where
  "pen_set_touch fsub x y eraser down flags ts p = pen_set_position fsub x y down eraser flags ts p"

definition pen_set_button ::
  "(u32 \<Rightarrow> u32 \<Rightarrow> u32) \<Rightarrow> u32 \<Rightarrow> u32 \<Rightarrow> byte \<Rightarrow> bool \<Rightarrow> u32 \<Rightarrow> u64 \<Rightarrow> pen \<Rightarrow> pen" where
  "pen_set_button fsub x y button down flags ts p =
    (let p = pen_set_motion fsub x y flags ts p; i = pen_button_index button
     in if i < pen_button_count then p\<lparr>pn_current_buttons := (pn_current_buttons p)[i := down]\<rparr> else p)"

definition pen_set_axis ::
  "(u32 \<Rightarrow> u32 \<Rightarrow> u32) \<Rightarrow> u32 \<Rightarrow> u32 \<Rightarrow> nat \<Rightarrow> u32 \<Rightarrow> u32 \<Rightarrow> u64 \<Rightarrow> pen \<Rightarrow> pen" where
  "pen_set_axis fsub x y i v flags ts p =
    (let p = pen_set_motion fsub x y flags ts p
     in if i < pen_axis_count
        then p\<lparr>pn_axes := (pn_axes p)[i := v], pn_seen_axes := pn_seen_axes p OR push_bit i 1\<rparr> else p)"

definition pen_push_event :: "pen_event \<Rightarrow> pen \<Rightarrow> pen" where
  "pen_push_event e p =
    (let recent = (if length (pn_recent p) \<ge> pen_history_limit then tl (pn_recent p) else pn_recent p)
     in p\<lparr>pn_recent := recent @ [e]\<rparr>)"

definition pen_proximity_state :: "pen \<Rightarrow> key_status" where
  "pen_proximity_state p = key_status_for_transition (pn_current_in_range p) (pn_previous_in_range p)"

definition pen_tip_state :: "pen \<Rightarrow> key_status" where
  "pen_tip_state p = key_status_for_transition (pn_current_down p) (pn_previous_down p)"

definition pen_button_state :: "byte \<Rightarrow> pen \<Rightarrow> key_status" where
  "pen_button_state button p =
    (let i = pen_button_index button in
     if i \<ge> pen_button_count then Key_none
     else key_status_for_transition (pn_current_buttons p ! i) (pn_previous_buttons p ! i))"

definition pen_is_in_range :: "pen \<Rightarrow> bool" where
  "pen_is_in_range p = pn_current_in_range p"

definition pen_is_just_entered :: "pen \<Rightarrow> bool" where
  "pen_is_just_entered p = (pen_proximity_state p = Just_pressed)"

definition pen_is_hovering :: "pen \<Rightarrow> bool" where
  "pen_is_hovering p = (pn_current_in_range p \<and> \<not> pn_current_down p)"

definition pen_is_just_left :: "pen \<Rightarrow> bool" where
  "pen_is_just_left p = (pen_proximity_state p = Just_released)"

definition pen_is_down :: "pen \<Rightarrow> bool" where
  "pen_is_down p = pn_current_down p"

definition pen_is_up :: "pen \<Rightarrow> bool" where
  "pen_is_up p = (\<not> pen_is_down p)"

definition pen_is_free :: "pen \<Rightarrow> bool" where
  "pen_is_free p = (pen_tip_state p = Key_none)"

definition pen_is_just_pressed :: "pen \<Rightarrow> bool" where
  "pen_is_just_pressed p = (pen_tip_state p = Just_pressed)"

definition pen_is_held :: "pen \<Rightarrow> bool" where
  "pen_is_held p = (pen_tip_state p = Held)"

definition pen_is_just_released :: "pen \<Rightarrow> bool" where
  "pen_is_just_released p = (pen_tip_state p = Just_released)"

definition pen_is_button_down :: "byte \<Rightarrow> pen \<Rightarrow> bool" where
  "pen_is_button_down button p =
    (let i = pen_button_index button in if i < pen_button_count then pn_current_buttons p ! i else False)"

definition pen_has_axis :: "nat \<Rightarrow> pen \<Rightarrow> bool" where
  "pen_has_axis i p = (if i \<ge> pen_axis_count then False else pn_seen_axes p AND push_bit i 1 \<noteq> 0)"

definition pen_axis_value :: "nat \<Rightarrow> pen \<Rightarrow> u32" where
  "pen_axis_value i p = (if i \<ge> pen_axis_count then 0 else pn_axes p ! i)"

section \<open>The state of all devices\<close>

record input_state =
  in_keyboard :: keyboard
  in_mouse :: mouse
  in_gamepads :: "(u32 \<times> gamepad) list"
  in_touches :: "(touch_id \<times> touch_point) list"
  in_pens :: "(u32 \<times> pen) list"
  in_primary_gamepad :: u32
  in_primary_touch :: "touch_id option"
  in_primary_pen :: u32

definition initial_input :: input_state where
  "initial_input = \<lparr>in_keyboard = \<lparr>kb_current = None, kb_previous = replicate scancode_count False\<rparr>,
     in_mouse = initial_mouse, in_gamepads = [], in_touches = [], in_pens = [],
     in_primary_gamepad = 0, in_primary_touch = None, in_primary_pen = 0\<rparr>"

text \<open>\<open>ensure_gamepad\<close>, \<open>ensure_touch\<close>, \<open>ensure_pen\<close>: a missing entry is added.\<close>

definition ensure :: "'k \<Rightarrow> 'v \<Rightarrow> ('k \<times> 'v) list \<Rightarrow> ('k \<times> 'v) list" where
  "ensure k v m = (if map_of m k \<noteq> None then m else AList.update k v m)"

text \<open>The first entry in iteration order that satisfies a condition.\<close>

fun first_key :: "('v \<Rightarrow> bool) \<Rightarrow> ('k \<times> 'v) list \<Rightarrow> 'k option" where
  "first_key P [] = None"
| "first_key P ((k, v) # m) = (if P v then Some k else first_key P m)"

definition assign_primary_if_missing :: "u32 \<Rightarrow> input_state \<Rightarrow> input_state" where
  "assign_primary_if_missing preferred s =
    (if in_primary_gamepad s \<noteq> 0 \<and> map_of (in_gamepads s) (in_primary_gamepad s) \<noteq> None then s
     else if preferred \<noteq> 0 \<and> map_of (in_gamepads s) preferred \<noteq> None
     then s\<lparr>in_primary_gamepad := preferred\<rparr>
     else s\<lparr>in_primary_gamepad := (case first_key gp_connected (in_gamepads s) of Some i \<Rightarrow> i | None \<Rightarrow> 0)\<rparr>)"

definition touch_down_at :: "touch_id \<Rightarrow> input_state \<Rightarrow> bool" where
  "touch_down_at i s = (case map_of (in_touches s) i of None \<Rightarrow> False | Some t \<Rightarrow> tp_current t)"

definition assign_primary_touch_if_missing :: "touch_id option \<Rightarrow> input_state \<Rightarrow> input_state" where
  "assign_primary_touch_if_missing preferred s =
    (if (case in_primary_touch s of None \<Rightarrow> False | Some i \<Rightarrow> touch_down_at i s) then s
     else if (case preferred of None \<Rightarrow> False | Some i \<Rightarrow> touch_id_valid i \<and> touch_down_at i s)
     then s\<lparr>in_primary_touch := preferred\<rparr>
     else s\<lparr>in_primary_touch := first_key tp_current (in_touches s)\<rparr>)"

definition pen_in_range_at :: "u32 \<Rightarrow> input_state \<Rightarrow> bool" where
  "pen_in_range_at i s = (case map_of (in_pens s) i of None \<Rightarrow> False | Some p \<Rightarrow> pn_current_in_range p)"

definition assign_primary_pen_if_missing :: "u32 \<Rightarrow> input_state \<Rightarrow> input_state" where
  "assign_primary_pen_if_missing preferred s =
    (if in_primary_pen s \<noteq> 0 \<and> pen_in_range_at (in_primary_pen s) s then s
     else if preferred \<noteq> 0 \<and> pen_in_range_at preferred s then s\<lparr>in_primary_pen := preferred\<rparr>
     else s\<lparr>in_primary_pen := (case first_key pn_current_in_range (in_pens s) of Some i \<Rightarrow> i | None \<Rightarrow> 0)\<rparr>)"

end
