(* ===== verification/Input_Events.thy ===== *)
theory Input_Events
  imports Input_State
begin

text \<open>
  What the event handlers and the start of a frame do to the input state (\<open>src/src/input_state.cpp\<close>), and
  the frame prologue of \<open>src/src/engine.cpp\<close> with the two orders in which it meets the event library.
\<close>

section \<open>The start of a frame\<close>

text \<open>The erasing loops: contacts and pens that are gone since the last frame are dropped.\<close>

fun touch_frame :: "(touch_id \<times> touch_point) list \<Rightarrow> touch_id option \<Rightarrow>
    (touch_id \<times> touch_point) list \<times> touch_id option" where
  "touch_frame [] primary = ([], primary)"
| "touch_frame ((i, t) # m) primary =
    (if \<not> tp_current t \<and> \<not> tp_previous t
     then touch_frame m (if primary = Some i then None else primary)
     else (case touch_frame m primary of (m', primary') \<Rightarrow> ((i, touch_begin_frame t) # m', primary')))"

definition pen_gone :: "pen \<Rightarrow> bool" where
  "pen_gone p = (\<not> pn_current_in_range p \<and> \<not> pn_previous_in_range p \<and>
     \<not> pn_current_down p \<and> \<not> pn_previous_down p)"

fun pen_frame :: "(u32 \<times> pen) list \<Rightarrow> u32 \<Rightarrow> (u32 \<times> pen) list \<times> u32" where
  "pen_frame [] primary = ([], primary)"
| "pen_frame ((i, p) # m) primary =
    (if pen_gone p then pen_frame m (if primary = i then 0 else primary)
     else (case pen_frame m primary of (m', primary') \<Rightarrow> ((i, pen_begin_frame p) # m', primary')))"

definition begin_frame_touches :: "input_state \<Rightarrow> input_state" where
  "begin_frame_touches s =
    (let s = (case touch_frame (in_touches s) (in_primary_touch s) of
                (m, primary) \<Rightarrow> s\<lparr>in_touches := m, in_primary_touch := primary\<rparr>);
         s = (if (case in_primary_touch s of None \<Rightarrow> False | Some i \<Rightarrow> \<not> touch_down_at i s)
              then s\<lparr>in_primary_touch := None\<rparr> else s)
     in assign_primary_touch_if_missing None s)"

definition begin_frame_pens :: "input_state \<Rightarrow> input_state" where
  "begin_frame_pens s =
    (let s = (case pen_frame (in_pens s) (in_primary_pen s) of
                (m, primary) \<Rightarrow> s\<lparr>in_pens := m, in_primary_pen := primary\<rparr>);
         s = (if in_primary_pen s \<noteq> 0 \<and> \<not> pen_in_range_at (in_primary_pen s) s
              then s\<lparr>in_primary_pen := 0\<rparr> else s)
     in assign_primary_pen_if_missing 0 s)"

definition begin_frame :: "input_state \<Rightarrow> input_state" where
  "begin_frame s =
    (let s = s\<lparr>in_gamepads := map (\<lambda>(i, g). (i, gamepad_begin_frame g)) (in_gamepads s)\<rparr>
     in begin_frame_pens (begin_frame_touches s))"

section \<open>Gamepad events\<close>

definition upsert :: "'k \<Rightarrow> 'v \<Rightarrow> ('v \<Rightarrow> 'v) \<Rightarrow> ('k \<times> 'v) list \<Rightarrow> ('k \<times> 'v) list" where
  "upsert k v f m = (let m = ensure k v m in AList.update k (f (the (map_of m k))) m)"

definition on_gamepad_connected :: "int \<Rightarrow> u32 \<Rightarrow> u64 \<Rightarrow> input_state \<Rightarrow> input_state" where
  "on_gamepad_connected dev i ts s =
    assign_primary_if_missing i
      (s\<lparr>in_gamepads := upsert i initial_gamepad (gamepad_connect dev i ts) (in_gamepads s)\<rparr>)"

text \<open>The entry is erased, so what \<open>disconnect\<close> did to its state is not visible here.\<close>

definition on_gamepad_disconnected :: "u32 \<Rightarrow> u64 \<Rightarrow> input_state \<Rightarrow> input_state" where
  "on_gamepad_disconnected i ts s =
    (let s = s\<lparr>in_gamepads := AList.delete i (in_gamepads s)\<rparr>
     in if in_primary_gamepad s = i then assign_primary_if_missing 0 (s\<lparr>in_primary_gamepad := 0\<rparr>) else s)"

text \<open>The gamepad is created before its index is checked: an entry stays when the check throws.\<close>

definition update_gamepad :: "u32 \<Rightarrow> (gamepad \<Rightarrow> gamepad result) \<Rightarrow> input_state \<Rightarrow> input_state outcome" where
  "update_gamepad i f s =
    (let s = s\<lparr>in_gamepads := ensure i initial_gamepad (in_gamepads s)\<rparr>
     in case f (the (map_of (in_gamepads s) i)) of
       Inl e \<Rightarrow> throw e s
     | Inr g \<Rightarrow> ok (s\<lparr>in_gamepads := AList.update i g (in_gamepads s), in_primary_gamepad := i\<rparr>))"

definition on_gamepad_button :: "byte \<Rightarrow> bool \<Rightarrow> u32 \<Rightarrow> u64 \<Rightarrow> input_state \<Rightarrow> input_state outcome" where
  "on_gamepad_button button pressed i ts = update_gamepad i (gamepad_set_button button pressed i ts)"

definition on_gamepad_axis :: "byte \<Rightarrow> u32 \<Rightarrow> u32 \<Rightarrow> u64 \<Rightarrow> input_state \<Rightarrow> input_state outcome" where
  "on_gamepad_axis a v i ts = update_gamepad i (gamepad_set_axis a v i ts)"

section \<open>Touch events\<close>

definition on_touch_down :: "touch_id \<Rightarrow> contact \<Rightarrow> u64 \<Rightarrow> input_state \<Rightarrow> input_state" where
  "on_touch_down i c ts s =
    assign_primary_touch_if_missing (Some i)
      (s\<lparr>in_touches := upsert i initial_touch (touch_set_contact i c True ts) (in_touches s)\<rparr>)"

definition on_touch_motion :: "touch_id \<Rightarrow> contact \<Rightarrow> u64 \<Rightarrow> input_state \<Rightarrow> input_state" where
  "on_touch_motion i c ts s =
    assign_primary_touch_if_missing (Some i)
      (s\<lparr>in_touches := upsert i initial_touch (touch_set_contact i c True ts) (in_touches s)\<rparr>)"

definition on_touch_up :: "touch_id \<Rightarrow> contact \<Rightarrow> u64 \<Rightarrow> input_state \<Rightarrow> input_state" where
  "on_touch_up i c ts s =
    (let s = s\<lparr>in_touches := upsert i initial_touch (touch_set_contact i c False ts) (in_touches s)\<rparr>
     in if in_primary_touch s = Some i
        then assign_primary_touch_if_missing None (s\<lparr>in_primary_touch := None\<rparr>) else s)"

section \<open>Pen events\<close>

definition pen_record :: "pen_event_type \<Rightarrow> u32 \<Rightarrow> u64 \<Rightarrow> byte \<Rightarrow> bool \<Rightarrow> nat \<Rightarrow> u32 \<Rightarrow> pen \<Rightarrow> pen_event" where
  "pen_record ty i ts button button_down ax v p =
    \<lparr>pe_type = ty, pe_pen = i, pe_x = pn_x p, pe_y = pn_y p, pe_xrel = pn_xrel p, pe_yrel = pn_yrel p,
     pe_timestamp = ts, pe_input_state = pn_input_state p, pe_eraser = pn_eraser p,
     pe_in_range = pn_current_in_range p, pe_down = pn_current_down p, pe_button = button,
     pe_button_down = button_down, pe_axis = ax, pe_value = v, pe_axes = pn_axes p\<rparr>"

text \<open>
  What every pen handler does: it finds or makes the pen, sets its id, changes it, and records the
  event with the state the change left. The axis of the other events is \<open>SDL_PEN_AXIS_PRESSURE\<close>, 0.
\<close>

definition pen_handler ::
  "u32 \<Rightarrow> (pen \<Rightarrow> pen) \<Rightarrow> (pen \<Rightarrow> pen_event) \<Rightarrow> input_state \<Rightarrow> input_state" where
  "pen_handler i change record s =
    s\<lparr>in_pens := upsert i initial_pen
        (\<lambda>p. let p = change (p\<lparr>pn_id := i\<rparr>) in pen_push_event (record p) p) (in_pens s)\<rparr>"

definition on_pen_proximity_in :: "u32 \<Rightarrow> u64 \<Rightarrow> input_state \<Rightarrow> input_state" where
  "on_pen_proximity_in i ts s =
    (pen_handler i (pen_set_proximity True ts) (pen_record Proximity_in i ts 0 False 0 0) s)
      \<lparr>in_primary_pen := i\<rparr>"

definition on_pen_proximity_out :: "u32 \<Rightarrow> u64 \<Rightarrow> input_state \<Rightarrow> input_state" where
  "on_pen_proximity_out i ts s =
    (let s = pen_handler i (pen_set_proximity False ts) (pen_record Proximity_out i ts 0 False 0 0) s
     in if in_primary_pen s = i then assign_primary_pen_if_missing 0 (s\<lparr>in_primary_pen := 0\<rparr>) else s)"

definition on_pen_motion ::
  "(u32 \<Rightarrow> u32 \<Rightarrow> u32) \<Rightarrow> u32 \<Rightarrow> u32 \<Rightarrow> u32 \<Rightarrow> u32 \<Rightarrow> u64 \<Rightarrow> input_state \<Rightarrow> input_state" where
  "on_pen_motion fsub i x y flags ts s =
    (pen_handler i (pen_set_motion fsub x y flags ts) (pen_record Pen_motion i ts 0 False 0 0) s)
      \<lparr>in_primary_pen := i\<rparr>"

definition on_pen_down ::
  "(u32 \<Rightarrow> u32 \<Rightarrow> u32) \<Rightarrow> u32 \<Rightarrow> u32 \<Rightarrow> u32 \<Rightarrow> bool \<Rightarrow> u32 \<Rightarrow> u64 \<Rightarrow> input_state \<Rightarrow> input_state" where
  "on_pen_down fsub i x y eraser flags ts s =
    (pen_handler i (pen_set_touch fsub x y eraser True flags ts) (pen_record Pen_down i ts 0 False 0 0) s)
      \<lparr>in_primary_pen := i\<rparr>"

definition on_pen_up ::
  "(u32 \<Rightarrow> u32 \<Rightarrow> u32) \<Rightarrow> u32 \<Rightarrow> u32 \<Rightarrow> u32 \<Rightarrow> bool \<Rightarrow> u32 \<Rightarrow> u64 \<Rightarrow> input_state \<Rightarrow> input_state" where
  "on_pen_up fsub i x y eraser flags ts s =
    (pen_handler i (pen_set_touch fsub x y eraser False flags ts) (pen_record Pen_up i ts 0 False 0 0) s)
      \<lparr>in_primary_pen := i\<rparr>"

definition on_pen_button ::
  "(u32 \<Rightarrow> u32 \<Rightarrow> u32) \<Rightarrow> u32 \<Rightarrow> u32 \<Rightarrow> u32 \<Rightarrow> byte \<Rightarrow> bool \<Rightarrow> u32 \<Rightarrow> u64 \<Rightarrow> input_state \<Rightarrow> input_state" where
  "on_pen_button fsub i x y button down flags ts s =
    (pen_handler i (pen_set_button fsub x y button down flags ts)
       (pen_record (if down then Button_down else Button_up) i ts button down 0 0) s)
      \<lparr>in_primary_pen := i\<rparr>"

definition on_pen_axis ::
  "(u32 \<Rightarrow> u32 \<Rightarrow> u32) \<Rightarrow> u32 \<Rightarrow> u32 \<Rightarrow> u32 \<Rightarrow> nat \<Rightarrow> u32 \<Rightarrow> u32 \<Rightarrow> u64 \<Rightarrow> input_state \<Rightarrow> input_state" where
  "on_pen_axis fsub i x y ax v flags ts s =
    (pen_handler i (pen_set_axis fsub x y ax v flags ts) (pen_record Pen_axis i ts 0 False ax v) s)
      \<lparr>in_primary_pen := i\<rparr>"

section \<open>Queries\<close>

definition gamepad_count :: "input_state \<Rightarrow> nat" where
  "gamepad_count s = length (in_gamepads s)"

definition gamepad_by_id :: "u32 \<Rightarrow> input_state \<Rightarrow> gamepad option" where
  "gamepad_by_id i s = map_of (in_gamepads s) i"

definition primary_gamepad :: "input_state \<Rightarrow> gamepad option" where
  "primary_gamepad s = gamepad_by_id (in_primary_gamepad s) s"

definition gamepad_ids :: "input_state \<Rightarrow> u32 list" where
  "gamepad_ids s = map fst (filter (\<lambda>(i, g). gp_connected g) (in_gamepads s))"

definition touch_count :: "input_state \<Rightarrow> nat" where
  "touch_count s = foldl (\<lambda>n (i, t). if tp_current t then n + 1 else n) 0 (in_touches s)"

definition touch_by_id :: "touch_id \<Rightarrow> input_state \<Rightarrow> touch_point option" where
  "touch_by_id i s = map_of (in_touches s) i"

definition primary_touch :: "input_state \<Rightarrow> touch_point option" where
  "primary_touch s = (case in_primary_touch s of None \<Rightarrow> None | Some i \<Rightarrow> touch_by_id i s)"

definition touch_ids :: "input_state \<Rightarrow> touch_id list" where
  "touch_ids s = map fst (filter (\<lambda>(i, t). tp_current t) (in_touches s))"

definition pen_count :: "input_state \<Rightarrow> nat" where
  "pen_count s = foldl (\<lambda>n (i, p). if pn_current_in_range p then n + 1 else n) 0 (in_pens s)"

definition pen_by_id :: "u32 \<Rightarrow> input_state \<Rightarrow> pen option" where
  "pen_by_id i s = map_of (in_pens s) i"

definition primary_pen :: "input_state \<Rightarrow> pen option" where
  "primary_pen s = pen_by_id (in_primary_pen s) s"

definition pen_ids :: "input_state \<Rightarrow> u32 list" where
  "pen_ids s = map fst (filter (\<lambda>(i, p). pn_current_in_range p) (in_pens s))"

section \<open>Frames of the engine\<close>

text \<open>The event library writes the keyboard array whenever events are pumped.\<close>

definition pump_keyboard :: "bool list \<Rightarrow> input_state \<Rightarrow> input_state" where
  "pump_keyboard live s = s\<lparr>in_keyboard := (in_keyboard s)\<lparr>kb_current := Some live\<rparr>\<rparr>"

text \<open>
  The prologue of a frame: the keyboard is copied, the devices begin their frame and, with a window and
  unpaused input, the mouse is read back (\<open>polled\<close>: its position and button mask).
\<close>

definition frame_prologue ::
  "(u32 \<Rightarrow> u32 \<Rightarrow> u32) \<Rightarrow> (u32 \<times> u32 \<times> u32) option \<Rightarrow> input_state \<Rightarrow> input_state" where
  "frame_prologue fadd polled s =
    (let s = (case kb_current (in_keyboard s) of
                None \<Rightarrow> s
              | Some cur \<Rightarrow> s\<lparr>in_keyboard := (in_keyboard s)\<lparr>kb_previous := take scancode_count cur\<rparr>\<rparr>);
         s = s\<lparr>in_mouse := mouse_begin_frame (in_mouse s)\<rparr>;
         s = begin_frame s
     in case polled of
          None \<Rightarrow> s
        | Some (x, y, flags) \<Rightarrow>
            s\<lparr>in_mouse := mouse_set_motion fadd x y 0 0 (mouse_update_from_mask flags (in_mouse s))\<rparr>)"

text \<open>
  The keyboard across one frame. With a frame rate the prologue comes first and the events are pumped
  after it; without one, \<open>SDL_WaitEventTimeout\<close> has already pumped the events when the prologue runs.
\<close>

definition timed_frame ::
  "(u32 \<Rightarrow> u32 \<Rightarrow> u32) \<Rightarrow> (u32 \<times> u32 \<times> u32) option \<Rightarrow> bool list \<Rightarrow> input_state \<Rightarrow> input_state" where
  "timed_frame fadd polled live s = pump_keyboard live (frame_prologue fadd polled s)"

definition waited_frame ::
  "(u32 \<Rightarrow> u32 \<Rightarrow> u32) \<Rightarrow> (u32 \<times> u32 \<times> u32) option \<Rightarrow> bool list \<Rightarrow> bool list \<Rightarrow> input_state \<Rightarrow> input_state" where
  "waited_frame fadd polled live1 live2 s =
    pump_keyboard live2 (frame_prologue fadd polled (pump_keyboard live1 s))"

end
