(* ===== verification/Input_Safety.thy ===== *)
theory Input_Safety
  imports Input_Events
begin

text \<open>
  Sequences of input events and the invariant of the primary devices: every handler keeps it.
\<close>

section \<open>Maps of devices\<close>

lemma map_of_ensure [simp]:
  "map_of (ensure k v m) = (\<lambda>k'. if k' = k then Some (case map_of m k of None \<Rightarrow> v | Some x \<Rightarrow> x) else map_of m k')"
  by (auto simp: ensure_def fun_eq_iff split: option.splits)

lemma map_of_upsert [simp]:
  "map_of (upsert k v f m) =
    (\<lambda>k'. if k' = k then Some (f (case map_of m k of None \<Rightarrow> v | Some x \<Rightarrow> x)) else map_of m k')"
  by (auto simp: upsert_def Let_def fun_eq_iff)

lemma distinct_ensure [simp]: "distinct (map fst m) \<Longrightarrow> distinct (map fst (ensure k v m))"
  by (simp add: ensure_def distinct_update)

lemma distinct_upsert [simp]: "distinct (map fst m) \<Longrightarrow> distinct (map fst (upsert k v f m))"
  by (simp add: upsert_def Let_def distinct_update)

lemma first_key_Some: "first_key P m = Some k \<Longrightarrow> \<exists>v. (k, v) \<in> set m \<and> P v"
  by (induction m) (auto split: if_splits)

lemma first_key_None: "first_key P m = None \<Longrightarrow> (k, v) \<in> set m \<Longrightarrow> \<not> P v"
  by (induction m) (auto split: if_splits)

text \<open>
  The contract of a primary device: when there is one it is in the map and eligible, and there is none only
  when no device is eligible.
\<close>

definition primary_ok :: "('v \<Rightarrow> bool) \<Rightarrow> ('k \<times> 'v) list \<Rightarrow> 'k option \<Rightarrow> bool" where
  "primary_ok P m primary =
    (case primary of
       Some k \<Rightarrow> (case map_of m k of None \<Rightarrow> False | Some v \<Rightarrow> P v)
     | None \<Rightarrow> (\<forall>k. case map_of m k of None \<Rightarrow> True | Some v \<Rightarrow> \<not> P v))"

lemma primary_ok_first_key:
  assumes "distinct (map fst m)"
  shows "primary_ok P m (first_key P m)"
proof (cases "first_key P m")
  case None
  then show ?thesis using first_key_None [OF None] map_of_SomeD
    by (fastforce simp: primary_ok_def split: option.splits)
next
  case (Some k)
  from first_key_Some [OF Some] obtain v where "(k, v) \<in> set m" "P v" by blast
  then show ?thesis using Some assms by (simp add: primary_ok_def)
qed

text \<open>Device ids that are numbers: 0 stands for none.\<close>

definition id_option :: "u32 \<Rightarrow> u32 option" where
  "id_option i = (if i = 0 then None else Some i)"

lemma id_option_simps [simp]: "id_option 0 = None" "i \<noteq> 0 \<Longrightarrow> id_option i = Some i"
  by (simp_all add: id_option_def)

section \<open>Events\<close>

datatype input_event =
  Frame
| Gamepad_added int u32 u64
| Gamepad_removed u32 u64
| Gamepad_button byte bool u32 u64
| Gamepad_axis byte u32 u32 u64
| Touch_down touch_id contact u64
| Touch_motion touch_id contact u64
| Touch_up touch_id contact u64
| Pen_in u32 u64
| Pen_out u32 u64
| Pen_moved u32 u32 u32 u32 u64
| Pen_touched u32 u32 u32 bool u32 u64
| Pen_lifted u32 u32 u32 bool u32 u64
| Pen_button_event u32 u32 u32 byte bool u32 u64
| Pen_axis_event u32 u32 u32 nat u32 u32 u64

fun handle :: "(u32 \<Rightarrow> u32 \<Rightarrow> u32) \<Rightarrow> input_event \<Rightarrow> input_state \<Rightarrow> input_state" where
  "handle fsub Frame s = begin_frame s"
| "handle fsub (Gamepad_added dev i ts) s = on_gamepad_connected dev i ts s"
| "handle fsub (Gamepad_removed i ts) s = on_gamepad_disconnected i ts s"
| "handle fsub (Gamepad_button button pressed i ts) s = snd (on_gamepad_button button pressed i ts s)"
| "handle fsub (Gamepad_axis a v i ts) s = snd (on_gamepad_axis a v i ts s)"
| "handle fsub (Touch_down i c ts) s = on_touch_down i c ts s"
| "handle fsub (Touch_motion i c ts) s = on_touch_motion i c ts s"
| "handle fsub (Touch_up i c ts) s = on_touch_up i c ts s"
| "handle fsub (Pen_in i ts) s = on_pen_proximity_in i ts s"
| "handle fsub (Pen_out i ts) s = on_pen_proximity_out i ts s"
| "handle fsub (Pen_moved i x y flags ts) s = on_pen_motion fsub i x y flags ts s"
| "handle fsub (Pen_touched i x y eraser flags ts) s = on_pen_down fsub i x y eraser flags ts s"
| "handle fsub (Pen_lifted i x y eraser flags ts) s = on_pen_up fsub i x y eraser flags ts s"
| "handle fsub (Pen_button_event i x y button down flags ts) s = on_pen_button fsub i x y button down flags ts s"
| "handle fsub (Pen_axis_event i x y ax v flags ts) s = on_pen_axis fsub i x y ax v flags ts s"

definition handle_all :: "(u32 \<Rightarrow> u32 \<Rightarrow> u32) \<Rightarrow> input_event list \<Rightarrow> input_state \<Rightarrow> input_state" where
  "handle_all fsub es s = fold (handle fsub) es s"

text \<open>The events the library delivers: device ids are not 0, indexes are inside the arrays.\<close>

fun valid_event :: "input_event \<Rightarrow> bool" where
  "valid_event Frame = True"
| "valid_event (Gamepad_added dev i ts) = (i \<noteq> 0)"
| "valid_event (Gamepad_removed i ts) = (i \<noteq> 0)"
| "valid_event (Gamepad_button button pressed i ts) = (i \<noteq> 0 \<and> unat button < gamepad_buttons)"
| "valid_event (Gamepad_axis a v i ts) = (i \<noteq> 0 \<and> unat a < gamepad_axes)"
| "valid_event (Touch_down i c ts) = True"
| "valid_event (Touch_motion i c ts) = True"
| "valid_event (Touch_up i c ts) = True"
| "valid_event (Pen_in i ts) = (i \<noteq> 0)"
| "valid_event (Pen_out i ts) = (i \<noteq> 0)"
| "valid_event (Pen_moved i x y flags ts) = (i \<noteq> 0)"
| "valid_event (Pen_touched i x y eraser flags ts) = (i \<noteq> 0)"
| "valid_event (Pen_lifted i x y eraser flags ts) = (i \<noteq> 0)"
| "valid_event (Pen_button_event i x y button down flags ts) = (i \<noteq> 0)"
| "valid_event (Pen_axis_event i x y ax v flags ts) = (i \<noteq> 0)"

section \<open>The primary devices\<close>

definition maps_ok :: "input_state \<Rightarrow> bool" where
  "maps_ok s = (distinct (map fst (in_gamepads s)) \<and> distinct (map fst (in_touches s)) \<and>
    distinct (map fst (in_pens s)))"

definition gamepads_ok :: "input_state \<Rightarrow> bool" where
  "gamepads_ok s = (map_of (in_gamepads s) 0 = None \<and>
    (\<forall>i. case map_of (in_gamepads s) i of None \<Rightarrow> True | Some g \<Rightarrow> gp_connected g) \<and>
    primary_ok gp_connected (in_gamepads s) (id_option (in_primary_gamepad s)))"

definition touches_ok :: "input_state \<Rightarrow> bool" where
  "touches_ok s = primary_ok tp_current (in_touches s) (in_primary_touch s)"

definition pens_ok :: "input_state \<Rightarrow> bool" where
  "pens_ok s = (map_of (in_pens s) 0 = None \<and>
    primary_ok pn_current_in_range (in_pens s) (id_option (in_primary_pen s)))"

definition input_inv :: "input_state \<Rightarrow> bool" where
  [inv_defs]: "input_inv s = (maps_ok s \<and> gamepads_ok s \<and> touches_ok s \<and> pens_ok s)"

lemma assign_touch_frame [simp]:
  "in_touches (assign_primary_touch_if_missing p s) = in_touches s"
  "in_pens (assign_primary_touch_if_missing p s) = in_pens s"
  "in_gamepads (assign_primary_touch_if_missing p s) = in_gamepads s"
  "in_primary_pen (assign_primary_touch_if_missing p s) = in_primary_pen s"
  "in_primary_gamepad (assign_primary_touch_if_missing p s) = in_primary_gamepad s"
  by (simp_all add: assign_primary_touch_if_missing_def)

lemma assign_pen_frame [simp]:
  "in_touches (assign_primary_pen_if_missing p s) = in_touches s"
  "in_pens (assign_primary_pen_if_missing p s) = in_pens s"
  "in_gamepads (assign_primary_pen_if_missing p s) = in_gamepads s"
  "in_primary_touch (assign_primary_pen_if_missing p s) = in_primary_touch s"
  "in_primary_gamepad (assign_primary_pen_if_missing p s) = in_primary_gamepad s"
  by (simp_all add: assign_primary_pen_if_missing_def)

lemma assign_gamepad_frame [simp]:
  "in_touches (assign_primary_if_missing p s) = in_touches s"
  "in_pens (assign_primary_if_missing p s) = in_pens s"
  "in_gamepads (assign_primary_if_missing p s) = in_gamepads s"
  "in_primary_touch (assign_primary_if_missing p s) = in_primary_touch s"
  "in_primary_pen (assign_primary_if_missing p s) = in_primary_pen s"
  by (simp_all add: assign_primary_if_missing_def)

lemma assign_touch_ok:
  assumes "distinct (map fst (in_touches s))"
  shows "touches_ok (assign_primary_touch_if_missing p s)"
  using primary_ok_first_key [OF assms, of tp_current]
  by (auto simp: touches_ok_def assign_primary_touch_if_missing_def primary_ok_def touch_down_at_def
      split: option.splits)

lemma assign_pen_ok:
  assumes "distinct (map fst (in_pens s))" and "map_of (in_pens s) 0 = None"
  shows "pens_ok (assign_primary_pen_if_missing p s)"
proof -
  have fk: "first_key pn_current_in_range (in_pens s) = Some i \<Longrightarrow> i \<noteq> 0" for i
    using first_key_Some [of pn_current_in_range "in_pens s" i] assms by (auto simp: map_of_eq_None_iff rev_image_eqI)
  show ?thesis
    using primary_ok_first_key [OF assms(1), of pn_current_in_range] fk assms(2)
    by (auto simp: pens_ok_def assign_primary_pen_if_missing_def pen_in_range_at_def primary_ok_def
        split: option.splits)
qed

lemma assign_gamepad_ok:
  assumes "distinct (map fst (in_gamepads s))" and "map_of (in_gamepads s) 0 = None"
    and "\<forall>i. case map_of (in_gamepads s) i of None \<Rightarrow> True | Some g \<Rightarrow> gp_connected g"
  shows "gamepads_ok (assign_primary_if_missing p s)"
proof -
  have fk: "first_key gp_connected (in_gamepads s) = Some i \<Longrightarrow> i \<noteq> 0" for i
    using first_key_Some [of gp_connected "in_gamepads s" i] assms(1,2) by (auto simp: map_of_eq_None_iff rev_image_eqI)
  show ?thesis
    using primary_ok_first_key [OF assms(1), of gp_connected] fk assms(2,3)
    by (auto simp: gamepads_ok_def assign_primary_if_missing_def primary_ok_def split: option.splits)
qed

lemma touch_frame_map:
  "fst (touch_frame m primary) =
    map (\<lambda>(i, t). (i, touch_begin_frame t)) (filter (\<lambda>(i, t). tp_current t \<or> tp_previous t) m)"
  by (induction m primary rule: touch_frame.induct) (auto split: prod.splits)

lemma pen_frame_map:
  "fst (pen_frame m primary) = map (\<lambda>(i, p). (i, pen_begin_frame p)) (filter (\<lambda>(i, p). \<not> pen_gone p) m)"
  by (induction m primary rule: pen_frame.induct) (auto split: prod.splits)

lemma begin_frame_touches_maps [simp]:
  "in_gamepads (begin_frame_touches s) = in_gamepads s"
  "in_pens (begin_frame_touches s) = in_pens s"
  "in_primary_gamepad (begin_frame_touches s) = in_primary_gamepad s"
  "in_touches (begin_frame_touches s) = fst (touch_frame (in_touches s) (in_primary_touch s))"
  by (simp_all add: begin_frame_touches_def Let_def split: prod.splits)

lemma begin_frame_pens_maps [simp]:
  "in_gamepads (begin_frame_pens s) = in_gamepads s"
  "in_touches (begin_frame_pens s) = in_touches s"
  "in_primary_gamepad (begin_frame_pens s) = in_primary_gamepad s"
  "in_primary_touch (begin_frame_pens s) = in_primary_touch s"
  "in_pens (begin_frame_pens s) = fst (pen_frame (in_pens s) (in_primary_pen s))"
  by (simp_all add: begin_frame_pens_def Let_def split: prod.splits)

lemma begin_frame_touches_pen [simp]: "in_primary_pen (begin_frame_touches s) = in_primary_pen s"
  by (simp add: begin_frame_touches_def Let_def split: prod.splits)

lemma begin_frame_maps:
  "in_gamepads (begin_frame s) = map (\<lambda>(i, g). (i, gamepad_begin_frame g)) (in_gamepads s)"
  "in_touches (begin_frame s) =
    map (\<lambda>(i, t). (i, touch_begin_frame t)) (filter (\<lambda>(i, t). tp_current t \<or> tp_previous t) (in_touches s))"
  "in_pens (begin_frame s) =
    map (\<lambda>(i, p). (i, pen_begin_frame p)) (filter (\<lambda>(i, p). \<not> pen_gone p) (in_pens s))"
  "in_primary_gamepad (begin_frame s) = in_primary_gamepad s"
  by (simp_all add: begin_frame_def touch_frame_map pen_frame_map)

lemma map_of_map_filter:
  assumes "distinct (map fst m)"
  shows "map_of (map (\<lambda>(i, v). (i, f v)) (filter (\<lambda>(i, v). P v) m)) k =
    (case map_of m k of None \<Rightarrow> None | Some v \<Rightarrow> if P v then Some (f v) else None)"
  using assms
proof (induction m)
  case (Cons e m)
  obtain i v where e: "e = (i, v)" by fastforce
  show ?case
  proof (cases "k = i")
    case True
    then have "map_of m k = None" using Cons.prems e by (auto simp: map_of_eq_None_iff)
    then show ?thesis using Cons True e by auto
  next
    case False
    then show ?thesis using Cons e by auto
  qed
qed simp

lemma fst_map_snd [simp]: "fst \<circ> (\<lambda>(i, v). (i, f v)) = fst"
  by (auto simp: fun_eq_iff)

lemma map_of_map_all:
  "map_of (map (\<lambda>(i, v). (i, f v)) m) k = map_option f (map_of m k)"
  by (induction m) auto

lemma touches_frame:
  assumes "maps_ok s"
  shows "map_of (in_touches (begin_frame s)) k =
    (case map_of (in_touches s) k of None \<Rightarrow> None
     | Some t \<Rightarrow> if tp_current t \<or> tp_previous t then Some (touch_begin_frame t) else None)"
  using assms by (simp add: maps_ok_def begin_frame_maps map_of_map_filter)

lemma pens_frame:
  assumes "maps_ok s"
  shows "map_of (in_pens (begin_frame s)) k =
    (case map_of (in_pens s) k of None \<Rightarrow> None
     | Some p \<Rightarrow> if \<not> pen_gone p then Some (pen_begin_frame p) else None)"
  using assms by (simp add: maps_ok_def begin_frame_maps map_of_map_filter)

lemma maps_ok_frame: "maps_ok s \<Longrightarrow> maps_ok (begin_frame s)"
  by (simp add: maps_ok_def begin_frame_maps distinct_fst_filter)

text \<open>The last step of each reselection in \<open>begin_frame\<close> settles the primaries.\<close>

lemma begin_frame_touches_ok:
  assumes "maps_ok s"
  shows "touches_ok (begin_frame s)"
proof -
  let ?s = "s\<lparr>in_gamepads := map (\<lambda>(i, g). (i, gamepad_begin_frame g)) (in_gamepads s)\<rparr>"
  have "\<exists>s'. begin_frame_touches ?s = assign_primary_touch_if_missing None s'"
    by (auto simp: begin_frame_touches_def Let_def)
  then obtain s' where s': "begin_frame_touches ?s = assign_primary_touch_if_missing None s'" by blast
  have "in_touches s' = fst (touch_frame (in_touches s) (in_primary_touch s))"
    using arg_cong [OF s', of in_touches] by simp
  then have "touches_ok (begin_frame_touches ?s)"
    unfolding s' using assms by (intro assign_touch_ok) (simp add: touch_frame_map maps_ok_def distinct_fst_filter)
  then show ?thesis by (simp add: touches_ok_def begin_frame_def)
qed

lemma begin_frame_pens_ok:
  assumes "maps_ok s" and "map_of (in_pens s) 0 = None"
  shows "pens_ok (begin_frame s)"
proof -
  have "\<exists>s'. begin_frame s = assign_primary_pen_if_missing 0 s'" by (auto simp: begin_frame_def begin_frame_pens_def Let_def)
  then obtain s' where s': "begin_frame s = assign_primary_pen_if_missing 0 s'" by blast
  have eq: "in_pens (begin_frame s) = in_pens s'" by (simp add: s')
  have "distinct (map fst (in_pens s'))" "map_of (in_pens s') 0 = None"
    using maps_ok_frame [OF assms(1)] pens_frame [OF assms(1), of 0] assms(2) by (simp_all add: maps_ok_def eq)
  then show ?thesis unfolding s' by (rule assign_pen_ok)
qed

lemma begin_frame_gamepads_ok: "gamepads_ok s \<Longrightarrow> gamepads_ok (begin_frame s)"
proof -
  assume ok: "gamepads_ok s"
  have m: "map_of (in_gamepads (begin_frame s)) = map_option gamepad_begin_frame \<circ> map_of (in_gamepads s)"
    by (simp add: fun_eq_iff begin_frame_maps map_of_map_all)
  have c: "gp_connected (gamepad_begin_frame g) = gp_connected g" for g by (simp add: gamepad_begin_frame_def)
  show ?thesis
    using ok by (auto simp: gamepads_ok_def m begin_frame_maps(4) primary_ok_def c split: option.splits)
qed

lemma begin_frame_inv: "input_inv s \<Longrightarrow> input_inv (begin_frame s)"
  by (simp add: input_inv_def maps_ok_frame begin_frame_touches_ok begin_frame_pens_ok begin_frame_gamepads_ok
      pens_ok_def [of s])

lemma push_event_simps [simp]:
  "pn_current_in_range (pen_push_event e p) = pn_current_in_range p"
  "pn_previous_in_range (pen_push_event e p) = pn_previous_in_range p"
  "pn_current_down (pen_push_event e p) = pn_current_down p"
  "pn_previous_down (pen_push_event e p) = pn_previous_down p"
  by (simp_all add: pen_push_event_def Let_def)

lemma set_proximity_simps [simp]:
  "pn_current_in_range (pen_set_proximity b ts p) = b"
  "pn_previous_in_range (pen_set_proximity b ts p) = pn_previous_in_range p"
  "pn_current_down (pen_set_proximity b ts p) = False"
  "pn_previous_down (pen_set_proximity b ts p) = pn_previous_down p"
  "pn_recent (pen_set_proximity b ts p) = pn_recent p"
  by (simp_all add: pen_set_proximity_def clear_pen_buttons_def Let_def)

lemma set_position_simps [simp]:
  "pn_current_in_range (pen_set_position fsub x y down eraser flags ts p) = True"
  "pn_previous_in_range (pen_set_position fsub x y down eraser flags ts p) = pn_previous_in_range p"
  "pn_current_down (pen_set_position fsub x y down eraser flags ts p) = down"
  "pn_previous_down (pen_set_position fsub x y down eraser flags ts p) = pn_previous_down p"
  "pn_recent (pen_set_position fsub x y down eraser flags ts p) = pn_recent p"
  by (simp_all add: pen_set_position_def sync_pen_buttons_from_state_def update_pen_position_def Let_def)

lemma set_motion_simps [simp]:
  "pn_current_in_range (pen_set_motion fsub x y flags ts p) = True"
  "pn_previous_in_range (pen_set_motion fsub x y flags ts p) = pn_previous_in_range p"
  "pn_current_down (pen_set_motion fsub x y flags ts p) = (flags AND pen_input_down \<noteq> 0)"
  "pn_previous_down (pen_set_motion fsub x y flags ts p) = pn_previous_down p"
  "pn_recent (pen_set_motion fsub x y flags ts p) = pn_recent p"
  by (simp_all add: pen_set_motion_def)

lemma set_touch_simps [simp]:
  "pn_current_in_range (pen_set_touch fsub x y eraser down flags ts p) = True"
  "pn_previous_in_range (pen_set_touch fsub x y eraser down flags ts p) = pn_previous_in_range p"
  "pn_current_down (pen_set_touch fsub x y eraser down flags ts p) = down"
  "pn_previous_down (pen_set_touch fsub x y eraser down flags ts p) = pn_previous_down p"
  "pn_recent (pen_set_touch fsub x y eraser down flags ts p) = pn_recent p"
  by (simp_all add: pen_set_touch_def)

lemma set_button_simps [simp]:
  "pn_current_in_range (pen_set_button fsub x y button down flags ts p) = True"
  "pn_previous_in_range (pen_set_button fsub x y button down flags ts p) = pn_previous_in_range p"
  "pn_current_down (pen_set_button fsub x y button down flags ts p) = (flags AND pen_input_down \<noteq> 0)"
  "pn_previous_down (pen_set_button fsub x y button down flags ts p) = pn_previous_down p"
  "pn_recent (pen_set_button fsub x y button down flags ts p) = pn_recent p"
  by (simp_all add: pen_set_button_def Let_def)

lemma set_axis_simps [simp]:
  "pn_current_in_range (pen_set_axis fsub x y ax v flags ts p) = True"
  "pn_previous_in_range (pen_set_axis fsub x y ax v flags ts p) = pn_previous_in_range p"
  "pn_current_down (pen_set_axis fsub x y ax v flags ts p) = (flags AND pen_input_down \<noteq> 0)"
  "pn_previous_down (pen_set_axis fsub x y ax v flags ts p) = pn_previous_down p"
  "pn_recent (pen_set_axis fsub x y ax v flags ts p) = pn_recent p"
  by (simp_all add: pen_set_axis_def Let_def)

lemma pen_handler_frame [simp]:
  "in_gamepads (pen_handler i change record s) = in_gamepads s"
  "in_touches (pen_handler i change record s) = in_touches s"
  "in_primary_gamepad (pen_handler i change record s) = in_primary_gamepad s"
  "in_primary_touch (pen_handler i change record s) = in_primary_touch s"
  "in_primary_pen (pen_handler i change record s) = in_primary_pen s"
  by (simp_all add: pen_handler_def)

lemma maps_ok_pen_handler: "maps_ok s \<Longrightarrow> maps_ok (pen_handler i change record s)"
  by (simp add: maps_ok_def pen_handler_def)

lemma pen_handler_primary:
  assumes "input_inv s" and "i \<noteq> 0" and "\<And>p. pn_current_in_range (change p)"
  shows "input_inv ((pen_handler i change record s)\<lparr>in_primary_pen := i\<rparr>)"
proof -
  have "maps_ok (pen_handler i change record s)" using assms(1) by (simp add: input_inv_def maps_ok_pen_handler)
  then show ?thesis
    using assms
    by (auto simp: input_inv_def maps_ok_def gamepads_ok_def touches_ok_def pens_ok_def pen_handler_def
        primary_ok_def Let_def)
qed

lemma pen_out_inv:
  assumes inv: "input_inv s" and i: "i \<noteq> 0"
  shows "input_inv (on_pen_proximity_out i ts s)"
proof -
  define s1 where "s1 = pen_handler i (pen_set_proximity False ts) (pen_record Proximity_out i ts 0 False 0 0) s"
  have m: "maps_ok s1" using inv by (simp add: input_inv_def s1_def maps_ok_pen_handler)
  have z: "map_of (in_pens s1) 0 = None" using inv i by (simp add: input_inv_def pens_ok_def s1_def pen_handler_def)
  have same: "in_gamepads s1 = in_gamepads s" "in_touches s1 = in_touches s" "in_primary_pen s1 = in_primary_pen s"
    "in_primary_gamepad s1 = in_primary_gamepad s" "in_primary_touch s1 = in_primary_touch s"
    by (simp_all add: s1_def)
  show ?thesis
  proof (cases "in_primary_pen s = i")
    case True
    have "pens_ok (assign_primary_pen_if_missing 0 (s1\<lparr>in_primary_pen := 0\<rparr>))"
      by (rule assign_pen_ok) (use m z in \<open>simp_all add: maps_ok_def\<close>)
    then show ?thesis using True inv m
      by (simp add: on_pen_proximity_out_def Let_def s1_def [symmetric] same input_inv_def maps_ok_def
          gamepads_ok_def touches_ok_def)
  next
    case False
    have "pens_ok s1"
      using inv i False z
      by (auto simp: input_inv_def pens_ok_def s1_def pen_handler_def primary_ok_def id_option_def Let_def
          split: option.splits if_splits)
    then show ?thesis using False inv m
      by (simp add: on_pen_proximity_out_def Let_def s1_def [symmetric] same input_inv_def
          gamepads_ok_def touches_ok_def)
  qed
qed

lemma touch_upsert_inv:
  assumes "input_inv s"
  shows "input_inv (assign_primary_touch_if_missing p (s\<lparr>in_touches := upsert i initial_touch f (in_touches s)\<rparr>))"
proof -
  have "touches_ok (assign_primary_touch_if_missing p (s\<lparr>in_touches := upsert i initial_touch f (in_touches s)\<rparr>))"
    using assms by (intro assign_touch_ok) (simp add: input_inv_def maps_ok_def)
  then show ?thesis using assms by (simp add: input_inv_def maps_ok_def gamepads_ok_def pens_ok_def)
qed

lemma touch_up_inv:
  assumes inv: "input_inv s"
  shows "input_inv (on_touch_up i c ts s)"
proof (cases "in_primary_touch s = Some i")
  case True
  define s1 where "s1 = s\<lparr>in_touches := upsert i initial_touch (touch_set_contact i c False ts) (in_touches s),
    in_primary_touch := None\<rparr>"
  have "touches_ok (assign_primary_touch_if_missing None s1)"
    using inv by (intro assign_touch_ok) (simp add: input_inv_def maps_ok_def s1_def)
  moreover have "on_touch_up i c ts s = assign_primary_touch_if_missing None s1"
    using True by (simp add: on_touch_up_def Let_def s1_def)
  ultimately show ?thesis using inv
    by (simp add: input_inv_def maps_ok_def gamepads_ok_def pens_ok_def s1_def)
next
  case False
  have "tp_current (touch_set_contact i c False ts t) = False" for t by (simp add: touch_set_contact_def)
  then have "touches_ok (on_touch_up i c ts s)"
    using False inv
    by (auto simp: on_touch_up_def Let_def touches_ok_def input_inv_def primary_ok_def split: option.splits)
  then show ?thesis using False inv
    by (simp add: on_touch_up_def Let_def input_inv_def maps_ok_def gamepads_ok_def pens_ok_def)
qed

lemma gamepad_update_inv:
  assumes inv: "input_inv s" and i: "i \<noteq> 0" and f: "\<And>g. \<exists>g'. f g = Inr g' \<and> gp_connected g'"
  shows "input_inv (snd (update_gamepad i f s))"
proof -
  define g where "g = the (map_of (ensure i initial_gamepad (in_gamepads s)) i)"
  obtain g' where g': "f g = Inr g'" "gp_connected g'" using f by blast
  have "update_gamepad i f s = ok (s\<lparr>in_gamepads := AList.update i g' (ensure i initial_gamepad (in_gamepads s)),
      in_primary_gamepad := i\<rparr>)"
    using g' by (simp add: update_gamepad_def Let_def g_def del: map_of_ensure)
  then show ?thesis using inv i g'(2)
    by (auto simp: input_inv_def maps_ok_def gamepads_ok_def touches_ok_def pens_ok_def primary_ok_def
        distinct_update)
qed

lemma gamepad_added_inv:
  assumes inv: "input_inv s" and i: "i \<noteq> 0"
  shows "input_inv (on_gamepad_connected dev i ts s)"
proof -
  define s1 where "s1 = s\<lparr>in_gamepads := upsert i initial_gamepad (gamepad_connect dev i ts) (in_gamepads s)\<rparr>"
  have "gamepads_ok (assign_primary_if_missing i s1)"
  proof (rule assign_gamepad_ok)
    show "\<forall>j. case map_of (in_gamepads s1) j of None \<Rightarrow> True | Some g \<Rightarrow> gp_connected g"
      using inv by (simp add: input_inv_def gamepads_ok_def s1_def gamepad_connect_def)
  qed (use inv i in \<open>simp_all add: input_inv_def maps_ok_def gamepads_ok_def s1_def\<close>)
  then show ?thesis using inv
    by (simp add: on_gamepad_connected_def s1_def input_inv_def maps_ok_def touches_ok_def pens_ok_def)
qed

lemma gamepad_removed_inv:
  assumes inv: "input_inv s" and i: "i \<noteq> 0"
  shows "input_inv (on_gamepad_disconnected i ts s)"
proof -
  define s1 where "s1 = s\<lparr>in_gamepads := AList.delete i (in_gamepads s)\<rparr>"
  have m: "distinct (map fst (in_gamepads s1))" "map_of (in_gamepads s1) 0 = None"
    "\<forall>j. case map_of (in_gamepads s1) j of None \<Rightarrow> True | Some g \<Rightarrow> gp_connected g"
    using inv by (auto simp: input_inv_def maps_ok_def gamepads_ok_def s1_def distinct_delete)
  show ?thesis
  proof (cases "in_primary_gamepad s = i")
    case True
    have "gamepads_ok (assign_primary_if_missing 0 (s1\<lparr>in_primary_gamepad := 0\<rparr>))"
      by (rule assign_gamepad_ok) (use m in simp_all)
    then show ?thesis using True inv m
      by (simp add: on_gamepad_disconnected_def Let_def s1_def input_inv_def maps_ok_def touches_ok_def pens_ok_def)
  next
    case False
    have "gamepads_ok s1" using inv m False
      by (auto simp: input_inv_def gamepads_ok_def s1_def primary_ok_def id_option_def split: option.splits if_splits)
    then show ?thesis using False inv m
      by (simp add: on_gamepad_disconnected_def Let_def s1_def input_inv_def maps_ok_def touches_ok_def pens_ok_def)
  qed
qed

lemma initial_input_inv: "input_inv initial_input"
  by (simp add: initial_input_def input_inv_def maps_ok_def gamepads_ok_def touches_ok_def pens_ok_def primary_ok_def)

lemma handle_inv:
  assumes "input_inv s" and "valid_event e"
  shows "input_inv (handle fsub e s)"
  using assms
proof (cases e)
  case (Gamepad_button button pressed i ts)
  then show ?thesis using assms
    by (simp add: on_gamepad_button_def)
      (rule gamepad_update_inv, auto simp: gamepad_set_button_def gamepad_button_index_def)
next
  case (Gamepad_axis a v i ts)
  then show ?thesis using assms
    by (simp add: on_gamepad_axis_def)
      (rule gamepad_update_inv, auto simp: gamepad_set_axis_def gamepad_axis_index_def)
qed (simp_all add: begin_frame_inv gamepad_added_inv gamepad_removed_inv touch_upsert_inv on_touch_down_def
    on_touch_motion_def touch_up_inv pen_out_inv pen_handler_primary on_pen_proximity_in_def on_pen_motion_def
    on_pen_down_def on_pen_up_def on_pen_button_def on_pen_axis_def)

lemma handle_all_inv:
  "list_all valid_event es \<Longrightarrow> input_inv s \<Longrightarrow> input_inv (handle_all fsub es s)"
  unfolding handle_all_def by (induction es arbitrary: s) (auto intro: handle_inv)

end
