(* ===== verification/Input_Properties.thy ===== *)
theory Input_Properties
  imports Input_Safety
begin

text \<open>
  What the states of touch contacts, pens and keys mean across a frame, the history of a pen, and the
  properties of the input state.
\<close>

section \<open>Across a frame\<close>

text \<open>What the events of a frame say about a contact: whether it is down after them.\<close>

fun touch_after :: "touch_id \<Rightarrow> input_event \<Rightarrow> bool \<Rightarrow> bool" where
  "touch_after i (Touch_down j c ts) b = (if j = i then True else b)"
| "touch_after i (Touch_motion j c ts) b = (if j = i then True else b)"
| "touch_after i (Touch_up j c ts) b = (if j = i then False else b)"
| "touch_after i e b = b"

text \<open>Whether a pen is in range and whether its tip is down after an event.\<close>

fun pen_after :: "u32 \<Rightarrow> input_event \<Rightarrow> bool \<times> bool \<Rightarrow> bool \<times> bool" where
  "pen_after i (Pen_in j ts) b = (if j = i then (True, False) else b)"
| "pen_after i (Pen_out j ts) b = (if j = i then (False, False) else b)"
| "pen_after i (Pen_moved j x y flags ts) b = (if j = i then (True, flags AND 1 \<noteq> 0) else b)"
| "pen_after i (Pen_touched j x y eraser flags ts) b = (if j = i then (True, True) else b)"
| "pen_after i (Pen_lifted j x y eraser flags ts) b = (if j = i then (True, False) else b)"
| "pen_after i (Pen_button_event j x y button down flags ts) b = (if j = i then (True, flags AND 1 \<noteq> 0) else b)"
| "pen_after i (Pen_axis_event j x y ax v flags ts) b = (if j = i then (True, flags AND 1 \<noteq> 0) else b)"
| "pen_after i e b = b"

definition touch_status :: "touch_id \<Rightarrow> input_state \<Rightarrow> key_status" where
  "touch_status i s = (case touch_by_id i s of None \<Rightarrow> Key_none | Some t \<Rightarrow> touch_state t)"

definition pen_flags :: "u32 \<Rightarrow> input_state \<Rightarrow> bool \<times> bool" where
  "pen_flags i s = (case pen_by_id i s of None \<Rightarrow> (False, False)
     | Some p \<Rightarrow> (pn_current_in_range p, pn_current_down p))"

definition pen_status :: "u32 \<Rightarrow> input_state \<Rightarrow> key_status \<times> key_status" where
  "pen_status i s = (case pen_by_id i s of None \<Rightarrow> (Key_none, Key_none)
     | Some p \<Rightarrow> (pen_proximity_state p, pen_tip_state p))"

text \<open>Handlers leave what a device was at the start of the frame alone; a new one counts as not down.\<close>

definition touch_was :: "touch_id \<Rightarrow> input_state \<Rightarrow> bool" where
  "touch_was i s = (case map_of (in_touches s) i of None \<Rightarrow> False | Some t \<Rightarrow> tp_previous t)"

definition pen_was :: "u32 \<Rightarrow> input_state \<Rightarrow> bool \<times> bool" where
  "pen_was i s = (case map_of (in_pens s) i of None \<Rightarrow> (False, False)
     | Some p \<Rightarrow> (pn_previous_in_range p, pn_previous_down p))"

lemma gamepad_handlers_frame [simp]:
  "in_touches (on_gamepad_connected dev i ts s) = in_touches s"
  "in_pens (on_gamepad_connected dev i ts s) = in_pens s"
  "in_touches (on_gamepad_disconnected i ts s) = in_touches s"
  "in_pens (on_gamepad_disconnected i ts s) = in_pens s"
  "in_touches (snd (update_gamepad i f s)) = in_touches s"
  "in_pens (snd (update_gamepad i f s)) = in_pens s"
  by (simp_all add: on_gamepad_connected_def on_gamepad_disconnected_def update_gamepad_def Let_def split: sum.splits)

lemma handle_touch:
  assumes "e \<noteq> Frame"
  shows "touch_down_at i (handle fsub e s) = touch_after i e (touch_down_at i s)"
    and "touch_was i (handle fsub e s) = touch_was i s"
  using assms
  by (cases e; auto simp: touch_down_at_def touch_was_def on_touch_down_def on_touch_motion_def on_touch_up_def
      Let_def touch_set_contact_def initial_touch_def on_pen_proximity_in_def on_pen_proximity_out_def
      on_pen_motion_def on_pen_down_def on_pen_up_def on_pen_button_def on_pen_axis_def on_gamepad_button_def
      on_gamepad_axis_def split: option.splits)+

lemma pen_views_cong:
  "in_pens s = in_pens s' \<Longrightarrow> pen_flags i s = pen_flags i s' \<and> pen_was i s = pen_was i s'"
  by (simp add: pen_flags_def pen_by_id_def pen_was_def)

lemma pen_handler_views:
  assumes "\<And>p. pn_current_in_range (ch p) = r" and "\<And>p. pn_current_down (ch p) = d"
    and "\<And>p. pn_previous_in_range (ch p) = pn_previous_in_range p"
    and "\<And>p. pn_previous_down (ch p) = pn_previous_down p"
  shows "pen_flags i (pen_handler j ch rec s) = (if j = i then (r, d) else pen_flags i s)"
    and "pen_was i (pen_handler j ch rec s) = pen_was i s"
  by (auto simp: assms pen_flags_def pen_by_id_def pen_was_def pen_handler_def Let_def initial_pen_def
      split: option.splits)

lemma pen_views_primary [simp]:
  "pen_flags i (s\<lparr>in_primary_pen := k\<rparr>) = pen_flags i s" "pen_was i (s\<lparr>in_primary_pen := k\<rparr>) = pen_was i s"
  "pen_flags i (assign_primary_pen_if_missing k s) = pen_flags i s"
  "pen_was i (assign_primary_pen_if_missing k s) = pen_was i s"
  by (simp_all add: pen_flags_def pen_by_id_def pen_was_def)

lemma handle_pen:
  assumes "e \<noteq> Frame"
  shows "pen_flags i (handle fsub e s) = pen_after i e (pen_flags i s) \<and> pen_was i (handle fsub e s) = pen_was i s"
proof (cases e)
  case (Pen_in j ts)
  then show ?thesis
    using pen_handler_views [of "pen_set_proximity True ts" True False] by (simp add: on_pen_proximity_in_def)
next
  case (Pen_out j ts)
  then show ?thesis
    using pen_handler_views [of "pen_set_proximity False ts" False False]
    by (simp add: on_pen_proximity_out_def Let_def)
next
  case (Pen_moved j x y flags ts)
  then show ?thesis
    using pen_handler_views [of "pen_set_motion fsub x y flags ts" True "flags AND pen_input_down \<noteq> 0"]
    by (simp add: on_pen_motion_def pen_input_down_def)
next
  case (Pen_touched j x y eraser flags ts)
  then show ?thesis
    using pen_handler_views [of "pen_set_touch fsub x y eraser True flags ts" True True]
    by (simp add: on_pen_down_def)
next
  case (Pen_lifted j x y eraser flags ts)
  then show ?thesis
    using pen_handler_views [of "pen_set_touch fsub x y eraser False flags ts" True False]
    by (simp add: on_pen_up_def)
next
  case (Pen_button_event j x y button down flags ts)
  then show ?thesis
    using pen_handler_views [of "pen_set_button fsub x y button down flags ts" True "flags AND pen_input_down \<noteq> 0"]
    by (simp add: on_pen_button_def pen_input_down_def)
next
  case (Pen_axis_event j x y ax v flags ts)
  then show ?thesis
    using pen_handler_views [of "pen_set_axis fsub x y ax v flags ts" True "flags AND pen_input_down \<noteq> 0"]
    by (simp add: on_pen_axis_def pen_input_down_def)
qed (use assms in \<open>simp_all add: pen_flags_def pen_by_id_def pen_was_def on_touch_down_def on_touch_motion_def
    on_touch_up_def Let_def on_gamepad_button_def on_gamepad_axis_def\<close>)

lemma handle_all_touch:
  "Frame \<notin> set es \<Longrightarrow> touch_down_at i (handle_all fsub es s) = fold (touch_after i) es (touch_down_at i s) \<and>
    touch_was i (handle_all fsub es s) = touch_was i s"
  unfolding handle_all_def
proof (induction es arbitrary: s)
  case (Cons e es)
  then have "e \<noteq> Frame" "Frame \<notin> set es" by auto
  with Cons.IH [of "handle fsub e s"] show ?case by (simp add: handle_touch)
qed simp

lemma handle_all_pen:
  "Frame \<notin> set es \<Longrightarrow> pen_flags i (handle_all fsub es s) = fold (pen_after i) es (pen_flags i s) \<and>
    pen_was i (handle_all fsub es s) = pen_was i s"
  unfolding handle_all_def
proof (induction es arbitrary: s)
  case (Cons e es)
  then have "e \<noteq> Frame" "Frame \<notin> set es" by auto
  with Cons.IH [of "handle fsub e s"] show ?case by (simp add: handle_pen)
qed simp

lemma begin_frame_touch:
  assumes "maps_ok s"
  shows "touch_down_at i (begin_frame s) = touch_down_at i s" and "touch_was i (begin_frame s) = touch_down_at i s"
  by (auto simp: touch_down_at_def touch_was_def touches_frame [OF assms] touch_begin_frame_def split: option.splits)

lemma begin_frame_pen:
  assumes "maps_ok s"
  shows "pen_flags i (begin_frame s) = pen_flags i s" and "pen_was i (begin_frame s) = pen_flags i s"
  by (auto simp: pen_flags_def pen_by_id_def pen_was_def pens_frame [OF assms] pen_begin_frame_def pen_gone_def
      split: option.splits)

lemma touch_status_was: "touch_status i s = key_status_for_transition (touch_down_at i s) (touch_was i s)"
  by (simp add: touch_status_def touch_by_id_def touch_down_at_def touch_was_def touch_state_def
      key_status_for_transition_def split: option.splits)

lemma pen_status_was:
  "pen_status i s = (key_status_for_transition (fst (pen_flags i s)) (fst (pen_was i s)),
     key_status_for_transition (snd (pen_flags i s)) (snd (pen_was i s)))"
  by (simp add: pen_status_def pen_by_id_def pen_flags_def pen_was_def pen_proximity_state_def pen_tip_state_def
      key_status_for_transition_def split: option.splits)

section \<open>The history of a pen\<close>

definition last_n :: "nat \<Rightarrow> 'a list \<Rightarrow> 'a list" where
  "last_n n xs = drop (length xs - n) xs"

lemma last_n_append: "last_n n (last_n n xs @ ys) = last_n n (xs @ ys)"
  by (cases "length xs \<le> n") (auto simp: last_n_def add.commute)

lemma last_n_length: "length (last_n n xs) = min n (length xs)"
  by (simp add: last_n_def)

fun pen_log :: "u32 \<Rightarrow> input_event \<Rightarrow> (pen_event_type \<times> u64) list" where
  "pen_log i (Pen_in j ts) = (if j = i then [(Proximity_in, ts)] else [])"
| "pen_log i (Pen_out j ts) = (if j = i then [(Proximity_out, ts)] else [])"
| "pen_log i (Pen_moved j x y flags ts) = (if j = i then [(Pen_motion, ts)] else [])"
| "pen_log i (Pen_touched j x y eraser flags ts) = (if j = i then [(Pen_down, ts)] else [])"
| "pen_log i (Pen_lifted j x y eraser flags ts) = (if j = i then [(Pen_up, ts)] else [])"
| "pen_log i (Pen_button_event j x y button down flags ts) =
    (if j = i then [(if down then Button_down else Button_up, ts)] else [])"
| "pen_log i (Pen_axis_event j x y ax v flags ts) = (if j = i then [(Pen_axis, ts)] else [])"
| "pen_log i e = []"

definition pen_recorded :: "u32 \<Rightarrow> input_state \<Rightarrow> (pen_event_type \<times> u64) list" where
  "pen_recorded i s = (case pen_by_id i s of None \<Rightarrow> []
     | Some p \<Rightarrow> map (\<lambda>e. (pe_type e, pe_timestamp e)) (pn_recent p))"

lemma push_event_recent:
  assumes "length (pn_recent p) \<le> pen_history_limit"
  shows "pn_recent (pen_push_event e p) = last_n pen_history_limit (pn_recent p @ [e])"
proof (cases "length (pn_recent p) < pen_history_limit")
  case True
  then show ?thesis by (simp add: pen_push_event_def Let_def last_n_def)
next
  case False
  then have len: "length (pn_recent p) = pen_history_limit" using assms by simp
  then have "pn_recent p \<noteq> []" "1 \<le> pen_history_limit" by (auto simp: pen_history_limit_def)
  then show ?thesis using len by (simp add: pen_push_event_def Let_def last_n_def drop_Suc)
qed

lemma pen_recorded_cong: "in_pens s = in_pens s' \<Longrightarrow> pen_recorded i s = pen_recorded i s'"
  by (simp add: pen_recorded_def pen_by_id_def)

lemma pen_recorded_primary [simp]:
  "pen_recorded i (s\<lparr>in_primary_pen := k\<rparr>) = pen_recorded i s"
  "pen_recorded i (assign_primary_pen_if_missing k s) = pen_recorded i s"
  by (auto intro: pen_recorded_cong)

lemma last_n_map: "map f (last_n n xs) = last_n n (map f xs)"
  by (simp add: last_n_def drop_map)

lemma pen_handler_recorded:
  assumes "\<And>p. pn_recent (ch p) = pn_recent p" and "\<And>p. (pe_type (rec p), pe_timestamp (rec p)) = x"
    and "length (pen_recorded i s) \<le> pen_history_limit"
  shows "pen_recorded i (pen_handler j ch rec s) =
    (if j = i then last_n pen_history_limit (pen_recorded i s @ [x]) else pen_recorded i s)"
proof (cases "j = i")
  case True
  define p where "p = (case map_of (in_pens s) i of None \<Rightarrow> initial_pen | Some p \<Rightarrow> p)"
  have old: "pen_recorded i s = map (\<lambda>e. (pe_type e, pe_timestamp e)) (pn_recent p)"
    by (simp add: pen_recorded_def pen_by_id_def p_def initial_pen_def split: option.splits)
  define q where "q = ch (p\<lparr>pn_id := i\<rparr>)"
  have q: "pn_recent q = pn_recent p" by (simp add: q_def assms(1))
  have "map_of (in_pens (pen_handler j ch rec s)) i = Some (pen_push_event (rec q) q)"
    using True by (simp add: pen_handler_def Let_def p_def q_def)
  moreover have "length (pn_recent q) \<le> pen_history_limit" using assms(3) by (simp add: old q)
  ultimately show ?thesis using True assms(2)
    by (simp add: pen_recorded_def pen_by_id_def old [unfolded pen_recorded_def pen_by_id_def]
        push_event_recent q last_n_map)
next
  case False
  then show ?thesis by (simp add: pen_recorded_def pen_by_id_def pen_handler_def)
qed

lemma last_n_short: "length xs \<le> n \<Longrightarrow> last_n n xs = xs"
  by (simp add: last_n_def)

lemma pen_record_tag: "(pe_type (pen_record ty i ts b bd ax v p), pe_timestamp (pen_record ty i ts b bd ax v p)) = (ty, ts)"
  by (simp add: pen_record_def)

lemma handle_recorded:
  assumes "e \<noteq> Frame" and len: "length (pen_recorded i s) \<le> pen_history_limit"
  shows "pen_recorded i (handle fsub e s) = last_n pen_history_limit (pen_recorded i s @ pen_log i e)"
proof -
  note rec = pen_handler_recorded [OF _ pen_record_tag len]
  show ?thesis
  proof (cases e)
    case (Pen_in j ts)
    then show ?thesis using len by (simp add: on_pen_proximity_in_def rec last_n_short)
  next
    case (Pen_out j ts)
    then show ?thesis using len by (simp add: on_pen_proximity_out_def Let_def rec last_n_short)
  next
    case (Pen_moved j x y flags ts)
    then show ?thesis using len by (simp add: on_pen_motion_def rec last_n_short)
  next
    case (Pen_touched j x y eraser flags ts)
    then show ?thesis using len by (simp add: on_pen_down_def rec last_n_short)
  next
    case (Pen_lifted j x y eraser flags ts)
    then show ?thesis using len by (simp add: on_pen_up_def rec last_n_short)
  next
    case (Pen_button_event j x y button down flags ts)
    then show ?thesis using len by (simp add: on_pen_button_def rec last_n_short)
  next
    case (Pen_axis_event j x y ax v flags ts)
    then show ?thesis using len by (simp add: on_pen_axis_def rec last_n_short)
  qed (use assms in \<open>simp_all add: pen_recorded_def pen_by_id_def on_touch_down_def on_touch_motion_def
      on_touch_up_def Let_def on_gamepad_button_def on_gamepad_axis_def last_n_short\<close>)
qed

lemma handle_all_recorded:
  "Frame \<notin> set es \<Longrightarrow> length (pen_recorded i s) \<le> pen_history_limit \<Longrightarrow>
    pen_recorded i (handle_all fsub es s) =
      last_n pen_history_limit (pen_recorded i s @ concat (map (pen_log i) es))"
  unfolding handle_all_def
proof (induction es arbitrary: s)
  case (Cons e es)
  then have e: "e \<noteq> Frame" "Frame \<notin> set es" by auto
  note step = handle_recorded [OF e(1) Cons.prems(2)]
  then have "length (pen_recorded i (handle fsub e s)) \<le> pen_history_limit"
    by (simp add: last_n_length)
  from Cons.IH [OF e(2) this] show ?case by (simp add: step last_n_append)
qed (simp add: last_n_short)

lemma begin_frame_recorded:
  assumes "maps_ok s"
  shows "pen_recorded i (begin_frame s) =
    (if (case pen_by_id i s of None \<Rightarrow> True | Some p \<Rightarrow> pen_gone p) then [] else pen_recorded i s)"
  by (auto simp: pen_recorded_def pen_by_id_def pens_frame [OF assms] pen_begin_frame_def split: option.splits)

lemma recorded_bound:
  assumes "list_all valid_event es" and "input_inv s" and "length (pen_recorded i s) \<le> pen_history_limit"
  shows "length (pen_recorded i (handle_all fsub es s)) \<le> pen_history_limit"
  using assms
  unfolding handle_all_def
proof (induction es arbitrary: s)
  case (Cons e es)
  have inv: "input_inv (handle fsub e s)" using Cons.prems by (auto intro: handle_inv)
  have "length (pen_recorded i (handle fsub e s)) \<le> pen_history_limit"
  proof (cases "e = Frame")
    case True
    then show ?thesis using Cons.prems by (simp add: begin_frame_recorded input_inv_def)
  next
    case False
    then show ?thesis using handle_recorded [OF False Cons.prems(3)] by (simp add: last_n_length)
  qed
  with Cons inv show ?case by simp
qed simp

section \<open>Properties\<close>

lemma primary_ok_ids:
  assumes "primary_ok P m primary" and "distinct (map fst m)"
  shows "map fst (filter (\<lambda>(i, v). P v) m) = [] \<longleftrightarrow> primary = None"
proof (cases primary)
  case None
  have "\<not> P v" if "(k, v) \<in> set m" for k v
    using assms None map_of_is_SomeI [OF assms(2) that] by (auto simp: primary_ok_def dest: spec [of _ k])
  then show ?thesis using None by (auto simp: filter_empty_conv)
next
  case (Some k)
  then obtain v where "(k, v) \<in> set m" "P v"
    using assms(1) by (auto simp: primary_ok_def split: option.splits dest: map_of_SomeD)
  then show ?thesis using Some by (auto simp: filter_empty_conv)
qed

text \<open>C15: There is always a sensible primary device. After any sequence of events, a primary touch exists exactly
when some contact is down, and is itself down; a primary pen exists exactly when some pen is in range, and is in
range; a primary gamepad exists exactly when some gamepad is connected, and is connected.\<close>

theorem primary_devices:
  assumes "list_all valid_event es"
  shows "let s = handle_all fsub es initial_input in
    (in_primary_touch s = None \<longleftrightarrow> touch_ids s = []) \<and>
    (case in_primary_touch s of None \<Rightarrow> True | Some i \<Rightarrow> touch_down_at i s) \<and>
    (in_primary_pen s = 0 \<longleftrightarrow> pen_ids s = []) \<and>
    (case primary_pen s of None \<Rightarrow> in_primary_pen s = 0 | Some p \<Rightarrow> pen_is_in_range p) \<and>
    (in_primary_gamepad s = 0 \<longleftrightarrow> gamepad_ids s = []) \<and>
    (case primary_gamepad s of None \<Rightarrow> in_primary_gamepad s = 0 | Some g \<Rightarrow> gp_connected g)"
proof -
  define s where "s = handle_all fsub es initial_input"
  have inv: "input_inv s" unfolding s_def by (rule handle_all_inv [OF assms initial_input_inv])
  have "in_primary_touch s = None \<longleftrightarrow> touch_ids s = []"
    using primary_ok_ids [of tp_current "in_touches s" "in_primary_touch s"] inv by (simp add: input_inv_def touches_ok_def maps_ok_def touch_ids_def)
  moreover have "in_primary_pen s = 0 \<longleftrightarrow> pen_ids s = []"
    using primary_ok_ids [of pn_current_in_range "in_pens s" "id_option (in_primary_pen s)"] inv
    by (simp add: input_inv_def pens_ok_def maps_ok_def pen_ids_def id_option_def split: if_splits)
  moreover have "in_primary_gamepad s = 0 \<longleftrightarrow> gamepad_ids s = []"
    using primary_ok_ids [of gp_connected "in_gamepads s" "id_option (in_primary_gamepad s)"] inv
    by (simp add: input_inv_def gamepads_ok_def maps_ok_def gamepad_ids_def id_option_def split: if_splits)
  ultimately show ?thesis
    using inv unfolding s_def [symmetric] Let_def
    by (auto simp: input_inv_def touches_ok_def pens_ok_def gamepads_ok_def primary_ok_def touch_down_at_def
        primary_pen_def pen_by_id_def pen_is_in_range_def primary_gamepad_def gamepad_by_id_def id_option_def
        split: option.splits if_splits)
qed

definition example_contact :: contact where
  "example_contact = \<lparr>ct_x = 0, ct_y = 0, ct_dx = 0, ct_dy = 0, ct_pressure = 0\<rparr>"

definition example_events :: "input_event list" where
  "example_events = [Touch_down (7, 1) example_contact 10, Touch_down (7, 2) example_contact 11,
     Frame, Touch_up (7, 1) example_contact 12, Pen_in 77 13]"

lemma example_events_valid: "list_all valid_event example_events"
  by (simp add: example_events_def)

lemma example_run:
  "map_of (in_touches (handle_all fsub example_events initial_input)) (7, 2) \<noteq> None"
  "touch_down_at (7, 2) (handle_all fsub example_events initial_input)"
  by (simp_all add: example_events_def handle_all_def initial_input_def on_touch_down_def on_touch_up_def Let_def
      touch_down_at_def touch_set_contact_def begin_frame_maps map_of_map_all assign_primary_touch_if_missing_def
      touch_begin_frame_def upsert_def ensure_def touch_id_valid_def on_pen_proximity_in_def)

theorem primary_devices_witness:
  "in_primary_touch (handle_all (\<lambda>x y. x) example_events initial_input) \<noteq> None"
proof -
  let ?s = "handle_all (\<lambda>x y. x) example_events initial_input"
  have "touch_ids ?s \<noteq> []"
    using example_run(2) [of "\<lambda>x y. x"] map_of_SomeD
    by (fastforce simp: touch_down_at_def touch_ids_def filter_empty_conv split: option.splits)
  then show ?thesis
    using primary_devices [OF example_events_valid, of "\<lambda>x y. x"] by (simp add: Let_def)
qed

text \<open>The status of a device compares the frame so far with its start. Whatever happened before and whatever the
events of the frame are, a contact is just pressed, held or just released exactly as the last event on it says,
against whether it was down when the frame began; the same for the range and the tip of a pen.\<close>

theorem frame_status:
  assumes "list_all valid_event before" and "Frame \<notin> set es"
  shows "let s = handle_all fsub before initial_input; now = handle_all fsub es (begin_frame s) in
    touch_status i now = key_status_for_transition (fold (touch_after i) es (touch_down_at i s)) (touch_down_at i s) \<and>
    pen_status j now =
      (key_status_for_transition (fst (fold (pen_after j) es (pen_flags j s))) (fst (pen_flags j s)),
       key_status_for_transition (snd (fold (pen_after j) es (pen_flags j s))) (snd (pen_flags j s)))"
proof -
  have "maps_ok (handle_all fsub before initial_input)"
    using handle_all_inv [OF assms(1) initial_input_inv] by (simp add: input_inv_def)
  then show ?thesis
    using handle_all_touch [OF assms(2)] handle_all_pen [OF assms(2)]
    by (simp add: Let_def touch_status_was pen_status_was begin_frame_touch begin_frame_pen)
qed

theorem frame_status_witness:
  "touch_status (7, 2) (handle_all (\<lambda>x y. x) [Touch_up (7, 2) example_contact 20]
     (begin_frame (handle_all (\<lambda>x y. x) example_events initial_input))) = Just_released"
  using frame_status [OF example_events_valid, of "[Touch_up (7, 2) example_contact 20]" "\<lambda>x y. x" "(7, 2)" 1]
    example_run(2) [of "\<lambda>x y. x"]
  by (simp add: Let_def key_status_for_transition_def)

text \<open>A contact that comes and goes within one frame is never reported as pressed.\<close>

lemma tap_within_frame:
  assumes "list_all valid_event before" and "\<not> touch_down_at i (handle_all fsub before initial_input)"
  shows "touch_status i (handle_all fsub [Touch_down i c ts, Touch_up i c' ts']
      (begin_frame (handle_all fsub before initial_input))) = Key_none"
proof -
  have "maps_ok (handle_all fsub before initial_input)"
    using handle_all_inv [OF assms(1) initial_input_inv] by (simp add: input_inv_def)
  then show ?thesis
    using handle_all_touch [of "[Touch_down i c ts, Touch_up i c' ts']"] assms(2)
    by (simp add: touch_status_was begin_frame_touch key_status_for_transition_def)
qed

text \<open>C16: A pen remembers its last events. The history never exceeds 128 records, and within a frame it is the last
128 of what it was and one record, of the right kind and time, for each event on that pen, in order.\<close>

theorem pen_history:
  assumes "list_all valid_event before" and "Frame \<notin> set es"
  shows "let s = handle_all fsub before initial_input in
    length (pen_recorded i s) \<le> 128 \<and>
    pen_recorded i (handle_all fsub es s) = last_n 128 (pen_recorded i s @ concat (map (pen_log i) es))"
proof -
  let ?s = "handle_all fsub before initial_input"
  have "pen_recorded i initial_input = []" by (simp add: pen_recorded_def pen_by_id_def initial_input_def)
  then have "length (pen_recorded i ?s) \<le> pen_history_limit"
    by (intro recorded_bound [OF assms(1) initial_input_inv]) simp
  with handle_all_recorded [OF assms(2) this] show ?thesis by (simp add: Let_def pen_history_limit_def)
qed

theorem pen_history_witness:
  "pen_recorded 77 (handle_all (\<lambda>x y. x) [Pen_in 77 5, Pen_out 77 6] (handle_all (\<lambda>x y. x) [] initial_input)) =
    [(Proximity_in, 5), (Proximity_out, 6)]"
proof -
  have "pen_recorded 77 (handle_all (\<lambda>x y. x) [] initial_input) = []"
    by (simp add: pen_recorded_def pen_by_id_def initial_input_def handle_all_def)
  then show ?thesis
    using pen_history [of "[]" "[Pen_in 77 5, Pen_out 77 6]" "\<lambda>x y. x" 77] by (simp add: Let_def last_n_def)
qed

lemma begin_frame_keyboard [simp]: "in_keyboard (begin_frame s) = in_keyboard s"
  by (simp add: begin_frame_def begin_frame_pens_def begin_frame_touches_def Let_def
      assign_primary_pen_if_missing_def assign_primary_touch_if_missing_def split: prod.splits)

text \<open>What a key's status means depends on who pumped the events. With a frame rate it compares the keyboard
after the events of the frame with the keyboard before them. Without one, the events were pumped by the wait before
the previous keyboard was copied: a key whose press ended the wait is never just pressed in that frame.\<close>

theorem keyboard_edges:
  assumes "0 \<le> k" and "k < int scancode_count" and "kb_current (in_keyboard s) = Some old"
    and "length old = scancode_count" and "length live1 = scancode_count"
  shows "key_state k (in_keyboard (timed_frame fadd polled live2 s)) =
      key_status_for_transition (live2 ! nat k) (old ! nat k) \<and>
    key_state k (in_keyboard (waited_frame fadd polled live1 live2 s)) =
      key_status_for_transition (live2 ! nat k) (live1 ! nat k) \<and>
    (live1 ! nat k \<longrightarrow> \<not> key_is_just_pressed k (in_keyboard (waited_frame fadd polled live1 live2 s)))"
proof -
  have "in_keyboard (frame_prologue fadd polled s') = (in_keyboard s')\<lparr>kb_previous := cur\<rparr>"
    if "kb_current (in_keyboard s') = Some cur" "length cur = scancode_count" for s' cur
    using that by (simp add: frame_prologue_def Let_def split: option.splits prod.splits)
  then show ?thesis using assms
    by (simp add: timed_frame_def waited_frame_def pump_keyboard_def key_state_def key_status_for_transition_def
        key_is_just_pressed_def)
qed

definition keys_up :: "bool list" where
  "keys_up = replicate scancode_count False"

theorem keyboard_edges_witness:
  "key_state 4 (in_keyboard (waited_frame (\<lambda>x y. x) None (keys_up[4 := True]) (keys_up[4 := True])
     (pump_keyboard keys_up initial_input))) = Held \<and>
   key_state 4 (in_keyboard (timed_frame (\<lambda>x y. x) None (keys_up[4 := True])
     (pump_keyboard keys_up initial_input))) = Just_pressed"
  using keyboard_edges [of 4 "pump_keyboard keys_up initial_input" keys_up "keys_up[4 := True]" "\<lambda>x y. x" None
      "keys_up[4 := True]"]
  by (simp add: pump_keyboard_def keys_up_def scancode_count_def key_status_for_transition_def)

end
