(* ===== verification/Calendar.thy ===== *)
theory Calendar
  imports Prelude "HOL-Library.Signed_Division"
begin

text \<open>
  The civil calendar that \<open>temporal.cpp\<close> computes with: \<open>year_month_day\<close>, its conversion to and from
  a count of days, the last day of a month and the weekday, from
  \<open>src/external/date/include/date/date.h\<close>. Quotients of signed numbers truncate (\<open>sdiv\<close>, \<open>smod\<close>),
  those of unsigned ones are \<open>div\<close> and \<open>mod\<close>; a year is kept in a \<open>short\<close>, a month and a day in an
  \<open>unsigned char\<close>. No other intermediate value leaves its type. The lemmas show that the two conversions
  are inverse and that they count the days of the Gregorian calendar.
\<close>

section \<open>Dates\<close>

record ymd =
  ymd_year :: int
  ymd_month :: int
  ymd_day :: int

definition calendar_year :: "int \<Rightarrow> int" where
  "calendar_year y = (y + 2 ^ 15) mod 2 ^ 16 - 2 ^ 15"

definition calendar_month :: "int \<Rightarrow> int" where
  "calendar_month m = m mod 2 ^ 8"

definition calendar_day :: "int \<Rightarrow> int" where
  "calendar_day d = d mod 2 ^ 8"

definition min_year :: int where "min_year = - 32767"

definition max_year :: int where "max_year = 32767"

definition is_leap :: "int \<Rightarrow> bool" where
  "is_leap y \<longleftrightarrow> y smod 4 = 0 \<and> (y smod 100 \<noteq> 0 \<or> y smod 400 = 0)"

definition month_ok :: "int \<Rightarrow> bool" where
  "month_ok m \<longleftrightarrow> 1 \<le> m \<and> m \<le> 12"

definition last_day :: "int \<Rightarrow> int \<Rightarrow> int" where
  "last_day y m =
    (if (m \<noteq> 2 \<or> \<not> is_leap y) \<and> month_ok m
     then [31, 28, 31, 30, 31, 30, 31, 31, 30, 31, 30, 31] ! nat (m - 1) else 29)"

definition year_ok :: "int \<Rightarrow> bool" where
  "year_ok y \<longleftrightarrow> y \<noteq> - (2 ^ 15)"

definition ymd_ok :: "ymd \<Rightarrow> bool" where
  "ymd_ok x =
    (if \<not> (year_ok (ymd_year x) \<and> month_ok (ymd_month x)) then False
     else 1 \<le> ymd_day x \<and> ymd_day x \<le> last_day (ymd_year x) (ymd_month x))"

section \<open>Days since 1970-01-01\<close>

definition to_days :: "ymd \<Rightarrow> int" where
  "to_days x =
    (let m = ymd_month x; d = ymd_day x;
         y = ymd_year x - (if m \<le> 2 then 1 else 0);
         era = (if y \<ge> 0 then y else y - 399) sdiv 400;
         yoe = y - era * 400;
         doy = (153 * (if m > 2 then m - 3 else m + 9) + 2) div 5 + d - 1;
         doe = yoe * 365 + yoe div 4 - yoe div 100 + doy
     in era * 146097 + doe - 719468)"

definition from_days :: "int \<Rightarrow> ymd" where
  "from_days dp =
    (let z = dp + 719468;
         era = (if z \<ge> 0 then z else z - 146096) sdiv 146097;
         doe = z - era * 146097;
         yoe = (doe - doe div 1460 + doe div 36524 - doe div 146096) div 365;
         y = yoe + era * 400;
         doy = doe - (365 * yoe + yoe div 4 - yoe div 100);
         mp = (5 * doy + 2) div 153;
         d = doy - (153 * mp + 2) div 5 + 1;
         m = (if mp < 10 then mp + 3 else mp - 9)
     in \<lparr>ymd_year = calendar_year (y + (if m \<le> 2 then 1 else 0)),
         ymd_month = calendar_month m, ymd_day = calendar_day d\<rparr>)"

definition weekday_from_days :: "int \<Rightarrow> int" where
  "weekday_from_days z =
    (let u = z mod 2 ^ 32 in if z \<ge> - 4 then (u + 4) mod 2 ^ 32 mod 7 else u mod 7)"

definition iso_encoding :: "int \<Rightarrow> int" where
  "iso_encoding wd = (if wd = 0 then 7 else wd)"

section \<open>Signed quotients\<close>

lemma sdiv_nonneg: "0 \<le> a \<Longrightarrow> 0 < b \<Longrightarrow> a sdiv b = a div b" for a b :: int
  by (cases "a = 0") (simp_all add: signed_divide_int_def)

lemma sdiv_neg: "a < 0 \<Longrightarrow> 0 < b \<Longrightarrow> a sdiv b = - (- a div b)" for a b :: int
  by (simp add: signed_divide_int_def)

lemma smod_zero_iff: "a smod b = 0 \<longleftrightarrow> b dvd a" for a b :: int
proof -
  have "b dvd a \<longleftrightarrow> \<bar>a\<bar> mod \<bar>b\<bar> = 0" by (simp add: mod_eq_0_iff_dvd)
  then show ?thesis by (simp add: smod_int_alt_def sgn_if)
qed

text \<open>Rounding towards minus infinity by shifting a negative dividend.\<close>

lemma sdiv_shifted:
  fixes a b c :: int
  assumes b: "0 < b" and c: "c = b - 1"
  shows "(if a \<ge> 0 then a else a - c) sdiv b = a div b"
proof (cases "0 \<le> a")
  case False
  have "- (a - (b - 1)) = (b - 1 - a mod b) + b * (- (a div b))"
    using div_mult_mod_eq [of a b] by (simp add: algebra_simps)
  moreover have "(b - 1 - a mod b) div b = 0"
    using b pos_mod_bound [OF b, of a] pos_mod_sign [OF b, of a] by (intro div_pos_pos_trivial) auto
  ultimately have "- (a - (b - 1)) div b = - (a div b)"
    using b by (metis add_0 add.commute div_mult_self2 less_numeral_extra(3))
  with b c False show ?thesis by (simp add: sdiv_neg)
qed (use b in \<open>simp add: sdiv_nonneg\<close>)

lemma is_leap_dvd: "is_leap y \<longleftrightarrow> 4 dvd y \<and> (\<not> 100 dvd y \<or> 400 dvd y)"
  by (simp add: is_leap_def smod_zero_iff)

section \<open>Years that begin in March\<close>

text \<open>
  The conversions count years from March, so that the leap day is the last of its year. Within an era
  of 400 such years, year \<open>y\<close> begins at day \<open>march y\<close> and has \<open>year_length y\<close> days.
\<close>

definition march :: "int \<Rightarrow> int" where
  "march y = 365 * y + y div 4 - y div 100"

definition leap_end :: "int \<Rightarrow> bool" where
  "leap_end y \<longleftrightarrow> 4 dvd y + 1 \<and> (\<not> 100 dvd y + 1 \<or> 400 dvd y + 1)"

definition year_length :: "int \<Rightarrow> int" where
  "year_length y = (if leap_end y then 366 else 365)"

definition year_of_era :: "int \<Rightarrow> int" where
  "year_of_era doe = (doe - doe div 1460 + doe div 36524 - doe div 146096) div 365"

lemma div_succ: "0 < n \<Longrightarrow> (y + 1) div n = y div n + (if n dvd y + 1 then 1 else 0)" for y n :: int
proof -
  assume n: "0 < n"
  have y: "y = n * (y div n) + y mod n" and r: "0 \<le> y mod n" "y mod n < n" using n by simp_all
  show ?thesis
  proof (cases "y mod n = n - 1")
    case True
    have e: "y + 1 = n * (y div n + 1)" unfolding distrib_left using y True by linarith
    then have "n dvd y + 1" by simp
    moreover have "(y + 1) div n = y div n + 1" using n e by (metis less_numeral_extra(3) nonzero_mult_div_cancel_left)
    ultimately show ?thesis by simp
  next
    case False
    have e: "y + 1 = n * (y div n) + (y mod n + 1)" using y by linarith
    have "(y + 1) div n = y div n" "(y + 1) mod n = y mod n + 1"
      by (rule int_div_pos_eq [OF e] int_mod_pos_eq [OF e]; use False r in linarith)+
    moreover from this r have "\<not> n dvd y + 1" by (simp add: dvd_eq_mod_eq_0)
    ultimately show ?thesis by simp
  qed
qed

lemma leap_year_step:
  "(y + 1) div 4 - (y + 1) div 100 + (y + 1) div 400 = y div 4 - y div 100 + y div 400 + (if leap_end y then 1 else 0)"
  for y :: int
proof -
  define a b c where "a \<longleftrightarrow> 4 dvd y + 1" and "b \<longleftrightarrow> 100 dvd y + 1" and "c \<longleftrightarrow> 400 dvd y + 1"
  have "b \<Longrightarrow> a" "c \<Longrightarrow> b"
    unfolding a_def b_def c_def by (rule dvd_trans [rotated], assumption, simp)+
  moreover have "(y + 1) div 4 = y div 4 + (if a then 1 else 0)" "(y + 1) div 100 = y div 100 + (if b then 1 else 0)"
      "(y + 1) div 400 = y div 400 + (if c then 1 else 0)"
    unfolding a_def b_def c_def by (rule div_succ, simp)+
  moreover have "leap_end y \<longleftrightarrow> a \<and> (\<not> b \<or> c)" by (simp add: leap_end_def a_def b_def c_def)
  ultimately show ?thesis by (cases a; cases b; cases c) simp_all
qed

lemma march_step:
  assumes "0 \<le> y" "y < 399" shows "march (y + 1) = march y + year_length y"
proof -
  have "y div 400 = 0" "(y + 1) div 400 = 0" using assms by simp_all
  then have "(y + 1) div 4 - (y + 1) div 100 = y div 4 - y div 100 + (if leap_end y then 1 else 0)"
    using leap_year_step [of y] by (simp only: add_0_right)
  then have "march (y + 1) = 365 * y + 365 + (y div 4 - y div 100 + (if leap_end y then 1 else 0))"
    unfolding march_def by (simp only: distrib_left mult_1_right add_diff_eq [symmetric])
  also have "\<dots> = march y + year_length y" by (simp add: march_def year_length_def)
  finally show ?thesis .
qed

lemma dvd_scale: "k \<noteq> 0 \<Longrightarrow> z = k * w \<Longrightarrow> m = k * n \<Longrightarrow> m dvd z \<longleftrightarrow> n dvd w" for k z w m n :: int
  by simp

lemma leap_end_div:
  assumes "y = 4 * (25 * c + s) + r" "0 \<le> c" "c \<le> 3" "0 \<le> s" "s \<le> 24" "0 \<le> r" "r \<le> 3"
  shows "leap_end y \<longleftrightarrow> r = 3 \<and> (s = 24 \<longrightarrow> c = 3)"
proof -
  have "4 dvd y + 1 \<longleftrightarrow> r = 3" unfolding assms(1) using assms(6,7) by presburger
  moreover have "100 dvd y + 1 \<longleftrightarrow> s = 24" if "r = 3"
  proof -
    have "y + 1 = 4 * (25 * c + (s + 1))" using that assms(1) by simp
    then have "100 dvd y + 1 \<longleftrightarrow> 25 dvd 25 * c + (s + 1)"
      by (rule dvd_scale [rotated]) simp_all
    also have "\<dots> \<longleftrightarrow> s = 24" using assms(4,5) by presburger
    finally show ?thesis .
  qed
  moreover have "400 dvd y + 1 \<longleftrightarrow> c = 3" if "r = 3" "s = 24"
  proof -
    have "y + 1 = 100 * (c + 1)" using that assms(1) by simp
    then have "400 dvd y + 1 \<longleftrightarrow> 4 dvd c + 1"
      by (rule dvd_scale [rotated]) simp_all
    also have "\<dots> \<longleftrightarrow> c = 3" using assms(2,3) by presburger
    finally show ?thesis .
  qed
  ultimately show ?thesis unfolding leap_end_def by blast
qed

lemma year_of_era_eq:
  assumes "0 \<le> y" "y \<le> 399" "march y \<le> d" "d < march y + year_length y"
  shows "year_of_era d = y"
proof -
  define q r c s e where "q = y div 4" and "r = y mod 4" and "c = q div 25" and "s = q mod 25" and "e = d - march y"
  have b: "0 \<le> r" "r \<le> 3" "0 \<le> s" "s \<le> 24" "0 \<le> q" "0 \<le> c" "c \<le> 3" and q: "q = 25 * c + s" and y: "y = 4 * q + r"
    using assms(1,2) by (simp_all add: q_def r_def c_def s_def)
  have "y div 100 = c" using zdiv_zmult2_eq [of 25 y 4] by (simp add: c_def q_def)
  then have "march y = 365 * y + q - c" by (simp add: march_def q_def)
  then have d: "d = 36524 * c + (1461 * s + 365 * r + e)"
    using q y e_def by linarith
  have leap: "leap_end y \<longleftrightarrow> r = 3 \<and> (s = 24 \<longrightarrow> c = 3)"
    using leap_end_div y q b by blast
  have e: "0 \<le> e" "e \<le> 365" "e = 365 \<longrightarrow> leap_end y"
    using assms(3,4) by (auto simp: e_def year_length_def split: if_splits)
  have q': "(d div 36524 - d div 146096) = c"
  proof (cases "1461 * s + 365 * r + e < 36524")
    case True
    with b e have "d div 36524 = c" unfolding d by (intro int_div_pos_eq) auto
    moreover have "d div 146096 = 0" using b e True unfolding d by (intro div_pos_pos_trivial) auto
    ultimately show ?thesis by simp
  next
    case False
    then have "s = 24" "r = 3" "e = 365" using b e by auto
    with leap e have "c = 3" by simp
    with \<open>s = 24\<close> \<open>r = 3\<close> \<open>e = 365\<close> show ?thesis by (simp add: d)
  qed
  have d': "d = 1460 * q + (365 * r + q - c + e)" using d q by simp
  define k where "k = (365 * r + q - c + e) div 1460"
  have "d div 1460 = q + k" unfolding d' k_def by simp
  moreover have "k = (if 365 * r + q - c + e < 1460 then 0 else 1)"
    unfolding k_def using b e q by (auto intro: int_div_pos_eq div_pos_pos_trivial)
  ultimately have "0 \<le> d - d div 1460 + c - 365 * y" "d - d div 1460 + c - 365 * y < 365"
    using d' y q b e leap by (auto split: if_splits)
  then show ?thesis
    unfolding year_of_era_def using q' by (intro int_div_pos_eq [of _ _ _ "d - d div 1460 + c - 365 * y"]) linarith+
qed

lemma march_covers:
  "0 \<le> n \<Longrightarrow> n \<le> 399 \<Longrightarrow> 0 \<le> d \<Longrightarrow> d < march n + year_length n \<Longrightarrow> \<exists>y. 0 \<le> y \<and> y \<le> n \<and> march y \<le> d \<and> d < march y + year_length y"
proof (induction n rule: int_ge_induct)
  case base
  then show ?case by (intro exI [of _ 0]) (simp add: march_def)
next
  case (step n)
  show ?case
  proof (cases "march (n + 1) \<le> d")
    case True
    with step show ?thesis by (intro exI [of _ "n + 1"]) simp
  next
    case False
    with step.hyps step.prems march_step [of n] have "\<exists>y. 0 \<le> y \<and> y \<le> n \<and> march y \<le> d \<and> d < march y + year_length y"
      by (intro step.IH) simp_all
    then show ?thesis by force
  qed
qed

lemma year_of_era:
  assumes "0 \<le> d" "d < 146097"
  shows "0 \<le> year_of_era d \<and> year_of_era d \<le> 399 \<and> march (year_of_era d) \<le> d \<and> d < march (year_of_era d) + year_length (year_of_era d)"
proof -
  have "march 399 + year_length 399 = 146097" by (simp add: march_def year_length_def leap_end_def)
  with march_covers [of 399 d] assms obtain y where "0 \<le> y" "y \<le> 399" "march y \<le> d" "d < march y + year_length y" by auto
  with year_of_era_eq [of y d] show ?thesis by simp
qed

section \<open>Months\<close>

definition month_start :: "int \<Rightarrow> int" where
  "month_start mp = (153 * mp + 2) div 5"

definition march_month :: "int \<Rightarrow> int" where
  "march_month m = (if m > 2 then m - 3 else m + 9)"

definition civil_month :: "int \<Rightarrow> int" where
  "civil_month mp = (if mp < 10 then mp + 3 else mp - 9)"

definition march_year :: "ymd \<Rightarrow> int" where
  "march_year x = ymd_year x - (if ymd_month x \<le> 2 then 1 else 0)"

definition march_doy :: "ymd \<Rightarrow> int" where
  "march_doy x = month_start (march_month (ymd_month x)) + ymd_day x - 1"

lemma month_cases: "month_ok m \<Longrightarrow> m \<in> {1, 2, 3, 4, 5, 6, 7, 8, 9, 10, 11, 12}"
  unfolding month_ok_def insert_iff empty_iff by presburger

lemma month_start_bounds: "5 * month_start mp \<le> 153 * mp + 2" "153 * mp + 2 \<le> 5 * month_start mp + 4"
proof -
  have "a \<le> 5 * (a div 5) + 4 \<and> 5 * (a div 5) \<le> a" for a :: int by presburger
  from this [of "153 * mp + 2"] show "5 * month_start mp \<le> 153 * mp + 2" "153 * mp + 2 \<le> 5 * month_start mp + 4"
    unfolding month_start_def by blast+
qed

lemma month_start_next: "5 * month_start (mp + 1) \<le> 153 * mp + 155" "153 * mp + 151 \<le> 5 * month_start (mp + 1)"
  using month_start_bounds [of "mp + 1"] by (simp_all add: distrib_left)

lemma month_split:
  assumes "0 \<le> doy" "doy \<le> 365"
  shows "0 \<le> (5 * doy + 2) div 153 \<and> (5 * doy + 2) div 153 \<le> 11
    \<and> month_start ((5 * doy + 2) div 153) \<le> doy \<and> doy < month_start ((5 * doy + 2) div 153 + 1)"
proof -
  define mp where "mp = (5 * doy + 2) div 153"
  have b: "153 * mp \<le> 5 * doy + 2" "5 * doy + 2 < 153 * mp + 153"
    unfolding mp_def by presburger+
  have "0 \<le> mp" "mp \<le> 11" using assms b by linarith+
  moreover have "month_start mp \<le> doy" "doy < month_start (mp + 1)"
    using b month_start_bounds [of mp] month_start_next [of mp] by - linarith+
  ultimately show ?thesis unfolding mp_def by blast
qed

lemma month_unique:
  assumes "month_start mp \<le> doy" "doy < month_start (mp + 1)"
  shows "(5 * doy + 2) div 153 = mp"
proof -
  have "153 * mp \<le> 5 * doy + 2" "5 * doy + 2 < 153 * mp + 153"
    using assms month_start_bounds [of mp] month_start_next [of mp] by - linarith+
  then show ?thesis by (intro int_div_pos_eq [of _ _ _ "5 * doy + 2 - 153 * mp"]) linarith+
qed

lemma month_length:
  "month_ok m \<Longrightarrow> month_start (march_month m) + last_day y m =
    (if m = 2 then (if is_leap y then 366 else 365) else month_start (march_month m + 1))"
  by (drule month_cases) (auto simp: month_start_def march_month_def last_day_def month_ok_def)

lemma is_leap_end: "is_leap (y + 1) \<longleftrightarrow> leap_end y"
  by (simp add: is_leap_dvd leap_end_def)

lemma leap_end_mod: "leap_end (y mod 400) \<longleftrightarrow> leap_end y"
proof -
  have "y + 1 = 400 * (y div 400) + (y mod 400 + 1)" by simp
  then have "n dvd y + 1 \<longleftrightarrow> n dvd y mod 400 + 1" if "n dvd 400" for n
    using that by (metis dvd_add_right_iff dvd_mult2)
  then show ?thesis by (simp add: leap_end_def)
qed

lemma march_doy_bounds:
  assumes "ymd_ok x"
  shows "0 \<le> march_doy x" "march_doy x < year_length (march_year x)"
    "month_start (march_month (ymd_month x)) \<le> march_doy x"
    "march_doy x < month_start (march_month (ymd_month x) + 1)"
proof -
  have m: "month_ok (ymd_month x)" and d: "1 \<le> ymd_day x" "ymd_day x \<le> last_day (ymd_year x) (ymd_month x)"
    using assms by (auto simp: ymd_ok_def split: if_splits)
  have mp: "0 \<le> march_month (ymd_month x)" "march_month (ymd_month x) \<le> 11"
    using m by (auto simp: march_month_def month_ok_def)
  show lo: "month_start (march_month (ymd_month x)) \<le> march_doy x" using d by (simp add: march_doy_def)
  have "0 \<le> month_start (march_month (ymd_month x))" using mp by (simp add: month_start_def)
  with lo show "0 \<le> march_doy x" by simp
  have feb: "march_month (ymd_month x) = 11 \<longleftrightarrow> ymd_month x = 2" using m by (auto simp: march_month_def month_ok_def)
  have top: "month_start (march_month (ymd_month x) + 1) \<le> 337" if "ymd_month x \<noteq> 2"
  proof -
    have "march_month (ymd_month x) \<noteq> 11" using that feb by blast
    with mp have "march_month (ymd_month x) \<le> 10" by linarith
    then show ?thesis using month_start_next [of "march_month (ymd_month x)"] by linarith
  qed
  have leap: "ymd_month x = 2 \<Longrightarrow> is_leap (ymd_year x) \<longleftrightarrow> leap_end (march_year x)"
    using is_leap_end [of "march_year x"] by (simp add: march_year_def)
  note len = month_length [OF m, of "ymd_year x"]
  show "march_doy x < month_start (march_month (ymd_month x) + 1)"
    using len d feb by (auto simp: march_doy_def month_start_def split: if_splits)
  show "march_doy x < year_length (march_year x)"
    using len d top leap by (auto simp: march_doy_def year_length_def split: if_splits)
qed

section \<open>The conversions are inverse\<close>

lemma to_days_eq: "to_days x = march_year x div 400 * 146097 + (march (march_year x mod 400) + march_doy x) - 719468"
proof -
  have "(if march_year x \<ge> 0 then march_year x else march_year x - 399) sdiv 400 = march_year x div 400"
    by (rule sdiv_shifted) simp_all
  moreover have "march_year x - march_year x div 400 * 400 = march_year x mod 400"
    by (simp add: minus_div_mult_eq_mod)
  ultimately show ?thesis
    unfolding to_days_def Let_def march_year_def [symmetric] march_month_def [symmetric] month_start_def [symmetric]
    by (simp only: march_def march_doy_def)
qed

text \<open>Days split into the era, the year of the era and the day of that year.\<close>

lemma to_days_closed:
  "to_days x = 365 * march_year x + march_year x div 4 - march_year x div 100 + march_year x div 400 + march_doy x - 719468"
proof -
  define y e r where "y = march_year x" and "e = y div 400" and "r = y mod 400"
  have y: "y = 400 * e + r" by (simp add: e_def r_def)
  have "(4 * (100 * e) + r) div 4 = 100 * e + r div 4" "(100 * (4 * e) + r) div 100 = 4 * e + r div 100"
    by (rule div_mult_self4, simp)+
  then have "y div 4 = 100 * e + r div 4" "y div 100 = 4 * e + r div 100" unfolding y by simp_all
  then show ?thesis
    unfolding to_days_eq march_def y_def [symmetric] e_def [symmetric] r_def [symmetric] using y by linarith
qed

definition split_days :: "int \<Rightarrow> int \<times> int \<times> int" where
  "split_days z = (let era = z div 146097; doe = z mod 146097; yoe = year_of_era doe in (era, yoe, doe - march yoe))"

lemma from_days_eq:
  "from_days dp = (case split_days (dp + 719468) of (era, yoe, doy) \<Rightarrow>
     let mp = (5 * doy + 2) div 153; m = civil_month mp
     in \<lparr>ymd_year = calendar_year (yoe + era * 400 + (if m \<le> 2 then 1 else 0)),
         ymd_month = calendar_month m, ymd_day = calendar_day (doy - month_start mp + 1)\<rparr>)"
proof -
  have "(if dp + 719468 \<ge> 0 then dp + 719468 else dp + 719468 - 146096) sdiv 146097 = (dp + 719468) div 146097"
    by (rule sdiv_shifted) simp_all
  moreover have "dp + 719468 - (dp + 719468) div 146097 * 146097 = (dp + 719468) mod 146097"
    by (simp add: minus_div_mult_eq_mod)
  ultimately show ?thesis
    unfolding from_days_def split_days_def Let_def
    by (simp only: case_prod_conv year_of_era_def [symmetric] march_def [symmetric] month_start_def [symmetric]
          civil_month_def [symmetric])
qed

lemma split_days_unique:
  assumes "0 \<le> yoe" "yoe \<le> 399" "0 \<le> doy" "doy < year_length yoe"
  shows "split_days (era * 146097 + (march yoe + doy)) = (era, yoe, doy)"
proof -
  have "0 \<le> march yoe" using assms(1) by (simp add: march_def)
  moreover have "march yoe + doy < 146097"
  proof (cases "yoe = 399")
    case True
    with assms(4) show ?thesis by (simp add: march_def year_length_def leap_end_def)
  next
    case False
    then have "yoe \<le> 398" using assms(2) by simp
    with assms(1,4) show ?thesis by (simp add: march_def year_length_def split: if_splits)
  qed
  ultimately have "(era * 146097 + (march yoe + doy)) div 146097 = era" "(era * 146097 + (march yoe + doy)) mod 146097 = march yoe + doy"
    using assms(3) by (simp_all)
  moreover have "year_of_era (march yoe + doy) = yoe" using assms by (intro year_of_era_eq) simp_all
  ultimately show ?thesis by (simp add: split_days_def Let_def)
qed

lemma split_days:
  assumes "split_days z = (era, yoe, doy)"
  shows "z = era * 146097 + (march yoe + doy)" "0 \<le> yoe" "yoe \<le> 399" "0 \<le> doy" "doy < year_length yoe" "era = z div 146097"
  using assms year_of_era [of "z mod 146097"] div_mult_mod_eq [of z 146097]
  by (auto simp: split_days_def Let_def)

lemma civil_march_month: "month_ok m \<Longrightarrow> civil_month (march_month m) = m"
  by (auto simp: civil_month_def march_month_def month_ok_def)

lemma march_civil_month: "0 \<le> mp \<Longrightarrow> mp \<le> 11 \<Longrightarrow> march_month (civil_month mp) = mp \<and> month_ok (civil_month mp)"
  by (auto simp: civil_month_def march_month_def month_ok_def)

lemma calendar_year_id [simp]: "- 32768 \<le> y \<Longrightarrow> y \<le> 32767 \<Longrightarrow> calendar_year y = y"
  by (simp add: calendar_year_def)

lemma calendar_month_id [simp]: "0 \<le> m \<Longrightarrow> m < 256 \<Longrightarrow> calendar_month m = m"
  by (simp add: calendar_month_def)

lemma calendar_day_id [simp]: "0 \<le> d \<Longrightarrow> d < 256 \<Longrightarrow> calendar_day d = d"
  by (simp add: calendar_day_def)

lemma last_day_bounds: "28 \<le> last_day y m" "last_day y m \<le> 31"
proof -
  have "28 \<le> last_day y m \<and> last_day y m \<le> 31"
  proof (cases "month_ok m")
    case True
    from month_cases [OF True] show ?thesis by (auto simp: last_day_def month_ok_def)
  qed (simp add: last_day_def)
  then show "28 \<le> last_day y m" "last_day y m \<le> 31" by simp_all
qed

definition ymd_bounded :: "ymd \<Rightarrow> bool" where
  "ymd_bounded x \<longleftrightarrow> ymd_ok x \<and> min_year \<le> ymd_year x \<and> ymd_year x \<le> max_year"

lemma from_days_to_days:
  assumes "ymd_bounded x" shows "from_days (to_days x) = x"
proof -
  have okx: "ymd_ok x" and yr: "- 32767 \<le> ymd_year x" "ymd_year x \<le> 32767"
    using assms by (simp_all add: ymd_bounded_def min_year_def max_year_def)
  have m: "month_ok (ymd_month x)" and d: "1 \<le> ymd_day x" "ymd_day x \<le> last_day (ymd_year x) (ymd_month x)"
    using okx by (auto simp: ymd_ok_def split: if_splits)
  let ?y = "march_year x" and ?doy = "march_doy x" and ?mp = "march_month (ymd_month x)"
  note b = march_doy_bounds [OF okx]
  have "to_days x + 719468 = ?y div 400 * 146097 + (march (?y mod 400) + ?doy)" by (simp add: to_days_eq)
  moreover have "split_days (?y div 400 * 146097 + (march (?y mod 400) + ?doy)) = (?y div 400, ?y mod 400, ?doy)"
    using b by (intro split_days_unique) (simp_all add: year_length_def leap_end_mod)
  moreover have "(5 * ?doy + 2) div 153 = ?mp" using b by (intro month_unique) simp_all
  ultimately have "from_days (to_days x) =
      \<lparr>ymd_year = calendar_year (?y mod 400 + ?y div 400 * 400 + (if ymd_month x \<le> 2 then 1 else 0)),
       ymd_month = calendar_month (ymd_month x), ymd_day = calendar_day (?doy - month_start ?mp + 1)\<rparr>"
    by (simp add: from_days_eq civil_march_month [OF m] Let_def)
  also have "?y mod 400 + ?y div 400 * 400 + (if ymd_month x \<le> 2 then 1 else 0) = ymd_year x"
    using mod_div_mult_eq [of ?y 400] by (simp add: march_year_def)
  also have "?doy - month_start ?mp + 1 = ymd_day x" by (simp add: march_doy_def)
  finally show ?thesis
    using yr m d last_day_bounds [of "ymd_year x" "ymd_month x"] by (simp add: month_ok_def)
qed

lemma to_days_from_days:
  assumes "\<bar>z\<bar> \<le> 10000000"
  shows "to_days (from_days z) = z" and "ymd_bounded (from_days z)"
proof -
  obtain era yoe doy where sp: "split_days (z + 719468) = (era, yoe, doy)" by (cases "split_days (z + 719468)")
  note b = split_days [OF sp]
  define mp where "mp = (5 * doy + 2) div 153"
  let ?m = "civil_month mp"
  let ?y = "yoe + era * 400 + (if ?m \<le> 2 then 1 else 0)" and ?d = "doy - month_start mp + 1"
  have mp: "0 \<le> mp" "mp \<le> 11" "month_start mp \<le> doy" "doy < month_start (mp + 1)"
    using month_split [of doy] b(4,5) by (auto simp: mp_def year_length_def split: if_splits)
  have m: "month_ok ?m" and mm: "march_month ?m = mp" using march_civil_month mp by simp_all
  have era: "- 64 \<le> era" "era \<le> 74" using assms unfolding b(6) by auto
  have feb: "mp = 11 \<longleftrightarrow> ?m = 2" using mp by (auto simp: civil_month_def)
  have leap: "?m = 2 \<Longrightarrow> is_leap ?y \<longleftrightarrow> leap_end yoe"
    using is_leap_end [of "yoe + era * 400"] leap_end_mod [of "yoe + era * 400"] leap_end_mod [of yoe] b(2,3) by simp
  have d: "1 \<le> ?d" "?d \<le> last_day ?y ?m"
    using month_length [OF m, of ?y] mm mp(3,4) b(5) leap by (auto simp: year_length_def split: if_splits)
  have yr: "- 32767 \<le> ?y" "?y \<le> 32767" using era b(2,3) by auto
  have f: "from_days z = \<lparr>ymd_year = ?y, ymd_month = ?m, ymd_day = ?d\<rparr>"
    using sp yr m d last_day_bounds [of ?y ?m] by (simp add: from_days_eq Let_def mp_def [symmetric] month_ok_def)
  show "ymd_bounded (from_days z)"
    using yr m d by (simp add: f ymd_bounded_def ymd_ok_def year_ok_def min_year_def max_year_def)
  have "march_year (from_days z) = era * 400 + yoe" by (simp add: f march_year_def)
  moreover from this b(2,3) have "march_year (from_days z) div 400 = era" "march_year (from_days z) mod 400 = yoe" by simp_all
  moreover have "march_doy (from_days z) = doy" by (simp add: f march_doy_def mm)
  ultimately show "to_days (from_days z) = z" using b(1) by (simp add: to_days_eq)
qed

section \<open>The Gregorian calendar\<close>

text \<open>The day after a date, by the rules of the calendar.\<close>

definition next_day :: "ymd \<Rightarrow> ymd" where
  "next_day x =
    (if ymd_day x < last_day (ymd_year x) (ymd_month x) then x\<lparr>ymd_day := ymd_day x + 1\<rparr>
     else if ymd_month x < 12 then x\<lparr>ymd_month := ymd_month x + 1, ymd_day := 1\<rparr>
     else \<lparr>ymd_year = ymd_year x + 1, ymd_month = 1, ymd_day = 1\<rparr>)"

lemma to_days_next:
  assumes "ymd_ok x" shows "to_days (next_day x) = to_days x + 1"
proof -
  have m: "month_ok (ymd_month x)" and d: "1 \<le> ymd_day x" "ymd_day x \<le> last_day (ymd_year x) (ymd_month x)"
    using assms by (auto simp: ymd_ok_def split: if_splits)
  consider "ymd_day x < last_day (ymd_year x) (ymd_month x)" | "ymd_day x = last_day (ymd_year x) (ymd_month x)" "ymd_month x = 2"
    | "ymd_day x = last_day (ymd_year x) (ymd_month x)" "ymd_month x \<noteq> 2" using d by fastforce
  then show ?thesis
  proof cases
    case 1
    then show ?thesis by (simp add: next_day_def to_days_closed march_year_def march_doy_def)
  next
    case 2
    have y: "march_year (next_day x) = march_year x + 1" using 2 by (simp add: next_day_def march_year_def)
    have "march_doy (next_day x) = 0" "march_doy x + 1 = year_length (march_year x)"
      using 2 month_length [OF m, of "ymd_year x"] is_leap_end [of "march_year x"]
      by (simp_all add: next_day_def march_doy_def march_month_def month_start_def march_year_def year_length_def)
    then show ?thesis
      using leap_year_step [of "march_year x"] unfolding to_days_closed y
      by (cases "leap_end (march_year x)") (simp_all add: year_length_def)
  next
    case 3
    have "march_year (next_day x) = march_year x" "march_doy (next_day x) = march_doy x + 1"
      using 3 m month_length [OF m, of "ymd_year x"]
      by (auto simp: next_day_def march_year_def march_doy_def march_month_def month_ok_def month_start_def)
    then show ?thesis by (simp add: to_days_closed)
  qed
qed

lemma iso_weekday_range: "1 \<le> iso_encoding (weekday_from_days z) \<and> iso_encoding (weekday_from_days z) \<le> 7"
proof -
  have "0 \<le> weekday_from_days z \<and> weekday_from_days z < 7" by (simp add: weekday_from_days_def Let_def)
  then show ?thesis by (auto simp: iso_encoding_def)
qed

lemma iso_weekday_eq:
  assumes "- (2 ^ 31) \<le> z" "z < 2 ^ 31"
  shows "iso_encoding (weekday_from_days z) = (z + 3) mod 7 + 1"
proof -
  have "weekday_from_days z = (z + 4) mod 7"
  proof (cases "z \<ge> - 4")
    case True
    then have "(z mod 2 ^ 32 + 4) mod 2 ^ 32 = z + 4"
      using assms by (simp add: mod_add_left_eq)
    then show ?thesis using True by (simp add: weekday_from_days_def Let_def)
  next
    case False
    then have "z mod 2 ^ 32 = z + 2 ^ 32" using assms mod_add_self2 [of z "2 ^ 32"] by (simp del: mod_add_self2)
    moreover have "(z + 2 ^ 32) mod 7 = (z + 4) mod 7" by (simp add: mod_add_eq [symmetric, of z])
    ultimately show ?thesis using False by (simp add: weekday_from_days_def Let_def)
  qed
  moreover have "(z + 4) mod 7 = (if (z + 3) mod 7 = 6 then 0 else (z + 3) mod 7 + 1)" by presburger
  ultimately show ?thesis using pos_mod_sign [of 7 "z + 3"] by (auto simp: iso_encoding_def)
qed

end
