(* ===== verification/Temporal.thy ===== *)
theory Temporal
  imports Calendar "HOL-Library.Monad_Syntax"
begin

text \<open>
  \<open>temporal.cpp\<close>: durations, instants, plain and zoned date-times in nanoseconds. A signed 64-bit count is
  an \<open>int\<close>; every operation that could leave its range checks first, and \<open>wrap64\<close> is written where
  the date library converts a day or a second to nanoseconds without a check. The time-zone database is
  a parameter.
\<close>

section \<open>Checked arithmetic\<close>

definition i64_max :: int where "i64_max = 2 ^ 63 - 1"
definition i64_min :: int where "i64_min = - (2 ^ 63)"

definition wrap64 :: "int \<Rightarrow> int" where
  "wrap64 x = (x + 2 ^ 63) mod 2 ^ 64 - 2 ^ 63"

definition nanos_per_second :: int where "nanos_per_second = 1000000000"
definition nanos_per_millisecond :: int where "nanos_per_millisecond = 1000000"
definition nanos_per_microsecond :: int where "nanos_per_microsecond = 1000"
definition seconds_per_day :: int where "seconds_per_day = 86400"
definition nanos_per_day :: int where "nanos_per_day = seconds_per_day * nanos_per_second"

definition arithmetic_overflow :: exn where
  "arithmetic_overflow = Overflow_error ''temporal duration arithmetic overflow''"

definition checked_add :: "int \<Rightarrow> int \<Rightarrow> int result" where
  "checked_add left right =
    (if (right > 0 \<and> left > i64_max - right) \<or> (right < 0 \<and> left < i64_min - right)
     then Inl arithmetic_overflow else Inr (left + right))"

definition checked_subtract :: "int \<Rightarrow> int \<Rightarrow> int result" where
  "checked_subtract left right =
    (if (right < 0 \<and> left > i64_max + right) \<or> (right > 0 \<and> left < i64_min + right)
     then Inl arithmetic_overflow else Inr (left - right))"

definition checked_multiply :: "int \<Rightarrow> int \<Rightarrow> int result" where
  "checked_multiply val factor =
    (if val > 0 \<and> factor > 0 \<and> val > i64_max sdiv factor then Inl arithmetic_overflow
     else if val > 0 \<and> factor < 0 \<and> factor < i64_min sdiv val then Inl arithmetic_overflow
     else if val < 0 \<and> factor > 0 \<and> val < i64_min sdiv factor then Inl arithmetic_overflow
     else if val < 0 \<and> factor < 0 \<and> val \<noteq> 0 \<and> factor < i64_max sdiv val then Inl arithmetic_overflow
     else Inr (val * factor))"

section \<open>Fields\<close>

definition validate_time_fields :: "int \<Rightarrow> int \<Rightarrow> int \<Rightarrow> int \<Rightarrow> unit result" where
  "validate_time_fields hour minute second nanosecond =
    (if hour < 0 \<or> hour > 23 \<or> minute < 0 \<or> minute > 59 \<or> second < 0 \<or> second > 59
        \<or> nanosecond < 0 \<or> nanosecond \<ge> nanos_per_second
     then Inl (Invalid_argument ''invalid temporal time fields'') else Inr ())"

definition validate_date_fields :: "int \<Rightarrow> int \<Rightarrow> int \<Rightarrow> ymd result" where
  "validate_date_fields year month day =
    (if year < min_year \<or> year > max_year then Inl (Invalid_argument ''invalid temporal date fields'')
     else let x = \<lparr>ymd_year = calendar_year year, ymd_month = calendar_month month, ymd_day = calendar_day day\<rparr>
          in if \<not> ymd_ok x then Inl (Invalid_argument ''invalid temporal date fields'') else Inr x)"

text \<open>\<open>std::stoi\<close> on the captured groups, which are strings of at most nine digits.\<close>

definition digit_value :: "char \<Rightarrow> int" where
  "digit_value c = of_char c - 48"

definition parse_int :: "string \<Rightarrow> int" where
  "parse_int s = foldl (\<lambda>a c. 10 * a + digit_value c) 0 s"

definition parse_fraction :: "string \<Rightarrow> int result" where
  "parse_fraction fraction =
    (if fraction = [] then Inr 0
     else if length fraction > 9 then Inl (Invalid_argument ''invalid temporal fractional second'')
     else Inr (parse_int (fraction @ replicate (9 - length fraction) CHR ''0'')))"

section \<open>Nanoseconds from parts\<close>

definition nanos_from_day_time :: "int \<Rightarrow> int \<Rightarrow> string \<Rightarrow> int result" where
  "nanos_from_day_time days time msg =
    (let max_days = i64_max sdiv nanos_per_day;
         max_time = i64_max smod nanos_per_day;
         min_days = i64_min sdiv nanos_per_day;
         min_time = i64_min smod nanos_per_day
     in bind_result
          (if min_time < 0 then bind_result (checked_add min_time nanos_per_day) (\<lambda>t. Inr (min_days - 1, t))
           else Inr (min_days, min_time))
          (\<lambda>(min_days, min_time).
            if days > max_days \<or> (days = max_days \<and> time > max_time)
               \<or> days < min_days \<or> (days = min_days \<and> time < min_time)
            then Inl (Invalid_argument msg)
            else if days = min_days
            then bind_result (checked_subtract time min_time) (checked_add i64_min)
            else bind_result (checked_multiply days nanos_per_day) (\<lambda>n. checked_add n time)))"

definition nanos_from_unix_parts :: "int \<Rightarrow> int \<Rightarrow> int result" where
  "nanos_from_unix_parts seconds nanosecond =
    (let max_seconds = i64_max sdiv nanos_per_second;
         max_nanosecond = i64_max smod nanos_per_second;
         min_seconds = i64_min sdiv nanos_per_second;
         min_nanosecond = i64_min smod nanos_per_second
     in bind_result
          (if min_nanosecond < 0
           then bind_result (checked_add min_nanosecond nanos_per_second) (\<lambda>t. Inr (min_seconds - 1, t))
           else Inr (min_seconds, min_nanosecond))
          (\<lambda>(min_seconds, min_nanosecond).
            if seconds > max_seconds \<or> (seconds = max_seconds \<and> nanosecond > max_nanosecond)
               \<or> seconds < min_seconds \<or> (seconds = min_seconds \<and> nanosecond < min_nanosecond)
            then Inl arithmetic_overflow
            else if seconds = min_seconds
            then bind_result (checked_subtract nanosecond min_nanosecond) (checked_add i64_min)
            else bind_result (checked_multiply seconds nanos_per_second) (\<lambda>n. checked_add n nanosecond)))"

record civil_nanoseconds =
  civil_days :: int
  civil_time :: int

text \<open>The time of day of validated fields.\<close>

definition time_of_day :: "int \<Rightarrow> int \<Rightarrow> int \<Rightarrow> int \<Rightarrow> int result" where
  "time_of_day hour minute second nanosecond =
     bind_result (checked_multiply hour (3600 * nanos_per_second)) (\<lambda>h.
     bind_result (checked_multiply minute (60 * nanos_per_second)) (\<lambda>m.
     bind_result (checked_multiply second nanos_per_second) (\<lambda>s.
     bind_result (checked_add h m) (\<lambda>hm.
     bind_result (checked_add s nanosecond) (\<lambda>sn. checked_add hm sn)))))"

definition nanos_from_fields :: "int \<Rightarrow> int \<Rightarrow> int \<Rightarrow> int \<Rightarrow> int \<Rightarrow> int \<Rightarrow> int \<Rightarrow> civil_nanoseconds result" where
  "nanos_from_fields year month day hour minute second nanosecond =
     bind_result (validate_date_fields year month day) (\<lambda>x.
     bind_result (validate_time_fields hour minute second nanosecond) (\<lambda>_.
     bind_result (time_of_day hour minute second nanosecond) (\<lambda>t.
       Inr \<lparr>civil_days = to_days x, civil_time = t\<rparr>)))"

definition local_from_fields :: "int \<Rightarrow> int \<Rightarrow> int \<Rightarrow> int \<Rightarrow> int \<Rightarrow> int \<Rightarrow> int \<Rightarrow> int result" where
  "local_from_fields year month day hour minute second nanosecond =
     bind_result (nanos_from_fields year month day hour minute second nanosecond) (\<lambda>c.
       nanos_from_day_time (civil_days c) (civil_time c) ''temporal local date-time outside nanosecond range'')"

definition checked_sys_from_civil_with_offset :: "civil_nanoseconds \<Rightarrow> int \<Rightarrow> int result" where
  "checked_sys_from_civil_with_offset c offset_seconds =
     bind_result (checked_multiply offset_seconds nanos_per_second) (\<lambda>offset.
     bind_result (checked_subtract (civil_time c) offset) (\<lambda>adjusted.
     let day_delta = adjusted sdiv nanos_per_day; time = adjusted smod nanos_per_day in
     bind_result
       (if time < 0 then bind_result (checked_add time nanos_per_day) (\<lambda>t. Inr (day_delta - 1, t))
        else Inr (day_delta, time))
       (\<lambda>(day_delta, time).
         bind_result (case checked_add (civil_days c) day_delta of
               Inl (Overflow_error _) \<Rightarrow> Inl (Invalid_argument ''temporal instant outside nanosecond range'')
             | r \<Rightarrow> r)
           (\<lambda>days. nanos_from_day_time days time ''temporal instant outside nanosecond range''))))"

section \<open>Fields from nanoseconds\<close>

record civil_fields =
  cf_year :: int
  cf_month :: int
  cf_day :: int
  cf_hour :: int
  cf_minute :: int
  cf_second :: int
  cf_nanosecond :: int

text \<open>
  \<open>date::floor\<close> to a unit of \<open>u\<close> nanoseconds; \<open>remainder\<close> is \<open>value - floor\<close>, where the floor is converted
  back to nanoseconds.
\<close>

definition date_floor :: "int \<Rightarrow> int \<Rightarrow> int" where
  "date_floor u v = (let t = v sdiv u in if t * u > v then t - 1 else t)"

definition remainder :: "int \<Rightarrow> int \<Rightarrow> int" where
  "remainder u v = wrap64 (v - wrap64 (date_floor u v * u))"

definition fields_from_local :: "int \<Rightarrow> civil_fields" where
  "fields_from_local v =
    (let x = from_days (date_floor nanos_per_day v);
         d = \<bar>remainder nanos_per_day v\<bar>;
         h = d sdiv (3600 * nanos_per_second);
         m = d sdiv (60 * nanos_per_second) - h * 60;
         rest = d - h * (3600 * nanos_per_second) - m * (60 * nanos_per_second);
         s = rest sdiv nanos_per_second
     in \<lparr>cf_year = ymd_year x, cf_month = ymd_month x, cf_day = ymd_day x,
         cf_hour = h, cf_minute = m, cf_second = s, cf_nanosecond = rest - s * nanos_per_second\<rparr>)"

section \<open>Text\<close>

text \<open>\<open>std::setw\<close> with \<open>std::setfill('0')\<close>: the number is padded on its left.\<close>

definition setw0 :: "nat \<Rightarrow> int \<Rightarrow> string" where
  "setw0 n i = (let s = to_string i in replicate (n - length s) CHR ''0'' @ s)"

definition format_fraction :: "int \<Rightarrow> string" where
  "format_fraction nanosecond =
    (if nanosecond = 0 then []
     else rev (dropWhile (\<lambda>c. c = CHR ''0'') (rev (CHR ''.'' # setw0 9 nanosecond))))"

definition format_civil :: "civil_fields \<Rightarrow> string" where
  "format_civil f = setw0 4 (cf_year f) @ ''-'' @ setw0 2 (cf_month f) @ ''-'' @ setw0 2 (cf_day f) @ ''T''
     @ setw0 2 (cf_hour f) @ '':'' @ setw0 2 (cf_minute f) @ '':'' @ setw0 2 (cf_second f)
     @ format_fraction (cf_nanosecond f)"

text \<open>
  The regular expressions of the parsers. Each repetition is of digits and is followed by a character that is
  not a digit, so the greedy match is the only one.
\<close>

definition is_digit :: "char \<Rightarrow> bool" where
  "is_digit c \<longleftrightarrow> (of_char c :: nat) \<in> {48..57}"

fun digits :: "nat \<Rightarrow> string \<Rightarrow> (string \<times> string) option" where
  "digits 0 s = Some ([], s)"
| "digits (Suc n) [] = None"
| "digits (Suc n) (c # s) = (if is_digit c then map_option (\<lambda>(d, r). (c # d, r)) (digits n s) else None)"

fun literal :: "char \<Rightarrow> string \<Rightarrow> string option" where
  "literal c [] = None"
| "literal c (x # s) = (if x = c then Some s else None)"

definition match_fraction :: "string \<Rightarrow> string \<times> string" where
  "match_fraction s = (case literal CHR ''.'' s of
      None \<Rightarrow> ([], s)
    | Some r \<Rightarrow> (let ds = take 9 (takeWhile is_digit r) in if ds = [] then ([], s) else (ds, drop (length ds) r)))"

record date_time_groups =
  g_year :: string
  g_month :: string
  g_day :: string
  g_hour :: string
  g_minute :: string
  g_second :: string
  g_fraction :: string

definition match_date_time :: "string \<Rightarrow> (date_time_groups \<times> string) option" where
  "match_date_time s = do {
     (y, s) \<leftarrow> digits 4 s; s \<leftarrow> literal CHR ''-'' s;
     (mo, s) \<leftarrow> digits 2 s; s \<leftarrow> literal CHR ''-'' s;
     (d, s) \<leftarrow> digits 2 s; s \<leftarrow> literal CHR ''T'' s;
     (h, s) \<leftarrow> digits 2 s; s \<leftarrow> literal CHR '':'' s;
     (mi, s) \<leftarrow> digits 2 s; s \<leftarrow> literal CHR '':'' s;
     (sec, s) \<leftarrow> digits 2 s;
     let (f, s) = match_fraction s;
     Some (\<lparr>g_year = y, g_month = mo, g_day = d, g_hour = h, g_minute = mi, g_second = sec, g_fraction = f\<rparr>, s)
   }"

text \<open>The group \<open>Z\<close> or a signed offset: \<open>None\<close> for \<open>Z\<close>, else the sign, the hours and the minutes.\<close>

definition match_offset :: "string \<Rightarrow> ((char \<times> string \<times> string) option \<times> string) option" where
  "match_offset s = (case s of
      [] \<Rightarrow> None
    | c # r \<Rightarrow>
      if c = CHR ''Z'' then Some (None, r)
      else if c = CHR ''+'' \<or> c = CHR ''-'' then do {
        (h, r) \<leftarrow> digits 2 r; r \<leftarrow> literal CHR '':'' r; (m, r) \<leftarrow> digits 2 r; Some (Some (c, h, m), r)
      } else None)"

text \<open>The two patterns, each of which has to match the whole text.\<close>

definition match_instant :: "string \<Rightarrow> (date_time_groups \<times> (char \<times> string \<times> string) option) option" where
  "match_instant text = do {
     (g, s) \<leftarrow> match_date_time text; (off, s) \<leftarrow> match_offset s; if s = [] then Some (g, off) else None
   }"

definition match_plain :: "string \<Rightarrow> date_time_groups option" where
  "match_plain text = do { (g, s) \<leftarrow> match_date_time text; if s = [] then Some g else None }"

definition civil_of_groups :: "date_time_groups \<Rightarrow> civil_nanoseconds result" where
  "civil_of_groups g =
     (let second = parse_int (g_second g) in
      if second = 60 then Inl (Invalid_argument ''leap seconds are not supported'')
      else bind_result (parse_fraction (g_fraction g)) (\<lambda>fraction.
        nanos_from_fields (parse_int (g_year g)) (parse_int (g_month g)) (parse_int (g_day g))
          (parse_int (g_hour g)) (parse_int (g_minute g)) second fraction))"

section \<open>Durations\<close>

datatype duration = Duration (duration_count: int)

definition compare_int64 :: "int \<Rightarrow> int \<Rightarrow> int" where
  "compare_int64 left right = (if left < right then - 1 else if left > right then 1 else 0)"

definition duration_from_nanoseconds :: "int \<Rightarrow> duration" where
  "duration_from_nanoseconds n = Duration n"

definition duration_from_seconds :: "int \<Rightarrow> duration result" where
  "duration_from_seconds s = bind_result (checked_multiply s nanos_per_second) (\<lambda>n. Inr (Duration n))"

definition duration_from_parts :: "int \<Rightarrow> int \<Rightarrow> int \<Rightarrow> int \<Rightarrow> duration result" where
  "duration_from_parts seconds milliseconds microseconds nanoseconds =
     bind_result (checked_multiply seconds nanos_per_second) (\<lambda>total.
     bind_result (checked_multiply milliseconds nanos_per_millisecond) (\<lambda>x.
     bind_result (checked_add total x) (\<lambda>total.
     bind_result (checked_multiply microseconds nanos_per_microsecond) (\<lambda>x.
     bind_result (checked_add total x) (\<lambda>total.
     bind_result (checked_add total nanoseconds) (\<lambda>total. Inr (Duration total)))))))"

definition duration_compare :: "duration \<Rightarrow> duration \<Rightarrow> int" where
  "duration_compare a b = compare_int64 (duration_count a) (duration_count b)"

definition duration_to_string :: "duration \<Rightarrow> string" where
  "duration_to_string d = to_string (duration_count d) @ ''ns''"

section \<open>Instants\<close>

datatype instant = Instant (instant_count: int)

definition seconds_of_offset :: "(char \<times> string \<times> string) option \<Rightarrow> int result" where
  "seconds_of_offset off = (case off of
      None \<Rightarrow> Inr 0
    | Some (sign, h, m) \<Rightarrow>
        let hours = parse_int h; minutes = parse_int m in
        if hours > 23 \<or> minutes > 59 then Inl (Invalid_argument ''invalid temporal instant offset'')
        else Inr ((if sign = CHR ''-'' then - 1 else 1) * ((hours * 60 + minutes) * 60)))"

definition instant_parse :: "string \<Rightarrow> instant result" where
  "instant_parse text =
    (case match_instant text of
       None \<Rightarrow> Inl (Invalid_argument ''invalid temporal instant'')
     | Some (g, off) \<Rightarrow>
         bind_result (civil_of_groups g) (\<lambda>c.
         bind_result (seconds_of_offset off) (\<lambda>offset_seconds.
             bind_result (checked_sys_from_civil_with_offset c offset_seconds) (\<lambda>n. Inr (Instant n)))))"

definition from_unix :: "int \<Rightarrow> int \<Rightarrow> instant result" where
  "from_unix epoch_seconds nanosecond =
    (if nanosecond < 0 \<or> nanosecond \<ge> nanos_per_second then Inl (Invalid_argument ''invalid instant nanosecond'')
     else bind_result (nanos_from_unix_parts epoch_seconds nanosecond) (\<lambda>n. Inr (Instant n)))"

definition epoch_seconds :: "instant \<Rightarrow> int" where
  "epoch_seconds i = date_floor nanos_per_second (instant_count i)"

definition instant_nanosecond :: "instant \<Rightarrow> int" where
  "instant_nanosecond i = remainder nanos_per_second (instant_count i)"

definition instant_to_string :: "instant \<Rightarrow> string" where
  "instant_to_string i = format_civil (fields_from_local (instant_count i)) @ ''Z''"

definition instant_compare :: "instant \<Rightarrow> instant \<Rightarrow> int" where
  "instant_compare a b = compare_int64 (instant_count a) (instant_count b)"

definition instant_add :: "instant \<Rightarrow> duration \<Rightarrow> instant result" where
  "instant_add i d = bind_result (checked_add (instant_count i) (duration_count d)) (\<lambda>n. Inr (Instant n))"

definition instant_since :: "instant \<Rightarrow> instant \<Rightarrow> duration result" where
  "instant_since i earlier =
     bind_result (checked_subtract (instant_count i) (instant_count earlier)) (\<lambda>n. Inr (Duration n))"

definition instant_less :: "instant \<Rightarrow> instant \<Rightarrow> bool" where
  "instant_less a b \<longleftrightarrow> instant_count a < instant_count b"

text \<open>The operator of \<open>Instant\<close>, as the order of the library.\<close>

instantiation instant :: linorder
begin

definition less_instant :: "instant \<Rightarrow> instant \<Rightarrow> bool" where
  "less_instant a b \<longleftrightarrow> instant_less a b"

definition less_eq_instant :: "instant \<Rightarrow> instant \<Rightarrow> bool" where
  "less_eq_instant a b \<longleftrightarrow> instant_count a \<le> instant_count b"

instance
  by intro_classes (auto simp: less_instant_def instant_less_def less_eq_instant_def instant.expand)

end

section \<open>Plain date-times\<close>

datatype plain = PlainDateTime (plain_count: int)

definition plain_parse :: "string \<Rightarrow> plain result" where
  "plain_parse text =
    (case match_plain text of
       None \<Rightarrow> Inl (Invalid_argument ''invalid temporal plain date-time'')
     | Some g \<Rightarrow>
         bind_result (civil_of_groups g) (\<lambda>c.
         bind_result (nanos_from_day_time (civil_days c) (civil_time c)
                        ''temporal local date-time outside nanosecond range'') (\<lambda>n. Inr (PlainDateTime n))))"

definition plain_from_fields :: "int \<Rightarrow> int \<Rightarrow> int \<Rightarrow> int \<Rightarrow> int \<Rightarrow> int \<Rightarrow> int \<Rightarrow> plain result" where
  "plain_from_fields year month day hour minute second nanosecond =
     bind_result (local_from_fields year month day hour minute second nanosecond) (\<lambda>n. Inr (PlainDateTime n))"

definition plain_fields :: "plain \<Rightarrow> civil_fields" where
  "plain_fields p = fields_from_local (plain_count p)"

definition plain_to_string :: "plain \<Rightarrow> string" where
  "plain_to_string p = format_civil (plain_fields p)"

definition plain_compare :: "plain \<Rightarrow> plain \<Rightarrow> int" where
  "plain_compare a b = compare_int64 (plain_count a) (plain_count b)"

definition plain_add :: "plain \<Rightarrow> duration \<Rightarrow> plain result" where
  "plain_add p d = bind_result (checked_add (plain_count p) (duration_count d)) (\<lambda>n. Inr (PlainDateTime n))"

definition plain_since :: "plain \<Rightarrow> plain \<Rightarrow> duration result" where
  "plain_since p earlier =
     bind_result (checked_subtract (plain_count p) (plain_count earlier)) (\<lambda>n. Inr (Duration n))"

definition add_days :: "plain \<Rightarrow> int \<Rightarrow> plain result" where
  "add_days p days =
    (let day = date_floor nanos_per_day (plain_count p); time = remainder nanos_per_day (plain_count p)
     in bind_result (checked_add day days) (\<lambda>next_day_count.
        bind_result (nanos_from_day_time next_day_count time ''temporal local date-time outside nanosecond range'')
          (\<lambda>n. Inr (PlainDateTime n))))"

definition floor_divide :: "int \<Rightarrow> int \<Rightarrow> int" where
  "floor_divide val divisor = (let q = val sdiv divisor in if val smod divisor < 0 then q - 1 else q)"

definition calendar_overflow :: exn where
  "calendar_overflow = Overflow_error ''temporal calendar arithmetic overflow''"

definition add_calendar_months :: "civil_fields \<Rightarrow> int \<Rightarrow> int \<Rightarrow> ymd result" where
  "add_calendar_months f years months =
     bind_result (bind_result (checked_multiply years 12) (\<lambda>n. checked_add n months)) (\<lambda>month_shift.
     bind_result (bind_result (checked_multiply (cf_year f) 12) (\<lambda>n. checked_add n (cf_month f - 1))) (\<lambda>current.
     bind_result (checked_add current month_shift) (\<lambda>target.
     let target_year = floor_divide target 12 in
     bind_result (bind_result (checked_multiply target_year 12) (checked_subtract target)) (\<lambda>month0.
     if target_year < min_year \<or> target_year > max_year then Inl calendar_overflow
     else
       let y = calendar_year target_year; m = calendar_month (month0 + 1);
           max_day = last_day y m;
           d = (if cf_day f > max_day then max_day else cf_day f);
           x = \<lparr>ymd_year = y, ymd_month = m, ymd_day = calendar_day d\<rparr>
       in if \<not> ymd_ok x then Inl calendar_overflow else Inr x))))"

definition add_calendar :: "plain \<Rightarrow> int \<Rightarrow> int \<Rightarrow> int \<Rightarrow> int \<Rightarrow> plain result" where
  "add_calendar p years months weeks days =
    (let f = plain_fields p in
     bind_result (add_calendar_months f years months) (\<lambda>x.
     bind_result (bind_result (checked_multiply weeks 7) (\<lambda>n. checked_add n days)) (\<lambda>day_shift.
     bind_result (checked_add (to_days x) day_shift) (\<lambda>final_day.
     bind_result (time_of_day (cf_hour f) (cf_minute f) (cf_second f) (cf_nanosecond f)) (\<lambda>time.
     bind_result (nanos_from_day_time final_day time ''temporal local date-time outside nanosecond range'')
       (\<lambda>n. Inr (PlainDateTime n)))))))"

definition iso_weekday :: "plain \<Rightarrow> int" where
  "iso_weekday p = iso_encoding (weekday_from_days (date_floor nanos_per_day (plain_count p)))"

section \<open>Time zones\<close>

text \<open>What the time-zone library answers: the rule in force at an instant, or those around a local time.\<close>

record sys_info =
  si_begin :: int
  si_end :: int
  si_offset :: int

datatype local_result = UniqueTime | NonexistentTime | AmbiguousTime

record local_info =
  li_result :: local_result
  li_first :: sys_info
  li_second :: sys_info

record time_zone =
  tz_sys :: "int \<Rightarrow> sys_info"
  tz_local :: "int \<Rightarrow> local_info"

text \<open>A failure carries the text of the \<open>std::runtime_error\<close>.\<close>

record tzdb =
  db_version :: string
  db_locate :: "string \<Rightarrow> string + time_zone"

type_synonym tz_library = "string + tzdb"

datatype disambiguation = Reject | Earliest | Latest

definition parse_disambiguation :: "string \<Rightarrow> disambiguation result" where
  "parse_disambiguation s =
    (if s = ''reject'' then Inr Reject
     else if s = ''earliest'' then Inr Earliest
     else if s = ''latest'' then Inr Latest
     else Inl (Invalid_argument ''invalid temporal disambiguation''))"

definition locate_zone_or_throw :: "tz_library \<Rightarrow> string \<Rightarrow> time_zone result" where
  "locate_zone_or_throw L zone_id = (case L of
      Inl what \<Rightarrow> Inl (Runtime_error (''temporal timezone database unavailable: '' @ what))
    | Inr db \<Rightarrow> (case db_locate db zone_id of
        Inl what \<Rightarrow> Inl (Invalid_argument (''invalid temporal timezone: '' @ what))
      | Inr zone \<Rightarrow> Inr zone))"

definition tzdb_version :: "tz_library \<Rightarrow> string result" where
  "tzdb_version L = (case L of
      Inl what \<Rightarrow> Inl (Runtime_error (''temporal timezone database unavailable: '' @ what))
    | Inr db \<Rightarrow> Inr (db_version db))"

definition zone_info_for_instant :: "tz_library \<Rightarrow> string \<Rightarrow> int \<Rightarrow> sys_info result" where
  "zone_info_for_instant L zone_id n = bind_result (locate_zone_or_throw L zone_id) (\<lambda>zone. Inr (tz_sys zone n))"

definition checked_sys_from_local_with_offset :: "int \<Rightarrow> int \<Rightarrow> int result" where
  "checked_sys_from_local_with_offset local offset =
     bind_result (checked_multiply offset nanos_per_second) (checked_subtract local)"

definition resolve_local :: "time_zone \<Rightarrow> int \<Rightarrow> disambiguation \<Rightarrow> int result" where
  "resolve_local zone local dis =
    (let info = tz_local zone local in
     if li_result info = UniqueTime then checked_sys_from_local_with_offset local (si_offset (li_first info))
     else if dis = Reject then Inl (Invalid_argument ''rejected ambiguous or nonexistent temporal local time'')
     else if li_result info = AmbiguousTime
     then if dis = Earliest then checked_sys_from_local_with_offset local (si_offset (li_first info))
          else checked_sys_from_local_with_offset local (si_offset (li_second info))
     else if dis = Earliest then checked_multiply (si_begin (li_second info)) nanos_per_second
     else bind_result (checked_multiply (si_end (li_first info)) nanos_per_second) (\<lambda>n. checked_subtract n 1))"

record zoned =
  zoned_instant :: instant
  zoned_zone_id :: string

definition zoned_from_plain :: "tz_library \<Rightarrow> plain \<Rightarrow> string \<Rightarrow> disambiguation \<Rightarrow> zoned result" where
  "zoned_from_plain L p zone_id dis =
     bind_result (locate_zone_or_throw L zone_id) (\<lambda>zone.
     bind_result (resolve_local zone (plain_count p) dis) (\<lambda>n.
       Inr \<lparr>zoned_instant = Instant n, zoned_zone_id = zone_id\<rparr>))"

definition zoned_from_instant :: "tz_library \<Rightarrow> instant \<Rightarrow> string \<Rightarrow> zoned result" where
  "zoned_from_instant L i zone_id =
     bind_result (locate_zone_or_throw L zone_id) (\<lambda>_. Inr \<lparr>zoned_instant = i, zoned_zone_id = zone_id\<rparr>)"

definition zoned_fields :: "tz_library \<Rightarrow> zoned \<Rightarrow> civil_fields result" where
  "zoned_fields L z =
     bind_result (zone_info_for_instant L (zoned_zone_id z) (instant_count (zoned_instant z))) (\<lambda>info.
     bind_result (bind_result (checked_multiply (si_offset info) nanos_per_second)
         (checked_add (instant_count (zoned_instant z)))) (\<lambda>n. Inr (fields_from_local n)))"

definition offset_string :: "tz_library \<Rightarrow> zoned \<Rightarrow> string result" where
  "offset_string L z =
     bind_result (zone_info_for_instant L (zoned_zone_id z) (instant_count (zoned_instant z))) (\<lambda>info.
     let total = si_offset info; sign = (if total < 0 then CHR ''-'' else CHR ''+''); total = \<bar>total\<bar>
     in Inr (sign # setw0 2 (total sdiv 3600) @ '':'' @ setw0 2 ((total smod 3600) sdiv 60)))"

definition zoned_to_string :: "tz_library \<Rightarrow> zoned \<Rightarrow> string result" where
  "zoned_to_string L z =
     bind_result (zoned_fields L z) (\<lambda>f.
     bind_result (offset_string L z) (\<lambda>off. Inr (format_civil f @ off @ ''['' @ zoned_zone_id z @ '']'')))"

section \<open>Clocks\<close>

record clock =
  clock_fixed :: bool
  clock_instant :: instant

definition system_clock :: "clock result" where
  "system_clock = bind_result (from_unix 0 0) (\<lambda>i. Inr \<lparr>clock_fixed = False, clock_instant = i\<rparr>)"

definition fixed_clock :: "instant \<Rightarrow> clock" where
  "fixed_clock i = \<lparr>clock_fixed = True, clock_instant = i\<rparr>"

text \<open>\<open>now\<close> is the time of the system in nanoseconds.\<close>

definition clock_now :: "int \<Rightarrow> clock \<Rightarrow> instant" where
  "clock_now now c = (if clock_fixed c then clock_instant c else Instant now)"

end
