(* ===== verification/Temporal_Arithmetic.thy ===== *)
theory Temporal_Arithmetic
  imports Temporal
begin

text \<open>
  The arithmetic under \<open>temporal.cpp\<close>: the checked operations are exact on 64-bit values, a day or a second
  and its nanoseconds are combined and split without loss over the whole range, and civil fields and
  nanoseconds are inverse.
\<close>

section \<open>Checked operations\<close>

definition fits64 :: "int \<Rightarrow> bool" where
  "fits64 x \<longleftrightarrow> i64_min \<le> x \<and> x \<le> i64_max"

lemma i64_signs: "i64_min < 0" "0 < i64_max" "i64_min = - i64_max - 1"
  by (simp_all add: i64_min_def i64_max_def)

lemmas unit_defs = nanos_per_day_def seconds_per_day_def nanos_per_second_def nanos_per_millisecond_def
  nanos_per_microsecond_def

definition exact :: "int \<Rightarrow> int result" where
  "exact x = (if fits64 x then Inr x else Inl arithmetic_overflow)"

lemma checked_add_exact: "fits64 a \<Longrightarrow> fits64 b \<Longrightarrow> checked_add a b = exact (a + b)"
  by (auto simp: checked_add_def exact_def fits64_def)

lemma checked_subtract_exact: "fits64 a \<Longrightarrow> fits64 b \<Longrightarrow> checked_subtract a b = exact (a - b)"
  by (auto simp: checked_subtract_def exact_def fits64_def)

text \<open>A bound by a quotient is a bound by a product.\<close>

lemma div_less_iff: "0 < f \<Longrightarrow> m div f < v \<longleftrightarrow> m < v * f" for m v f :: int
proof -
  assume f: "0 < f"
  have "m = m div f * f + m mod f" by simp
  then have m: "m div f * f \<le> m" "m < (m div f + 1) * f"
    using pos_mod_bound [OF f, of m] pos_mod_sign [OF f, of m] unfolding distrib_right by linarith+
  show ?thesis
  proof
    assume "m div f < v"
    then have "(m div f + 1) * f \<le> v * f" using f by (intro mult_right_mono) auto
    with m show "m < v * f" by linarith
  next
    assume "m < v * f"
    with m have "m div f * f < v * f" by linarith
    with f show "m div f < v" by (simp add: mult_less_cancel_right)
  qed
qed

lemma sdiv_bound:
  "0 < f \<Longrightarrow> v > i64_max sdiv f \<longleftrightarrow> v * f > i64_max"
  "0 < v \<Longrightarrow> f < i64_min sdiv v \<longleftrightarrow> v * f < i64_min"
  "v < 0 \<Longrightarrow> f < i64_max sdiv v \<longleftrightarrow> v * f > i64_max"
proof -
  show "v > i64_max sdiv f \<longleftrightarrow> v * f > i64_max" if "0 < f"
    using div_less_iff [OF that, of i64_max v] that by (simp add: sdiv_nonneg i64_max_def)
  show "f < i64_min sdiv v \<longleftrightarrow> v * f < i64_min" if "0 < v"
    using div_less_iff [OF that, of "- i64_min" "- f"] sdiv_neg [OF i64_signs(1) that]
    by (auto simp: mult.commute)
  show "f < i64_max sdiv v \<longleftrightarrow> v * f > i64_max" if "v < 0"
  proof -
    have "i64_max sdiv v = - (i64_max div - v)"
      using that sdiv_nonneg [of i64_max "- v"] by (simp add: i64_max_def)
    then show ?thesis using div_less_iff [of "- v" i64_max "- f"] that by (auto simp: mult.commute)
  qed
qed

lemma checked_multiply_exact: "fits64 v \<Longrightarrow> fits64 f \<Longrightarrow> checked_multiply v f = exact (v * f)"
proof -
  define p where "p = v * f"
  note bound = sdiv_bound(1) [of f v] sdiv_bound(2) [of v f] sdiv_bound(2) [of f v] sdiv_bound(3) [of v f]
  note bound = bound [unfolded mult.commute [of f v], folded p_def]
  consider "v > 0" "f > 0" "p > 0" | "v > 0" "f < 0" "p < 0" | "v < 0" "f > 0" "p < 0" | "v < 0" "f < 0" "p > 0" | "p = 0" "v = 0 \<or> f = 0"
    unfolding p_def by (metis linorder_neqE_linordered_idom mult_eq_0_iff mult_neg_neg mult_neg_pos mult_pos_neg mult_pos_pos)
  then have "checked_multiply v f = exact p"
    using i64_signs bound
    by cases (auto simp: checked_multiply_def exact_def fits64_def p_def [symmetric])
  then show ?thesis by (simp add: p_def)
qed

lemmas checked_exact = checked_add_exact checked_subtract_exact checked_multiply_exact

lemma exact_fits: "fits64 x \<Longrightarrow> exact x = Inr x"
  by (simp add: exact_def)

lemma exact_Inr_iff: "exact x = Inr y \<longleftrightarrow> y = x \<and> fits64 x"
  by (auto simp: exact_def)

section \<open>A count of units and a rest\<close>

lemma lex_less: "0 \<le> t \<Longrightarrow> t < u \<Longrightarrow> 0 \<le> s \<Longrightarrow> s < u \<Longrightarrow> d * u + t < e * u + s \<longleftrightarrow> d < e \<or> d = e \<and> t < s"
  for u :: int
proof -
  assume b: "0 \<le> t" "t < u" "0 \<le> s" "s < u"
  have up: "x * u + u \<le> y * u" if "x < y" for x y
  proof -
    have "(x + 1) * u \<le> y * u" using that b by (intro mult_right_mono) auto
    then show ?thesis by (simp add: distrib_right)
  qed
  consider "d < e" | "d = e" | "e < d" by linarith
  then show ?thesis using b up [of d e] up [of e d] by cases auto
qed

text \<open>\<open>nanos_from_day_time\<close> and \<open>nanos_from_unix_parts\<close> are one computation over two units.\<close>

definition from_parts :: "int \<Rightarrow> exn \<Rightarrow> int \<Rightarrow> int \<Rightarrow> int result" where
  "from_parts u e cnt rest =
     bind_result
       (if i64_min smod u < 0 then bind_result (checked_add (i64_min smod u) u) (\<lambda>t. Inr (i64_min sdiv u - 1, t))
        else Inr (i64_min sdiv u, i64_min smod u))
       (\<lambda>(min_count, min_rest).
         if cnt > i64_max sdiv u \<or> (cnt = i64_max sdiv u \<and> rest > i64_max smod u)
            \<or> cnt < min_count \<or> (cnt = min_count \<and> rest < min_rest)
         then Inl e
         else if cnt = min_count
         then bind_result (checked_subtract rest min_rest) (checked_add i64_min)
         else bind_result (checked_multiply cnt u) (\<lambda>n. checked_add n rest))"

lemma day_time_from_parts: "nanos_from_day_time d t msg = from_parts nanos_per_day (Invalid_argument msg) d t"
  by (simp add: nanos_from_day_time_def from_parts_def Let_def)

lemma unix_from_parts: "nanos_from_unix_parts s n = from_parts nanos_per_second arithmetic_overflow s n"
  by (simp add: nanos_from_unix_parts_def from_parts_def Let_def)

lemma smod_nonneg: "0 \<le> a \<Longrightarrow> 0 < b \<Longrightarrow> a smod b = a mod b" for a b :: int
  by (simp add: smod_mod_positive)

lemma floor_of_trunc:
  fixes a u :: int
  assumes "0 < u"
  shows "(if a smod u < 0 then (a sdiv u - 1, a smod u + u) else (a sdiv u, a smod u)) = (a div u, a mod u)"
proof -
  have split: "a sdiv u * u + a smod u = a" by (rule sdiv_mult_smod_eq)
  have r: "- u < a smod u" "a smod u < u" using smod_int_compares assms smod_int_range [of u a] by auto
  show ?thesis
  proof (cases "a smod u < 0")
    case True
    have eq: "a = u * (a sdiv u - 1) + (a smod u + u)" using split by (simp add: algebra_simps)
    from True r int_div_pos_eq [OF eq] int_mod_pos_eq [OF eq] show ?thesis by simp
  next
    case False
    have eq: "a = u * (a sdiv u) + a smod u" using split by (simp add: algebra_simps)
    from False r show ?thesis using int_div_pos_eq [OF eq] int_mod_pos_eq [OF eq] by simp
  qed
qed

lemma from_parts_exact:
  assumes u: "0 < u" "fits64 u" and t: "0 \<le> t" "t < u" and d: "fits64 d"
  shows "from_parts u e d t = (if fits64 (d * u + t) then Inr (d * u + t) else Inl e)"
proof -
  have max: "i64_max sdiv u = i64_max div u" "i64_max smod u = i64_max mod u"
    using u i64_signs by (simp_all add: sdiv_nonneg smod_nonneg)
  have "fits64 (i64_min smod u)" "fits64 (i64_min smod u + u)" if "i64_min smod u < 0"
    using that smod_int_compares(3) [of i64_min u] u i64_signs by (auto simp: fits64_def)
  then have min: "(if i64_min smod u < 0 then bind_result (checked_add (i64_min smod u) u) (\<lambda>t. Inr (i64_min sdiv u - 1, t))
        else Inr (i64_min sdiv u, i64_min smod u)) = Inr (i64_min div u, i64_min mod u)"
    using floor_of_trunc [OF u(1), of i64_min] u by (auto simp: checked_add_exact exact_fits split: if_splits)
  have hi: "d > i64_max div u \<or> (d = i64_max div u \<and> t > i64_max mod u) \<longleftrightarrow> d * u + t > i64_max"
    using lex_less [of "i64_max mod u" u t "i64_max div u" d] t u by auto
  have lo: "d < i64_min div u \<or> (d = i64_min div u \<and> t < i64_min mod u) \<longleftrightarrow> d * u + t < i64_min"
    using lex_less [of t u "i64_min mod u" d "i64_min div u"] t u by auto
  have eq: "i64_min = i64_min div u * u + i64_min mod u" by simp
  have m: "0 \<le> i64_min mod u" "i64_min mod u < u" using u by simp_all
  show ?thesis
  proof (cases "fits64 (d * u + t)")
    case False
    then have "d * u + t > i64_max \<or> d * u + t < i64_min" by (auto simp: fits64_def)
    then show ?thesis using False hi lo by (auto simp: from_parts_def max min)
  next
    case True
    then have "\<not> (d * u + t > i64_max)" "\<not> (d * u + t < i64_min)" by (auto simp: fits64_def)
    then have body: "from_parts u e d t =
        (if d = i64_min div u then bind_result (checked_subtract t (i64_min mod u)) (checked_add i64_min)
         else bind_result (checked_multiply d u) (\<lambda>n. checked_add n t))"
      unfolding from_parts_def min max bind_result_simps prod.case
      using hi lo by (subst if_not_P) (blast, rule refl)
    have ft: "fits64 x" if "0 \<le> x" "x < u" for x
      using that u(2) i64_signs by (auto simp: fits64_def)
    note ft = ft [OF t] ft [OF m]
    show ?thesis
    proof (cases "d = i64_min div u")
      case True': True
      have "- u < t - i64_min mod u" using t m by linarith
      moreover have "t - i64_min mod u < u" using t m by linarith
      ultimately have s: "fits64 (t - i64_min mod u)" using u(2) i64_signs by (auto simp: fits64_def)
      have sum: "i64_min + (t - i64_min mod u) = d * u + t"
        by (simp add: True' minus_mod_eq_div_mult [symmetric])
      have "fits64 i64_min" using i64_signs by (simp add: fits64_def)
      with body True' ft s have "from_parts u e d t = exact (i64_min + (t - i64_min mod u))"
        by (simp add: checked_exact exact_fits)
      also have "\<dots> = exact (d * u + t)" by (simp only: sum)
      finally show ?thesis using True by (simp add: exact_fits)
    next
      case False
      with lo True have "i64_min div u < d" by (auto simp: fits64_def)
      then have "(i64_min div u + 1) * u \<le> d * u" using u by (intro mult_right_mono) auto
      moreover have "(i64_min div u + 1) * u = i64_min - i64_min mod u + u"
        by (simp add: distrib_right minus_mod_eq_div_mult)
      ultimately have "i64_min \<le> d * u" using m(2) by linarith
      with True t have "fits64 (d * u)" by (auto simp: fits64_def)
      with body False True ft d u show ?thesis by (simp add: checked_exact exact_fits)
    qed
  qed
qed

lemma unit_fits: "0 < nanos_per_day" "fits64 nanos_per_day" "0 < nanos_per_second" "fits64 nanos_per_second"
  by (simp_all add: unit_defs fits64_def i64_min_def i64_max_def)

lemma day_time_exact:
  "fits64 d \<Longrightarrow> 0 \<le> t \<Longrightarrow> t < nanos_per_day \<Longrightarrow> nanos_from_day_time d t msg =
     (if fits64 (d * nanos_per_day + t) then Inr (d * nanos_per_day + t) else Inl (Invalid_argument msg))"
  unfolding day_time_from_parts by (rule from_parts_exact [OF unit_fits(1,2)])

lemma unix_parts_exact:
  "fits64 s \<Longrightarrow> 0 \<le> n \<Longrightarrow> n < nanos_per_second \<Longrightarrow> nanos_from_unix_parts s n = exact (s * nanos_per_second + n)"
  unfolding unix_from_parts exact_def by (rule from_parts_exact [OF unit_fits(3,4)])

section \<open>Floors and remainders\<close>

lemma wrap64_id [simp]: "fits64 x \<Longrightarrow> wrap64 x = x"
  by (simp add: wrap64_def fits64_def i64_min_def i64_max_def)

lemma date_floor_eq: "0 < u \<Longrightarrow> date_floor u v = v div u"
proof -
  assume u: "0 < u"
  have "v sdiv u * u + v smod u = v" by (rule sdiv_mult_smod_eq)
  then have "v sdiv u * u > v \<longleftrightarrow> v smod u < 0" by linarith
  then show ?thesis using floor_of_trunc [OF u, of v] by (auto simp: date_floor_def Let_def split: if_splits)
qed

lemma wrap64_diff: "wrap64 (a - wrap64 b) = wrap64 (a - b)"
proof -
  have "(a - wrap64 b + 2 ^ 63) mod 2 ^ 64 = ((a + 2 ^ 63 + 2 ^ 63) - (b + 2 ^ 63) mod 2 ^ 64) mod 2 ^ 64"
    by (simp add: wrap64_def algebra_simps)
  also have "\<dots> = ((a + 2 ^ 63 + 2 ^ 63) - (b + 2 ^ 63)) mod 2 ^ 64" by (simp only: mod_diff_right_eq)
  also have "(a + 2 ^ 63 + 2 ^ 63) - (b + 2 ^ 63) = a - b + 2 ^ 63" by simp
  finally show ?thesis by (simp only: wrap64_def [of "a - wrap64 b"] wrap64_def [of "a - b"])
qed

lemma remainder_eq:
  assumes "0 < u" "fits64 u" shows "remainder u v = v mod u"
proof -
  have "0 \<le> v mod u" "v mod u < u" using assms(1) by simp_all
  with assms(2) i64_signs have "fits64 (v mod u)" unfolding fits64_def by linarith
  then show ?thesis
    by (simp add: remainder_def date_floor_eq [OF assms(1)] wrap64_diff minus_div_mult_eq_mod)
qed

lemma fits64_div:
  assumes "fits64 v" "0 < u" shows "fits64 (v div u)"
proof -
  have lo: "v div u * u \<le> v" and hi: "v < (v div u + 1) * u"
    using div_less_iff [OF assms(2), of v "v div u"] div_less_iff [OF assms(2), of v "v div u + 1"] by auto
  show ?thesis
  proof (cases "0 \<le> v div u")
    case True
    then have "v div u * 1 \<le> v div u * u" using assms(2) by (intro mult_left_mono) auto
    with lo True assms(1) i64_signs show ?thesis unfolding fits64_def by linarith
  next
    case False
    then have "(v div u + 1) * u \<le> (v div u + 1) * 1" using assms(2) by (intro mult_left_mono_neg) auto
    with hi have "v < (v div u + 1) * 1" by (rule less_le_trans)
    then have "v \<le> v div u" by simp
    with False assms(1) i64_signs show ?thesis by (auto simp: fits64_def)
  qed
qed

section \<open>Civil fields\<close>

text \<open>A date in the range of the library and a time of day, and the nanoseconds they stand for.\<close>

definition fields_date :: "civil_fields \<Rightarrow> ymd" where
  "fields_date f = \<lparr>ymd_year = cf_year f, ymd_month = cf_month f, ymd_day = cf_day f\<rparr>"

definition valid_time :: "civil_fields \<Rightarrow> bool" where
  "valid_time f \<longleftrightarrow> 0 \<le> cf_hour f \<and> cf_hour f \<le> 23 \<and> 0 \<le> cf_minute f \<and> cf_minute f \<le> 59
     \<and> 0 \<le> cf_second f \<and> cf_second f \<le> 59 \<and> 0 \<le> cf_nanosecond f \<and> cf_nanosecond f < nanos_per_second"

definition valid_fields :: "civil_fields \<Rightarrow> bool" where
  "valid_fields f \<longleftrightarrow> ymd_bounded (fields_date f) \<and> valid_time f"

definition day_nanos :: "civil_fields \<Rightarrow> int" where
  "day_nanos f = (cf_hour f * 3600 + cf_minute f * 60 + cf_second f) * nanos_per_second + cf_nanosecond f"

definition civil_count :: "civil_fields \<Rightarrow> int" where
  "civil_count f = to_days (fields_date f) * nanos_per_day + day_nanos f"

lemma day_nanos_bounds: "valid_time f \<Longrightarrow> 0 \<le> day_nanos f \<and> day_nanos f < nanos_per_day"
  by (auto simp: valid_time_def day_nanos_def unit_defs)

lemma day_nanos_split:
  assumes "valid_time f"
  shows "cf_hour f = day_nanos f div 3600000000000" "cf_hour f * 60 + cf_minute f = day_nanos f div 60000000000"
    "(cf_hour f * 60 + cf_minute f) * 60 + cf_second f = day_nanos f div 1000000000"
    "cf_nanosecond f = day_nanos f mod 1000000000"
proof -
  note b = assms [unfolded valid_time_def nanos_per_second_def]
  have "day_nanos f = 3600000000000 * cf_hour f + (cf_minute f * 60000000000 + cf_second f * 1000000000 + cf_nanosecond f)"
    by (simp add: day_nanos_def nanos_per_second_def)
  from int_div_pos_eq [OF this] b show "cf_hour f = day_nanos f div 3600000000000" by simp
  have "day_nanos f = 60000000000 * (cf_hour f * 60 + cf_minute f) + (cf_second f * 1000000000 + cf_nanosecond f)"
    by (simp add: day_nanos_def nanos_per_second_def)
  from int_div_pos_eq [OF this] b show "cf_hour f * 60 + cf_minute f = day_nanos f div 60000000000" by simp
  have eq: "day_nanos f = 1000000000 * ((cf_hour f * 60 + cf_minute f) * 60 + cf_second f) + cf_nanosecond f"
    by (simp add: day_nanos_def nanos_per_second_def)
  from int_div_pos_eq [OF eq] int_mod_pos_eq [OF eq] b
  show "(cf_hour f * 60 + cf_minute f) * 60 + cf_second f = day_nanos f div 1000000000"
    and "cf_nanosecond f = day_nanos f mod 1000000000" by simp_all
qed

lemma day_nanos_inject:
  assumes "valid_time f" "valid_time g" "day_nanos f = day_nanos g"
  shows "cf_hour f = cf_hour g \<and> cf_minute f = cf_minute g \<and> cf_second f = cf_second g \<and> cf_nanosecond f = cf_nanosecond g"
  using day_nanos_split [OF assms(1)] day_nanos_split [OF assms(2)] unfolding assms(3) by simp

lemma small_fits: "\<bar>x\<bar> \<le> 1000000000000000 \<Longrightarrow> fits64 x"
  by (simp add: fits64_def i64_min_def i64_max_def abs_le_iff)

lemma time_of_day_eq:
  assumes "valid_time f"
  shows "time_of_day (cf_hour f) (cf_minute f) (cf_second f) (cf_nanosecond f) = Inr (day_nanos f)"
proof -
  let ?h = "cf_hour f" and ?m = "cf_minute f" and ?s = "cf_second f" and ?n = "cf_nanosecond f"
  have b: "0 \<le> ?h" "?h \<le> 23" "0 \<le> ?m" "?m \<le> 59" "0 \<le> ?s" "?s \<le> 59" "0 \<le> ?n" "?n < 1000000000"
    using assms by (simp_all add: valid_time_def nanos_per_second_def)
  have "fits64 ?h" "fits64 ?m" "fits64 ?s" "fits64 ?n" using b by (auto intro!: small_fits)
  moreover have "fits64 (?h * 3600000000000)" "fits64 (?m * 60000000000)" "fits64 (?s * 1000000000)"
      "fits64 (?h * 3600000000000 + ?m * 60000000000)" "fits64 (?s * 1000000000 + ?n)"
      "fits64 (?h * 3600000000000 + ?m * 60000000000 + (?s * 1000000000 + ?n))"
      "fits64 3600000000000" "fits64 60000000000" "fits64 1000000000"
    using b by (auto intro!: small_fits)
  ultimately show ?thesis
    by (simp add: time_of_day_def nanos_per_second_def checked_exact exact_fits day_nanos_def distrib_right algebra_simps)
qed

lemma validate_time_eq:
  "validate_time_fields (cf_hour f) (cf_minute f) (cf_second f) (cf_nanosecond f)
     = (if valid_time f then Inr () else Inl (Invalid_argument ''invalid temporal time fields''))"
  by (auto simp: validate_time_fields_def valid_time_def)

lemma validate_date_eq:
  assumes "0 \<le> cf_month f" "cf_month f < 256" "0 \<le> cf_day f" "cf_day f < 256"
  shows "validate_date_fields (cf_year f) (cf_month f) (cf_day f)
     = (if ymd_bounded (fields_date f) then Inr (fields_date f) else Inl (Invalid_argument ''invalid temporal date fields''))"
  using assms by (auto simp: validate_date_fields_def ymd_bounded_def fields_date_def Let_def min_year_def max_year_def)

lemma valid_date_range:
  assumes "ymd_bounded x"
  shows "1 \<le> ymd_month x \<and> ymd_month x \<le> 12 \<and> 1 \<le> ymd_day x \<and> ymd_day x \<le> 31"
  using assms last_day_bounds(2) [of "ymd_year x" "ymd_month x"]
  by (auto simp: ymd_bounded_def ymd_ok_def month_ok_def split: if_splits)

lemma nanos_from_valid_fields:
  assumes "valid_fields f"
  shows "nanos_from_fields (cf_year f) (cf_month f) (cf_day f) (cf_hour f) (cf_minute f) (cf_second f) (cf_nanosecond f)
    = Inr \<lparr>civil_days = to_days (fields_date f), civil_time = day_nanos f\<rparr>"
proof -
  have v: "valid_time f" "ymd_bounded (fields_date f)" using assms by (simp_all add: valid_fields_def)
  from valid_date_range [OF v(2)] have "0 \<le> cf_month f" "cf_month f < 256" "0 \<le> cf_day f" "cf_day f < 256"
    by (simp_all add: fields_date_def)
  with v show ?thesis
    by (simp add: nanos_from_fields_def validate_date_eq validate_time_eq time_of_day_eq)
qed

text \<open>Days fit as well: no valid date is further than 13 million days away.\<close>

lemma to_days_bounds:
  assumes "ymd_bounded x" shows "\<bar>to_days x\<bar> \<le> 13000000"
proof -
  have "ymd_ok x" "- 32767 \<le> ymd_year x" "ymd_year x \<le> 32767"
    using assms by (simp_all add: ymd_bounded_def min_year_def max_year_def)
  moreover from this have "0 \<le> march_doy x" "march_doy x < 366"
    using march_doy_bounds [of x] by (auto simp: year_length_def split: if_splits)
  moreover have "- 32768 \<le> march_year x" "march_year x \<le> 32767"
    using calculation by (auto simp: march_year_def)
  ultimately show ?thesis unfolding to_days_closed abs_le_iff by auto
qed

lemma local_from_valid_fields:
  assumes "valid_fields f"
  shows "local_from_fields (cf_year f) (cf_month f) (cf_day f) (cf_hour f) (cf_minute f) (cf_second f) (cf_nanosecond f)
    = (if fits64 (civil_count f) then Inr (civil_count f)
       else Inl (Invalid_argument ''temporal local date-time outside nanosecond range''))"
proof -
  have v: "valid_time f" "ymd_bounded (fields_date f)" using assms by (simp_all add: valid_fields_def)
  have "fits64 (to_days (fields_date f))" using to_days_bounds [OF v(2)] by (intro small_fits) simp
  with day_nanos_bounds [OF v(1)] show ?thesis
    by (simp add: local_from_fields_def nanos_from_valid_fields [OF assms] day_time_exact civil_count_def)
qed

text \<open>The fields of a count, and back.\<close>

lemma fields_from_local_eq:
  assumes "fits64 v"
  shows "fields_date (fields_from_local v) = from_days (v div nanos_per_day)"
    and "day_nanos (fields_from_local v) = v mod nanos_per_day"
    and "valid_fields (fields_from_local v)"
proof -
  define x where "x = from_days (v div nanos_per_day)"
  define d where "d = v mod nanos_per_day"
  have d: "0 \<le> d" "d < 86400000000000" by (simp_all add: d_def unit_defs)
  have "date_floor nanos_per_day v = v div nanos_per_day" "\<bar>remainder nanos_per_day v\<bar> = d"
    using unit_fits(1,2) d by (simp_all add: date_floor_eq remainder_eq d_def)
  note fields = fields_from_local_def [of v, unfolded this Let_def, folded x_def]
  have units: "3600 * nanos_per_second = 3600000000000" "60 * nanos_per_second = 60000000000"
    by (simp_all add: nanos_per_second_def)
  define h m s where "h = d div 3600000000000" and "m = d div 60000000000 - h * 60" and
    "s = (d - h * 3600000000000 - m * 60000000000) div 1000000000"
  have h: "h * 3600000000000 \<le> d" "d < h * 3600000000000 + 3600000000000" "0 \<le> h" "h \<le> 23"
    using d unfolding h_def by linarith+
  have "h * 60 + m = d div 60000000000" by (simp add: m_def)
  then have m': "(h * 60 + m) * 60000000000 \<le> d" "d < (h * 60 + m) * 60000000000 + 60000000000" by simp_all
  then have m: "0 \<le> m" "m \<le> 59" using h by - (simp add: distrib_right)+
  have s': "s * 1000000000 \<le> d - h * 3600000000000 - m * 60000000000"
      "d - h * 3600000000000 - m * 60000000000 < s * 1000000000 + 1000000000"
    unfolding s_def by linarith+
  then have s: "0 \<le> s" "s \<le> 59" using m' by - (simp add: distrib_right)+
  have rest: "0 \<le> d - h * 3600000000000 - m * 60000000000" using m' by (simp add: distrib_right)
  have f: "fields_from_local v = \<lparr>cf_year = ymd_year x, cf_month = ymd_month x, cf_day = ymd_day x, cf_hour = h,
      cf_minute = m, cf_second = s, cf_nanosecond = d - h * 3600000000000 - m * 60000000000 - s * 1000000000\<rparr>"
    unfolding fields units using d rest by (simp add: sdiv_nonneg h_def m_def s_def nanos_per_second_def)
  show "fields_date (fields_from_local v) = from_days (v div nanos_per_day)"
    by (simp add: f fields_date_def x_def)
  show "day_nanos (fields_from_local v) = v mod nanos_per_day"
    by (simp add: f day_nanos_def nanos_per_second_def d_def [symmetric])
  have "\<bar>v div nanos_per_day\<bar> \<le> 10000000"
    using assms by (auto simp: unit_defs fits64_def i64_min_def i64_max_def abs_le_iff)
  then have "ymd_bounded x" unfolding x_def by (rule to_days_from_days(2))
  moreover have "fields_date (fields_from_local v) = x" by (simp add: f fields_date_def)
  moreover have "valid_time (fields_from_local v)"
    using h m s s' by (simp add: f valid_time_def nanos_per_second_def)
  ultimately show "valid_fields (fields_from_local v)" by (simp add: valid_fields_def)
qed

lemma days_small: "fits64 v \<Longrightarrow> \<bar>v div nanos_per_day\<bar> \<le> 106752"
  by (auto simp: unit_defs fits64_def i64_min_def i64_max_def abs_le_iff)

lemma civil_count_fields: "fits64 v \<Longrightarrow> civil_count (fields_from_local v) = v"
  using days_small [of v] by (simp add: civil_count_def fields_from_local_eq to_days_from_days)

lemma fields_civil_count:
  assumes "valid_fields f" "fits64 (civil_count f)"
  shows "fields_from_local (civil_count f) = f"
proof -
  have v: "valid_time f" "ymd_bounded (fields_date f)" using assms by (simp_all add: valid_fields_def)
  let ?g = "fields_from_local (civil_count f)"
  have day: "civil_count f div nanos_per_day = to_days (fields_date f)" "civil_count f mod nanos_per_day = day_nanos f"
    using day_nanos_bounds [OF v(1)] by (simp_all add: civil_count_def)
  have "fields_date ?g = fields_date f"
    using fields_from_local_eq(1) [OF assms(2)] day from_days_to_days [OF v(2)] by simp
  moreover have "day_nanos ?g = day_nanos f" "valid_time ?g"
    using fields_from_local_eq(2,3) [OF assms(2)] day by (simp_all add: valid_fields_def)
  ultimately have "cf_year ?g = cf_year f" "cf_month ?g = cf_month f" "cf_day ?g = cf_day f"
      "cf_hour ?g = cf_hour f \<and> cf_minute ?g = cf_minute f \<and> cf_second ?g = cf_second f \<and> cf_nanosecond ?g = cf_nanosecond f"
    using v(1) day_nanos_inject [of ?g f] by (simp_all add: fields_date_def)
  then show ?thesis by simp
qed

end
