(* ===== verification/Temporal_Text.thy ===== *)
theory Temporal_Text
  imports Temporal_Arithmetic
begin

text \<open>
  The text form of \<open>temporal.cpp\<close>: padded numbers, fractions without trailing zeros and offsets are read back
  by the parsers as what was printed.
\<close>

section \<open>Decimal numbers\<close>

lemma digit_char:
  assumes "d < 10"
  shows "is_digit (char_of (48 + d))" and "digit_value (char_of (48 + d)) = int d"
proof -
  have n: "(of_char (char_of (48 + d) :: char) :: nat) = 48 + d" using assms by simp
  then show "is_digit (char_of (48 + d))" using assms by (simp add: is_digit_def)
  have "(of_char (char_of (48 + d) :: char) :: int) = int (of_char (char_of (48 + d) :: char))"
    by (rule of_nat_of_char [symmetric])
  then show "digit_value (char_of (48 + d)) = int d" unfolding digit_value_def n by simp
qed

lemma is_digit_zero [simp]: "is_digit CHR ''0''" "digit_value CHR ''0'' = 0"
  by (simp_all add: is_digit_def digit_value_def)

lemma parse_int_snoc: "parse_int (s @ [c]) = 10 * parse_int s + digit_value c"
  by (simp add: parse_int_def)

lemma parse_int_nil [simp]: "parse_int [] = 0"
  by (simp add: parse_int_def)

lemma parse_int_zeros: "parse_int (replicate k CHR ''0'' @ s) = parse_int s"
  by (induction k) (simp_all add: parse_int_def)

lemma digits_of_nat_digits: "list_all is_digit (digits_of_nat n) \<and> parse_int (digits_of_nat n) = int n"
proof (induction n rule: digits_of_nat.induct)
  case (1 n)
  show ?case
  proof (cases "n < 10")
    case True
    then show ?thesis using digit_char [of n] parse_int_snoc [of "[]"] by (simp add: digits_of_nat.simps [of n])
  next
    case False
    then have "digits_of_nat n = digits_of_nat (n div 10) @ [char_of (48 + n mod 10)]"
      by (simp add: digits_of_nat.simps [of n])
    moreover have "list_all is_digit (digits_of_nat (n div 10))" "parse_int (digits_of_nat (n div 10)) = int (n div 10)"
      using 1 False by simp_all
    moreover have "is_digit (char_of (48 + n mod 10))" "digit_value (char_of (48 + n mod 10)) = int (n mod 10)"
      by (rule digit_char, simp)+
    ultimately show ?thesis by (simp add: parse_int_snoc) (simp add: zdiv_int zmod_int)
  qed
qed

lemma digits_of_nat_length: "n < 10 ^ Suc k \<Longrightarrow> length (digits_of_nat n) \<le> Suc k"
proof (induction k arbitrary: n)
  case 0
  then show ?case by (simp add: digits_of_nat.simps [of n])
next
  case (Suc k)
  show ?case
  proof (cases "n < 10")
    case False
    have "length (digits_of_nat (n div 10)) \<le> Suc k" using Suc.prems by (intro Suc.IH) auto
    with False show ?thesis by (simp add: digits_of_nat.simps [of n])
  qed (simp add: digits_of_nat.simps [of n])
qed

text \<open>What a printed field of width \<open>n\<close> offers the parsers.\<close>

definition field_text :: "nat \<Rightarrow> int \<Rightarrow> string \<Rightarrow> bool" where
  "field_text n i s \<longleftrightarrow> length s = n \<and> list_all is_digit s \<and> parse_int s = i"

lemma setw0_field:
  assumes "0 \<le> i" "i < 10 ^ n" "0 < n"
  shows "field_text n i (setw0 n i)"
proof -
  obtain k where n: "n = Suc k" using assms(3) gr0_conv_Suc by auto
  have "nat i < 10 ^ Suc k" using assms n by (simp add: nat_less_iff)
  then have "length (digits_of_nat (nat i)) \<le> n" using digits_of_nat_length n by simp
  then show ?thesis
    using assms digits_of_nat_digits [of "nat i"]
    by (auto simp: field_text_def setw0_def to_string_def Let_def parse_int_zeros list_all_iff)
qed

lemma digits_field: "field_text n i s \<Longrightarrow> digits n (s @ r) = Some (s, r)"
proof (induction n arbitrary: s i)
  case (Suc n)
  then obtain c t where s: "s = c # t" by (cases s) (auto simp: field_text_def)
  with Suc.prems have "field_text n (parse_int t) t" "is_digit c" by (simp_all add: field_text_def)
  with Suc.IH s show ?case by simp
qed (simp add: field_text_def)

section \<open>Fractions\<close>

lemma strip_zeros:
  "\<exists>k. xs = rev (dropWhile (\<lambda>c. c = CHR ''0'') (rev xs)) @ replicate k CHR ''0''"
proof -
  let ?P = "\<lambda>c. c = CHR ''0''"
  have "takeWhile ?P (rev xs) = replicate (length (takeWhile ?P (rev xs))) CHR ''0''"
    by (rule replicate_length_same [symmetric]) (auto dest: set_takeWhileD)
  then have "rev xs = replicate (length (takeWhile ?P (rev xs))) CHR ''0'' @ dropWhile ?P (rev xs)"
    by (metis takeWhile_dropWhile_id)
  then have "rev (rev xs) = rev (dropWhile ?P (rev xs)) @ replicate (length (takeWhile ?P (rev xs))) CHR ''0''"
    by (metis rev_append rev_replicate)
  then show ?thesis by auto
qed

lemma rev_dropWhile_Cons: "\<not> P a \<Longrightarrow> rev (dropWhile P (rev (a # xs))) = a # rev (dropWhile P (rev xs))"
  by (simp add: dropWhile_append)

definition fraction_digits :: "int \<Rightarrow> string" where
  "fraction_digits n = (if n = 0 then [] else rev (dropWhile (\<lambda>c. c = CHR ''0'') (rev (setw0 9 n))))"

lemma format_fraction_eq: "format_fraction n = (if n = 0 then [] else CHR ''.'' # fraction_digits n)"
  unfolding format_fraction_def fraction_digits_def by (simp add: dropWhile_append)

lemma fraction_digits:
  assumes "0 \<le> n" "n < nanos_per_second"
  shows "parse_fraction (fraction_digits n) = Inr n" "length (fraction_digits n) \<le> 9"
    "list_all is_digit (fraction_digits n)" "fraction_digits n = [] \<longleftrightarrow> n = 0"
proof -
  have f: "field_text 9 n (setw0 9 n)" using assms by (intro setw0_field) (simp_all add: nanos_per_second_def)
  obtain k where k: "setw0 9 n = rev (dropWhile (\<lambda>c. c = CHR ''0'') (rev (setw0 9 n))) @ replicate k CHR ''0''"
    using strip_zeros by blast
  have "parse_fraction (fraction_digits n) = Inr n \<and> length (fraction_digits n) \<le> 9
    \<and> list_all is_digit (fraction_digits n) \<and> (fraction_digits n = [] \<longleftrightarrow> n = 0)"
  proof (cases "n = 0")
    case False
    define w where "w = fraction_digits n"
    have w: "setw0 9 n = w @ replicate k CHR ''0''" using k False by (simp add: w_def fraction_digits_def)
    have len: "length w + k = 9" using f w by (simp add: field_text_def)
    have ne: "w \<noteq> []" using f w False parse_int_zeros [of k "[]"] by (auto simp: field_text_def)
    have "9 - length w = k" using len by simp
    moreover have "parse_int (setw0 9 n) = n" "list_all is_digit w" using f w by (simp_all add: field_text_def)
    ultimately show ?thesis using ne w len False by (simp add: w_def [symmetric] parse_fraction_def)
  qed (simp add: fraction_digits_def parse_fraction_def)
  then show "parse_fraction (fraction_digits n) = Inr n" "length (fraction_digits n) \<le> 9"
    "list_all is_digit (fraction_digits n)" "fraction_digits n = [] \<longleftrightarrow> n = 0" by simp_all
qed

text \<open>What follows a fraction is neither a digit nor a point.\<close>

definition after_fraction :: "string \<Rightarrow> bool" where
  "after_fraction r \<longleftrightarrow> (case r of [] \<Rightarrow> True | c # _ \<Rightarrow> \<not> is_digit c \<and> c \<noteq> CHR ''.'')"

lemma match_fraction_text:
  assumes "0 \<le> n" "n < nanos_per_second" "after_fraction r"
  shows "match_fraction (format_fraction n @ r) = (fraction_digits n, r)"
proof (cases "n = 0")
  case True
  have "literal CHR ''.'' r = None" using assms(3) by (cases r) (auto simp: after_fraction_def)
  with True show ?thesis by (simp add: format_fraction_eq match_fraction_def fraction_digits_def)
next
  case False
  note w = fraction_digits [OF assms(1,2)]
  have "takeWhile is_digit (fraction_digits n @ r) = fraction_digits n @ takeWhile is_digit r"
    using w(3) by (simp add: list_all_iff takeWhile_append2)
  moreover have "takeWhile is_digit r = []" using assms(3) by (cases r) (simp_all add: after_fraction_def)
  ultimately show ?thesis
    using False w by (simp add: format_fraction_eq match_fraction_def Let_def)
qed

section \<open>Date and time\<close>

definition groups_of :: "civil_fields \<Rightarrow> date_time_groups" where
  "groups_of f = \<lparr>g_year = setw0 4 (cf_year f), g_month = setw0 2 (cf_month f), g_day = setw0 2 (cf_day f),
     g_hour = setw0 2 (cf_hour f), g_minute = setw0 2 (cf_minute f), g_second = setw0 2 (cf_second f),
     g_fraction = fraction_digits (cf_nanosecond f)\<rparr>"

definition printable :: "civil_fields \<Rightarrow> bool" where
  "printable f \<longleftrightarrow> valid_fields f \<and> 0 \<le> cf_year f \<and> cf_year f \<le> 9999"

lemma printable_fields:
  assumes "printable f"
  shows "field_text 4 (cf_year f) (setw0 4 (cf_year f))" "field_text 2 (cf_month f) (setw0 2 (cf_month f))"
    "field_text 2 (cf_day f) (setw0 2 (cf_day f))" "field_text 2 (cf_hour f) (setw0 2 (cf_hour f))"
    "field_text 2 (cf_minute f) (setw0 2 (cf_minute f))" "field_text 2 (cf_second f) (setw0 2 (cf_second f))"
  using assms valid_date_range [of "fields_date f"]
  by (intro setw0_field; simp add: printable_def valid_fields_def valid_time_def fields_date_def)+

lemma match_date_time_text:
  assumes "printable f" "after_fraction r"
  shows "match_date_time (format_civil f @ r) = Some (groups_of f, r)"
proof -
  have "0 \<le> cf_nanosecond f" "cf_nanosecond f < nanos_per_second"
    using assms(1) by (simp_all add: printable_def valid_fields_def valid_time_def)
  from match_fraction_text [OF this assms(2)] show ?thesis
    using printable_fields [OF assms(1), THEN digits_field]
    by (simp add: match_date_time_def format_civil_def groups_of_def)
qed

lemma civil_of_groups_text:
  assumes "printable f"
  shows "civil_of_groups (groups_of f) = Inr \<lparr>civil_days = to_days (fields_date f), civil_time = day_nanos f\<rparr>"
proof -
  have v: "valid_fields f" "valid_time f" using assms by (simp_all add: printable_def valid_fields_def)
  have n: "0 \<le> cf_nanosecond f" "cf_nanosecond f < nanos_per_second" "cf_second f \<noteq> 60"
    using v(2) by (simp_all add: valid_time_def)
  show ?thesis
    using printable_fields [OF assms] fraction_digits(1) [OF n(1,2)] n(3) nanos_from_valid_fields [OF v(1)]
    by (simp add: civil_of_groups_def groups_of_def field_text_def)
qed

section \<open>The years of a 64-bit count\<close>

lemma year_bounds:
  assumes "ymd_bounded x" "\<bar>to_days x\<bar> \<le> 200000"
  shows "1000 \<le> ymd_year x \<and> ymd_year x \<le> 9999"
proof -
  have "ymd_ok x" using assms by (simp add: ymd_bounded_def)
  then have d: "0 \<le> march_doy x" "march_doy x < 366"
    using march_doy_bounds [of x] by (auto simp: year_length_def split: if_splits)
  have y: "ymd_year x - 1 \<le> march_year x" "march_year x \<le> ymd_year x" by (simp_all add: march_year_def)
  define n where "n = march_year x"
  have "- 200000 \<le> 365 * n + n div 4 - n div 100 + n div 400 + march_doy x - 719468"
    and "365 * n + n div 4 - n div 100 + n div 400 + march_doy x - 719468 \<le> 200000"
    using assms(2) unfolding to_days_closed n_def abs_le_iff by linarith+
  moreover have "4 * (n div 4) \<le> n" "n < 4 * (n div 4) + 4" "100 * (n div 100) \<le> n" "n < 100 * (n div 100) + 100"
      "400 * (n div 400) \<le> n" "n < 400 * (n div 400) + 400" by simp_all
  ultimately have "1001 \<le> n" "n \<le> 9998" using d by linarith+
  with y show ?thesis unfolding n_def by linarith
qed

lemma printable_count:
  assumes "fits64 v" shows "printable (fields_from_local v)"
proof -
  note f = fields_from_local_eq [OF assms]
  have "\<bar>v div nanos_per_day\<bar> \<le> 106752" by (rule days_small [OF assms])
  then have "ymd_bounded (fields_date (fields_from_local v))" "\<bar>to_days (fields_date (fields_from_local v))\<bar> \<le> 200000"
    by (simp_all add: f to_days_from_days)
  from year_bounds [OF this] f(3) show ?thesis by (simp add: printable_def fields_date_def)
qed

section \<open>Parsing what was printed\<close>

lemma plain_parse_text:
  assumes "printable f" "fits64 (civil_count f)"
  shows "plain_parse (format_civil f) = Inr (PlainDateTime (civil_count f))"
proof -
  have v: "valid_time f" "ymd_bounded (fields_date f)" using assms by (simp_all add: printable_def valid_fields_def)
  have "fits64 (to_days (fields_date f))" using to_days_bounds [OF v(2)] by (intro small_fits) simp
  moreover have "match_date_time (format_civil f) = Some (groups_of f, [])"
    using match_date_time_text [OF assms(1), of "[]"] by (simp add: after_fraction_def)
  ultimately show ?thesis
    using day_nanos_bounds [OF v(1)] civil_of_groups_text [OF assms(1)] assms(2)
    by (simp add: plain_parse_def match_plain_def day_time_exact) (simp add: civil_count_def)
qed

text \<open>A civil time and an offset of less than a day.\<close>

lemma sys_from_civil_exact:
  assumes "ymd_bounded x" "0 \<le> t" "t < nanos_per_day" "\<bar>off\<bar> < 86400"
  shows "checked_sys_from_civil_with_offset \<lparr>civil_days = to_days x, civil_time = t\<rparr> off =
    (let n = to_days x * nanos_per_day + t - off * nanos_per_second
     in if fits64 n then Inr n else Inl (Invalid_argument ''temporal instant outside nanosecond range''))"
proof -
  define a where "a = t - off * nanos_per_second"
  have day: "nanos_per_day = 86400000000000" "nanos_per_second = 1000000000" by (simp_all add: unit_defs)
  have a: "\<bar>a\<bar> < 2 * nanos_per_day" using assms(2-4) by (simp add: a_def day abs_less_iff)
  have "fits64 (off * nanos_per_second)" "fits64 off" "fits64 nanos_per_second" "fits64 t" "fits64 a"
    using assms(2-4) a by (simp_all add: small_fits day abs_le_iff abs_less_iff a_def)
  then have sub: "checked_multiply off nanos_per_second = Inr (off * nanos_per_second)"
      "checked_subtract t (off * nanos_per_second) = Inr a"
    by (simp_all add: checked_exact exact_fits a_def)
  have r: "- nanos_per_day < a smod nanos_per_day" "a smod nanos_per_day < nanos_per_day"
    using smod_int_range [of nanos_per_day a] by (auto simp: day)
  then have "fits64 (a smod nanos_per_day)" "fits64 (a smod nanos_per_day + nanos_per_day)"
    by (simp_all add: small_fits day abs_le_iff)
  then have floor: "(if a smod nanos_per_day < 0
        then bind_result (checked_add (a smod nanos_per_day) nanos_per_day) (\<lambda>t. Inr (a sdiv nanos_per_day - 1, t))
        else Inr (a sdiv nanos_per_day, a smod nanos_per_day)) = Inr (a div nanos_per_day, a mod nanos_per_day)"
    using floor_of_trunc [OF unit_fits(1), of a] unit_fits(2)
    by (auto simp: checked_add_exact exact_fits split: if_splits)
  have q: "\<bar>a div nanos_per_day\<bar> \<le> 3" using a by (auto simp: day abs_less_iff abs_le_iff)
  have d: "\<bar>to_days x\<bar> \<le> 13000000" using to_days_bounds [OF assms(1)] .
  have "fits64 (to_days x)" "fits64 (a div nanos_per_day)" "fits64 (to_days x + a div nanos_per_day)"
    using q d by (simp_all add: small_fits)
  moreover have "(to_days x + a div nanos_per_day) * nanos_per_day + a mod nanos_per_day
      = to_days x * nanos_per_day + t - off * nanos_per_second"
    by (simp add: distrib_right a_def)
  ultimately show ?thesis
    using sub floor unit_fits(1)
    by (simp add: checked_sys_from_civil_with_offset_def Let_def checked_add_exact exact_fits day_time_exact)
qed

definition offset_text :: "bool \<Rightarrow> int \<Rightarrow> int \<Rightarrow> string" where
  "offset_text west h m = (if west then CHR ''-'' else CHR ''+'') # setw0 2 h @ '':'' @ setw0 2 m"

definition offset_seconds :: "bool \<Rightarrow> int \<Rightarrow> int \<Rightarrow> int" where
  "offset_seconds west h m = (if west then - 1 else 1) * ((h * 60 + m) * 60)"

lemma match_offset_text:
  assumes "0 \<le> h" "h \<le> 23" "0 \<le> m" "m \<le> 59"
  shows "match_offset (offset_text west h m) = Some (Some (if west then CHR ''-'' else CHR ''+'', setw0 2 h, setw0 2 m), [])"
    "parse_int (setw0 2 h) = h" "parse_int (setw0 2 m) = m"
proof -
  have f: "field_text 2 h (setw0 2 h)" "field_text 2 m (setw0 2 m)" using assms by (auto intro!: setw0_field)
  then show "parse_int (setw0 2 h) = h" "parse_int (setw0 2 m) = m" by (simp_all add: field_text_def)
  from digits_field [OF f(1)] digits_field [OF f(2), of "[]"]
  show "match_offset (offset_text west h m) = Some (Some (if west then CHR ''-'' else CHR ''+'', setw0 2 h, setw0 2 m), [])"
    by (simp add: match_offset_def offset_text_def)
qed

lemma instant_parse_text:
  assumes "printable f" "0 \<le> h" "h \<le> 23" "0 \<le> m" "m \<le> 59"
    and "n = civil_count f - offset_seconds west h m * nanos_per_second"
  shows "instant_parse (format_civil f @ offset_text west h m) =
    (if fits64 n then Inr (Instant n) else Inl (Invalid_argument ''temporal instant outside nanosecond range''))"
proof -
  have v: "valid_time f" "ymd_bounded (fields_date f)" using assms(1) by (simp_all add: printable_def valid_fields_def)
  have "after_fraction (offset_text west h m)" by (simp add: after_fraction_def offset_text_def is_digit_def)
  note printed = match_date_time_text [OF assms(1) this] match_offset_text [OF assms(2-5)]
  have "\<bar>offset_seconds west h m\<bar> < 86400" using assms(2-5) by (simp add: offset_seconds_def)
  from sys_from_civil_exact [OF v(2) _ _ this] day_nanos_bounds [OF v(1)]
  have "checked_sys_from_civil_with_offset \<lparr>civil_days = to_days (fields_date f), civil_time = day_nanos f\<rparr> (offset_seconds west h m)
    = (if fits64 n then Inr n else Inl (Invalid_argument ''temporal instant outside nanosecond range''))"
    by (simp add: assms(6) civil_count_def)
  then show ?thesis
    using printed civil_of_groups_text [OF assms(1)] assms(3,5)
    by (cases west) (simp_all add: instant_parse_def match_instant_def seconds_of_offset_def offset_seconds_def)
qed

lemma instant_parse_utc:
  assumes "printable f" "fits64 (civil_count f)"
  shows "instant_parse (format_civil f @ ''Z'') = Inr (Instant (civil_count f))"
proof -
  have v: "valid_time f" "ymd_bounded (fields_date f)" using assms(1) by (simp_all add: printable_def valid_fields_def)
  have "after_fraction ''Z''" by (simp add: after_fraction_def is_digit_def)
  note printed = match_date_time_text [OF assms(1) this]
  from sys_from_civil_exact [OF v(2), of "day_nanos f" 0] day_nanos_bounds [OF v(1)] assms(2)
  have "checked_sys_from_civil_with_offset \<lparr>civil_days = to_days (fields_date f), civil_time = day_nanos f\<rparr> 0 = Inr (civil_count f)"
    by (simp add: civil_count_def)
  then show ?thesis
    using printed civil_of_groups_text [OF assms(1)] by (simp add: instant_parse_def match_instant_def seconds_of_offset_def match_offset_def)
qed

end
