(* ===== verification/Temporal_Properties.thy ===== *)
theory Temporal_Properties
  imports Temporal_Text
begin

text \<open>
  What \<open>temporal.cpp\<close> promises: exact checked arithmetic, values that stay in 64 bits, a calendar that counts
  days, fields and texts that read back as the value they were made from, calendar shifts, and local
  times resolved in a zone.
\<close>

section \<open>Arithmetic and calendar\<close>

text \<open>The checked operations are exact. On 64-bit operands each gives the mathematical result when it fits in
  64 bits, and otherwise throws the overflow error; none ever wraps around.\<close>

theorem checked_arithmetic:
  assumes "fits64 a" "fits64 b"
  shows "checked_add a b = (if fits64 (a + b) then Inr (a + b) else Inl arithmetic_overflow)
    \<and> checked_subtract a b = (if fits64 (a - b) then Inr (a - b) else Inl arithmetic_overflow)
    \<and> checked_multiply a b = (if fits64 (a * b) then Inr (a * b) else Inl arithmetic_overflow)"
  using checked_exact [OF assms] by (simp add: exact_def)

theorem checked_arithmetic_witness:
  "fits64 i64_min \<and> fits64 (- 1) \<and> checked_multiply i64_min (- 1) = Inl arithmetic_overflow
    \<and> checked_subtract i64_min (- 1) = Inr (i64_min + 1)"
proof -
  have f: "fits64 i64_min" "fits64 (- 1)" by (simp_all add: fits64_def i64_min_def i64_max_def)
  from checked_arithmetic [OF f] f show ?thesis by (simp add: fits64_def i64_min_def i64_max_def)
qed

text \<open>C17: the calendar counts days. The first of January 1970 is day 0; the day after a date, by the lengths of the
  Gregorian months and its leap years, has the next number and the next weekday; and the
  conversions between dates and numbers are inverse, over all dates of the library and all days of
  a 64-bit count.\<close>

theorem calendar_counts_days:
  assumes "ymd_bounded x" and "\<bar>z\<bar> \<le> 10000000"
  shows "to_days \<lparr>ymd_year = 1970, ymd_month = 1, ymd_day = 1\<rparr> = 0
    \<and> to_days (next_day x) = to_days x + 1
    \<and> iso_encoding (weekday_from_days (to_days (next_day x))) = iso_encoding (weekday_from_days (to_days x)) mod 7 + 1
    \<and> from_days (to_days x) = x
    \<and> to_days (from_days z) = z \<and> ymd_bounded (from_days z)"
proof -
  have succ: "to_days (next_day x) = to_days x + 1" using assms(1) by (simp add: ymd_bounded_def to_days_next)
  have "\<bar>to_days x\<bar> \<le> 13000000" by (rule to_days_bounds [OF assms(1)])
  then have "iso_encoding (weekday_from_days (to_days x + 1)) = (to_days x + 4) mod 7 + 1"
      "iso_encoding (weekday_from_days (to_days x)) = (to_days x + 3) mod 7 + 1"
    by (simp_all add: iso_weekday_eq abs_le_iff add.commute)
  moreover have "(to_days x + 4) mod 7 = ((to_days x + 3) mod 7 + 1) mod 7"
    by presburger
  moreover have "to_days \<lparr>ymd_year = 1970, ymd_month = 1, ymd_day = 1\<rparr> = 0" by code_simp
  ultimately show ?thesis
    using succ from_days_to_days [OF assms(1)] to_days_from_days [OF assms(2)] by simp
qed

theorem calendar_counts_days_witness:
  "let x = \<lparr>ymd_year = 2024, ymd_month = 2, ymd_day = 28\<rparr>
   in to_days (next_day x) = to_days x + 1 \<and> ymd_day (next_day x) = 29 \<and> from_days (to_days x) = x"
proof -
  let ?x = "\<lparr>ymd_year = 2024, ymd_month = 2, ymd_day = 28\<rparr>"
  have "ymd_bounded ?x" "ymd_day (next_day ?x) = 29" by code_simp+
  with calendar_counts_days [OF this(1), of 0] show ?thesis by (simp add: Let_def)
qed

section \<open>Fields and text\<close>

text \<open>A plain date-time and its fields determine each other. Making a date-time from the fields of one gives it
  back; and making one from valid fields gives a date-time with exactly those fields, or fails just
  when the moment lies outside the 64-bit nanoseconds.\<close>

theorem fields_round_trip:
  assumes "fits64 (plain_count p)" and "valid_fields f"
  shows "(let g = plain_fields p in plain_from_fields (cf_year g) (cf_month g) (cf_day g) (cf_hour g) (cf_minute g)
            (cf_second g) (cf_nanosecond g)) = Inr p
    \<and> (case plain_from_fields (cf_year f) (cf_month f) (cf_day f) (cf_hour f) (cf_minute f) (cf_second f) (cf_nanosecond f) of
         Inr q \<Rightarrow> plain_fields q = f \<and> fits64 (plain_count q)
       | Inl e \<Rightarrow> \<not> fits64 (civil_count f) \<and> e = Invalid_argument ''temporal local date-time outside nanosecond range'')"
  using local_from_valid_fields [OF assms(2)] fields_civil_count [OF assms(2)]
    local_from_valid_fields [OF fields_from_local_eq(3) [OF assms(1)]] civil_count_fields [OF assms(1)] assms(1)
  by (simp add: plain_from_fields_def plain_fields_def Let_def)

definition example_fields :: civil_fields where
  "example_fields = \<lparr>cf_year = 1969, cf_month = 12, cf_day = 31, cf_hour = 23, cf_minute = 59, cf_second = 59, cf_nanosecond = 5\<rparr>"

lemma example_fields_valid: "valid_fields example_fields" "civil_count example_fields = - 999999995"
  by code_simp+

theorem fields_round_trip_witness:
  "plain_from_fields 1969 12 31 23 59 59 5 = Inr (PlainDateTime (- 999999995))
    \<and> plain_fields (PlainDateTime (- 999999995)) = example_fields"
proof -
  have "fits64 (plain_count (PlainDateTime (- 999999995)))" by (simp add: fits64_def i64_min_def i64_max_def)
  from fields_round_trip [OF this example_fields_valid(1)]
    local_from_valid_fields [OF example_fields_valid(1)] fields_civil_count [OF example_fields_valid(1)] this
  show ?thesis
    unfolding example_fields_valid(2) by (simp add: plain_from_fields_def example_fields_def plain_fields_def)
qed

text \<open>C18: what is printed is read back. The text of every 64-bit instant or plain date-time parses to it; and
  an instant written as a civil time with an offset of up to a day parses to the instant that lies
  the offset before that civil time, also where the civil time itself is outside the 64-bit range.\<close>

theorem text_round_trip:
  assumes "fits64 (instant_count i)" and "fits64 (plain_count p)"
    and "printable f" and "0 \<le> h" "h \<le> 23" "0 \<le> m" "m \<le> 59"
    and "civil_count f = instant_count i + offset_seconds west h m * nanos_per_second"
  shows "instant_parse (instant_to_string i) = Inr i
    \<and> plain_parse (plain_to_string p) = Inr p
    \<and> instant_parse (format_civil f @ offset_text west h m) = Inr i"
proof (intro conjI)
  show "instant_parse (instant_to_string i) = Inr i"
    using instant_parse_utc [OF printable_count [OF assms(1)]] civil_count_fields [OF assms(1)] assms(1)
    by (simp add: instant_to_string_def)
  show "plain_parse (plain_to_string p) = Inr p"
    using plain_parse_text [OF printable_count [OF assms(2)]] civil_count_fields [OF assms(2)] assms(2)
    by (simp add: plain_to_string_def plain_fields_def)
  show "instant_parse (format_civil f @ offset_text west h m) = Inr i"
    using instant_parse_text [OF assms(3-7), of "instant_count i" west] assms(1,8) by simp
qed

theorem text_round_trip_witness:
  "instant_parse ''1969-12-31T23:59:59.000000005-01:30'' = Inr (Instant 5399000000005)"
proof -
  have "fits64 (instant_count (Instant 5399000000005))" "fits64 (plain_count (PlainDateTime 0))"
    by (simp_all add: fits64_def i64_min_def i64_max_def)
  moreover have "printable example_fields" using example_fields_valid by (simp add: printable_def) (simp add: example_fields_def)
  moreover have "civil_count example_fields = instant_count (Instant 5399000000005) + offset_seconds True 1 30 * nanos_per_second"
    unfolding example_fields_valid(2) by (simp add: offset_seconds_def nanos_per_second_def)
  ultimately have "instant_parse (format_civil example_fields @ offset_text True 1 30) = Inr (Instant 5399000000005)"
    using text_round_trip [of "Instant 5399000000005" "PlainDateTime 0" example_fields 1 30 True] by simp
  moreover have "format_civil example_fields @ offset_text True 1 30 = ''1969-12-31T23:59:59.000000005-01:30''" by code_simp
  ultimately show ?thesis by simp
qed

section \<open>Every value fits\<close>

text \<open>
  The values a program can make, from 64-bit numbers, texts and other values, over a time-zone library whose
  answers are 64-bit numbers.
\<close>

definition tz_fits :: "tz_library \<Rightarrow> bool" where
  "tz_fits L \<longleftrightarrow> (\<forall>zid zone. locate_zone_or_throw L zid = Inr zone \<longrightarrow>
     (\<forall>n. fits64 (si_offset (tz_sys zone n)) \<and>
        (\<forall>info \<in> {li_first (tz_local zone n), li_second (tz_local zone n)}.
           fits64 (si_begin info) \<and> fits64 (si_end info) \<and> fits64 (si_offset info))))"

inductive duration_made :: "tz_library \<Rightarrow> duration \<Rightarrow> bool"
  and instant_made :: "tz_library \<Rightarrow> instant \<Rightarrow> bool"
  and plain_made :: "tz_library \<Rightarrow> plain \<Rightarrow> bool"
  for L where
  nanoseconds: "fits64 n \<Longrightarrow> duration_made L (duration_from_nanoseconds n)"
| seconds: "fits64 n \<Longrightarrow> duration_from_seconds n = Inr d \<Longrightarrow> duration_made L d"
| parts: "fits64 s \<Longrightarrow> fits64 ms \<Longrightarrow> fits64 us \<Longrightarrow> fits64 ns \<Longrightarrow> duration_from_parts s ms us ns = Inr d \<Longrightarrow> duration_made L d"
| instant_since: "instant_made L i \<Longrightarrow> instant_made L j \<Longrightarrow> instant_since i j = Inr d \<Longrightarrow> duration_made L d"
| plain_since: "plain_made L p \<Longrightarrow> plain_made L q \<Longrightarrow> plain_since p q = Inr d \<Longrightarrow> duration_made L d"
| instant_parsed: "instant_parse s = Inr i \<Longrightarrow> instant_made L i"
| unix: "fits64 sec \<Longrightarrow> fits64 ns \<Longrightarrow> from_unix sec ns = Inr i \<Longrightarrow> instant_made L i"
| instant_added: "instant_made L i \<Longrightarrow> duration_made L d \<Longrightarrow> instant_add i d = Inr j \<Longrightarrow> instant_made L j"
| resolved: "plain_made L p \<Longrightarrow> zoned_from_plain L p zid dis = Inr z \<Longrightarrow> instant_made L (zoned_instant z)"
| zoned: "instant_made L i \<Longrightarrow> zoned_from_instant L i zid = Inr z \<Longrightarrow> instant_made L (zoned_instant z)"
| clock: "instant_made L i \<Longrightarrow> fits64 now \<Longrightarrow> instant_made L (clock_now now (fixed_clock i))"
| plain_parsed: "plain_parse s = Inr p \<Longrightarrow> plain_made L p"
| plain_of_fields: "plain_from_fields y mo d h mi s ns = Inr p \<Longrightarrow> plain_made L p"
| plain_added: "plain_made L p \<Longrightarrow> duration_made L d \<Longrightarrow> plain_add p d = Inr q \<Longrightarrow> plain_made L q"
| days_added: "plain_made L p \<Longrightarrow> fits64 n \<Longrightarrow> add_days p n = Inr q \<Longrightarrow> plain_made L q"
| calendar_added: "plain_made L p \<Longrightarrow> fits64 y \<Longrightarrow> fits64 mo \<Longrightarrow> fits64 w \<Longrightarrow> fits64 n \<Longrightarrow>
    add_calendar p y mo w n = Inr q \<Longrightarrow> plain_made L q"

text \<open>Sums, products and day times keep to the range whenever they succeed.\<close>

lemma checked_fit:
  "checked_add a b = Inr c \<Longrightarrow> fits64 a \<Longrightarrow> fits64 b \<Longrightarrow> fits64 c"
  "checked_subtract a b = Inr c \<Longrightarrow> fits64 a \<Longrightarrow> fits64 b \<Longrightarrow> fits64 c"
  "checked_multiply a b = Inr c \<Longrightarrow> fits64 a \<Longrightarrow> fits64 b \<Longrightarrow> fits64 c"
  by (auto simp: checked_exact exact_Inr_iff)

lemma units_fit: "fits64 nanos_per_second" "fits64 nanos_per_millisecond" "fits64 nanos_per_microsecond" "fits64 12"
    "fits64 7" "fits64 1" "fits64 0"
  by (simp_all add: small_fits unit_defs)

lemma duration_parts_fit:
  assumes "fits64 s" "fits64 ms" "fits64 us" "fits64 ns" "duration_from_parts s ms us ns = Inr d"
  shows "fits64 (duration_count d)"
  using assms units_fit by (auto simp: duration_from_parts_def bind_result_Inr_iff dest!: checked_fit)

lemma day_time_fit:
  "nanos_from_day_time d t msg = Inr n \<Longrightarrow> fits64 d \<Longrightarrow> 0 \<le> t \<Longrightarrow> t < nanos_per_day \<Longrightarrow> fits64 n"
  by (simp add: day_time_exact split: if_splits)

lemma validate_date_bounded: "validate_date_fields y m d = Inr x \<Longrightarrow> ymd_bounded x"
  by (auto simp: validate_date_fields_def ymd_bounded_def min_year_def max_year_def Let_def split: if_splits)

lemma nanos_from_fields_Inr:
  assumes "nanos_from_fields y mo d h mi s ns = Inr c"
  shows "\<exists>x t. ymd_bounded x \<and> 0 \<le> t \<and> t < nanos_per_day \<and> c = \<lparr>civil_days = to_days x, civil_time = t\<rparr>"
proof -
  let ?f = "\<lparr>cf_year = y, cf_month = mo, cf_day = d, cf_hour = h, cf_minute = mi, cf_second = s, cf_nanosecond = ns\<rparr>"
  obtain x t where x: "validate_date_fields y mo d = Inr x" and v: "validate_time_fields h mi s ns = Inr ()"
      and t: "time_of_day h mi s ns = Inr t" and c: "c = \<lparr>civil_days = to_days x, civil_time = t\<rparr>"
    using assms by (auto simp: nanos_from_fields_def bind_result_Inr_iff)
  have "valid_time ?f" using v validate_time_eq [of ?f] by (simp split: if_splits)
  with time_of_day_eq [of ?f] day_nanos_bounds [of ?f] t have "0 \<le> t \<and> t < nanos_per_day" by simp
  with c validate_date_bounded [OF x] show ?thesis by blast
qed

lemma civil_day_time_fit:
  assumes "nanos_from_fields y mo d h mi s ns = Inr c" "nanos_from_day_time (civil_days c) (civil_time c) msg = Inr n"
  shows "fits64 n"
proof -
  obtain x t where x: "ymd_bounded x" "0 \<le> t" "t < nanos_per_day" "c = \<lparr>civil_days = to_days x, civil_time = t\<rparr>"
    using nanos_from_fields_Inr [OF assms(1)] by blast
  have "fits64 (to_days x)" using to_days_bounds [OF x(1)] by (intro small_fits) simp
  with assms(2) x show ?thesis using day_time_fit [of "to_days x" t msg n] by simp
qed

lemma civil_of_groups_Inr:
  "civil_of_groups g = Inr c \<Longrightarrow> \<exists>y mo d h mi s ns. nanos_from_fields y mo d h mi s ns = Inr c"
  by (auto simp: civil_of_groups_def bind_result_Inr_iff Let_def split: if_splits) blast

lemma digit_value_nonneg: "is_digit c \<Longrightarrow> 0 \<le> digit_value c"
proof -
  assume "is_digit c"
  then have "48 \<le> int (of_char c)" by (simp add: is_digit_def)
  then show ?thesis by (simp add: digit_value_def of_nat_of_char)
qed

lemma parse_int_nonneg: "list_all is_digit s \<Longrightarrow> 0 \<le> parse_int s"
  by (induction s rule: rev_induct) (simp_all add: parse_int_snoc digit_value_nonneg)

lemma digits_all: "digits n s = Some (d, r) \<Longrightarrow> list_all is_digit d"
  by (induction n s arbitrary: d r rule: digits.induct) (auto split: if_splits)

lemma match_offset_digits:
  "match_offset s = Some (Some (c, h, m), r) \<Longrightarrow> 0 \<le> parse_int h \<and> 0 \<le> parse_int m"
  by (auto simp: match_offset_def bind_eq_Some_conv split: list.splits if_splits dest!: digits_all intro: parse_int_nonneg)

lemma seconds_of_offset_bounds:
  assumes "match_instant s = Some (g, off)" "seconds_of_offset off = Inr e"
  shows "\<bar>e\<bar> < 86400"
proof (cases off)
  case None
  with assms(2) show ?thesis by (simp add: seconds_of_offset_def)
next
  case (Some a)
  obtain sign h m where off: "off = Some (sign, h, m)" using Some by (cases a) auto
  then have "0 \<le> parse_int h \<and> 0 \<le> parse_int m"
    using assms(1) match_offset_digits by (auto simp: match_instant_def bind_eq_Some_conv split: if_splits)
  with assms(2) off show ?thesis by (auto simp: seconds_of_offset_def Let_def split: if_splits)
qed

lemma instant_parse_fit:
  assumes "instant_parse s = Inr i" shows "fits64 (instant_count i)"
proof -
  obtain g off where m: "match_instant s = Some (g, off)"
    using assms by (auto simp: instant_parse_def split: option.splits)
  then obtain c e n where c: "civil_of_groups g = Inr c" "seconds_of_offset off = Inr e"
      "checked_sys_from_civil_with_offset c e = Inr n" "i = Instant n"
    using assms by (auto simp: instant_parse_def bind_result_Inr_iff)
  obtain x t where "ymd_bounded x" "0 \<le> t" "t < nanos_per_day" "c = \<lparr>civil_days = to_days x, civil_time = t\<rparr>"
    using civil_of_groups_Inr [OF c(1)] nanos_from_fields_Inr by blast
  with c seconds_of_offset_bounds [OF m c(2)] show ?thesis
    using sys_from_civil_exact [of x t e] by (simp add: Let_def split: if_splits)
qed

lemma plain_parse_fit: "plain_parse s = Inr p \<Longrightarrow> fits64 (plain_count p)"
  using civil_of_groups_Inr civil_day_time_fit
  by (fastforce simp: plain_parse_def bind_result_Inr_iff split: option.splits)

lemma from_unix_fit:
  assumes "from_unix s n = Inr i" "fits64 s" shows "fits64 (instant_count i)"
  using assms unix_parts_exact [of s n]
  by (auto simp: from_unix_def bind_result_Inr_iff exact_Inr_iff split: if_splits)

lemma plain_from_fields_fit: "plain_from_fields y mo d h mi s ns = Inr p \<Longrightarrow> fits64 (plain_count p)"
  using civil_day_time_fit by (fastforce simp: plain_from_fields_def local_from_fields_def bind_result_Inr_iff)

lemma add_days_exact:
  assumes "fits64 (plain_count p)" "fits64 n" "fits64 (plain_count p div nanos_per_day + n)"
  shows "add_days p n =
    (if fits64 (plain_count p + n * nanos_per_day) then Inr (PlainDateTime (plain_count p + n * nanos_per_day))
     else Inl (Invalid_argument ''temporal local date-time outside nanosecond range''))"
proof -
  have "(plain_count p div nanos_per_day + n) * nanos_per_day + plain_count p mod nanos_per_day
      = plain_count p + n * nanos_per_day"
    by (simp add: distrib_right)
  then show ?thesis
    using assms unit_fits fits64_div [OF assms(1) unit_fits(1)]
    by (simp add: add_days_def Let_def date_floor_eq remainder_eq checked_add_exact exact_fits day_time_exact)
qed

lemma add_days_fit:
  assumes "add_days p n = Inr q" "fits64 (plain_count p)" "fits64 n" shows "fits64 (plain_count q)"
proof -
  have "fits64 (plain_count p div nanos_per_day)" using fits64_div [OF assms(2) unit_fits(1)] .
  then have "fits64 (plain_count p div nanos_per_day + n)"
    using assms by (auto simp: add_days_def Let_def date_floor_eq unit_fits bind_result_Inr_iff checked_add_exact exact_Inr_iff)
  from add_days_exact [OF assms(2,3) this] assms(1) show ?thesis by (auto split: if_splits)
qed

text \<open>A calendar shift by months, as it should be: the day is cut to the length of the new month.\<close>

definition shift_months :: "civil_fields \<Rightarrow> int \<Rightarrow> civil_fields" where
  "shift_months f k =
    (let t = cf_year f * 12 + (cf_month f - 1) + k; y = t div 12; m = t mod 12 + 1
     in f\<lparr>cf_year := y, cf_month := m, cf_day := min (cf_day f) (last_day y m)\<rparr>)"

lemma floor_divide_eq: "floor_divide a 12 = a div 12"
  using floor_of_trunc [of 12 a] by (auto simp: floor_divide_def Let_def split: if_splits)

lemma shift_months_date:
  assumes "valid_fields f" "min_year \<le> cf_year (shift_months f k)" "cf_year (shift_months f k) \<le> max_year"
  shows "ymd_bounded (fields_date (shift_months f k))"
    "fields_date (shift_months f k) = \<lparr>ymd_year = calendar_year (cf_year (shift_months f k)),
       ymd_month = calendar_month (cf_month (shift_months f k)), ymd_day = calendar_day (cf_day (shift_months f k))\<rparr>"
proof -
  define t y m where "t = cf_year f * 12 + (cf_month f - 1) + k" and "y = t div 12" and "m = t mod 12 + 1"
  have f: "shift_months f k = f\<lparr>cf_year := y, cf_month := m, cf_day := min (cf_day f) (last_day y m)\<rparr>"
    by (simp add: shift_months_def Let_def t_def y_def m_def)
  have m: "1 \<le> m" "m \<le> 12" by (simp_all add: m_def)
  have y: "- 32767 \<le> y" "y \<le> 32767" using assms(2,3) by (simp_all add: f min_year_def max_year_def)
  have "1 \<le> cf_day f" "cf_day f \<le> 31"
    using assms(1) valid_date_range [of "fields_date f"] by (simp_all add: valid_fields_def fields_date_def)
  then have d: "1 \<le> min (cf_day f) (last_day y m)" "min (cf_day f) (last_day y m) \<le> last_day y m"
      "min (cf_day f) (last_day y m) \<le> 31"
    using last_day_bounds [of y m] by simp_all
  show "ymd_bounded (fields_date (shift_months f k))"
    using m y d by (simp add: f fields_date_def ymd_bounded_def ymd_ok_def year_ok_def month_ok_def min_year_def max_year_def)
  show "fields_date (shift_months f k) = \<lparr>ymd_year = calendar_year (cf_year (shift_months f k)),
       ymd_month = calendar_month (cf_month (shift_months f k)), ymd_day = calendar_day (cf_day (shift_months f k))\<rparr>"
    using m y d by (simp add: f fields_date_def)
qed

text \<open>The result once the months are counted.\<close>

lemma add_calendar_months_target:
  assumes "valid_fields f"
    and "bind_result (checked_multiply years 12) (\<lambda>n. checked_add n months) = Inr k"
    and "bind_result (checked_multiply (cf_year f) 12) (\<lambda>n. checked_add n (cf_month f - 1)) = Inr (cf_year f * 12 + (cf_month f - 1))"
    and "checked_add (cf_year f * 12 + (cf_month f - 1)) k = Inr t" "t = cf_year f * 12 + (cf_month f - 1) + k"
    and "bind_result (checked_multiply (t div 12) 12) (checked_subtract t) = Inr (t mod 12)"
  shows "add_calendar_months f years months =
    (if cf_year (shift_months f k) < min_year \<or> cf_year (shift_months f k) > max_year then Inl calendar_overflow
     else Inr (fields_date (shift_months f k)))"
proof -
  have y: "cf_year (shift_months f k) = t div 12" "cf_month (shift_months f k) = t mod 12 + 1"
      "cf_day (shift_months f k) = min (cf_day f) (last_day (t div 12) (t mod 12 + 1))"
    by (simp_all add: shift_months_def Let_def assms(5))
  show ?thesis
  proof (cases "t div 12 < min_year \<or> t div 12 > max_year")
    case True
    then show ?thesis using assms(2-4,6) by (simp add: add_calendar_months_def floor_divide_eq y Let_def)
  next
    case False
    then have yr: "\<not> (cf_year (shift_months f k) < min_year \<or> cf_year (shift_months f k) > max_year)"
      by (simp add: y)
    let ?d = "if cf_day f > last_day (t div 12) (t mod 12 + 1) then last_day (t div 12) (t mod 12 + 1) else cf_day f"
    have c: "calendar_year (t div 12) = t div 12" "calendar_month (t mod 12 + 1) = t mod 12 + 1"
      using False by (simp_all add: min_year_def max_year_def)
    have d: "?d = cf_day (shift_months f k)" by (simp add: y min_def)
    have x: "\<lparr>ymd_year = t div 12, ymd_month = t mod 12 + 1, ymd_day = calendar_day ?d\<rparr> = fields_date (shift_months f k)"
      unfolding d using shift_months_date(2) [OF assms(1), of k] yr c by (simp add: y)
    have "ymd_ok (fields_date (shift_months f k))"
      using shift_months_date(1) [OF assms(1), of k] yr by (simp add: ymd_bounded_def)
    then show ?thesis
      unfolding add_calendar_months_def assms(2-4,6) bind_result_simps Let_def floor_divide_eq c x
      using yr False by (simp only: if_False if_True not_True_eq_False)
  qed
qed

lemma add_calendar_months_small:
  assumes "valid_fields f" "\<bar>years\<bar> \<le> 1000000000000" "\<bar>months\<bar> \<le> 1000000000000"
  shows "add_calendar_months f years months =
    (let g = shift_months f (years * 12 + months)
     in if cf_year g < min_year \<or> cf_year g > max_year then Inl calendar_overflow else Inr (fields_date g))"
proof -
  have y: "- 32767 \<le> cf_year f" "cf_year f \<le> 32767" and m: "1 \<le> cf_month f" "cf_month f \<le> 12"
    using assms(1) valid_date_range [of "fields_date f"]
    by (simp_all add: valid_fields_def ymd_bounded_def fields_date_def min_year_def max_year_def)
  define k t where "k = years * 12 + months" and "t = cf_year f * 12 + (cf_month f - 1) + k"
  have t: "\<bar>t\<bar> \<le> 14000000000000" using y m assms(2,3) by (simp add: t_def k_def abs_le_iff)
  have q: "t = t div 12 * 12 + t mod 12" "0 \<le> t mod 12" "t mod 12 < 12" by simp_all
  then have "\<bar>t div 12 * 12\<bar> \<le> 14000000000012" "\<bar>t div 12\<bar> \<le> 14000000000012" using t by linarith+
  then have fits: "fits64 years" "fits64 months" "fits64 (years * 12)" "fits64 k" "fits64 t" "fits64 12" "fits64 (cf_year f)"
      "fits64 (cf_month f - 1)" "fits64 (cf_year f * 12)" "fits64 (cf_year f * 12 + (cf_month f - 1))"
      "fits64 (t div 12)" "fits64 (t div 12 * 12)" "fits64 (t mod 12)"
    using assms(2,3) y m t q(2,3) by (simp_all add: small_fits k_def abs_le_iff)
  have "add_calendar_months f years months =
    (if cf_year (shift_months f k) < min_year \<or> cf_year (shift_months f k) > max_year then Inl calendar_overflow
     else Inr (fields_date (shift_months f k)))"
  proof (rule add_calendar_months_target [OF assms(1)])
    have "bind_result (checked_multiply years 12) (\<lambda>n. checked_add n months) = exact k"
      unfolding k_def using fits by (simp add: checked_exact exact_fits)
    then show "bind_result (checked_multiply years 12) (\<lambda>n. checked_add n months) = Inr k"
      using fits(4) by (simp add: exact_fits)
    show "bind_result (checked_multiply (cf_year f) 12) (\<lambda>n. checked_add n (cf_month f - 1)) = Inr (cf_year f * 12 + (cf_month f - 1))"
      using fits by (simp add: checked_exact exact_fits)
    have "checked_add (cf_year f * 12 + (cf_month f - 1)) k = exact t"
      unfolding t_def using fits by (simp only: checked_exact)
    then show "checked_add (cf_year f * 12 + (cf_month f - 1)) k = Inr t" using fits(5) by (simp add: exact_fits)
    show "bind_result (checked_multiply (t div 12) 12) (checked_subtract t) = Inr (t mod 12)"
      using fits by (simp add: checked_exact exact_fits minus_div_mult_eq_mod)
  qed (rule t_def)
  then show ?thesis by (simp add: k_def Let_def)
qed

text \<open>Adding a calendar period shifts the date. The months move first, by years and months together, the day
  being cut to the length of the month reached; then come the weeks and days; the time of day stays.
  It fails just when the year or the moment reached is out of range, and a shift by weeks and days
  alone is what \<open>add_days\<close> does.\<close>

theorem calendar_shift:
  assumes "fits64 (plain_count p)" "\<bar>years\<bar> \<le> 1000000000000" "\<bar>months\<bar> \<le> 1000000000000"
    "\<bar>weeks\<bar> \<le> 1000000000000" "\<bar>days\<bar> \<le> 1000000000000"
  shows "(let f = shift_months (plain_fields p) (years * 12 + months);
             c = civil_count f + (weeks * 7 + days) * nanos_per_day
         in add_calendar p years months weeks days =
           (if cf_year f < min_year \<or> cf_year f > max_year then Inl calendar_overflow
            else if fits64 c then Inr (PlainDateTime c)
            else Inl (Invalid_argument ''temporal local date-time outside nanosecond range'')))
    \<and> add_calendar p 0 0 weeks days = add_days p (weeks * 7 + days)"
proof -
  let ?f = "plain_fields p" and ?n = "weeks * 7 + days"
  have v: "valid_fields ?f" and count: "civil_count ?f = plain_count p"
    using fields_from_local_eq(3) [OF assms(1)] civil_count_fields [OF assms(1)] by (simp_all add: plain_fields_def)
  then have vt: "valid_time ?f" by (simp add: valid_fields_def)
  have n: "fits64 weeks" "fits64 days" "fits64 7" "fits64 (weeks * 7)" "fits64 ?n" "\<bar>?n\<bar> \<le> 8000000000000"
    using assms(4,5) by (simp_all add: small_fits abs_le_iff)
  have main: "add_calendar p years months weeks days =
      (let f = shift_months ?f (years * 12 + months); c = civil_count f + ?n * nanos_per_day
       in if cf_year f < min_year \<or> cf_year f > max_year then Inl calendar_overflow
          else if fits64 c then Inr (PlainDateTime c)
          else Inl (Invalid_argument ''temporal local date-time outside nanosecond range''))"
    if "\<bar>years\<bar> \<le> 1000000000000" "\<bar>months\<bar> \<le> 1000000000000" for years months
  proof -
    define g where "g = shift_months ?f (years * 12 + months)"
    have months: "add_calendar_months ?f years months =
        (if cf_year g < min_year \<or> cf_year g > max_year then Inl calendar_overflow else Inr (fields_date g))"
      using add_calendar_months_small [OF v that] by (simp add: g_def Let_def)
    show ?thesis
    proof (cases "cf_year g < min_year \<or> cf_year g > max_year")
      case True
      then show ?thesis using months by (simp add: add_calendar_def Let_def g_def [symmetric])
    next
      case False
      then have "ymd_bounded (fields_date g)" using shift_months_date(1) [OF v] by (simp add: g_def)
      from to_days_bounds [OF this] n(6)
      have d: "fits64 (to_days (fields_date g))" "fits64 (to_days (fields_date g) + ?n)"
        by (simp_all add: small_fits abs_le_iff)
      have "day_nanos g = day_nanos ?f" by (simp add: g_def shift_months_def Let_def day_nanos_def)
      then have c: "(to_days (fields_date g) + ?n) * nanos_per_day + day_nanos ?f = civil_count g + ?n * nanos_per_day"
        by (simp add: civil_count_def distrib_right)
      show ?thesis
        using False months n d day_nanos_bounds [OF vt] c
        by (simp add: add_calendar_def Let_def g_def [symmetric] checked_exact exact_fits time_of_day_eq [OF vt] day_time_exact)
    qed
  qed
  have "shift_months ?f 0 = ?f"
  proof -
    have date: "1 \<le> cf_month ?f" "cf_month ?f \<le> 12" "cf_day ?f \<le> last_day (cf_year ?f) (cf_month ?f)"
      using v by (auto simp: valid_fields_def ymd_bounded_def fields_date_def ymd_ok_def month_ok_def split: if_splits)
    then have "(cf_year ?f * 12 + (cf_month ?f - 1)) div 12 = cf_year ?f" "(cf_year ?f * 12 + (cf_month ?f - 1)) mod 12 = cf_month ?f - 1"
      by simp_all
    with date show ?thesis by (simp add: shift_months_def Let_def)
  qed
  moreover have "\<not> (cf_year ?f < min_year \<or> cf_year ?f > max_year)"
    using v by (simp add: valid_fields_def ymd_bounded_def fields_date_def)
  moreover have "fits64 (plain_count p div nanos_per_day + ?n)"
    using days_small [OF assms(1)] n(6) by (simp add: small_fits abs_le_iff)
  ultimately have "add_calendar p 0 0 weeks days = add_days p ?n"
    using main [of 0 0] add_days_exact [OF assms(1) n(5)] count by simp
  with main [OF assms(2,3)] show ?thesis by (simp add: Let_def)
qed

theorem calendar_shift_witness:
  "add_calendar (PlainDateTime 2592000000000005) 0 1 0 1 = Inr (PlainDateTime 5097600000000005)"
proof -
  have "fits64 (plain_count (PlainDateTime 2592000000000005))" by (simp add: fits64_def i64_min_def i64_max_def)
  from calendar_shift [OF this, of 0 1 0 1]
  have "add_calendar (PlainDateTime 2592000000000005) 0 1 0 1 =
     (let f = shift_months (plain_fields (PlainDateTime 2592000000000005)) 1; c = civil_count f + nanos_per_day
      in if cf_year f < min_year \<or> cf_year f > max_year then Inl calendar_overflow
         else if fits64 c then Inr (PlainDateTime c)
         else Inl (Invalid_argument ''temporal local date-time outside nanosecond range''))"
    by (simp add: Let_def)
  also have "\<dots> = Inr (PlainDateTime 5097600000000005)" by code_simp
  finally show ?thesis .
qed

lemma add_calendar_months_bounded: "add_calendar_months f y mo = Inr x \<Longrightarrow> ymd_bounded x"
  by (auto simp: add_calendar_months_def bind_result_Inr_iff Let_def ymd_bounded_def min_year_def max_year_def
      split: if_splits)

lemma add_calendar_fit:
  assumes "add_calendar p y mo w n = Inr q" "fits64 (plain_count p)" "fits64 w" "fits64 n"
  shows "fits64 (plain_count q)"
proof -
  let ?f = "plain_fields p"
  have vt: "valid_time ?f"
    using fields_from_local_eq(3) [OF assms(2)] by (simp add: plain_fields_def valid_fields_def)
  obtain x s d t m where x: "add_calendar_months ?f y mo = Inr x"
      and s: "bind_result (checked_multiply w 7) (\<lambda>n'. checked_add n' n) = Inr s" "checked_add (to_days x) s = Inr d"
      and t: "time_of_day (cf_hour ?f) (cf_minute ?f) (cf_second ?f) (cf_nanosecond ?f) = Inr t"
      and m: "nanos_from_day_time d t ''temporal local date-time outside nanosecond range'' = Inr m" "q = PlainDateTime m"
    using assms(1) unfolding add_calendar_def Let_def by (auto elim!: bind_result_InrE)
  have "fits64 (to_days x)" using to_days_bounds [OF add_calendar_months_bounded [OF x]] by (simp add: small_fits)
  moreover have "fits64 s" using s(1) assms(3,4) units_fit(5) by (auto simp: bind_result_Inr_iff dest!: checked_fit)
  ultimately have "fits64 d" using s(2) checked_fit(1) by blast
  with m t time_of_day_eq [OF vt] day_nanos_bounds [OF vt] show ?thesis using day_time_fit [OF m(1)] by simp
qed

lemma resolve_local_fit:
  assumes "resolve_local zone l dis = Inr n" "fits64 l"
    and "\<And>info. info \<in> {li_first (tz_local zone l), li_second (tz_local zone l)} \<Longrightarrow>
      fits64 (si_begin info) \<and> fits64 (si_end info) \<and> fits64 (si_offset info)"
  shows "fits64 n"
  using assms units_fit
  by (auto simp: resolve_local_def checked_sys_from_local_with_offset_def Let_def bind_result_Inr_iff
      dest: checked_fit split: if_splits)

lemma zoned_from_plain_fit:
  assumes "tz_fits L" "zoned_from_plain L p zid dis = Inr z" "fits64 (plain_count p)"
  shows "fits64 (instant_count (zoned_instant z))"
proof -
  obtain zone n where zone: "locate_zone_or_throw L zid = Inr zone" "resolve_local zone (plain_count p) dis = Inr n"
      and z: "z = \<lparr>zoned_instant = Instant n, zoned_zone_id = zid\<rparr>"
    using assms(2) by (auto simp: zoned_from_plain_def bind_result_Inr_iff)
  have "fits64 (si_begin info) \<and> fits64 (si_end info) \<and> fits64 (si_offset info)"
    if "info \<in> {li_first (tz_local zone (plain_count p)), li_second (tz_local zone (plain_count p))}" for info
    using assms(1) zone(1) that by (auto simp: tz_fits_def)
  from resolve_local_fit [OF zone(2) assms(3) this] z show ?thesis by simp
qed

lemma made_fit:
  assumes "tz_fits L"
  shows "duration_made L d \<Longrightarrow> fits64 (duration_count d)"
    and "instant_made L i \<Longrightarrow> fits64 (instant_count i)"
    and "plain_made L p \<Longrightarrow> fits64 (plain_count p)"
proof (induction rule: duration_made_instant_made_plain_made.inducts)
  case (seconds n d)
  then show ?case using units_fit by (auto simp: duration_from_seconds_def bind_result_Inr_iff dest: checked_fit)
next
  case (instant_since i j d)
  then show ?case by (auto simp: instant_since_def bind_result_Inr_iff dest: checked_fit)
next
  case (plain_since p q d)
  then show ?case by (auto simp: plain_since_def bind_result_Inr_iff dest: checked_fit)
next
  case (instant_added i d j)
  then show ?case by (auto simp: instant_add_def bind_result_Inr_iff dest: checked_fit)
next
  case (plain_added p d q)
  then show ?case by (auto simp: plain_add_def bind_result_Inr_iff dest: checked_fit)
next
  case (zoned i zid z)
  then show ?case by (auto simp: zoned_from_instant_def bind_result_Inr_iff)
next
  case (resolved p zid dis z)
  then show ?case using zoned_from_plain_fit [OF assms] by blast
qed (auto simp: duration_from_nanoseconds_def clock_now_def fixed_clock_def
  intro: duration_parts_fit instant_parse_fit plain_parse_fit from_unix_fit plain_from_fields_fit add_days_fit add_calendar_fit)

text \<open>C20: Temporal values are 64-bit values. Whatever sequence of operations makes a duration, an instant or a
  plain date-time, from any numbers, texts and zones, its count of nanoseconds fits in 64 bits; so
  each of them can be printed and read back.\<close>

theorem values_fit:
  assumes "tz_fits L" "duration_made L d" "instant_made L i" "plain_made L p"
  shows "fits64 (duration_count d) \<and> fits64 (instant_count i) \<and> fits64 (plain_count p)
    \<and> instant_parse (instant_to_string i) = Inr i"
proof -
  have "fits64 (instant_count i)" using made_fit(2) assms by blast
  then have "instant_parse (instant_to_string i) = Inr i"
    using instant_parse_utc [OF printable_count] civil_count_fields by (simp add: instant_to_string_def)
  then show ?thesis using made_fit assms by blast
qed

section \<open>Local times in a zone\<close>

text \<open>
  What the library documents of its answers: a local time that exists is the time of an instant at which
  that offset is in force; at one that does not exist, one rule ends where the next begins. Offsets
  stay below a day.
\<close>

definition consistent_zone :: "time_zone \<Rightarrow> bool" where
  "consistent_zone zone \<longleftrightarrow> (\<forall>n. let info = tz_local zone n; rules = {li_first info, li_second info} in
     (\<forall>r \<in> rules. \<bar>si_offset r\<bar> < 86400 \<and> fits64 (si_begin r) \<and> fits64 (si_end r)) \<and>
     (case li_result info of
        UniqueTime \<Rightarrow> si_offset (tz_sys zone (n - si_offset (li_first info) * nanos_per_second)) = si_offset (li_first info)
      | AmbiguousTime \<Rightarrow> (\<forall>r \<in> rules. si_offset (tz_sys zone (n - si_offset r * nanos_per_second)) = si_offset r)
      | NonexistentTime \<Rightarrow> si_end (li_first info) = si_begin (li_second info)))"

lemma zoned_fields_at:
  assumes "locate_zone_or_throw L zid = Inr zone" "fits64 l" "\<bar>off\<bar> < 86400" "fits64 (l - off * nanos_per_second)"
    and "si_offset (tz_sys zone (l - off * nanos_per_second)) = off"
  shows "zoned_fields L \<lparr>zoned_instant = Instant (l - off * nanos_per_second), zoned_zone_id = zid\<rparr> = Inr (fields_from_local l)"
proof -
  have "fits64 off" "fits64 (off * nanos_per_second)" "fits64 nanos_per_second"
    using assms(3) by (simp_all add: small_fits nanos_per_second_def abs_less_iff abs_le_iff)
  then show ?thesis
    using assms by (simp add: zoned_fields_def zone_info_for_instant_def checked_exact exact_fits)
qed

text \<open>The instant a local time stands for, and whether a policy refuses it.\<close>

definition local_target :: "local_info \<Rightarrow> disambiguation \<Rightarrow> int \<Rightarrow> int" where
  "local_target info dis l = (case li_result info of
      UniqueTime \<Rightarrow> l - si_offset (li_first info) * nanos_per_second
    | AmbiguousTime \<Rightarrow> l - si_offset (if dis = Earliest then li_first info else li_second info) * nanos_per_second
    | NonexistentTime \<Rightarrow> si_begin (li_second info) * nanos_per_second - (if dis = Earliest then 0 else 1))"

definition refused :: "local_info \<Rightarrow> disambiguation \<Rightarrow> bool" where
  "refused info dis \<longleftrightarrow> dis = Reject \<and> li_result info \<noteq> UniqueTime"

lemma sys_from_local_exact:
  assumes "\<bar>off\<bar> < 86400" "fits64 l"
  shows "checked_sys_from_local_with_offset l off = exact (l - off * nanos_per_second)"
proof -
  have "fits64 off" "fits64 (off * nanos_per_second)" "fits64 nanos_per_second"
    using assms(1) by (simp_all add: small_fits nanos_per_second_def abs_less_iff abs_le_iff)
  with assms(2) show ?thesis by (simp add: checked_sys_from_local_with_offset_def checked_exact exact_fits)
qed

lemma resolve_local_exact:
  assumes "consistent_zone zone" "fits64 l" "\<not> refused (tz_local zone l) dis"
  shows "resolve_local zone l dis = exact (local_target (tz_local zone l) dis l)"
proof -
  define info where "info = tz_local zone l"
  have off: "\<bar>si_offset r\<bar> < 86400" "fits64 (si_begin r)" if "r = li_first info \<or> r = li_second info" for r
    using assms(1) that by (auto simp: consistent_zone_def Let_def info_def)
  note sys = off(1) [THEN sys_from_local_exact, OF _ assms(2)]
  note unfolded = resolve_local_def [of zone l, unfolded Let_def, folded info_def] local_target_def
  show ?thesis
  proof (cases "li_result info")
    case NonexistentTime
    then have e: "si_end (li_first info) = si_begin (li_second info)" and "dis \<noteq> Reject"
      using assms(1,3) by (auto simp: consistent_zone_def refused_def Let_def info_def split: local_result.splits)
    define t where "t = si_begin (li_second info) * nanos_per_second"
    have mul: "checked_multiply (si_begin (li_second info)) nanos_per_second = exact t"
      using off(2) [of "li_second info"] units_fit(1) by (simp add: checked_multiply_exact t_def)
    have "t \<noteq> 2 ^ 63"
    proof
      assume "t = 2 ^ 63"
      then have "2 ^ 63 mod nanos_per_second = 0" by (metis t_def mod_mult_self2_is_0)
      then show False by (simp add: nanos_per_second_def)
    qed
    then have "fits64 (t - 1) \<Longrightarrow> fits64 t" by (auto simp: fits64_def i64_min_def i64_max_def)
    then have "bind_result (exact t) (\<lambda>n. checked_subtract n 1) = exact (t - 1)"
      using units_fit(6) by (auto simp: exact_def checked_subtract_exact)
    with NonexistentTime e mul \<open>dis \<noteq> Reject\<close> show ?thesis
      by (cases dis) (simp_all add: unfolded info_def [symmetric] t_def)
  qed (use sys assms(3) in \<open>cases dis; simp add: unfolded refused_def info_def [symmetric]\<close>)+
qed

text \<open>C19: a local time is resolved in its zone. Rejecting refuses exactly the local times that are not unique. Any
  other resolution gives the instant of the policy, or the overflow error exactly when that lies
  outside 64 bits: a local time that exists reads back from the zoned date-time as it was, whichever
  policy chose between two; one that does not becomes the moment of the transition (earliest) or the
  nanosecond before it (latest).\<close>

theorem zoned_resolution:
  assumes "locate_zone_or_throw L zid = Inr zone" "consistent_zone zone" "fits64 (plain_count p)"
  shows "let info = tz_local zone (plain_count p); n = local_target info dis (plain_count p);
             z = \<lparr>zoned_instant = Instant n, zoned_zone_id = zid\<rparr> in
    zoned_from_plain L p zid dis =
      (if refused info dis then Inl (Invalid_argument ''rejected ambiguous or nonexistent temporal local time'')
       else if fits64 n then Inr z else Inl arithmetic_overflow)
    \<and> (fits64 n \<and> li_result info \<noteq> NonexistentTime \<longrightarrow> zoned_fields L z = Inr (plain_fields p))"
proof -
  define l info where "l = plain_count p" and "info = tz_local zone l"
  define n where "n = local_target info dis l"
  have from_plain: "zoned_from_plain L p zid dis =
      bind_result (resolve_local zone l dis) (\<lambda>n. Inr \<lparr>zoned_instant = Instant n, zoned_zone_id = zid\<rparr>)"
    by (simp add: zoned_from_plain_def assms(1) l_def)
  have "zoned_from_plain L p zid dis =
      (if refused info dis then Inl (Invalid_argument ''rejected ambiguous or nonexistent temporal local time'')
       else if fits64 n then Inr \<lparr>zoned_instant = Instant n, zoned_zone_id = zid\<rparr> else Inl arithmetic_overflow)"
  proof (cases "refused info dis")
    case True
    then show ?thesis unfolding from_plain by (simp add: resolve_local_def Let_def refused_def info_def)
  next
    case False
    then show ?thesis
      using resolve_local_exact [OF assms(2), of l dis] assms(3)
      by (simp add: from_plain info_def [symmetric] n_def [symmetric] l_def [symmetric] exact_def)
  qed
  moreover have "zoned_fields L \<lparr>zoned_instant = Instant n, zoned_zone_id = zid\<rparr> = Inr (plain_fields p)"
    if fits: "fits64 n" and exists: "li_result info \<noteq> NonexistentTime"
  proof -
    have rules: "let rules = {li_first info, li_second info} in
     (\<forall>r \<in> rules. \<bar>si_offset r\<bar> < 86400 \<and> fits64 (si_begin r) \<and> fits64 (si_end r)) \<and>
     (case li_result info of
        UniqueTime \<Rightarrow> si_offset (tz_sys zone (l - si_offset (li_first info) * nanos_per_second)) = si_offset (li_first info)
      | AmbiguousTime \<Rightarrow> (\<forall>r \<in> rules. si_offset (tz_sys zone (l - si_offset r * nanos_per_second)) = si_offset r)
      | NonexistentTime \<Rightarrow> si_end (li_first info) = si_begin (li_second info))"
      using assms(2) unfolding consistent_zone_def Let_def info_def by blast
    define r where "r = (if li_result info = AmbiguousTime \<and> dis \<noteq> Earliest then li_second info else li_first info)"
    have r: "n = l - si_offset r * nanos_per_second" "\<bar>si_offset r\<bar> < 86400"
        "si_offset (tz_sys zone (l - si_offset r * nanos_per_second)) = si_offset r"
      using rules exists unfolding n_def local_target_def r_def by (cases "li_result info"; simp add: Let_def)+
    from zoned_fields_at [OF assms(1) _ r(2) _ r(3)] assms(3) fits show ?thesis
      by (simp add: r(1) l_def plain_fields_def)
  qed
  ultimately show ?thesis by (simp add: Let_def n_def info_def l_def)
qed

text \<open>A zone an hour east of Greenwich.\<close>

definition example_info :: sys_info where
  "example_info = \<lparr>si_begin = 0, si_end = 100, si_offset = 3600\<rparr>"

definition example_zone :: time_zone where
  "example_zone = \<lparr>tz_sys = (\<lambda>_. example_info),
     tz_local = (\<lambda>_. \<lparr>li_result = UniqueTime, li_first = example_info, li_second = example_info\<rparr>)\<rparr>"

definition example_tz :: tz_library where
  "example_tz = Inr \<lparr>db_version = ''2026a'', db_locate = (\<lambda>_. Inr example_zone)\<rparr>"

lemma example_zone: "locate_zone_or_throw example_tz zid = Inr example_zone" "consistent_zone example_zone" "tz_fits example_tz"
  by (auto simp: locate_zone_or_throw_def example_tz_def consistent_zone_def example_zone_def example_info_def
      tz_fits_def small_fits)

theorem zoned_resolution_witness:
  "zoned_from_plain example_tz (PlainDateTime 0) ''Europe/Berlin'' Reject
     = Inr \<lparr>zoned_instant = Instant (- 3600000000000), zoned_zone_id = ''Europe/Berlin''\<rparr>"
proof -
  have "fits64 (plain_count (PlainDateTime 0))" "fits64 (- 3600000000000)" by (simp_all add: small_fits)
  moreover have "local_target (tz_local example_zone 0) Reject 0 = - 3600000000000" "\<not> refused (tz_local example_zone 0) Reject"
    by (simp_all add: local_target_def refused_def example_zone_def example_info_def nanos_per_second_def)
  moreover have "locate_zone_or_throw example_tz ''Europe/Berlin'' = Inr example_zone" by (rule example_zone(1))
  ultimately show ?thesis
    using zoned_resolution [OF _ example_zone(2), of example_tz "''Europe/Berlin''" "PlainDateTime 0" Reject] by (simp add: Let_def)
qed

theorem values_fit_witness:
  "instant_made example_tz (Instant (- 3600000000000)) \<and> fits64 (instant_count (Instant (- 3600000000000)))"
proof -
  have "plain_made example_tz (PlainDateTime 0)"
    by (rule plain_of_fields [of 1970 1 1 0 0 0 0]) code_simp
  moreover have "zoned_from_plain example_tz (PlainDateTime 0) ''Europe/Berlin'' Reject
      = Inr \<lparr>zoned_instant = Instant (- 3600000000000), zoned_zone_id = ''Europe/Berlin''\<rparr>" by code_simp
  with resolved [OF calculation this] have "instant_made example_tz (Instant (- 3600000000000))" by simp
  moreover have "duration_made example_tz (duration_from_nanoseconds 0)" by (rule nanoseconds) (simp add: small_fits)
  ultimately show ?thesis using values_fit [OF example_zone(3)] by blast
qed

section \<open>Where the conversions wrap and narrow\<close>

text \<open>
  The date library converts the floor of a moment back to nanoseconds. In the first, incomplete day of the
  64-bit range that product is below the range (a signed overflow, which the model writes as the
  usual wrap-around): the fields are right only because the subtraction wraps back.
\<close>

lemma first_day_overflows: "date_floor nanos_per_day i64_min * nanos_per_day < i64_min"
  by (simp add: date_floor_eq unit_fits) (simp add: unit_defs i64_min_def)

text \<open>A month or a day is narrowed to eight bits before it is validated: month 257 is January.\<close>

lemma month_narrowed: "plain_from_fields 1970 257 (- 255) 0 0 0 0 = Inr (PlainDateTime 0)"
  by code_simp

end
