(* ===== verification/Dotenv.thy ===== *)
theory Dotenv
  imports Prelude "HOL-Library.Sublist"
begin

text \<open>
  \<open>dotenv.cpp\<close>: reading assignments from a file into the environment. Characters are classified as in the C
  locale; the environment is a map. A string given to the system ends at its first NUL.
\<close>

section \<open>Characters\<close>

definition code_of :: "char \<Rightarrow> nat" where
  "code_of c = of_char c"

definition isspace :: "char \<Rightarrow> bool" where
  "isspace c \<longleftrightarrow> code_of c = 32 \<or> (9 \<le> code_of c \<and> code_of c \<le> 13)"

definition isalpha :: "char \<Rightarrow> bool" where
  "isalpha c \<longleftrightarrow> (65 \<le> code_of c \<and> code_of c \<le> 90) \<or> (97 \<le> code_of c \<and> code_of c \<le> 122)"

definition isalnum :: "char \<Rightarrow> bool" where
  "isalnum c \<longleftrightarrow> isalpha c \<or> (48 \<le> code_of c \<and> code_of c \<le> 57)"

definition newline :: char where "newline = char_of (10 :: nat)"
definition carriage_return :: char where "carriage_return = char_of (13 :: nat)"
definition tabulator :: char where "tabulator = char_of (9 :: nat)"
definition backslash :: char where "backslash = char_of (92 :: nat)"
definition double_quote :: char where "double_quote = char_of (34 :: nat)"
definition single_quote :: char where "single_quote = char_of (39 :: nat)"
definition nul :: char where "nul = char_of (0 :: nat)"

section \<open>One line\<close>

text \<open>The first loop skips spaces at the front, the second the spaces at the end of what is left.\<close>

definition trim_copy :: "string \<Rightarrow> string" where
  "trim_copy input = rev (dropWhile isspace (rev (dropWhile isspace input)))"

definition is_valid_key :: "string \<Rightarrow> bool" where
  "is_valid_key key = (case key of
      [] \<Rightarrow> False
    | first # _ \<Rightarrow> (isalpha first \<or> first = CHR ''_'') \<and> list_all (\<lambda>c. isalnum c \<or> c = CHR ''_'') key)"

definition escaped_char :: "char \<Rightarrow> char" where
  "escaped_char c = (if c = CHR ''n'' then newline else if c = CHR ''r'' then carriage_return
     else if c = CHR ''t'' then tabulator else c)"

text \<open>The loop over the characters between the quotes; an escape needs a character inside them.\<close>

fun unquote :: "char \<Rightarrow> string \<Rightarrow> string" where
  "unquote quote [] = []"
| "unquote quote [c] = [c]"
| "unquote quote (c # d # s) =
    (if quote = double_quote \<and> c = backslash then escaped_char d # unquote quote s
     else c # unquote quote (d # s))"

definition parse_quoted_value :: "string \<Rightarrow> char \<Rightarrow> string" where
  "parse_quoted_value val quote = unquote quote (butlast (tl val))"

text \<open>The text before a \<open>#\<close> that begins the value or follows a space; \<open>None\<close> if there is none.\<close>

fun before_comment :: "char option \<Rightarrow> string \<Rightarrow> string option" where
  "before_comment prev [] = None"
| "before_comment prev (c # s) =
    (if c = CHR ''#'' \<and> (case prev of None \<Rightarrow> True | Some p \<Rightarrow> isspace p) then Some []
     else map_option ((#) c) (before_comment (Some c) s))"

definition parse_value :: "string \<Rightarrow> string" where
  "parse_value raw =
    (let val = trim_copy raw in
     if length val \<ge> 2 \<and> (hd val = double_quote \<or> hd val = single_quote) \<and> hd val = last val
     then parse_quoted_value val (hd val)
     else case before_comment None val of None \<Rightarrow> val | Some v \<Rightarrow> trim_copy v)"

definition parse_dotenv_assignment :: "string \<Rightarrow> (string \<times> string) option" where
  "parse_dotenv_assignment raw_line =
    (let line = trim_copy raw_line in
     if line = [] \<or> hd line = CHR ''#'' then None
     else
       let line = (if prefix ''export '' line then trim_copy (drop 7 line) else line) in
       if CHR ''='' \<notin> set line then None
       else
         let key = trim_copy (takeWhile (\<lambda>c. c \<noteq> CHR ''='') line);
             val = tl (dropWhile (\<lambda>c. c \<noteq> CHR ''='') line)
         in if \<not> is_valid_key key then None else Some (key, parse_value val))"

section \<open>The environment and the file\<close>

type_synonym environment = "string \<rightharpoonup> string"

text \<open>\<open>setenv\<close> fails for an empty name and for one with \<open>=\<close>; otherwise it keeps an existing value unless told
  to override it.\<close>

definition set_env_var :: "string \<Rightarrow> string \<Rightarrow> bool \<Rightarrow> environment \<Rightarrow> bool \<times> environment" where
  "set_env_var key val override_existing env =
    (let key = takeWhile (\<lambda>c. c \<noteq> nul) key; val = takeWhile (\<lambda>c. c \<noteq> nul) val in
     if key = [] \<or> CHR ''='' \<in> set key then (False, env)
     else if \<not> override_existing \<and> env key \<noteq> None then (True, env)
     else (True, env(key \<mapsto> val)))"

text \<open>\<open>std::getline\<close> until the end of the file: a last line without a newline counts if it is not empty.\<close>

function (sequential) getlines :: "string \<Rightarrow> string list" where
  "getlines [] = []"
| "getlines s = takeWhile (\<lambda>c. c \<noteq> newline) s # getlines (tl (dropWhile (\<lambda>c. c \<noteq> newline) s))"
  by pat_completeness auto

termination
proof (relation "measure length")
  fix c s
  have "length (tl (dropWhile (\<lambda>c. c \<noteq> newline) (c # s))) \<le> length s"
    using length_dropWhile_le [of "\<lambda>c. c \<noteq> newline" s] by (simp add: le_diff_conv)
  then show "(tl (dropWhile (\<lambda>c. c \<noteq> newline) (c # s)), c # s) \<in> measure length" by simp
qed simp

definition load_line :: "bool \<Rightarrow> string \<Rightarrow> environment \<Rightarrow> environment" where
  "load_line override_existing line env = (case parse_dotenv_assignment line of
      None \<Rightarrow> env
    | Some (key, val) \<Rightarrow> snd (set_env_var key val override_existing env))"

text \<open>\<open>None\<close> stands for a file that cannot be opened.\<close>

definition load_dotenv_file :: "string option \<Rightarrow> bool \<Rightarrow> environment \<Rightarrow> bool \<times> environment" where
  "load_dotenv_file file override_existing env = (case file of
      None \<Rightarrow> (False, env)
    | Some contents \<Rightarrow> (True, fold (load_line override_existing) (getlines contents) env))"

end
