(* ===== verification/Dotenv_Properties.thy ===== *)
theory Dotenv_Properties
  imports Dotenv
begin

text \<open>
  What loading a file of assignments promises: text written from assignments loads as those assignments,
  and no text does more than assign valid keys.
\<close>

section \<open>Trimming and quoting\<close>

lemma trim_copy_id: "s \<noteq> [] \<Longrightarrow> \<not> isspace (hd s) \<Longrightarrow> \<not> isspace (last s) \<Longrightarrow> trim_copy s = s"
proof -
  assume s: "s \<noteq> []" "\<not> isspace (hd s)" "\<not> isspace (last s)"
  then have "dropWhile isspace s = s" by (cases s) simp_all
  moreover have "dropWhile isspace (rev s) = rev s" using s by (cases "rev s") (auto simp: hd_rev [symmetric])
  ultimately show ?thesis by (simp add: trim_copy_def)
qed

lemma trim_copy_ends:
  assumes "trim_copy s \<noteq> []"
  shows "\<not> isspace (hd (trim_copy s))" "\<not> isspace (last (trim_copy s))"
proof -
  define t where "t = dropWhile isspace s"
  have ne: "dropWhile isspace (rev t) \<noteq> []" using assms by (simp add: trim_copy_def t_def)
  then show "\<not> isspace (last (trim_copy s))"
    using hd_dropWhile [OF ne] by (simp add: trim_copy_def t_def [symmetric] last_rev)
  obtain u where u: "rev t = u @ dropWhile isspace (rev t)" by (metis takeWhile_dropWhile_id)
  then have "t = rev (dropWhile isspace (rev t)) @ rev u" by (metis rev_append rev_rev_ident)
  then have "hd t = hd (rev (dropWhile isspace (rev t)))" using ne by (metis hd_append2 rev_is_Nil_conv)
  moreover have "t \<noteq> []" using ne by auto
  then have "\<not> isspace (hd t)" unfolding t_def by (rule hd_dropWhile)
  ultimately show "\<not> isspace (hd (trim_copy s))" by (simp add: trim_copy_def t_def [symmetric])
qed

definition escape_char :: "char \<Rightarrow> string" where
  "escape_char c =
    (if c = newline then [backslash, CHR ''n''] else if c = carriage_return then [backslash, CHR ''r'']
     else if c = tabulator then [backslash, CHR ''t''] else if c = backslash then [backslash, backslash] else [c])"

definition escape :: "string \<Rightarrow> string" where
  "escape s = concat (map escape_char s)"

lemma unquote_plain: "c \<noteq> backslash \<Longrightarrow> unquote q (c # s) = c # unquote q s"
  by (cases s) simp_all

lemma escaped_back:
  "escaped_char CHR ''n'' = newline" "escaped_char CHR ''r'' = carriage_return" "escaped_char CHR ''t'' = tabulator"
  "escaped_char backslash = backslash"
  by code_simp+

lemma unquote_escape: "unquote double_quote (escape s) = s"
proof (induction s)
  case (Cons c s)
  have "unquote double_quote (escape_char c @ t) = c # unquote double_quote t" for t
    by (auto simp: escape_char_def unquote_plain escaped_back)
  with Cons show ?case by (simp add: escape_def)
qed (simp add: escape_def)

section \<open>Written assignments\<close>

definition assignment_text :: "string \<times> string \<Rightarrow> string" where
  "assignment_text kv = fst kv @ CHR ''='' # double_quote # escape (snd kv) @ [double_quote]"

definition file_text :: "(string \<times> string) list \<Rightarrow> string" where
  "file_text kvs = concat (map (\<lambda>kv. assignment_text kv @ [newline]) kvs)"

lemma special_codes:
  "\<not> isspace double_quote" "double_quote \<noteq> newline" "backslash \<noteq> newline" "\<not> isalnum CHR ''=''" "CHR ''='' \<noteq> newline"
  "\<not> isalnum newline" "\<not> isalnum nul" "nul \<noteq> CHR ''_''" "newline \<noteq> CHR ''_''" "CHR ''n'' \<noteq> newline" "CHR ''r'' \<noteq> newline"
  "CHR ''t'' \<noteq> newline" "\<not> isspace CHR ''_''" "\<not> isalnum CHR '' ''" "\<not> isalpha CHR ''#''"
  by code_simp+

lemma isspace_not_alnum: "isalnum c \<Longrightarrow> \<not> isspace c"
  by (auto simp: isalnum_def isalpha_def isspace_def)

lemma valid_key_chars:
  assumes "is_valid_key k"
  shows "k \<noteq> []" "isalpha (hd k) \<or> hd k = CHR ''_''" "\<And>c. c \<in> set k \<Longrightarrow> isalnum c \<or> c = CHR ''_''"
  using assms by (auto simp: is_valid_key_def list_all_iff split: list.splits)

lemma valid_key_free:
  assumes "is_valid_key k"
  shows "CHR ''='' \<notin> set k" "newline \<notin> set k" "nul \<notin> set k" "CHR '' '' \<notin> set k" "\<And>c. c \<in> set k \<Longrightarrow> \<not> isspace c"
  using valid_key_chars(3) [OF assms] special_codes isspace_not_alnum by fastforce+

lemma trim_valid_key: "is_valid_key k \<Longrightarrow> trim_copy k = k"
  using valid_key_chars(1) [of k] valid_key_free(5) [of k] by (intro trim_copy_id) simp_all

lemma split_at_first:
  assumes "a \<notin> set xs"
  shows "takeWhile (\<lambda>c. c \<noteq> a) xs = xs" "takeWhile (\<lambda>c. c \<noteq> a) (xs @ a # r) = xs" "dropWhile (\<lambda>c. c \<noteq> a) (xs @ a # r) = a # r"
  using assms by (induction xs) auto

lemma parse_value_quoted: "parse_value (double_quote # escape v @ [double_quote]) = v"
proof -
  have "trim_copy (double_quote # escape v @ [double_quote]) = double_quote # escape v @ [double_quote]"
    using special_codes(1) by (intro trim_copy_id) simp_all
  then show ?thesis by (simp add: parse_value_def parse_quoted_value_def butlast_append unquote_escape)
qed

lemma parse_assignment_text:
  assumes "is_valid_key k"
  shows "parse_dotenv_assignment (assignment_text (k, v)) = Some (k, v)"
proof -
  let ?val = "double_quote # escape v @ [double_quote]"
  let ?line = "k @ CHR ''='' # ?val"
  note key = valid_key_chars [OF assms] valid_key_free [OF assms]
  have trim: "trim_copy ?line = ?line"
    using key(1,8) special_codes(1) by (intro trim_copy_id) simp_all
  have hash: "hd ?line \<noteq> CHR ''#''" using key(1,2) special_codes(15) by auto
  have "\<not> prefix ''export '' ?line"
  proof
    assume "prefix ''export '' ?line"
    then obtain z where "?line = ''export '' @ z" by (auto simp: prefix_def)
    then have "k = takeWhile (\<lambda>c. c \<noteq> CHR ''='') (''export '' @ z)" using split_at_first(2) [OF key(4)] by metis
    then have "CHR '' '' \<in> set k" by simp
    with key(7) show False by simp
  qed
  moreover have "dropWhile (\<lambda>c. c \<noteq> CHR ''='') ?line = CHR ''='' # ?val"
    by (rule split_at_first(3) [OF key(4)])
  ultimately show ?thesis
    using trim hash key(1) split_at_first(2) [OF key(4)] trim_valid_key [OF assms] assms parse_value_quoted
    by (simp add: parse_dotenv_assignment_def assignment_text_def Let_def)
qed

lemma escape_no_newline: "newline \<notin> set (escape v)"
  using special_codes by (auto simp: escape_def escape_char_def)

lemma getlines_line: "newline \<notin> set l \<Longrightarrow> getlines (l @ newline # r) = l # getlines r"
proof -
  assume l: "newline \<notin> set l"
  obtain c s where cs: "l @ newline # r = c # s" by (cases l) auto
  have "takeWhile (\<lambda>c. c \<noteq> newline) (l @ newline # r) = l" "dropWhile (\<lambda>c. c \<noteq> newline) (l @ newline # r) = newline # r"
    by (rule split_at_first(2,3) [OF l])+
  then show ?thesis unfolding cs by simp
qed

lemma getlines_file:
  "\<forall>kv \<in> set kvs. is_valid_key (fst kv) \<Longrightarrow> getlines (file_text kvs) = map assignment_text kvs"
proof (induction kvs)
  case (Cons kv kvs)
  have "newline \<notin> set (assignment_text kv)"
    using Cons.prems valid_key_free(2) [of "fst kv"] escape_no_newline special_codes by (auto simp: assignment_text_def)
  with Cons show ?case using getlines_line by (simp add: file_text_def)
qed (simp add: file_text_def)

section \<open>Properties\<close>

text \<open>The assignments themselves, applied in order.\<close>

definition assign :: "bool \<Rightarrow> string \<times> string \<Rightarrow> environment \<Rightarrow> environment" where
  "assign override_existing kv env =
    (if \<not> override_existing \<and> env (fst kv) \<noteq> None then env else env(fst kv \<mapsto> snd kv))"

lemma set_env_var_valid:
  assumes "is_valid_key k"
  shows "set_env_var k v ov env = (True, assign ov (k, takeWhile (\<lambda>c. c \<noteq> nul) v) env)"
proof -
  note k = split_at_first(1) [OF valid_key_free(3) [OF assms]]
  show ?thesis
    using valid_key_chars(1) [OF assms] valid_key_free(1) [OF assms]
    by (simp add: set_env_var_def assign_def Let_def k)
qed

lemma parsed_key_valid: "parse_dotenv_assignment l = Some (k, v) \<Longrightarrow> is_valid_key k"
  by (simp add: parse_dotenv_assignment_def Let_def split: if_splits)

text \<open>C21: a file written from assignments loads as those assignments. For any list of valid keys with any values
  free of NUL, written one to a line with the value quoted and its line breaks, tabulators and
  backslashes escaped, loading makes exactly these assignments in order, the later ones winning when
  existing variables are overridden and the first one, or the variable that was there, when not.\<close>

theorem file_round_trip:
  assumes "\<forall>kv \<in> set kvs. is_valid_key (fst kv) \<and> nul \<notin> set (snd kv)"
  shows "load_dotenv_file (Some (file_text kvs)) ov env = (True, fold (assign ov) kvs env)"
proof -
  have lines: "getlines (file_text kvs) = map assignment_text kvs" using assms by (simp add: getlines_file)
  have "fold (load_line ov) (map assignment_text kvs) env = fold (assign ov) kvs env"
    using assms
  proof (induction kvs arbitrary: env)
    case (Cons kv kvs)
    obtain k v where kv: "kv = (k, v)" by (cases kv)
    then have "nul \<notin> set v" "is_valid_key k" using Cons.prems by simp_all
    note v = split_at_first(1) [OF this(1)] and line = parse_assignment_text [OF this(2)] set_env_var_valid [OF this(2)]
    have "load_line ov (assignment_text kv) env = assign ov kv env"
      by (simp add: load_line_def kv line v)
    with Cons show ?case by simp
  qed simp
  then show ?thesis by (simp add: load_dotenv_file_def lines)
qed

theorem file_round_trip_witness:
  "load_dotenv_file (Some (file_text [(''A'', [newline, backslash, CHR ''#'']), (''A_1'', ''x y'')])) True Map.empty
    = (True, [''A'' \<mapsto> [newline, backslash, CHR ''#''], ''A_1'' \<mapsto> ''x y''])"
proof -
  have "\<forall>kv \<in> set [(''A'', [newline, backslash, CHR ''#'']), (''A_1'', ''x y'')]. is_valid_key (fst kv) \<and> nul \<notin> set (snd kv)"
    by code_simp
  from file_round_trip [OF this, of True Map.empty] show ?thesis by (simp add: assign_def)
qed

text \<open>Loading a file does nothing but assign. Whatever the file holds, a variable that differs afterwards has a
  valid key and the value of some line that assigns it, up to its first NUL; none is removed; and
  unless asked to override, none that existed is changed.\<close>

theorem loading_only_assigns:
  assumes "snd (load_dotenv_file source ov env) k \<noteq> env k"
  shows "is_valid_key k \<and> (ov \<or> env k = None)
    \<and> (\<exists>contents line v. source = Some contents \<and> line \<in> set (getlines contents)
        \<and> parse_dotenv_assignment line = Some (k, v)
        \<and> snd (load_dotenv_file source ov env) k = Some (takeWhile (\<lambda>c. c \<noteq> nul) v))"
proof (cases source)
  case None
  with assms show ?thesis by (simp add: load_dotenv_file_def)
next
  case (Some contents)
  have lines: "fold (load_line ov) ls env k = env k \<or> is_valid_key k \<and> (ov \<or> env k = None) \<and>
      (\<exists>l \<in> set ls. \<exists>v. parse_dotenv_assignment l = Some (k, v) \<and> fold (load_line ov) ls env k = Some (takeWhile (\<lambda>c. c \<noteq> nul) v))" for ls
  proof (induction ls rule: rev_induct)
    case (snoc l ls)
    let ?e = "fold (load_line ov) ls env"
    show ?case
    proof (cases "load_line ov l ?e k = ?e k")
      case True
      with snoc show ?thesis by auto
    next
      case False
      then obtain k' v where l': "parse_dotenv_assignment l = Some (k', v)"
        by (cases "parse_dotenv_assignment l") (auto simp: load_line_def)
      have e: "load_line ov l ?e = assign ov (k', takeWhile (\<lambda>c. c \<noteq> nul) v) ?e"
        by (simp add: load_line_def l' set_env_var_valid [OF parsed_key_valid [OF l']])
      with False have "k' = k" by (auto simp: assign_def split: if_splits)
      note l = l' [unfolded this] and e = e [unfolded this]
      from e False have "ov \<or> ?e k = None" "load_line ov l ?e k = Some (takeWhile (\<lambda>c. c \<noteq> nul) v)"
        by (auto simp: assign_def split: if_splits)
      with l snoc parsed_key_valid [OF l] show ?thesis by auto
    qed
  qed simp
  have load: "snd (load_dotenv_file source ov env) = fold (load_line ov) (getlines contents) env"
    by (simp add: load_dotenv_file_def Some)
  from lines [of "getlines contents"] assms obtain l v where "is_valid_key k" "ov \<or> env k = None"
      "l \<in> set (getlines contents)" "parse_dotenv_assignment l = Some (k, v)"
      "fold (load_line ov) (getlines contents) env k = Some (takeWhile (\<lambda>c. c \<noteq> nul) v)"
    unfolding load by auto
  then show ?thesis using Some load by auto
qed

theorem loading_only_assigns_witness:
  "is_valid_key ''B'' \<and> snd (load_dotenv_file (Some ''B=1'') False Map.empty) ''B'' \<noteq> None"
proof -
  have "snd (load_dotenv_file (Some ''B=1'') False Map.empty) ''B'' \<noteq> Map.empty ''B''" by code_simp
  from loading_only_assigns [OF this] this show ?thesis by simp
qed

end
