(* ===== verification/Script_Callbacks.thy ===== *)
theory Script_Callbacks
  imports Prelude
begin

text \<open>
  The callback registry of the script engine, \<open>src/src/lua_callbacks.cpp\<close>: scripts register functions and get
  ids, producers of any thread enqueue work for an id, and the main thread dispatches the queue. A dispatched
  callback may itself register, unregister, enqueue and dispatch, and other threads go on meanwhile: the
  vectors of items of the dispatches in progress are part of the state (\<open>cb_frames\<close>, the innermost first), and
  the log records what happened to every item.

  A function of the script engine is a number, or the invalid function; a payload builder is a number, or none.
\<close>

section \<open>State\<close>

record pending =
  p_id :: nat
  p_builder :: "nat option"

datatype script_fn = Script_fn nat | Invalid_fn

datatype cb_event =
  Enqueued pending
| Invoked pending nat  \<comment> \<open>the item, and the function the registry held for its id\<close>
| Skipped pending      \<comment> \<open>taken by a dispatch, but its id was retired or unknown\<close>
| Discarded pending    \<comment> \<open>removed from the queue by \<open>discard_ids\<close> or \<open>shutdown\<close>\<close>
| Abandoned pending    \<comment> \<open>left in the vector of a dispatch that an exception ended\<close>
| Captured nat string  \<comment> \<open>the error of a callback, reported under its id\<close>

record callbacks =
  cb_next :: nat
  cb_registry :: "nat \<rightharpoonup> script_fn"
  cb_deferred :: "nat set"
  cb_retired :: "nat set"
  cb_queue :: "pending list"
  cb_depth :: nat
  cb_frames :: "pending list list"
  cb_log :: "cb_event list"

definition initial_callbacks :: callbacks where
  "initial_callbacks = \<lparr>cb_next = 1, cb_registry = Map.empty, cb_deferred = {}, cb_retired = {},
     cb_queue = [], cb_depth = 0, cb_frames = [], cb_log = []\<rparr>"

definition note_cb :: "cb_event list \<Rightarrow> callbacks \<Rightarrow> callbacks" where
  "note_cb es s = s\<lparr>cb_log := cb_log s @ es\<rparr>"

section \<open>Taking items from the queue\<close>

text \<open>The scan of \<open>take_pending_callbacks\<close>; the last two arguments are \<open>to_process\<close> and \<open>remaining\<close>.\<close>

fun take_scan :: "(nat \<Rightarrow> bool) \<Rightarrow> nat \<Rightarrow> pending list \<Rightarrow> pending list \<Rightarrow> pending list
    \<Rightarrow> pending list \<times> pending list" where
  "take_scan allowed n [] out rest = (out, rest)"
| "take_scan allowed n (x # xs) out rest =
    (if allowed (p_id x) \<and> (n = 0 \<or> length out < n)
     then take_scan allowed n xs (out @ [x]) rest
     else take_scan allowed n xs out (rest @ [x]))"

definition take_pending_callbacks :: "nat set option \<Rightarrow> nat \<Rightarrow> callbacks \<Rightarrow> pending list \<times> callbacks" where
  "take_pending_callbacks allowed n s =
    (if cb_queue s = [] then ([], s)
     else if allowed = None \<and> (n = 0 \<or> n \<ge> length (cb_queue s))
     then (cb_queue s, s\<lparr>cb_queue := []\<rparr>)
     else case take_scan (\<lambda>i. case allowed of None \<Rightarrow> True | Some A \<Rightarrow> i \<in> A) n (cb_queue s) [] [] of
       (out, rest) \<Rightarrow> (out, s\<lparr>cb_queue := rest\<rparr>))"

section \<open>Registering and enqueuing\<close>

definition lua_callbacks_register :: "script_fn \<Rightarrow> callbacks \<Rightarrow> nat \<times> callbacks" where
  "lua_callbacks_register f s =
    (cb_next s, s\<lparr>cb_next := (cb_next s + 1) mod 2 ^ 64, cb_registry := (cb_registry s)(cb_next s \<mapsto> f)\<rparr>)"

text \<open>The first argument is \<open>dispatch_depth\<close> of the calling thread.\<close>

definition lua_callbacks_unregister :: "nat \<Rightarrow> nat \<Rightarrow> callbacks \<Rightarrow> bool \<times> callbacks" where
  "lua_callbacks_unregister depth i s =
    (if depth > 0
     then (cb_registry s i \<noteq> None, s\<lparr>cb_deferred := insert i (cb_deferred s)\<rparr>)
     else (cb_registry s i \<noteq> None,
           s\<lparr>cb_retired := cb_retired s - {i}, cb_registry := (cb_registry s)(i := None)\<rparr>))"

definition lua_callbacks_enqueue :: "nat \<Rightarrow> nat option \<Rightarrow> callbacks \<Rightarrow> callbacks" where
  "lua_callbacks_enqueue i b s =
    (let p = \<lparr>p_id = i, p_builder = b\<rparr> in note_cb [Enqueued p] (s\<lparr>cb_queue := cb_queue s @ [p]\<rparr>))"

section \<open>Discarding, retiring, ending\<close>

definition lua_callbacks_discard_ids :: "nat list \<Rightarrow> callbacks \<Rightarrow> callbacks" where
  "lua_callbacks_discard_ids ids s =
    (if ids = [] \<or> cb_queue s = [] then s
     else note_cb (map Discarded (filter (\<lambda>p. p_id p \<in> set ids) (cb_queue s)))
       (s\<lparr>cb_queue := filter (\<lambda>p. p_id p \<notin> set ids) (cb_queue s)\<rparr>))"

text \<open>The section under the registry's mutex.\<close>

definition mark_retired :: "nat list \<Rightarrow> callbacks \<Rightarrow> callbacks" where
  "mark_retired ids s = s\<lparr>cb_retired := set ids \<union> cb_retired s\<rparr>"

definition lua_callbacks_retire_ids :: "nat list \<Rightarrow> callbacks \<Rightarrow> callbacks" where
  "lua_callbacks_retire_ids ids s =
    (if ids = [] then s else lua_callbacks_discard_ids ids (mark_retired ids s))"

definition clear_registry :: "callbacks \<Rightarrow> callbacks" where
  "clear_registry s = s\<lparr>cb_registry := Map.empty, cb_deferred := {}, cb_retired := {}\<rparr>"

definition clear_queue :: "callbacks \<Rightarrow> callbacks" where
  "clear_queue s = note_cb (map Discarded (cb_queue s)) (s\<lparr>cb_queue := []\<rparr>)"

definition lua_callbacks_shutdown :: "callbacks \<Rightarrow> callbacks" where
  "lua_callbacks_shutdown s = clear_queue (clear_registry s)"

section \<open>Dispatching\<close>

definition flush_deferred_unregistrations :: "callbacks \<Rightarrow> callbacks" where
  "flush_deferred_unregistrations s =
    (if cb_depth s \<noteq> 0 \<or> cb_deferred s = {} then s
     else s\<lparr>cb_registry := (\<lambda>i. if i \<in> cb_deferred s then None else cb_registry s i),
            cb_retired := cb_retired s - cb_deferred s, cb_deferred := {}\<rparr>)"

text \<open>Taking the items and the constructor of \<open>DispatchScope\<close>: none when there is nothing to process.\<close>

definition open_dispatch :: "nat set option \<Rightarrow> nat \<Rightarrow> callbacks \<Rightarrow> (pending list \<times> callbacks) option" where
  "open_dispatch allowed n s =
    (case take_pending_callbacks allowed n s of (items, s1) \<Rightarrow>
       if items = [] then None
       else Some (items, s1\<lparr>cb_depth := cb_depth s1 + 1, cb_frames := items # cb_frames s1\<rparr>))"

text \<open>The destructor of \<open>DispatchScope\<close>; items left in the vector die with it.\<close>

definition close_dispatch :: "callbacks \<Rightarrow> callbacks" where
  "close_dispatch s =
    flush_deferred_unregistrations
      (note_cb (map Abandoned (hd (cb_frames s)))
        (s\<lparr>cb_depth := (if cb_depth s > 0 then cb_depth s - 1 else cb_depth s), cb_frames := tl (cb_frames s)\<rparr>))"

text \<open>
  The look-up that begins an iteration: the function the item is for, if it is to be called. The call is
  decided here, where the mutex is released.
\<close>

definition look_up_item :: "pending \<Rightarrow> callbacks \<Rightarrow> nat option" where
  "look_up_item x s =
    (if p_id x \<in> cb_retired s then None
     else case cb_registry s (p_id x) of Some (Script_fn f) \<Rightarrow> Some f | _ \<Rightarrow> None)"

definition begin_item :: "pending \<Rightarrow> callbacks \<Rightarrow> callbacks" where
  "begin_item x s =
    note_cb [case look_up_item x s of None \<Rightarrow> Skipped x | Some f \<Rightarrow> Invoked x f]
      (s\<lparr>cb_frames := tl (hd (cb_frames s)) # tl (cb_frames s)\<rparr>)"

text \<open>
  What the script engine does is a parameter: \<open>build\<close> runs a payload builder, which may throw, and \<open>call\<close> runs
  a function in protected mode, whose error, if any, is text. Both may use the registry.
\<close>

record script_engine =
  build :: "nat \<Rightarrow> callbacks \<Rightarrow> callbacks outcome"
  call :: "nat \<Rightarrow> nat option \<Rightarrow> callbacks \<Rightarrow> string option \<times> callbacks"

definition capture_callback_error :: "nat \<Rightarrow> string \<Rightarrow> callbacks \<Rightarrow> callbacks" where
  "capture_callback_error i msg s = note_cb [Captured i msg] s"

definition call_item :: "script_engine \<Rightarrow> pending \<Rightarrow> nat \<Rightarrow> callbacks \<Rightarrow> callbacks" where
  "call_item E x f s =
    (case call E f (p_builder x) s of
       (None, s1) \<Rightarrow> s1
     | (Some msg, s1) \<Rightarrow> capture_callback_error (p_id x) msg s1)"

definition process_item :: "script_engine \<Rightarrow> pending \<Rightarrow> callbacks \<Rightarrow> callbacks outcome" where
  "process_item E x s =
    (case look_up_item x s of
       None \<Rightarrow> ok (begin_item x s)
     | Some f \<Rightarrow>
         and_then (case p_builder x of None \<Rightarrow> ok (begin_item x s) | Some b \<Rightarrow> build E b (begin_item x s))
           (\<lambda>t. ok (call_item E x f t)))"

definition run_dispatch :: "script_engine \<Rightarrow> nat set option \<Rightarrow> nat \<Rightarrow> callbacks \<Rightarrow> (exn option \<times> nat) \<times> callbacks" where
  "run_dispatch E allowed n s =
    (case open_dispatch allowed n s of
       None \<Rightarrow> ((None, 0), s)
     | Some (items, s1) \<Rightarrow>
         case run_all (process_item E) items s1 of (e, s2) \<Rightarrow> ((e, length items), close_dispatch s2))"

definition lua_callbacks_dispatch :: "script_engine \<Rightarrow> nat \<Rightarrow> callbacks \<Rightarrow> callbacks outcome" where
  "lua_callbacks_dispatch E n s = (case run_dispatch E None n s of ((e, _), t) \<Rightarrow> (e, t))"

definition lua_callbacks_dispatch_ids :: "script_engine \<Rightarrow> nat list \<Rightarrow> nat \<Rightarrow> callbacks \<Rightarrow> nat result \<times> callbacks" where
  "lua_callbacks_dispatch_ids E ids n s =
    (if ids = [] then (Inr 0, s)
     else case run_dispatch E (Some (set ids)) n s of
       ((None, k), t) \<Rightarrow> (Inr k, t)
     | ((Some e, _), t) \<Rightarrow> (Inl e, t))"

section \<open>The steps\<close>

text \<open>
  The critical sections, in any order: those of the main thread, whose depth is \<open>cb_depth\<close>, and those of other
  threads, whose depth is 0. A counter of ids about to wrap is not modelled by a step.
\<close>

inductive cb_step :: "callbacks \<Rightarrow> callbacks \<Rightarrow> bool" where
  Register: "cb_next s < 2 ^ 64 - 1 \<Longrightarrow> cb_step s (snd (lua_callbacks_register f s))"
| Unregister: "cb_step s (snd (lua_callbacks_unregister (cb_depth s) i s))"
| Unregister_elsewhere: "cb_step s (snd (lua_callbacks_unregister 0 i s))"
| Enqueue: "cb_step s (lua_callbacks_enqueue i b s)"
| Discard: "cb_step s (lua_callbacks_discard_ids ids s)"
| Mark: "cb_step s (mark_retired ids s)"
| Clear_registry: "cb_step s (clear_registry s)"
| Clear_queue: "cb_step s (clear_queue s)"
| Open: "open_dispatch allowed n s = Some (items, t) \<Longrightarrow> cb_step s t"
| Begin: "cb_frames s = (x # xs) # fs \<Longrightarrow> cb_step s (begin_item x s)"
| Capture: "cb_step s (capture_callback_error i msg s)"
| Close: "cb_frames s \<noteq> [] \<Longrightarrow> cb_step s (close_dispatch s)"

inductive_cases cb_stepE: "cb_step s t"

section \<open>The loop of \<open>callbacks.run-loop\<close>\<close>

text \<open>What the binding library says of an option's value; a double is its sign and its truncation.\<close>

record option_view =
  as_u64 :: "nat option"
  as_int :: "int option"
  as_double :: "(bool \<times> nat) option"

definition negative_option :: exn where
  "negative_option = Runtime_error ''callbacks.run-loop value must be non-negative''"

definition parse_optional_u64 :: "option_view \<Rightarrow> nat option result" where
  "parse_optional_u64 v =
    (case as_u64 v of
       Some n \<Rightarrow> Inr (Some n)
     | None \<Rightarrow>
         (case as_int v of
            Some i \<Rightarrow> if i < 0 then Inl negative_option else Inr (Some (nat i))
          | None \<Rightarrow>
              (case as_double v of
                 Some (neg, n) \<Rightarrow> if neg then Inl negative_option else Inr (Some n)
               | None \<Rightarrow> Inr None)))"

text \<open>The result of the \<open>until\<close> function: an error, a boolean, or another value that is nil or not.\<close>

datatype until_value = Until_bool bool | Until_other bool

definition call_until :: "until_value result \<Rightarrow> bool result" where
  "call_until r = bind_result r (\<lambda>v. case v of Until_bool b \<Rightarrow> Inr b | Until_other present \<Rightarrow> Inr present)"

definition static_cast_longlong :: "nat \<Rightarrow> int" where
  "static_cast_longlong n = sint (word_of_nat n :: i64)"

text \<open>
  One pass of the loop and the loop itself, with fuel. \<open>pass\<close> runs the dispatchers of iteration \<open>k\<close>, \<open>until k\<close> is the
  value the until function yields there, when one was given, \<open>elapsed k\<close> the milliseconds since the start.
\<close>

fun run_loop :: "(nat \<Rightarrow> 's \<Rightarrow> 's outcome) \<Rightarrow> (nat \<Rightarrow> until_value result) option \<Rightarrow> (nat \<Rightarrow> int) \<Rightarrow> nat
    \<Rightarrow> nat \<Rightarrow> nat \<Rightarrow> 's \<Rightarrow> (bool result \<times> 's) option" where
  "run_loop pass until elapsed timeout 0 k s = None"
| "run_loop pass until elapsed timeout (Suc fuel) k s =
    (case pass k s of
       (Some e, t) \<Rightarrow> Some (Inl e, t)
     | (None, t) \<Rightarrow>
         (case (case until of None \<Rightarrow> Inr False | Some u \<Rightarrow> call_until (u k)) of
            Inl e \<Rightarrow> Some (Inl e, t)
          | Inr True \<Rightarrow> Some (Inr True, t)
          | Inr False \<Rightarrow>
              if timeout > 0 \<and> elapsed k \<ge> static_cast_longlong timeout then Some (Inr False, t)
              else run_loop pass until elapsed timeout fuel (k + 1) t))"

end
