(* ===== verification/Script_Callbacks_Properties.thy ===== *)
theory Script_Callbacks_Properties
  imports Script_Callbacks
begin

text \<open>
  What the callback registry guarantees: the queue is drained in order and without loss, an id that was
  retired or unregistered is not called again, an unregistration asked for during a dispatch takes effect
  when the outermost dispatch ends, and the loop of \<open>run-loop\<close> ends with its timeout.
\<close>

section \<open>Taking items\<close>

abbreviation permits :: "nat set option \<Rightarrow> nat \<Rightarrow> bool" where
  "permits allowed i \<equiv> (case allowed of None \<Rightarrow> True | Some A \<Rightarrow> i \<in> A)"

lemma take_scan_out:
  "fst (take_scan a n xs out rest) =
     out @ (if n = 0 then filter (\<lambda>p. a (p_id p)) xs else take (n - length out) (filter (\<lambda>p. a (p_id p)) xs))"
proof (induction a n xs out rest rule: take_scan.induct)
  case (2 a n x xs out rest)
  then show ?case
    by (auto simp: take_Cons')
qed simp

lemma take_scan_per_id:
  assumes "filter (\<lambda>p. p_id p = i) rest = [] \<or> (n \<noteq> 0 \<and> n \<le> length out) \<or> \<not> a i"
  shows "filter (\<lambda>p. p_id p = i) (fst (take_scan a n xs out rest)) @ filter (\<lambda>p. p_id p = i) (snd (take_scan a n xs out rest))
     = filter (\<lambda>p. p_id p = i) out @ filter (\<lambda>p. p_id p = i) rest @ filter (\<lambda>p. p_id p = i) xs"
  using assms
proof (induction a n xs out rest rule: take_scan.induct)
  case (2 a n x xs out rest)
  show ?case
  proof (cases "a (p_id x) \<and> (n = 0 \<or> length out < n)")
    case True
    then show ?thesis
      using "2.IH"(1) "2.prems" by (auto split: if_splits)
  next
    case False
    have "filter (\<lambda>p. p_id p = i) (rest @ [x]) = [] \<or> (n \<noteq> 0 \<and> n \<le> length out) \<or> \<not> a i"
      using False "2.prems" by (auto split: if_splits)
    from "2.IH"(2) [OF False this] show ?thesis
      unfolding take_scan.simps if_not_P [OF False] by (simp only: append_assoc filter_append)
        (simp flip: filter_append)
  qed
qed simp

lemma take_scan_mset:
  "mset (fst (take_scan a n xs out rest)) + mset (snd (take_scan a n xs out rest)) = mset out + mset rest + mset xs"
  by (induction a n xs out rest rule: take_scan.induct) auto

lemma take_pending_state: "snd (take_pending_callbacks allowed n s) = s\<lparr>cb_queue := cb_queue (snd (take_pending_callbacks allowed n s))\<rparr>"
  by (simp add: take_pending_callbacks_def split: prod.splits)

lemma take_pending_mset:
  "mset (fst (take_pending_callbacks allowed n s)) + mset (cb_queue (snd (take_pending_callbacks allowed n s)))
     = mset (cb_queue s)"
  using take_scan_mset [of "permits allowed" n "cb_queue s" "[]" "[]"]
  by (cases "take_scan (permits allowed) n (cb_queue s) [] []") (auto simp: take_pending_callbacks_def)

lemma take_scan_all:
  assumes "\<And>i. a i"
  shows "snd (take_scan a n xs out rest) = rest @ (if n = 0 then [] else drop (n - length out) xs)"
  using assms
proof (induction a n xs out rest rule: take_scan.induct)
  case (2 a n x xs out rest)
  then show ?case
    by (auto simp: drop_Cons')
qed simp

lemma take_scan_all_out:
  assumes "\<And>i. a i"
  shows "fst (take_scan a n xs out rest) = out @ (if n = 0 then xs else take (n - length out) xs)"
  using assms by (simp add: take_scan_out)

interpretation pending_queue: drained_queue cb_queue "take_pending_callbacks None"
proof unfold_locales
  fix n s out t
  assume "take_pending_callbacks None n s = (out, t)"
  then show "out @ cb_queue t = cb_queue s"
    and "length out = (if n = 0 then length (cb_queue s) else min n (length (cb_queue s)))"
    using take_scan_all [of "\<lambda>i. True" n "cb_queue s" "[]" "[]"]
      take_scan_all_out [of "\<lambda>i. True" n "cb_queue s" "[]" "[]"]
    by (auto simp: take_pending_callbacks_def split: if_splits prod.splits)
qed

text \<open>
  What a dispatch takes from the queue. It takes the items of the allowed ids, in the order of the queue and
  at most \<open>n\<close> of them when \<open>n\<close> is not 0; and for every id the items taken and then those left are the
  queue's, in its order, so that no item is lost, doubled or overtaken by another of its id.
\<close>

lemma dispatch_takes_in_order:
  "fst (take_pending_callbacks allowed n s) =
     (let xs = filter (\<lambda>p. case allowed of None \<Rightarrow> True | Some A \<Rightarrow> p_id p \<in> A) (cb_queue s)
      in if n = 0 then xs else take n xs)
   \<and> filter (\<lambda>p. p_id p = i) (fst (take_pending_callbacks allowed n s))
       @ filter (\<lambda>p. p_id p = i) (cb_queue (snd (take_pending_callbacks allowed n s)))
     = filter (\<lambda>p. p_id p = i) (cb_queue s)"
  using take_scan_out [of "permits allowed" n "cb_queue s" "[]" "[]"]
    take_scan_per_id [where a = "permits allowed" and n = n and xs = "cb_queue s" and out = "[]" and rest = "[]" and i = i]
  by (auto simp: take_pending_callbacks_def Let_def split: prod.splits)

section \<open>The invariant of the steps\<close>

lemmas cb_ops = lua_callbacks_register_def lua_callbacks_unregister_def lua_callbacks_enqueue_def
  lua_callbacks_discard_ids_def mark_retired_def clear_registry_def clear_queue_def begin_item_def
  capture_callback_error_def close_dispatch_def flush_deferred_unregistrations_def note_cb_def Let_def

lemma open_dispatch_SomeE:
  assumes "open_dispatch allowed n s = Some (items, t)"
  obtains q where "t = s\<lparr>cb_queue := q, cb_depth := cb_depth s + 1, cb_frames := items # cb_frames s\<rparr>"
    and "mset items + mset q = mset (cb_queue s)" and "items \<noteq> []"
proof -
  obtain s1 where p: "take_pending_callbacks allowed n s = (items, s1)"
    and t: "t = s1\<lparr>cb_depth := cb_depth s1 + 1, cb_frames := items # cb_frames s1\<rparr>" and "items \<noteq> []"
    using assms by (auto simp: open_dispatch_def split: prod.splits if_splits)
  have "s1 = s\<lparr>cb_queue := cb_queue s1\<rparr>"
    using take_pending_state [of allowed n s] p by simp
  then obtain q where s1: "s1 = s\<lparr>cb_queue := q\<rparr>" by blast
  with p take_pending_mset [of allowed n s] t \<open>items \<noteq> []\<close> show thesis
    by (intro that [of q]) simp_all
qed

definition enqueued_of :: "cb_event \<Rightarrow> pending option" where
  "enqueued_of e = (case e of Enqueued p \<Rightarrow> Some p | _ \<Rightarrow> None)"

definition settled_of :: "cb_event \<Rightarrow> pending option" where
  "settled_of e = (case e of Invoked p _ \<Rightarrow> Some p | Skipped p \<Rightarrow> Some p | Discarded p \<Rightarrow> Some p
     | Abandoned p \<Rightarrow> Some p | _ \<Rightarrow> None)"

definition items_of :: "(cb_event \<Rightarrow> pending option) \<Rightarrow> cb_event list \<Rightarrow> pending multiset" where
  "items_of g es = mset (List.map_filter g es)"

lemma items_of_simps [simp]:
  "items_of g [] = {#}"
  "items_of g (e # es) = (case g e of None \<Rightarrow> {#} | Some p \<Rightarrow> {#p#}) + items_of g es"
  "items_of g (es @ fs) = items_of g es + items_of g fs"
  by (auto simp: items_of_def map_filter_simps map_filter_def split: option.splits)

lemma event_items [simp]:
  "enqueued_of (Enqueued p) = Some p" "enqueued_of (Invoked p f) = None" "enqueued_of (Skipped p) = None"
  "enqueued_of (Discarded p) = None" "enqueued_of (Abandoned p) = None" "enqueued_of (Captured i m) = None"
  "settled_of (Enqueued p) = None" "settled_of (Invoked p f) = Some p" "settled_of (Skipped p) = Some p"
  "settled_of (Discarded p) = Some p" "settled_of (Abandoned p) = Some p" "settled_of (Captured i m) = None"
  by (simp_all add: enqueued_of_def settled_of_def)

lemma items_of_map [simp]:
  "items_of settled_of (map Discarded ps) = mset ps" "items_of settled_of (map Abandoned ps) = mset ps"
  "items_of enqueued_of (map Discarded ps) = {#}" "items_of enqueued_of (map Abandoned ps) = {#}"
  by (induction ps) simp_all

definition cb_inv :: "callbacks \<Rightarrow> bool" where
  "cb_inv s \<longleftrightarrow> cb_depth s = length (cb_frames s) \<and> (cb_depth s = 0 \<longrightarrow> cb_deferred s = {})
     \<and> items_of enqueued_of (cb_log s)
       = mset (cb_queue s) + mset (concat (cb_frames s)) + items_of settled_of (cb_log s)"

lemma filter_mset_split: "mset (filter P xs) + mset (filter (\<lambda>x. \<not> P x) xs) = mset xs"
  by (induction xs) auto

lemma cb_inv_step:
  assumes "cb_step s t" and "cb_inv s"
  shows "cb_inv t"
  using assms
proof (induction rule: cb_step.induct)
  case (Discard s ids)
  have "mset (filter (\<lambda>p. p_id p \<in> set ids) (cb_queue s)) + mset (filter (\<lambda>p. p_id p \<notin> set ids) (cb_queue s))
      = mset (cb_queue s)"
    by (rule filter_mset_split)
  with Discard show ?case by (simp add: cb_inv_def cb_ops)
next
  case (Open allowed n s items t)
  from Open.hyps obtain q where "t = s\<lparr>cb_queue := q, cb_depth := cb_depth s + 1, cb_frames := items # cb_frames s\<rparr>"
    and "mset items + mset q = mset (cb_queue s)"
    by (rule open_dispatch_SomeE)
  with Open.prems show ?case by (simp add: cb_inv_def) (simp add: ac_simps)
next
  case (Close s)
  then obtain xs fs where "cb_frames s = xs # fs" by (cases "cb_frames s") auto
  with Close show ?case
    by (simp add: cb_inv_def cb_ops)
qed (auto simp: cb_inv_def cb_ops split: option.splits)

interpretation callback_history: invariant_system "\<lambda>s. s = initial_callbacks" cb_step cb_inv
  by unfold_locales (simp add: cb_inv_def initial_callbacks_def, erule (1) cb_inv_step)

definition cb_reachable :: "callbacks \<Rightarrow> bool" where
  "cb_reachable s \<longleftrightarrow> cb_step\<^sup>*\<^sup>* initial_callbacks s"

lemma cb_reachable_inv: "cb_reachable s \<Longrightarrow> cb_inv s"
  unfolding cb_reachable_def by (rule callback_history.inv_reachable) simp_all


text \<open>No item is lost or handled twice. In every history of the registry, the items enqueued so far are
  exactly, with their multiplicities, those in the queue, those in the vectors of the dispatches in progress,
  and those settled: called once, skipped, discarded or abandoned by an exception.
\<close>

lemma every_item_accounted:
  assumes "cb_step\<^sup>*\<^sup>* initial_callbacks s"
  shows "items_of enqueued_of (cb_log s)
    = mset (cb_queue s) + mset (concat (cb_frames s)) + items_of settled_of (cb_log s)"
  using callback_history.inv_reachable [OF refl assms] by (simp add: cb_inv_def)

definition one_item :: "callbacks" where
  "one_item = lua_callbacks_enqueue 1 (Some 7) (snd (lua_callbacks_register (Script_fn 5) initial_callbacks))"

lemma one_item_reachable: "cb_step\<^sup>*\<^sup>* initial_callbacks one_item"
proof -
  have "cb_step initial_callbacks (snd (lua_callbacks_register (Script_fn 5) initial_callbacks))"
    by (rule Register) (simp add: initial_callbacks_def)
  then show ?thesis
    unfolding one_item_def by (meson Enqueue converse_rtranclp_into_rtranclp r_into_rtranclp)
qed

lemma every_item_accounted_witness:
  "items_of enqueued_of (cb_log one_item) = {# \<lparr>p_id = 1, p_builder = Some 7\<rparr> #}"
  using every_item_accounted [OF one_item_reachable]
  by (simp add: one_item_def initial_callbacks_def lua_callbacks_enqueue_def lua_callbacks_register_def note_cb_def Let_def)

section \<open>Ids that are gone\<close>

definition invocation_of :: "nat \<Rightarrow> cb_event \<Rightarrow> bool" where
  "invocation_of i e = (case e of Invoked p _ \<Rightarrow> p_id p = i | _ \<Rightarrow> False)"

lemma invocation_of_simps [simp]:
  "invocation_of i (Enqueued p) = False" "invocation_of i (Invoked p f) = (p_id p = i)"
  "invocation_of i (Skipped p) = False" "invocation_of i (Discarded p) = False"
  "invocation_of i (Abandoned p) = False" "invocation_of i (Captured k m) = False"
  by (simp_all add: invocation_of_def)

definition invocations :: "nat \<Rightarrow> callbacks \<Rightarrow> cb_event list" where
  "invocations i s = filter (invocation_of i) (cb_log s)"

lemma no_invocation_map [simp]:
  "filter (invocation_of i) (map Discarded ps) = []" "filter (invocation_of i) (map Abandoned ps) = []"
  by (induction ps) simp_all

text \<open>An id in use that no look-up will answer, and one whose unregistration is under way.\<close>

definition gone :: "nat \<Rightarrow> callbacks \<Rightarrow> bool" where
  "gone i s \<longleftrightarrow> i < cb_next s \<and> (i \<in> cb_retired s \<or> cb_registry s i = None)"

definition leaving :: "nat \<Rightarrow> callbacks \<Rightarrow> bool" where
  "leaving i s \<longleftrightarrow> i < cb_next s \<and> (i \<in> cb_deferred s \<or> cb_registry s i = None)"

lemma gone_step:
  assumes "cb_step s t" and "gone i s"
  shows "gone i t \<and> invocations i t = invocations i s"
  using assms
proof (induction rule: cb_step.induct)
  case (Open allowed n s items t)
  from Open.hyps obtain q where "t = s\<lparr>cb_queue := q, cb_depth := cb_depth s + 1, cb_frames := items # cb_frames s\<rparr>"
    by (rule open_dispatch_SomeE)
  with Open.prems show ?case by (simp add: gone_def invocations_def)
next
  case (Begin s x xs fs)
  then show ?case
    by (auto simp: gone_def invocations_def look_up_item_def cb_ops split: option.splits script_fn.splits)
next
  case (Close s)
  then show ?case by (auto simp: gone_def invocations_def cb_ops)
qed (auto simp: gone_def invocations_def cb_ops)

lemma leaving_step:
  assumes "cb_step s t" and "leaving i s"
  shows "leaving i t"
  using assms
proof (induction rule: cb_step.induct)
  case (Open allowed n s items t)
  from Open.hyps obtain q where "t = s\<lparr>cb_queue := q, cb_depth := cb_depth s + 1, cb_frames := items # cb_frames s\<rparr>"
    by (rule open_dispatch_SomeE)
  with Open.prems show ?case by (simp add: leaving_def)
qed (auto simp: leaving_def cb_ops)

lemma gone_steps: "cb_step\<^sup>*\<^sup>* s t \<Longrightarrow> gone i s \<Longrightarrow> gone i t \<and> invocations i t = invocations i s"
  by (induction rule: rtranclp_induct) (auto dest: gone_step)

lemma leaving_steps: "cb_step\<^sup>*\<^sup>* s t \<Longrightarrow> leaving i s \<Longrightarrow> leaving i t"
  by (induction rule: rtranclp_induct) (auto dest: leaving_step)

text \<open>C22: retiring is final. Once \<open>retire_ids\<close> has run for an id that was given out, or the id was unregistered
  outside a dispatch, no history of the registry calls a function for it again, whatever is enqueued for it,
  even when it is later unregistered, which forgets that it was retired.
\<close>

lemma retired_never_called:
  assumes "i < cb_next s"
    and "t = (if retire then lua_callbacks_retire_ids (i # ids) s else snd (lua_callbacks_unregister 0 i s))"
    and "cb_step\<^sup>*\<^sup>* t u"
  shows "filter (invocation_of i) (cb_log u) = filter (invocation_of i) (cb_log s)"
proof -
  have "gone i t" and "invocations i t = invocations i s"
    using assms(1,2) by (auto simp: gone_def invocations_def lua_callbacks_retire_ids_def cb_ops)
  with gone_steps [OF assms(3)] show ?thesis by (simp add: invocations_def)
qed

lemma retired_never_called_witness:
  "filter (invocation_of 1) (cb_log (lua_callbacks_enqueue 1 None (lua_callbacks_retire_ids [1] one_item)))
     = filter (invocation_of 1) (cb_log one_item)"
  by (rule retired_never_called [where retire = True and ids = "[]", OF _ refl])
    (simp add: one_item_def initial_callbacks_def lua_callbacks_enqueue_def lua_callbacks_register_def
      note_cb_def Let_def, simp add: r_into_rtranclp Enqueue)

text \<open>An unregistration takes effect when no dispatch is in progress. If a script unregisters an id, inside a
  dispatch or not, then in every later state in which no dispatch is in progress the registry does not hold
  the id any more, and from there on no function is called for it.
\<close>

lemma unregistration_settles:
  assumes "cb_step\<^sup>*\<^sup>* initial_callbacks s" and "i < cb_next s"
    and "cb_step\<^sup>*\<^sup>* (snd (lua_callbacks_unregister (cb_depth s) i s)) t" and "cb_depth t = 0"
  shows "cb_registry t i = None
    \<and> (\<forall>u. cb_step\<^sup>*\<^sup>* t u \<longrightarrow> filter (invocation_of i) (cb_log u) = filter (invocation_of i) (cb_log t))"
proof -
  let ?s1 = "snd (lua_callbacks_unregister (cb_depth s) i s)"
  have "leaving i ?s1"
    using assms(2) by (simp add: leaving_def lua_callbacks_unregister_def)
  with assms(3) have leaving: "leaving i t" by (rule leaving_steps)
  have "cb_inv s" using callback_history.inv_reachable [OF refl assms(1)] .
  then have "cb_inv ?s1" using cb_inv_step Unregister by blast
  then have "cb_inv t" using assms(3) callback_history.inv_steps by blast
  with assms(4) leaving have none: "cb_registry t i = None"
    by (auto simp: cb_inv_def leaving_def)
  with leaving have "gone i t" by (simp add: gone_def leaving_def)
  then show ?thesis
    using none gone_steps by (auto simp: invocations_def)
qed

text \<open>The id is unregistered by the very callback that a dispatch runs for it.\<close>

definition dispatching_item :: "callbacks" where
  "dispatching_item = begin_item \<lparr>p_id = 1, p_builder = Some 7\<rparr> (snd (the (open_dispatch None 0 one_item)))"

lemma one_item_state:
  "one_item = \<lparr>cb_next = 2, cb_registry = [1 \<mapsto> Script_fn 5], cb_deferred = {}, cb_retired = {},
     cb_queue = [\<lparr>p_id = 1, p_builder = Some 7\<rparr>], cb_depth = 0, cb_frames = [],
     cb_log = [Enqueued \<lparr>p_id = 1, p_builder = Some 7\<rparr>]\<rparr>"
  by (simp add: one_item_def initial_callbacks_def lua_callbacks_enqueue_def lua_callbacks_register_def note_cb_def Let_def)

lemma dispatching_item_state:
  "dispatching_item = \<lparr>cb_next = 2, cb_registry = [1 \<mapsto> Script_fn 5], cb_deferred = {}, cb_retired = {},
     cb_queue = [], cb_depth = 1, cb_frames = [[]],
     cb_log = [Enqueued \<lparr>p_id = 1, p_builder = Some 7\<rparr>, Invoked \<lparr>p_id = 1, p_builder = Some 7\<rparr> 5]\<rparr>"
  by (simp add: dispatching_item_def one_item_state open_dispatch_def take_pending_callbacks_def begin_item_def
      look_up_item_def note_cb_def)

lemma dispatching_item_reachable: "cb_step\<^sup>*\<^sup>* initial_callbacks dispatching_item"
proof -
  obtain t where o: "open_dispatch None 0 one_item = Some ([\<lparr>p_id = 1, p_builder = Some 7\<rparr>], t)"
    and t: "cb_frames t = [[\<lparr>p_id = 1, p_builder = Some 7\<rparr>]]"
    by (simp add: one_item_state open_dispatch_def take_pending_callbacks_def)
  have "cb_step one_item t" using o by (rule Open)
  moreover have "cb_step t dispatching_item"
    using Begin [OF t] o by (simp add: dispatching_item_def)
  ultimately show ?thesis
    using one_item_reachable by (meson rtranclp.rtrancl_into_rtrancl)
qed

lemma unregistration_settles_witness:
  "cb_registry (close_dispatch (snd (lua_callbacks_unregister 1 1 dispatching_item))) 1 = None"
proof -
  have "cb_step (snd (lua_callbacks_unregister (cb_depth dispatching_item) 1 dispatching_item))
      (close_dispatch (snd (lua_callbacks_unregister (cb_depth dispatching_item) 1 dispatching_item)))"
    by (rule Close) (simp add: dispatching_item_state lua_callbacks_unregister_def)
  then have "cb_step\<^sup>*\<^sup>* (snd (lua_callbacks_unregister (cb_depth dispatching_item) 1 dispatching_item))
      (close_dispatch (snd (lua_callbacks_unregister (cb_depth dispatching_item) 1 dispatching_item)))" ..
  from unregistration_settles [OF dispatching_item_reachable _ this]
  show ?thesis
    by (simp add: dispatching_item_state lua_callbacks_unregister_def close_dispatch_def
        flush_deferred_unregistrations_def note_cb_def)
qed

section \<open>The dispatch is a sequence of steps\<close>

text \<open>What is known of the script engine: its runs use the registry through the operations, and end the dispatches they start.\<close>

definition behaves :: "callbacks \<Rightarrow> callbacks \<Rightarrow> bool" where
  "behaves s t \<longleftrightarrow> cb_step\<^sup>*\<^sup>* s t \<and> cb_frames t = cb_frames s"

definition engine_behaves :: "script_engine \<Rightarrow> bool" where
  "engine_behaves E \<longleftrightarrow> (\<forall>b s. behaves s (snd (build E b s))) \<and> (\<forall>f b s. behaves s (snd (call E f b s)))"

lemma behaves_refl [simp]: "behaves s s"
  by (simp add: behaves_def)

lemma behaves_trans: "behaves s t \<Longrightarrow> behaves t u \<Longrightarrow> behaves s u"
  by (auto simp: behaves_def)

lemma process_item_steps:
  assumes "engine_behaves E" and "cb_frames s = (x # xs) # fs"
  shows "cb_step\<^sup>*\<^sup>* s (snd (process_item E x s)) \<and> cb_frames (snd (process_item E x s)) = xs # fs"
proof -
  have frames: "cb_frames (begin_item x s) = xs # fs"
    using assms(2) by (simp add: begin_item_def note_cb_def)
  have first: "cb_step s (begin_item x s)" using assms(2) by (rule Begin)
  have called: "behaves t (call_item E x f t)" for f t
  proof -
    obtain m u where c: "call E f (p_builder x) t = (m, u)" by fastforce
    have u: "behaves t u" using assms(1) c by (metis engine_behaves_def snd_conv)
    have "behaves u (capture_callback_error (p_id x) msg u)" for msg
      using Capture by (auto simp: behaves_def capture_callback_error_def note_cb_def intro: r_into_rtranclp)
    with u show ?thesis by (auto simp: call_item_def c intro: behaves_trans split: option.split)
  qed
  have "behaves (begin_item x s) (snd (process_item E x s))"
  proof (cases "look_up_item x s")
    case (Some f)
    let ?r = "case p_builder x of None \<Rightarrow> ok (begin_item x s) | Some b \<Rightarrow> build E b (begin_item x s)"
    have built: "behaves (begin_item x s) (snd ?r)"
      using assms(1) by (auto simp: engine_behaves_def split: option.split)
    have "behaves (begin_item x s) (snd (and_then ?r (\<lambda>t. ok (call_item E x f t))))"
      by (rule and_then_inv [where P = "behaves (begin_item x s)"]) (use built called behaves_trans in auto)
    with Some show ?thesis by (simp add: process_item_def)
  qed (simp add: process_item_def)
  with first frames show ?thesis
    by (auto simp: behaves_def)
qed

lemma run_items_steps:
  assumes "engine_behaves E" and "cb_frames s = xs # fs"
  shows "cb_step\<^sup>*\<^sup>* s (snd (run_all (process_item E) xs s))
    \<and> (\<exists>rest. cb_frames (snd (run_all (process_item E) xs s)) = rest # fs)"
  using assms(2)
proof (induction xs arbitrary: s)
  case (Cons x xs)
  note first = process_item_steps [OF assms(1) Cons.prems]
  obtain e t where p: "process_item E x s = (e, t)" by fastforce
  with first have t: "cb_step\<^sup>*\<^sup>* s t" "cb_frames t = xs # fs" by simp_all
  show ?case
  proof (cases e)
    case None
    with Cons.IH [OF t(2)] t(1) p show ?thesis by auto
  qed (use p t in auto)
qed simp

lemma run_dispatch_steps:
  assumes "engine_behaves E"
  shows "behaves s (snd (run_dispatch E allowed n s))"
proof (cases "open_dispatch allowed n s")
  case (Some r)
  obtain items t where r: "r = (items, t)" by fastforce
  have opened: "cb_step s t" using Some r by (auto intro: Open)
  from Some r have frames: "cb_frames t = items # cb_frames s"
    by (auto elim: open_dispatch_SomeE)
  obtain e u where run: "run_all (process_item E) items t = (e, u)" by fastforce
  from run_items_steps [OF assms frames] run obtain rest
    where u: "cb_step\<^sup>*\<^sup>* t u" "cb_frames u = rest # cb_frames s" by auto
  have "cb_step u (close_dispatch u)" by (rule Close) (simp add: u(2))
  then have "cb_step\<^sup>*\<^sup>* s (close_dispatch u)"
    using opened u(1) by (meson converse_rtranclp_into_rtranclp rtranclp.rtrancl_into_rtrancl)
  moreover have "cb_frames (close_dispatch u) = cb_frames s"
    using u(2) by (simp add: cb_ops)
  ultimately show ?thesis using Some r run by (simp add: run_dispatch_def behaves_def)
qed (simp add: run_dispatch_def)

text \<open>The two dispatch functions refine the steps. Whatever the callbacks do with the registry, dispatching
  included, a call of \<open>dispatch\<close> or \<open>dispatch_ids\<close> is a sequence of steps that leaves the dispatches in progress
  as they were, also when a payload builder throws: so what is proved of the steps holds of the functions, and
  a callback that dispatches is itself a well-behaved engine.
\<close>

lemma dispatch_refines_steps:
  assumes "\<forall>b s. behaves s (snd (build E b s))" and "\<forall>f b s. behaves s (snd (call E f b s))"
  shows "behaves s (snd (lua_callbacks_dispatch E n s)) \<and> behaves s (snd (lua_callbacks_dispatch_ids E ids n s))"
proof -
  have "engine_behaves E" using assms by (simp add: engine_behaves_def)
  note steps = run_dispatch_steps [OF this]
  show ?thesis
    using steps [of s None n] steps [of s "Some (set ids)" n]
    by (auto simp: lua_callbacks_dispatch_def lua_callbacks_dispatch_ids_def split: prod.splits option.splits)
qed

text \<open>An engine whose functions unregister the id that equals their number and then fail.\<close>

definition sample_engine :: script_engine where
  "sample_engine = \<lparr>build = (\<lambda>b s. ok s),
     call = (\<lambda>f b s. (Some ''failed'', snd (lua_callbacks_unregister (cb_depth s) f s)))\<rparr>"

lemma dispatch_refines_steps_witness:
  "behaves one_item (snd (lua_callbacks_dispatch sample_engine 1 one_item))
   \<and> behaves one_item (snd (lua_callbacks_dispatch_ids sample_engine [1] 1 one_item))"
proof -
  have "behaves s (snd (lua_callbacks_unregister (cb_depth s) i s))" for i s
    using Unregister [of s i] by (simp add: behaves_def r_into_rtranclp) (simp add: lua_callbacks_unregister_def)
  then have "\<forall>b s. behaves s (snd (build sample_engine b s))" "\<forall>f b s. behaves s (snd (call sample_engine f b s))"
    by (simp_all add: sample_engine_def)
  then show ?thesis by (rule dispatch_refines_steps)
qed

section \<open>The loop\<close>

lemma static_cast_longlong_small: "n < 2 ^ 63 \<Longrightarrow> static_cast_longlong n = int n"
  by (simp add: static_cast_longlong_def signed_of_nat signed_take_bit_int_eq_self)

lemma static_cast_longlong_big: "2 ^ 63 \<le> n \<Longrightarrow> n < 2 ^ 64 \<Longrightarrow> static_cast_longlong n < 0"
proof -
  assume n: "2 ^ 63 \<le> n" "n < 2 ^ 64"
  define k where "k = int n - 2 ^ 63"
  have "int n + 2 ^ 63 = k + 2 ^ 64" by (simp add: k_def)
  moreover have "0 \<le> k" "k < 2 ^ 63" using n by (simp_all add: k_def)
  ultimately have "(int n + 2 ^ 63) mod 2 ^ 64 < 2 ^ 63" by simp
  then show ?thesis
    by (simp add: static_cast_longlong_def signed_of_nat signed_take_bit_eq_take_bit_shift take_bit_eq_mod)
qed

lemma run_loop_by:
  assumes "static_cast_longlong timeout \<le> elapsed k0" and "0 < timeout" and "k \<le> k0" and "k0 < k + fuel"
  shows "\<exists>b t. run_loop pass until elapsed timeout fuel k s = Some (b, t)
    \<and> (b = Inr False \<longrightarrow> (\<exists>j\<le>k0. static_cast_longlong timeout \<le> elapsed j))"
  using assms(3,4)
proof (induction fuel arbitrary: k s)
  case (Suc fuel)
  obtain e t where p: "pass k s = (e, t)" by fastforce
  define u where "u = (case until of None \<Rightarrow> Inr False | Some u \<Rightarrow> call_until (u k))"
  show ?case
  proof (cases "e = None \<and> u = Inr False \<and> \<not> static_cast_longlong timeout \<le> elapsed k")
    case True
    with assms(1) Suc.prems have "k \<noteq> k0" by auto
    with Suc.prems have "k + 1 \<le> k0" "k0 < k + 1 + fuel" by simp_all
    from Suc.IH [OF this] True p show ?thesis by (simp flip: u_def)
  next
    case False
    with p Suc.prems(1) assms(2) show ?thesis
      by (cases e; cases u) (auto simp flip: u_def split: bool.split)
  qed
qed simp

text \<open>
  The loop ends. When a timeout below \<open>2^63\<close> milliseconds is given and the clock has passed it at some iteration,
  the loop has returned by that iteration, whatever the until function and the callbacks do, and it returns
  false only if the timeout had passed. A timeout of \<open>2^63\<close> or more is negative after its cast: the loop returns after its
  first iteration.
\<close>

lemma run_loop_ends:
  assumes "0 < timeout" and "timeout < 2 ^ 64" and "\<forall>k. 0 \<le> elapsed k"
    and "timeout < 2 ^ 63 \<Longrightarrow> int timeout \<le> elapsed k0" and "2 ^ 63 \<le> timeout \<Longrightarrow> k0 = 0"
  shows "\<exists>b t. run_loop pass until elapsed timeout (Suc k0) 0 s = Some (b, t)
    \<and> (b = Inr False \<longrightarrow> timeout < 2 ^ 63 \<longrightarrow> (\<exists>j\<le>k0. int timeout \<le> elapsed j))"
proof (cases "timeout < 2 ^ 63")
  case True
  with run_loop_by [where timeout = timeout and elapsed = elapsed and ?k0.0 = k0 and k = 0 and fuel = "Suc k0"] assms(1,4) show ?thesis
    by (simp add: static_cast_longlong_small)
next
  case False
  then have "static_cast_longlong timeout \<le> elapsed k0"
    using static_cast_longlong_big assms(2,3) by (meson less_le_not_le linorder_not_le order_trans)
  from run_loop_by [where elapsed = elapsed and ?k0.0 = k0 and k = 0 and fuel = "Suc k0", OF this assms(1), of pass until s] False
  show ?thesis by (auto simp del: run_loop.simps)
qed

lemma run_loop_ends_witness:
  "\<exists>b t. run_loop (\<lambda>k s. ok s) (Some (\<lambda>k. Inr (Until_bool False))) (\<lambda>k. 3 * int k) 5 (Suc 2) 0 one_item = Some (b, t)"
proof -
  have "\<exists>b t. run_loop (\<lambda>k s. ok s) (Some (\<lambda>k. Inr (Until_bool False))) (\<lambda>k. 3 * int k) 5 (Suc 2) 0 one_item = Some (b, t)
    \<and> (b = Inr False \<longrightarrow> (5::nat) < 2 ^ 63 \<longrightarrow> (\<exists>j\<le>2. int 5 \<le> 3 * int j))"
    by (rule run_loop_ends) simp_all
  then show ?thesis by blast
qed

end
