(* ===== verification/Terminal.thy ===== *)
theory Terminal
  imports Dotenv
begin

text \<open>
  The terminal of \<open>src/src/terminal.cpp\<close>: a screen kept by the virtual-terminal library, which calls back for
  damage, cursor, properties, bells, sizes and lines that leave the screen, and a child process behind a
  pseudo terminal. The library is not part of the repository: it is the record \<open>vterm\<close> of functions on the
  terminal's state, in which the field \<open>vt\<close> is its own state, of any type. It is taken in a version with
  scrollback callbacks and titles in chunks (the branch the preprocessor selects from version 0.3 on).
\<close>

section \<open>State\<close>

record rgb = red :: byte  green :: byte  blue :: byte

record 'c screen_cell =
  chars0 :: u32
  at_bold :: bool
  at_underline :: nat
  at_italic :: bool
  at_reverse :: bool
  at_fg :: 'c
  at_bg :: 'c

record cell =
  codepoint :: u32
  fg :: rgb
  bg :: rgb
  bold :: bool
  underline :: bool
  italic :: bool
  reverse_video :: bool

record rect =
  r_top :: int
  r_left :: int
  r_bottom :: int
  r_right :: int

record cursor =
  c_row :: int
  c_col :: int
  c_visible :: bool
  c_blinking :: bool
  c_shape :: int

record dirty_row =
  d_dirty :: bool
  d_left :: int
  d_right :: int

definition clean_row :: dirty_row where
  "clean_row = \<lparr>d_dirty = False, d_left = 0, d_right = 0\<rparr>"

datatype term_event =
  Screen_updated
| Cursor_moved int int
| Title_changed string
| Bell_rung
| Written string                  \<comment> \<open>bytes the pseudo terminal accepted\<close>
| Size_logged string nat nat nat nat \<comment> \<open>the event, lines and bytes before, lines and bytes after\<close>
| Read_oob_logged int
| Resize_logged

record ('v, 'c) terminal =
  vt :: 'v
  pty_master :: int
  child_pid :: int
  t_rows :: int
  t_cols :: int
  t_cursor :: cursor
  t_title :: "string option"
  title_buffer :: string
  screen_changed :: bool
  pty_available :: bool
  scrollback :: "'c screen_cell list list"
  scrollback_line_limit :: int
  scrollback_byte_limit :: nat
  scrollback_bytes :: nat
  in_alt_screen :: bool
  dirty_rows :: "dirty_row list"
  t_log :: "term_event list"

definition log_term :: "term_event list \<Rightarrow> ('v, 'c) terminal \<Rightarrow> ('v, 'c) terminal" where
  "log_term es s = s\<lparr>t_log := t_log s @ es\<rparr>"

text \<open>The arithmetic of \<open>size_t\<close>, and \<open>static_cast<int>\<close> of a size.\<close>

definition add_size :: "nat \<Rightarrow> nat \<Rightarrow> nat" where "add_size a b = (a + b) mod 2 ^ 64"
definition sub_size :: "nat \<Rightarrow> nat \<Rightarrow> nat" where "sub_size a b = (a + 2 ^ 64 - b mod 2 ^ 64) mod 2 ^ 64"
definition size_as_int :: "nat \<Rightarrow> int" where "size_as_int n = sint (word_of_nat n :: 32 word)"

section \<open>Scrollback\<close>

text \<open>\<open>w\<close> is the size in bytes of a cell of the library.\<close>

definition line_byte_cost :: "nat \<Rightarrow> 'a list \<Rightarrow> nat" where
  "line_byte_cost w line = (length line * w) mod 2 ^ 64"

definition log_scrollback_size_change :: "string \<Rightarrow> nat \<Rightarrow> nat \<Rightarrow> ('v, 'c) terminal \<Rightarrow> ('v, 'c) terminal" where
  "log_scrollback_size_change event before_size before_bytes s =
    (if before_size = length (scrollback s) \<and> before_bytes = scrollback_bytes s then s
     else log_term [Size_logged event before_size before_bytes (length (scrollback s)) (scrollback_bytes s)] s)"

fun trim_loop :: "nat \<Rightarrow> int \<Rightarrow> nat \<Rightarrow> 'a list list \<Rightarrow> nat \<Rightarrow> 'a list list \<times> nat" where
  "trim_loop w limit byte_limit [] bytes = ([], bytes)"
| "trim_loop w limit byte_limit (line # ls) bytes =
    (if size_as_int (length (line # ls)) > limit \<or> bytes > byte_limit
     then trim_loop w limit byte_limit ls (sub_size bytes (line_byte_cost w line))
     else (line # ls, bytes))"

definition trim_scrollback :: "nat \<Rightarrow> ('v, 'c) terminal \<Rightarrow> ('v, 'c) terminal" where
  "trim_scrollback w s =
    (case trim_loop w (scrollback_line_limit s) (scrollback_byte_limit s) (scrollback s) (scrollback_bytes s) of
       (ls, bytes) \<Rightarrow> log_scrollback_size_change ''trim'' (length (scrollback s)) (scrollback_bytes s)
         (s\<lparr>scrollback := ls, scrollback_bytes := bytes\<rparr>))"

text \<open>The cells of the library are \<open>None\<close> for a null pointer; their number is \<open>cols\<close>.\<close>

definition push_scrollback_line :: "nat \<Rightarrow> 'c screen_cell list option \<Rightarrow> ('v, 'c) terminal \<Rightarrow> ('v, 'c) terminal" where
  "push_scrollback_line w cells s =
    (case cells of
       None \<Rightarrow> s
     | Some line \<Rightarrow>
         if in_alt_screen s \<or> line = [] then s
         else trim_scrollback w (s\<lparr>scrollback_bytes := add_size (scrollback_bytes s) (line_byte_cost w line),
             scrollback := scrollback s @ [line]\<rparr>))"

text \<open>The result, and the cells that are written over the front of the library's buffer.\<close>

definition pop_scrollback_line :: "nat \<Rightarrow> nat \<Rightarrow> bool \<Rightarrow> ('v, 'c) terminal
    \<Rightarrow> (int \<times> 'c screen_cell list) \<times> ('v, 'c) terminal" where
  "pop_scrollback_line w cols null s =
    (if in_alt_screen s \<or> cols = 0 \<or> null \<or> scrollback s = [] then ((0, []), s)
     else let line = last (scrollback s)
       in ((1, take (min cols (length line)) line),
           log_scrollback_size_change ''pop'' (length (scrollback s)) (scrollback_bytes s)
             (s\<lparr>scrollback := butlast (scrollback s),
                scrollback_bytes := sub_size (scrollback_bytes s) (line_byte_cost w line)\<rparr>)))"

definition clear_scrollback :: "('v, 'c) terminal \<Rightarrow> ('v, 'c) terminal" where
  "clear_scrollback s =
    log_scrollback_size_change ''clear'' (length (scrollback s)) (scrollback_bytes s)
      (s\<lparr>scrollback := [], scrollback_bytes := 0\<rparr>)"

definition set_scrollback_limit :: "nat \<Rightarrow> int \<Rightarrow> ('v, 'c) terminal \<Rightarrow> ('v, 'c) terminal" where
  "set_scrollback_limit w lines s = trim_scrollback w (s\<lparr>scrollback_line_limit := max 0 lines\<rparr>)"

section \<open>Damage\<close>

definition reset_dirty :: "('v, 'c) terminal \<Rightarrow> ('v, 'c) terminal" where
  "reset_dirty s = s\<lparr>dirty_rows := replicate (nat (max (t_rows s) 0)) clean_row, screen_changed := False\<rparr>"

definition widen :: "int \<Rightarrow> int \<Rightarrow> dirty_row \<Rightarrow> dirty_row" where
  "widen left right dr =
    (if \<not> d_dirty dr then \<lparr>d_dirty = True, d_left = left, d_right = right\<rparr>
     else dr\<lparr>d_left := min (d_left dr) left, d_right := max (d_right dr) right\<rparr>)"

fun mark_rows :: "int \<Rightarrow> int \<Rightarrow> nat list \<Rightarrow> dirty_row list \<Rightarrow> dirty_row list" where
  "mark_rows left right [] ds = ds"
| "mark_rows left right (row # rows) ds = mark_rows left right rows (ds[row := widen left right (ds ! row)])"

definition clamp_to :: "int \<Rightarrow> int \<Rightarrow> int" where
  "clamp_to n x = max 0 (min x (n - 1))"

definition mark_damage :: "rect \<Rightarrow> ('v, 'c) terminal \<Rightarrow> ('v, 'c) terminal" where
  "mark_damage region s =
    (if t_rows s \<le> 0 \<or> t_cols s \<le> 0 then s
     else let top = clamp_to (t_rows s) (r_top region);
              bottom = clamp_to (t_rows s) (r_bottom region);
              left = clamp_to (t_cols s) (r_left region);
              right = clamp_to (t_cols s) (r_right region)
       in if top > bottom \<or> left > right then s
          else let ds = (if length (dirty_rows s) \<noteq> nat (t_rows s) then replicate (nat (t_rows s)) clean_row
                         else dirty_rows s)
            in s\<lparr>dirty_rows := mark_rows left right [nat top..<nat bottom + 1] ds, screen_changed := True\<rparr>)"

text \<open>
  The loop over the rows from \<open>row\<close>, \<open>n\<close> of them, with the current rectangle, if any. \<open>None\<close> stands for reading
  past the end of the vector of rows, which the code does not check.
\<close>

definition mergeable :: "rect \<Rightarrow> rect \<Rightarrow> bool" where
  "mergeable current candidate \<longleftrightarrow>
    r_left candidate = r_left current \<and> r_right candidate = r_right current \<and> r_top candidate = r_bottom current + 1"

definition candidate_of :: "nat \<Rightarrow> dirty_row \<Rightarrow> rect" where
  "candidate_of row dr = \<lparr>r_top = int row, r_left = d_left dr, r_bottom = int row, r_right = d_right dr\<rparr>"

fun collect_rows :: "dirty_row list \<Rightarrow> nat \<Rightarrow> nat \<Rightarrow> rect option \<Rightarrow> rect list \<Rightarrow> rect list option" where
  "collect_rows ds row 0 current regions =
    Some (case current of None \<Rightarrow> regions | Some c \<Rightarrow> regions @ [c])"
| "collect_rows ds row (Suc n) current regions =
    (if length ds \<le> row then None
     else let dr = ds ! row in
       if \<not> d_dirty dr then collect_rows ds (row + 1) n current regions
       else let candidate = candidate_of row dr in
         case current of
           None \<Rightarrow> collect_rows ds (row + 1) n (Some candidate) regions
         | Some c \<Rightarrow>
             if mergeable c candidate
             then collect_rows ds (row + 1) n (Some (c\<lparr>r_bottom := r_bottom candidate\<rparr>)) regions
             else collect_rows ds (row + 1) n (Some candidate) (regions @ [c]))"

definition collect_dirty_regions :: "('v, 'c) terminal \<Rightarrow> rect list option" where
  "collect_dirty_regions s =
    (if dirty_rows s = [] then Some [] else collect_rows (dirty_rows s) 0 (nat (t_rows s)) None [])"

section \<open>Callbacks of the library\<close>

record vt_rect =
  start_row :: int
  end_row :: int
  start_col :: int
  end_col :: int

definition to_rect :: "vt_rect \<Rightarrow> rect" where
  "to_rect r = \<lparr>r_top = start_row r, r_left = start_col r, r_bottom = end_row r - 1, r_right = end_col r - 1\<rparr>"

datatype term_prop =
  Prop_title string bool bool  \<comment> \<open>a chunk, whether it is the first, whether it is the last\<close>
| Prop_altscreen bool
| Prop_cursor_visible bool
| Prop_cursor_blink bool
| Prop_cursor_shape int
| Prop_other

definition handle_damage :: "vt_rect \<Rightarrow> ('v, 'c) terminal \<Rightarrow> ('v, 'c) terminal" where
  "handle_damage r s = mark_damage (to_rect r) s"

definition handle_move_rect :: "vt_rect \<Rightarrow> vt_rect \<Rightarrow> ('v, 'c) terminal \<Rightarrow> ('v, 'c) terminal" where
  "handle_move_rect dest src s = mark_damage (to_rect dest) s"

definition handle_move_cursor :: "int \<Rightarrow> int \<Rightarrow> bool \<Rightarrow> ('v, 'c) terminal \<Rightarrow> ('v, 'c) terminal" where
  "handle_move_cursor row col visible s =
    log_term [Cursor_moved row col]
      (s\<lparr>t_cursor := (t_cursor s)\<lparr>c_row := row, c_col := col, c_visible := visible\<rparr>\<rparr>)"

definition handle_title :: "string \<Rightarrow> bool \<Rightarrow> bool \<Rightarrow> ('v, 'c) terminal \<Rightarrow> ('v, 'c) terminal" where
  "handle_title chunk initial final s =
    (let buffer = (if initial then [] else title_buffer s) @ chunk;
         s1 = s\<lparr>title_buffer := buffer\<rparr>
     in if final then log_term [Title_changed buffer] (s1\<lparr>t_title := Some buffer\<rparr>) else s1)"

definition handle_set_term_prop :: "term_prop \<Rightarrow> ('v, 'c) terminal \<Rightarrow> ('v, 'c) terminal" where
  "handle_set_term_prop prop s =
    (case prop of
       Prop_title chunk initial final \<Rightarrow> handle_title chunk initial final s
     | Prop_altscreen b \<Rightarrow>
         mark_damage \<lparr>r_top = 0, r_left = 0, r_bottom = max (t_rows s) 1 - 1, r_right = max (t_cols s) 1 - 1\<rparr>
           (s\<lparr>in_alt_screen := b\<rparr>)
     | Prop_cursor_visible b \<Rightarrow> s\<lparr>t_cursor := (t_cursor s)\<lparr>c_visible := b\<rparr>\<rparr>
     | Prop_cursor_blink b \<Rightarrow> s\<lparr>t_cursor := (t_cursor s)\<lparr>c_blinking := b\<rparr>\<rparr>
     | Prop_cursor_shape n \<Rightarrow> s\<lparr>t_cursor := (t_cursor s)\<lparr>c_shape := n\<rparr>\<rparr>
     | Prop_other \<Rightarrow> s)"

definition handle_bell :: "('v, 'c) terminal \<Rightarrow> ('v, 'c) terminal" where
  "handle_bell s = log_term [Bell_rung] s"

definition handle_resize :: "int \<Rightarrow> int \<Rightarrow> ('v, 'c) terminal \<Rightarrow> ('v, 'c) terminal" where
  "handle_resize rows cols s =
    mark_damage \<lparr>r_top = 0, r_left = 0, r_bottom = rows - 1, r_right = cols - 1\<rparr>
      (reset_dirty (s\<lparr>t_rows := rows, t_cols := cols\<rparr>))"

section \<open>Writing to the pseudo terminal\<close>

text \<open>What the successive calls of \<open>write\<close> return. Running out of results stands for a call that has not returned.\<close>

datatype write_result = Wrote nat | Write_interrupted | Write_again | Write_failed

fun write_loop :: "write_result list \<Rightarrow> string \<Rightarrow> string option" where
  "write_loop rs [] = Some []"
| "write_loop [] (c # data) = None"
| "write_loop (r # rs) (c # data) =
    (case r of
       Wrote n \<Rightarrow>
         if n > 0 then map_option (\<lambda>out. take n (c # data) @ out) (write_loop rs (drop n (c # data)))
         else Some []
     | Write_interrupted \<Rightarrow> write_loop rs (c # data)
     | Write_again \<Rightarrow> Some []
     | Write_failed \<Rightarrow> Some [])"

definition write_to_pty :: "write_result list \<Rightarrow> string \<Rightarrow> ('v, 'c) terminal \<Rightarrow> ('v, 'c) terminal option" where
  "write_to_pty rs bytes s =
    (if pty_master s < 0 \<or> \<not> pty_available s then Some s
     else map_option (\<lambda>out. log_term [Written out] s) (write_loop rs bytes))"

section \<open>The library and the public operations\<close>

datatype term_key = Key_enter | Key_tab | Key_backspace | Key_escape | Key_up | Key_down | Key_left | Key_right
| Key_ins | Key_del | Key_home | Key_end | Key_pageup | Key_pagedown | Key_function nat

record ('v, 'c) vterm =
  input_write :: "string \<Rightarrow> ('v, 'c) terminal \<Rightarrow> ('v, 'c) terminal"
  screen_flush_damage :: "('v, 'c) terminal \<Rightarrow> ('v, 'c) terminal"
  set_size :: "int \<Rightarrow> int \<Rightarrow> ('v, 'c) terminal \<Rightarrow> ('v, 'c) terminal"
  keyboard_key :: "term_key \<Rightarrow> ('v, 'c) terminal \<Rightarrow> ('v, 'c) terminal"
  keyboard_unichar :: "byte \<Rightarrow> ('v, 'c) terminal \<Rightarrow> ('v, 'c) terminal"
  mouse_move :: "int \<Rightarrow> int \<Rightarrow> ('v, 'c) terminal \<Rightarrow> ('v, 'c) terminal"
  mouse_button :: "int \<Rightarrow> bool \<Rightarrow> ('v, 'c) terminal \<Rightarrow> ('v, 'c) terminal"
  get_cell :: "int \<Rightarrow> int \<Rightarrow> 'v \<Rightarrow> 'c screen_cell option"
  to_rgb :: "'v \<Rightarrow> 'c \<Rightarrow> rgb"

definition flush_damage :: "('v, 'c) vterm \<Rightarrow> ('v, 'c) terminal \<Rightarrow> ('v, 'c) terminal" where
  "flush_damage V s =
    (let s1 = screen_flush_damage V s;
         s2 = (if screen_changed s1 then log_term [Screen_updated] s1 else s1)
     in s2\<lparr>screen_changed := False\<rparr>)"

definition first_codepoint :: "'c screen_cell \<Rightarrow> u32" where
  "first_codepoint c = (if chars0 c \<noteq> 0 then chars0 c else 32)"

definition to_cell :: "('v, 'c) vterm \<Rightarrow> ('v, 'c) terminal \<Rightarrow> 'c screen_cell \<Rightarrow> cell" where
  "to_cell V s c =
    \<lparr>codepoint = first_codepoint c, fg = to_rgb V (vt s) (at_fg c), bg = to_rgb V (vt s) (at_bg c), bold = at_bold c,
     underline = (at_underline c \<noteq> 0), italic = at_italic c, reverse_video = at_reverse c\<rparr>"

definition read_cell :: "('v, 'c) vterm \<Rightarrow> ('v, 'c) terminal \<Rightarrow> int \<Rightarrow> int \<Rightarrow> cell result" where
  "read_cell V s row col =
    (case get_cell V row col (vt s) of
       None \<Rightarrow> Inl (Out_of_range ''Cell coordinates outside terminal bounds'')
     | Some c \<Rightarrow> Inr (to_cell V s c))"

fun map_result :: "('a \<Rightarrow> 'b result) \<Rightarrow> 'a list \<Rightarrow> 'b list result" where
  "map_result f [] = Inr []"
| "map_result f (x # xs) = bind_result (f x) (\<lambda>y. bind_result (map_result f xs) (\<lambda>ys. Inr (y # ys)))"

definition get_row :: "('v, 'c) vterm \<Rightarrow> ('v, 'c) terminal \<Rightarrow> int \<Rightarrow> cell list result" where
  "get_row V s row =
    (if row < 0 \<or> row \<ge> t_rows s then Inl (Out_of_range ''Row outside terminal bounds'')
     else map_result (\<lambda>col. read_cell V s row (int col)) [0..<nat (t_cols s)])"

definition get_cell_at :: "('v, 'c) vterm \<Rightarrow> ('v, 'c) terminal \<Rightarrow> int \<Rightarrow> int \<Rightarrow> cell result" where
  "get_cell_at V s row col =
    (if row < 0 \<or> row \<ge> t_rows s \<or> col < 0 \<or> col \<ge> t_cols s then Inl (Out_of_range ''Cell outside terminal bounds'')
     else read_cell V s row col)"

definition get_screen :: "('v, 'c) vterm \<Rightarrow> ('v, 'c) terminal \<Rightarrow> cell list list result" where
  "get_screen V s = map_result (\<lambda>r. get_row V s (int r)) [0..<nat (t_rows s)]"

definition scrollback_line_to_cells :: "('v, 'c) vterm \<Rightarrow> int \<Rightarrow> ('v, 'c) terminal \<Rightarrow> cell list result \<times> ('v, 'c) terminal" where
  "scrollback_line_to_cells V index s =
    (if index < 0 \<or> index \<ge> size_as_int (length (scrollback s))
     then (Inl (Out_of_range ''Scrollback index outside bounds''), log_term [Read_oob_logged index] s)
     else (Inr (map (to_cell V s) (scrollback s ! nat index)), s))"

definition resize :: "('v, 'c) vterm \<Rightarrow> int \<Rightarrow> int \<Rightarrow> ('v, 'c) terminal \<Rightarrow> ('v, 'c) terminal" where
  "resize V rows cols s =
    (let s1 = flush_damage V (set_size V rows cols (s\<lparr>t_rows := rows, t_cols := cols\<rparr>))
     in if t_rows s \<noteq> rows \<or> t_cols s \<noteq> cols \<or> length (scrollback s) \<noteq> length (scrollback s1)
          \<or> scrollback_bytes s \<noteq> scrollback_bytes s1
        then log_term [Resize_logged] s1 else s1)"

definition inject_output :: "('v, 'c) vterm \<Rightarrow> string \<Rightarrow> ('v, 'c) terminal \<Rightarrow> ('v, 'c) terminal" where
  "inject_output V utf8 s = flush_damage V (input_write V utf8 s)"

definition send_mouse :: "('v, 'c) vterm \<Rightarrow> int \<Rightarrow> int \<Rightarrow> int \<Rightarrow> bool \<Rightarrow> ('v, 'c) terminal \<Rightarrow> ('v, 'c) terminal" where
  "send_mouse V row col button pressed s = flush_damage V (mouse_button V button pressed (mouse_move V row col s))"

end
