(* ===== verification/Terminal_Process.thy ===== *)
theory Terminal_Process
  imports Terminal
begin

text \<open>
  The rest of \<open>src/src/terminal.cpp\<close>: starting the child process, reading its output under the limits of one
  frame, and the names of keys.
\<close>

section \<open>Starting the child\<close>

text \<open>The two erasures of \<open>trim_copy\<close>, and the loop of \<open>split_command\<close> with its word in progress.\<close>

definition trim_program :: "string \<Rightarrow> string" where
  "trim_program val = rev (dropWhile isspace (rev (dropWhile isspace val)))"

fun split_loop :: "string \<Rightarrow> bool \<Rightarrow> string list \<Rightarrow> string \<Rightarrow> string list" where
  "split_loop current in_word parts [] = (if current \<noteq> [] then parts @ [current] else parts)"
| "split_loop current in_word parts (ch # rest) =
    (if isspace ch then
       (if in_word then split_loop [] False (parts @ [current]) rest
        else split_loop current in_word parts rest)
     else split_loop (current @ [ch]) True parts rest)"

definition split_command :: "string \<Rightarrow> string list" where
  "split_command val = split_loop [] False [] val"

text \<open>The arguments of the child, from the variable \<open>SPACE_TERMINAL_PROGRAM\<close> of the environment.\<close>

definition child_command :: "string option \<Rightarrow> string list" where
  "child_command env =
    (let cmd = (case env of
            None \<Rightarrow> ''/bin/bash''
          | Some v \<Rightarrow> if trim_program v \<noteq> [] then trim_program v else ''/bin/bash'');
         parts = split_command cmd
     in if parts = [] then [''/bin/sh''] else parts)"

text \<open>What the system answers; the parent's side of \<open>openPtyAndSpawn\<close>.\<close>

definition adopt_child :: "int \<Rightarrow> int \<Rightarrow> ('v, 'c) terminal \<Rightarrow> ('v, 'c) terminal" where
  "adopt_child master pid s = s\<lparr>pty_master := master, child_pid := pid\<rparr>"

datatype spawn_result = No_pty | No_fork | Spawned int int

definition open_pty_and_spawn :: "spawn_result \<Rightarrow> ('v, 'c) terminal \<Rightarrow> ('v, 'c) terminal result" where
  "open_pty_and_spawn r s =
    (case r of
       No_pty \<Rightarrow> Inl (Runtime_error ''Failed to open pty'')
     | No_fork \<Rightarrow> Inl (Runtime_error ''Failed to fork for terminal'')
     | Spawned master pid \<Rightarrow> Inr (adopt_child master pid s))"

text \<open>
  The constructor; \<open>made\<close> is what \<open>vterm_new\<close> returns and \<open>screen_reset\<close> what the library does when its screen
  is set up and reset. The size of the line limit and the byte limit are the initializers of the fields.
\<close>

definition fresh_terminal :: "'v \<Rightarrow> int \<Rightarrow> int \<Rightarrow> ('v, 'c) terminal" where
  "fresh_terminal v rows cols =
    \<lparr>vt = v, pty_master = -1, child_pid = -1, t_rows = rows, t_cols = cols,
     t_cursor = \<lparr>c_row = 0, c_col = 0, c_visible = True, c_blinking = False, c_shape = 1\<rparr>,
     t_title = None, title_buffer = [], screen_changed = False, pty_available = False, scrollback = [],
     scrollback_line_limit = 8000, scrollback_byte_limit = 16 * 1024 * 1024, scrollback_bytes = 0,
     in_alt_screen = False, dirty_rows = [], t_log = []\<rparr>"

definition new_terminal :: "('v, 'c) vterm \<Rightarrow> 'v option \<Rightarrow> (('v, 'c) terminal \<Rightarrow> ('v, 'c) terminal) \<Rightarrow> spawn_result
    \<Rightarrow> int \<Rightarrow> int \<Rightarrow> ('v, 'c) terminal result" where
  "new_terminal V made screen_reset spawn rows cols =
    (case made of
       None \<Rightarrow> Inl (Runtime_error ''Failed to create vterm instance'')
     | Some v \<Rightarrow>
         let s = reset_dirty (screen_flush_damage V (screen_reset (fresh_terminal v rows cols)))
         in case open_pty_and_spawn spawn s of
              Inr s1 \<Rightarrow> Inr (s1\<lparr>pty_available := True\<rparr>)
            | Inl e \<Rightarrow> Inr (s\<lparr>pty_available := False\<rparr>))"

section \<open>Draining the output of the child\<close>

text \<open>What the successive calls of \<open>read\<close> return, each with the nanoseconds elapsed when it is dealt with.\<close>

datatype read_result = Read_bytes string | Read_end | Read_again | Read_interrupted | Read_failed

definition max_bytes_per_drain :: nat where "max_bytes_per_drain = 64 * 1024"
definition max_read_iterations :: nat where "max_read_iterations = 128"
definition max_drain_duration :: nat where "max_drain_duration = 2 * 1000000"
definition read_buffer_size :: nat where "read_buffer_size = 4096"

text \<open>The bytes and calls so far are counted; running out of results stands for a read that has not returned.\<close>

fun drain_loop :: "('v, 'c) vterm \<Rightarrow> (read_result \<times> nat) list \<Rightarrow> nat \<Rightarrow> nat \<Rightarrow> ('v, 'c) terminal
    \<Rightarrow> (nat \<times> nat \<times> ('v, 'c) terminal) option" where
  "drain_loop V rs drained iterations s =
    (if drained < max_bytes_per_drain \<and> iterations < max_read_iterations then
       (case rs of
          [] \<Rightarrow> None
        | (Read_bytes data, elapsed) # rs \<Rightarrow>
            let s = input_write V data s; drained = drained + length data; iterations = iterations + 1
            in if drained \<ge> max_bytes_per_drain \<or> iterations \<ge> max_read_iterations \<or> elapsed \<ge> max_drain_duration
               then Some (drained, iterations, s)
               else drain_loop V rs drained iterations s
        | (Read_interrupted, _) # rs \<Rightarrow> drain_loop V rs drained iterations s
        | _ \<Rightarrow> Some (drained, iterations, s))
     else Some (drained, iterations, s))"

declare drain_loop.simps [simp del]

text \<open>\<open>reaped\<close> says whether \<open>waitpid\<close> reports the child's end.\<close>

definition drain_pty :: "('v, 'c) vterm \<Rightarrow> (read_result \<times> nat) list \<Rightarrow> bool \<Rightarrow> ('v, 'c) terminal \<Rightarrow> ('v, 'c) terminal option" where
  "drain_pty V rs reaped s =
    (if pty_master s < 0 \<or> \<not> pty_available s then Some s
     else map_option (\<lambda>(_, _, s1).
         let s2 = flush_damage V s1
         in if child_pid s2 > 0 \<and> reaped then s2\<lparr>child_pid := -1\<rparr> else s2)
       (drain_loop V rs 0 0 s))"

section \<open>Keys\<close>

text \<open>\<open>std::tolower\<close> of the C locale, and \<open>std::stoi\<close>: spaces, a sign, digits, and whatever follows them.\<close>

definition tolower :: "char \<Rightarrow> char" where
  "tolower c = (if 65 \<le> code_of c \<and> code_of c \<le> 90 then char_of (code_of c + 32) else c)"

definition to_lower_copy :: "string \<Rightarrow> string" where
  "to_lower_copy s = map tolower s"

definition is_digit :: "char \<Rightarrow> bool" where
  "is_digit c \<longleftrightarrow> 48 \<le> code_of c \<and> code_of c \<le> 57"

definition digits_value :: "string \<Rightarrow> int" where
  "digits_value ds = foldl (\<lambda>n c. 10 * n + (int (code_of c) - 48)) 0 ds"

definition stoi :: "string \<Rightarrow> int result" where
  "stoi s =
    (let t = dropWhile isspace s;
         (neg, u) = (case t of c # r \<Rightarrow> if c = CHR ''-'' then (True, r) else if c = CHR ''+'' then (False, r) else (False, t)
                     | [] \<Rightarrow> (False, t));
         ds = takeWhile is_digit u;
         v = (if neg then - digits_value ds else digits_value ds)
     in if ds = [] then Inl (Invalid_argument ''stoi'')
        else if v < - (2 ^ 31) \<or> 2 ^ 31 \<le> v then Inl (Out_of_range ''stoi'')
        else Inr v)"

definition map_key :: "string \<Rightarrow> term_key option" where
  "map_key name =
    (let key = to_lower_copy name in
     if key = ''enter'' \<or> key = ''return'' then Some Key_enter
     else if key = ''backspace'' \<or> key = ''bs'' then Some Key_backspace
     else if key = ''tab'' then Some Key_tab
     else if key = ''escape'' \<or> key = ''esc'' then Some Key_escape
     else if key = ''up'' then Some Key_up
     else if key = ''down'' then Some Key_down
     else if key = ''left'' then Some Key_left
     else if key = ''right'' then Some Key_right
     else if key = ''home'' then Some Key_home
     else if key = ''end'' then Some Key_end
     else if key = ''insert'' then Some Key_ins
     else if key = ''delete'' \<or> key = ''del'' then Some Key_del
     else if key = ''pageup'' \<or> key = ''page_up'' \<or> key = ''pgup'' then Some Key_pageup
     else if key = ''pagedown'' \<or> key = ''page_down'' \<or> key = ''pgdown'' \<or> key = ''pgdn'' then Some Key_pagedown
     else if key \<noteq> [] \<and> hd key = CHR ''f'' \<and> length key \<le> 3 then
       (let idx = (case stoi (tl key) of Inr i \<Rightarrow> i | Inl e \<Rightarrow> 0)
        in if idx > 0 \<and> idx \<le> 24 then Some (Key_function (nat idx)) else None)
     else None)"

definition send_key :: "('v, 'c) vterm \<Rightarrow> string \<Rightarrow> ('v, 'c) terminal \<Rightarrow> ('v, 'c) terminal" where
  "send_key V name s =
    (case map_key name of
       Some k \<Rightarrow> flush_damage V (keyboard_key V k s)
     | None \<Rightarrow> if name \<noteq> [] then flush_damage V (keyboard_unichar V (byte_of_char (hd name)) s) else s)"

end
