(* ===== verification/Terminal_Safety.thy ===== *)
theory Terminal_Safety
  imports Terminal_Process
begin

text \<open>
  The terminal's histories: what the library may do is a step relation (its callbacks and changes of its own
  state), and the public operations are relations built over any library that does nothing else. The locale
  \<open>steady\<close> carries a condition through the operations once it is carried through the callbacks; it is
  interpreted for the accounting of the scrollback and for the dirty rows.
\<close>

section \<open>Sizes\<close>

lemma add_size_exact: "a + b < 2 ^ 64 \<Longrightarrow> add_size a b = a + b"
  by (simp add: add_size_def)

lemma sub_size_exact: "b \<le> a \<Longrightarrow> a < 2 ^ 64 \<Longrightarrow> sub_size a b = a - b"
proof -
  assume "b \<le> a" "a < 2 ^ 64"
  then have "a + 2 ^ 64 - b mod 2 ^ 64 = (a - b) + 2 ^ 64" by simp
  with \<open>a < 2 ^ 64\<close> show ?thesis by (simp add: sub_size_def)
qed

lemma size_as_int_exact: "n < 2 ^ 31 \<Longrightarrow> size_as_int n = int n"
  by (simp add: size_as_int_def signed_of_nat signed_take_bit_int_eq_self)

section \<open>The scrollback as the longest suffix that fits\<close>

definition costs :: "nat \<Rightarrow> 'a list list \<Rightarrow> nat" where
  "costs w ls = sum_list (map (\<lambda>l. length l * w) ls)"

definition fits :: "nat \<Rightarrow> int \<Rightarrow> nat \<Rightarrow> 'a list list \<Rightarrow> bool" where
  "fits w limit byte_limit ls \<longleftrightarrow> int (length ls) \<le> limit \<and> costs w ls \<le> byte_limit"

fun longest_fit :: "nat \<Rightarrow> int \<Rightarrow> nat \<Rightarrow> 'a list list \<Rightarrow> 'a list list" where
  "longest_fit w limit byte_limit [] = []"
| "longest_fit w limit byte_limit (l # ls) =
    (if fits w limit byte_limit (l # ls) then l # ls else longest_fit w limit byte_limit ls)"

lemma costs_simps [simp]:
  "costs w [] = 0" "costs w (l # ls) = length l * w + costs w ls" "costs w (ls @ ms) = costs w ls + costs w ms"
  by (simp_all add: costs_def)

lemma longest_fit_suffix: "suffix (longest_fit w limit bl ls) ls"
  by (induction ls) (auto simp: suffix_ConsI)

lemma longest_fit_fits: "0 \<le> limit \<Longrightarrow> fits w limit bl (longest_fit w limit bl ls)"
  by (induction ls) (auto simp: fits_def)

lemma fits_suffix: "suffix q ls \<Longrightarrow> fits w limit bl ls \<Longrightarrow> fits w limit bl q"
  by (auto simp: suffix_def fits_def)

lemma longest_fit_greatest: "suffix q ls \<Longrightarrow> fits w limit bl q \<Longrightarrow> suffix q (longest_fit w limit bl ls)"
  by (induction ls) (auto simp: suffix_Cons)

lemma longest_fit_idem: "fits w limit bl ls \<Longrightarrow> longest_fit w limit bl ls = ls"
  by (cases ls) simp_all

lemma longest_fit_snoc: "longest_fit w limit bl (longest_fit w limit bl ls @ [x]) = longest_fit w limit bl (ls @ [x])"
proof (induction ls)
  case (Cons l ls)
  then show ?case by (auto simp: fits_def)
qed simp

lemma longest_fit_set: "set (longest_fit w limit bl ls) \<subseteq> set ls"
  by (rule set_mono_suffix) (rule longest_fit_suffix)

definition sound_line :: "'a list \<Rightarrow> bool" where
  "sound_line l \<longleftrightarrow> l \<noteq> [] \<and> length l < 2 ^ 31"

definition sound_width :: "nat \<Rightarrow> bool" where
  "sound_width w \<longleftrightarrow> 0 < w \<and> w < 2 ^ 16"

lemma line_byte_cost_exact: "sound_line l \<Longrightarrow> sound_width w \<Longrightarrow> line_byte_cost w l = length l * w"
proof -
  assume a: "sound_line l" "sound_width w"
  then have "length l * w \<le> 2 ^ 31 * 2 ^ 16" by (intro mult_le_mono) (auto simp: sound_line_def sound_width_def)
  then show ?thesis by (simp add: line_byte_cost_def)
qed

lemma costs_length: "list_all sound_line ls \<Longrightarrow> sound_width w \<Longrightarrow> length ls \<le> costs w ls"
proof (induction ls)
  case (Cons l ls)
  have "1 \<le> length l * w" using Cons.prems by (cases l) (auto simp: sound_line_def sound_width_def)
  moreover have "length ls \<le> costs w ls" using Cons by simp
  ultimately have "1 + length ls \<le> length l * w + costs w ls" by (rule add_mono)
  then show ?case by (simp only: costs_simps list.size One_nat_def add.commute)
qed simp

lemma trim_loop_exact:
  assumes "list_all sound_line ls" and "sound_width w" and "costs w ls < 2 ^ 64" and "length ls < 2 ^ 31"
  shows "trim_loop w limit bl ls (costs w ls) = (longest_fit w limit bl ls, costs w (longest_fit w limit bl ls))"
  using assms
proof (induction ls)
  case (Cons l ls)
  have cost: "line_byte_cost w l = length l * w"
    using Cons.prems by (simp add: line_byte_cost_exact)
  have rest: "sub_size (costs w (l # ls)) (line_byte_cost w l) = costs w ls"
    using Cons.prems(3) by (simp add: cost sub_size_exact)
  show ?case
  proof (cases "fits w limit bl (l # ls)")
    case True
    then show ?thesis using Cons.prems(4) by (simp add: size_as_int_exact fits_def)
  next
    case False
    with Cons.prems(4) have "size_as_int (length (l # ls)) > limit \<or> costs w (l # ls) > bl"
      by (auto simp: size_as_int_exact fits_def)
    with False rest Cons show ?thesis by simp
  qed
qed simp

section \<open>What the library may do\<close>

inductive lib_step :: "nat \<Rightarrow> ('v, 'c) terminal \<Rightarrow> ('v, 'c) terminal \<Rightarrow> bool" for w where
  Damage: "lib_step w s (handle_damage r s)"
| Move_rect: "lib_step w s (handle_move_rect dest src s)"
| Move_cursor: "lib_step w s (handle_move_cursor row col visible s)"
| Set_prop: "lib_step w s (handle_set_term_prop prop s)"
| Bell: "lib_step w s (handle_bell s)"
| Resized: "0 < rows \<Longrightarrow> 0 < cols \<Longrightarrow> lib_step w s (handle_resize rows cols s)"
| Push: "length cells < 2 ^ 31 \<Longrightarrow> lib_step w s (push_scrollback_line w (Some cells) s)"
| Pop: "lib_step w s (snd (pop_scrollback_line w cols null s))"
| Clear: "lib_step w s (clear_scrollback s)"
| Output: "write_to_pty rs bytes s = Some t \<Longrightarrow> lib_step w s t"
| Internal: "lib_step w s (s\<lparr>vt := v\<rparr>)"

text \<open>
  A library that acts on the terminal only by its callbacks, and that, told a size of at least one row and
  column, calls back with it. Any other size it may ignore.
\<close>

definition library_behaves :: "nat \<Rightarrow> ('v, 'c) vterm \<Rightarrow> bool" where
  "library_behaves w V \<longleftrightarrow> sound_width w
     \<and> (\<forall>data s. (lib_step w)\<^sup>*\<^sup>* s (input_write V data s))
     \<and> (\<forall>s. (lib_step w)\<^sup>*\<^sup>* s (screen_flush_damage V s))
     \<and> (\<forall>k s. (lib_step w)\<^sup>*\<^sup>* s (keyboard_key V k s))
     \<and> (\<forall>b s. (lib_step w)\<^sup>*\<^sup>* s (keyboard_unichar V b s))
     \<and> (\<forall>row col s. (lib_step w)\<^sup>*\<^sup>* s (mouse_move V row col s))
     \<and> (\<forall>b p s. (lib_step w)\<^sup>*\<^sup>* s (mouse_button V b p s))
     \<and> (\<forall>rows cols s. 0 < rows \<longrightarrow> 0 < cols \<longrightarrow>
          (\<exists>t. (lib_step w)\<^sup>*\<^sup>* s t \<and> (lib_step w)\<^sup>*\<^sup>* (handle_resize rows cols t) (set_size V rows cols s)))
     \<and> (\<forall>rows cols s. rows \<le> 0 \<or> cols \<le> 0 \<longrightarrow> (lib_step w)\<^sup>*\<^sup>* s (set_size V rows cols s))"

lemma library_calls:
  assumes "library_behaves w V"
  shows "(lib_step w)\<^sup>*\<^sup>* s (input_write V data s)" and "(lib_step w)\<^sup>*\<^sup>* s (screen_flush_damage V s)"
    and "(lib_step w)\<^sup>*\<^sup>* s (keyboard_key V k s)" and "(lib_step w)\<^sup>*\<^sup>* s (keyboard_unichar V b s)"
    and "(lib_step w)\<^sup>*\<^sup>* s (mouse_move V row col s)" and "(lib_step w)\<^sup>*\<^sup>* s (mouse_button V n p s)"
  using assms by (simp_all add: library_behaves_def)

lemma library_resizes:
  assumes "library_behaves w V" and "0 < rows" and "0 < cols"
  shows "\<exists>t. (lib_step w)\<^sup>*\<^sup>* s t \<and> (lib_step w)\<^sup>*\<^sup>* (handle_resize rows cols t) (set_size V rows cols s)"
  using assms by (simp add: library_behaves_def)

lemma library_ignores:
  assumes "library_behaves w V" and "rows \<le> 0 \<or> cols \<le> 0"
  shows "(lib_step w)\<^sup>*\<^sup>* s (set_size V rows cols s)"
  using assms unfolding library_behaves_def by blast

text \<open>The public operations, with any arguments; the line limit is an \<open>int\<close>.\<close>

inductive term_op :: "nat \<Rightarrow> ('v, 'c) vterm \<Rightarrow> ('v, 'c) terminal \<Rightarrow> ('v, 'c) terminal \<Rightarrow> bool" for w V where
  Inject: "term_op w V s (inject_output V data s)"
| Key: "term_op w V s (send_key V name s)"
| Mouse: "term_op w V s (send_mouse V row col button pressed s)"
| Resize: "term_op w V s (resize V rows cols s)"
| Update: "drain_pty V rs reaped s = Some t \<Longrightarrow> term_op w V s t"
| Text: "write_to_pty rs bytes s = Some t \<Longrightarrow> term_op w V s t"
| Limit: "lines < 2 ^ 31 \<Longrightarrow> term_op w V s (set_scrollback_limit w lines s)"

lemma drain_loop_Nil:
  "drain_loop V [] k n s =
    (if k < max_bytes_per_drain \<and> n < max_read_iterations then None else Some (k, n, s))"
  by (subst drain_loop.simps) simp

lemma drain_loop_Cons:
  "drain_loop V ((r, elapsed) # rs) k n s =
    (if k < max_bytes_per_drain \<and> n < max_read_iterations then
       (case r of
          Read_bytes data \<Rightarrow>
            if k + length data \<ge> max_bytes_per_drain \<or> n + 1 \<ge> max_read_iterations \<or> elapsed \<ge> max_drain_duration
            then Some (k + length data, n + 1, input_write V data s)
            else drain_loop V rs (k + length data) (n + 1) (input_write V data s)
        | Read_interrupted \<Rightarrow> drain_loop V rs k n s
        | _ \<Rightarrow> Some (k, n, s))
     else Some (k, n, s))"
  by (subst drain_loop.simps) (simp add: Let_def split: read_result.split)

lemma if_either: "P x \<Longrightarrow> P y \<Longrightarrow> P (if b then x else y)"
  by simp

section \<open>Conditions carried through the operations\<close>

locale steady =
  fixes w :: nat
    and P :: "('v, 'c) terminal \<Rightarrow> bool"
  assumes P_step: "lib_step w s t \<Longrightarrow> P s \<Longrightarrow> P t"
    and P_quiet: "P s \<Longrightarrow> P (log_term es s)" "P s \<Longrightarrow> P (s\<lparr>screen_changed := False\<rparr>)" "P s \<Longrightarrow> P (s\<lparr>child_pid := p\<rparr>)"
    and P_resize: "P s \<Longrightarrow> 0 < rows \<Longrightarrow> 0 < cols \<Longrightarrow> (lib_step w)\<^sup>*\<^sup>* (s\<lparr>t_rows := rows, t_cols := cols\<rparr>) t
        \<Longrightarrow> P (handle_resize rows cols t)"
    and P_no_screen: "P s \<Longrightarrow> rows \<le> 0 \<or> cols \<le> 0 \<Longrightarrow> P (s\<lparr>t_rows := rows, t_cols := cols\<rparr>)"
    and P_limit: "P s \<Longrightarrow> lines < 2 ^ 31 \<Longrightarrow> P (set_scrollback_limit w lines s)"
begin

lemma P_steps: "(lib_step w)\<^sup>*\<^sup>* s t \<Longrightarrow> P s \<Longrightarrow> P t"
  by (induction rule: rtranclp_induct) (auto intro: P_step)

lemma P_library:
  assumes "library_behaves w V" and "P s"
  shows "P (input_write V data s)" and "P (screen_flush_damage V s)" and "P (keyboard_key V k s)"
    and "P (keyboard_unichar V b s)" and "P (mouse_move V row col s)" and "P (mouse_button V n p s)"
  using assms(2) library_calls [OF assms(1)] by (blast intro: P_steps)+

lemma P_flush: "library_behaves w V \<Longrightarrow> P s \<Longrightarrow> P (flush_damage V s)"
  by (simp add: flush_damage_def Let_def P_quiet P_library)

lemma P_resized:
  assumes "library_behaves w V" and "P s"
  shows "P (resize V rows cols s)"
proof -
  let ?s = "s\<lparr>t_rows := rows, t_cols := cols\<rparr>"
  have "P (set_size V rows cols ?s)"
  proof (cases "0 < rows \<and> 0 < cols")
    case True
    then obtain t where t: "(lib_step w)\<^sup>*\<^sup>* ?s t"
      and u: "(lib_step w)\<^sup>*\<^sup>* (handle_resize rows cols t) (set_size V rows cols ?s)"
      using library_resizes [OF assms(1)] by blast
    have "P (handle_resize rows cols t)" using P_resize [OF assms(2) _ _ t] True by blast
    with u show ?thesis by (rule P_steps)
  next
    case False
    then have no: "rows \<le> 0 \<or> cols \<le> 0" by auto
    from library_ignores [OF assms(1) no] P_no_screen [OF assms(2) no] show ?thesis by (rule P_steps)
  qed
  then have flushed: "P (flush_damage V (set_size V rows cols ?s))" by (rule P_flush [OF assms(1)])
  then have "P (log_term [Resize_logged] (flush_damage V (set_size V rows cols ?s)))" by (rule P_quiet(1))
  with flushed show ?thesis
    unfolding resize_def Let_def by (rule if_either [rotated])
qed

lemma P_drain_loop:
  assumes "library_behaves w V"
  shows "P s \<Longrightarrow> drain_loop V rs k n s = Some (k', n', t) \<Longrightarrow> P t"
proof (induction rs arbitrary: k n s)
  case (Cons r rs)
  obtain result elapsed where r: "r = (result, elapsed)" by fastforce
  note input = P_library(1) [OF assms Cons.prems(1)]
  show ?case
    using Cons.prems Cons.IH [OF input] Cons.IH [OF Cons.prems(1)] input
    by (cases result) (auto simp: r drain_loop_Cons Let_def split: if_splits)
qed (auto simp: drain_loop_Nil split: if_splits)

lemma P_op: "term_op w V s t \<Longrightarrow> library_behaves w V \<Longrightarrow> P s \<Longrightarrow> P t"
proof (induction rule: term_op.induct)
  case (Key s name)
  then show ?case
    by (simp add: send_key_def P_flush P_library split: option.split)
next
  case (Update rs reaped s t)
  then show ?case
    by (auto simp: drain_pty_def Let_def intro!: P_flush P_quiet intro: P_drain_loop split: if_splits prod.splits)
next
  case (Text rs bytes s t)
  then show ?case by (blast intro: P_step Output)
qed (simp_all add: inject_output_def send_mouse_def P_flush P_library P_resized P_limit)

lemma P_ops: "(term_op w V)\<^sup>*\<^sup>* s t \<Longrightarrow> library_behaves w V \<Longrightarrow> P s \<Longrightarrow> P t"
  by (induction rule: rtranclp_induct) (auto intro: P_op)

end

end
