(* ===== verification/Terminal_Properties.thy ===== *)
theory Terminal_Properties
  imports Terminal_Safety
begin

text \<open>
  What the terminal promises: the scrollback is the longest suffix of the lines pushed that fits its limits, with
  an exact count of bytes; the dirty regions cover exactly the damaged cells and no damage is lost; reading
  the child's output is bounded; commands and keys are read as meant.
\<close>

section \<open>The scrollback\<close>

lemma log_fields [simp]:
  "scrollback (log_term es s) = scrollback s" "scrollback_bytes (log_term es s) = scrollback_bytes s"
  "scrollback_line_limit (log_term es s) = scrollback_line_limit s"
  "scrollback_byte_limit (log_term es s) = scrollback_byte_limit s"
  "dirty_rows (log_term es s) = dirty_rows s" "t_rows (log_term es s) = t_rows s" "t_cols (log_term es s) = t_cols s"
  "in_alt_screen (log_term es s) = in_alt_screen s"
  by (simp_all add: log_term_def)

lemma size_log_fields [simp]:
  "scrollback (log_scrollback_size_change e n b s) = scrollback s"
  "scrollback_bytes (log_scrollback_size_change e n b s) = scrollback_bytes s"
  "scrollback_line_limit (log_scrollback_size_change e n b s) = scrollback_line_limit s"
  "scrollback_byte_limit (log_scrollback_size_change e n b s) = scrollback_byte_limit s"
  "dirty_rows (log_scrollback_size_change e n b s) = dirty_rows s"
  "t_rows (log_scrollback_size_change e n b s) = t_rows s" "t_cols (log_scrollback_size_change e n b s) = t_cols s"
  "in_alt_screen (log_scrollback_size_change e n b s) = in_alt_screen s"
  by (simp_all add: log_scrollback_size_change_def)

lemma mark_damage_fields [simp]:
  "scrollback (mark_damage r s) = scrollback s" "scrollback_bytes (mark_damage r s) = scrollback_bytes s"
  "scrollback_line_limit (mark_damage r s) = scrollback_line_limit s"
  "scrollback_byte_limit (mark_damage r s) = scrollback_byte_limit s"
  "t_rows (mark_damage r s) = t_rows s" "t_cols (mark_damage r s) = t_cols s"
  "in_alt_screen (mark_damage r s) = in_alt_screen s"
  by (simp_all add: mark_damage_def Let_def)

lemmas term_handlers = handle_damage_def handle_move_rect_def handle_move_cursor_def handle_set_term_prop_def
  handle_title_def handle_bell_def handle_resize_def reset_dirty_def clear_scrollback_def Let_def

definition sb_sound :: "nat \<Rightarrow> ('v, 'c) terminal \<Rightarrow> bool" where
  "sb_sound w s \<longleftrightarrow> sound_width w \<and> list_all sound_line (scrollback s)
     \<and> scrollback_bytes s = costs w (scrollback s) \<and> 0 \<le> scrollback_line_limit s
     \<and> scrollback_byte_limit s = 16 * 1024 * 1024"

definition sb_inv :: "nat \<Rightarrow> ('v, 'c) terminal \<Rightarrow> bool" where
  "sb_inv w s \<longleftrightarrow> sb_sound w s \<and> fits w (scrollback_line_limit s) (scrollback_byte_limit s) (scrollback s)"

lemma trim_scrollback_fields:
  assumes "sb_sound w s" and "costs w (scrollback s) < 2 ^ 64" and "length (scrollback s) < 2 ^ 31"
  defines "kept \<equiv> longest_fit w (scrollback_line_limit s) (scrollback_byte_limit s) (scrollback s)"
  shows "scrollback (trim_scrollback w s) = kept" and "scrollback_bytes (trim_scrollback w s) = costs w kept"
    and "scrollback_line_limit (trim_scrollback w s) = scrollback_line_limit s"
    and "scrollback_byte_limit (trim_scrollback w s) = scrollback_byte_limit s"
    and "sb_inv w (trim_scrollback w s)"
proof -
  have loop: "trim_loop w (scrollback_line_limit s) (scrollback_byte_limit s) (scrollback s) (scrollback_bytes s)
      = (kept, costs w kept)"
    using assms(1-3) by (simp add: sb_sound_def kept_def trim_loop_exact)
  show f: "scrollback (trim_scrollback w s) = kept" "scrollback_bytes (trim_scrollback w s) = costs w kept"
    "scrollback_line_limit (trim_scrollback w s) = scrollback_line_limit s"
    "scrollback_byte_limit (trim_scrollback w s) = scrollback_byte_limit s"
    by (simp_all add: trim_scrollback_def loop)
  have "set kept \<subseteq> set (scrollback s)" by (simp add: kept_def longest_fit_set)
  then have "list_all sound_line kept"
    using assms(1) by (auto simp: sb_sound_def list_all_iff)
  moreover have "fits w (scrollback_line_limit s) (scrollback_byte_limit s) kept"
    using assms(1) by (simp add: kept_def longest_fit_fits sb_sound_def)
  ultimately show "sb_inv w (trim_scrollback w s)"
    using assms(1) by (simp add: sb_inv_def sb_sound_def f)
qed

lemma sb_inv_small:
  assumes "sb_inv w s"
  shows "costs w (scrollback s) \<le> 2 ^ 24" and "length (scrollback s) \<le> 2 ^ 24"
proof -
  show cost: "costs w (scrollback s) \<le> 2 ^ 24"
    using assms by (simp add: sb_inv_def sb_sound_def fits_def)
  have "length (scrollback s) \<le> costs w (scrollback s)"
    using assms by (intro costs_length) (auto simp: sb_inv_def sb_sound_def)
  with cost show "length (scrollback s) \<le> 2 ^ 24" by simp
qed

lemma push_line:
  assumes "sb_inv w s" and "\<not> in_alt_screen s" and "sound_line line"
  shows "sb_inv w (push_scrollback_line w (Some line) s)"
    and "scrollback (push_scrollback_line w (Some line) s)
      = longest_fit w (scrollback_line_limit s) (scrollback_byte_limit s) (scrollback s @ [line])"
    and "scrollback_line_limit (push_scrollback_line w (Some line) s) = scrollback_line_limit s"
    and "scrollback_byte_limit (push_scrollback_line w (Some line) s) = scrollback_byte_limit s"
proof -
  let ?s = "s\<lparr>scrollback_bytes := add_size (scrollback_bytes s) (line_byte_cost w line), scrollback := scrollback s @ [line]\<rparr>"
  have w: "sound_width w" using assms(1) by (simp add: sb_inv_def sb_sound_def)
  have "length line * w \<le> 2 ^ 31 * 2 ^ 16"
    using assms(3) w by (intro mult_le_mono) (auto simp: sound_line_def sound_width_def)
  then have small: "costs w (scrollback s) + length line * w \<le> 2 ^ 24 + 2 ^ 31 * 2 ^ 16"
    using sb_inv_small(1) [OF assms(1)] by (rule add_mono [rotated])
  then have bytes: "add_size (scrollback_bytes s) (line_byte_cost w line) = costs w (scrollback s @ [line])"
    using assms(1) by (simp add: line_byte_cost_exact [OF assms(3) w] add_size_exact sb_inv_def sb_sound_def)
  have "sb_sound w ?s" using assms(1,3) bytes by (simp add: sb_inv_def sb_sound_def)
  moreover have "costs w (scrollback ?s) < 2 ^ 64" using small by simp
  moreover have "length (scrollback ?s) < 2 ^ 31" using sb_inv_small(2) [OF assms(1)] by simp
  moreover have "push_scrollback_line w (Some line) s = trim_scrollback w ?s"
    using assms(2,3) by (simp add: push_scrollback_line_def sound_line_def)
  ultimately show "sb_inv w (push_scrollback_line w (Some line) s)"
    and "scrollback (push_scrollback_line w (Some line) s)
      = longest_fit w (scrollback_line_limit s) (scrollback_byte_limit s) (scrollback s @ [line])"
    and "scrollback_line_limit (push_scrollback_line w (Some line) s) = scrollback_line_limit s"
    and "scrollback_byte_limit (push_scrollback_line w (Some line) s) = scrollback_byte_limit s"
    using trim_scrollback_fields [of w ?s] by simp_all
qed

lemma pop_line:
  assumes "sb_inv w s"
  shows "sb_inv w (snd (pop_scrollback_line w cols null s))"
proof (cases "in_alt_screen s \<or> cols = 0 \<or> null \<or> scrollback s = []")
  case False
  then obtain ls l where sb: "scrollback s = ls @ [l]" by (cases "scrollback s" rule: rev_cases) auto
  have l: "sound_line l" "sound_width w" using assms sb by (auto simp: sb_inv_def sb_sound_def)
  have "scrollback_bytes s < 2 ^ 64" "scrollback_bytes s = costs w ls + length l * w"
    using assms sb_inv_small(1) [OF assms] sb by (auto simp: sb_inv_def sb_sound_def)
  then have "sub_size (scrollback_bytes s) (line_byte_cost w l) = costs w ls"
    by (simp add: line_byte_cost_exact [OF l] sub_size_exact)
  with assms False sb show ?thesis
    by (simp add: pop_scrollback_line_def Let_def sb_inv_def sb_sound_def fits_def)
qed (use assms in \<open>simp add: pop_scrollback_line_def\<close>)

lemma sb_inv_step: "lib_step w s t \<Longrightarrow> sb_inv w s \<Longrightarrow> sb_inv w t"
proof (induction rule: lib_step.induct)
  case (Push cells s)
  show ?case
  proof (cases "in_alt_screen s \<or> cells = []")
    case True
    with Push.prems show ?thesis by (auto simp: push_scrollback_line_def)
  next
    case False
    with Push show ?thesis by (intro push_line) (auto simp: sound_line_def)
  qed
next
  case (Pop s cols null)
  then show ?case by (rule pop_line)
next
  case (Output rs bytes s t)
  then show ?case
    by (auto simp: write_to_pty_def sb_inv_def sb_sound_def split: if_splits)
qed (auto simp: term_handlers sb_inv_def sb_sound_def fits_def split: term_prop.split)

interpretation scrollback: steady w "sb_inv w" for w
proof unfold_locales
  fix s t :: "('v, 'c) terminal"
  show "lib_step w s t \<Longrightarrow> sb_inv w s \<Longrightarrow> sb_inv w t" by (rule sb_inv_step)
next
  fix s :: "('v, 'c) terminal" and lines :: int
  assume s: "sb_inv w s" and lines: "lines < 2 ^ 31"
  have "sb_inv w (trim_scrollback w (s\<lparr>scrollback_line_limit := max 0 lines\<rparr>))"
    using s sb_inv_small [OF s] by (intro trim_scrollback_fields) (auto simp: sb_inv_def sb_sound_def)
  then show "sb_inv w (set_scrollback_limit w lines s)" by (simp add: set_scrollback_limit_def)
next
  fix s t :: "('v, 'c) terminal" and rows cols :: int
  assume s: "sb_inv w s" and t: "(lib_step w)\<^sup>*\<^sup>* (s\<lparr>t_rows := rows, t_cols := cols\<rparr>) t" and "0 < rows" "0 < cols"
  have "sb_inv w (s\<lparr>t_rows := rows, t_cols := cols\<rparr>)" using s by (auto simp: sb_inv_def sb_sound_def)
  with t have "sb_inv w t" by (induction rule: rtranclp_induct) (auto intro: sb_inv_step)
  moreover have "lib_step w t (handle_resize rows cols t)" using \<open>0 < rows\<close> \<open>0 < cols\<close> by (rule Resized)
  ultimately show "sb_inv w (handle_resize rows cols t)" using sb_inv_step by blast
qed (auto simp: sb_inv_def sb_sound_def)

lemma push_alt [simp]: "in_alt_screen (push_scrollback_line w cells s) = in_alt_screen s"
  by (simp add: push_scrollback_line_def trim_scrollback_def split: option.split prod.split)

lemma push_lines:
  assumes "sb_inv w s" and "\<not> in_alt_screen s" and "list_all sound_line ls"
  defines "t \<equiv> fold (\<lambda>line. push_scrollback_line w (Some line)) ls s"
  shows "sb_inv w t \<and> in_alt_screen t = in_alt_screen s \<and> scrollback_line_limit t = scrollback_line_limit s
    \<and> scrollback_byte_limit t = scrollback_byte_limit s
    \<and> scrollback t = longest_fit w (scrollback_line_limit s) (scrollback_byte_limit s) (scrollback s @ ls)"
  using assms(3) unfolding t_def
proof (induction ls rule: rev_induct)
  case Nil
  then show ?case using assms(1) by (auto simp: longest_fit_idem sb_inv_def)
next
  case (snoc l ls)
  let ?t = "fold (\<lambda>line. push_scrollback_line w (Some line)) ls s"
  have IH: "sb_inv w ?t" "\<not> in_alt_screen ?t" "scrollback_line_limit ?t = scrollback_line_limit s"
    "scrollback_byte_limit ?t = scrollback_byte_limit s"
    "scrollback ?t = longest_fit w (scrollback_line_limit s) (scrollback_byte_limit s) (scrollback s @ ls)"
    using snoc assms(2) by simp_all
  have "sound_line l" using snoc.prems by simp
  from push_line [OF IH(1,2) this] IH show ?case
    by (simp add: longest_fit_snoc assms(2))
qed

text \<open>C23: the scrollback holds the longest suffix of the lines that left the screen which fits its limits. After any
  sequence of lines pushed in normal mode the scrollback is a suffix of what it was followed by those lines, has at
  most the limit of lines and of bytes, and every other suffix within the limits is a suffix of it; the counter
  is the number of bytes it holds.
\<close>

lemma scrollback_keeps_longest_suffix:
  assumes "sb_inv w s" and "\<not> in_alt_screen s" and "\<forall>l\<in>set ls. l \<noteq> [] \<and> length l < 2 ^ 31"
    and "t = fold (\<lambda>line. push_scrollback_line w (Some line)) ls s"
  shows "suffix (scrollback t) (scrollback s @ ls)
    \<and> int (length (scrollback t)) \<le> scrollback_line_limit s \<and> scrollback_bytes t \<le> scrollback_byte_limit s
    \<and> scrollback_bytes t = sum_list (map (\<lambda>l. length l * w) (scrollback t))
    \<and> (\<forall>q. suffix q (scrollback s @ ls) \<and> int (length q) \<le> scrollback_line_limit s
         \<and> sum_list (map (\<lambda>l. length l * w) q) \<le> scrollback_byte_limit s \<longrightarrow> suffix q (scrollback t))"
proof -
  have "list_all sound_line ls" using assms(3) by (simp add: list_all_iff sound_line_def)
  from push_lines [OF assms(1,2) this] assms(4) have t: "sb_inv w t"
    "scrollback_line_limit t = scrollback_line_limit s" "scrollback_byte_limit t = scrollback_byte_limit s"
    "scrollback t = longest_fit w (scrollback_line_limit s) (scrollback_byte_limit s) (scrollback s @ ls)"
    by simp_all
  have "suffix q (scrollback t)" if "suffix q (scrollback s @ ls)" "int (length q) \<le> scrollback_line_limit s"
      "sum_list (map (\<lambda>l. length l * w) q) \<le> scrollback_byte_limit s" for q
    using that longest_fit_greatest [OF that(1)] by (simp add: t(4) fits_def costs_def)
  with t(1-3) show ?thesis
    using longest_fit_suffix [of w "scrollback_line_limit s" "scrollback_byte_limit s" "scrollback s @ ls"]
    by (auto simp: t(4) sb_inv_def sb_sound_def fits_def costs_def)
qed

definition sample_cell :: "nat screen_cell" where
  "sample_cell = \<lparr>chars0 = 65, at_bold = False, at_underline = 0, at_italic = False, at_reverse = False, at_fg = 7, at_bg = 0\<rparr>"

lemma scrollback_keeps_longest_suffix_witness:
  "suffix (scrollback (fold (\<lambda>line. push_scrollback_line 40 (Some line)) [[sample_cell], [sample_cell, sample_cell]]
       (fresh_terminal 0 2 3 :: (nat, nat) terminal))) [[sample_cell], [sample_cell, sample_cell]]"
proof -
  have "sb_inv 40 (fresh_terminal 0 2 3 :: (nat, nat) terminal)"
    by (simp add: sb_inv_def sb_sound_def fresh_terminal_def fits_def sound_width_def)
  from scrollback_keeps_longest_suffix [OF this, of "[[sample_cell], [sample_cell, sample_cell]]", OF _ _ refl] show ?thesis
    by (simp add: fresh_terminal_def)
qed

text \<open>
  A pop after a push gives the line back, if a line fits at all: the push kept it, and the library's buffer gets
  its first cells.
\<close>

lemma pop_after_push:
  assumes "sb_inv w s" and "\<not> in_alt_screen s" and "sound_line line" and "1 \<le> scrollback_line_limit s"
    and "length line * w \<le> scrollback_byte_limit s" and "0 < cols"
  shows "fst (pop_scrollback_line w cols False (push_scrollback_line w (Some line) s)) = (1, take cols line)"
proof -
  let ?t = "push_scrollback_line w (Some line) s"
  have sb: "scrollback ?t = longest_fit w (scrollback_line_limit s) (scrollback_byte_limit s) (scrollback s @ [line])"
    using push_line(2) [OF assms(1-3)] .
  have "suffix [line] (scrollback ?t)"
    unfolding sb using assms(4,5) by (intro longest_fit_greatest) (auto simp: fits_def suffix_def)
  then have "scrollback ?t \<noteq> []" and "last (scrollback ?t) = line" by (auto simp: suffix_def)
  then show ?thesis using assms(2,6) by (simp add: pop_scrollback_line_def Let_def min_def)
qed

section \<open>Dirty rows\<close>

definition covered :: "dirty_row list \<Rightarrow> nat \<Rightarrow> int \<Rightarrow> bool" where
  "covered ds i j \<longleftrightarrow> i < length ds \<and> d_dirty (ds ! i) \<and> d_left (ds ! i) \<le> j \<and> j \<le> d_right (ds ! i)"

definition in_rect :: "rect \<Rightarrow> nat \<Rightarrow> int \<Rightarrow> bool" where
  "in_rect r i j \<longleftrightarrow> r_top r \<le> int i \<and> int i \<le> r_bottom r \<and> r_left r \<le> j \<and> j \<le> r_right r"

definition dirty_ok :: "('v, 'c) terminal \<Rightarrow> bool" where
  "dirty_ok s \<longleftrightarrow> dirty_rows s = [] \<or> length (dirty_rows s) = nat (t_rows s)"

lemma mark_rows_length [simp]: "length (mark_rows left right rows ds) = length ds"
  by (induction rows arbitrary: ds) simp_all

lemma list_update_at: "i < length xs \<Longrightarrow> xs[a := v] ! i = (if a = i then v else xs ! i)"
  by (cases "a = i") simp_all

lemma mark_rows_nth:
  "distinct rows \<Longrightarrow> i < length ds \<Longrightarrow>
     mark_rows left right rows ds ! i = (if i \<in> set rows then widen left right (ds ! i) else ds ! i)"
  by (induction rows arbitrary: ds) (auto simp: list_update_at)

lemma widen_covers:
  "d_dirty (widen left right d)"
  "left \<le> j \<Longrightarrow> d_left (widen left right d) \<le> j" "j \<le> right \<Longrightarrow> j \<le> d_right (widen left right d)"
  "d_dirty d \<Longrightarrow> d_left d \<le> j \<Longrightarrow> d_left (widen left right d) \<le> j"
  "d_dirty d \<Longrightarrow> j \<le> d_right d \<Longrightarrow> j \<le> d_right (widen left right d)"
  by (auto simp: widen_def)

lemma mark_damage_dirty:
  assumes "0 < t_rows s" and "0 < t_cols s"
    and "clamp_to (t_rows s) (r_top r) \<le> clamp_to (t_rows s) (r_bottom r)"
    and "clamp_to (t_cols s) (r_left r) \<le> clamp_to (t_cols s) (r_right r)"
  shows "dirty_rows (mark_damage r s) =
    mark_rows (clamp_to (t_cols s) (r_left r)) (clamp_to (t_cols s) (r_right r))
      [nat (clamp_to (t_rows s) (r_top r))..<nat (clamp_to (t_rows s) (r_bottom r)) + 1]
      (if length (dirty_rows s) \<noteq> nat (t_rows s) then replicate (nat (t_rows s)) clean_row else dirty_rows s)"
  using assms by (simp add: mark_damage_def Let_def)

lemma mark_damage_idle:
  assumes "t_rows s \<le> 0 \<or> t_cols s \<le> 0 \<or> clamp_to (t_rows s) (r_bottom r) < clamp_to (t_rows s) (r_top r)
    \<or> clamp_to (t_cols s) (r_right r) < clamp_to (t_cols s) (r_left r)"
  shows "mark_damage r s = s"
  using assms by (auto simp: mark_damage_def Let_def)

lemma mark_damage_dirty_ok: "dirty_ok s \<Longrightarrow> dirty_ok (mark_damage r s)"
  by (simp add: dirty_ok_def mark_damage_def Let_def)

lemma mark_damage_keeps:
  assumes "dirty_ok s" and "covered (dirty_rows s) i j"
  shows "covered (dirty_rows (mark_damage r s)) i j"
proof -
  have len: "length (dirty_rows s) = nat (t_rows s)"
    using assms by (auto simp: dirty_ok_def covered_def)
  show ?thesis
  proof (cases "t_rows s \<le> 0 \<or> t_cols s \<le> 0 \<or> clamp_to (t_rows s) (r_bottom r) < clamp_to (t_rows s) (r_top r)
    \<or> clamp_to (t_cols s) (r_right r) < clamp_to (t_cols s) (r_left r)")
    case True
    then show ?thesis using assms(2) by (simp add: mark_damage_idle)
  next
    case False
    then have "dirty_rows (mark_damage r s) =
      mark_rows (clamp_to (t_cols s) (r_left r)) (clamp_to (t_cols s) (r_right r))
        [nat (clamp_to (t_rows s) (r_top r))..<nat (clamp_to (t_rows s) (r_bottom r)) + 1] (dirty_rows s)"
      using len by (subst mark_damage_dirty) auto
    with assms(2) show ?thesis
      by (simp add: covered_def mark_rows_nth widen_covers del: upt_Suc)
  qed
qed

lemma mark_damage_marks:
  assumes "in_rect r i j" and "int i < t_rows s" and "0 \<le> j" and "j < t_cols s"
  shows "covered (dirty_rows (mark_damage r s)) i j"
proof -
  have row: "clamp_to (t_rows s) (r_top r) \<le> int i" "int i \<le> clamp_to (t_rows s) (r_bottom r)"
    using assms by (auto simp: in_rect_def clamp_to_def)
  have col: "clamp_to (t_cols s) (r_left r) \<le> j" "j \<le> clamp_to (t_cols s) (r_right r)"
    using assms by (auto simp: in_rect_def clamp_to_def)
  define ds where "ds = (if length (dirty_rows s) \<noteq> nat (t_rows s) then replicate (nat (t_rows s)) clean_row else dirty_rows s)"
  have "dirty_rows (mark_damage r s) =
      mark_rows (clamp_to (t_cols s) (r_left r)) (clamp_to (t_cols s) (r_right r))
        [nat (clamp_to (t_rows s) (r_top r))..<nat (clamp_to (t_rows s) (r_bottom r)) + 1] ds"
    unfolding ds_def using assms(2-4) row col by (intro mark_damage_dirty) auto
  moreover have "i < nat (t_rows s)" using assms(2) by simp
  then have "i < length ds" by (simp add: ds_def)
  moreover have "i \<in> set [nat (clamp_to (t_rows s) (r_top r))..<nat (clamp_to (t_rows s) (r_bottom r)) + 1]"
    using row by (auto simp del: upt_Suc)
  ultimately show ?thesis
    using col by (simp add: covered_def mark_rows_nth widen_covers del: upt_Suc)
qed

lemma handle_resize_fields [simp]: "t_rows (handle_resize rows cols s) = rows" "t_cols (handle_resize rows cols s) = cols"
  by (simp_all add: handle_resize_def reset_dirty_def)

lemma handle_resize_dirty_ok: "dirty_ok (handle_resize rows cols s)"
  unfolding handle_resize_def by (rule mark_damage_dirty_ok) (simp add: dirty_ok_def reset_dirty_def max_def)

lemma handle_resize_covers:
  "int i < rows \<Longrightarrow> 0 \<le> j \<Longrightarrow> j < cols \<Longrightarrow> covered (dirty_rows (handle_resize rows cols s)) i j"
  unfolding handle_resize_def by (rule mark_damage_marks) (simp_all add: in_rect_def reset_dirty_def)

text \<open>The rows kept are those of the size, unless the library was told a size without a cell and ignored it.\<close>

definition screen_ok :: "('v, 'c) terminal \<Rightarrow> bool" where
  "screen_ok s \<longleftrightarrow> (0 < t_rows s \<and> 0 < t_cols s \<longrightarrow> dirty_ok s)"

text \<open>A cell damaged and not lost: outside the screen, or covered.\<close>

definition keeps_damage :: "nat \<Rightarrow> int \<Rightarrow> ('v, 'c) terminal \<Rightarrow> bool" where
  "keeps_damage i j s \<longleftrightarrow> screen_ok s \<and> (int i < t_rows s \<and> 0 \<le> j \<and> j < t_cols s \<longrightarrow> covered (dirty_rows s) i j)"

lemma keeps_damage_mark:
  assumes "keeps_damage i j s"
  shows "keeps_damage i j (mark_damage r s)"
proof (cases "0 < t_rows s \<and> 0 < t_cols s")
  case True
  with assms show ?thesis by (auto simp: keeps_damage_def screen_ok_def mark_damage_dirty_ok mark_damage_keeps)
next
  case False
  then have "mark_damage r s = s" by (intro mark_damage_idle) auto
  with assms show ?thesis by simp
qed

lemma keeps_damage_same:
  "keeps_damage i j s \<Longrightarrow> t_rows t = t_rows s \<Longrightarrow> t_cols t = t_cols s \<Longrightarrow> dirty_rows t = dirty_rows s \<Longrightarrow> keeps_damage i j t"
  by (simp add: keeps_damage_def screen_ok_def dirty_ok_def)

lemma keeps_damage_resize: "keeps_damage i j (handle_resize rows cols s)"
  by (simp add: keeps_damage_def screen_ok_def handle_resize_dirty_ok handle_resize_covers)

lemma trim_screen [simp]:
  "dirty_rows (trim_scrollback w s) = dirty_rows s" "t_rows (trim_scrollback w s) = t_rows s"
  "t_cols (trim_scrollback w s) = t_cols s"
  by (simp_all add: trim_scrollback_def split: prod.split)

lemma push_pop_screen [simp]:
  "dirty_rows (push_scrollback_line w cells s) = dirty_rows s" "t_rows (push_scrollback_line w cells s) = t_rows s"
  "t_cols (push_scrollback_line w cells s) = t_cols s"
  "dirty_rows (snd (pop_scrollback_line w n null s)) = dirty_rows s"
  "t_rows (snd (pop_scrollback_line w n null s)) = t_rows s" "t_cols (snd (pop_scrollback_line w n null s)) = t_cols s"
  by (simp_all add: push_scrollback_line_def pop_scrollback_line_def Let_def split: option.split)

lemma keeps_damage_step: "lib_step w s t \<Longrightarrow> keeps_damage i j s \<Longrightarrow> keeps_damage i j t"
proof (induction rule: lib_step.induct)
  case (Set_prop s pr)
  then show ?case
    by (cases pr) (auto simp: handle_set_term_prop_def handle_title_def Let_def
        intro!: keeps_damage_mark intro: keeps_damage_same)
next
  case (Output rs bytes s t)
  then show ?case by (auto simp: write_to_pty_def intro: keeps_damage_same split: if_splits)
qed (auto simp: handle_damage_def handle_move_rect_def handle_move_cursor_def handle_bell_def
    clear_scrollback_def keeps_damage_mark keeps_damage_resize intro: keeps_damage_same)

interpretation damage: steady w "keeps_damage i j" for w i j
proof unfold_locales
  fix s t :: "('v, 'c) terminal"
  show "lib_step w s t \<Longrightarrow> keeps_damage i j s \<Longrightarrow> keeps_damage i j t" by (rule keeps_damage_step)
qed (auto simp: set_scrollback_limit_def keeps_damage_resize intro: keeps_damage_same, auto simp: keeps_damage_def screen_ok_def)

section \<open>Regions\<close>

definition in_some :: "rect list \<Rightarrow> nat \<Rightarrow> int \<Rightarrow> bool" where
  "in_some rs i j \<longleftrightarrow> (\<exists>r\<in>set rs. in_rect r i j)"

lemma in_some_simps [simp]:
  "in_some [] i j = False" "in_some (rs @ qs) i j \<longleftrightarrow> in_some rs i j \<or> in_some qs i j"
  "in_some (r # rs) i j \<longleftrightarrow> in_rect r i j \<or> in_some rs i j"
  by (auto simp: in_some_def)

abbreviation current_list :: "rect option \<Rightarrow> rect list" where
  "current_list cur \<equiv> (case cur of None \<Rightarrow> [] | Some c \<Rightarrow> [c])"

text \<open>Regions in order and apart, the last ending above \<open>row\<close>, no two neighbours mergeable.\<close>

definition tidy :: "int \<Rightarrow> rect list \<Rightarrow> bool" where
  "tidy row rs \<longleftrightarrow> sorted_wrt (\<lambda>a b. r_bottom a < r_top b) rs \<and> successively (\<lambda>a b. \<not> mergeable a b) rs
     \<and> (\<forall>r\<in>set rs. r_top r \<le> r_bottom r \<and> r_bottom r < row)"

lemma tidy_snoc:
  "tidy row (rs @ [r]) \<longleftrightarrow> tidy row rs \<and> (\<forall>a\<in>set rs. r_bottom a < r_top r) \<and> (rs \<noteq> [] \<longrightarrow> \<not> mergeable (last rs) r)
     \<and> r_top r \<le> r_bottom r \<and> r_bottom r < row"
  by (auto simp: tidy_def sorted_wrt_append successively_append_iff)

lemma tidy_later: "tidy row rs \<Longrightarrow> row \<le> row' \<Longrightarrow> tidy row' rs"
  by (force simp: tidy_def)

lemma candidate_fields [simp]:
  "r_top (candidate_of row d) = int row" "r_bottom (candidate_of row d) = int row"
  "r_left (candidate_of row d) = d_left d" "r_right (candidate_of row d) = d_right d"
  by (simp_all add: candidate_of_def)

lemma covered_from:
  "row < length ds \<Longrightarrow> row \<le> i \<and> i < row + Suc n \<and> covered ds i j \<longleftrightarrow>
     (d_dirty (ds ! row) \<and> in_rect (candidate_of row (ds ! row)) i j) \<or> (Suc row \<le> i \<and> i < Suc row + n \<and> covered ds i j)"
  by (cases "i = row") (auto simp: covered_def in_rect_def)

lemma extended_rect:
  "r_top c \<le> r_bottom c \<Longrightarrow> mergeable c (candidate_of row d) \<Longrightarrow>
     in_rect (c\<lparr>r_bottom := int row\<rparr>) i j \<longleftrightarrow> in_rect c i j \<or> in_rect (candidate_of row d) i j"
  by (auto simp: mergeable_def in_rect_def)

lemma collect_rows_exact:
  assumes "row + n \<le> length ds" and "tidy (int row) (regions @ current_list cur)" and "cur = None \<Longrightarrow> regions = []"
  shows "\<exists>rs. collect_rows ds row n cur regions = Some rs \<and> tidy (int (row + n)) rs
    \<and> (\<forall>i j. in_some rs i j \<longleftrightarrow> in_some (regions @ current_list cur) i j \<or> (row \<le> i \<and> i < row + n \<and> covered ds i j))"
  using assms
proof (induction n arbitrary: row cur regions)
  case 0
  then show ?case by (cases cur) auto
next
  case (Suc n)
  have row: "row < length ds" and next_row: "Suc row + n \<le> length ds" using Suc.prems(1) by simp_all
  note cover = covered_from [OF row]
  have tidy: "tidy (int (Suc row)) (regions @ current_list cur)"
    using Suc.prems(2) by (rule tidy_later) simp
  have below: "r_bottom a < int row" if "a \<in> set (regions @ current_list cur)" for a
    using Suc.prems(2) that by (auto simp: tidy_def)
  let ?cand = "candidate_of row (ds ! row)"
  show ?case
  proof (cases "d_dirty (ds ! row)")
    case False
    with Suc.IH [OF next_row tidy Suc.prems(3)] row cover show ?thesis by auto
  next
    case True
    show ?thesis
    proof (cases "\<exists>c. cur = Some c \<and> mergeable c ?cand")
      case True
      then obtain c where cur: "cur = Some c" and m: "mergeable c ?cand" by blast
      let ?c = "c\<lparr>r_bottom := int row\<rparr>"
      have "tidy (int (Suc row)) (regions @ [?c])"
        using tidy below cur by (auto simp: tidy_snoc mergeable_def)
      moreover have "r_top c \<le> r_bottom c" using tidy cur by (simp add: tidy_snoc)
      ultimately show ?thesis
        using Suc.IH [OF next_row, of regions "Some ?c"] cover row \<open>d_dirty (ds ! row)\<close> cur m
        by (auto simp: extended_rect)
    next
      case False
      have "regions @ current_list cur \<noteq> [] \<longrightarrow> \<not> mergeable (last (regions @ current_list cur)) ?cand"
        using False Suc.prems(3) by (cases cur) auto
      moreover have "\<forall>a\<in>set (regions @ current_list cur). r_bottom a < r_top ?cand"
        using below by simp
      ultimately have "tidy (int (Suc row)) ((regions @ current_list cur) @ [?cand])"
        using tidy unfolding tidy_snoc by auto
      then have "\<exists>rs. collect_rows ds (Suc row) n (Some ?cand) (regions @ current_list cur) = Some rs
          \<and> tidy (int (Suc row + n)) rs
          \<and> (\<forall>i j. in_some rs i j \<longleftrightarrow> in_some ((regions @ current_list cur) @ current_list (Some ?cand)) i j
              \<or> (Suc row \<le> i \<and> i < Suc row + n \<and> covered ds i j))"
        by (intro Suc.IH [OF next_row]) simp_all
      then show ?thesis
        using cover row \<open>d_dirty (ds ! row)\<close> False by (cases cur) auto
    qed
  qed
qed

lemma collect_rows_short: "length ds < row + n \<Longrightarrow> row \<le> length ds \<Longrightarrow> collect_rows ds row n cur regions = None"
proof (induction n arbitrary: row cur regions)
  case (Suc n)
  then show ?case by (cases "row = length ds") (auto simp: Let_def split: option.split)
qed simp

lemma collect_exact:
  assumes "dirty_rows s = [] \<or> t_rows s \<le> int (length (dirty_rows s))"
  shows "\<exists>rs. collect_dirty_regions s = Some rs \<and> sorted_wrt (\<lambda>a b. r_bottom a < r_top b) rs
    \<and> successively (\<lambda>a b. \<not> mergeable a b) rs
    \<and> (\<forall>i j. (\<exists>r\<in>set rs. in_rect r i j) \<longleftrightarrow> int i < t_rows s \<and> covered (dirty_rows s) i j)"
proof (cases "dirty_rows s = []")
  case True
  then show ?thesis by (simp add: collect_dirty_regions_def covered_def)
next
  case False
  with assms have "nat (t_rows s) \<le> length (dirty_rows s)" by simp
  then obtain rs where "collect_rows (dirty_rows s) 0 (nat (t_rows s)) None [] = Some rs" "tidy (t_rows s) rs \<or> t_rows s < 0 \<and> rs = []"
      "\<And>i j. in_some rs i j \<longleftrightarrow> i < nat (t_rows s) \<and> covered (dirty_rows s) i j"
    using collect_rows_exact [of 0 "nat (t_rows s)" "dirty_rows s" "[]" None] by (cases "t_rows s < 0") (auto simp: tidy_def)
  with False show ?thesis
    by (auto simp: collect_dirty_regions_def tidy_def in_some_def zless_nat_eq_int_zless)
qed

lemma collect_past_end:
  assumes "dirty_rows s \<noteq> []" and "int (length (dirty_rows s)) < t_rows s"
  shows "collect_dirty_regions s = None"
  using assms by (simp add: collect_dirty_regions_def collect_rows_short)

section \<open>Histories\<close>

text \<open>
  The public operations and \<open>clearDirtyRegions\<close>, from a terminal that was constructed; the library acts by its
  callbacks also when its screen is reset.
\<close>

inductive term_next :: "nat \<Rightarrow> ('v, 'c) vterm \<Rightarrow> ('v, 'c) terminal \<Rightarrow> ('v, 'c) terminal \<Rightarrow> bool" for w V where
  Operation: "term_op w V s t \<Longrightarrow> term_next w V s t"
| Cleared: "term_next w V s (reset_dirty s)"

definition constructed :: "nat \<Rightarrow> ('v, 'c) vterm \<Rightarrow> ('v, 'c) terminal \<Rightarrow> bool" where
  "constructed w V s \<longleftrightarrow> (\<exists>made screen_reset spawn rows cols.
     (\<forall>u. (lib_step w)\<^sup>*\<^sup>* u (screen_reset u)) \<and> new_terminal V made screen_reset spawn rows cols = Inr s)"

lemma constructed_state:
  assumes "constructed w V s" and "library_behaves w V"
  shows "sb_inv w s" and "screen_ok s"
proof -
  obtain made screen_reset spawn rows cols where
    reset: "(lib_step w)\<^sup>*\<^sup>* u (screen_reset u)"
    and new: "new_terminal V made screen_reset spawn rows cols = Inr s" for u
    using assms(1) unfolding constructed_def by blast
  from new obtain v where v: "made = Some v" by (cases made) (auto simp: new_terminal_def)
  let ?u = "reset_dirty (screen_flush_damage V (screen_reset (fresh_terminal v rows cols)))"
  have "sound_width w" using assms(2) by (simp add: library_behaves_def)
  then have "sb_inv w (fresh_terminal v rows cols)"
    by (simp add: sb_inv_def sb_sound_def fresh_terminal_def fits_def)
  then have "sb_inv w (screen_flush_damage V (screen_reset (fresh_terminal v rows cols)))"
    by (intro scrollback.P_library [OF assms(2)] scrollback.P_steps [OF reset])
  then have u: "sb_inv w ?u" "dirty_ok ?u"
    by (auto simp: reset_dirty_def sb_inv_def sb_sound_def dirty_ok_def max_def)
  have "\<exists>m p a. s = ?u\<lparr>pty_master := m, child_pid := p, pty_available := a\<rparr>"
  proof (cases spawn)
    case (Spawned m p)
    with new v show ?thesis by (auto simp: new_terminal_def open_pty_and_spawn_def adopt_child_def)
  next
    case No_pty
    with new v have "s = ?u\<lparr>pty_master := pty_master ?u, child_pid := child_pid ?u, pty_available := False\<rparr>"
      by (simp add: new_terminal_def open_pty_and_spawn_def adopt_child_def)
    then show ?thesis by blast
  next
    case No_fork
    with new v have "s = ?u\<lparr>pty_master := pty_master ?u, child_pid := child_pid ?u, pty_available := False\<rparr>"
      by (simp add: new_terminal_def open_pty_and_spawn_def adopt_child_def)
    then show ?thesis by blast
  qed
  with u show "sb_inv w s" and "screen_ok s"
    by (auto simp: sb_inv_def sb_sound_def dirty_ok_def screen_ok_def)
qed

lemma history_state:
  assumes "(term_next w V)\<^sup>*\<^sup>* s t" and "library_behaves w V" and "sb_inv w s" and "screen_ok s"
  shows "sb_inv w t \<and> screen_ok t"
  using assms(1)
proof (induction rule: rtranclp_induct)
  case base
  then show ?case using assms by simp
next
  case (step t u)
  have damage: "screen_ok u" if "term_op w V t u"
    using damage.P_op [OF that assms(2), of "nat (t_rows t)" 0] step.IH by (simp add: keeps_damage_def)
  from step.hyps(2) step.IH show ?case
    by (cases rule: term_next.cases) (auto simp: damage scrollback.P_op [OF _ assms(2)],
        auto simp: reset_dirty_def sb_inv_def sb_sound_def dirty_ok_def screen_ok_def max_def)
qed

text \<open>The scrollback stays within its limits in every history. With any library that acts through its callbacks,
  after any sequence of public operations the counter of bytes is exactly the size of the lines held, which are
  no more than the line limit and no more than 16 MiB, whatever was pushed, popped, cleared or resized.
\<close>

theorem scrollback_within_limits:
  assumes "library_behaves w V" and "constructed w V s" and "(term_next w V)\<^sup>*\<^sup>* s t"
  shows "scrollback_bytes t = sum_list (map (\<lambda>l. length l * w) (scrollback t))
    \<and> scrollback_bytes t \<le> 16 * 1024 * 1024 \<and> int (length (scrollback t)) \<le> scrollback_line_limit t"
  using history_state [OF assms(3,1) constructed_state [OF assms(2,1)]]
  by (simp add: sb_inv_def sb_sound_def fits_def costs_def)

text \<open>C24: the dirty regions are exactly the damaged cells. In every history, with resizes to any numbers of rows and
  columns: when the call returns, a cell is in a region exactly if its row is one of the current ones and dirty and it
  lies between the row's bounds; the regions are in order, do not overlap, and no two neighbours could be one. The call
  reads past the rows the terminal keeps exactly if there are fewer of them than the current size says; that
  happens only when the current size has no column. While the size has a row and a column, the rows kept are those of the size.
\<close>

theorem dirty_regions_exact:
  assumes "library_behaves w V" and "constructed w V s" and "(term_next w V)\<^sup>*\<^sup>* s t"
  shows "(case collect_dirty_regions t of
      None \<Rightarrow> dirty_rows t \<noteq> [] \<and> int (length (dirty_rows t)) < t_rows t \<and> t_cols t \<le> 0
    | Some rs \<Rightarrow> (dirty_rows t = [] \<or> t_rows t \<le> int (length (dirty_rows t)))
        \<and> (\<forall>i j. (\<exists>r\<in>set rs. in_rect r i j) \<longleftrightarrow> int i < t_rows t \<and> covered (dirty_rows t) i j)
        \<and> sorted_wrt (\<lambda>a b. r_bottom a < r_top b) rs \<and> successively (\<lambda>a b. \<not> mergeable a b) rs)
    \<and> (0 < t_rows t \<and> 0 < t_cols t \<longrightarrow> dirty_rows t = [] \<or> int (length (dirty_rows t)) = t_rows t)"
proof -
  have ok: "screen_ok t" using history_state [OF assms(3,1) constructed_state [OF assms(2,1)]] by simp
  then have size: "0 < t_rows t \<and> 0 < t_cols t \<longrightarrow> dirty_rows t = [] \<or> int (length (dirty_rows t)) = t_rows t"
    by (auto simp: screen_ok_def dirty_ok_def)
  show ?thesis
  proof (cases "dirty_rows t = [] \<or> t_rows t \<le> int (length (dirty_rows t))")
    case True
    from collect_exact [OF this] True size show ?thesis by auto
  next
    case False
    then have "collect_dirty_regions t = None" by (intro collect_past_end) auto
    with False size show ?thesis by auto
  qed
qed

text \<open>C25: no damage is lost. When the library reports damage, or the terminal is resized, in any history, every cell
  of the reported rectangle is in a dirty region after any further operations, as long as it lies on the screen then
  and \<open>clearDirtyRegions\<close> is not called.
\<close>

theorem damage_never_lost:
  assumes "library_behaves w V" and "constructed w V s0" and "(term_next w V)\<^sup>*\<^sup>* s0 s"
    and "0 \<le> j" and "int i < t_rows s" and "j < t_cols s"
    and "start_row r \<le> int i" and "int i < end_row r" and "start_col r \<le> j" and "j < end_col r"
    and "(term_op w V)\<^sup>*\<^sup>* (handle_damage r s) t" and "int i < t_rows t" and "j < t_cols t"
  shows "\<exists>rs. collect_dirty_regions t = Some rs \<and> (\<exists>q\<in>set rs. in_rect q i j)"
proof -
  have ok: "screen_ok s" using history_state [OF assms(3,1) constructed_state [OF assms(2,1)]] by simp
  have "covered (dirty_rows (handle_damage r s)) i j"
    unfolding handle_damage_def using assms(4-10)
    by (intro mark_damage_marks) (auto simp: in_rect_def to_rect_def)
  with ok have "keeps_damage i j (handle_damage r s)"
    by (simp add: keeps_damage_def screen_ok_def handle_damage_def mark_damage_dirty_ok)
  with damage.P_ops [OF assms(11,1)] have "dirty_ok t" "covered (dirty_rows t) i j"
    using assms(4,12,13) by (auto simp: keeps_damage_def screen_ok_def)
  then have "dirty_rows t = [] \<or> t_rows t \<le> int (length (dirty_rows t))" by (auto simp: dirty_ok_def split: if_splits)
  from collect_exact [OF this] \<open>covered (dirty_rows t) i j\<close> assms(12) show ?thesis by blast
qed

section \<open>A library for the witnesses\<close>

text \<open>A library whose own state is a list of what it was told: every input damages the first cell.\<close>

definition sample_lib :: "(string, nat) vterm" where
  "sample_lib = \<lparr>input_write = (\<lambda>data s. handle_damage \<lparr>start_row = 0, end_row = 1, start_col = 0, end_col = 1\<rparr> (s\<lparr>vt := data\<rparr>)),
     screen_flush_damage = (\<lambda>s. s),
     set_size = (\<lambda>rows cols s. if 0 < rows \<and> 0 < cols then handle_resize rows cols s else s),
     keyboard_key = (\<lambda>k s. s), keyboard_unichar = (\<lambda>b s. s), mouse_move = (\<lambda>r c s. s), mouse_button = (\<lambda>b p s. s),
     get_cell = (\<lambda>r c v. None), to_rgb = (\<lambda>v c. \<lparr>red = 0, green = 0, blue = 0\<rparr>)\<rparr>"

lemma sample_lib_behaves: "library_behaves 40 sample_lib"
proof -
  have "(lib_step 40)\<^sup>*\<^sup>* s (input_write sample_lib data s)" for data s
    using Internal [of 40 s data] Damage unfolding sample_lib_def vterm.simps
    by (blast intro: converse_rtranclp_into_rtranclp)
  then show ?thesis
    by (auto simp: library_behaves_def sample_lib_def sound_width_def)
qed

definition sample_terminal :: "(string, nat) terminal" where
  "sample_terminal = (reset_dirty (fresh_terminal [] 2 3))\<lparr>pty_master := 5, child_pid := 7, pty_available := True\<rparr>"

lemma sample_constructed: "constructed 40 sample_lib sample_terminal"
  unfolding constructed_def
proof (intro exI conjI)
  show "new_terminal sample_lib (Some []) (\<lambda>u. u) (Spawned 5 7) 2 3 = Inr sample_terminal"
    by (simp add: new_terminal_def open_pty_and_spawn_def adopt_child_def sample_lib_def sample_terminal_def Let_def)
qed simp

lemma scrollback_within_limits_witness:
  "scrollback_bytes (inject_output sample_lib ''x'' sample_terminal) \<le> 16 * 1024 * 1024"
proof -
  have "(term_next 40 sample_lib)\<^sup>*\<^sup>* sample_terminal (inject_output sample_lib ''x'' sample_terminal)"
    by (intro r_into_rtranclp Operation Inject)
  from scrollback_within_limits [OF sample_lib_behaves sample_constructed this] show ?thesis by simp
qed

lemma dirty_regions_exact_witness:
  "(\<exists>rs. collect_dirty_regions (inject_output sample_lib ''x'' sample_terminal) = Some rs
      \<and> (\<exists>r\<in>set rs. in_rect r 0 0) \<and> \<not> (\<exists>r\<in>set rs. in_rect r 1 0))
    \<and> collect_dirty_regions (resize sample_lib 10 0 sample_terminal) = None"
proof -
  let ?t = "inject_output sample_lib ''x'' sample_terminal" and ?u = "resize sample_lib 10 0 sample_terminal"
  have t: "(term_next 40 sample_lib)\<^sup>*\<^sup>* sample_terminal ?t" and u: "(term_next 40 sample_lib)\<^sup>*\<^sup>* sample_terminal ?u"
    by (intro r_into_rtranclp Operation Inject Resize)+
  have rows: "dirty_rows ?t = [\<lparr>d_dirty = True, d_left = 0, d_right = 0\<rparr>, clean_row]" "t_rows ?t = 2" "t_cols ?t = 3"
    by (simp_all add: inject_output_def flush_damage_def Let_def sample_lib_def handle_damage_def to_rect_def
        mark_damage_def sample_terminal_def reset_dirty_def fresh_terminal_def clamp_to_def log_term_def
        numeral_2_eq_2 widen_def clean_row_def)
  have short: "length (dirty_rows ?u) = 2" "t_rows ?u = 10"
    by (simp_all add: resize_def flush_damage_def Let_def sample_lib_def sample_terminal_def reset_dirty_def fresh_terminal_def)
  have cov: "covered (dirty_rows ?t) 0 0" "\<not> covered (dirty_rows ?t) 1 0" by (simp_all add: rows covered_def clean_row_def)
  obtain rs where "collect_dirty_regions ?t = Some rs"
    "\<And>i j. (\<exists>r\<in>set rs. in_rect r i j) \<longleftrightarrow> int i < t_rows ?t \<and> covered (dirty_rows ?t) i j"
    using dirty_regions_exact [OF sample_lib_behaves sample_constructed t] rows(3) by (cases "collect_dirty_regions ?t") auto
  moreover from this(2) [of 0 0] this(2) [of 1 0] cov rows(2) have "\<exists>r\<in>set rs. in_rect r 0 0" "\<not> (\<exists>r\<in>set rs. in_rect r 1 0)"
    by simp_all
  moreover have "dirty_rows ?u \<noteq> []" using short(1) by auto
  then have "collect_dirty_regions ?u = None"
    using dirty_regions_exact [OF sample_lib_behaves sample_constructed u] short by (cases "collect_dirty_regions ?u") auto
  ultimately show ?thesis by blast
qed

lemma damage_never_lost_witness:
  "\<exists>rs. collect_dirty_regions (handle_damage \<lparr>start_row = 1, end_row = 2, start_col = 0, end_col = 3\<rparr> sample_terminal) = Some rs
     \<and> (\<exists>q\<in>set rs. in_rect q 1 2)"
proof -
  let ?t = "handle_damage \<lparr>start_row = 1, end_row = 2, start_col = 0, end_col = 3\<rparr> sample_terminal"
  have "(term_op 40 sample_lib)\<^sup>*\<^sup>* ?t ?t" by simp
  from damage_never_lost [OF sample_lib_behaves sample_constructed rtranclp.rtrancl_refl _ _ _ _ _ _ _ this, of 2 1]
  show ?thesis
    by (simp add: sample_terminal_def reset_dirty_def fresh_terminal_def handle_damage_def)
qed

text \<open>
  A library that ignores a size it is told (one below its minimum, for instance) leaves the rows behind the new
  size, and the next call reads past them.
\<close>

lemma ignored_resize_reads_past:
  assumes "set_size V = (\<lambda>rows cols s. s)" and "screen_flush_damage V = (\<lambda>s. s)"
    and "dirty_rows s \<noteq> []" and "length (dirty_rows s) < nat rows"
  shows "collect_dirty_regions (resize V rows cols s) = None"
proof -
  have "dirty_rows (resize V rows cols s) = dirty_rows s" "t_rows (resize V rows cols s) = rows"
    using assms(1,2) by (simp_all add: resize_def flush_damage_def Let_def)
  with assms(3,4) show ?thesis by (simp add: collect_dirty_regions_def collect_rows_short)
qed

end
