(* ===== verification/Terminal_Process_Properties.thy ===== *)
theory Terminal_Process_Properties
  imports Terminal_Properties
begin

text \<open>
  What the terminal does with its child: the reading of one frame is bounded and in order, the writing accepts a
  prefix, the command line is split into words, and the names of keys are those meant.
\<close>

section \<open>Reading\<close>

definition waits :: "read_result \<times> nat \<Rightarrow> bool" where
  "waits r \<longleftrightarrow> fst r = Read_interrupted"

definition data_of :: "(read_result \<times> nat) list \<Rightarrow> string list" where
  "data_of rs = List.map_filter (\<lambda>r. case fst r of Read_bytes d \<Rightarrow> Some d | _ \<Rightarrow> None) rs"

lemma data_of_simps [simp]:
  "data_of [] = []"
  "data_of ((r, e) # rs) = (case r of Read_bytes d \<Rightarrow> d # data_of rs | _ \<Rightarrow> data_of rs)"
  by (simp_all add: data_of_def map_filter_simps split: read_result.split)

definition read_sized :: "read_result \<times> nat \<Rightarrow> bool" where
  "read_sized r \<longleftrightarrow> (case fst r of Read_bytes d \<Rightarrow> length d \<le> read_buffer_size | _ \<Rightarrow> True)"

lemma drain_loop_bounded:
  assumes "list_all read_sized rs" and "k < max_bytes_per_drain" and "n < max_read_iterations"
    and "max_read_iterations \<le> n + length (filter (\<lambda>r. \<not> waits r) rs)"
  shows "\<exists>m. drain_loop V rs k n s
      = Some (k + length (concat (take m (data_of rs))), n + m, fold (input_write V) (take m (data_of rs)) s)
    \<and> k + length (concat (take m (data_of rs))) < max_bytes_per_drain + read_buffer_size \<and> n + m \<le> max_read_iterations"
  using assms
proof (induction rs arbitrary: k n s)
  case (Cons x rs)
  obtain r e where x: "x = (r, e)" by fastforce
  show ?case
  proof (cases r)
    case (Read_bytes d)
    have d: "length d \<le> read_buffer_size" using Cons.prems(1) x Read_bytes by (simp add: read_sized_def)
    show ?thesis
    proof (cases "k + length d \<ge> max_bytes_per_drain \<or> n + 1 \<ge> max_read_iterations \<or> e \<ge> max_drain_duration")
      case True
      then show ?thesis
        using Cons.prems d x Read_bytes by (intro exI [of _ 1]) (auto simp: drain_loop_Cons)
    next
      case False
      have "max_read_iterations \<le> n + 1 + length (filter (\<lambda>r. \<not> waits r) rs)"
        using Cons.prems(4) x Read_bytes by (simp add: waits_def)
      with False Cons.prems(1) obtain m where
        "drain_loop V rs (k + length d) (n + 1) (input_write V d s)
          = Some (k + length d + length (concat (take m (data_of rs))), n + 1 + m,
              fold (input_write V) (take m (data_of rs)) (input_write V d s))"
        "k + length d + length (concat (take m (data_of rs))) < max_bytes_per_drain + read_buffer_size"
        "n + 1 + m \<le> max_read_iterations"
        using Cons.IH [of "k + length d" "n + 1" "input_write V d s"] by auto
      with False Cons.prems x Read_bytes show ?thesis
        by (intro exI [of _ "Suc m"]) (auto simp: drain_loop_Cons add.assoc)
    qed
  next
    case Read_interrupted
    then have "max_read_iterations \<le> n + length (filter (\<lambda>r. \<not> waits r) rs)"
      using Cons.prems(4) x by (simp add: waits_def)
    with Cons.IH [of k n s] Cons.prems x Read_interrupted show ?thesis
      by (auto simp: drain_loop_Cons)
  qed (use Cons.prems x in \<open>auto simp: drain_loop_Cons intro!: exI [of _ 0]\<close>)
qed simp

text \<open>A frame reads a bounded amount of the child's output. When every read fills at most the buffer, the loop
  ends by the 128th read that is not interrupted; it then has handed the library, in order, the data of the first reads,
  each once, at most 128 of them and less than 68 KiB, so that a child that floods its output cannot hold the frame.
\<close>

theorem drain_bounded:
  assumes "\<forall>d e. (Read_bytes d, e) \<in> set rs \<longrightarrow> length d \<le> read_buffer_size"
    and "128 \<le> length (filter (\<lambda>r. fst r \<noteq> Read_interrupted) rs)"
  shows "\<exists>m. drain_loop V rs 0 0 s
      = Some (length (concat (take m (data_of rs))), m, fold (input_write V) (take m (data_of rs)) s)
    \<and> length (concat (take m (data_of rs))) < 68 * 1024 \<and> m \<le> 128"
proof -
  have "list_all read_sized rs"
    using assms(1) unfolding list_all_iff read_sized_def by (fastforce split: read_result.split)
  moreover have "max_read_iterations \<le> 0 + length (filter (\<lambda>r. \<not> waits r) rs)"
    using assms(2) by (simp add: max_read_iterations_def waits_def)
  ultimately have "\<exists>m. drain_loop V rs 0 0 s
      = Some (0 + length (concat (take m (data_of rs))), 0 + m, fold (input_write V) (take m (data_of rs)) s)
    \<and> 0 + length (concat (take m (data_of rs))) < max_bytes_per_drain + read_buffer_size \<and> 0 + m \<le> max_read_iterations"
    by (intro drain_loop_bounded) (simp_all add: max_bytes_per_drain_def max_read_iterations_def)
  then show ?thesis
    by (simp add: max_bytes_per_drain_def max_read_iterations_def read_buffer_size_def)
qed

lemma drain_bounded_witness:
  "\<exists>m. drain_loop sample_lib (replicate 128 (Read_bytes ''y'', 0)) 0 0 sample_terminal
      = Some (length (concat (take m (data_of (replicate 128 (Read_bytes ''y'', 0))))), m,
          fold (input_write sample_lib) (take m (data_of (replicate 128 (Read_bytes ''y'', 0)))) sample_terminal)
    \<and> length (concat (take m (data_of (replicate 128 (Read_bytes ''y'', 0))))) < 68 * 1024 \<and> m \<le> 128"
  by (rule drain_bounded) (simp_all add: read_buffer_size_def)

section \<open>Writing\<close>

text \<open>
  What the pseudo terminal accepts of a text is a prefix, and all of it unless a write is refused: then the rest of the
  text is dropped, also when the terminal is only full for the moment.
\<close>

lemma write_loop_prefix: "write_loop rs data = Some out \<Longrightarrow> prefix out data"
proof (induction rs data arbitrary: out rule: write_loop.induct)
  case (3 r rs c data)
  then show ?case
  proof (cases r)
    case (Wrote n)
    show ?thesis
    proof (cases "n > 0")
      case True
      with 3 Wrote obtain o' where o': "write_loop rs (drop n (c # data)) = Some o'" "out = take n (c # data) @ o'"
        by auto
      with 3 Wrote True have "prefix o' (drop n (c # data))" by blast
      then show ?thesis unfolding o'(2) by (metis append_take_drop_id same_prefix_prefix)
    qed (use 3 Wrote in simp)
  qed auto
qed auto

lemma write_loop_complete:
  "write_loop rs data = Some out \<Longrightarrow> \<forall>r\<in>set rs. r = Write_interrupted \<or> (\<exists>n>0. r = Wrote n) \<Longrightarrow> out = data"
proof (induction rs data arbitrary: out rule: write_loop.induct)
  case (3 r rs c data)
  then consider "r = Write_interrupted" | n where "r = Wrote n" "n > 0" by auto
  then show ?case
  proof cases
    case 2
    with 3 obtain o' where "write_loop rs (drop n (c # data)) = Some o'" "out = take n (c # data) @ o'"
      by auto
    moreover from this 3 2 have "o' = drop n (c # data)" by simp
    ultimately show ?thesis by (simp del: take_Suc_Cons drop_Suc_Cons)
  qed (use 3 in auto)
qed auto

lemma full_terminal_drops_input: "write_loop [Wrote 2, Write_again] ''paste'' = Some ''pa''"
  by simp

section \<open>The command of the child\<close>

lemma split_loop_word:
  "list_all (\<lambda>c. \<not> isspace c) w \<Longrightarrow> w \<noteq> [] \<Longrightarrow>
     split_loop cur b parts (w @ rest) = split_loop (cur @ w) True parts rest"
proof (induction w arbitrary: cur b)
  case (Cons c w)
  then show ?case by (cases "w = []") simp_all
qed simp

text \<open>Words separated by one blank each come back as they are.\<close>

lemma split_joined:
  "list_all (\<lambda>w. w \<noteq> [] \<and> list_all (\<lambda>c. \<not> isspace c) w) ws \<Longrightarrow>
     split_loop [] False parts (concat (map (\<lambda>w. w @ '' '') ws)) = parts @ ws"
proof (induction ws arbitrary: parts)
  case (Cons w ws)
  have blank: "isspace (CHR '' '')" by (simp add: isspace_def code_of_def)
  from Cons show ?case by (simp add: split_loop_word blank)
qed simp

lemma split_command_joined:
  "list_all (\<lambda>w. w \<noteq> [] \<and> list_all (\<lambda>c. \<not> isspace c) w) ws \<Longrightarrow>
     split_command (concat (map (\<lambda>w. w @ '' '') ws)) = ws"
  by (simp add: split_command_def split_joined)

definition proper_word :: "string \<Rightarrow> bool" where
  "proper_word w \<longleftrightarrow> w \<noteq> [] \<and> list_all (\<lambda>c. \<not> isspace c) w"

lemma split_loop_words:
  "list_all proper_word parts \<Longrightarrow> list_all (\<lambda>c. \<not> isspace c) cur \<Longrightarrow> b = (cur \<noteq> []) \<Longrightarrow>
     list_all proper_word (split_loop cur b parts s)"
  by (induction cur b parts s rule: split_loop.induct) (auto simp: proper_word_def)

lemma split_loop_nonempty:
  "parts \<noteq> [] \<or> cur \<noteq> [] \<or> \<not> list_all isspace s \<Longrightarrow> b = (cur \<noteq> []) \<Longrightarrow> split_loop cur b parts s \<noteq> []"
  by (induction cur b parts s rule: split_loop.induct) auto

lemma trimmed_first: "trim_program v = c # s \<Longrightarrow> \<not> isspace c"
proof -
  assume t: "trim_program v = c # s"
  let ?d = "dropWhile isspace v"
  have "prefix (trim_program v) ?d"
    using suffix_dropWhile [of isspace "rev ?d"] by (simp add: trim_program_def suffix_to_prefix)
  with t obtain r where "?d = c # r" by (auto simp: prefix_def)
  then show "\<not> isspace c" by (metis hd_dropWhile list.distinct(1) list.sel(1))
qed

text \<open>
  The child is always given a program: the words of the trimmed variable, or of the default; none of them is empty
  or holds a space, and the last resort \<open>/bin/sh\<close> is never taken.
\<close>

lemma child_command_words:
  "child_command env \<noteq> [] \<and> list_all proper_word (child_command env)
   \<and> child_command env = split_command (case env of None \<Rightarrow> ''/bin/bash''
        | Some v \<Rightarrow> if trim_program v \<noteq> [] then trim_program v else ''/bin/bash'')"
proof -
  define cmd where "cmd = (case env of None \<Rightarrow> ''/bin/bash''
        | Some v \<Rightarrow> if trim_program v \<noteq> [] then trim_program v else ''/bin/bash'')"
  have "\<not> list_all isspace cmd"
  proof -
    have "\<not> list_all isspace ''/bin/bash''" by (simp add: isspace_def code_of_def)
    moreover have "\<not> list_all isspace (trim_program v)" if "trim_program v \<noteq> []" for v
      using that trimmed_first by (cases "trim_program v") auto
    ultimately show ?thesis by (simp add: cmd_def split: option.split)
  qed
  then have "split_command cmd \<noteq> []" by (simp add: split_command_def split_loop_nonempty)
  moreover have "list_all proper_word (split_command cmd)"
    unfolding split_command_def by (rule split_loop_words) simp_all
  moreover have "child_command env = split_command cmd"
    using \<open>split_command cmd \<noteq> []\<close> by (simp add: child_command_def Let_def cmd_def)
  ultimately show ?thesis by (simp add: cmd_def)
qed

section \<open>Keys\<close>

lemma function_keys:
  "list_all (\<lambda>n. map_key (''f'' @ digits_of_nat n) = Some (Key_function n)
     \<and> map_key (''F'' @ digits_of_nat n) = Some (Key_function n)) [1..<25]"
  by code_simp

text \<open>Names that are no key's: a sign, a space or a letter beside the digit is not noticed.\<close>

lemma stray_function_keys:
  "map_key ''f1x'' = Some (Key_function 1)" "map_key ''f+1'' = Some (Key_function 1)" "map_key ''f 1'' = Some (Key_function 1)"
  by code_simp+

end
