(* ===== verification/Textures.thy ===== *)
theory Textures
  imports Prelude
begin

text \<open>
  The textures of \<open>src/src/texture.cpp\<close> and \<open>src/src/texture.h\<close>: pixel buffers, their upload to the graphics library
  at once, row by row or face by face, and their update. A buffer is a list of bytes, or none for a null
  pointer. Calls of the graphics library are logged with the bytes it reads from the client's memory: rows of
  pixels start at multiples of the unpack alignment \<open>al\<close>, 4 unless the client sets another, which this code does
  not; a read past the end of the buffer is \<open>None\<close>. Coordinates are ints that do not overflow.
\<close>

section \<open>Sizes\<close>

text \<open>\<open>static_cast<std::size_t>\<close> of an int, and the product of sizes.\<close>

definition size_of_int :: "int \<Rightarrow> nat" where
  "size_of_int i = nat (i mod 2 ^ 64)"

definition size_mul :: "nat \<Rightarrow> nat \<Rightarrow> nat" where
  "size_mul a b = a * b mod 2 ^ 64"

definition image_bytes :: "int \<Rightarrow> int \<Rightarrow> int \<Rightarrow> nat" where
  "image_bytes w h n = size_mul (size_mul (size_of_int w) (size_of_int h)) (size_of_int n)"

section \<open>The graphics library\<close>

datatype gl_format = GL_RGB | GL_RGBA

datatype gl_target = Texture_2d | Cube_face nat

datatype pixels_read =
  No_pixels                     \<comment> \<open>a null pointer: storage without contents\<close>
| Pixels "byte list option"     \<comment> \<open>the bytes of the rows read, none if the read leaves the buffer\<close>

datatype gl_call =
  Gen_textures
| Tex_image gl_target gl_format int int pixels_read
| Tex_sub_image int int int int gl_format pixels_read
| Tex_parameters
| Delete_textures nat

definition components :: "gl_format \<Rightarrow> nat" where
  "components f = (case f of GL_RGB \<Rightarrow> 3 | GL_RGBA \<Rightarrow> 4)"

definition row_stride :: "nat \<Rightarrow> nat \<Rightarrow> nat" where
  "row_stride al row_bytes = (row_bytes + al - 1) div al * al"

text \<open>The bytes of \<open>rows\<close> rows from an offset of a buffer.\<close>

definition rows_read :: "nat \<Rightarrow> nat \<Rightarrow> nat \<Rightarrow> nat \<Rightarrow> byte list \<Rightarrow> byte list option" where
  "rows_read al row_bytes rows off data =
    (if rows > 0 \<and> off + (rows - 1) * row_stride al row_bytes + row_bytes > length data then None
     else Some (concat (map (\<lambda>r. take row_bytes (drop (off + r * row_stride al row_bytes) data)) [0..<rows])))"

definition gl_reads :: "nat \<Rightarrow> gl_format \<Rightarrow> int \<Rightarrow> int \<Rightarrow> nat \<Rightarrow> byte list \<Rightarrow> pixels_read" where
  "gl_reads al f w h off data = Pixels (rows_read al (nat w * components f) (nat h) off data)"

section \<open>Images\<close>

record image =
  im_pixels :: "byte list"
  im_width :: int
  im_height :: int
  im_channels :: int

text \<open>The loops of \<open>flip_vertical\<close>: the bytes of two rows change places one by one.\<close>

definition swap_bytes :: "nat \<Rightarrow> nat \<Rightarrow> byte list \<Rightarrow> byte list" where
  "swap_bytes i j data = data[i := data ! j, j := data ! i]"

fun swap_row :: "nat \<Rightarrow> nat \<Rightarrow> nat \<Rightarrow> byte list \<Rightarrow> byte list" where
  "swap_row i j 0 data = data"
| "swap_row i j (Suc n) data = swap_row (i + 1) (j + 1) n (swap_bytes i j data)"

fun flip_rows :: "nat \<Rightarrow> nat \<Rightarrow> nat list \<Rightarrow> byte list \<Rightarrow> byte list" where
  "flip_rows width_in_bytes height [] data = data"
| "flip_rows width_in_bytes height (row # rows) data =
    flip_rows width_in_bytes height rows
      (swap_row (row * width_in_bytes) ((height - row - 1) * width_in_bytes) width_in_bytes data)"

definition flip_vertical :: "byte list \<Rightarrow> int \<Rightarrow> int \<Rightarrow> int \<Rightarrow> byte list" where
  "flip_vertical data width height channels =
    flip_rows (nat (width * channels)) (nat height) [0..<nat (height div 2)] data"

section \<open>Two-dimensional textures\<close>

record texture2d =
  tx_data :: "byte list option"
  tx_size :: nat
  tx_ready :: bool
  tx_width :: int
  tx_height :: int
  tx_n :: int
  internal_format :: gl_format
  image_format :: gl_format
  tx_uploading :: bool
  upload_row :: int
  tx_gl :: "gl_call list"

definition new_texture :: texture2d where
  "new_texture = \<lparr>tx_data = None, tx_size = 0, tx_ready = False, tx_width = 0, tx_height = 0, tx_n = 0,
     internal_format = GL_RGB, image_format = GL_RGB, tx_uploading = False, upload_row = 0, tx_gl = [Gen_textures]\<rparr>"

definition gl_do :: "gl_call list \<Rightarrow> texture2d \<Rightarrow> texture2d" where
  "gl_do cs t = t\<lparr>tx_gl := tx_gl t @ cs\<rparr>"

definition no_data :: "texture2d \<Rightarrow> bool" where
  "no_data t \<longleftrightarrow> tx_data t = None \<or> tx_size t = 0"

definition set_format :: "texture2d \<Rightarrow> texture2d" where
  "set_format t = (if tx_n t = 4 then t\<lparr>internal_format := GL_RGBA, image_format := GL_RGBA\<rparr>
     else t\<lparr>internal_format := GL_RGB, image_format := GL_RGB\<rparr>)"

definition load_from_pixels :: "int \<Rightarrow> int \<Rightarrow> int \<Rightarrow> byte list option \<Rightarrow> nat \<Rightarrow> bool \<Rightarrow> texture2d \<Rightarrow> texture2d" where
  "load_from_pixels w h channels pixels byte_count already_flipped t =
    set_format (t\<lparr>tx_width := w, tx_height := h, tx_n := channels,
      tx_data := (case pixels of
          Some d \<Rightarrow> Some (if \<not> already_flipped \<and> byte_count > 0 then flip_vertical d w h channels else d)
        | None \<Rightarrow> None),
      tx_size := byte_count, tx_ready := False, tx_uploading := False, upload_row := 0\<rparr>)"

definition generate :: "nat \<Rightarrow> texture2d \<Rightarrow> texture2d" where
  "generate al t =
    (if no_data t then t
     else (gl_do [Tex_image Texture_2d (image_format t) (tx_width t) (tx_height t)
              (gl_reads al (image_format t) (tx_width t) (tx_height t) 0 (the (tx_data t))), Tex_parameters] t)
        \<lparr>tx_data := None, tx_size := 0, tx_ready := True, tx_uploading := False, upload_row := 0\<rparr>)"

text \<open>\<open>decoded\<close> is what the image loader returns for the file.\<close>

definition load_texture :: "nat \<Rightarrow> image option \<Rightarrow> texture2d \<Rightarrow> texture2d" where
  "load_texture al decoded t =
    (case decoded of
       None \<Rightarrow> t\<lparr>tx_ready := False\<rparr>
     | Some im \<Rightarrow> generate al (load_from_pixels (im_width im) (im_height im) (im_channels im) (Some (im_pixels im))
         (image_bytes (im_width im) (im_height im) (im_channels im)) False t))"

definition allocate_texture :: "int \<Rightarrow> int \<Rightarrow> int \<Rightarrow> texture2d \<Rightarrow> texture2d" where
  "allocate_texture w h channels t =
    (if w \<le> 0 \<or> h \<le> 0 \<or> channels \<le> 0 then t
     else let t = set_format (t\<lparr>tx_width := w, tx_height := h, tx_n := channels\<rparr>)
       in (gl_do [Tex_image Texture_2d (image_format t) w h No_pixels, Tex_parameters] t)
            \<lparr>tx_ready := True, tx_uploading := False, upload_row := 0\<rparr>)"

definition update_full :: "nat \<Rightarrow> byte list option \<Rightarrow> nat \<Rightarrow> texture2d \<Rightarrow> texture2d outcome" where
  "update_full al pixels byte_count t =
    (if pixels = None \<or> tx_width t \<le> 0 \<or> tx_height t \<le> 0 \<or> tx_n t \<le> 0
     then throw (Runtime_error ''Texture2D::update_full requires an allocated texture and pixel data'') t
     else if byte_count < image_bytes (tx_width t) (tx_height t) (tx_n t)
     then throw (Runtime_error ''Texture2D::update_full pixel buffer is smaller than the texture size'') t
     else ok ((gl_do [Tex_sub_image 0 0 (tx_width t) (tx_height t) (image_format t)
           (gl_reads al (image_format t) (tx_width t) (tx_height t) 0 (the pixels))] t)\<lparr>tx_ready := True\<rparr>))"

definition update_sub_rect :: "nat \<Rightarrow> int \<Rightarrow> int \<Rightarrow> int \<Rightarrow> int \<Rightarrow> byte list option \<Rightarrow> nat \<Rightarrow> texture2d \<Rightarrow> texture2d outcome" where
  "update_sub_rect al x y w h pixels byte_count t =
    (if pixels = None \<or> tx_width t \<le> 0 \<or> tx_height t \<le> 0 \<or> tx_n t \<le> 0 \<or> w \<le> 0 \<or> h \<le> 0
     then throw (Runtime_error ''Texture2D::update_sub_rect requires an allocated texture, positive bounds, and pixel data'') t
     else if byte_count < image_bytes w h (tx_n t)
     then throw (Runtime_error ''Texture2D::update_sub_rect pixel buffer is smaller than the requested rect'') t
     else if x < 0 \<or> y < 0 \<or> x + w > tx_width t \<or> y + h > tx_height t
     then throw (Runtime_error ''Texture2D::update_sub_rect bounds exceed the allocated texture'') t
     else ok ((gl_do [Tex_sub_image x y w h (image_format t) (gl_reads al (image_format t) w h 0 (the pixels))] t)
           \<lparr>tx_ready := True\<rparr>))"

definition begin_upload :: "texture2d \<Rightarrow> texture2d" where
  "begin_upload t =
    (if no_data t then t
     else (gl_do [Tex_image Texture_2d (image_format t) (tx_width t) (tx_height t) No_pixels, Tex_parameters] t)
        \<lparr>tx_ready := False, tx_uploading := True, upload_row := 0\<rparr>)"

text \<open>The result says whether the upload is complete.\<close>

definition upload_rows :: "nat \<Rightarrow> int \<Rightarrow> texture2d \<Rightarrow> bool \<times> texture2d" where
  "upload_rows al rows_per_call t =
    (if \<not> tx_uploading t \<or> no_data t then (False, t)
     else let remaining = tx_height t - upload_row t in
       if remaining \<le> 0 then (True, t\<lparr>tx_uploading := False, tx_ready := True\<rparr>)
       else let rows = (if rows_per_call < remaining then rows_per_call else remaining);
                off = size_mul (size_mul (size_of_int (upload_row t)) (size_of_int (tx_width t))) (size_of_int (tx_n t));
                t1 = (gl_do [Tex_sub_image 0 (upload_row t) (tx_width t) rows (image_format t)
                        (gl_reads al (image_format t) (tx_width t) rows off (the (tx_data t)))] t)
                      \<lparr>upload_row := upload_row t + rows\<rparr>
         in if upload_row t1 \<ge> tx_height t1
            then (True, t1\<lparr>tx_data := None, tx_size := 0, tx_ready := True, tx_uploading := False, upload_row := 0\<rparr>)
            else (False, t1))"

section \<open>Cube maps\<close>

record cubemap =
  cm_id :: nat  \<comment> \<open>the name of the texture object, 0 for none\<close>
  cm_ready :: bool
  cm_data :: "byte list option"
  cm_size :: nat
  cm_width :: int
  cm_height :: int
  cm_n :: int
  cm_faces :: int
  cm_uploading :: bool
  upload_face :: int
  cm_gl :: "gl_call list"

definition new_cubemap :: "nat \<Rightarrow> cubemap" where
  "new_cubemap fresh = \<lparr>cm_id = fresh, cm_ready = False, cm_data = None, cm_size = 0, cm_width = 0, cm_height = 0, cm_n = 0,
     cm_faces = 0, cm_uploading = False, upload_face = 0, cm_gl = [Gen_textures]\<rparr>"

definition cm_do :: "gl_call list \<Rightarrow> cubemap \<Rightarrow> cubemap" where
  "cm_do cs c = c\<lparr>cm_gl := cm_gl c @ cs\<rparr>"

definition cube_format :: "int \<Rightarrow> gl_format" where
  "cube_format channels = (if channels = 4 then GL_RGBA else GL_RGB)"

text \<open>\<open>decoded\<close> lists what the image loader returns for each file; a file that does not load is skipped.\<close>

definition face_image :: "nat \<Rightarrow> nat \<Rightarrow> image \<Rightarrow> gl_call" where
  "face_image al i im = Tex_image (Cube_face i) (cube_format (im_channels im)) (im_width im) (im_height im)
     (gl_reads al (cube_format (im_channels im)) (im_width im) (im_height im) 0 (im_pixels im))"

definition load_faces :: "nat \<Rightarrow> image option list \<Rightarrow> cubemap \<Rightarrow> cubemap" where
  "load_faces al decoded c =
    (if decoded = [] then c
     else (cm_do (concat (map (\<lambda>(i, d). case d of None \<Rightarrow> [] | Some im \<Rightarrow> [face_image al i im]) (enumerate 0 decoded))
             @ [Tex_parameters]) c)\<lparr>cm_ready := True\<rparr>)"

text \<open>A texture object is made when there is none; \<open>fresh\<close> is the name the library gives.\<close>

definition ensure_object :: "nat \<Rightarrow> cubemap \<Rightarrow> cubemap" where
  "ensure_object fresh c = (if cm_id c = 0 then cm_do [Gen_textures] (c\<lparr>cm_id := fresh\<rparr>) else c)"

definition cubemap_from_pixels :: "nat \<Rightarrow> nat \<Rightarrow> int \<Rightarrow> int \<Rightarrow> int \<Rightarrow> byte list \<Rightarrow> nat \<Rightarrow> cubemap \<Rightarrow> cubemap" where
  "cubemap_from_pixels al fresh width height channels pixels byte_count c =
    (let face_size = image_bytes width height channels;
         faces = (if face_size = 0 then 0 else byte_count div face_size);
         f = cube_format channels
     in (cm_do (map (\<lambda>i. Tex_image (Cube_face i) f width height (gl_reads al f width height (i * face_size) pixels)) [0..<faces]
           @ [Tex_parameters]) (ensure_object fresh c))\<lparr>cm_ready := True\<rparr>)"

definition begin_upload_from_pixels :: "nat \<Rightarrow> int \<Rightarrow> int \<Rightarrow> int \<Rightarrow> byte list option \<Rightarrow> nat \<Rightarrow> int \<Rightarrow> cubemap \<Rightarrow> cubemap" where
  "begin_upload_from_pixels fresh width height channels pixels byte_count face_count c =
    cm_do [Tex_parameters]
      ((ensure_object fresh c)\<lparr>cm_width := width, cm_height := height, cm_n := channels, cm_faces := face_count,
         cm_data := pixels, cm_size := byte_count, upload_face := 0, cm_uploading := True, cm_ready := False\<rparr>)"

definition face_calls :: "nat \<Rightarrow> nat \<Rightarrow> cubemap \<Rightarrow> int \<Rightarrow> gl_call list" where
  "face_calls al face_size c cnt =
    map (\<lambda>i. let face = nat (upload_face c) + i; f = cube_format (cm_n c)
             in Tex_image (Cube_face face) f (cm_width c) (cm_height c)
                  (gl_reads al f (cm_width c) (cm_height c) (size_mul face_size face) (the (cm_data c)))) [0..<nat cnt]"

definition upload_faces :: "nat \<Rightarrow> int \<Rightarrow> cubemap \<Rightarrow> bool \<times> cubemap" where
  "upload_faces al faces_per_call c =
    (if \<not> cm_uploading c \<or> cm_data c = None \<or> cm_size c = 0 \<or> cm_faces c \<le> 0 then (False, c)
     else let face_size = image_bytes (cm_width c) (cm_height c) (cm_n c) in
       if face_size = 0 \<or> cm_size c < size_mul face_size (size_of_int (cm_faces c))
       then (False, c\<lparr>cm_uploading := False, cm_ready := False, cm_data := None, cm_size := 0\<rparr>)
       else let remaining = cm_faces c - upload_face c in
         if remaining \<le> 0 then (True, c\<lparr>cm_uploading := False, cm_ready := True\<rparr>)
         else let cnt = (if faces_per_call < remaining then faces_per_call else remaining);
                  c1 = (cm_do (face_calls al face_size c cnt) c)\<lparr>upload_face := upload_face c + cnt\<rparr>
           in if upload_face c1 \<ge> cm_faces c1
              then (True, c1\<lparr>cm_data := None, cm_size := 0, upload_face := 0, cm_uploading := False, cm_ready := True\<rparr>)
              else (False, c1))"

definition drop_cubemap :: "cubemap \<Rightarrow> cubemap" where
  "drop_cubemap c =
    (let c1 = (if cm_id c \<noteq> 0 then (cm_do [Delete_textures (cm_id c)] c)\<lparr>cm_id := 0\<rparr> else c)
     in c1\<lparr>cm_data := None, cm_size := 0, cm_uploading := False, upload_face := 0, cm_ready := False\<rparr>)"

end
