(* ===== verification/Resource_Manager.thy ===== *)
theory Resource_Manager
  imports Textures Job_System
begin

text \<open>
  The asynchronous loading of \<open>src/src/resource_manager.cpp\<close>: requests become jobs of the pool, their results are
  matched with the pending entry of their id, checked, and turned into textures, cube maps and sounds; decoded
  textures and cube maps are uploaded in slices, a few per frame. Callbacks that report a resource are logged.

  The decoders of images and sounds, and the memory their buffers are in, are parameters: \<open>place\<close> gives the
  address of a buffer and \<open>heap\<close> the bytes at an address.
\<close>

section \<open>Job handlers\<close>

record decoders =
  load_image_file :: "string \<Rightarrow> image option"
  load_image_memory :: "byte list \<Rightarrow> string + image"
  load_wav_file :: "string \<Rightarrow> (byte list \<times> int \<times> int) option"
  place :: "byte list \<Rightarrow> nat"

definition no_image :: native_payload where
  "no_image = no_payload"

text \<open>\<open>decode_image_file\<close>, with what it writes to its reference parameters; the bytes are in the payload's memory.\<close>

definition decode_image_file :: "decoders \<Rightarrow> string \<Rightarrow> (native_payload \<times> byte list) \<times> int \<times> int \<times> int" where
  "decode_image_file D f =
    (case load_image_file D f of
       None \<Rightarrow> ((no_image, []), 0, 0, 0)
     | Some im \<Rightarrow>
         ((from_array (Some (place D (im_pixels im))) (image_bytes (im_width im) (im_height im) (im_channels im)) 1 1,
           im_pixels im), im_width im, im_height im, im_channels im))"

definition flip_vertical_buffer :: "byte list \<Rightarrow> int \<Rightarrow> int \<Rightarrow> int \<Rightarrow> byte list" where
  "flip_vertical_buffer data width height channels =
    flip_rows (nat (width * channels)) (nat height) [0..<nat (height div 2)] data"

definition failed_job :: "job_request \<Rightarrow> string \<Rightarrow> job_result" where
  "failed_job r msg = plain_result (q_id r) False (q_kind r) [] msg Engine_owner"

definition good_job :: "job_request \<Rightarrow> native_payload \<Rightarrow> int \<Rightarrow> int \<Rightarrow> int \<Rightarrow> int \<Rightarrow> job_result" where
  "good_job r p a b c d =
    (plain_result (q_id r) True (q_kind r) [] [] Engine_owner)
      \<lparr>r_payload := p, r_aux_a := a, r_aux_b := b, r_aux_c := c, r_aux_d := d\<rparr>"

text \<open>Flipping in place: the payload then stands for the flipped bytes.\<close>

definition repoint :: "decoders \<Rightarrow> byte list \<Rightarrow> native_payload \<Rightarrow> native_payload" where
  "repoint D data p = p\<lparr>np_data := Some (place D data)\<rparr>"

definition load_texture_job :: "decoders \<Rightarrow> job_handler" where
  "load_texture_job D r =
    (case decode_image_file D (q_payload r) of ((p, data), w, h, c) \<Rightarrow>
       if np_data p = None then Returned (failed_job r (''Failed to load texture: '' @ q_payload r))
       else Returned (good_job r (repoint D (flip_vertical_buffer data w h c) p) w h c 0))"

definition decode_texture_bytes_job :: "decoders \<Rightarrow> job_handler" where
  "decode_texture_bytes_job D r =
    (case q_payload r of
       flag # b # bs \<Rightarrow>
         (case load_image_memory D (map byte_of_char (b # bs)) of
            Inl err \<Rightarrow> Returned (failed_job r (''Failed to decode texture bytes: '' @ err))
          | Inr im \<Rightarrow>
              let w = im_width im; h = im_height im; c = im_channels im;
                  data = (if byte_of_char flag = 0 then flip_vertical_buffer (im_pixels im) w h c else im_pixels im)
              in Returned (good_job r (from_array (Some (place D data)) (image_bytes w h c) 1 1) w h c 0))
     | _ \<Rightarrow> Returned (failed_job r ''No image bytes provided for texture decode''))"

text \<open>The lines of the payload that are not empty, as \<open>std::getline\<close> finds them.\<close>

definition newline_char :: char where "newline_char = CHR 0x0A"

fun lines_of :: "string \<Rightarrow> string \<Rightarrow> string list" where
  "lines_of cur [] = (if cur = [] then [] else [cur])"
| "lines_of cur (c # cs) = (if c = newline_char then cur # lines_of [] cs else lines_of (cur @ [c]) cs)"

definition cubemap_files :: "string \<Rightarrow> string list" where
  "cubemap_files payload = filter (\<lambda>l. l \<noteq> []) (lines_of [] payload)"

text \<open>The loop over the faces; \<open>dims\<close> are those of the first face.\<close>

fun load_cubemap_faces :: "decoders \<Rightarrow> (int \<times> int \<times> int) option \<Rightarrow> byte list \<Rightarrow> string list
    \<Rightarrow> string + (int \<times> int \<times> int) option \<times> byte list" where
  "load_cubemap_faces D dims combined [] = Inr (dims, combined)"
| "load_cubemap_faces D dims combined (f # fs) =
    (case decode_image_file D f of ((p, data), w, h, c) \<Rightarrow>
       if np_data p = None then Inl (''Failed to load cubemap face: '' @ f)
       else case dims of
           None \<Rightarrow> load_cubemap_faces D (Some (w, h, c)) (take (image_bytes w h c) data) fs
         | Some (w0, h0, c0) \<Rightarrow>
             if w \<noteq> w0 \<or> h \<noteq> h0 \<or> c \<noteq> c0 then Inl ''Cubemap faces must share dimensions and channels''
             else load_cubemap_faces D dims (combined @ take (image_bytes w0 h0 c0) data) fs)"

definition load_cubemap_job :: "decoders \<Rightarrow> job_handler" where
  "load_cubemap_job D r =
    (let fs = cubemap_files (q_payload r) in
     if fs = [] then Returned (failed_job r ''No files provided for cubemap'')
     else case load_cubemap_faces D None [] fs of
         Inr (Some (w, h, c), combined) \<Rightarrow>
           Returned (good_job r (from_array (Some (place D combined)) (size_mul (image_bytes w h c) (length fs)) 1 1)
             w h c (int (length fs)))
       | Inl err \<Rightarrow> Returned (failed_job r err)
       | Inr (None, _) \<Rightarrow> Threw_other)"

definition load_audio_job :: "decoders \<Rightarrow> job_handler" where
  "load_audio_job D r =
    (case load_wav_file D (q_payload r) of
       None \<Rightarrow> Returned (failed_job r (''Failed to load audio: '' @ q_payload r))
     | Some (data, format, freq) \<Rightarrow>
         Returned (good_job r (from_array (Some (place D data)) (length data) 1 1) format freq 0 0))"

definition register_texture_job_handlers :: "decoders \<Rightarrow> job_system \<Rightarrow> job_system outcome" where
  "register_texture_job_handlers D j =
    and_then (register_handler ''load_texture'' (Some (load_texture_job D)) j) (\<lambda>j.
    and_then (register_handler ''decode_texture_bytes'' (Some (decode_texture_bytes_job D)) j) (\<lambda>j.
    register_handler ''load_cubemap'' (Some (load_cubemap_job D)) j))"

definition register_audio_job_handlers :: "decoders \<Rightarrow> job_system \<Rightarrow> job_system outcome" where
  "register_audio_job_handlers D j = register_handler ''load_audio'' (Some (load_audio_job D)) j"

section \<open>State\<close>

text \<open>A callback is a number; \<open>None\<close> is an empty function.\<close>

record pending_load =
  pl_name :: string
  pl_files :: "string list"
  pl_callback :: "nat option"

record pending_upload =
  pu_name :: string
  pu_callback :: "nat option"

datatype resource_event =
  Ready nat string
| Unknown_result nat
| Load_failed string string
| Invalid_data string

text \<open>\<open>rs_audio\<close> is whether the sound system is available, if there is one; \<open>rs_buffers\<close> the sounds it made.\<close>

record resources =
  rs_textures :: "string \<rightharpoonup> texture2d"
  rs_cubemaps :: "string \<rightharpoonup> cubemap"
  rs_jobs :: "job_system option"
  rs_audio :: "bool option"
  rs_buffers :: "(string \<times> byte list \<times> int \<times> int) list"
  pending_textures :: "nat \<rightharpoonup> pending_load"
  pending_texture_bytes :: "nat \<rightharpoonup> pending_upload"
  pending_texture_uploads :: "pending_upload list"
  pending_cubemaps :: "nat \<rightharpoonup> pending_load"
  pending_cubemap_uploads :: "pending_upload list"
  pending_audio :: "nat \<rightharpoonup> pending_load"
  rs_log :: "resource_event list"

definition log_rs :: "resource_event list \<Rightarrow> resources \<Rightarrow> resources" where
  "log_rs es s = s\<lparr>rs_log := rs_log s @ es\<rparr>"

definition report_ready :: "nat option \<Rightarrow> string \<Rightarrow> resources \<Rightarrow> resources" where
  "report_ready cb name s = (case cb of None \<Rightarrow> s | Some k \<Rightarrow> log_rs [Ready k name] s)"

text \<open>The maps' subscripts make a default element where there is none.\<close>

definition texture_at :: "resources \<Rightarrow> string \<Rightarrow> texture2d" where
  "texture_at s name = (case rs_textures s name of Some t \<Rightarrow> t | None \<Rightarrow> new_texture)"

definition cubemap_at :: "nat \<Rightarrow> resources \<Rightarrow> string \<Rightarrow> cubemap" where
  "cubemap_at fresh s name = (case rs_cubemaps s name of Some c \<Rightarrow> c | None \<Rightarrow> new_cubemap fresh)"

definition put_texture :: "string \<Rightarrow> texture2d \<Rightarrow> resources \<Rightarrow> resources" where
  "put_texture name t s = s\<lparr>rs_textures := (rs_textures s)(name \<mapsto> t)\<rparr>"

definition put_cubemap :: "string \<Rightarrow> cubemap \<Rightarrow> resources \<Rightarrow> resources" where
  "put_cubemap name c s = s\<lparr>rs_cubemaps := (rs_cubemaps s)(name \<mapsto> c)\<rparr>"

definition get_texture :: "string \<Rightarrow> resources \<Rightarrow> texture2d \<times> resources" where
  "get_texture name s = (texture_at s name, put_texture name (texture_at s name) s)"

definition get_cubemap :: "nat \<Rightarrow> string \<Rightarrow> resources \<Rightarrow> cubemap \<times> resources" where
  "get_cubemap fresh name s = (cubemap_at fresh s name, put_cubemap name (cubemap_at fresh s name) s)"

definition set_job_system :: "job_system option \<Rightarrow> resources \<Rightarrow> resources" where
  "set_job_system j s = s\<lparr>rs_jobs := j\<rparr>"

definition set_audio_system :: "bool option \<Rightarrow> resources \<Rightarrow> resources" where
  "set_audio_system a s = s\<lparr>rs_audio := a\<rparr>"

definition no_job_system :: exn where
  "no_job_system = Runtime_error ''Job system is not configured for ResourceManager''"

section \<open>Requests\<close>

text \<open>The synchronous loads; the loader's images are arguments.\<close>

definition load_texture_from_file :: "nat \<Rightarrow> image option \<Rightarrow> string \<Rightarrow> resources \<Rightarrow> resources" where
  "load_texture_from_file al decoded name s =
    put_texture name (generate al (load_texture al decoded (texture_at s name))) s"

definition load_cubemap_from_files :: "nat \<Rightarrow> nat \<Rightarrow> image option list \<Rightarrow> string \<Rightarrow> resources \<Rightarrow> resources" where
  "load_cubemap_from_files al fresh decoded name s =
    put_cubemap name ((load_faces al decoded (cubemap_at fresh s name))\<lparr>cm_ready := True\<rparr>) s"

definition load_texture_async :: "string \<Rightarrow> string \<Rightarrow> nat option \<Rightarrow> resources \<Rightarrow> resources outcome" where
  "load_texture_async name f cb s =
    (case rs_jobs s of
       None \<Rightarrow> throw no_job_system s
     | Some j \<Rightarrow>
         let s1 = put_texture name ((texture_at s name)\<lparr>tx_ready := False\<rparr>) s
         in case submit ''load_texture'' f Engine_owner j of
           (i, j') \<Rightarrow> ok (s1\<lparr>rs_jobs := Some j',
             pending_textures := (pending_textures s1)(i \<mapsto> \<lparr>pl_name = name, pl_files = [f], pl_callback = cb\<rparr>)\<rparr>))"

definition load_texture_from_bytes_async :: "string \<Rightarrow> string \<Rightarrow> bool \<Rightarrow> nat option \<Rightarrow> resources \<Rightarrow> resources outcome" where
  "load_texture_from_bytes_async name bytes already_flipped cb s =
    (case rs_jobs s of
       None \<Rightarrow> throw no_job_system s
     | Some j \<Rightarrow>
         let s1 = put_texture name ((texture_at s name)\<lparr>tx_ready := False\<rparr>) s;
             payload = char_of (if already_flipped then 1 else 0 :: nat) # bytes
         in case submit ''decode_texture_bytes'' payload Engine_owner j of
           (i, j') \<Rightarrow> ok (s1\<lparr>rs_jobs := Some j',
             pending_texture_bytes := (pending_texture_bytes s1)(i \<mapsto> \<lparr>pu_name = name, pu_callback = cb\<rparr>)\<rparr>))"

fun join_lines :: "string list \<Rightarrow> string" where
  "join_lines [] = []"
| "join_lines [f] = f"
| "join_lines (f # g # fs) = f @ newline_char # join_lines (g # fs)"

definition load_cubemap_async :: "nat \<Rightarrow> string \<Rightarrow> string list \<Rightarrow> nat option \<Rightarrow> resources \<Rightarrow> resources outcome" where
  "load_cubemap_async fresh name fs cb s =
    (case rs_jobs s of
       None \<Rightarrow> throw no_job_system s
     | Some j \<Rightarrow>
         let s1 = put_cubemap name ((cubemap_at fresh s name)\<lparr>cm_ready := False\<rparr>) s
         in case submit ''load_cubemap'' (join_lines fs) Engine_owner j of
           (i, j') \<Rightarrow> ok (s1\<lparr>rs_jobs := Some j',
             pending_cubemaps := (pending_cubemaps s1)(i \<mapsto> \<lparr>pl_name = name, pl_files = fs, pl_callback = cb\<rparr>)\<rparr>))"

definition load_audio_async :: "string \<Rightarrow> string \<Rightarrow> nat option \<Rightarrow> resources \<Rightarrow> bool \<times> resources" where
  "load_audio_async name f cb s =
    (if rs_audio s = Some False then (False, s)
     else case rs_jobs s of
         None \<Rightarrow> (False, s)
       | Some j \<Rightarrow>
           (case submit ''load_audio'' f Engine_owner j of
              (i, j') \<Rightarrow> (True, s\<lparr>rs_jobs := Some j',
                pending_audio := (pending_audio s)(i \<mapsto> \<lparr>pl_name = name, pl_files = [f], pl_callback = cb\<rparr>)\<rparr>)))"

section \<open>Results\<close>

definition dims_bytes :: "job_result \<Rightarrow> nat" where
  "dims_bytes r = image_bytes (r_aux_a r) (r_aux_b r) (r_aux_c r)"

definition pixels_invalid :: "job_result \<Rightarrow> bool" where
  "pixels_invalid r \<longleftrightarrow> np_data (r_payload r) = None \<or> np_size_bytes (r_payload r) < dims_bytes r
     \<or> r_aux_a r \<le> 0 \<or> r_aux_b r \<le> 0 \<or> r_aux_c r \<le> 0"

definition payload_bytes :: "(nat \<Rightarrow> byte list) \<Rightarrow> job_result \<Rightarrow> byte list option" where
  "payload_bytes heap r = map_option heap (np_data (r_payload r))"

text \<open>Each handler of a result returns by how much \<open>applied\<close> grows.\<close>

definition apply_texture_result :: "nat \<Rightarrow> (nat \<Rightarrow> byte list) \<Rightarrow> job_result \<Rightarrow> resources \<Rightarrow> nat \<times> resources" where
  "apply_texture_result al heap r s =
    (case pending_textures s (r_id r) of
       None \<Rightarrow> (0, log_rs [Unknown_result (r_id r)] s)
     | Some p \<Rightarrow>
         let s1 = s\<lparr>pending_textures := (pending_textures s)(r_id r := None)\<rparr> in
         if \<not> r_ok r then (0, log_rs [Load_failed (pl_name p) (r_error r)] s1)
         else if pixels_invalid r then (0, log_rs [Invalid_data (pl_name p)] s1)
         else let t = generate al (load_from_pixels (r_aux_a r) (r_aux_b r) (r_aux_c r) (payload_bytes heap r) (dims_bytes r) True
                        (texture_at s1 (pl_name p)))
           in (1, report_ready (pl_callback p) (pl_name p) (put_texture (pl_name p) t s1)))"

definition apply_decode_result :: "(nat \<Rightarrow> byte list) \<Rightarrow> job_result \<Rightarrow> resources \<Rightarrow> resources" where
  "apply_decode_result heap r s =
    (case pending_texture_bytes s (r_id r) of
       None \<Rightarrow> log_rs [Unknown_result (r_id r)] s
     | Some p \<Rightarrow>
         let s1 = s\<lparr>pending_texture_bytes := (pending_texture_bytes s)(r_id r := None)\<rparr> in
         if \<not> r_ok r then log_rs [Load_failed (pu_name p) (r_error r)] s1
         else if pixels_invalid r then log_rs [Invalid_data (pu_name p)] s1
         else let t = begin_upload (load_from_pixels (r_aux_a r) (r_aux_b r) (r_aux_c r) (payload_bytes heap r) (dims_bytes r) True
                        (texture_at s1 (pu_name p)))
           in (put_texture (pu_name p) t s1)\<lparr>pending_texture_uploads := pending_texture_uploads s1 @ [p]\<rparr>)"

definition apply_cubemap_result :: "nat \<Rightarrow> (nat \<Rightarrow> byte list) \<Rightarrow> job_result \<Rightarrow> resources \<Rightarrow> nat \<times> resources" where
  "apply_cubemap_result fresh heap r s =
    (case pending_cubemaps s (r_id r) of
       None \<Rightarrow> (0, log_rs [Unknown_result (r_id r)] s)
     | Some p \<Rightarrow>
         let s1 = s\<lparr>pending_cubemaps := (pending_cubemaps s)(r_id r := None)\<rparr> in
         if \<not> r_ok r then (0, log_rs [Load_failed (pl_name p) (r_error r)] s1)
         else if r_aux_a r \<le> 0 \<or> r_aux_b r \<le> 0 \<or> r_aux_c r \<le> 0 \<or> r_aux_d r \<le> 0
         then (0, log_rs [Invalid_data (pl_name p)] s1)
         else if np_data (r_payload r) = None
             \<or> np_size_bytes (r_payload r) < size_mul (dims_bytes r) (size_of_int (r_aux_d r))
         then (0, log_rs [Invalid_data (pl_name p)] s1)
         else let c = begin_upload_from_pixels fresh (r_aux_a r) (r_aux_b r) (r_aux_c r) (payload_bytes heap r)
                        (np_size_bytes (r_payload r)) (r_aux_d r) (cubemap_at fresh s1 (pl_name p))
           in (1, (put_cubemap (pl_name p) c s1)\<lparr>pending_cubemap_uploads :=
                 pending_cubemap_uploads s1 @ [\<lparr>pu_name = pl_name p, pu_callback = pl_callback p\<rparr>]\<rparr>))"

definition apply_audio_result :: "(nat \<Rightarrow> byte list) \<Rightarrow> (string \<Rightarrow> bool) \<Rightarrow> job_result \<Rightarrow> resources \<Rightarrow> nat \<times> resources" where
  "apply_audio_result heap made r s =
    (case pending_audio s (r_id r) of
       None \<Rightarrow> (0, log_rs [Unknown_result (r_id r)] s)
     | Some p \<Rightarrow>
         let s1 = s\<lparr>pending_audio := (pending_audio s)(r_id r := None)\<rparr> in
         if \<not> r_ok r then (0, log_rs [Load_failed (pl_name p) (r_error r)] s1)
         else if np_data (r_payload r) = None \<or> np_size_bytes (r_payload r) = 0 \<or> r_aux_a r = 0 \<or> r_aux_b r = 0
         then (0, log_rs [Invalid_data (pl_name p)] s1)
         else if made (pl_name p)
         then (1, report_ready (pl_callback p) (pl_name p) (s1\<lparr>rs_buffers := rs_buffers s1
                @ [(pl_name p, the (payload_bytes heap r), r_aux_a r, r_aux_b r)]\<rparr>))
         else (0, s1))"

fun apply_results :: "(job_result \<Rightarrow> resources \<Rightarrow> nat \<times> resources) \<Rightarrow> job_result list \<Rightarrow> resources \<Rightarrow> nat \<times> resources" where
  "apply_results f [] s = (0, s)"
| "apply_results f (r # rs) s =
    (case f r s of (k, s1) \<Rightarrow> case apply_results f rs s1 of (m, s2) \<Rightarrow> (k + m, s2))"

section \<open>Uploads in slices\<close>

definition upload_rows_per_texture :: int where "upload_rows_per_texture = 64"
definition upload_texture_budget :: nat where "upload_texture_budget = 2"
definition decode_upload_budget :: nat where "decode_upload_budget = 2"
definition upload_cubemap_budget :: nat where "upload_cubemap_budget = 1"
definition upload_faces_per_cubemap :: int where "upload_faces_per_cubemap = 1"

text \<open>The loop over the entries from the first, with the budget left: the entries kept, and the count.\<close>

fun texture_uploads :: "nat \<Rightarrow> nat \<Rightarrow> pending_upload list \<Rightarrow> resources \<Rightarrow> (pending_upload list \<times> nat) \<times> resources" where
  "texture_uploads al 0 us s = ((us, 0), s)"
| "texture_uploads al (Suc b) [] s = (([], 0), s)"
| "texture_uploads al (Suc b) (u # us) s =
    (case upload_rows al upload_rows_per_texture (texture_at s (pu_name u)) of (finished, t) \<Rightarrow>
       let s1 = put_texture (pu_name u) t s;
           s2 = (if finished then report_ready (pu_callback u) (pu_name u) s1 else s1)
       in case texture_uploads al b us s2 of ((rest, k), s3) \<Rightarrow>
         (((if finished then rest else u # rest), Suc k), s3))"

fun cubemap_uploads :: "nat \<Rightarrow> nat \<Rightarrow> nat \<Rightarrow> pending_upload list \<Rightarrow> resources \<Rightarrow> (pending_upload list \<times> nat) \<times> resources" where
  "cubemap_uploads al fresh 0 us s = ((us, 0), s)"
| "cubemap_uploads al fresh (Suc b) [] s = (([], 0), s)"
| "cubemap_uploads al fresh (Suc b) (u # us) s =
    (case upload_faces al upload_faces_per_cubemap (cubemap_at fresh s (pu_name u)) of (finished, c) \<Rightarrow>
       let s1 = put_cubemap (pu_name u) c s;
           s2 = (if finished then report_ready (pu_callback u) (pu_name u) s1 else s1)
       in case cubemap_uploads al fresh b us s2 of ((rest, k), s3) \<Rightarrow>
         (((if finished then rest else u # rest), Suc k), s3))"

definition upload_textures :: "nat \<Rightarrow> resources \<Rightarrow> nat \<times> resources" where
  "upload_textures al s =
    (case texture_uploads al upload_texture_budget (pending_texture_uploads s) s of
       ((rest, k), s1) \<Rightarrow> (k, s1\<lparr>pending_texture_uploads := rest\<rparr>))"

definition upload_cubemaps :: "nat \<Rightarrow> nat \<Rightarrow> resources \<Rightarrow> nat \<times> resources" where
  "upload_cubemaps al fresh s =
    (case cubemap_uploads al fresh upload_cubemap_budget (pending_cubemap_uploads s) s of
       ((rest, k), s1) \<Rightarrow> (k, s1\<lparr>pending_cubemap_uploads := rest\<rparr>))"

section \<open>A frame\<close>

definition poll_engine :: "string \<Rightarrow> nat \<Rightarrow> resources \<Rightarrow> job_result list \<times> resources" where
  "poll_engine kind n s =
    (case rs_jobs s of
       None \<Rightarrow> ([], s)
     | Some j \<Rightarrow> (case poll_kind_owner kind Engine_owner n j of (rs, j') \<Rightarrow> (rs, s\<lparr>rs_jobs := Some j'\<rparr>)))"

definition process_texture_jobs :: "nat \<Rightarrow> nat \<Rightarrow> (nat \<Rightarrow> byte list) \<Rightarrow> nat \<Rightarrow> resources \<Rightarrow> nat \<times> resources" where
  "process_texture_jobs al fresh heap max_results s =
    (if rs_jobs s = None then (0, s)
     else
       case poll_engine ''load_texture'' max_results s of (results, s1) \<Rightarrow>
       case apply_results (apply_texture_result al heap) results s1 of (k1, s2) \<Rightarrow>
       let decode_max = (if max_results = 0 then decode_upload_budget else min max_results decode_upload_budget) in
       case poll_engine ''decode_texture_bytes'' decode_max s2 of (decoded, s3) \<Rightarrow>
       case apply_results (\<lambda>r s. (0, apply_decode_result heap r s)) decoded s3 of (_, s4) \<Rightarrow>
       case upload_textures al s4 of (k2, s5) \<Rightarrow>
       case poll_engine ''load_cubemap'' max_results s5 of (cubes, s6) \<Rightarrow>
       case apply_results (apply_cubemap_result fresh heap) cubes s6 of (k3, s7) \<Rightarrow>
       case upload_cubemaps al fresh s7 of (k4, s8) \<Rightarrow> (k1 + k2 + k3 + k4, s8))"

definition process_audio_jobs :: "(nat \<Rightarrow> byte list) \<Rightarrow> (string \<Rightarrow> bool) \<Rightarrow> nat \<Rightarrow> resources \<Rightarrow> nat \<times> resources" where
  "process_audio_jobs heap made max_results s =
    (if rs_jobs s = None \<or> rs_audio s = None then (0, s)
     else case poll_engine ''load_audio'' max_results s of (results, s1) \<Rightarrow>
       apply_results (apply_audio_result heap made) results s1)"

definition clear_pending :: "resources \<Rightarrow> resources" where
  "clear_pending s = s\<lparr>pending_textures := Map.empty, pending_texture_bytes := Map.empty, pending_texture_uploads := [],
     pending_cubemaps := Map.empty, pending_cubemap_uploads := [], pending_audio := Map.empty\<rparr>"

definition clear_resources :: "resources \<Rightarrow> resources" where
  "clear_resources s = clear_pending (s\<lparr>rs_textures := Map.empty, rs_cubemaps := Map.empty\<rparr>)"

end
