(* ===== verification/Texture_Properties.thy ===== *)
theory Texture_Properties
  imports Textures
begin

text \<open>
  What the textures guarantee: flipping exchanges the rows and is its own inverse; an upload in slices gives the
  graphics library every row once, in order, with exactly the bytes of the image, and then ends; an update
  stays inside the texture and the buffer. The rows of the graphics library start at multiples of the unpack
  alignment: where the rows of the image do not, it reads past the buffer.
\<close>

section \<open>Flipping\<close>

lemma swap_bytes_length [simp]: "length (swap_bytes i j data) = length data"
  by (simp add: swap_bytes_def)

lemma swap_row_length [simp]: "length (swap_row i j n data) = length data"
  by (induction n arbitrary: i j data) simp_all

lemma flip_rows_length [simp]: "length (flip_rows w h rows data) = length data"
  by (induction rows arbitrary: data) simp_all

lemma swap_row_nth:
  assumes "i + n \<le> j" and "j + n \<le> length data" and "k < length data"
  shows "swap_row i j n data ! k =
    (if i \<le> k \<and> k < i + n then data ! (j + (k - i)) else if j \<le> k \<and> k < j + n then data ! (i + (k - j)) else data ! k)"
  using assms
proof (induction n arbitrary: i j data)
  case (Suc n)
  have "swap_row (i + 1) (j + 1) n (swap_bytes i j data) ! k =
      (if i + 1 \<le> k \<and> k < i + 1 + n then swap_bytes i j data ! (j + 1 + (k - (i + 1)))
       else if j + 1 \<le> k \<and> k < j + 1 + n then swap_bytes i j data ! (i + 1 + (k - (j + 1)))
       else swap_bytes i j data ! k)"
    using Suc.prems by (intro Suc.IH) simp_all
  also have "\<dots> = (if i < k \<and> k < i + 1 + n then swap_bytes i j data ! (j + (k - i))
      else if j < k \<and> k < j + 1 + n then swap_bytes i j data ! (i + (k - j)) else swap_bytes i j data ! k)"
  proof -
    have "i < k \<Longrightarrow> j + 1 + (k - (i + 1)) = j + (k - i)" "j < k \<Longrightarrow> i + 1 + (k - (j + 1)) = i + (k - j)" by simp_all
    then show ?thesis by (simp add: Suc_le_eq)
  qed
  finally show ?case
    using Suc.prems by (auto simp: swap_bytes_def nth_list_update)
qed auto

lemma row_of_index:
  assumes "c < w"
  shows "row * w \<le> r * w + c \<and> r * w + c < row * w + w \<longleftrightarrow> r = (row :: nat)"
proof
  assume a: "row * w \<le> r * w + c \<and> r * w + c < row * w + w"
  have "(r * w + c) div w = r" using assms by simp
  moreover have "(r * w + c) div w = row"
    using a assms by (metis div_mult_self4 div_nat_eqI mult.commute mult_Suc add.commute
        less_nat_zero_code not_less_zero)
  ultimately show "r = row" by simp
qed (use assms in simp)

lemma row_in_buffer: "r < h \<Longrightarrow> c < w \<Longrightarrow> r * w + c < h * (w :: nat)"
proof -
  assume "r < h" "c < w"
  then have "r * w + c < (r + 1) * w" by simp
  also have "\<dots> \<le> h * w" using \<open>r < h\<close> by (intro mult_le_mono) simp_all
  finally show ?thesis .
qed

lemma swap_row_rows:
  assumes "2 * row + 1 < h" and "length data = h * w" and "r < h" and "c < w"
  shows "swap_row (row * w) ((h - row - 1) * w) w data ! (r * w + c)
    = (if r = row \<or> r = h - 1 - row then data ! ((h - 1 - r) * w + c) else data ! (r * w + c))"
proof -
  have "row * w + w = (row + 1) * w" by simp
  also have "\<dots> \<le> (h - row - 1) * w" using assms(1) by (intro mult_le_mono) simp_all
  finally have below: "row * w + w \<le> (h - row - 1) * w" .
  have "(h - row - 1) * w + w = Suc (h - row - 1) * w" by simp
  also have "\<dots> \<le> h * w" using assms(1) by (intro mult_le_mono) simp_all
  finally have inside: "(h - row - 1) * w + w \<le> length data" using assms(2) by simp
  have k: "r * w + c < length data" using row_in_buffer [OF assms(3,4)] assms(2) by simp
  from swap_row_nth [OF below inside k] row_of_index [OF assms(4), of row r]
    row_of_index [OF assms(4), of "h - row - 1" r] assms(1)
  show ?thesis by auto
qed

lemma flip_rows_nth:
  assumes "\<forall>row\<in>set rows. 2 * row + 1 < h" and "distinct rows" and "length data = h * w" and "r < h" and "c < w"
  shows "flip_rows w h rows data ! (r * w + c)
    = (if r \<in> set rows \<or> h - 1 - r \<in> set rows then data ! ((h - 1 - r) * w + c) else data ! (r * w + c))"
  using assms(1-3)
proof (induction rows arbitrary: data)
  case (Cons row rows)
  let ?d = "swap_row (row * w) ((h - row - 1) * w) w data"
  have row: "2 * row + 1 < h" using Cons.prems(1) by simp
  have r': "h - 1 - r < h" using assms(4) by simp
  note swapped = swap_row_rows [OF row Cons.prems(3) assms(4,5)] swap_row_rows [OF row Cons.prems(3) r' assms(5)]
  have IH: "flip_rows w h rows ?d ! (r * w + c)
    = (if r \<in> set rows \<or> h - 1 - r \<in> set rows then ?d ! ((h - 1 - r) * w + c) else ?d ! (r * w + c))"
    using Cons.prems by (intro Cons.IH) simp_all
  have other: "h - 1 - row \<notin> set rows" using Cons.prems(1) row by fastforce
  have cases: "r = row \<or> r = h - 1 - row \<longleftrightarrow> h - 1 - r = row \<or> h - 1 - r = h - 1 - row"
    using assms(4) row by auto
  have twice: "h - 1 - (h - 1 - r) = r" using assms(4) by simp
  show ?case
    using IH swapped cases twice other Cons.prems(2) assms(4) row by (auto split: if_splits)
qed simp

lemma flip_vertical_nth:
  assumes "0 \<le> width * channels" and "0 \<le> height" and "length data = nat height * nat (width * channels)"
    and "r < nat height" and "c < nat (width * channels)"
  shows "flip_vertical data width height channels ! (r * nat (width * channels) + c)
    = data ! ((nat height - 1 - r) * nat (width * channels) + c)"
proof -
  have half: "nat (height div 2) = nat height div 2" by simp
  have "\<forall>row\<in>set [0..<nat (height div 2)]. 2 * row + 1 < nat height" by (auto simp: half)
  moreover have "r \<in> set [0..<nat (height div 2)] \<or> nat height - 1 - r \<in> set [0..<nat (height div 2)]
      \<or> nat height - 1 - r = r"
    using assms(4) by (auto simp: half)
  ultimately show ?thesis
    using flip_rows_nth [OF _ _ assms(3-5), of "[0..<nat (height div 2)]"] by (auto simp: flip_vertical_def)
qed

lemma flip_vertical_twice:
  assumes "0 \<le> width * channels" and "0 \<le> height" and "length data = nat height * nat (width * channels)"
  shows "flip_vertical (flip_vertical data width height channels) width height channels = data"
proof (rule nth_equalityI)
  let ?w = "nat (width * channels)" and ?h = "nat height"
  show len: "length (flip_vertical (flip_vertical data width height channels) width height channels) = length data"
    by (simp add: flip_vertical_def)
  fix k assume "k < length (flip_vertical (flip_vertical data width height channels) width height channels)"
  then have k: "k < ?h * ?w" using len assms(3) by simp
  then have w: "0 < ?w" by (cases ?w) auto
  define r c where "r = k div ?w" and "c = k mod ?w"
  have rc: "k = r * ?w + c" "c < ?w" "r < ?h"
    using k w by (simp_all add: r_def c_def less_mult_imp_div_less)
  have r': "?h - 1 - r < ?h" using rc(3) by simp
  have len1: "length (flip_vertical data width height channels) = ?h * ?w" using assms(3) by (simp add: flip_vertical_def)
  have "?h - 1 - (?h - 1 - r) = r" using rc(3) by simp
  then show "flip_vertical (flip_vertical data width height channels) width height channels ! k = data ! k"
    unfolding rc(1) using flip_vertical_nth [OF assms(1,2) len1 rc(3,2)] flip_vertical_nth [OF assms(1-3) r' rc(2)]
    by metis
qed

section \<open>What the graphics library reads\<close>

lemma row_stride_exact: "0 < al \<Longrightarrow> al dvd rb \<Longrightarrow> row_stride al rb = rb"
  by (auto simp: row_stride_def elim!: dvdE) (metis add_diff_cancel_left' div_mult_self2 div_less diff_less
      less_one add.commute Nat.add_diff_assoc Suc_leI One_nat_def add_cancel_right_left bot_nat_0.not_eq_extremum mult.commute)

lemma slices_join:
  "concat (map (\<lambda>r. take rb (drop (off + r * rb) data)) [0..<rows]) = take (rows * rb) (drop off data)"
proof (induction rows)
  case (Suc rows)
  have "take (Suc rows * rb) (drop off data) = take (rows * rb + rb) (drop off data)" by (simp add: add.commute)
  also have "\<dots> = take (rows * rb) (drop off data) @ take rb (drop (off + rows * rb) data)"
    by (subst take_add) (simp add: add.commute)
  finally show ?case by (simp add: Suc)
qed simp

lemma rows_read_aligned:
  assumes "0 < al" and "al dvd rb" and "off + rows * rb \<le> length data"
  shows "rows_read al rb rows off data = Some (take (rows * rb) (drop off data))"
proof -
  have "rows > 0 \<Longrightarrow> off + (rows - 1) * rb + rb = off + rows * rb" by (cases rows) simp_all
  with assms show ?thesis by (auto simp: rows_read_def row_stride_exact slices_join)
qed

text \<open>Three-byte pixels in rows whose size is no multiple of 4: the last row is read past the buffer.\<close>

lemma unaligned_rows_read_past:
  "gl_reads 4 GL_RGB 3 2 0 (replicate 18 b) = Pixels None"
  by (simp add: gl_reads_def rows_read_def row_stride_def components_def)

section \<open>Uploading by rows\<close>

fun upload_times :: "nat \<Rightarrow> int \<Rightarrow> nat \<Rightarrow> texture2d \<Rightarrow> bool list \<times> texture2d" where
  "upload_times al per_call 0 t = ([], t)"
| "upload_times al per_call (Suc k) t =
    (case upload_rows al per_call t of (done1, t1) \<Rightarrow>
       case upload_times al per_call k t1 of (ds, t2) \<Rightarrow> (done1 # ds, t2))"

text \<open>Updates of whole rows from row \<open>y\<close> on, one below the other: the row after the last, and the bytes.\<close>

fun tiles :: "int \<Rightarrow> int \<Rightarrow> gl_call list \<Rightarrow> (int \<times> byte list) option" where
  "tiles w y [] = Some (y, [])"
| "tiles w y (Tex_sub_image x y' w' rows f (Pixels (Some bs)) # cs) =
    (if x = 0 \<and> y' = y \<and> w' = w \<and> 0 < rows
     then map_option (\<lambda>(y2, ds). (y2, bs @ ds)) (tiles w (y + rows) cs) else None)"
| "tiles w y (c # cs) = None"

definition upload_ready :: "nat \<Rightarrow> byte list \<Rightarrow> texture2d \<Rightarrow> bool" where
  "upload_ready al d t \<longleftrightarrow> tx_uploading t \<and> tx_data t = Some d \<and> tx_size t \<noteq> 0 \<and> 0 < al
     \<and> 0 < tx_width t \<and> 0 < tx_height t \<and> components (image_format t) = nat (tx_n t) \<and> al dvd nat (tx_width t) * nat (tx_n t)
     \<and> length d = nat (tx_height t) * (nat (tx_width t) * nat (tx_n t)) \<and> length d < 2 ^ 64
     \<and> 0 \<le> upload_row t \<and> upload_row t < tx_height t"

lemma size_of_int_exact: "0 \<le> i \<Longrightarrow> i < 2 ^ 64 \<Longrightarrow> size_of_int i = nat i"
  by (simp add: size_of_int_def)

lemma size_mul_exact: "a * b < 2 ^ 64 \<Longrightarrow> size_mul a b = a * b"
  by (simp add: size_mul_def)

lemma components_pos: "0 < components f"
  by (simp add: components_def split: gl_format.split)

lemma upload_slice:
  assumes "upload_ready al d t" and "0 < per_call"
  defines "rb \<equiv> nat (tx_width t) * nat (tx_n t)"
  defines "rows \<equiv> min per_call (tx_height t - upload_row t)"
  shows "upload_rows al per_call t =
    (let t1 = t\<lparr>tx_gl := tx_gl t @ [Tex_sub_image 0 (upload_row t) (tx_width t) rows (image_format t)
           (Pixels (Some (take (nat rows * rb) (drop (nat (upload_row t) * rb) d))))],
         upload_row := upload_row t + rows\<rparr>
     in if upload_row t + rows = tx_height t
        then (True, t1\<lparr>tx_data := None, tx_size := 0, tx_ready := True, tx_uploading := False, upload_row := 0\<rparr>)
        else (False, t1))"
proof -
  have t: "tx_uploading t" "tx_data t = Some d" "tx_size t \<noteq> 0" "0 < al" "0 < tx_width t" "0 < tx_height t"
    "components (image_format t) = nat (tx_n t)" "al dvd rb" "length d = nat (tx_height t) * rb" "length d < 2 ^ 64"
    "0 \<le> upload_row t" "upload_row t < tx_height t"
    using assms(1) by (simp_all add: upload_ready_def rb_def)
  have n: "0 < nat (tx_n t)" using components_pos [of "image_format t"] t(7) by simp
  have rb: "1 \<le> rb" using n t(5) by (simp add: rb_def Suc_le_eq)
  have rows: "0 < rows" "upload_row t + rows \<le> tx_height t" using assms(2) t(12) by (simp_all add: rows_def)
  have end_row: "nat (upload_row t) + nat rows \<le> nat (tx_height t)" using rows t(11) by simp
  have fit: "nat (upload_row t) * rb + nat rows * rb \<le> length d"
    using mult_le_mono1 [OF end_row, of rb] by (simp add: t(9) add_mult_distrib)
  have "nat (tx_height t) * 1 \<le> nat (tx_height t) * rb" using rb by (intro mult_le_mono) simp_all
  then have h: "nat (tx_height t) \<le> length d" by (simp only: t(9) mult_1_right)
  have "nat (tx_width t) * 1 \<le> nat (tx_width t) * nat (tx_n t)" using n by (intro mult_le_mono) simp_all
  then have w: "nat (tx_width t) \<le> rb" by (simp only: rb_def mult_1_right)
  have "1 * rb \<le> nat (tx_height t) * rb" using t(6) by (intro mult_le_mono) simp_all
  then have "rb \<le> length d" by (simp only: t(9) mult_1)
  have "nat (upload_row t) * nat (tx_width t) \<le> nat (upload_row t) * rb" using w by simp
  have "nat (tx_n t) \<le> 4"
    unfolding t(7) [symmetric] by (simp add: components_def split: gl_format.split)
  have sizes: "size_of_int (upload_row t) = nat (upload_row t)" "size_of_int (tx_width t) = nat (tx_width t)"
    "size_of_int (tx_n t) = nat (tx_n t)"
    using t(5,10-12) h w \<open>rb \<le> length d\<close> n \<open>nat (tx_n t) \<le> 4\<close>
    by (auto intro!: size_of_int_exact)
  have off: "size_mul (size_mul (size_of_int (upload_row t)) (size_of_int (tx_width t))) (size_of_int (tx_n t))
      = nat (upload_row t) * rb"
  proof -
    have "nat (upload_row t) * nat (tx_width t) < 2 ^ 64"
      using \<open>nat (upload_row t) * nat (tx_width t) \<le> nat (upload_row t) * rb\<close> fit t(10) by linarith
    moreover have "nat (upload_row t) * nat (tx_width t) * nat (tx_n t) < 2 ^ 64"
      using fit t(10) by (simp add: rb_def mult.assoc)
    ultimately show ?thesis by (simp add: sizes size_mul_exact rb_def mult.assoc)
  qed
  have read: "gl_reads al (image_format t) (tx_width t) rows (nat (upload_row t) * rb) d
      = Pixels (Some (take (nat rows * rb) (drop (nat (upload_row t) * rb) d)))"
    using rows_read_aligned [OF t(4,8) fit] by (simp add: gl_reads_def t(7) rb_def)
  have min: "(if per_call < tx_height t - upload_row t then per_call else tx_height t - upload_row t) = rows"
    by (simp add: rows_def)
  show ?thesis
    using t rows off read
    by (simp add: upload_rows_def no_data_def gl_do_def Let_def min)
qed

lemma upload_tiles:
  assumes "upload_ready al d t" and "0 < per_call"
    and "(int k - 1) * per_call < tx_height t - upload_row t" and "tx_height t - upload_row t \<le> int k * per_call"
  shows "\<exists>cs t'. upload_times al per_call k t = (replicate (k - 1) False @ [True], t') \<and> tx_gl t' = tx_gl t @ cs
    \<and> tiles (tx_width t) (upload_row t) cs
        = Some (tx_height t, drop (nat (upload_row t) * (nat (tx_width t) * nat (tx_n t))) d)
    \<and> tx_ready t' \<and> \<not> tx_uploading t' \<and> tx_data t' = None"
  using assms(1,3,4)
proof (induction k arbitrary: t)
  case 0
  then show ?case by (simp add: upload_ready_def)
next
  case (Suc k)
  let ?rb = "nat (tx_width t) * nat (tx_n t)" and ?rows = "min per_call (tx_height t - upload_row t)"
  have t: "0 \<le> upload_row t" "upload_row t < tx_height t" "length d = nat (tx_height t) * ?rb"
    using Suc.prems(1) by (simp_all add: upload_ready_def)
  let ?call = "Tex_sub_image 0 (upload_row t) (tx_width t) ?rows (image_format t)
    (Pixels (Some (take (nat ?rows * ?rb) (drop (nat (upload_row t) * ?rb) d))))"
  note slice = upload_slice [OF Suc.prems(1) assms(2)]
  have rows: "0 < ?rows" using assms(2) t(2) by simp
  show ?case
  proof (cases "upload_row t + ?rows = tx_height t")
    case True
    then have "tx_height t - upload_row t \<le> per_call" by simp
    with Suc.prems(2) have "int k * per_call < 1 * per_call" by simp
    then have k: "k = 0" using assms(2) by (simp only: mult_less_cancel_right) auto
    have "nat ?rows * ?rb = length d - nat (upload_row t) * ?rb"
      using True t by (simp add: nat_diff_distrib diff_mult_distrib)
    then have "take (nat ?rows * ?rb) (drop (nat (upload_row t) * ?rb) d) = drop (nat (upload_row t) * ?rb) d" by simp
    with True slice k rows show ?thesis
      by (intro exI [of _ "[?call]"]) (simp add: Let_def)
  next
    case False
    then have rows_eq: "?rows = per_call" and more: "per_call < tx_height t - upload_row t" by simp_all
    let ?t1 = "t\<lparr>tx_gl := tx_gl t @ [?call], upload_row := upload_row t + ?rows\<rparr>"
    have step: "upload_rows al per_call t = (False, ?t1)" using slice False by (simp add: Let_def)
    have ready: "upload_ready al d ?t1"
      using Suc.prems(1) more assms(2) by (simp add: upload_ready_def)
    have count: "(int k - 1) * per_call < tx_height ?t1 - upload_row ?t1"
      "tx_height ?t1 - upload_row ?t1 \<le> int k * per_call"
      using Suc.prems(2,3) rows_eq by (simp_all add: algebra_simps)
    from Suc.IH [OF ready count] obtain cs t' where IH:
      "upload_times al per_call k ?t1 = (replicate (k - 1) False @ [True], t')" "tx_gl t' = tx_gl ?t1 @ cs"
      "tiles (tx_width t) (upload_row t + ?rows) cs = Some (tx_height t, drop (nat (upload_row t + ?rows) * ?rb) d)"
      "tx_ready t'" "\<not> tx_uploading t'" "tx_data t' = None" by auto
    have k: "0 < k" using count(2) more rows_eq by (cases k) simp_all
    have "take (nat ?rows * ?rb) (drop (nat (upload_row t) * ?rb) d) @ drop (nat (upload_row t + ?rows) * ?rb) d
        = drop (nat (upload_row t) * ?rb) d"
    proof -
      have "nat (upload_row t + ?rows) * ?rb = nat ?rows * ?rb + nat (upload_row t) * ?rb"
        using t(1) rows by (simp add: nat_add_distrib add_mult_distrib)
      then have "drop (nat (upload_row t + ?rows) * ?rb) d = drop (nat ?rows * ?rb) (drop (nat (upload_row t) * ?rb) d)"
        by (simp only: drop_drop)
      then show ?thesis by (simp only: append_take_drop_id)
    qed
    with IH step k rows show ?thesis
      by (intro exI [of _ "?call # cs"]) (cases k; simp)
  qed
qed

text \<open>C26: an upload in slices transfers the image. A texture filled with the pixels of an image and whose upload was begun
  is complete after exactly as many calls as slices are needed, the last of which alone says so; the calls gave the
  graphics library every row once, from the first to the last, with exactly the bytes of the image and none
  from outside the buffer; then the texture is ready and the buffer is gone. The rows must start at multiples of
  the unpack alignment.
\<close>

theorem upload_transfers_image:
  assumes "n = 3 \<or> n = 4" and "0 < w" and "0 < h" and "length d = nat h * (nat w * nat n)" and "length d < 2 ^ 64"
    and "0 < al" and "al dvd nat w * nat n" and "0 < per_call"
    and "(int k - 1) * per_call < h" and "h \<le> int k * per_call"
    and "t = begin_upload (load_from_pixels w h n (Some d) (length d) True t0)"
  shows "\<exists>cs t'. upload_times al per_call k t = (replicate (k - 1) False @ [True], t') \<and> tx_gl t' = tx_gl t @ cs
    \<and> tiles w 0 cs = Some (h, d) \<and> tx_ready t' \<and> tx_data t' = None"
proof -
  have "0 < length d" using assms(1-3) unfolding assms(4) by (intro mult_pos_pos) auto
  then have t: "upload_ready al d t" "upload_row t = 0" "tx_height t = h" "tx_width t = w"
    using assms(1-7) unfolding assms(11)
    by (auto simp: upload_ready_def begin_upload_def load_from_pixels_def set_format_def no_data_def gl_do_def components_def)
  from upload_tiles [OF t(1) assms(8), of k] assms(9,10) t show ?thesis by auto
qed

lemma upload_transfers_image_witness:
  "\<exists>cs t'. upload_times 4 2 2 (begin_upload (load_from_pixels 1 3 4 (Some (replicate 12 7)) 12 True new_texture)) = ([False, True], t')
     \<and> tiles 1 0 cs = Some (3, replicate 12 7)"
proof -
  have "begin_upload (load_from_pixels 1 3 4 (Some (replicate 12 7)) 12 True new_texture)
      = begin_upload (load_from_pixels 1 3 4 (Some (replicate 12 7)) (length (replicate 12 (7 :: byte))) True new_texture)"
    by simp
  from upload_transfers_image [OF _ _ _ _ _ _ _ _ _ _ this, of 4 2 2] show ?thesis by auto
qed

section \<open>Updating a rectangle\<close>

text \<open>An update either leaves the texture as it was and throws, or stays inside the texture and the pixels given.\<close>

lemma sub_rect_checked:
  assumes "update_sub_rect al x y w h pixels byte_count t = (e, t')"
  shows "(e \<noteq> None \<longrightarrow> t' = t)
    \<and> (e = None \<longrightarrow> 0 \<le> x \<and> 0 \<le> y \<and> x + w \<le> tx_width t \<and> y + h \<le> tx_height t \<and> 0 < w \<and> 0 < h
        \<and> image_bytes w h (tx_n t) \<le> byte_count \<and> pixels \<noteq> None)"
  using assms by (auto simp: update_sub_rect_def ok_def throw_def split: if_splits)

end
