(* ===== verification/Resource_Properties.thy ===== *)
theory Resource_Properties
  imports Resource_Manager Texture_Properties
begin

text \<open>
  The asynchronous loading composed: what a job handler returns passes the checks of the manager and ends as the
  texture asked for; uploads of different textures all end, each with one report; and an entry whose texture was
  loaded again meanwhile never ends and holds up those behind it.
\<close>

section \<open>Uploads of different textures\<close>

definition entry_ready :: "nat \<Rightarrow> resources \<Rightarrow> pending_upload \<Rightarrow> bool" where
  "entry_ready al s u \<longleftrightarrow> (\<exists>d. upload_ready al d (texture_at s (pu_name u)))"

definition rows_left :: "resources \<Rightarrow> pending_upload \<Rightarrow> nat" where
  "rows_left s u = nat (tx_height (texture_at s (pu_name u)) - upload_row (texture_at s (pu_name u)))"

definition report_of :: "pending_upload \<Rightarrow> resource_event list" where
  "report_of u = (case pu_callback u of None \<Rightarrow> [] | Some k \<Rightarrow> [Ready k (pu_name u)])"

lemma texture_at_put [simp]: "texture_at (put_texture n t s) m = (if m = n then t else texture_at s m)"
  by (simp add: texture_at_def put_texture_def)

lemma put_texture_fields [simp]:
  "rs_log (put_texture n t s) = rs_log s" "pending_texture_uploads (put_texture n t s) = pending_texture_uploads s"
  by (simp_all add: put_texture_def)

lemma report_ready_fields [simp]:
  "texture_at (report_ready cb n s) m = texture_at s m"
  "pending_texture_uploads (report_ready cb n s) = pending_texture_uploads s"
  "rs_log (report_ready cb n s) = rs_log s @ report_of \<lparr>pu_name = n, pu_callback = cb\<rparr>"
  by (simp_all add: report_ready_def log_rs_def texture_at_def report_of_def split: option.split)

lemma texture_at_uploads [simp]: "texture_at (s\<lparr>pending_texture_uploads := us\<rparr>) n = texture_at s n"
  by (simp add: texture_at_def)

lemma pending_upload_eta [simp]: "\<lparr>pu_name = pu_name u, pu_callback = pu_callback u\<rparr> = u"
  by simp

lemma upload_advances:
  assumes "upload_ready al d t" and "upload_rows al upload_rows_per_texture t = (finished, t')"
  shows "finished \<Longrightarrow> tx_ready t'"
    and "\<not> finished \<Longrightarrow> upload_ready al d t' \<and> nat (tx_height t' - upload_row t') < nat (tx_height t - upload_row t)"
proof -
  have pos: "0 < upload_rows_per_texture" by (simp add: upload_rows_per_texture_def)
  have t: "0 \<le> upload_row t" "upload_row t < tx_height t" using assms(1) by (simp_all add: upload_ready_def)
  note slice = upload_slice [OF assms(1) pos]
  show "finished \<Longrightarrow> tx_ready t'"
    using slice assms(2) by (auto simp: Let_def split: if_splits)
  show "\<not> finished \<Longrightarrow> upload_ready al d t' \<and> nat (tx_height t' - upload_row t') < nat (tx_height t - upload_row t)"
    using slice assms t pos by (auto simp: Let_def upload_ready_def min_def split: if_splits)
qed

lemma texture_uploads_progress:
  assumes "distinct (map pu_name us)" and "\<forall>u\<in>set us. entry_ready al s u"
    and "texture_uploads al b us s = ((rest, k), s')"
  shows "\<exists>finished. mset us = mset finished + mset rest \<and> rs_log s' = rs_log s @ concat (map report_of finished)
    \<and> (\<forall>u\<in>set finished. tx_ready (texture_at s' (pu_name u))) \<and> (\<forall>u\<in>set rest. entry_ready al s' u)
    \<and> (\<forall>n. n \<notin> pu_name ` set us \<longrightarrow> texture_at s' n = texture_at s n)
    \<and> sum_list (map (rows_left s') rest) + (if us \<noteq> [] \<and> 0 < b then 1 else 0) \<le> sum_list (map (rows_left s) us)
    \<and> pending_texture_uploads s' = pending_texture_uploads s"
  using assms
proof (induction al b us s arbitrary: rest k s' rule: texture_uploads.induct)
  case (3 al b u us s)
  let ?t = "texture_at s (pu_name u)"
  obtain fin t' where up: "upload_rows al upload_rows_per_texture ?t = (fin, t')" by fastforce
  obtain d where ready: "upload_ready al d ?t" using "3.prems"(2) by (auto simp: entry_ready_def)
  note advance = upload_advances [OF ready up]
  define s2 where "s2 = (if fin then report_ready (pu_callback u) (pu_name u) (put_texture (pu_name u) t' s)
      else put_texture (pu_name u) t' s)"
  obtain rest2 k2 where rec: "texture_uploads al b us s2 = ((rest2, k2), s')"
    and rest: "rest = (if fin then rest2 else u # rest2)"
    using "3.prems"(3) up by (auto simp: Let_def s2_def split: prod.splits)
  have at: "texture_at s2 n = (if n = pu_name u then t' else texture_at s n)" for n
    by (simp add: s2_def)
  have other: "texture_at s2 (pu_name v) = texture_at s (pu_name v)" if "v \<in> set us" for v
  proof -
    have "pu_name v \<in> pu_name ` set us" using that by (rule imageI)
    moreover have "pu_name u \<notin> pu_name ` set us" using "3.prems"(1) by simp
    ultimately have "pu_name v \<noteq> pu_name u" by metis
    then show ?thesis by (simp add: at)
  qed
  then have same: "map (rows_left s2) us = map (rows_left s) us"
    by (simp add: rows_left_def)
  have still: "\<forall>v\<in>set us. entry_ready al s2 v"
    using "3.prems"(2) other by (simp add: entry_ready_def)
  have dist: "distinct (map pu_name us)" using "3.prems"(1) by simp
  from "3.IH" [OF up [symmetric] refl s2_def dist still rec] obtain finished where IH:
    "mset us = mset finished + mset rest2" "rs_log s' = rs_log s2 @ concat (map report_of finished)"
    "\<forall>u\<in>set finished. tx_ready (texture_at s' (pu_name u))" "\<forall>u\<in>set rest2. entry_ready al s' u"
    "\<forall>n. n \<notin> pu_name ` set us \<longrightarrow> texture_at s' n = texture_at s2 n"
    "sum_list (map (rows_left s') rest2) + (if us \<noteq> [] \<and> 0 < b then 1 else 0) \<le> sum_list (map (rows_left s2) us)"
    "pending_texture_uploads s' = pending_texture_uploads s2"
    by (elim exE conjE) (rule that)
  have sum: "sum_list (map (rows_left s') rest2) \<le> sum_list (map (rows_left s) us)"
    using IH(6) by (simp add: same)
  have mine: "texture_at s' (pu_name u) = t'" using IH(5) "3.prems"(1) by (simp add: at)
  have uploads: "pending_texture_uploads s' = pending_texture_uploads s" using IH(7) by (simp add: s2_def)
  have untouched: "\<forall>n. n \<notin> pu_name ` set (u # us) \<longrightarrow> texture_at s' n = texture_at s n"
    using IH(5) by (simp add: at)
  have left: "0 < rows_left s u" using ready by (simp add: rows_left_def upload_ready_def)
  show ?case
  proof (cases fin)
    case True
    have "rs_log s' = rs_log s @ concat (map report_of (u # finished))"
      using True IH(2) by (simp add: s2_def)
    moreover have "tx_ready (texture_at s' (pu_name u))" using advance(1) True mine by simp
    ultimately show ?thesis
      using True IH(1,3,4) sum rest uploads untouched left by (intro exI [of _ "u # finished"]) auto
  next
    case False
    have "entry_ready al s' u" using advance(2) False mine by (auto simp: entry_ready_def)
    moreover have "rows_left s' u < rows_left s u" using advance(2) False mine by (simp add: rows_left_def)
    ultimately show ?thesis
      using False IH(1,2,3,4) sum rest uploads untouched by (intro exI [of _ finished]) (auto simp: s2_def)
  qed
qed auto

fun upload_frames :: "nat \<Rightarrow> nat \<Rightarrow> resources \<Rightarrow> resources" where
  "upload_frames al 0 s = s"
| "upload_frames al (Suc k) s = upload_frames al k (snd (upload_textures al s))"

lemma upload_frame_progress:
  assumes "distinct (map pu_name (pending_texture_uploads s))" and "\<forall>u\<in>set (pending_texture_uploads s). entry_ready al s u"
    and "s' = snd (upload_textures al s)"
  shows "\<exists>finished. mset (pending_texture_uploads s) = mset finished + mset (pending_texture_uploads s')
    \<and> rs_log s' = rs_log s @ concat (map report_of finished)
    \<and> (\<forall>u\<in>set finished. tx_ready (texture_at s' (pu_name u)))
    \<and> (\<forall>u\<in>set (pending_texture_uploads s'). entry_ready al s' u)
    \<and> (\<forall>n. n \<notin> pu_name ` set (pending_texture_uploads s) \<longrightarrow> texture_at s' n = texture_at s n)
    \<and> sum_list (map (rows_left s') (pending_texture_uploads s')) + (if pending_texture_uploads s \<noteq> [] then 1 else 0)
        \<le> sum_list (map (rows_left s) (pending_texture_uploads s))"
proof -
  obtain rest k s1 where u: "texture_uploads al upload_texture_budget (pending_texture_uploads s) s = ((rest, k), s1)"
    by (metis prod.exhaust)
  have s': "s' = s1\<lparr>pending_texture_uploads := rest\<rparr>" using assms(3) u by (simp add: upload_textures_def)
  have "rows_left s' = rows_left s1" "entry_ready al s' = entry_ready al s1"
    by (simp_all add: s' rows_left_def entry_ready_def fun_eq_iff)
  with texture_uploads_progress [OF assms(1,2) u] show ?thesis
    unfolding s' by (elim exE conjE, intro exI conjI) (simp_all add: upload_texture_budget_def)
qed

lemma upload_frames_finish:
  assumes "distinct (map pu_name (pending_texture_uploads s))" and "\<forall>u\<in>set (pending_texture_uploads s). entry_ready al s u"
  shows "\<exists>k s' finished. k \<le> sum_list (map (rows_left s) (pending_texture_uploads s)) \<and> upload_frames al k s = s'
    \<and> pending_texture_uploads s' = [] \<and> mset finished = mset (pending_texture_uploads s)
    \<and> rs_log s' = rs_log s @ concat (map report_of finished)
    \<and> (\<forall>u\<in>set (pending_texture_uploads s). tx_ready (texture_at s' (pu_name u)))
    \<and> (\<forall>n. n \<notin> pu_name ` set (pending_texture_uploads s) \<longrightarrow> texture_at s' n = texture_at s n)"
  using assms
proof (induction "sum_list (map (rows_left s) (pending_texture_uploads s))" arbitrary: s rule: less_induct)
  case less
  show ?case
  proof (cases "pending_texture_uploads s = []")
    case True
    then show ?thesis by (intro exI [of _ 0]) simp
  next
    case False
    define s1 where "s1 = snd (upload_textures al s)"
    obtain finished where f: "mset (pending_texture_uploads s) = mset finished + mset (pending_texture_uploads s1)"
      "rs_log s1 = rs_log s @ concat (map report_of finished)"
      "\<forall>u\<in>set finished. tx_ready (texture_at s1 (pu_name u))"
      "\<forall>u\<in>set (pending_texture_uploads s1). entry_ready al s1 u"
      "\<forall>n. n \<notin> pu_name ` set (pending_texture_uploads s) \<longrightarrow> texture_at s1 n = texture_at s n"
      "sum_list (map (rows_left s1) (pending_texture_uploads s1)) + 1 \<le> sum_list (map (rows_left s) (pending_texture_uploads s))"
      using upload_frame_progress [OF less.prems s1_def] False by auto
    have names: "mset (map pu_name (pending_texture_uploads s))
        = mset (map pu_name finished @ map pu_name (pending_texture_uploads s1))"
      by (simp add: f(1))
    have "distinct (map pu_name finished @ map pu_name (pending_texture_uploads s1))"
      using less.prems(1) mset_eq_imp_distinct_iff [OF names] by simp
    then have dist: "distinct (map pu_name (pending_texture_uploads s1))"
      and apart: "pu_name ` set finished \<inter> pu_name ` set (pending_texture_uploads s1) = {}" by auto
    have set_s: "set (pending_texture_uploads s) = set finished \<union> set (pending_texture_uploads s1)"
      using f(1) by (metis set_mset_mset set_mset_union)
    obtain k s' finished' where IH: "k \<le> sum_list (map (rows_left s1) (pending_texture_uploads s1))"
      "upload_frames al k s1 = s'" "pending_texture_uploads s' = []" "mset finished' = mset (pending_texture_uploads s1)"
      "rs_log s' = rs_log s1 @ concat (map report_of finished')"
      "\<forall>u\<in>set (pending_texture_uploads s1). tx_ready (texture_at s' (pu_name u))"
      "\<forall>n. n \<notin> pu_name ` set (pending_texture_uploads s1) \<longrightarrow> texture_at s' n = texture_at s1 n"
      using less.hyps [OF _ dist f(4)] f(6) by auto
    have "tx_ready (texture_at s' (pu_name u))" if "u \<in> set finished" for u
    proof -
      have "pu_name u \<notin> pu_name ` set (pending_texture_uploads s1)" using apart that by blast
      with IH(7) f(3) that show ?thesis by simp
    qed
    with IH f set_s have "k + 1 \<le> sum_list (map (rows_left s) (pending_texture_uploads s))
      \<and> upload_frames al (k + 1) s = s'
      \<and> pending_texture_uploads s' = [] \<and> mset (finished @ finished') = mset (pending_texture_uploads s)
      \<and> rs_log s' = rs_log s @ concat (map report_of (finished @ finished'))
      \<and> (\<forall>u\<in>set (pending_texture_uploads s). tx_ready (texture_at s' (pu_name u)))
      \<and> (\<forall>n. n \<notin> pu_name ` set (pending_texture_uploads s) \<longrightarrow> texture_at s' n = texture_at s n)"
      by (auto simp: s1_def)
    then show ?thesis by blast
  qed
qed

text \<open>C27: the uploads end. When the pending uploads are of different textures, each with its image loaded and its upload
  begun, then after at most as many frames as there are rows the queue is empty, every one of these textures is ready,
  and each entry was reported exactly once, none twice and none for nothing.
\<close>

theorem uploads_finish:
  assumes "distinct (map pu_name (pending_texture_uploads s))"
    and "\<forall>u\<in>set (pending_texture_uploads s). \<exists>d. upload_ready al d (texture_at s (pu_name u))"
  shows "\<exists>k finished. k \<le> sum_list (map (rows_left s) (pending_texture_uploads s))
    \<and> pending_texture_uploads (upload_frames al k s) = [] \<and> mset finished = mset (pending_texture_uploads s)
    \<and> rs_log (upload_frames al k s) = rs_log s @ concat (map report_of finished)
    \<and> (\<forall>u\<in>set (pending_texture_uploads s). tx_ready (texture_at (upload_frames al k s) (pu_name u)))"
proof -
  have "\<forall>u\<in>set (pending_texture_uploads s). entry_ready al s u" using assms(2) by (simp add: entry_ready_def)
  from upload_frames_finish [OF assms(1) this] show ?thesis by blast
qed

definition empty_resources :: resources where
  "empty_resources = \<lparr>rs_textures = Map.empty, rs_cubemaps = Map.empty, rs_jobs = Some initial_jobs, rs_audio = None,
     rs_buffers = [], pending_textures = Map.empty, pending_texture_bytes = Map.empty, pending_texture_uploads = [],
     pending_cubemaps = Map.empty, pending_cubemap_uploads = [], pending_audio = Map.empty, rs_log = []\<rparr>"

definition one_upload :: resources where
  "one_upload = (put_texture ''a'' (begin_upload (load_from_pixels 1 3 4 (Some (replicate 12 7)) 12 True new_texture))
     empty_resources)\<lparr>pending_texture_uploads := [\<lparr>pu_name = ''a'', pu_callback = Some 5\<rparr>]\<rparr>"

lemma one_upload_texture: "texture_at one_upload ''a''
    = begin_upload (load_from_pixels 1 3 4 (Some (replicate 12 7)) 12 True new_texture)"
  by (simp add: one_upload_def)

lemma uploads_finish_witness:
  "\<exists>k. pending_texture_uploads (upload_frames 4 k one_upload) = [] \<and> rs_log (upload_frames 4 k one_upload) = [Ready 5 ''a'']"
proof -
  have uploads: "pending_texture_uploads one_upload = [\<lparr>pu_name = ''a'', pu_callback = Some 5\<rparr>]" "rs_log one_upload = []"
    by (simp_all add: one_upload_def empty_resources_def put_texture_def)
  have "\<exists>d. upload_ready 4 d (texture_at one_upload ''a'')"
    by (auto simp: one_upload_texture upload_ready_def begin_upload_def load_from_pixels_def set_format_def no_data_def
        gl_do_def components_def)
  with uploads_finish [of one_upload 4] uploads show ?thesis
    by (auto simp: report_of_def)
qed

section \<open>Stale entries\<close>

text \<open>A slice of a texture whose upload is not in progress does nothing and never reports completion.\<close>

lemma stale_slice: "\<not> tx_uploading t \<Longrightarrow> upload_rows al per_call t = (False, t)"
  by (simp add: upload_rows_def)

lemma stale_frame:
  assumes "pending_texture_uploads s = u # v # us"
    and "\<not> tx_uploading (texture_at s (pu_name u))" and "\<not> tx_uploading (texture_at s (pu_name v))"
    and "s' = snd (upload_textures al s)"
  shows "pending_texture_uploads s' = u # v # us" and "rs_log s' = rs_log s" and "texture_at s' n = texture_at s n"
proof -
  have "upload_textures al s = (2, (put_texture (pu_name v) (texture_at s (pu_name v))
      (put_texture (pu_name u) (texture_at s (pu_name u)) s))\<lparr>pending_texture_uploads := u # v # us\<rparr>)"
    using assms(1-3) by (simp add: upload_textures_def upload_texture_budget_def numeral_2_eq_2 stale_slice)
  then show "pending_texture_uploads s' = u # v # us" "rs_log s' = rs_log s" "texture_at s' n = texture_at s n"
    by (simp_all add: assms(4))
qed

text \<open>Stale entries hold up the others. If the first two pending uploads are of textures whose upload is not in
  progress (a texture loaded again, from a file or by a second request, before its upload ended), then in every later
  frame of the upload loop they are still the first two, no entry behind them advances, and nothing is reported.
\<close>

theorem stale_uploads_block:
  assumes "pending_texture_uploads s = u # v # us"
    and "\<not> tx_uploading (texture_at s (pu_name u))" and "\<not> tx_uploading (texture_at s (pu_name v))"
  shows "pending_texture_uploads (upload_frames al k s) = u # v # us \<and> rs_log (upload_frames al k s) = rs_log s
    \<and> texture_at (upload_frames al k s) n = texture_at s n"
  using assms
proof (induction k arbitrary: s)
  case (Suc k)
  let ?s = "snd (upload_textures al s)"
  note frame = stale_frame [OF Suc.prems refl, of al]
  have "pending_texture_uploads (upload_frames al k ?s) = u # v # us \<and> rs_log (upload_frames al k ?s) = rs_log ?s
    \<and> texture_at (upload_frames al k ?s) n = texture_at ?s n"
    using frame Suc.prems(2,3) by (intro Suc.IH) simp_all
  with frame show ?case by simp
qed simp

text \<open>Two requests for one texture end so: the first entry completes the upload, the second can only wait.\<close>

definition requested_twice :: resources where
  "requested_twice = one_upload\<lparr>pending_texture_uploads := replicate 3 \<lparr>pu_name = ''a'', pu_callback = Some 5\<rparr>\<rparr>"

lemma requested_twice_goes_stale:
  "pending_texture_uploads (upload_frames 4 1 requested_twice) = replicate 2 \<lparr>pu_name = ''a'', pu_callback = Some 5\<rparr>
   \<and> \<not> tx_uploading (texture_at (upload_frames 4 1 requested_twice) ''a'')"
proof -
  have "upload_ready 4 (replicate 12 7) (texture_at one_upload ''a'')"
    by (auto simp: one_upload_texture upload_ready_def begin_upload_def load_from_pixels_def set_format_def no_data_def
        gl_do_def components_def)
  from upload_slice [OF this, of upload_rows_per_texture]
  obtain t' where t': "upload_rows 4 upload_rows_per_texture (texture_at one_upload ''a'') = (True, t')" "\<not> tx_uploading t'"
    by (auto simp: upload_rows_per_texture_def one_upload_texture begin_upload_def load_from_pixels_def set_format_def
        no_data_def gl_do_def Let_def)
  then show ?thesis
    by (simp add: requested_twice_def upload_textures_def upload_texture_budget_def numeral_2_eq_2 numeral_3_eq_3 stale_slice)
qed

lemma stale_uploads_block_witness:
  "rs_log (upload_frames 4 9 (upload_frames 4 1 requested_twice)) = rs_log (upload_frames 4 1 requested_twice)"
  using stale_uploads_block [of "upload_frames 4 1 requested_twice" "\<lparr>pu_name = ''a'', pu_callback = Some 5\<rparr>"
      "\<lparr>pu_name = ''a'', pu_callback = Some 5\<rparr>" "[]" 4 9 "''a''"] requested_twice_goes_stale
  by (simp add: numeral_2_eq_2)

section \<open>From the file to the texture\<close>

definition good_image :: "nat \<Rightarrow> image \<Rightarrow> bool" where
  "good_image al im \<longleftrightarrow> 0 < im_width im \<and> 0 < im_height im \<and> (im_channels im = 3 \<or> im_channels im = 4)
     \<and> length (im_pixels im) = nat (im_height im) * (nat (im_width im) * nat (im_channels im))
     \<and> length (im_pixels im) < 2 ^ 63 \<and> 0 < al \<and> al dvd nat (im_width im) * nat (im_channels im)"

lemma le_mult_right: "1 \<le> b \<Longrightarrow> a \<le> a * (b :: nat)"
  by (cases b) simp_all

lemma le_mult_left: "1 \<le> b \<Longrightarrow> a \<le> (b :: nat) * a"
  by (cases b) simp_all

lemma image_bytes_exact:
  assumes "good_image al im"
  shows "image_bytes (im_width im) (im_height im) (im_channels im) = length (im_pixels im)"
proof -
  let ?w = "nat (im_width im)" and ?h = "nat (im_height im)" and ?n = "nat (im_channels im)"
  have pos: "1 \<le> ?w" "1 \<le> ?h" "1 \<le> ?n" and n: "im_channels im < 2 ^ 64" and len: "?h * (?w * ?n) < 2 ^ 63"
    using assms by (auto simp: good_image_def)
  have "?w \<le> ?w * ?n" "?w * ?n \<le> ?h * (?w * ?n)" "?h \<le> ?h * (?w * ?n)"
    using pos by (auto intro: le_mult_right le_mult_left simp: le_mult_right)
  then have w: "?w < 2 ^ 63" "?w * ?n < 2 ^ 63" and h: "?h < 2 ^ 63" using len by linarith+
  have "?h * ?w \<le> ?h * ?w * ?n" using pos(3) by (rule le_mult_right)
  then have "?h * ?w < 2 ^ 63" using len by (simp only: mult.assoc)
  then have wh: "?w * ?h < 2 ^ 64" by (simp add: mult.commute)
  have sizes: "size_of_int (im_width im) = ?w" "size_of_int (im_height im) = ?h" "size_of_int (im_channels im) = ?n"
    using w h n assms by (auto simp: good_image_def intro!: size_of_int_exact)
  have "?w * ?h * ?n < 2 ^ 64" using len by (simp add: ac_simps)
  with wh show ?thesis
    using assms by (simp add: image_bytes_def sizes size_mul_exact good_image_def ac_simps)
qed

lemma flip_length [simp]: "length (flip_vertical_buffer d w h c) = length d"
  by (simp add: flip_vertical_buffer_def)

lemma gl_reads_image:
  assumes "good_image al im" and "length d = length (im_pixels im)"
    and "components f = nat (im_channels im)"
  shows "gl_reads al f (im_width im) (im_height im) 0 d = Pixels (Some d)"
  using assms rows_read_aligned [of al "nat (im_width im) * nat (im_channels im)" 0 "nat (im_height im)" d]
  by (simp add: gl_reads_def good_image_def)

text \<open>A texture asked for becomes the texture shown. When the file decodes to an image, the job the manager submits
  for it returns a result that passes the manager's checks; applying it uploads the image flipped upside down,
  each byte from the buffer, marks the texture ready, forgets the request and reports it once.
\<close>

theorem loaded_texture_shown:
  assumes "load_image_file D (q_payload r) = Some im" and "good_image al im" and "\<forall>d. heap (place D d) = d"
    and "pending_textures s (q_id r) = Some p"
    and "apply_texture_result al heap (run_job (Some (load_texture_job D)) r) s = (k, s')"
  shows "k = 1 \<and> tx_ready (texture_at s' (pl_name p)) \<and> pending_textures s' = (pending_textures s)(q_id r := None)
    \<and> (\<exists>f. components f = nat (im_channels im) \<and> tx_gl (texture_at s' (pl_name p)) = tx_gl (texture_at s (pl_name p))
        @ [Tex_image Texture_2d f (im_width im) (im_height im)
             (Pixels (Some (flip_vertical (im_pixels im) (im_width im) (im_height im) (im_channels im)))), Tex_parameters])
    \<and> rs_log s' = rs_log s @ (case pl_callback p of None \<Rightarrow> [] | Some c \<Rightarrow> [Ready c (pl_name p)])"
proof -
  let ?d = "flip_vertical_buffer (im_pixels im) (im_width im) (im_height im) (im_channels im)"
  let ?res = "run_job (Some (load_texture_job D)) r"
  have len: "length (im_pixels im) < 2 ^ 64" using assms(2) by (simp add: good_image_def)
  have pos: "0 < im_width im" "0 < im_height im" "0 < im_channels im" using assms(2) by (auto simp: good_image_def)
  have "length (im_pixels im) = nat (im_height im) * (nat (im_width im) * nat (im_channels im))"
    using assms(2) by (simp add: good_image_def)
  with pos have nonempty: "0 < length (im_pixels im)" by (auto intro!: mult_pos_pos)
  have res: "r_id ?res = q_id r" "r_ok ?res" "r_aux_a ?res = im_width im" "r_aux_b ?res = im_height im"
    "r_aux_c ?res = im_channels im" "np_data (r_payload ?res) = Some (place D ?d)"
    "np_size_bytes (r_payload ?res) = length (im_pixels im)"
    using assms(1) len
    by (simp_all add: run_job_def load_texture_job_def decode_image_file_def good_job_def plain_result_def repoint_def
        from_array_def from_owned_def no_payload_def Let_def image_bytes_exact [OF assms(2)])
  have valid: "\<not> pixels_invalid ?res" "dims_bytes ?res = length (im_pixels im)"
    using pos by (simp_all add: pixels_invalid_def dims_bytes_def res image_bytes_exact [OF assms(2)])
  define s1 where "s1 = s\<lparr>pending_textures := (pending_textures s)(q_id r := None)\<rparr>"
  define t0 where "t0 = load_from_pixels (im_width im) (im_height im) (im_channels im) (Some ?d) (length (im_pixels im)) True
    (texture_at s1 (pl_name p))"
  have s': "(k, s') = (1, report_ready (pl_callback p) (pl_name p) (put_texture (pl_name p) (generate al t0) s1))"
    using assms(4,5) by (simp add: apply_texture_result_def res valid payload_bytes_def assms(3) Let_def s1_def t0_def)
  have t0: "\<not> no_data t0" "tx_width t0 = im_width im" "tx_height t0 = im_height im" "tx_data t0 = Some ?d"
    "components (image_format t0) = nat (im_channels im)" "tx_gl t0 = tx_gl (texture_at s (pl_name p))"
    using nonempty assms(2)
    by (auto simp: t0_def load_from_pixels_def set_format_def no_data_def components_def good_image_def texture_at_def s1_def)
  have "gl_reads al (image_format t0) (im_width im) (im_height im) 0 ?d = Pixels (Some ?d)"
    using assms(2) t0(5) by (intro gl_reads_image) simp_all
  then have gen: "tx_ready (generate al t0)"
    "tx_gl (generate al t0) = tx_gl (texture_at s (pl_name p))
       @ [Tex_image Texture_2d (image_format t0) (im_width im) (im_height im) (Pixels (Some ?d)), Tex_parameters]"
    using t0 by (simp_all add: generate_def gl_do_def)
  have flip: "?d = flip_vertical (im_pixels im) (im_width im) (im_height im) (im_channels im)"
    by (simp add: flip_vertical_buffer_def flip_vertical_def)
  have pend: "pending_textures (report_ready cb n (put_texture n t s1)) = pending_textures s1" for cb n t
    by (simp add: report_ready_def log_rs_def put_texture_def split: option.split)
  have "rs_log s1 = rs_log s" by (simp add: s1_def)
  with s' gen t0(5) flip pend show ?thesis
    by (auto simp: report_of_def s1_def split: option.split)
qed

definition sample_image :: image where
  "sample_image = \<lparr>im_pixels = [1, 2, 3, 4, 5, 6, 7, 8], im_width = 1, im_height = 2, im_channels = 4\<rparr>"

text \<open>Addresses for the witness: the bytes as the digits of a number, after a leading 1.\<close>

fun place_bytes :: "byte list \<Rightarrow> nat" where
  "place_bytes [] = 1"
| "place_bytes (b # bs) = 256 * place_bytes bs + unat b"

function bytes_at :: "nat \<Rightarrow> byte list" where
  "bytes_at a = (if a < 256 then [] else word_of_nat (a mod 256) # bytes_at (a div 256))"
  by pat_completeness auto
termination by (relation "measure (\<lambda>a. a)") auto

declare bytes_at.simps [simp del]

lemma place_bytes_pos: "0 < place_bytes bs"
  by (induction bs) simp_all

lemma bytes_at_place: "bytes_at (place_bytes bs) = bs"
proof (induction bs)
  case (Cons b bs)
  have b: "unat b < 256" using unsigned_less [of b] by simp
  have "256 \<le> place_bytes (b # bs)" using place_bytes_pos [of bs] by simp
  moreover have "place_bytes (b # bs) mod 256 = unat b" "place_bytes (b # bs) div 256 = place_bytes bs"
    using b by simp_all
  ultimately show ?case using Cons by (subst bytes_at.simps) simp
qed (subst bytes_at.simps, simp)

definition sample_decoders :: decoders where
  "sample_decoders = \<lparr>load_image_file = (\<lambda>f. Some sample_image), load_image_memory = (\<lambda>d. Inr sample_image),
     load_wav_file = (\<lambda>f. None), place = place_bytes\<rparr>"

definition sample_request :: job_request where
  "sample_request = \<lparr>q_id = 9, q_kind = ''load_texture'', q_payload = ''a.png'', q_owner = Engine_owner\<rparr>"

definition awaiting :: resources where
  "awaiting = empty_resources\<lparr>pending_textures := [9 \<mapsto> \<lparr>pl_name = ''a'', pl_files = [''a.png''], pl_callback = Some 5\<rparr>]\<rparr>"

lemma loaded_texture_shown_witness:
  "\<exists>k s'. apply_texture_result 4 bytes_at (run_job (Some (load_texture_job sample_decoders)) sample_request) awaiting = (k, s')
     \<and> tx_ready (texture_at s' ''a'') \<and> rs_log s' = [Ready 5 ''a'']"
proof -
  obtain k s' where a: "apply_texture_result 4 bytes_at (run_job (Some (load_texture_job sample_decoders)) sample_request) awaiting
      = (k, s')" by fastforce
  have "good_image 4 sample_image" by (simp add: good_image_def sample_image_def)
  from loaded_texture_shown [OF _ this _ _ a, of "\<lparr>pl_name = ''a'', pl_files = [''a.png''], pl_callback = Some 5\<rparr>"] a
  show ?thesis
    by (simp add: sample_decoders_def bytes_at_place awaiting_def sample_request_def empty_resources_def)
qed

section \<open>Cube maps\<close>

text \<open>A cube map that loads is the faces' bytes one after the other, as many as the result says.\<close>

lemma cubemap_faces_joined:
  assumes "load_cubemap_faces D dims combined fs = Inr (dims', data)"
  shows "\<exists>ims. map (load_image_file D) fs = map Some ims \<and> (fs \<noteq> [] \<longrightarrow> dims' \<noteq> None)
    \<and> (\<forall>im\<in>set ims. dims' = Some (im_width im, im_height im, im_channels im))
    \<and> (dims \<noteq> None \<longrightarrow> dims' = dims)
    \<and> data = (if dims = None \<and> fs \<noteq> [] then [] else combined)
        @ concat (map (\<lambda>im. take (image_bytes (im_width im) (im_height im) (im_channels im)) (im_pixels im)) ims)"
  using assms
proof (induction fs arbitrary: dims combined)
  case (Cons f fs)
  obtain im where im: "load_image_file D f = Some im"
    using Cons.prems by (cases "load_image_file D f") (auto simp: decode_image_file_def no_image_def no_payload_def)
  define size where "size = image_bytes (im_width im) (im_height im) (im_channels im)"
  let ?mine = "Some (im_width im, im_height im, im_channels im)"
  have rec: "(dims = None \<or> dims = ?mine) \<and> load_cubemap_faces D ?mine
      ((if dims = None then [] else combined) @ take size (im_pixels im)) fs = Inr (dims', data)"
    using Cons.prems im
    by (auto simp: decode_image_file_def from_array_def from_owned_def no_payload_def size_def split: option.splits if_splits)
  with Cons.IH [of ?mine "(if dims = None then [] else combined) @ take size (im_pixels im)"] obtain ims where
    "map (load_image_file D) fs = map Some ims" "\<forall>i\<in>set ims. dims' = Some (im_width i, im_height i, im_channels i)"
    "dims' = ?mine"
    "data = ((if dims = None then [] else combined) @ take size (im_pixels im))
        @ concat (map (\<lambda>im. take (image_bytes (im_width im) (im_height im) (im_channels im)) (im_pixels im)) ims)"
    by auto
  with rec im show ?case
    by (intro exI [of _ "im # ims"]) (auto simp: size_def)
qed auto

end
