(* ===== verification/Shader_Includes.thy ===== *)
theory Shader_Includes
  imports Resource_Manager "HOL-Library.Sublist"
begin

text \<open>
  The include preprocessor of \<open>src/src/resource_manager.cpp\<close>, and the loading of a shader from its files. The files
  are a list of the paths that exist, each with its contents or none if it cannot be opened; how the system makes a
  path canonical is a parameter. Paths are POSIX paths. Every step of the recursion pushes a path that
  exists and is not on the stack, of which there are finitely many: the recursion ends.
\<close>

section \<open>Lines\<close>

definition is_blank :: "char \<Rightarrow> bool" where
  "is_blank c \<longleftrightarrow> of_char c \<in> {32, 9, 10, 13 :: nat}"

text \<open>From the first character that is not blank to the last.\<close>

definition trim_line :: "string \<Rightarrow> string" where
  "trim_line val = rev (dropWhile is_blank (rev (dropWhile is_blank val)))"

definition quote_char :: char where "quote_char = CHR 0x22"

definition is_opening :: "char \<Rightarrow> bool" where
  "is_opening c \<longleftrightarrow> c = quote_char \<or> c = CHR ''>'' \<or> c = CHR ''<''"

definition parse_include_target :: "string \<Rightarrow> string result" where
  "parse_include_target line =
    (case dropWhile (\<lambda>c. \<not> is_opening c) line of
       [] \<Rightarrow> Inl (Runtime_error ''Malformed #include directive: missing opening quote'')
     | opening # rest \<Rightarrow>
         let closing = (if opening = CHR ''<'' then CHR ''>'' else quote_char);
             target = takeWhile (\<lambda>c. c \<noteq> closing) rest
         in if target = rest \<or> target = [] then Inl (Runtime_error ''Malformed #include directive: missing closing quote'')
            else Inr target)"

definition is_include :: "string \<Rightarrow> bool" where
  "is_include line \<longleftrightarrow> prefix ''#include'' (trim_line line)"

section \<open>Paths\<close>

definition is_absolute :: "string \<Rightarrow> bool" where
  "is_absolute p \<longleftrightarrow> prefix ''/'' p"

text \<open>The path without its last component, and the joining of two paths.\<close>

definition parent_path :: "string \<Rightarrow> string" where
  "parent_path p =
    (let q = rev (dropWhile (\<lambda>c. c \<noteq> CHR ''/'') (rev p));
         r = rev (dropWhile (\<lambda>c. c = CHR ''/'') (rev q))
     in if r = [] \<and> q \<noteq> [] then ''/'' else r)"

definition join_path :: "string \<Rightarrow> string \<Rightarrow> string" where
  "join_path a b = (if a = [] then b else if last a = CHR ''/'' then a @ b else a @ ''/'' @ b)"

definition include_path :: "string \<Rightarrow> string \<Rightarrow> string" where
  "include_path resolved target =
    (if is_absolute target then target else join_path (parent_path resolved) target)"

text \<open>A path as a stream prints it: in quotes, with quotes and backslashes escaped.\<close>

definition quoted_path :: "string \<Rightarrow> string" where
  "quoted_path p = quote_char # concat (map (\<lambda>c. if c = quote_char \<or> c = CHR 0x5C then [CHR 0x5C, c] else [c]) p)
     @ [quote_char]"

record shader_files =
  canonicalize :: "string \<Rightarrow> string"
  file_table :: "(string \<times> string option) list"

definition file_exists :: "shader_files \<Rightarrow> string \<Rightarrow> bool" where
  "file_exists F p \<longleftrightarrow> p \<in> fst ` set (file_table F)"

definition open_file :: "shader_files \<Rightarrow> string \<Rightarrow> string option" where
  "open_file F p = (case map_of (file_table F) p of Some (Some c) \<Rightarrow> Some c | _ \<Rightarrow> None)"

definition missing_file :: "string \<Rightarrow> exn" where
  "missing_file p = Runtime_error (''Shader file not found: '' @ p)"

definition circular_include :: "string \<Rightarrow> exn" where
  "circular_include p = Runtime_error (''Circular shader include detected at '' @ quoted_path p)"

definition unreadable_file :: "string \<Rightarrow> exn" where
  "unreadable_file p = Runtime_error (''Unable to open shader file: '' @ p)"

section \<open>The preprocessor\<close>

text \<open>The files that are not being read: what the recursion uses up.\<close>

definition unread_files :: "shader_files \<Rightarrow> string list \<Rightarrow> nat" where
  "unread_files F stack = card (fst ` set (file_table F) - set stack)"

lemma unread_files_push:
  assumes "file_exists F p" and "p \<notin> set stack"
  shows "unread_files F (p # stack) < unread_files F stack"
proof -
  have "fst ` set (file_table F) - set (p # stack) \<subset> fst ` set (file_table F) - set stack"
    using assms by (auto simp: file_exists_def)
  then show ?thesis unfolding unread_files_def by (rule psubset_card_mono [rotated]) simp
qed

text \<open>The function, and its loop over the lines of a file; the stack is the list of the files being read.\<close>

function preprocess_shader_file :: "shader_files \<Rightarrow> string list \<Rightarrow> string \<Rightarrow> string result"
  and preprocess_lines :: "shader_files \<Rightarrow> string list \<Rightarrow> string \<Rightarrow> string list \<Rightarrow> string result" where
  "preprocess_shader_file F stack path =
    (let resolved = canonicalize F path in
     if \<not> file_exists F resolved then Inl (missing_file resolved)
     else if resolved \<in> set stack then Inl (circular_include resolved)
     else case open_file F resolved of
         None \<Rightarrow> Inl (unreadable_file resolved)
       | Some contents \<Rightarrow> preprocess_lines F (resolved # stack) resolved (lines_of [] contents))"
| "preprocess_lines F stack resolved [] = Inr []"
| "preprocess_lines F stack resolved (line # ls) =
    (if is_include line then
       (case parse_include_target (trim_line line) of
          Inl e \<Rightarrow> Inl e
        | Inr target \<Rightarrow>
            (case preprocess_shader_file F stack (include_path resolved target) of
               Inl e \<Rightarrow> Inl e
             | Inr included \<Rightarrow> bind_result (preprocess_lines F stack resolved ls) (\<lambda>rest. Inr (included @ rest))))
     else bind_result (preprocess_lines F stack resolved ls) (\<lambda>rest. Inr (line @ newline_char # rest)))"
  by pat_completeness auto

termination
proof (relation "inv_image (less_than <*lex*> less_than)
    (\<lambda>x. case x of Inl (F, stack, p) \<Rightarrow> (unread_files F stack, 0) | Inr (F, stack, r, ls) \<Rightarrow> (unread_files F stack, Suc (length ls)))",
    goal_cases)
  case (2 F stack path resolved contents)
  then show ?case using unread_files_push [of F resolved stack] by simp
qed auto

declare preprocess_shader_file.simps [simp del] preprocess_lines.simps [simp del]

definition preprocess_shader :: "shader_files \<Rightarrow> string \<Rightarrow> string result" where
  "preprocess_shader F path = preprocess_shader_file F [] path"

text \<open>
  Loading a shader: the codes that are compiled, and the message that was logged, if any. A file that cannot be
  preprocessed leaves its code and those after it empty, and the shader is compiled nevertheless.
\<close>

definition load_shader_codes :: "shader_files \<Rightarrow> string \<Rightarrow> string \<Rightarrow> string \<Rightarrow> (string \<times> string \<times> string) \<times> exn option" where
  "load_shader_codes F vertex_file fragment_file geometry_file =
    (case preprocess_shader F vertex_file of
       Inl e \<Rightarrow> (([], [], []), Some e)
     | Inr v \<Rightarrow>
         (case preprocess_shader F fragment_file of
            Inl e \<Rightarrow> ((v, [], []), Some e)
          | Inr f \<Rightarrow>
              if geometry_file = [] then ((v, f, []), None)
              else (case preprocess_shader F geometry_file of
                      Inl e \<Rightarrow> ((v, f, []), Some e)
                    | Inr g \<Rightarrow> ((v, f, g), None))))"

definition load_shader :: "(string \<Rightarrow> string \<Rightarrow> string option \<Rightarrow> nat) \<Rightarrow> string \<Rightarrow> string \<Rightarrow> string \<Rightarrow> string
    \<Rightarrow> (string \<rightharpoonup> nat) \<Rightarrow> nat \<times> (string \<rightharpoonup> nat)" where
  "load_shader compile name vertex_code fragment_code geometry_code shaders =
    (let shader = compile vertex_code fragment_code (if geometry_code \<noteq> [] then Some geometry_code else None)
     in (shader, shaders(name \<mapsto> shader)))"

definition load_shader_from_file :: "(string \<Rightarrow> string \<Rightarrow> string option \<Rightarrow> nat) \<Rightarrow> shader_files \<Rightarrow> string \<Rightarrow> string \<Rightarrow> string \<Rightarrow> string
    \<Rightarrow> (string \<rightharpoonup> nat) \<Rightarrow> nat \<times> (string \<rightharpoonup> nat)" where
  "load_shader_from_file compile F name vertex_file fragment_file geometry_file shaders =
    (case load_shader_codes F vertex_file fragment_file geometry_file of
       ((v, f, g), _) \<Rightarrow> load_shader compile name v f g shaders)"

text \<open>A shader that cannot be read is compiled from no text, and replaces the one of its name.\<close>

lemma unreadable_shader_replaces:
  assumes "preprocess_shader F vertex_file = Inl e"
  shows "load_shader_from_file compile F name vertex_file fragment_file geometry_file shaders
    = (compile [] [] None, shaders(name \<mapsto> compile [] [] None))"
  using assms by (simp add: load_shader_from_file_def load_shader_codes_def load_shader_def Let_def)

section \<open>Expansion without a stack\<close>

text \<open>The text a file stands for, by its unfolding; the number is the size of the unfolding.\<close>

inductive expands :: "shader_files \<Rightarrow> nat \<Rightarrow> string \<Rightarrow> string \<Rightarrow> bool"
  and expands_lines :: "shader_files \<Rightarrow> nat \<Rightarrow> string \<Rightarrow> string list \<Rightarrow> string \<Rightarrow> bool" for F where
  File: "file_exists F (canonicalize F path) \<Longrightarrow> open_file F (canonicalize F path) = Some contents \<Longrightarrow>
    expands_lines F n (canonicalize F path) (lines_of [] contents) out \<Longrightarrow> expands F (Suc n) path out"
| No_lines: "expands_lines F 0 resolved [] []"
| Text: "\<not> is_include line \<Longrightarrow> expands_lines F n resolved ls out \<Longrightarrow>
    expands_lines F (Suc n) resolved (line # ls) (line @ newline_char # out)"
| Include: "is_include line \<Longrightarrow> parse_include_target (trim_line line) = Inr target \<Longrightarrow>
    expands F m (include_path resolved target) included \<Longrightarrow> expands_lines F n resolved ls out \<Longrightarrow>
    expands_lines F (Suc (m + n)) resolved (line # ls) (included @ out)"

inductive_cases expandsE: "expands F n path out"
inductive_cases expands_lines_NilE: "expands_lines F n resolved [] out"
inductive_cases expands_lines_ConsE: "expands_lines F n resolved (line # ls) out"

lemma expands_deterministic:
  "expands F n path out \<Longrightarrow> expands F n' path' out' \<Longrightarrow> canonicalize F path = canonicalize F path' \<Longrightarrow> n = n' \<and> out = out'"
  "expands_lines F n resolved ls out \<Longrightarrow> expands_lines F n' resolved ls out' \<Longrightarrow> n = n' \<and> out = out'"
proof (induction arbitrary: n' path' out' and n' out' rule: expands_expands_lines.inducts)
  case (File path contents n out)
  from File(5) obtain m contents' where unfolding': "n' = Suc m" "open_file F (canonicalize F path') = Some contents'"
    "expands_lines F m (canonicalize F path') (lines_of [] contents') out'" by (rule expandsE) auto
  with File(2,6) have "expands_lines F m (canonicalize F path) (lines_of [] contents) out'" by simp
  with File(4) unfolding'(1) show ?case by blast
next
  case (No_lines resolved)
  then show ?case by (auto elim: expands_lines_NilE)
next
  case (Text line n resolved ls out)
  from Text(4) show ?case
    by (rule expands_lines_ConsE) (use Text(1,3) in blast)+
next
  case (Include line target m resolved included n ls out)
  from Include(7) show ?case
  proof (rule expands_lines_ConsE, goal_cases)
    case (1 k o')
    with Include(1) show ?case by simp
  next
    case (2 target' m' included' k o')
    then have "target' = target" using Include(2) by simp
    with 2 have "m = m' \<and> included = included'" using Include(4) by blast
    moreover have "n = k \<and> out = o'" using Include(6) 2 by blast
    ultimately show ?case using 2 by simp
  qed
qed

text \<open>What the preprocessor returns is the unfolding.\<close>

lemma preprocess_expands:
  "preprocess_shader_file F stack path = Inr out \<Longrightarrow> \<exists>n. expands F n path out"
  "preprocess_lines F stack resolved ls = Inr out \<Longrightarrow> \<exists>n. expands_lines F n resolved ls out"
proof (induction F stack path and F stack resolved ls arbitrary: out and out
    rule: preprocess_shader_file_preprocess_lines.induct)
  case (1 F stack path)
  from "1.prems" obtain contents where c: "file_exists F (canonicalize F path)" "canonicalize F path \<notin> set stack"
    "open_file F (canonicalize F path) = Some contents"
    "preprocess_lines F (canonicalize F path # stack) (canonicalize F path) (lines_of [] contents) = Inr out"
    by (subst (asm) preprocess_shader_file.simps) (auto simp: Let_def split: if_splits option.splits)
  from "1.IH" [OF refl _ _ c(3,4)] c(1,2) obtain n where
    "expands_lines F n (canonicalize F path) (lines_of [] contents) out" by auto
  with c(1,3) show ?case by (blast intro: File)
next
  case (2 F stack resolved)
  then show ?case by (auto simp: preprocess_lines.simps intro: No_lines)
next
  case (3 F stack resolved line ls)
  show ?case
  proof (cases "is_include line")
    case True
    with "3.prems" obtain target included rest where i: "parse_include_target (trim_line line) = Inr target"
      "preprocess_shader_file F stack (include_path resolved target) = Inr included"
      "preprocess_lines F stack resolved ls = Inr rest" "out = included @ rest"
      by (auto simp: preprocess_lines.simps bind_result_Inr_iff split: sum.splits)
    from "3.IH"(1) [OF True i(1,2)] "3.IH"(2) [OF True i(1,2,3)] i(1,4) True show ?thesis
      by (auto intro: Include)
  next
    case False
    with "3.prems" obtain rest where i: "preprocess_lines F stack resolved ls = Inr rest" "out = line @ newline_char # rest"
      by (auto simp: preprocess_lines.simps bind_result_Inr_iff)
    from "3.IH"(3) [OF False i(1)] i(2) False show ?thesis by (auto intro: Text)
  qed
qed

text \<open>A file being read has a larger unfolding than what it includes: none is met twice.\<close>

definition above :: "shader_files \<Rightarrow> nat \<Rightarrow> string list \<Rightarrow> bool" where
  "above F n stack \<longleftrightarrow> (\<forall>q\<in>set stack. \<exists>p m out. n < m \<and> canonicalize F p = q \<and> expands F m p out)"

lemma above_smaller: "above F n stack \<Longrightarrow> m \<le> n \<Longrightarrow> above F m stack"
  unfolding above_def by (meson le_less_trans)

lemma expands_preprocess:
  "expands F n path out \<Longrightarrow> above F n stack \<Longrightarrow> preprocess_shader_file F stack path = Inr out"
  "expands_lines F n resolved ls out \<Longrightarrow> above F n stack \<Longrightarrow> preprocess_lines F stack resolved ls = Inr out"
proof (induction arbitrary: stack and stack rule: expands_expands_lines.inducts)
  case (File path contents n out)
  let ?r = "canonicalize F path"
  have this_file: "expands F (Suc n) path out" using File(1-3) by (rule expands_expands_lines.File)
  have "?r \<notin> set stack"
  proof
    assume "?r \<in> set stack"
    with File(5) obtain p m o' where "Suc n < m" "canonicalize F p = ?r" "expands F m p o'"
      by (auto simp: above_def)
    with expands_deterministic(1) [OF this_file] show False by fastforce
  qed
  moreover have "above F n (?r # stack)"
    using this_file above_smaller [OF File(5), of n] unfolding above_def by auto
  ultimately show ?case
    using File(1,2,4) by (simp add: preprocess_shader_file.simps Let_def)
next
  case (Text line n resolved ls out)
  then have "above F n stack" by (blast intro: above_smaller le_SucI)
  with Text show ?case by (simp add: preprocess_lines.simps)
next
  case (Include line target m resolved included n ls out)
  have "above F m stack" "above F n stack"
    using Include.prems by (auto intro: above_smaller)
  with Include show ?case by (simp add: preprocess_lines.simps)
qed (simp add: preprocess_lines.simps)

text \<open>C28: preprocessing succeeds exactly when the includes unfold. For any files, the preprocessor returns a text if and
  only if the file's includes unfold to it after finitely many steps; the stack only serves to end, with an exception,
  on the files that have no unfolding, and never rejects one that has.
\<close>

theorem preprocess_is_expansion:
  "preprocess_shader F path = Inr out \<longleftrightarrow> (\<exists>n. expands F n path out)"
proof
  assume "preprocess_shader F path = Inr out"
  then show "\<exists>n. expands F n path out" by (simp add: preprocess_shader_def preprocess_expands)
next
  assume "\<exists>n. expands F n path out"
  then show "preprocess_shader F path = Inr out"
    by (auto simp: preprocess_shader_def above_def intro: expands_preprocess)
qed

text \<open>A file that includes itself is refused, by the name the system gives it.\<close>

definition self_including :: shader_files where
  "self_including = \<lparr>canonicalize = (\<lambda>p. p), file_table = [(''/a'', Some (''#include <a>''))]\<rparr>"

lemma self_including_facts:
  "canonicalize self_including p = p" "file_exists self_including ''/a''"
  "open_file self_including ''/a'' = Some ''#include <a>''"
  by (simp_all add: self_including_def file_exists_def open_file_def)

lemma self_including_line:
  "lines_of [] ''#include <a>'' = [''#include <a>'']"
  "trim_line ''#include <a>'' = ''#include <a>''"
  "parse_include_target ''#include <a>'' = Inr ''a''"
  "include_path ''/a'' ''a'' = ''/a''"
subgoal by (simp add: newline_char_def)
subgoal by (simp add: trim_line_def is_blank_def)
subgoal by (simp add: parse_include_target_def is_opening_def quote_char_def)
subgoal by (simp add: include_path_def is_absolute_def parent_path_def join_path_def)
done

lemma self_include_refused: "preprocess_shader self_including ''/a'' = Inl (circular_include ''/a'')"
proof -
  have "preprocess_shader_file self_including [''/a''] ''/a'' = Inl (circular_include ''/a'')"
    by (subst preprocess_shader_file.simps) (simp add: self_including_facts Let_def)
  then show ?thesis
    unfolding preprocess_shader_def
    by (subst preprocess_shader_file.simps) (simp add: self_including_facts self_including_line preprocess_lines.simps is_include_def Let_def del: lines_of.simps)
qed

end
