(* ===== verification/Http_Client.thy ===== *)
theory Http_Client
  imports Prelude
begin

text \<open>
  The HTTP client of \<open>src/src/http_client.cpp\<close>: a queue of requests, workers that perform them, flags that
  cancel them, responses collected by polling, and the shutdown. The client is cut at its mutexes and at the
  condition variable. The transfer library is a parameter: which outcomes a transfer with given options may have.
  Diagnostic output is not modelled, except that the one of a shutdown takes the mutex of the queue.
\<close>

section \<open>Requests and responses\<close>

text \<open>An empty callback is \<open>None\<close>.\<close>

record http_request =
  url :: string
  http_method :: string
  req_headers :: "(string \<times> string) list"
  req_body :: string
  timeout_ms :: int
  connect_timeout_ms :: int
  delay_ms :: int
  follow_redirects :: bool
  user_agent :: string
  chunk_callback :: "nat option"

record http_response =
  resp_id :: nat
  resp_ok :: bool
  resp_cancelled :: bool
  resp_status :: int
  resp_body :: string
  resp_error :: string
  resp_headers :: "(string \<times> string) list"

definition empty_response :: "nat \<Rightarrow> http_response" where
  "empty_response i = \<lparr>resp_id = i, resp_ok = False, resp_cancelled = False, resp_status = 0, resp_body = [], resp_error = [],
     resp_headers = []\<rparr>"

record queued_request =
  qr_id :: nat
  qr_request :: http_request

definition make_cancelled_response :: "queued_request \<Rightarrow> http_response" where
  "make_cancelled_response q = (empty_response (qr_id q))\<lparr>resp_cancelled := True, resp_ok := False, resp_status := 0,
     resp_error := ''cancelled''\<rparr>"

section \<open>What the transfer library is given and calls\<close>

text \<open>A C string ends at the first zero character.\<close>

definition c_str :: "string \<Rightarrow> string" where
  "c_str s = takeWhile (\<lambda>c. of_char c \<noteq> (0 :: nat)) s"

text \<open>\<open>write_body\<close>, with the body and the chunks handed to callbacks so far.\<close>

definition write_body :: "nat option \<Rightarrow> string \<Rightarrow> string \<times> (nat \<times> string) list \<Rightarrow> string \<times> (nat \<times> string) list" where
  "write_body cb chunk s =
    (case s of (body, calls) \<Rightarrow> (body @ chunk, case cb of None \<Rightarrow> calls | Some k \<Rightarrow> calls @ [(k, chunk)]))"

definition blank :: "char \<Rightarrow> bool" where
  "blank c \<longleftrightarrow> c \<in> {CHR '' '', CHR 0x09, CHR 0x0A, CHR 0x0B, CHR 0x0C, CHR 0x0D}"

definition line_end :: "char \<Rightarrow> bool" where
  "line_end c \<longleftrightarrow> c = CHR 0x0D \<or> c = CHR 0x0A"

definition write_header :: "string \<Rightarrow> (string \<times> string) list \<Rightarrow> (string \<times> string) list" where
  "write_header line headers =
    (if CHR '':'' \<notin> set line then headers
     else let key = takeWhile (\<lambda>c. c \<noteq> CHR '':'') line;
              value = dropWhile blank (drop (length key + 1) line)
       in headers @ [(key, rev (dropWhile line_end (rev value)))])"

definition build_header_list :: "(string \<times> string) list \<Rightarrow> string list" where
  "build_header_list headers = map (\<lambda>(k, v). c_str (k @ '': '' @ v)) headers"

datatype curl_option =
  Opt_url string
| Opt_follow bool
| Opt_user_agent string
| Opt_accept_encoding string
| Opt_post string
| Opt_custom_request string
| Opt_headers "string list"
| Opt_timeout int
| Opt_connect_timeout int

definition transfer_options :: "http_request \<Rightarrow> curl_option list" where
  "transfer_options r =
    [Opt_url (c_str (url r)), Opt_follow (follow_redirects r), Opt_user_agent (c_str (user_agent r)), Opt_accept_encoding []]
    @ (if req_body r \<noteq> [] then [Opt_post (req_body r)] else [])
    @ (if http_method r \<noteq> [] then [Opt_custom_request (c_str (http_method r))] else [])
    @ (if req_headers r \<noteq> [] then [Opt_headers (build_header_list (req_headers r))] else [])
    @ (if timeout_ms r > 0 then [Opt_timeout (timeout_ms r)] else [])
    @ (if connect_timeout_ms r > 0 then [Opt_connect_timeout (connect_timeout_ms r)] else [])"

text \<open>
  The outcome of a transfer: no handle, or the error text if it failed, the header lines and the chunks it handed
  to the client, and the status.
\<close>

datatype transfer =
  Init_failed
| Transferred "string option" "string list" "string list" int

text \<open>The result of \<open>perform\<close>, from the value of the flag after the transfer.\<close>

definition perform_response :: "bool \<Rightarrow> queued_request \<Rightarrow> transfer \<Rightarrow> http_response" where
  "perform_response cancel_flag q tr =
    (case tr of
       Init_failed \<Rightarrow> (empty_response (qr_id q))\<lparr>resp_error := ''curl_easy_init failed''\<rparr>
     | Transferred err lines chunks status \<Rightarrow>
         if cancel_flag then make_cancelled_response q
         else (case err of
             Some e \<Rightarrow> (empty_response (qr_id q))\<lparr>resp_ok := False, resp_error := e\<rparr>
           | None \<Rightarrow> (empty_response (qr_id q))\<lparr>resp_ok := (200 \<le> status \<and> status < 400), resp_status := status,
               resp_body := fst (fold (write_body (chunk_callback (qr_request q))) chunks ([], [])),
               resp_headers := fold write_header lines []\<rparr>))"

definition chunk_calls :: "queued_request \<Rightarrow> transfer \<Rightarrow> (nat \<times> string) list" where
  "chunk_calls q tr =
    (case tr of
       Init_failed \<Rightarrow> []
     | Transferred _ _ chunks _ \<Rightarrow> snd (fold (write_body (chunk_callback (qr_request q))) chunks ([], [])))"

section \<open>The client\<close>

text \<open>
  Where a worker stands: before the test of \<open>stop\<close>; before the predicate of the wait; with the predicate found
  false and the queue's mutex held, not yet blocked; blocked; with a request; transferring; with the outcome; with the
  response; with the response published and the flag still registered; gone.
\<close>

datatype worker =
  At_test
| At_pop
| Found_idle
| Blocked
| Popped queued_request
| Performing queued_request
| Performed queued_request transfer
| Completing http_response
| Erasing nat
| Exited

datatype submit_stage = To_push queued_request | To_notify

datatype shutdown_phase = Running | Stop_stored | Emitted | Joining | Returned

text \<open>
  \<open>cancelled_ids\<close> are the ids whose flag is set, \<open>cancel_flags\<close> those whose flag is registered; \<open>polled\<close> and \<open>dropped\<close>
  are ghosts: the responses that were polled and the ids that the shutdown threw away.
\<close>

record http_client =
  hc_stop :: bool
  hc_next :: nat
  hc_pending :: "queued_request list"
  cancel_flags :: "nat set"
  cancelled_ids :: "nat set"
  hc_completed :: "http_response list"
  hc_workers :: "worker list"
  hc_submits :: "submit_stage list"
  hc_phase :: shutdown_phase
  hc_calls :: "(nat \<times> string) list"
  polled :: "http_response list"
  dropped :: "nat list"

definition worker_count :: "nat \<Rightarrow> nat \<Rightarrow> nat" where
  "worker_count thread_count hardware = (if thread_count = 0 then max 1 hardware else thread_count)"

definition new_http_client :: "nat \<Rightarrow> nat \<Rightarrow> http_client" where
  "new_http_client thread_count hardware = \<lparr>hc_stop = False, hc_next = 1, hc_pending = [], cancel_flags = {}, cancelled_ids = {},
     hc_completed = [], hc_workers = replicate (worker_count thread_count hardware) At_test, hc_submits = [], hc_phase = Running,
     hc_calls = [], polled = [], dropped = []\<rparr>"

text \<open>The mutex of the queue is held across sections only by a worker that found the queue empty.\<close>

definition queue_free :: "http_client \<Rightarrow> bool" where
  "queue_free s \<longleftrightarrow> Found_idle \<notin> set (hc_workers s)"

section \<open>Operations\<close>

definition take_request_id :: "http_client \<Rightarrow> nat \<times> http_client" where
  "take_request_id s = (hc_next s, s\<lparr>hc_next := (hc_next s + 1) mod 2 ^ 64\<rparr>)"

text \<open>The section of \<open>submit\<close>: a new flag, not set, is registered with the request.\<close>

definition push_request :: "queued_request \<Rightarrow> http_client \<Rightarrow> http_client" where
  "push_request q s = s\<lparr>hc_pending := hc_pending s @ [q], cancel_flags := insert (qr_id q) (cancel_flags s),
     cancelled_ids := cancelled_ids s - {qr_id q}\<rparr>"

definition submit_request :: "http_request \<Rightarrow> http_client \<Rightarrow> nat result \<times> http_client" where
  "submit_request r s =
    (if url r = [] then (Inl (Runtime_error ''http.request requires a url''), s)
     else case take_request_id s of (i, s) \<Rightarrow> (Inr i, push_request \<lparr>qr_id = i, qr_request = r\<rparr> s))"

definition cancel_request :: "nat \<Rightarrow> http_client \<Rightarrow> bool \<times> http_client" where
  "cancel_request i s =
    (if i \<notin> cancel_flags s then (False, s) else (True, s\<lparr>cancelled_ids := insert i (cancelled_ids s)\<rparr>))"

definition poll_responses :: "nat \<Rightarrow> http_client \<Rightarrow> http_response list \<times> http_client" where
  "poll_responses n s =
    (let k = (if n = 0 \<or> n > length (hc_completed s) then length (hc_completed s) else n);
         out = take k (hc_completed s)
     in (out, s\<lparr>hc_completed := drop k (hc_completed s), polled := polled s @ out\<rparr>))"

definition pop_request :: "http_client \<Rightarrow> worker \<times> http_client" where
  "pop_request s =
    (if hc_stop s then (Exited, s)
     else case hc_pending s of [] \<Rightarrow> (Found_idle, s) | q # qs \<Rightarrow> (Popped q, s\<lparr>hc_pending := qs\<rparr>))"

text \<open>One turn of a worker; \<open>tr\<close> is the outcome of the transfer, if the turn is one.\<close>

definition worker_turn :: "transfer \<Rightarrow> worker \<Rightarrow> http_client \<Rightarrow> worker \<times> http_client" where
  "worker_turn tr w s =
    (case w of
       At_test \<Rightarrow> (if hc_stop s then Exited else At_pop, s)
     | At_pop \<Rightarrow> pop_request s
     | Found_idle \<Rightarrow> (Blocked, s)
     | Blocked \<Rightarrow> (Blocked, s)
     | Popped q \<Rightarrow> (if qr_id q \<in> cancelled_ids s then Completing (make_cancelled_response q) else Performing q, s)
     | Performing q \<Rightarrow>
         (if tr = Init_failed then Completing (perform_response False q tr) else Performed q tr,
          s\<lparr>hc_calls := hc_calls s @ chunk_calls q tr\<rparr>)
     | Performed q t \<Rightarrow> (Completing (perform_response (qr_id q \<in> cancelled_ids s) q t), s)
     | Completing r \<Rightarrow> (Erasing (resp_id r), s\<lparr>hc_completed := hc_completed s @ [r]\<rparr>)
     | Erasing i \<Rightarrow> (At_test, s\<lparr>cancel_flags := cancel_flags s - {i}\<rparr>)
     | Exited \<Rightarrow> (Exited, s))"

text \<open>The sections of \<open>shutdown\<close>; a second call finds \<open>stop\<close> set and returns.\<close>

definition shutdown_store :: "http_client \<Rightarrow> http_client" where
  "shutdown_store s = (if hc_stop s then s else s\<lparr>hc_stop := True, hc_phase := Stop_stored\<rparr>)"

definition shutdown_notify :: "http_client \<Rightarrow> http_client" where
  "shutdown_notify s = s\<lparr>hc_workers := map (\<lambda>w. if w = Blocked then At_pop else w) (hc_workers s), hc_phase := Joining\<rparr>"

definition all_joined :: "http_client \<Rightarrow> bool" where
  "all_joined s \<longleftrightarrow> list_all (\<lambda>w. w = Exited) (hc_workers s)"

definition shutdown_clear :: "http_client \<Rightarrow> http_client" where
  "shutdown_clear s = s\<lparr>dropped := dropped s @ map qr_id (hc_pending s), hc_pending := [], cancel_flags := {}, hc_phase := Returned\<rparr>"

section \<open>The steps\<close>

text \<open>
  \<open>curl\<close> says which outcomes a transfer with the given options may have, \<open>diag\<close> whether lifecycle diagnostics are on:
  they count the registered flags under the queue's mutex. \<open>notify_one\<close> wakes any blocked worker, and a blocked
  worker may wake by itself. The counter of ids is not about to wrap.
\<close>

inductive http_step :: "(curl_option list \<Rightarrow> transfer \<Rightarrow> bool) \<Rightarrow> bool \<Rightarrow> http_client \<Rightarrow> http_client \<Rightarrow> bool"
  for curl diag where
  Submit: "url r \<noteq> [] \<Longrightarrow> take_request_id s = (i, t) \<Longrightarrow> hc_next s < 2 ^ 64 - 1 \<Longrightarrow>
    http_step curl diag s (t\<lparr>hc_submits := hc_submits s @ [To_push \<lparr>qr_id = i, qr_request = r\<rparr>]\<rparr>)"
| Push: "hc_submits s = xs @ To_push q # ys \<Longrightarrow> queue_free s \<Longrightarrow>
    http_step curl diag s ((push_request q s)\<lparr>hc_submits := xs @ To_notify # ys\<rparr>)"
| Notify: "hc_submits s = xs @ To_notify # ys \<Longrightarrow> hc_workers s = us @ Blocked # vs \<Longrightarrow>
    http_step curl diag s (s\<lparr>hc_submits := xs @ ys, hc_workers := us @ At_pop # vs\<rparr>)"
| Notify_none: "hc_submits s = xs @ To_notify # ys \<Longrightarrow> Blocked \<notin> set (hc_workers s) \<Longrightarrow>
    http_step curl diag s (s\<lparr>hc_submits := xs @ ys\<rparr>)"
| Cancel: "queue_free s \<Longrightarrow> http_step curl diag s (snd (cancel_request i s))"
| Poll: "http_step curl diag s (snd (poll_responses n s))"
| Turn: "hc_workers s = us @ w # vs \<Longrightarrow> w \<notin> {Blocked, Exited} \<Longrightarrow> (w = At_pop \<or> (\<exists>i. w = Erasing i) \<Longrightarrow> queue_free s) \<Longrightarrow>
    (\<And>q. w = Performing q \<Longrightarrow> curl (transfer_options (qr_request q)) tr) \<Longrightarrow>
    worker_turn tr w s = (w', t) \<Longrightarrow> http_step curl diag s (t\<lparr>hc_workers := us @ w' # vs\<rparr>)"
| Wake: "hc_workers s = us @ Blocked # vs \<Longrightarrow> http_step curl diag s (s\<lparr>hc_workers := us @ At_pop # vs\<rparr>)"
| Store: "hc_phase s = Running \<Longrightarrow> http_step curl diag s (shutdown_store s)"
| Emit: "hc_phase s = Stop_stored \<Longrightarrow> (diag \<Longrightarrow> queue_free s) \<Longrightarrow> http_step curl diag s (s\<lparr>hc_phase := Emitted\<rparr>)"
| Notify_all: "hc_phase s = Emitted \<Longrightarrow> http_step curl diag s (shutdown_notify s)"
| Clear: "hc_phase s = Joining \<Longrightarrow> all_joined s \<Longrightarrow> queue_free s \<Longrightarrow> http_step curl diag s (shutdown_clear s)"

inductive_cases http_stepE: "http_step curl diag s t"

definition fresh_client :: "http_client \<Rightarrow> bool" where
  "fresh_client s \<longleftrightarrow> (\<exists>n hw. s = new_http_client n hw)"

definition http_reachable :: "(curl_option list \<Rightarrow> transfer \<Rightarrow> bool) \<Rightarrow> bool \<Rightarrow> http_client \<Rightarrow> bool" where
  "http_reachable curl diag s \<longleftrightarrow> (\<exists>s0. fresh_client s0 \<and> (http_step curl diag)\<^sup>*\<^sup>* s0 s)"

end
