(* ===== verification/Http_Properties.thy ===== *)
theory Http_Properties
  imports Http_Client
begin

text \<open>
  The properties of the HTTP client: every id is in one place and answered at most once, a request cancelled in the
  queue is never transferred, no queued request is forgotten by the workers, and the shutdown ends when lifecycle
  diagnostics are on, but may wait for ever when they are off.
\<close>

section \<open>Ids and their places\<close>

fun worker_ids :: "worker \<Rightarrow> nat multiset" where
  "worker_ids (Popped q) = {#qr_id q#}"
| "worker_ids (Performing q) = {#qr_id q#}"
| "worker_ids (Performed q tr) = {#qr_id q#}"
| "worker_ids (Completing r) = {#resp_id r#}"
| "worker_ids _ = {#}"

fun submit_ids :: "submit_stage \<Rightarrow> nat multiset" where
  "submit_ids (To_push q) = {#qr_id q#}"
| "submit_ids To_notify = {#}"

definition open_ids :: "http_client \<Rightarrow> nat multiset" where
  "open_ids s = mset (map qr_id (hc_pending s)) + sum_list (map submit_ids (hc_submits s))
     + sum_list (map worker_ids (hc_workers s))"

definition answered_ids :: "http_client \<Rightarrow> nat multiset" where
  "answered_ids s = mset (map resp_id (hc_completed s @ polled s))"

definition accounted :: "http_client \<Rightarrow> bool" where
  "accounted s \<longleftrightarrow> 1 \<le> hc_next s \<and> hc_next s < 2 ^ 64
    \<and> open_ids s + answered_ids s + mset (dropped s) = mset [1..<hc_next s]"

lemma make_cancelled_id [simp]: "resp_id (make_cancelled_response q) = qr_id q"
  by (simp add: make_cancelled_response_def empty_response_def)

lemma perform_response_id [simp]: "resp_id (perform_response b q tr) = qr_id q"
  by (auto simp: perform_response_def empty_response_def split: transfer.splits option.splits)

lemma worker_turn_fields:
  assumes "worker_turn tr w s = (w', t)"
  shows "hc_next t = hc_next s" "hc_submits t = hc_submits s" "hc_phase t = hc_phase s" "polled t = polled s"
    "dropped t = dropped s" "hc_stop t = hc_stop s" "cancelled_ids t = cancelled_ids s" "hc_workers t = hc_workers s"
  using assms by (auto simp: worker_turn_def pop_request_def split: worker.splits list.splits if_splits)

lemma worker_turn_ids:
  assumes "worker_turn tr w s = (w', t)"
  shows "worker_ids w' + mset (map qr_id (hc_pending t)) + mset (map resp_id (hc_completed t))
    = worker_ids w + mset (map qr_id (hc_pending s)) + mset (map resp_id (hc_completed s))"
  using assms by (cases w) (auto simp: worker_turn_def pop_request_def split: list.splits if_splits)

lemma worker_ids_At_pop: "sum_list (map (worker_ids \<circ> (\<lambda>w. if w = Blocked then At_pop else w)) ws) = sum_list (map worker_ids ws)"
  by (induction ws) auto

lemma accounted_turn:
  assumes "worker_turn tr w s = (w', t)" and "hc_workers s = us @ w # vs" and "accounted s"
  shows "accounted (t\<lparr>hc_workers := us @ w' # vs\<rparr>)"
proof -
  have "open_ids (t\<lparr>hc_workers := us @ w' # vs\<rparr>) + answered_ids (t\<lparr>hc_workers := us @ w' # vs\<rparr>) = open_ids s + answered_ids s"
    using worker_turn_ids [OF assms(1)] worker_turn_fields [OF assms(1)] assms(2)
    by (simp add: open_ids_def answered_ids_def ac_simps)
  with assms(3) worker_turn_fields [OF assms(1)] show ?thesis unfolding accounted_def by simp
qed

lemma poll_answered [simp]: "answered_ids (snd (poll_responses n s)) = answered_ids s"
proof -
  have "mset (map resp_id (take k xs)) + mset (map resp_id (drop k xs)) = mset (map resp_id xs)" for k and xs :: "http_response list"
    by (metis append_take_drop_id map_append mset_append)
  then show ?thesis by (simp add: answered_ids_def poll_responses_def Let_def ac_simps)
qed

lemma accounted_step: "http_step curl diag s t \<Longrightarrow> accounted s \<Longrightarrow> accounted t"
proof (induction rule: http_step.induct)
  case (Submit r s i t)
  then have "hc_next s < 2 ^ 64 - 1" "i = hc_next s" "t = s\<lparr>hc_next := hc_next s + 1\<rparr>"
    by (auto simp: take_request_id_def)
  with Submit.prems show ?case by (simp add: accounted_def open_ids_def answered_ids_def)
next
  case (Turn s us w vs tr w' t)
  then show ?case using accounted_turn by blast
next
  case (Poll s n)
  have "open_ids (snd (poll_responses n s)) = open_ids s" by (simp add: open_ids_def poll_responses_def Let_def)
  with Poll show ?case by (simp add: accounted_def) (simp add: poll_responses_def Let_def)
qed (auto simp: accounted_def open_ids_def answered_ids_def push_request_def cancel_request_def shutdown_store_def
    shutdown_notify_def shutdown_clear_def worker_ids_At_pop ac_simps)

lemma sum_list_empties [simp]: "sum_list (replicate n {#}) = {#}"
  by (induction n) simp_all

lemma accounted_start: "fresh_client s \<Longrightarrow> accounted s"
  by (auto simp: fresh_client_def new_http_client_def accounted_def open_ids_def answered_ids_def map_replicate_const sum_list_replicate)

interpretation ids: invariant_system fresh_client "http_step curl diag" accounted
  by unfold_locales (auto intro: accounted_start accounted_step)

lemma reachable_accounted: "http_reachable curl diag s \<Longrightarrow> accounted s"
  unfolding http_reachable_def using ids.inv_reachable by blast

text \<open>An id is in one place only.\<close>

lemma accounted_apart:
  assumes "accounted s"
  shows "i \<in># open_ids s \<Longrightarrow> i \<notin># answered_ids s" and "count (open_ids s) i \<le> 1"
    and "i \<in># open_ids s \<Longrightarrow> 1 \<le> i \<and> i < hc_next s"
proof -
  have all: "count (open_ids s) i + count (answered_ids s) i + count (mset (dropped s)) i = count (mset [1..<hc_next s]) i"
    using assms unfolding accounted_def by (metis plus_multiset.rep_eq)
  have le: "count (mset [1..<hc_next s]) i \<le> 1"
    using distinct_count_atmost_1 [THEN iffD1, OF distinct_upt, of 1 "hc_next s"] by (simp del: mset_upt)
  from all le show "count (open_ids s) i \<le> 1" by linarith
  show "i \<notin># answered_ids s" if "i \<in># open_ids s"
  proof -
    have "1 \<le> count (open_ids s) i" using that by (simp add: Suc_le_eq)
    with all le have "count (answered_ids s) i = 0" by linarith
    then show ?thesis by (simp add: not_in_iff)
  qed
  show "1 \<le> i \<and> i < hc_next s" if "i \<in># open_ids s"
  proof -
    have "i \<in># open_ids s + answered_ids s + mset (dropped s)" using that by simp
    then have "i \<in># mset [1..<hc_next s]" using assms unfolding accounted_def by metis
    then show ?thesis by simp
  qed
qed

text \<open>C29: every request is answered at most once and none disappears. In every reachable state, each id that was given out
  is in exactly one place: being submitted, queued, held by a worker, answered, or thrown away by the shutdown.
\<close>

theorem requests_accounted:
  assumes "http_reachable curl diag s"
  shows "open_ids s + answered_ids s + mset (dropped s) = mset [1..<hc_next s]
    \<and> distinct (map resp_id (hc_completed s @ polled s))"
proof -
  have a: "accounted s" using assms by (rule reachable_accounted)
  then have sum: "open_ids s + answered_ids s + mset (dropped s) = mset [1..<hc_next s]" by (simp add: accounted_def)
  then have "answered_ids s \<subseteq># mset [1..<hc_next s]" by (metis mset_subset_eq_add_left mset_subset_eq_add_right subset_mset.order_trans)
  then have "distinct (map resp_id (hc_completed s @ polled s))"
    unfolding answered_ids_def using distinct_submset distinct_upt by blast
  with sum show ?thesis by simp
qed

section \<open>Cancelling\<close>

text \<open>A request whose flag is set before a worker looks at it, from then on.\<close>

fun not_transferred :: "nat \<Rightarrow> worker \<Rightarrow> bool" where
  "not_transferred i (Performing q) \<longleftrightarrow> qr_id q \<noteq> i"
| "not_transferred i (Performed q tr) \<longleftrightarrow> qr_id q \<noteq> i"
| "not_transferred i (Completing r) \<longleftrightarrow> (resp_id r = i \<longrightarrow> resp_cancelled r)"
| "not_transferred i _ \<longleftrightarrow> True"

definition doomed :: "nat \<Rightarrow> http_client \<Rightarrow> bool" where
  "doomed i s \<longleftrightarrow> i \<in> cancelled_ids s \<and> i < hc_next s \<and> hc_next s < 2 ^ 64 \<and> (\<forall>q. To_push q \<in> set (hc_submits s) \<longrightarrow> qr_id q \<noteq> i)
    \<and> (\<forall>w\<in>set (hc_workers s). not_transferred i w) \<and> (\<forall>r\<in>set (hc_completed s @ polled s). resp_id r = i \<longrightarrow> resp_cancelled r)"

lemma make_cancelled_cancelled [simp]: "resp_cancelled (make_cancelled_response q)"
  by (simp add: make_cancelled_response_def)

lemma doomed_turn:
  assumes "worker_turn tr w s = (w', t)" and "not_transferred i w" and "i \<in> cancelled_ids s"
    and "\<forall>r\<in>set (hc_completed s). resp_id r = i \<longrightarrow> resp_cancelled r"
  shows "not_transferred i w'" and "\<forall>r\<in>set (hc_completed t). resp_id r = i \<longrightarrow> resp_cancelled r"
  using assms by (cases w; auto simp: worker_turn_def pop_request_def split: list.splits if_splits)+

lemma doomed_step: "http_step curl diag s t \<Longrightarrow> doomed i s \<Longrightarrow> doomed i t"
proof (induction rule: http_step.induct)
  case (Submit r s j t)
  then have "j = hc_next s" "t = s\<lparr>hc_next := hc_next s + 1\<rparr>" "hc_next s < 2 ^ 64 - 1"
    by (auto simp: take_request_id_def)
  with Submit.prems show ?case by (auto simp: doomed_def)
next
  case (Turn s us w vs tr w' t)
  have "not_transferred i w" "i \<in> cancelled_ids s" "\<forall>r\<in>set (hc_completed s). resp_id r = i \<longrightarrow> resp_cancelled r"
    using Turn.prems Turn.hyps(1) unfolding doomed_def by simp_all
  then have "not_transferred i w'" "\<forall>r\<in>set (hc_completed t). resp_id r = i \<longrightarrow> resp_cancelled r"
    using doomed_turn [OF Turn.hyps(5)] by blast+
  then show ?case
    using Turn.prems Turn.hyps(1) worker_turn_fields [OF Turn.hyps(5)] unfolding doomed_def by (simp add: ball_Un)
next
  case (Poll s n)
  then show ?case by (auto simp: doomed_def poll_responses_def Let_def dest: in_set_takeD in_set_dropD)
qed (auto simp: doomed_def push_request_def cancel_request_def shutdown_store_def shutdown_notify_def shutdown_clear_def)

lemma doomed_steps: "(http_step curl diag)\<^sup>*\<^sup>* s t \<Longrightarrow> doomed i s \<Longrightarrow> doomed i t"
  by (induction rule: rtranclp_induct) (auto intro: doomed_step)

text \<open>The flag of a request stays registered until its answer is published.\<close>

definition live_ids :: "http_client \<Rightarrow> nat set" where
  "live_ids s = qr_id ` set (hc_pending s) \<union> (\<Union>w\<in>set (hc_workers s). set_mset (worker_ids w))"

definition flagged :: "http_client \<Rightarrow> bool" where
  "flagged s \<longleftrightarrow> accounted s \<and> (\<forall>i. Erasing i \<in> set (hc_workers s) \<longrightarrow> i \<in># answered_ids s) \<and> live_ids s \<subseteq> cancel_flags s"

lemma in_sum_list_worker_ids: "i \<in># sum_list (map worker_ids ws) \<longleftrightarrow> (\<exists>w\<in>set ws. i \<in># worker_ids w)"
  by (induction ws) auto

lemma in_sum_list_submit_ids: "i \<in># sum_list (map submit_ids ss) \<longleftrightarrow> (\<exists>x\<in>set ss. i \<in># submit_ids x)"
  by (induction ss) auto

lemma live_ids_open: "i \<in> live_ids s \<Longrightarrow> i \<in># open_ids s"
  by (auto simp: live_ids_def open_ids_def in_sum_list_worker_ids)

lemma worker_turn_flags:
  assumes "worker_turn tr w s = (w', t)"
  shows "cancel_flags t = (case w of Erasing i \<Rightarrow> cancel_flags s - {i} | _ \<Rightarrow> cancel_flags s)"
    and "set_mset (worker_ids w') \<union> qr_id ` set (hc_pending t) \<subseteq> set_mset (worker_ids w) \<union> qr_id ` set (hc_pending s)"
    and "w' = Erasing i \<Longrightarrow> i \<in> resp_id ` set (hc_completed t)"
    and "set (hc_completed s) \<subseteq> set (hc_completed t)"
  using assms by (cases w; auto simp: worker_turn_def pop_request_def split: list.splits if_splits)+

lemma flagged_turn:
  assumes "worker_turn tr w s = (w', t)" and "hc_workers s = us @ w # vs" and "flagged s"
  shows "flagged (t\<lparr>hc_workers := us @ w' # vs\<rparr>)"
proof -
  let ?t = "t\<lparr>hc_workers := us @ w' # vs\<rparr>"
  note turn = worker_turn_flags [OF assms(1)] and kept = worker_turn_fields [OF assms(1)]
  have acc: "accounted ?t" using accounted_turn [OF assms(1,2)] assms(3) by (simp add: flagged_def)
  have "answered_ids s \<subseteq># answered_ids ?t"
    using assms(1) by (cases w) (auto simp: worker_turn_def pop_request_def answered_ids_def split: list.splits if_splits)
  then have keep: "i \<in># answered_ids s \<Longrightarrow> i \<in># answered_ids ?t" for i by (rule mset_subset_eqD)
  have old: "Erasing i \<in> set us \<union> {w} \<union> set vs \<Longrightarrow> i \<in># answered_ids s" for i
    using assms(2,3) by (auto simp: flagged_def)
  have erasing: "i \<in># answered_ids ?t" if "Erasing i \<in> set (us @ w' # vs)" for i
  proof (cases "w' = Erasing i")
    case True
    then show ?thesis using turn(3) by (simp add: answered_ids_def)
  next
    case False
    then show ?thesis using that old keep by auto
  qed
  have live: "live_ids ?t \<subseteq> live_ids s" using turn(2) assms(2) by (auto simp: live_ids_def)
  have "live_ids ?t \<subseteq> cancel_flags ?t"
  proof
    fix j assume j: "j \<in> live_ids ?t"
    have in_s: "j \<in> cancel_flags s" using j live assms(3) by (auto simp: flagged_def)
    have "w \<noteq> Erasing j"
    proof
      assume "w = Erasing j"
      then have "j \<in># answered_ids ?t" using old keep by simp
      then show False using accounted_apart(1) [OF acc live_ids_open [OF j]] by simp
    qed
    then show "j \<in> cancel_flags ?t" using in_s turn(1) by (auto split: worker.splits)
  qed
  with acc erasing show ?thesis by (simp add: flagged_def)
qed

lemma all_joined_live: "all_joined s \<Longrightarrow> live_ids (s\<lparr>hc_pending := []\<rparr>) = {}"
  by (auto simp: all_joined_def live_ids_def list_all_iff)

lemma flagged_step: "http_step curl diag s t \<Longrightarrow> flagged s \<Longrightarrow> flagged t"
proof -
  assume step: "http_step curl diag s t" and inv: "flagged s"
  have acc: "accounted t" using accounted_step [OF step] inv by (simp add: flagged_def)
  from step show "flagged t"
  proof cases
    case (Turn us w vs tr w' t')
    then show ?thesis using flagged_turn inv by blast
  next
    case (Clear)
    then show ?thesis using acc all_joined_live [of s]
      by (auto simp: flagged_def shutdown_clear_def live_ids_def all_joined_def list_all_iff)
  next
    case (Poll n)
    have "hc_workers t = hc_workers s" "live_ids t = live_ids s" "cancel_flags t = cancel_flags s" "answered_ids t = answered_ids s"
      using poll_answered [of n s] by (simp_all add: Poll poll_responses_def Let_def live_ids_def)
    with acc inv show ?thesis by (simp add: flagged_def)
  qed (use acc inv in \<open>auto simp: flagged_def live_ids_def answered_ids_def take_request_id_def push_request_def cancel_request_def
      shutdown_store_def shutdown_notify_def split: if_splits\<close>)
qed

lemma flagged_start: "fresh_client s \<Longrightarrow> flagged s"
  using accounted_start [of s] by (auto simp: fresh_client_def new_http_client_def flagged_def live_ids_def)

interpretation flags: invariant_system fresh_client "http_step curl diag" flagged
  by unfold_locales (auto intro: flagged_start flagged_step)

text \<open>C30: a request cancelled in the queue is never transferred. The cancellation succeeds, no worker ever performs the
  request, and its answer, once there, says that it was cancelled.
\<close>

theorem cancelled_in_queue:
  assumes "http_reachable curl diag s" and "i \<in> qr_id ` set (hc_pending s)"
    and "cancel_request i s = (b, s1)" and "(http_step curl diag)\<^sup>*\<^sup>* s1 t"
  shows "b \<and> (\<forall>q. Performing q \<in> set (hc_workers t) \<longrightarrow> qr_id q \<noteq> i)
    \<and> (\<forall>r\<in>set (hc_completed t @ polled t). resp_id r = i \<longrightarrow> resp_cancelled r)"
proof -
  have inv: "flagged s" using assms(1) flags.inv_reachable unfolding http_reachable_def by blast
  then have acc: "accounted s" and flag: "i \<in> cancel_flags s" using assms(2) by (auto simp: flagged_def live_ids_def)
  then have s1: "b" "s1 = s\<lparr>cancelled_ids := insert i (cancelled_ids s)\<rparr>"
    using assms(3) by (auto simp: cancel_request_def)
  have queued: "1 \<le> count (mset (map qr_id (hc_pending s))) i" using assms(2) by (simp add: Suc_le_eq)
  have once: "count (open_ids s) i \<le> 1" by (rule accounted_apart(2) [OF acc])
  have "i \<in># open_ids s" using assms(2) by (auto simp: open_ids_def)
  from accounted_apart(1,3) [OF acc this] have fresh: "i \<notin># answered_ids s" "i < hc_next s" by simp_all
  have "count (sum_list (map submit_ids (hc_submits s))) i = 0" "count (sum_list (map worker_ids (hc_workers s))) i = 0"
    using queued once unfolding open_ids_def plus_multiset.rep_eq by linarith+
  then have "To_push q \<in> set (hc_submits s) \<Longrightarrow> qr_id q \<noteq> i" "w \<in> set (hc_workers s) \<Longrightarrow> i \<notin># worker_ids w" for q w
    by (auto simp: not_in_iff [symmetric] in_sum_list_worker_ids in_sum_list_submit_ids)
  moreover have "i \<notin># worker_ids w \<Longrightarrow> not_transferred i w" for w by (cases w) auto
  ultimately have "doomed i s1"
    using s1(2) fresh acc by (auto simp: doomed_def accounted_def answered_ids_def)
  then have "doomed i t" using doomed_steps [OF assms(4)] by blast
  then show ?thesis using s1(1) by (auto simp: doomed_def)
qed

section \<open>No request is forgotten\<close>

definition attended :: "http_client \<Rightarrow> bool" where
  "attended s \<longleftrightarrow> hc_workers s \<noteq> [] \<and> (Found_idle \<in> set (hc_workers s) \<longrightarrow> hc_pending s = [])
    \<and> (Exited \<in> set (hc_workers s) \<longrightarrow> hc_stop s)
    \<and> (hc_pending s \<noteq> [] \<and> \<not> hc_stop s \<longrightarrow> To_notify \<in> set (hc_submits s) \<or> (\<exists>w\<in>set (hc_workers s). w \<noteq> Blocked))"

lemma worker_turn_attends:
  assumes "worker_turn tr w s = (w', t)" and "w \<notin> {Blocked, Exited}" and "w = Found_idle \<Longrightarrow> hc_pending s = []"
  shows "w' = Blocked \<or> w' = Found_idle \<Longrightarrow> hc_pending t = []" and "w' = Exited \<Longrightarrow> hc_stop t"
    and "hc_pending s = [] \<Longrightarrow> hc_pending t = []"
  using assms by (cases w; auto simp: worker_turn_def pop_request_def split: list.splits if_splits)+

lemma attended_same:
  assumes "attended s" and "hc_workers t = hc_workers s" and "hc_pending t = hc_pending s \<or> hc_pending t = []"
    and "hc_stop s \<Longrightarrow> hc_stop t" and "To_notify \<in> set (hc_submits s) \<Longrightarrow> To_notify \<in> set (hc_submits t)"
  shows "attended t"
  using assms unfolding attended_def by metis

lemma attended_woken:
  assumes "attended s" and "hc_workers s = us @ Blocked # vs" and "hc_workers t = us @ At_pop # vs"
    and "hc_pending t = hc_pending s" and "hc_stop t = hc_stop s"
  shows "attended t"
proof -
  have "At_pop \<in> set (hc_workers t)" "At_pop \<noteq> Blocked" using assms(3) by simp_all
  moreover have "Found_idle \<in> set (hc_workers t) \<Longrightarrow> hc_pending t = []" "Exited \<in> set (hc_workers t) \<Longrightarrow> hc_stop t"
    using assms by (simp_all add: attended_def)
  ultimately show ?thesis unfolding attended_def by (metis empty_iff list.set(1))
qed

lemma attended_turn:
  assumes inv: "attended s" and ws: "hc_workers s = us @ w # vs" and w: "w \<notin> {Blocked, Exited}"
    and turn: "worker_turn tr w s = (w', t)"
  shows "attended (t\<lparr>hc_workers := us @ w' # vs\<rparr>)"
proof -
  have idle: "w = Found_idle \<Longrightarrow> hc_pending s = []" using inv ws by (simp add: attended_def)
  note a = worker_turn_attends [OF turn w idle] and k = worker_turn_fields [OF turn]
  have s: "Found_idle \<in> set us \<union> set vs \<Longrightarrow> hc_pending s = []" "Exited \<in> set us \<union> set vs \<Longrightarrow> hc_stop s"
    using inv ws by (simp_all add: attended_def)
  have "Found_idle = w' \<or> Found_idle \<in> set us \<union> set vs \<Longrightarrow> hc_pending t = []"
    "Exited = w' \<or> Exited \<in> set us \<union> set vs \<Longrightarrow> hc_stop t" "hc_pending t \<noteq> [] \<Longrightarrow> w' \<noteq> Blocked"
    using a s k(6) by blast+
  then show ?thesis unfolding attended_def by simp
qed

lemma attended_step: "http_step curl diag s t \<Longrightarrow> attended s \<Longrightarrow> attended t"
proof -
  assume step: "http_step curl diag s t" and inv: "attended s"
  from step show "attended t"
  proof cases
    case (Turn us w vs tr w' t')
    show ?thesis unfolding Turn(1) by (rule attended_turn [OF inv Turn(2,3,6)])
  next
    case (Push xs q ys)
    then show ?thesis using inv by (auto simp: attended_def push_request_def queue_free_def)
  next
    case (Notify xs ys us vs)
    then show ?thesis using attended_woken [OF inv Notify(3)] by simp
  next
    case (Wake us vs)
    then show ?thesis using attended_woken [OF inv Wake(2)] by simp
  next
    case (Notify_none xs ys)
    then show ?thesis using inv by (cases "hc_workers s") (auto simp: attended_def)
  next
    case (Notify_all)
    then show ?thesis using inv by (cases "hc_workers s") (auto simp: attended_def shutdown_notify_def)
  next
    case (Submit r i t')
    then show ?thesis using attended_same [OF inv] by (auto simp: take_request_id_def)
  next
    case (Cancel i)
    then show ?thesis using attended_same [OF inv] by (simp add: cancel_request_def)
  next
    case (Poll n)
    then show ?thesis using attended_same [OF inv] by (simp add: poll_responses_def Let_def)
  next
    case Store
    then show ?thesis using attended_same [OF inv] by (simp add: shutdown_store_def)
  next
    case Emit
    then show ?thesis using attended_same [OF inv] by simp
  next
    case Clear
    then show ?thesis using attended_same [OF inv] by (simp add: shutdown_clear_def)
  qed
qed

lemma attended_start: "fresh_client s \<Longrightarrow> attended s"
  by (auto simp: fresh_client_def new_http_client_def attended_def worker_count_def max_def split: if_splits)

interpretation attention: invariant_system fresh_client "http_step curl diag" attended
  by unfold_locales (auto intro: attended_start attended_step)

text \<open>While a request waits and the client is not stopped, a worker is up or is about to be woken.\<close>

lemma queue_attended:
  assumes "http_reachable curl diag s" and "hc_pending s \<noteq> []" and "\<not> hc_stop s"
  shows "To_notify \<in> set (hc_submits s) \<or> (\<exists>w\<in>set (hc_workers s). w \<notin> {Blocked, Found_idle, Exited})"
  using assms attention.inv_reachable unfolding http_reachable_def by (fastforce simp: attended_def)

section \<open>The shutdown\<close>

text \<open>With lifecycle diagnostics the notification comes when no worker is between its test and its sleep.\<close>

definition roused :: "http_client \<Rightarrow> bool" where
  "roused s \<longleftrightarrow> (hc_phase s \<noteq> Running \<longrightarrow> hc_stop s)
    \<and> (hc_phase s \<in> {Emitted, Joining, Returned} \<longrightarrow> Found_idle \<notin> set (hc_workers s))
    \<and> (hc_phase s \<in> {Joining, Returned} \<longrightarrow> Blocked \<notin> set (hc_workers s))"

lemma worker_turn_rouses:
  "worker_turn tr w s = (w', t) \<Longrightarrow> hc_stop s \<Longrightarrow> w' \<noteq> Found_idle \<and> (w \<notin> {Found_idle, Blocked} \<longrightarrow> w' \<noteq> Blocked)"
  by (cases w) (auto simp: worker_turn_def pop_request_def split: list.splits if_splits)

lemma roused_step: "http_step curl True s t \<Longrightarrow> roused s \<Longrightarrow> roused t"
proof -
  assume step: "http_step curl True s t" and inv: "roused s"
  from step show "roused t"
  proof cases
    case (Turn us w vs tr w' t')
    note k = worker_turn_fields [OF Turn(6)]
    show ?thesis
    proof (cases "hc_phase s = Running")
      case True
      then show ?thesis using k Turn(1) by (simp add: roused_def)
    next
      case False
      then show ?thesis using inv k worker_turn_rouses [OF Turn(6)] Turn(2,3) unfolding Turn(1) roused_def by auto
    qed
  qed (use inv in \<open>auto simp: roused_def take_request_id_def push_request_def cancel_request_def poll_responses_def Let_def
      shutdown_store_def shutdown_clear_def shutdown_notify_def queue_free_def split: if_splits\<close>)
qed

lemma roused_start: "fresh_client s \<Longrightarrow> roused s"
  by (auto simp: fresh_client_def new_http_client_def roused_def)

interpretation rousing: invariant_system fresh_client "http_step curl True" roused
  by unfold_locales (auto intro: roused_start roused_step)

text \<open>The turns of the workers, and how many a worker has left once the client is stopped.\<close>

inductive turn_step :: "(curl_option list \<Rightarrow> transfer \<Rightarrow> bool) \<Rightarrow> http_client \<Rightarrow> http_client \<Rightarrow> bool" for curl where
  "hc_workers s = us @ w # vs \<Longrightarrow> w \<notin> {Blocked, Exited} \<Longrightarrow> (w = At_pop \<or> (\<exists>i. w = Erasing i) \<Longrightarrow> queue_free s) \<Longrightarrow>
    (\<And>q. w = Performing q \<Longrightarrow> curl (transfer_options (qr_request q)) tr) \<Longrightarrow>
    worker_turn tr w s = (w', t) \<Longrightarrow> turn_step curl s (t\<lparr>hc_workers := us @ w' # vs\<rparr>)"

fun turns_left :: "worker \<Rightarrow> nat" where
  "turns_left (Popped q) = 6"
| "turns_left (Performing q) = 5"
| "turns_left (Performed q tr) = 4"
| "turns_left (Completing r) = 3"
| "turns_left (Erasing i) = 2"
| "turns_left At_test = 1"
| "turns_left At_pop = 1"
| "turns_left _ = 0"

definition work_left :: "http_client \<Rightarrow> nat" where
  "work_left s = sum_list (map turns_left (hc_workers s))"

lemma turn_step_http: "turn_step curl s t \<Longrightarrow> http_step curl diag s t"
  by (induction rule: turn_step.induct) (blast intro: http_step.Turn)

lemma turn_step_fields: "turn_step curl s t \<Longrightarrow> hc_stop t = hc_stop s \<and> hc_phase t = hc_phase s"
  by (induction rule: turn_step.induct) (auto dest: worker_turn_fields)

lemma worker_turn_left:
  "worker_turn tr w s = (w', t) \<Longrightarrow> hc_stop s \<Longrightarrow> w \<notin> {Blocked, Exited, Found_idle} \<Longrightarrow> turns_left w' < turns_left w"
  by (cases w) (auto simp: worker_turn_def pop_request_def split: list.splits if_splits)

lemma turn_step_left: "turn_step curl s t \<Longrightarrow> hc_stop s \<Longrightarrow> Found_idle \<notin> set (hc_workers s) \<Longrightarrow> work_left t < work_left s"
proof (induction rule: turn_step.induct)
  case (1 s us w vs tr w' t)
  then show ?case using worker_turn_left [of tr w s w' t] by (auto simp: work_left_def)
qed

lemma turns_left_le: "turns_left w \<le> 6"
  by (cases w) simp_all

lemma turns_left_sum: "sum_list (map turns_left ws) \<le> 6 * length ws"
proof (induction ws)
  case (Cons w ws)
  then show ?case using turns_left_le [of w] by simp
qed simp

lemma work_left_le: "work_left s \<le> 6 * length (hc_workers s)"
  unfolding work_left_def by (rule turns_left_sum)

lemma turn_possible:
  assumes "\<not> all_joined s" "Blocked \<notin> set (hc_workers s)" "queue_free s" "\<And>os. \<exists>tr. curl os tr"
  shows "\<exists>t. turn_step curl s t"
proof -
  obtain us w vs where w: "hc_workers s = us @ w # vs" "w \<noteq> Exited"
    using assms(1) by (auto simp: all_joined_def list_all_iff dest: split_list)
  then have up: "w \<notin> {Blocked, Exited}" using assms(2) by auto
  obtain tr where tr: "\<And>q. w = Performing q \<Longrightarrow> curl (transfer_options (qr_request q)) tr"
  proof (cases w)
    case (Performing q)
    then show ?thesis using that assms(4) [of "transfer_options (qr_request q)"] by auto
  qed (use that in auto)
  obtain w' t where "worker_turn tr w s = (w', t)" by fastforce
  with w(1) up tr assms(3) have "turn_step curl s (t\<lparr>hc_workers := us @ w' # vs\<rparr>)" by (intro turn_step.intros)
  then show ?thesis by blast
qed

text \<open>With lifecycle diagnostics, a shutdown that joins its workers ends. If every transfer returns, then from the
  moment all are notified the workers can make at most six turns each, and as long as one has not exited, a turn
  is possible; none sleeps.
\<close>

theorem shutdown_ends:
  assumes "http_reachable curl True s" and "hc_phase s = Joining" and "\<And>os. \<exists>tr. curl os tr"
    and "(turn_step curl ^^ n) s t"
  shows "n \<le> 6 * length (hc_workers s) \<and> (all_joined t \<or> (\<exists>u. turn_step curl t u))"
proof -
  have inv: "roused s" using assms(1) rousing.inv_reachable unfolding http_reachable_def by blast
  have "roused t \<and> hc_phase t = Joining \<and> work_left t + n \<le> work_left s" using assms(4)
  proof (induction n arbitrary: t)
    case 0
    then show ?case using inv assms(2) by simp
  next
    case (Suc n)
    then obtain u where u: "(turn_step curl ^^ n) s u" "turn_step curl u t" by auto
    from Suc.IH [OF u(1)] have ih: "roused u" "hc_phase u = Joining" "work_left u + n \<le> work_left s" by simp_all
    then have "work_left t < work_left u" using turn_step_left [OF u(2)] by (simp add: roused_def)
    moreover have "roused t" using roused_step [OF turn_step_http [OF u(2)] ih(1)] .
    ultimately show ?case using ih turn_step_fields [OF u(2)] by simp
  qed
  then show ?thesis
    using work_left_le [of s] turn_possible [of t curl] assms(3) by (auto simp: roused_def queue_free_def)
qed

text \<open>
  Without the diagnostics, the notification may come while a worker is about to sleep. It then sleeps for ever, unless it
  wakes by itself, and the shutdown with it.
\<close>

lemma http_steps_from:
  "http_step curl diag s t \<Longrightarrow> (http_step curl diag)\<^sup>*\<^sup>* t u \<Longrightarrow> (http_step curl diag)\<^sup>*\<^sup>* s u"
  by (rule converse_rtranclp_into_rtranclp)

lemma reachable_from_new: "(http_step curl diag)\<^sup>*\<^sup>* (new_http_client n hw) s \<Longrightarrow> http_reachable curl diag s"
  unfolding http_reachable_def fresh_client_def by blast

lemma one_worker_turn:
  "hc_workers s = [w] \<Longrightarrow> w \<notin> {Blocked, Exited} \<Longrightarrow> (\<forall>q. w \<noteq> Performing q) \<Longrightarrow> (w = At_pop \<or> (\<exists>i. w = Erasing i) \<Longrightarrow> queue_free s) \<Longrightarrow>
    worker_turn Init_failed w s = (w', t) \<Longrightarrow> http_step curl diag s (t\<lparr>hc_workers := [w']\<rparr>)"
  using http_step.Turn [of s "[]" w "[]" curl Init_failed w' t diag] by auto

lemma shutdown_may_hang:
  "\<exists>s. http_reachable curl False s \<and> hc_phase s = Joining \<and> hc_workers s = [Blocked] \<and> hc_submits s = []"
proof -
  let ?s0 = "new_http_client 1 1"
  let ?s1 = "?s0\<lparr>hc_workers := [At_pop]\<rparr>"
  let ?s2 = "?s0\<lparr>hc_workers := [Found_idle]\<rparr>"
  let ?s3 = "shutdown_store ?s2"
  let ?s4 = "?s3\<lparr>hc_phase := Emitted\<rparr>"
  let ?s5 = "shutdown_notify ?s4"
  let ?s6 = "?s5\<lparr>hc_workers := [Blocked]\<rparr>"
  note defs = new_http_client_def worker_count_def shutdown_store_def shutdown_notify_def worker_turn_def pop_request_def queue_free_def
  have "http_step curl False ?s0 ?s1" using one_worker_turn [of ?s0 At_test At_pop ?s0] by (simp add: defs)
  moreover have "http_step curl False ?s1 ?s2" using one_worker_turn [of ?s1 At_pop Found_idle ?s1] by (simp add: defs)
  moreover have "http_step curl False ?s2 ?s3" by (rule http_step.Store) (simp add: defs)
  moreover have "http_step curl False ?s3 ?s4" by (rule http_step.Emit) (simp_all add: defs)
  moreover have "http_step curl False ?s4 ?s5" by (rule http_step.Notify_all) simp
  moreover have "http_step curl False ?s5 ?s6" using one_worker_turn [of ?s5 Found_idle Blocked ?s5] by (simp add: defs)
  ultimately have "(http_step curl False)\<^sup>*\<^sup>* ?s0 ?s6"
    by (meson http_steps_from rtranclp.rtrancl_refl)
  then have "http_reachable curl False ?s6" by (rule reachable_from_new)
  then show ?thesis by (intro exI [of _ ?s6]) (simp add: defs)
qed

text \<open>After a shutdown requests are still accepted, and never answered.\<close>

lemma no_answer_after_shutdown:
  assumes "(http_step curl diag)\<^sup>*\<^sup>* s t" and "hc_phase s = Returned" and "all_joined s"
  shows "hc_phase t = Returned \<and> all_joined t \<and> answered_ids t = answered_ids s"
  using assms
proof (induction rule: rtranclp_induct)
  case (step t u)
  then have t: "hc_phase t = Returned" "all_joined t" "answered_ids t = answered_ids s" by simp_all
  from step.hyps(2) show ?case
  proof cases
    case (Poll n)
    then show ?thesis using t poll_answered [of n t] by (simp add: poll_responses_def Let_def all_joined_def)
  qed (use t in \<open>auto simp: all_joined_def answered_ids_def take_request_id_def push_request_def cancel_request_def split: if_splits\<close>)
qed simp

section \<open>Examples\<close>

definition sample_request :: http_request where
  "sample_request = \<lparr>url = ''http://a'', http_method = ''GET'', req_headers = [], req_body = [], timeout_ms = 0, connect_timeout_ms = 0,
     delay_ms = 0, follow_redirects = True, user_agent = ''space-http/1.0'', chunk_callback = None\<rparr>"

definition one_queued :: http_client where
  "one_queued = (new_http_client 1 1)\<lparr>hc_next := 2, hc_pending := [\<lparr>qr_id = 1, qr_request = sample_request\<rparr>], cancel_flags := {1},
     hc_submits := [To_notify]\<rparr>"

definition joining :: http_client where
  "joining = (new_http_client 1 1)\<lparr>hc_stop := True, hc_phase := Joining\<rparr>"

definition curl_answers :: "curl_option list \<Rightarrow> transfer \<Rightarrow> bool" where
  "curl_answers os tr \<longleftrightarrow> tr = Transferred None [''Server: a''] [''body''] 200"

lemma one_queued_reachable: "http_reachable curl diag one_queued"
proof -
  let ?s0 = "new_http_client 1 1" and ?q = "\<lparr>qr_id = 1, qr_request = sample_request\<rparr>"
  let ?s1 = "?s0\<lparr>hc_next := 2, hc_submits := [To_push ?q]\<rparr>"
  have "http_step curl diag ?s0 ?s1"
    using http_step.Submit [of sample_request ?s0 1 "?s0\<lparr>hc_next := 2\<rparr>" curl diag]
    by (simp add: sample_request_def take_request_id_def new_http_client_def)
  moreover have "http_step curl diag ?s1 one_queued"
    using http_step.Push [of ?s1 "[]" ?q "[]" curl diag]
    by (simp add: one_queued_def push_request_def queue_free_def new_http_client_def worker_count_def)
  ultimately show ?thesis by (meson reachable_from_new http_steps_from rtranclp.rtrancl_refl)
qed

lemma joining_reachable: "http_reachable curl True joining"
proof -
  let ?s0 = "new_http_client 1 1"
  let ?s1 = "shutdown_store ?s0"
  let ?s2 = "?s1\<lparr>hc_phase := Emitted\<rparr>"
  note defs = new_http_client_def worker_count_def shutdown_store_def shutdown_notify_def queue_free_def
  have "http_step curl True ?s0 ?s1" by (rule http_step.Store) (simp add: defs)
  moreover have "http_step curl True ?s1 ?s2" by (rule http_step.Emit) (simp_all add: defs)
  moreover have "http_step curl True ?s2 (shutdown_notify ?s2)" by (rule http_step.Notify_all) simp
  moreover have "shutdown_notify ?s2 = joining" by (simp add: joining_def defs)
  ultimately show ?thesis by (metis reachable_from_new http_steps_from rtranclp.rtrancl_refl)
qed

theorem requests_accounted_witness:
  "open_ids one_queued + answered_ids one_queued + mset (dropped one_queued) = mset [1..<hc_next one_queued]
    \<and> distinct (map resp_id (hc_completed one_queued @ polled one_queued))"
  by (rule requests_accounted [OF one_queued_reachable])

theorem cancelled_in_queue_witness:
  "fst (cancel_request 1 one_queued)
    \<and> Performing \<lparr>qr_id = 1, qr_request = sample_request\<rparr> \<notin> set (hc_workers (snd (cancel_request 1 one_queued)))"
proof -
  obtain b s1 where c: "cancel_request 1 one_queued = (b, s1)" by fastforce
  have "1 \<in> qr_id ` set (hc_pending one_queued)" by (simp add: one_queued_def)
  from cancelled_in_queue [OF one_queued_reachable [of curl_answers True] this c rtranclp.rtrancl_refl]
  show ?thesis by (unfold c) (auto simp del: One_nat_def)
qed

theorem shutdown_ends_witness: "all_joined joining \<or> (\<exists>u. turn_step curl_answers joining u)"
  using shutdown_ends [OF joining_reachable, of curl_answers 0 joining]
  by (auto simp: joining_def curl_answers_def)

text \<open>The header lines and the body a response is made of.\<close>

lemma write_header_line:
  assumes "CHR '':'' \<notin> set k" and "v \<noteq> []" and "\<not> blank (hd v)" and "\<not> line_end (last v)"
  shows "write_header (k @ '': '' @ v @ [CHR 0x0D, CHR 0x0A]) hs = hs @ [(k, v)]"
proof -
  obtain c v' where v: "v = c # v'" using assms(2) by (cases v) auto
  obtain w d where w: "v = w @ [d]" using assms(2) by (metis append_butlast_last_id)
  have "takeWhile (\<lambda>c. c \<noteq> CHR '':'') (k @ '': '' @ v @ [CHR 0x0D, CHR 0x0A]) = k"
    using assms(1) by (subst takeWhile_append2) auto
  moreover have "dropWhile blank ('' '' @ v @ [CHR 0x0D, CHR 0x0A]) = v @ [CHR 0x0D, CHR 0x0A]"
    using assms(3) by (simp add: blank_def v)
  moreover have "rev (dropWhile line_end (rev (v @ [CHR 0x0D, CHR 0x0A]))) = v"
    using assms(4) by (simp add: w line_end_def)
  ultimately show ?thesis by (simp add: write_header_def Let_def)
qed

lemma body_is_chunks: "fst (fold (write_body cb) chunks (body, calls)) = body @ concat chunks"
  by (induction chunks arbitrary: body calls) (simp_all add: write_body_def)

end
