(* ===== verification/Script_Random.thy ===== *)
theory Script_Random
  imports Prelude "HOL-Library.Multiset"
begin

text \<open>
  The random functions of \<open>src/src/lua_random.cpp\<close>: seeding, numbers of a range, bytes, choice, shuffle and sample.
  The engine and the distributions of the standard library are parameters: \<open>draw_int a b\<close> draws an integer between
  \<open>a\<close> and \<open>b\<close>, \<open>draw_word\<close> a 64-bit word. A sequence is a list; its positions start at 1 in scripts. Integers are
  64-bit: a computation that overflows is undefined in C++ and \<open>None\<close> here.
\<close>

section \<open>The engine\<close>

record 'g engine_ops =
  draw_int :: "int \<Rightarrow> int \<Rightarrow> 'g \<Rightarrow> int \<times> 'g"
  draw_word :: "'g \<Rightarrow> u64 \<times> 'g"
  seed_engine :: "u64 \<Rightarrow> 'g"

text \<open>What the standard promises of \<open>uniform_int_distribution\<close>, for a nonempty range.\<close>

definition draws_in_range :: "'g engine_ops \<Rightarrow> bool" where
  "draws_in_range E \<longleftrightarrow> (\<forall>a b g. a \<le> b \<longrightarrow> a \<le> fst (draw_int E a b g) \<and> fst (draw_int E a b g) \<le> b)"

record 'g random_state =
  rnd_engine :: 'g
  seeded :: bool

text \<open>\<open>entropy\<close> is the engine that the system's random device would seed.\<close>

definition seed_from_entropy :: "'g \<Rightarrow> 'g random_state \<Rightarrow> 'g random_state" where
  "seed_from_entropy entropy s = s\<lparr>rnd_engine := entropy, seeded := True\<rparr>"

definition get_engine :: "'g \<Rightarrow> 'g random_state \<Rightarrow> 'g random_state" where
  "get_engine entropy s = (if \<not> seeded s then seed_from_entropy entropy s else s)"

definition random_seed :: "'g engine_ops \<Rightarrow> 'g \<Rightarrow> u64 option \<Rightarrow> 'g random_state \<Rightarrow> 'g random_state" where
  "random_seed E entropy seed s =
    (case seed of
       Some n \<Rightarrow> (get_engine entropy s)\<lparr>rnd_engine := seed_engine E n, seeded := True\<rparr>
     | None \<Rightarrow> seed_from_entropy entropy s)"

definition draw :: "'g engine_ops \<Rightarrow> 'g \<Rightarrow> int \<Rightarrow> int \<Rightarrow> 'g random_state \<Rightarrow> int \<times> 'g random_state" where
  "draw E entropy a b s =
    (let s1 = get_engine entropy s in case draw_int E a b (rnd_engine s1) of (v, g) \<Rightarrow> (v, s1\<lparr>rnd_engine := g\<rparr>))"

section \<open>Integers of a range\<close>

definition fits64 :: "int \<Rightarrow> bool" where
  "fits64 i \<longleftrightarrow> - (2 ^ 63) \<le> i \<and> i < 2 ^ 63"

definition random_randint :: "'g engine_ops \<Rightarrow> 'g \<Rightarrow> int \<Rightarrow> int \<Rightarrow> 'g random_state \<Rightarrow> int result \<times> 'g random_state" where
  "random_randint E entropy a b s =
    (if a > b then (Inl (Runtime_error ''random.randint requires a <= b''), s)
     else case draw E entropy a b s of (v, s) \<Rightarrow> (Inr v, s))"

definition range_error :: "string \<Rightarrow> exn" where
  "range_error what = Runtime_error (''random.randrange '' @ what)"

text \<open>
  The number of values of the range, from its width; the inner option is an overflow, the operands of the divisions
  are not negative.
\<close>

definition range_count :: "int \<Rightarrow> int \<Rightarrow> int option" where
  "range_count span step =
    (if step > 0 then
       if fits64 (span + step) \<and> fits64 (span + step - 1) then Some ((span + step - 1) div step) else None
     else
       let neg_step = - step; neg_span = - span in
       if fits64 neg_step \<and> fits64 neg_span \<and> fits64 (neg_span + neg_step) \<and> fits64 (neg_span + neg_step - 1)
       then Some ((neg_span + neg_step - 1) div neg_step) else None)"

text \<open>The arguments are script values: an integer, or something else.\<close>

definition random_randrange :: "'g engine_ops \<Rightarrow> 'g \<Rightarrow> int option list \<Rightarrow> 'g random_state \<Rightarrow> (int result \<times> 'g random_state) option" where
  "random_randrange E entropy args s =
    (if length args < 1 \<or> length args > 3 then Some (Inl (range_error ''expects 1 to 3 arguments''), s)
     else if None \<in> set args then Some (Inl (range_error ''expects integer arguments''), s)
     else
       let vs = map the args;
           start = (if length vs = 1 then 0 else vs ! 0);
           stop = (if length vs = 1 then vs ! 0 else vs ! 1);
           step = (if length vs = 3 then vs ! 2 else 1)
       in if step = 0 then Some (Inl (range_error ''step must not be 0''), s)
          else let span = stop - start in
            if \<not> fits64 span then None
            else if (span > 0 \<and> step < 0) \<or> (span < 0 \<and> step > 0) \<or> span = 0
            then Some (Inl (range_error ''empty range''), s)
            else case range_count span step of
                None \<Rightarrow> None
              | Some cnt \<Rightarrow>
                  if cnt \<le> 0 then Some (Inl (range_error ''empty range''), s)
                  else case draw E entropy 0 (cnt - 1) s of (offset, s1) \<Rightarrow>
                    if fits64 (offset * step) \<and> fits64 (start + offset * step)
                    then Some (Inr (start + offset * step), s1) else None)"

section \<open>Bytes\<close>

text \<open>The bytes of a word from the lowest, at most \<open>n\<close> of them; then those of the next word.\<close>

fun word_bytes :: "nat \<Rightarrow> u64 \<Rightarrow> byte list" where
  "word_bytes 0 v = []"
| "word_bytes (Suc n) v = ucast (v AND 0xFF) # word_bytes n (drop_bit 8 v)"

function random_bytes :: "'g engine_ops \<Rightarrow> nat \<Rightarrow> 'g \<Rightarrow> byte list \<times> 'g" where
  "random_bytes E remaining g =
    (if remaining = 0 then ([], g)
     else case draw_word E g of (v, g1) \<Rightarrow>
       case random_bytes E (remaining - min 8 remaining) g1 of (bs, g2) \<Rightarrow> (word_bytes (min 8 remaining) v @ bs, g2))"
  by pat_completeness auto
termination by (relation "measure (\<lambda>(E, n, g). n)") auto

declare random_bytes.simps [simp del]

definition random_randbytes :: "'g engine_ops \<Rightarrow> 'g \<Rightarrow> int \<Rightarrow> 'g random_state \<Rightarrow> byte list result \<times> 'g random_state" where
  "random_randbytes E entropy n s =
    (if n < 0 then (Inl (Runtime_error ''random.randbytes requires n >= 0''), s)
     else if n = 0 then (Inr [], s)
     else let s1 = get_engine entropy s in
       case random_bytes E (nat n) (rnd_engine s1) of (bs, g) \<Rightarrow> (Inr bs, s1\<lparr>rnd_engine := g\<rparr>))"

definition hex_digits :: string where "hex_digits = ''0123456789abcdef''"

definition bytes_to_hex :: "byte list \<Rightarrow> string" where
  "bytes_to_hex bs = concat (map (\<lambda>c. [hex_digits ! unat (drop_bit 4 c AND 0x0F), hex_digits ! unat (c AND 0x0F)]) bs)"

definition random_randbytes_hex :: "'g engine_ops \<Rightarrow> 'g \<Rightarrow> int \<Rightarrow> 'g random_state \<Rightarrow> string result \<times> 'g random_state" where
  "random_randbytes_hex E entropy n s =
    (if n < 0 then (Inl (Runtime_error ''random.randbytes-hex requires n >= 0''), s)
     else case random_randbytes E entropy n s of (r, s1) \<Rightarrow> (bind_result r (\<lambda>bs. Inr (bytes_to_hex bs)), s1))"

section \<open>Sequences\<close>

definition random_choice :: "'g engine_ops \<Rightarrow> 'g \<Rightarrow> 'a list \<Rightarrow> 'g random_state \<Rightarrow> 'a result \<times> 'g random_state" where
  "random_choice E entropy xs s =
    (if xs = [] then (Inl (Runtime_error ''random.choice requires a non-empty sequence''), s)
     else case draw E entropy 1 (int (length xs)) s of (i, s1) \<Rightarrow> (Inr (xs ! (nat i - 1)), s1))"

text \<open>The exchange of two elements, by their positions in scripts.\<close>

definition exchange :: "nat \<Rightarrow> nat \<Rightarrow> 'a list \<Rightarrow> 'a list" where
  "exchange i j xs = xs[i := xs ! j, j := xs ! i]"

fun shuffle_loop :: "'g engine_ops \<Rightarrow> 'g \<Rightarrow> nat \<Rightarrow> 'a list \<Rightarrow> 'g random_state \<Rightarrow> 'a list \<times> 'g random_state" where
  "shuffle_loop E entropy i xs s =
    (if i < 2 then (xs, s)
     else case draw E entropy 1 (int i) s of (j, s1) \<Rightarrow> shuffle_loop E entropy (i - 1) (exchange (i - 1) (nat j - 1) xs) s1)"

declare shuffle_loop.simps [simp del]

definition random_shuffle :: "'g engine_ops \<Rightarrow> 'g \<Rightarrow> 'a list \<Rightarrow> 'g random_state \<Rightarrow> 'a list \<times> 'g random_state" where
  "random_shuffle E entropy xs s = (if length xs \<le> 1 then (xs, s) else shuffle_loop E entropy (length xs) xs s)"

fun sample_loop :: "'g engine_ops \<Rightarrow> 'g \<Rightarrow> nat \<Rightarrow> nat \<Rightarrow> nat list \<Rightarrow> 'g random_state \<Rightarrow> nat list \<times> 'g random_state" where
  "sample_loop E entropy i 0 ids s = (ids, s)"
| "sample_loop E entropy i (Suc k) ids s =
    (case draw E entropy (int i) (int (length ids) - 1) s of (j, s1) \<Rightarrow>
       sample_loop E entropy (i + 1) k (exchange i (nat j) ids) s1)"

definition random_sample :: "'g engine_ops \<Rightarrow> 'g \<Rightarrow> 'a list \<Rightarrow> int \<Rightarrow> 'g random_state \<Rightarrow> 'a list result \<times> 'g random_state" where
  "random_sample E entropy xs k s =
    (if k < 0 then (Inl (Runtime_error ''random.sample requires k >= 0''), s)
     else if nat k > length xs then (Inl (Runtime_error ''random.sample requires k <= len(seq)''), s)
     else case sample_loop E entropy 0 (nat k) [1..<length xs + 1] s of (ids, s1) \<Rightarrow>
       (Inr (map (\<lambda>i. xs ! (ids ! i - 1)) [0..<nat k]), s1))"

end
