(* ===== verification/Random_Properties.thy ===== *)
theory Random_Properties
  imports Script_Random
begin

text \<open>
  What the random functions return: values of the range asked for, a permutation of the sequence, any of them for some
  draws, elements of different positions, and bytes from the engine's words in their order.
\<close>

lemma get_engine_seeded [simp]: "seeded (get_engine entropy s)"
  by (simp add: get_engine_def seed_from_entropy_def)

lemma draw_range:
  assumes "draws_in_range E" "a \<le> b"
  shows "a \<le> fst (draw E entropy a b s)" "fst (draw E entropy a b s) \<le> b"
  using assms by (auto simp: draws_in_range_def draw_def Let_def split: prod.splits; metis fst_conv)+

section \<open>Permutations\<close>

lemma exchange_length [simp]: "length (exchange i j xs) = length xs"
  by (simp add: exchange_def)

lemma exchange_mset: "i < length xs \<Longrightarrow> j < length xs \<Longrightarrow> mset (exchange i j xs) = mset xs"
  unfolding exchange_def using mset_swap [of j xs i] by (simp add: list_update_swap)

lemma shuffle_loop_mset:
  assumes "draws_in_range E" and "i \<le> length xs"
  shows "mset (fst (shuffle_loop E entropy i xs s)) = mset xs"
  using assms(2)
proof (induction i arbitrary: xs s rule: less_induct)
  case (less i)
  show ?case
  proof (cases "i < 2")
    case True
    then show ?thesis by (simp add: shuffle_loop.simps)
  next
    case False
    obtain j s1 where d: "draw E entropy 1 (int i) s = (j, s1)" by fastforce
    have "1 \<le> j" "j \<le> int i" using draw_range [OF assms(1), of 1 "int i" entropy s] False d by simp_all
    then have "i - 1 < length xs" "nat j - 1 < length xs" using less.prems False by linarith+
    then show ?thesis
      using less.IH [of "i - 1" "exchange (i - 1) (nat j - 1) xs" s1] less.prems False d
      by (subst shuffle_loop.simps) (simp add: exchange_mset)
  qed
qed

text \<open>An engine that draws what a list says: every result of a shuffle is one of its.\<close>

definition scripted :: "int list engine_ops" where
  "scripted = \<lparr>draw_int = (\<lambda>a b ds. case ds of [] \<Rightarrow> (a, []) | d # ds \<Rightarrow> (if a \<le> d \<and> d \<le> b then d else a, ds)),
     draw_word = (\<lambda>ds. (0, ds)), seed_engine = (\<lambda>n. [])\<rparr>"

lemma scripted_in_range: "draws_in_range scripted"
  by (auto simp: draws_in_range_def scripted_def split: list.splits)

lemma scripted_draw:
  "a \<le> d \<Longrightarrow> d \<le> b \<Longrightarrow> draw scripted e a b \<lparr>rnd_engine = d # ds, seeded = True\<rparr> = (d, \<lparr>rnd_engine = ds, seeded = True\<rparr>)"
  by (simp add: draw_def scripted_def get_engine_def)

lemma shuffle_reaches:
  "mset ys = mset (take i xs) \<Longrightarrow> i \<le> length xs \<Longrightarrow>
    \<exists>ds. fst (shuffle_loop scripted e i xs \<lparr>rnd_engine = ds, seeded = True\<rparr>) = ys @ drop i xs"
proof (induction i arbitrary: xs ys)
  case 0
  then show ?case by (simp add: shuffle_loop.simps)
next
  case (Suc i)
  have len: "length ys = Suc i" using Suc.prems by (metis length_take min.absorb2 size_mset)
  show ?case
  proof (cases "i = 0")
    case True
    with Suc.prems len obtain y where "ys = [y]" by (cases ys) auto
    with Suc.prems True have "ys = take 1 xs" by (cases xs) auto
    with True show ?thesis by (simp add: shuffle_loop.simps)
  next
    case False
    obtain zs y where ys: "ys = zs @ [y]" using len by (metis append_butlast_last_id length_0_conv nat.distinct(1))
    then have "y \<in> set (take (Suc i) xs)" using Suc.prems(1) by (metis in_set_conv_decomp mset_eq_setD)
    then obtain j where j: "j \<le> i" "xs ! j = y" using Suc.prems(2) by (fastforce simp: in_set_conv_nth less_Suc_eq_le)
    let ?xs = "exchange i j xs"
    have at_i: "?xs ! i = y" using j Suc.prems(2) by (cases "i = j") (simp_all add: exchange_def)
    have rest: "drop (Suc i) ?xs = drop (Suc i) xs" using j by (simp add: exchange_def)
    have "mset (take (Suc i) ?xs) = mset (take (Suc i) xs)"
      using exchange_mset [of i "take (Suc i) xs" j] j Suc.prems(2) by (simp add: exchange_def take_update_swap)
    moreover have "take (Suc i) ?xs = take i ?xs @ [y]" using at_i Suc.prems(2) by (simp add: take_Suc_conv_app_nth)
    ultimately have "add_mset y (mset zs) = add_mset y (mset (take i ?xs))" using Suc.prems(1) ys by simp
    then have "mset zs = mset (take i ?xs)" by simp
    then obtain ds where ds: "fst (shuffle_loop scripted e i ?xs \<lparr>rnd_engine = ds, seeded = True\<rparr>) = zs @ drop i ?xs"
      using Suc.IH [of zs ?xs] Suc.prems(2) by auto
    have "drop i ?xs = y # drop (Suc i) xs"
      using at_i rest Suc.prems(2) by (metis Cons_nth_drop_Suc Suc_le_lessD exchange_length)
    with ds ys have "fst (shuffle_loop scripted e (Suc i) xs \<lparr>rnd_engine = int (Suc j) # ds, seeded = True\<rparr>) = ys @ drop (Suc i) xs"
      using scripted_draw [of 1 "int (Suc j)" "int (Suc i)" e ds] j(1) False
      by (subst shuffle_loop.simps) (simp add: nat_add_distrib)
    then show ?thesis by blast
  qed
qed

text \<open>C31: a shuffle yields exactly the permutations. Whatever the engine draws within the ranges asked for, the result has the
  same elements as often; and every rearrangement of the sequence is the result for some draws.
\<close>

theorem shuffle_permutes:
  "(\<forall>E entropy s. draws_in_range (E :: 'g engine_ops) \<longrightarrow> mset (fst (random_shuffle E entropy xs s)) = mset xs)
   \<and> (\<forall>ys. mset ys = mset xs \<longrightarrow> (\<exists>ds. fst (random_shuffle scripted e xs \<lparr>rnd_engine = ds, seeded = True\<rparr>) = ys))"
proof (intro conjI allI impI)
  fix E :: "'g engine_ops" and entropy s
  assume "draws_in_range E"
  then show "mset (fst (random_shuffle E entropy xs s)) = mset xs"
    by (simp add: random_shuffle_def shuffle_loop_mset)
next
  fix ys assume ys: "mset ys = mset xs"
  show "\<exists>ds. fst (random_shuffle scripted e xs \<lparr>rnd_engine = ds, seeded = True\<rparr>) = ys"
  proof (cases "length xs \<le> 1")
    case True
    with ys have "ys = xs" by (cases xs) (auto simp: mset_single_iff_right)
    with True show ?thesis by (simp add: random_shuffle_def)
  next
    case False
    then show ?thesis using shuffle_reaches [of ys "length xs" xs e] ys by (simp add: random_shuffle_def)
  qed
qed

theorem shuffle_permutes_witness:
  "mset (fst (random_shuffle scripted [] [1, 2, 3 :: nat] \<lparr>rnd_engine = [2, 1], seeded = True\<rparr>)) = mset [1, 2, 3]
   \<and> (\<exists>ds. fst (random_shuffle scripted [] [1, 2, 3 :: nat] \<lparr>rnd_engine = ds, seeded = True\<rparr>) = [3, 1, 2])"
proof
  note all = shuffle_permutes [where 'g = "int list", of "[1, 2, 3 :: nat]" "[]"]
  show "mset (fst (random_shuffle scripted [] [1, 2, 3 :: nat] \<lparr>rnd_engine = [2, 1], seeded = True\<rparr>)) = mset [1, 2, 3]"
    by (rule conjunct1 [OF all, rule_format, OF scripted_in_range])
  have "mset [3, 1, 2] = mset [1, 2, 3 :: nat]" by simp
  then show "\<exists>ds. fst (random_shuffle scripted [] [1, 2, 3 :: nat] \<lparr>rnd_engine = ds, seeded = True\<rparr>) = [3, 1, 2]"
    by (rule conjunct2 [OF all, rule_format])
qed

section \<open>Samples\<close>

lemma sample_loop_mset:
  assumes "draws_in_range E" and "i + k \<le> length ids"
  shows "mset (fst (sample_loop E entropy i k ids s)) = mset ids"
  using assms(2)
proof (induction k arbitrary: i ids s)
  case (Suc k)
  obtain j s1 where d: "draw E entropy (int i) (int (length ids) - 1) s = (j, s1)" by fastforce
  have "int i \<le> j" "j \<le> int (length ids) - 1"
    using draw_range [OF assms(1), of "int i" "int (length ids) - 1" entropy s] Suc.prems d by simp_all
  then have "i < length ids" "nat j < length ids" using Suc.prems by linarith+
  then show ?case using Suc.IH [of "i + 1" "exchange i (nat j) ids" s1] Suc.prems d by (simp add: exchange_mset)
qed simp

text \<open>
  A sample takes different positions. For a number of elements that the sequence has, the result lists that many
  of its elements, each from a position of its own.
\<close>

lemma sample_takes_positions:
  assumes "draws_in_range E" and "0 \<le> k" and "nat k \<le> length xs"
  shows "\<exists>ps. fst (random_sample E entropy xs k s) = Inr (map (\<lambda>p. xs ! p) ps)
    \<and> length ps = nat k \<and> distinct ps \<and> set ps \<subseteq> {..<length xs}"
proof -
  let ?ids = "fst (sample_loop E entropy 0 (nat k) [1..<length xs + 1] s)"
  let ?ps = "map (\<lambda>i. ?ids ! i - 1) [0..<nat k]"
  have ids: "mset ?ids = mset [1..<length xs + 1]"
    using sample_loop_mset [OF assms(1), of 0 "nat k" "[1..<length xs + 1]" entropy s] assms(3)
    by (simp only: length_upt add_0 diff_add_inverse2)
  then have len: "length ?ids = length xs" and members: "set ?ids = {1..<length xs + 1}" and dist: "distinct ?ids"
    by (metis add_diff_cancel_right' length_upt size_mset, metis mset_eq_setD set_upt, metis distinct_upt mset_eq_imp_distinct_iff)
  have in_range: "1 \<le> ?ids ! i \<and> ?ids ! i \<le> length xs" if "i < nat k" for i
    using members that len assms(3) nth_mem [of i ?ids] by auto
  have "distinct ?ps"
  proof (subst distinct_map, intro conjI inj_onI)
    fix i j assume ij: "i \<in> set [0..<nat k]" "j \<in> set [0..<nat k]" "?ids ! i - 1 = ?ids ! j - 1"
    have "1 \<le> ?ids ! i" "1 \<le> ?ids ! j" using in_range ij(1,2) by simp_all
    with ij(3) have "?ids ! i = ?ids ! j" by linarith
    then show "i = j" using dist ij len assms(3) by (simp add: nth_eq_iff_index_eq)
  qed simp
  moreover have "set ?ps \<subseteq> {..<length xs}" using in_range by fastforce
  moreover have "fst (random_sample E entropy xs k s) = Inr (map (\<lambda>p. xs ! p) ?ps)"
    using assms(2,3) by (simp add: random_sample_def split: prod.splits)
  ultimately show ?thesis by (metis diff_zero length_map length_upt)
qed

lemma sample_takes_positions_witness:
  "\<exists>ps. fst (random_sample scripted [] ''abc'' 2 \<lparr>rnd_engine = [2, 1], seeded = True\<rparr>) = Inr (map (\<lambda>p. ''abc'' ! p) ps)
    \<and> length ps = 2 \<and> distinct ps \<and> set ps \<subseteq> {..<3}"
proof -
  have "nat 2 \<le> length ''abc''" and "nat 2 = 2" and "length ''abc'' = 3" by simp_all
  with sample_takes_positions [OF scripted_in_range, of 2 "''abc''" "[]" "\<lparr>rnd_engine = [2, 1], seeded = True\<rparr>"]
  show ?thesis by (metis zero_le_numeral)
qed

lemma choice_takes_member:
  assumes "draws_in_range E" and "xs \<noteq> []"
  shows "\<exists>x\<in>set xs. fst (random_choice E entropy xs s) = Inr x"
proof -
  obtain i s1 where d: "draw E entropy 1 (int (length xs)) s = (i, s1)" by fastforce
  have "1 \<le> i" "i \<le> int (length xs)"
    using draw_range [OF assms(1), of 1 "int (length xs)" entropy s] assms(2) d by (simp_all add: Suc_le_eq)
  then have "nat i - 1 < length xs" by linarith
  then show ?thesis using assms(2) d by (simp add: random_choice_def)
qed

section \<open>Ranges\<close>

text \<open>The number of values is the number of steps below the end, for either direction.\<close>

lemma int_le_div_iff: "0 < (n :: int) \<Longrightarrow> m \<le> a div n \<longleftrightarrow> m * n \<le> a"
proof
  assume "0 < n" "m \<le> a div n"
  then have "m * n \<le> a div n * n" by (simp add: mult_right_mono)
  moreover have "a div n * n \<le> a"
    using div_mult_mod_eq [of a n] pos_mod_sign [OF \<open>0 < n\<close>, of a] by linarith
  ultimately show "m * n \<le> a" by linarith
next
  assume "0 < n" "m * n \<le> a"
  then show "m \<le> a div n" using zdiv_mono1 [of "m * n" a n] by simp
qed

lemma ceiling_steps:
  assumes "0 < (step :: int)"
  shows "k < (span + step - 1) div step \<longleftrightarrow> k * step < span"
proof -
  have "k < (span + step - 1) div step \<longleftrightarrow> k + 1 \<le> (span + step - 1) div step" by linarith
  also have "\<dots> \<longleftrightarrow> (k + 1) * step \<le> span + step - 1" using assms by (rule int_le_div_iff)
  also have "\<dots> \<longleftrightarrow> k * step < span" by (simp add: algebra_simps) linarith
  finally show ?thesis .
qed

text \<open>
  A number drawn from a range is one of its. Whenever the arithmetic stays in 64 bits, the call either returns an
  error, or the start plus a number of steps, on the near side of the stop.
\<close>

lemma randrange_in_range:
  assumes "draws_in_range E"
    and "random_randrange E entropy [Some start, Some stop, Some step] s = Some (Inr v, s')"
  shows "\<exists>k\<ge>0. v = start + k * step \<and> (if step > 0 then start \<le> v \<and> v < stop else stop < v \<and> v \<le> start)"
proof -
  let ?span = "stop - start"
  obtain cnt k where r: "step \<noteq> 0" "?span \<noteq> 0" "0 < ?span \<longrightarrow> 0 < step" "?span < 0 \<longrightarrow> step < 0"
      "range_count ?span step = Some cnt" "0 < cnt"
    and k: "k = fst (draw E entropy 0 (cnt - 1) s)" "v = start + k * step"
    using assms(2) by (auto simp: random_randrange_def Let_def split: if_splits option.splits prod.splits)
  have "0 \<le> k" "k < cnt" using draw_range [OF assms(1), of 0 "cnt - 1" entropy s] r(6) k(1) by simp_all
  show ?thesis
  proof (cases "0 < step")
    case True
    then have "k * step < ?span"
      using r(5) \<open>k < cnt\<close> ceiling_steps [OF True] by (auto simp: range_count_def split: if_splits)
    with True \<open>0 \<le> k\<close> k(2) show ?thesis by (auto intro: exI [of _ k])
  next
    case False
    then have pos: "0 < - step" using r(1) by simp
    then have "k * - step < - ?span"
      using r(5) \<open>k < cnt\<close> ceiling_steps [OF pos, of k "- ?span"] False by (auto simp: range_count_def Let_def split: if_splits)
    moreover have "k * step \<le> 0" using pos \<open>0 \<le> k\<close> by (simp add: mult_nonneg_nonpos)
    ultimately show ?thesis using False \<open>0 \<le> k\<close> k(2) by (auto intro!: exI [of _ k])
  qed
qed

lemma randrange_in_range_witness:
  "\<exists>k\<ge>0. (16 :: int) = 10 + k * 3 \<and> (if (3 :: int) > 0 then 10 \<le> (16 :: int) \<and> (16 :: int) < 20 else 20 < (16 :: int) \<and> (16 :: int) \<le> 10)"
proof (rule randrange_in_range [OF scripted_in_range])
  show "random_randrange scripted [] [Some 10, Some 20, Some 3] \<lparr>rnd_engine = [2], seeded = True\<rparr>
    = Some (Inr 16, \<lparr>rnd_engine = [], seeded = True\<rparr>)"
    by (simp add: random_randrange_def range_count_def fits64_def scripted_draw Let_def)
qed

text \<open>Arguments whose width, or whose step's negation, is not a 64-bit number have no defined result.\<close>

lemma wide_ranges_undefined:
  "random_randrange E entropy [Some (- (2 ^ 63)), Some 1] s = None"
  "random_randrange E entropy [Some 1, Some 0, Some (- (2 ^ 63))] s = None"
  "random_randrange E entropy [Some 0, Some (2 ^ 63 - 1), Some 2] s = None"
  by (simp_all add: random_randrange_def range_count_def fits64_def Let_def)

section \<open>Bytes\<close>

lemma word_bytes_length [simp]: "length (word_bytes n v) = n"
  by (induction n arbitrary: v) simp_all

lemma random_bytes_length: "length (fst (random_bytes E n g)) = n"
proof (induction E n g rule: random_bytes.induct)
  case (1 E n g)
  show ?case
  proof (cases "n = 0")
    case False
    with 1 show ?thesis by (subst random_bytes.simps) (auto split: prod.splits simp: min_def)
  qed (simp add: random_bytes.simps)
qed

text \<open>More bytes from the same state begin with the bytes of a whole number of words.\<close>

lemma random_bytes_prefix:
  "m mod 8 = 0 \<Longrightarrow> m \<le> n \<Longrightarrow> take m (fst (random_bytes E n g)) = fst (random_bytes E m g)"
proof (induction m arbitrary: n g rule: less_induct)
  case (less m)
  show ?case
  proof (cases "m = 0")
    case False
    then have "8 \<le> m" using less.prems(1) by (cases "m < 8") auto
    obtain v g1 where w: "draw_word E g = (v, g1)" by fastforce
    have "take (m - 8) (fst (random_bytes E (n - 8) g1)) = fst (random_bytes E (m - 8) g1)"
      using less.prems \<open>8 \<le> m\<close> False by (intro less.IH) (simp_all add: le_mod_geq)
    then show ?thesis
      using \<open>8 \<le> m\<close> less.prems(2) w
      by (subst random_bytes.simps, subst (2) random_bytes.simps) (auto split: prod.splits)
  qed (simp add: random_bytes.simps)
qed

lemma bytes_to_hex_length: "length (bytes_to_hex bs) = 2 * length bs"
  by (induction bs) (simp_all add: bytes_to_hex_def)

end
