(* ===== verification/Child_Processes.thy ===== *)
theory Child_Processes
  imports Script_Callbacks
begin

text \<open>
  The child processes of \<open>src/src/lua_process.cpp\<close>: the options of a process, the table of spawned processes with
  their pipes, buffers and callbacks, and the operations scripts have on them. The results of system calls are
  arguments; what the parent does to descriptors and processes is a log. Times are in nanoseconds. The table is an
  association list in the order its hash map is iterated; callbacks are those of \<open>Script_Callbacks\<close>.
\<close>

section \<open>Options\<close>

record process_args =
  pa_args :: "string list"
  pa_cwd :: "string option"
  pa_env :: "(string \<times> string) list"
  pa_clear_env :: bool
  pa_timeout :: "nat option"
  pa_stdin :: "string option"
  pa_merge_stderr :: bool

text \<open>Script values, as far as options and results distinguish them; a number is whole, and in options a time in nanoseconds.\<close>

datatype script_value =
  Nil_value
| Bool_value bool
| Number_value int
| String_value string
| Table_value "script_value list" "(script_value \<times> script_value) list"

definition script_error :: "string \<Rightarrow> exn" where
  "script_error what = Runtime_error what"

fun all_strings :: "script_value list \<Rightarrow> string list result" where
  "all_strings [] = Inr []"
| "all_strings (v # vs) =
    (case v of
       String_value s \<Rightarrow> bind_result (all_strings vs) (\<lambda>ss. Inr (s # ss))
     | _ \<Rightarrow> Inl (script_error ''process.run/spawn args must all be strings''))"

definition parse_argv :: "script_value \<Rightarrow> string list result" where
  "parse_argv v =
    (case v of
       Table_value vs _ \<Rightarrow>
         if vs = [] then Inl (script_error ''process.run/spawn args must not be empty'') else all_strings vs
     | _ \<Rightarrow> Inl (script_error ''process.run/spawn requires 'args' as a table of strings''))"

definition parse_cwd :: "script_value \<Rightarrow> string option result" where
  "parse_cwd v =
    (case v of
       Nil_value \<Rightarrow> Inr None
     | String_value s \<Rightarrow> Inr (if s = [] then None else Some s)
     | _ \<Rightarrow> Inl (script_error ''process cwd must be a string''))"

definition parse_env :: "script_value \<Rightarrow> (string \<times> string) list" where
  "parse_env v =
    (case v of
       Table_value _ kvs \<Rightarrow> concat (map (\<lambda>kv. case kv of (String_value k, String_value x) \<Rightarrow> [(k, x)] | _ \<Rightarrow> []) kvs)
     | _ \<Rightarrow> [])"

definition parse_flag :: "script_value \<Rightarrow> bool" where
  "parse_flag v = (case v of Bool_value b \<Rightarrow> b | _ \<Rightarrow> False)"

definition parse_timeout :: "script_value \<Rightarrow> nat option result" where
  "parse_timeout v =
    (case v of
       Nil_value \<Rightarrow> Inr None
     | Number_value t \<Rightarrow> Inr (if t > 0 then Some (nat t) else None)
     | _ \<Rightarrow> Inl (script_error ''process timeout must be a number''))"

definition parse_stdin :: "script_value \<Rightarrow> string option result" where
  "parse_stdin v =
    (case v of
       Nil_value \<Rightarrow> Inr None
     | String_value s \<Rightarrow> Inr (Some s)
     | _ \<Rightarrow> Inl (script_error ''process stdin must be a string''))"

definition parse_args :: "(string \<Rightarrow> script_value) \<Rightarrow> process_args result" where
  "parse_args opts =
    bind_result (parse_argv (opts ''args'')) (\<lambda>args.
    bind_result (parse_cwd (opts ''cwd'')) (\<lambda>cwd.
    bind_result (parse_timeout (opts ''timeout'')) (\<lambda>timeout.
    bind_result (parse_stdin (opts ''stdin'')) (\<lambda>input.
    Inr \<lparr>pa_args = args, pa_cwd = cwd, pa_env = parse_env (opts ''env''), pa_clear_env = parse_flag (opts ''clear-env''),
      pa_timeout = timeout, pa_stdin = input, pa_merge_stderr = parse_flag (opts ''merge-stderr'')\<rparr>))))"

text \<open>The environment of the child, from the parent's.\<close>

definition setup_child_env :: "process_args \<Rightarrow> (string \<rightharpoonup> string) \<Rightarrow> string \<rightharpoonup> string" where
  "setup_child_env a env = fold (\<lambda>(k, v) m. m(k \<mapsto> v)) (pa_env a) (if pa_clear_env a then Map.empty else env)"

section \<open>System calls\<close>

text \<open>The reads of one drain: the chunks, and how it ends. A drain that never ends is not modelled.\<close>

datatype drain_end = Would_block | End_of_file | Read_failed

type_synonym drain = "string list \<times> drain_end"

text \<open>\<open>drain_fd\<close>, with the buffer and the unread buffer: the result says whether the descriptor stays open.\<close>

definition drain_fd :: "drain \<Rightarrow> string \<Rightarrow> string \<Rightarrow> bool \<times> string \<times> string" where
  "drain_fd d out unread = (snd d = Would_block, fold (\<lambda>c b. b @ c) (fst d) out, fold (\<lambda>c b. b @ c) (fst d) unread)"

datatype wait_status = Exit_status nat | Term_signal nat | Other_status

datatype os_call =
  Opened int
| Closed int
| Forked int
| Reaped int
| Signalled int nat
| Wrote int string

definition sigterm :: nat where "sigterm = 15"
definition sigkill :: nat where "sigkill = 9"

section \<open>Processes\<close>

record process_result =
  exit_code :: int
  pr_signal :: nat
  timed_out :: bool
  stdout_text :: string
  stderr_text :: string
  duration_ms :: nat

definition fresh_result :: process_result where
  "fresh_result = \<lparr>exit_code = -1, pr_signal = 0, timed_out = False, stdout_text = [], stderr_text = [], duration_ms = 0\<rparr>"

definition make_result_table :: "process_result \<Rightarrow> (string \<times> script_value) list" where
  "make_result_table r =
    [(''exit-code'', Number_value (exit_code r)),
     (''signal'', if pr_signal r > 0 then Number_value (int (pr_signal r)) else Nil_value),
     (''timed-out'', Bool_value (timed_out r)), (''stdout'', String_value (stdout_text r)),
     (''stderr'', String_value (stderr_text r)), (''duration-ms'', Number_value (int (duration_ms r)))]"

text \<open>\<open>delivered_out\<close> and \<open>delivered_err\<close> are ghosts: what \<open>process.read\<close> has returned so far.\<close>

record child_process =
  cp_pid :: int
  stdout_fd :: int
  stderr_fd :: int
  stdin_fd :: int
  stdin_closed :: bool
  stdout_buffer :: string
  stderr_buffer :: string
  unread_out :: string
  unread_err :: string
  cp_timeout :: "nat option"
  finished :: bool
  cp_result :: process_result
  callback_id :: nat
  cp_merge :: bool
  delivered_out :: string
  delivered_err :: string

text \<open>
  What the system answers one \<open>poll_process\<close>: the first drains, the status if the child has ended, the time since the
  start, the status if it ends within 200 ms of \<open>SIGTERM\<close>, that after \<open>SIGKILL\<close>, the last drains, the duration.
\<close>

record poll_answers =
  first_out :: drain
  first_err :: drain
  has_exited :: "wait_status option"
  elapsed :: nat
  ends_in_time :: "wait_status option"
  killed_status :: wait_status
  last_out :: drain
  last_err :: drain
  took_ms :: nat

definition close_fd :: "int \<Rightarrow> os_call list" where
  "close_fd fd = (if fd \<ge> 0 then [Closed fd] else [])"

definition read_stdout :: "bool \<Rightarrow> drain \<Rightarrow> child_process \<Rightarrow> child_process \<times> os_call list" where
  "read_stdout final d p =
    (if stdout_fd p < 0 then (p, [])
     else case drain_fd d (stdout_buffer p) (unread_out p) of (still_open, buf, unread) \<Rightarrow>
       let p = p\<lparr>stdout_buffer := buf, unread_out := unread\<rparr>
       in if final \<or> \<not> still_open then (p\<lparr>stdout_fd := -1\<rparr>, [Closed (stdout_fd p)]) else (p, []))"

definition read_stderr :: "bool \<Rightarrow> drain \<Rightarrow> child_process \<Rightarrow> child_process \<times> os_call list" where
  "read_stderr final d p =
    (if stderr_fd p < 0 then (p, [])
     else case drain_fd d (stderr_buffer p) (unread_err p) of (still_open, buf, unread) \<Rightarrow>
       let p = p\<lparr>stderr_buffer := buf, unread_err := unread\<rparr>
       in if final \<or> \<not> still_open then (p\<lparr>stderr_fd := -1\<rparr>, [Closed (stderr_fd p)]) else (p, []))"

definition apply_status :: "wait_status \<Rightarrow> process_result \<Rightarrow> process_result" where
  "apply_status st r =
    (case st of
       Exit_status c \<Rightarrow> r\<lparr>exit_code := int c\<rparr>
     | Term_signal n \<Rightarrow> r\<lparr>pr_signal := n, exit_code := 128 + int n\<rparr>
     | Other_status \<Rightarrow> r)"

text \<open>The end of a process, once it was reaped: the last drains, the descriptors closed, the result made.\<close>

definition finish_process :: "poll_answers \<Rightarrow> wait_status \<Rightarrow> child_process \<Rightarrow> child_process \<times> os_call list" where
  "finish_process a st p =
    (case read_stdout True (last_out a) p of (p1, c1) \<Rightarrow>
     case read_stderr True (last_err a) p1 of (p2, c2) \<Rightarrow>
     (p2\<lparr>stdin_fd := (if stdin_fd p2 \<ge> 0 then -1 else stdin_fd p2), finished := True, stdout_buffer := [], stderr_buffer := [],
        cp_result := (apply_status st ((cp_result p2)\<lparr>stdout_text := stdout_buffer p2, stderr_text := stderr_buffer p2\<rparr>))
          \<lparr>duration_ms := took_ms a\<rparr>\<rparr>,
      c1 @ c2 @ close_fd (stdin_fd p2)))"

text \<open>\<open>SIGTERM\<close>, and \<open>SIGKILL\<close> if the child is not reaped in time: the status and what was done.\<close>

definition terminate_child :: "wait_status option \<Rightarrow> wait_status \<Rightarrow> int \<Rightarrow> wait_status \<times> os_call list" where
  "terminate_child in_time killed pid =
    (case in_time of
       Some st \<Rightarrow> (st, [Signalled pid sigterm, Reaped pid])
     | None \<Rightarrow> (killed, [Signalled pid sigterm, Signalled pid sigkill, Reaped pid]))"

definition poll_process :: "poll_answers \<Rightarrow> child_process \<Rightarrow> child_process \<times> os_call list" where
  "poll_process a p =
    (if finished p then (p, [])
     else case read_stdout False (first_out a) p of (p1, c1) \<Rightarrow>
       case read_stderr False (first_err a) p1 of (p2, c2) \<Rightarrow>
       (case has_exited a of
          Some st \<Rightarrow> (case finish_process a st p2 of (p3, c3) \<Rightarrow> (p3, c1 @ c2 @ [Reaped (cp_pid p)] @ c3))
        | None \<Rightarrow>
            (case cp_timeout p of
               None \<Rightarrow> (p2, c1 @ c2)
             | Some t \<Rightarrow>
                 if elapsed a < t then (p2, c1 @ c2)
                 else case terminate_child (ends_in_time a) (killed_status a) (cp_pid p) of (st, ct) \<Rightarrow>
                   (case finish_process a st (p2\<lparr>cp_result := (cp_result p2)\<lparr>timed_out := True\<rparr>\<rparr>) of (p3, c3) \<Rightarrow>
                      (p3, c1 @ c2 @ ct @ c3)))))"

section \<open>The manager\<close>

text \<open>Events are a ghost: how each process left the table.\<close>

datatype process_event =
  Reported nat process_result      \<comment> \<open>returned by \<open>poll\<close> or \<open>wait\<close>\<close>
| Called_back nat nat process_result
| Discarded_result nat nat         \<comment> \<open>erased by \<open>poll\<close> without a report\<close>
| Dropped nat

record process_manager =
  pm_next :: nat
  processes :: "(nat \<times> child_process) list"
  pm_calls :: "os_call list"
  pm_events :: "process_event list"
  pm_callbacks :: callbacks

definition new_manager :: "callbacks \<Rightarrow> process_manager" where
  "new_manager cbs = \<lparr>pm_next = 1, processes = [], pm_calls = [], pm_events = [], pm_callbacks = cbs\<rparr>"

definition os :: "os_call list \<Rightarrow> process_manager \<Rightarrow> process_manager" where
  "os cs m = m\<lparr>pm_calls := pm_calls m @ cs\<rparr>"

definition log_pm :: "process_event list \<Rightarrow> process_manager \<Rightarrow> process_manager" where
  "log_pm es m = m\<lparr>pm_events := pm_events m @ es\<rparr>"

definition put_process :: "nat \<Rightarrow> child_process \<Rightarrow> process_manager \<Rightarrow> process_manager" where
  "put_process i p m = m\<lparr>processes := map (\<lambda>(j, q). if j = i then (j, p) else (j, q)) (processes m)\<rparr>"

text \<open>The answers to a spawn: the ends of the pipes, the fork, and how much of the initial input is taken.\<close>

record spawn_answers =
  out_pipe :: "(int \<times> int) option"
  err_pipe :: "(int \<times> int) option"
  in_pipe :: "(int \<times> int) option"
  fork_pid :: "int option"
  first_write :: int

definition opened :: "int \<times> int \<Rightarrow> os_call list" where
  "opened ends = [Opened (fst ends), Opened (snd ends)]"

definition closed_ends :: "int \<times> int \<Rightarrow> os_call list" where
  "closed_ends ends = [Closed (fst ends), Closed (snd ends)]"

definition taken :: "int \<Rightarrow> string \<Rightarrow> string" where
  "taken n s = take (nat n) s"

definition add_process :: "spawn_answers \<Rightarrow> process_args \<Rightarrow> script_fn option \<Rightarrow> int \<times> int \<Rightarrow> (int \<times> int) option \<Rightarrow> int \<times> int \<Rightarrow> int
    \<Rightarrow> process_manager \<Rightarrow> nat \<times> process_manager" where
  "add_process a args callback out err inp pid m =
    (case (case callback of None \<Rightarrow> (0, pm_callbacks m) | Some f \<Rightarrow> lua_callbacks_register f (pm_callbacks m)) of (cb, cbs) \<Rightarrow>
       let p = \<lparr>cp_pid = pid, stdout_fd = fst out, stderr_fd = (case err of None \<Rightarrow> -1 | Some e \<Rightarrow> fst e), stdin_fd = snd inp,
                 stdin_closed = False, stdout_buffer = [], stderr_buffer = [], unread_out = [], unread_err = [],
                 cp_timeout = pa_timeout args, finished = False, cp_result = fresh_result, callback_id = cb,
                 cp_merge = pa_merge_stderr args, delivered_out = [], delivered_err = []\<rparr>;
           written = (case pa_stdin args of
               Some s \<Rightarrow> if s \<noteq> [] then [Wrote (snd inp) (taken (first_write a) s)] else []
             | None \<Rightarrow> [])
       in (pm_next m, os written (m\<lparr>pm_next := (pm_next m + 1) mod 2 ^ 64, processes := processes m @ [(pm_next m, p)],
             pm_callbacks := cbs\<rparr>)))"

definition spawn_process :: "spawn_answers \<Rightarrow> process_args \<Rightarrow> script_fn option \<Rightarrow> process_manager \<Rightarrow> nat result \<times> process_manager" where
  "spawn_process a args callback m =
    (case out_pipe a of
       None \<Rightarrow> (Inl (script_error ''process.spawn failed to create stdout pipe''), m)
     | Some out \<Rightarrow>
         let m = os (opened out) m; err = (if pa_merge_stderr args then None else err_pipe a) in
         if \<not> pa_merge_stderr args \<and> err = None
         then (Inl (script_error ''process.spawn failed to create stderr pipe''), os (closed_ends out) m)
         else let m = os (case err of None \<Rightarrow> [] | Some e \<Rightarrow> opened e) m;
                  close_err = (case err of None \<Rightarrow> [] | Some e \<Rightarrow> closed_ends e) in
           (case in_pipe a of
             None \<Rightarrow> (Inl (script_error ''process.spawn failed to create stdin pipe''), os (closed_ends out @ close_err) m)
           | Some inp \<Rightarrow>
               let m = os (opened inp) m in
               (case fork_pid a of
                  None \<Rightarrow> (Inl (script_error ''process.spawn failed to fork''), os (closed_ends out @ close_err @ closed_ends inp) m)
                | Some pid \<Rightarrow>
                    let m = os ([Forked pid, Closed (snd out)] @ (case err of None \<Rightarrow> [] | Some e \<Rightarrow> [Closed (snd e)])
                      @ [Closed (fst inp)]) m
                    in case add_process a args callback out err inp pid m of (i, m) \<Rightarrow> (Inr i, m))))"

section \<open>Operations on one process\<close>

definition process_write :: "int \<Rightarrow> nat \<Rightarrow> string \<Rightarrow> process_manager \<Rightarrow> nat result \<times> process_manager" where
  "process_write n i data m =
    (case map_of (processes m) i of
       None \<Rightarrow> (Inl (script_error ''process.write: invalid process id''), m)
     | Some p \<Rightarrow>
         if stdin_fd p < 0 \<or> stdin_closed p then (Inl (script_error ''process.write: stdin is closed''), m)
         else (Inr (if n \<ge> 0 then nat n else 0), os [Wrote (stdin_fd p) (taken n data)] m))"

definition process_close_stdin :: "nat \<Rightarrow> process_manager \<Rightarrow> bool \<times> process_manager" where
  "process_close_stdin i m =
    (case map_of (processes m) i of
       None \<Rightarrow> (False, m)
     | Some p \<Rightarrow>
         if stdin_fd p \<ge> 0 \<and> \<not> stdin_closed p
         then (True, put_process i (p\<lparr>stdin_fd := -1, stdin_closed := True\<rparr>) (os [Closed (stdin_fd p)] m))
         else (False, m))"

text \<open>\<open>sent\<close> is whether the signal could be sent.\<close>

definition process_kill :: "bool \<Rightarrow> nat \<Rightarrow> nat option \<Rightarrow> process_manager \<Rightarrow> bool \<times> process_manager" where
  "process_kill sent i sig m =
    (case map_of (processes m) i of
       None \<Rightarrow> (False, m)
     | Some p \<Rightarrow>
         if finished p then (False, m)
         else (sent, os [Signalled (cp_pid p) (case sig of None \<Rightarrow> sigterm | Some n \<Rightarrow> n)] m))"

definition process_running :: "nat \<Rightarrow> process_manager \<Rightarrow> bool" where
  "process_running i m = (case map_of (processes m) i of None \<Rightarrow> False | Some p \<Rightarrow> \<not> finished p)"

definition process_read :: "poll_answers \<Rightarrow> nat \<Rightarrow> process_manager \<Rightarrow> (string \<times> string \<times> bool) result \<times> process_manager" where
  "process_read a i m =
    (case map_of (processes m) i of
       None \<Rightarrow> (Inl (script_error ''process.read: invalid process id''), m)
     | Some p \<Rightarrow>
         (case poll_process a p of (p, cs) \<Rightarrow>
            (Inr (unread_out p, unread_err p, finished p),
             put_process i (p\<lparr>delivered_out := delivered_out p @ unread_out p, delivered_err := delivered_err p @ unread_err p,
               unread_out := [], unread_err := []\<rparr>) (os cs m))))"

section \<open>Operations on all processes\<close>

fun poll_all :: "(nat \<Rightarrow> poll_answers) \<Rightarrow> (nat \<times> child_process) list \<Rightarrow> (nat \<times> child_process) list \<times> os_call list" where
  "poll_all answers [] = ([], [])"
| "poll_all answers ((i, p) # ps) =
    (case poll_process (answers i) p of (q, c) \<Rightarrow> case poll_all answers ps of (qs, cs) \<Rightarrow> ((i, q) # qs, c @ cs))"

definition poll_processes :: "(nat \<Rightarrow> poll_answers) \<Rightarrow> process_manager \<Rightarrow> process_manager" where
  "poll_processes answers m =
    (case poll_all answers (processes m) of (ps, cs) \<Rightarrow> os cs (m\<lparr>processes := ps\<rparr>))"

text \<open>The loop that collects finished processes; the events say what became of each.\<close>

fun collect_finished :: "nat \<Rightarrow> (nat \<times> child_process) list \<Rightarrow> (nat \<times> process_result) list
    \<Rightarrow> (nat \<times> process_result) list \<times> (nat \<times> child_process) list \<times> process_event list" where
  "collect_finished n [] completed = (completed, [], [])"
| "collect_finished n ((i, p) # ps) completed =
    (if finished p then
       let completed' = (if callback_id p = 0 then completed @ [(i, cp_result p)] else completed);
           ev = (if callback_id p = 0 then Reported i (cp_result p) else Discarded_result i (callback_id p))
       in if n > 0 \<and> length completed' \<ge> n then (completed', ps, [ev])
          else case collect_finished n ps completed' of (out, rest, evs) \<Rightarrow> (out, rest, ev # evs)
     else case collect_finished n ps completed of (out, rest, evs) \<Rightarrow> (out, (i, p) # rest, evs))"

definition process_poll :: "(nat \<Rightarrow> poll_answers) \<Rightarrow> nat option \<Rightarrow> process_manager \<Rightarrow> (nat \<times> process_result) list \<times> process_manager" where
  "process_poll answers max_results m =
    (let m = poll_processes answers m in
     case collect_finished (case max_results of None \<Rightarrow> 0 | Some n \<Rightarrow> n) (processes m) [] of
       (out, rest, evs) \<Rightarrow> (out, log_pm evs (m\<lparr>processes := rest\<rparr>)))"

text \<open>One turn of the loop of \<open>wait\<close>, which sleeps and tries again while there is no result.\<close>

definition wait_turn :: "poll_answers \<Rightarrow> nat \<Rightarrow> process_manager \<Rightarrow> process_result result option \<times> process_manager" where
  "wait_turn a i m =
    (case map_of (processes m) i of
       None \<Rightarrow> (Some (Inl (script_error ''process.wait: invalid process id'')), m)
     | Some p \<Rightarrow>
         (case poll_process a p of (p, cs) \<Rightarrow>
            let m = put_process i p (os cs m) in
            if \<not> finished p then (None, m)
            else let cbs = (if callback_id p \<noteq> 0
                       then snd (lua_callbacks_unregister (cb_depth (pm_callbacks m)) (callback_id p) (pm_callbacks m))
                       else pm_callbacks m)
              in (Some (Inr (cp_result p)),
                  log_pm [Reported i (cp_result p)] (m\<lparr>processes := AList.delete i (processes m), pm_callbacks := cbs\<rparr>))))"

fun process_wait :: "poll_answers list \<Rightarrow> nat \<Rightarrow> process_manager \<Rightarrow> process_result result option \<times> process_manager" where
  "process_wait [] i m = (None, m)"
| "process_wait (a # as) i m = (case wait_turn a i m of (None, m) \<Rightarrow> process_wait as i m | (Some r, m) \<Rightarrow> (Some r, m))"

text \<open>The payload builder of a callback is named by the id of the process.\<close>

fun dispatch_finished :: "(nat \<times> child_process) list \<Rightarrow> callbacks \<Rightarrow> (nat \<times> child_process) list \<times> process_event list \<times> callbacks" where
  "dispatch_finished [] cbs = ([], [], cbs)"
| "dispatch_finished ((i, p) # ps) cbs =
    (if finished p \<and> callback_id p \<noteq> 0
     then case dispatch_finished ps (lua_callbacks_enqueue (callback_id p) (Some i) cbs) of
         (rest, evs, cbs) \<Rightarrow> (rest, Called_back i (callback_id p) (cp_result p) # evs, cbs)
     else case dispatch_finished ps cbs of (rest, evs, cbs) \<Rightarrow> ((i, p) # rest, evs, cbs))"

definition process_dispatch :: "(nat \<Rightarrow> poll_answers) \<Rightarrow> process_manager \<Rightarrow> process_manager" where
  "process_dispatch answers m =
    (let m = poll_processes answers m in
     case dispatch_finished (processes m) (pm_callbacks m) of (rest, evs, cbs) \<Rightarrow>
       log_pm evs (m\<lparr>processes := rest, pm_callbacks := cbs\<rparr>))"

definition drop_calls :: "child_process \<Rightarrow> os_call list" where
  "drop_calls p = (if \<not> finished p then [Signalled (cp_pid p) sigkill, Reaped (cp_pid p)] else [])
     @ close_fd (stdout_fd p) @ close_fd (stderr_fd p) @ close_fd (stdin_fd p)"

definition drop_callback :: "child_process \<Rightarrow> callbacks \<Rightarrow> callbacks" where
  "drop_callback p cbs =
    (if callback_id p \<noteq> 0 then snd (lua_callbacks_unregister (cb_depth cbs) (callback_id p) cbs) else cbs)"

definition process_drop :: "process_manager \<Rightarrow> process_manager" where
  "process_drop m =
    log_pm (map (\<lambda>(i, p). Dropped i) (processes m))
      (os (concat (map (\<lambda>(i, p). drop_calls p) (processes m)))
        (m\<lparr>processes := [], pm_callbacks := fold (\<lambda>(i, p). drop_callback p) (processes m) (pm_callbacks m)\<rparr>))"

end
