(* ===== verification/Child_Run.thy ===== *)
theory Child_Run
  imports Child_Processes
begin

text \<open>
  \<open>process.run\<close> of \<open>src/src/lua_process.cpp\<close>: a child whose input is written and whose outputs are read until both have
  ended and the child is reaped, with a time limit. The answers of the system to each turn of the loop are a list;
  a run that has not returned at its end is \<open>None\<close>.
\<close>

record turn_answers =
  t_wait :: "wait_status option"
  t_elapsed :: nat
  t_in_time :: "wait_status option"
  t_killed :: wait_status
  t_write :: int
  t_out_ready :: bool
  t_err_ready :: bool
  t_out :: drain
  t_err :: drain

record run_state =
  out_open :: bool
  err_open :: bool
  child_done :: bool
  run_status :: wait_status
  run_in :: "int option"    \<comment> \<open>the end of the input pipe, while it is open\<close>
  stdin_written :: nat
  run_result :: process_result
  run_calls :: "os_call list"

definition run_os :: "os_call list \<Rightarrow> run_state \<Rightarrow> run_state" where
  "run_os cs s = s\<lparr>run_calls := run_calls s @ cs\<rparr>"

definition wait_child :: "int \<Rightarrow> turn_answers \<Rightarrow> run_state \<Rightarrow> run_state" where
  "wait_child pid a s =
    (if child_done s then s
     else case t_wait a of None \<Rightarrow> s | Some st \<Rightarrow> run_os [Reaped pid] (s\<lparr>child_done := True, run_status := st\<rparr>))"

definition check_timeout :: "process_args \<Rightarrow> int \<Rightarrow> turn_answers \<Rightarrow> run_state \<Rightarrow> run_state" where
  "check_timeout args pid a s =
    (if child_done s then s
     else case pa_timeout args of
         None \<Rightarrow> s
       | Some t \<Rightarrow>
           if t_elapsed a < t then s
           else case terminate_child (t_in_time a) (t_killed a) pid of (st, cs) \<Rightarrow>
             run_os cs (s\<lparr>run_result := (run_result s)\<lparr>timed_out := True\<rparr>, child_done := True, run_status := st\<rparr>))"

definition write_input :: "process_args \<Rightarrow> turn_answers \<Rightarrow> run_state \<Rightarrow> run_state" where
  "write_input args a s =
    (case run_in s of
       None \<Rightarrow> s
     | Some fd \<Rightarrow>
         (case pa_stdin args of
            Some data \<Rightarrow>
              if stdin_written s < length data then
                let piece = taken (t_write a) (drop (stdin_written s) data);
                    s = run_os [Wrote fd piece] (s\<lparr>stdin_written := stdin_written s + length piece\<rparr>)
                in if stdin_written s \<ge> length data then run_os [Closed fd] (s\<lparr>run_in := None\<rparr>) else s
              else run_os [Closed fd] (s\<lparr>run_in := None\<rparr>)
          | None \<Rightarrow> run_os [Closed fd] (s\<lparr>run_in := None\<rparr>)))"

definition read_outputs :: "turn_answers \<Rightarrow> run_state \<Rightarrow> run_state" where
  "read_outputs a s =
    (let s1 = (if out_open s \<and> t_out_ready a
               then (case drain_fd (t_out a) (stdout_text (run_result s)) [] of (still_open, text, _) \<Rightarrow>
                 s\<lparr>out_open := still_open, run_result := (run_result s)\<lparr>stdout_text := text\<rparr>\<rparr>)
               else s)
     in if err_open s \<and> t_err_ready a
        then (case drain_fd (t_err a) (stderr_text (run_result s1)) [] of (still_open, text, _) \<Rightarrow>
          s1\<lparr>err_open := still_open, run_result := (run_result s1)\<lparr>stderr_text := text\<rparr>\<rparr>)
        else s1)"

definition run_turn :: "process_args \<Rightarrow> int \<Rightarrow> turn_answers \<Rightarrow> run_state \<Rightarrow> run_state" where
  "run_turn args pid a s = read_outputs a (write_input args a (check_timeout args pid a (wait_child pid a s)))"

fun run_loop_turns :: "process_args \<Rightarrow> int \<Rightarrow> turn_answers list \<Rightarrow> run_state \<Rightarrow> run_state option" where
  "run_loop_turns args pid as s =
    (if out_open s \<or> err_open s \<or> \<not> child_done s
     then case as of [] \<Rightarrow> None | a # as \<Rightarrow> run_loop_turns args pid as (run_turn args pid a s)
     else Some s)"

declare run_loop_turns.simps [simp del]

definition initial_run :: "process_args \<Rightarrow> int option \<Rightarrow> run_state" where
  "initial_run args inp = \<lparr>out_open = True, err_open = \<not> pa_merge_stderr args, child_done = False, run_status = Exit_status 0,
     run_in = inp, stdin_written = 0, run_result = fresh_result, run_calls = []\<rparr>"

text \<open>The result, or the exception, and all that was done to descriptors and the child.\<close>

definition run_process_sync :: "spawn_answers \<Rightarrow> turn_answers list \<Rightarrow> nat \<Rightarrow> process_args
    \<Rightarrow> (process_result result \<times> os_call list) option" where
  "run_process_sync a turns took args =
    (case out_pipe a of
       None \<Rightarrow> Some (Inl (script_error ''process.run failed to create stdout pipe''), [])
     | Some out \<Rightarrow>
         let err = (if pa_merge_stderr args then None else err_pipe a) in
         if \<not> pa_merge_stderr args \<and> err = None
         then Some (Inl (script_error ''process.run failed to create stderr pipe''), opened out @ closed_ends out)
         else let inp = (if pa_stdin args = None then None else in_pipe a);
                  open_err = (case err of None \<Rightarrow> [] | Some e \<Rightarrow> opened e);
                  close_err = (case err of None \<Rightarrow> [] | Some e \<Rightarrow> closed_ends e) in
           if pa_stdin args \<noteq> None \<and> inp = None
           then Some (Inl (script_error ''process.run failed to create stdin pipe''), opened out @ open_err @ closed_ends out @ close_err)
           else let cs = opened out @ open_err @ (case inp of None \<Rightarrow> [] | Some i \<Rightarrow> opened i) in
             (case fork_pid a of
               None \<Rightarrow> Some (Inl (script_error ''process.run failed to fork''),
                 cs @ closed_ends out @ close_err @ (case inp of None \<Rightarrow> [] | Some i \<Rightarrow> closed_ends i))
             | Some pid \<Rightarrow>
                 let cs = cs @ [Forked pid, Closed (snd out)] @ (case err of None \<Rightarrow> [] | Some e \<Rightarrow> [Closed (snd e)])
                   @ (case inp of None \<Rightarrow> [] | Some i \<Rightarrow> [Closed (fst i)]) in
                 (case run_loop_turns args pid turns (initial_run args (map_option snd inp)) of
                    None \<Rightarrow> None
                  | Some s \<Rightarrow>
                      Some (Inr ((apply_status (run_status s) (run_result s))\<lparr>duration_ms := took\<rparr>),
                        cs @ run_calls s @ [Closed (fst out)] @ (case err of None \<Rightarrow> [] | Some e \<Rightarrow> [Closed (fst e)])
                          @ (case run_in s of None \<Rightarrow> [] | Some fd \<Rightarrow> [Closed fd])))))"

end
