(* ===== verification/Child_Properties.thy ===== *)
theory Child_Properties
  imports Child_Run
begin

text \<open>
  The properties of child processes: in every history each descriptor the parent opened is closed once or still in the
  table, a signal is sent to a child only before it is reaped, output is delivered once and in order, and every
  process leaves the table in one way.
\<close>

section \<open>Descriptors and children in the log\<close>

fun fds_opened :: "os_call list \<Rightarrow> int multiset" where
  "fds_opened [] = {#}"
| "fds_opened (c # cs) = (case c of Opened fd \<Rightarrow> add_mset fd (fds_opened cs) | _ \<Rightarrow> fds_opened cs)"

fun fds_closed :: "os_call list \<Rightarrow> int multiset" where
  "fds_closed [] = {#}"
| "fds_closed (c # cs) = (case c of Closed fd \<Rightarrow> add_mset fd (fds_closed cs) | _ \<Rightarrow> fds_closed cs)"

text \<open>The children forked and not reaped, if every signal and every reaping was of one of them.\<close>

fun live_after :: "os_call list \<Rightarrow> int set \<Rightarrow> int set option" where
  "live_after [] L = Some L"
| "live_after (c # cs) L =
    (case c of
       Forked pid \<Rightarrow> live_after cs (insert pid L)
     | Reaped pid \<Rightarrow> if pid \<in> L then live_after cs (L - {pid}) else None
     | Signalled pid n \<Rightarrow> if pid \<in> L then live_after cs L else None
     | _ \<Rightarrow> live_after cs L)"

lemma fds_append [simp]:
  "fds_opened (cs @ ds) = fds_opened cs + fds_opened ds" "fds_closed (cs @ ds) = fds_closed cs + fds_closed ds"
  by (induction cs) (auto split: os_call.splits)

lemma live_after_append: "live_after (cs @ ds) L = Option.bind (live_after cs L) (live_after ds)"
  by (induction cs arbitrary: L) (auto split: os_call.splits)

definition fd_held :: "int \<Rightarrow> int multiset" where
  "fd_held fd = (if fd \<ge> 0 then {#fd#} else {#})"

definition held :: "child_process \<Rightarrow> int multiset" where
  "held p = fd_held (stdout_fd p) + fd_held (stderr_fd p) + fd_held (stdin_fd p)"

lemma close_fd_calls [simp]:
  "fds_opened (close_fd fd) = {#}" "fds_closed (close_fd fd) = fd_held fd" "live_after (close_fd fd) L = Some L"
  by (simp_all add: close_fd_def fd_held_def)

lemma fd_held_minus [simp]: "fd_held (-1) = {#}"
  by (simp add: fd_held_def)

section \<open>One process\<close>

definition output_of :: "child_process \<Rightarrow> string \<times> string" where
  "output_of p = (if finished p then (stdout_text (cp_result p), stderr_text (cp_result p)) else (stdout_buffer p, stderr_buffer p))"

definition child_ok :: "child_process \<Rightarrow> bool" where
  "child_ok p \<longleftrightarrow> output_of p = (delivered_out p @ unread_out p, delivered_err p @ unread_err p) \<and> (finished p \<longrightarrow> held p = {#})"

text \<open>What an operation may do to a process, with the calls it makes.\<close>

definition child_step :: "child_process \<Rightarrow> child_process \<Rightarrow> os_call list \<Rightarrow> bool" where
  "child_step p q cs \<longleftrightarrow> fds_opened cs = {#} \<and> held p = fds_closed cs + held q \<and> cp_pid q = cp_pid p
    \<and> (finished p \<longrightarrow> finished q)
    \<and> (\<forall>L. (\<not> finished p \<longrightarrow> cp_pid p \<in> L) \<longrightarrow> live_after cs L = Some (if \<not> finished p \<and> finished q then L - {cp_pid p} else L))"

lemma drain_fd_eq: "drain_fd d out unread = (snd d = Would_block, out @ concat (fst d), unread @ concat (fst d))"
proof -
  have "fold (\<lambda>c b. b @ c) cs b = b @ concat cs" for cs and b :: string
    by (induction cs arbitrary: b) simp_all
  then show ?thesis by (simp add: drain_fd_def)
qed

lemma read_stdout_spec:
  assumes "read_stdout final d p = (q, cs)"
  shows "fds_opened cs = {#}" "fd_held (stdout_fd p) = fds_closed cs + fd_held (stdout_fd q)" "live_after cs L = Some L"
    and "q = p\<lparr>stdout_fd := stdout_fd q, stdout_buffer := stdout_buffer q, unread_out := unread_out q\<rparr>"
    and "\<exists>c. stdout_buffer q = stdout_buffer p @ c \<and> unread_out q = unread_out p @ c"
    and "final \<Longrightarrow> fd_held (stdout_fd q) = {#}"
  using assms by (auto simp: read_stdout_def drain_fd_eq Let_def fd_held_def split: if_splits)

lemma read_stderr_spec:
  assumes "read_stderr final d p = (q, cs)"
  shows "fds_opened cs = {#}" "fd_held (stderr_fd p) = fds_closed cs + fd_held (stderr_fd q)" "live_after cs L = Some L"
    and "q = p\<lparr>stderr_fd := stderr_fd q, stderr_buffer := stderr_buffer q, unread_err := unread_err q\<rparr>"
    and "\<exists>c. stderr_buffer q = stderr_buffer p @ c \<and> unread_err q = unread_err p @ c"
    and "final \<Longrightarrow> fd_held (stderr_fd q) = {#}"
  using assms by (auto simp: read_stderr_def drain_fd_eq Let_def fd_held_def split: if_splits)

text \<open>Reading both outputs.\<close>

definition same_but_outputs :: "child_process \<Rightarrow> child_process \<Rightarrow> bool" where
  "same_but_outputs p q \<longleftrightarrow> cp_pid q = cp_pid p \<and> stdin_fd q = stdin_fd p \<and> finished q = finished p \<and> cp_result q = cp_result p
    \<and> delivered_out q = delivered_out p \<and> delivered_err q = delivered_err p \<and> callback_id q = callback_id p
    \<and> cp_timeout q = cp_timeout p
    \<and> (\<exists>c. stdout_buffer q = stdout_buffer p @ c \<and> unread_out q = unread_out p @ c)
    \<and> (\<exists>c. stderr_buffer q = stderr_buffer p @ c \<and> unread_err q = unread_err p @ c)"

lemma read_both:
  assumes "read_stdout final d p = (p1, c1)" and "read_stderr final' d' p1 = (q, c2)"
  shows "same_but_outputs p q" "fds_opened (c1 @ c2) = {#}" "held p = fds_closed (c1 @ c2) + held q"
    "live_after (c1 @ c2) L = Some L"
    and "final \<Longrightarrow> final' \<Longrightarrow> fd_held (stdout_fd q) = {#} \<and> fd_held (stderr_fd q) = {#}"
proof -
  note a = read_stdout_spec [OF assms(1)] and b = read_stderr_spec [OF assms(2)]
  obtain f1 x1 u1 where p1: "p1 = p\<lparr>stdout_fd := f1, stdout_buffer := x1, unread_out := u1\<rparr>" using a(4) by blast
  obtain f2 x2 u2 where q: "q = p1\<lparr>stderr_fd := f2, stderr_buffer := x2, unread_err := u2\<rparr>" using b(4) by blast
  show "same_but_outputs p q" using a(5) b(5) by (simp add: same_but_outputs_def q) (simp add: p1)
  show "fds_opened (c1 @ c2) = {#}" using a(1) b(1) by simp
  show "held p = fds_closed (c1 @ c2) + held q" using a(2) b(2) by (simp add: held_def q) (simp add: p1)
  show "live_after (c1 @ c2) L = Some L" using a(3) b(3) by (simp add: live_after_append)
  show "fd_held (stdout_fd q) = {#} \<and> fd_held (stderr_fd q) = {#}" if "final" "final'"
    using a(6) b(6) that by (simp add: q)
qed

lemma apply_status_fields [simp]:
  "stdout_text (apply_status st r) = stdout_text r" "stderr_text (apply_status st r) = stderr_text r"
  "timed_out (apply_status st r) = timed_out r"
  by (simp_all add: apply_status_def split: wait_status.splits)

lemma finish_process_spec:
  assumes "finish_process a st p = (q, cs)" and "\<not> finished p" and "child_ok p"
  shows "finished q" "child_ok q" "fds_opened cs = {#}" "held p = fds_closed cs" "live_after cs L = Some L" "cp_pid q = cp_pid p"
    "callback_id q = callback_id p" "timed_out (cp_result q) = timed_out (cp_result p)"
proof -
  obtain p1 c1 p2 c2 where r: "read_stdout True (last_out a) p = (p1, c1)" "read_stderr True (last_err a) p1 = (p2, c2)"
    by fastforce
  note b = read_both [OF r]
  have q: "q = p2\<lparr>stdin_fd := (if stdin_fd p2 \<ge> 0 then -1 else stdin_fd p2), finished := True, stdout_buffer := [], stderr_buffer := [],
      cp_result := (apply_status st ((cp_result p2)\<lparr>stdout_text := stdout_buffer p2, stderr_text := stderr_buffer p2\<rparr>))
        \<lparr>duration_ms := took_ms a\<rparr>\<rparr>"
    and cs: "cs = (c1 @ c2) @ close_fd (stdin_fd p2)"
    using assms(1) by (simp_all add: finish_process_def r)
  have none: "fd_held (stdout_fd p2) = {#}" "fd_held (stderr_fd p2) = {#}" using b(5) by simp_all
  show "finished q" "cp_pid q = cp_pid p" "callback_id q = callback_id p" "timed_out (cp_result q) = timed_out (cp_result p)"
    using b(1) by (simp_all add: q same_but_outputs_def)
  show "fds_opened cs = {#}" using b(2) unfolding cs fds_append by simp
  show "held p = fds_closed cs" using b(3) none unfolding cs fds_append by (simp add: held_def ac_simps)
  show "live_after cs L = Some L" unfolding cs live_after_append [of "c1 @ c2"] b(4) by simp
  show "child_ok q"
    using b(1) none assms(2,3) by (auto simp: q child_ok_def output_of_def same_but_outputs_def held_def fd_held_def)
qed

lemma terminate_child_calls:
  assumes "terminate_child w k pid = (st, cs)"
  shows "fds_opened cs = {#}" "fds_closed cs = {#}" "pid \<in> L \<Longrightarrow> live_after cs L = Some (L - {pid})"
  using assms by (auto simp: terminate_child_def split: option.splits)

lemma child_step_refl: "child_step p p []"
  by (simp add: child_step_def)

text \<open>The child is reaped, by \<open>mid\<close>, between the first reads and the end of the process.\<close>

lemma read_reap_finish:
  assumes "\<not> finished p" and "child_ok p" and "same_but_outputs p p2" and "fds_opened c = {#}" "held p = fds_closed c + held p2"
    and "\<And>L. live_after c L = Some L"
    and "fds_opened mid = {#}" "fds_closed mid = {#}" "\<And>L. cp_pid p \<in> L \<Longrightarrow> live_after mid L = Some (L - {cp_pid p})"
    and "finish_process a st (p2\<lparr>cp_result := r\<rparr>) = (q, c3)"
  shows "child_step p q (c @ mid @ c3) \<and> child_ok q \<and> callback_id q = callback_id p \<and> finished q"
proof -
  let ?p = "p2\<lparr>cp_result := r\<rparr>"
  have n: "\<not> finished ?p" using assms(1,3) by (simp add: same_but_outputs_def)
  have "child_ok ?p" using assms(1,2,3) by (auto simp: child_ok_def output_of_def same_but_outputs_def)
  note f = finish_process_spec [OF assms(10) n this]
  have h: "held ?p = held p2" by (simp add: held_def)
  have pid: "cp_pid ?p = cp_pid p" "callback_id ?p = callback_id p" using assms(3) by (simp_all add: same_but_outputs_def)
  have "held q = {#}" using f(1,2) by (simp add: child_ok_def)
  then have "child_step p q (c @ mid @ c3)"
    using assms(1,4-9) f(1,3,4,5,6) h pid by (simp add: child_step_def live_after_append)
  then show ?thesis using f pid by simp
qed

lemma poll_process_spec:
  assumes "poll_process a p = (q, cs)" and "child_ok p"
  shows "child_step p q cs \<and> child_ok q \<and> callback_id q = callback_id p"
proof (cases "finished p")
  case True
  then show ?thesis using assms by (simp add: poll_process_def child_step_refl)
next
  case False
  obtain p1 c1 p2 c2 where r: "read_stdout False (first_out a) p = (p1, c1)" "read_stderr False (first_err a) p1 = (p2, c2)"
    by fastforce
  note b = read_both [OF r]
  have same: "p2\<lparr>cp_result := cp_result p2\<rparr> = p2" by simp
  have only_reads: "child_step p p2 (c1 @ c2) \<and> child_ok p2 \<and> callback_id p2 = callback_id p"
    using b(1,2,3,4) False assms(2)
    by (auto simp: child_step_def child_ok_def output_of_def same_but_outputs_def simp del: fds_append)
  note finishing = read_reap_finish [OF False assms(2) b(1,2,3,4)]
  show ?thesis
  proof (cases "has_exited a")
    case (Some st)
    obtain c3 where f: "finish_process a st p2 = (q, c3)" and cs: "cs = c1 @ c2 @ [Reaped (cp_pid p)] @ c3"
      using assms(1) False r Some by (auto simp: poll_process_def split: prod.splits)
    show ?thesis using finishing [of "[Reaped (cp_pid p)]" a st "cp_result p2" q c3] f cs by simp
  next
    case None
    show ?thesis
    proof (cases "q = p2 \<and> cs = c1 @ c2")
      case True
      then show ?thesis using only_reads by simp
    next
      case more: False
      obtain st ct c3 where t: "terminate_child (ends_in_time a) (killed_status a) (cp_pid p) = (st, ct)"
        and f: "finish_process a st (p2\<lparr>cp_result := (cp_result p2)\<lparr>timed_out := True\<rparr>\<rparr>) = (q, c3)"
        and cs: "cs = c1 @ c2 @ ct @ c3"
        using assms(1) False r None more by (auto simp: poll_process_def split: prod.splits option.splits if_splits)
      note u = terminate_child_calls [OF t]
      show ?thesis using finishing [OF u(1,2,3) f] cs by simp
    qed
  qed
qed

section \<open>The table\<close>

definition live_pids :: "(nat \<times> child_process) list \<Rightarrow> int list" where
  "live_pids ps = map (\<lambda>(i, p). cp_pid p) (filter (\<lambda>(i, p). \<not> finished p) ps)"

definition held_by :: "(nat \<times> child_process) list \<Rightarrow> int multiset" where
  "held_by ps = sum_list (map (\<lambda>(i, p). held p) ps)"

definition table_ok :: "os_call list \<Rightarrow> (nat \<times> child_process) list \<Rightarrow> bool" where
  "table_ok cs ps \<longleftrightarrow> fds_opened cs = fds_closed cs + held_by ps \<and> live_after cs {} = Some (set (live_pids ps))
    \<and> distinct (live_pids ps) \<and> (\<forall>(i, p)\<in>set ps. child_ok p)"

lemma table_simps [simp]:
  "live_pids [] = []" "live_pids ((i, p) # ps) = (if finished p then live_pids ps else cp_pid p # live_pids ps)"
  "live_pids (ps @ qs) = live_pids ps @ live_pids qs"
  "held_by [] = {#}" "held_by ((i, p) # ps) = held p + held_by ps" "held_by (ps @ qs) = held_by ps + held_by qs"
  by (auto simp: live_pids_def held_by_def)

lemma table_ok_step:
  assumes "table_ok cs (us @ (i, p) # vs)" and "child_step p q c" and "child_ok q"
  shows "table_ok (cs @ c) (us @ (i, q) # vs)"
proof -
  let ?L = "set (live_pids (us @ (i, p) # vs))"
  have live: "live_after cs {} = Some ?L" and dist: "distinct (live_pids (us @ (i, p) # vs))"
    and fds: "fds_opened cs = fds_closed cs + held_by (us @ (i, p) # vs)"
    and oks: "\<forall>(i, p)\<in>set (us @ (i, p) # vs). child_ok p"
    using assms(1) unfolding table_ok_def by simp_all
  have s: "fds_opened c = {#}" "held p = fds_closed c + held q" "cp_pid q = cp_pid p" "finished p \<Longrightarrow> finished q"
    and run: "(\<not> finished p \<longrightarrow> cp_pid p \<in> ?L) \<Longrightarrow>
      live_after c ?L = Some (if \<not> finished p \<and> finished q then ?L - {cp_pid p} else ?L)"
    using assms(2) unfolding child_step_def by blast+
  have "(if \<not> finished p \<and> finished q then ?L - {cp_pid p} else ?L) = set (live_pids (us @ (i, q) # vs))"
    using dist s(3,4) by (auto split: if_splits)
  moreover have "\<not> finished p \<longrightarrow> cp_pid p \<in> ?L" by simp
  ultimately have "live_after (cs @ c) {} = Some (set (live_pids (us @ (i, q) # vs)))"
    using run live by (simp add: live_after_append)
  moreover have "fds_opened (cs @ c) = fds_closed (cs @ c) + held_by (us @ (i, q) # vs)"
    using fds s(1,2) by (simp add: ac_simps)
  moreover have "distinct (live_pids (us @ (i, q) # vs))" using dist s(3,4) by (auto split: if_splits)
  moreover have "\<forall>(i, p)\<in>set (us @ (i, q) # vs). child_ok p" using oks assms(3) by auto
  ultimately show ?thesis unfolding table_ok_def by simp
qed

lemma table_ok_calls:
  assumes "table_ok cs ps" and "fds_opened c = fds_closed c" and "\<And>L. live_after c L = Some L"
  shows "table_ok (cs @ c) ps"
  using assms by (simp add: table_ok_def live_after_append)

lemma table_ok_add:
  assumes "table_ok cs ps" and "fds_opened c = fds_closed c + held p" and "\<And>L. live_after c L = Some (insert (cp_pid p) L)"
    and "cp_pid p \<notin> set (live_pids ps)" and "\<not> finished p" and "child_ok p"
  shows "table_ok (cs @ c) (ps @ [(i, p)])"
  using assms by (simp add: table_ok_def live_after_append ac_simps)

lemma table_ok_fewer:
  assumes "table_ok cs ps" and "live_pids rest = live_pids ps" "held_by rest = held_by ps" "set rest \<subseteq> set ps"
  shows "table_ok cs rest"
  using assms unfolding table_ok_def by auto

lemma table_ok_drop:
  assumes "table_ok cs ((i, p) # ps)"
  shows "table_ok (cs @ drop_calls p) ps"
proof -
  have "finished p \<Longrightarrow> held p = {#}" using assms by (simp add: table_ok_def child_ok_def)
  then show ?thesis
    using assms by (cases "finished p") (auto simp: table_ok_def drop_calls_def live_after_append held_def ac_simps)
qed

lemma table_ok_drop_all: "table_ok cs ps \<Longrightarrow> table_ok (cs @ concat (map (\<lambda>(i, p). drop_calls p) ps)) []"
proof (induction ps arbitrary: cs)
  case (Cons x ps)
  then show ?case using table_ok_drop [of cs "fst x" "snd x" ps] by (cases x) (metis append_assoc concat.simps(2) fst_conv
        list.simps(9) old.prod.case snd_conv)
qed simp

lemma table_ok_poll_all:
  assumes "table_ok cs (us @ ps)" and "poll_all answers ps = (qs, c)"
  shows "table_ok (cs @ c) (us @ qs) \<and> map fst qs = map fst ps"
  using assms
proof (induction ps arbitrary: cs us qs c)
  case (Cons x ps)
  obtain i p where x: "x = (i, p)" by fastforce
  obtain q c1 qs' c2 where r: "poll_process (answers i) p = (q, c1)" "poll_all answers ps = (qs', c2)" by fastforce
  have "child_ok p" using Cons.prems(1) x by (simp add: table_ok_def)
  with poll_process_spec [OF r(1)] have "child_step p q c1" "child_ok q" by simp_all
  with Cons.prems(1) have "table_ok (cs @ c1) (us @ (i, q) # ps)" unfolding x by (rule table_ok_step)
  with Cons.IH [of "cs @ c1" "us @ [(i, q)]", OF _ r(2)] Cons.prems(2) show ?case by (auto simp: x r)
qed simp

lemma collect_finished_spec:
  assumes "collect_finished n ps acc = (out, rest, evs)" and "\<forall>(i, p)\<in>set ps. child_ok p"
  shows "live_pids rest = live_pids ps" "held_by rest = held_by ps" "set rest \<subseteq> set ps"
  using assms by (induction n ps acc arbitrary: out rest evs rule: collect_finished.induct)
    (fastforce simp: Let_def child_ok_def split: if_splits prod.splits)+

lemma dispatch_finished_spec:
  assumes "dispatch_finished ps cbs = (rest, evs, cbs')" and "\<forall>(i, p)\<in>set ps. child_ok p"
  shows "live_pids rest = live_pids ps" "held_by rest = held_by ps" "set rest \<subseteq> set ps"
  using assms by (induction ps cbs arbitrary: rest evs cbs' rule: dispatch_finished.induct)
    (fastforce simp: child_ok_def split: if_splits prod.splits)+

section \<open>Ids\<close>

fun event_process :: "process_event \<Rightarrow> nat" where
  "event_process (Reported i r) = i"
| "event_process (Called_back i c r) = i"
| "event_process (Discarded_result i c) = i"
| "event_process (Dropped i) = i"

definition ids_of :: "(nat \<times> child_process) list \<Rightarrow> nat multiset" where
  "ids_of ps = mset (map fst ps)"

lemma ids_simps [simp]:
  "ids_of [] = {#}" "ids_of (x # ps) = add_mset (fst x) (ids_of ps)" "ids_of (ps @ qs) = ids_of ps + ids_of qs"
  by (simp_all add: ids_of_def)

lemma collect_finished_ids:
  "collect_finished n ps acc = (out, rest, evs) \<Longrightarrow> ids_of rest + mset (map event_process evs) = ids_of ps"
  by (induction n ps acc arbitrary: out rest evs rule: collect_finished.induct)
    (auto simp: Let_def split: if_splits prod.splits)

lemma dispatch_finished_ids:
  "dispatch_finished ps cbs = (rest, evs, cbs') \<Longrightarrow> ids_of rest + mset (map event_process evs) = ids_of ps"
  by (induction ps cbs arbitrary: rest evs cbs' rule: dispatch_finished.induct) (auto split: if_splits prod.splits)

section \<open>Histories\<close>

text \<open>The system answers with descriptors that are open, and with the id of no process that waits to be reaped.\<close>

definition pipes_ok :: "spawn_answers \<Rightarrow> bool" where
  "pipes_ok a \<longleftrightarrow> (\<forall>ends. Some ends \<in> {out_pipe a, err_pipe a, in_pipe a} \<longrightarrow> fst ends \<ge> 0 \<and> snd ends \<ge> 0)"

definition fork_ok :: "spawn_answers \<Rightarrow> os_call list \<Rightarrow> bool" where
  "fork_ok a cs \<longleftrightarrow> (\<forall>pid L. fork_pid a = Some pid \<longrightarrow> live_after cs {} = Some L \<longrightarrow> pid \<notin> L)"

inductive process_step :: "process_manager \<Rightarrow> process_manager \<Rightarrow> bool" where
  Spawn: "pipes_ok a \<Longrightarrow> fork_ok a (pm_calls m) \<Longrightarrow> pm_next m + 1 < 2 ^ 64 \<Longrightarrow> spawn_process a args cb m = (r, m') \<Longrightarrow> process_step m m'"
| Write: "process_write n i data m = (w, m') \<Longrightarrow> process_step m m'"
| Close_stdin: "process_close_stdin i m = (b, m') \<Longrightarrow> process_step m m'"
| Kill: "process_kill sent i sig m = (b, m') \<Longrightarrow> process_step m m'"
| Read: "process_read a i m = (t, m') \<Longrightarrow> process_step m m'"
| Poll: "process_poll answers n m = (out, m') \<Longrightarrow> process_step m m'"
| Wait_turn: "wait_turn a i m = (res, m') \<Longrightarrow> process_step m m'"
| Dispatch: "process_dispatch answers m = m' \<Longrightarrow> process_step m m'"
| Drop: "process_drop m = m' \<Longrightarrow> process_step m m'"

definition process_reachable :: "process_manager \<Rightarrow> bool" where
  "process_reachable m \<longleftrightarrow> (\<exists>cbs. process_step\<^sup>*\<^sup>* (new_manager cbs) m)"

definition pm_inv :: "process_manager \<Rightarrow> bool" where
  "pm_inv m \<longleftrightarrow> table_ok (pm_calls m) (processes m) \<and> 1 \<le> pm_next m
    \<and> ids_of (processes m) + mset (map event_process (pm_events m)) = mset [1..<pm_next m]"

lemma manager_simps [simp]:
  "pm_calls (os c m) = pm_calls m @ c" "processes (os c m) = processes m" "pm_next (os c m) = pm_next m"
  "pm_events (os c m) = pm_events m" "pm_callbacks (os c m) = pm_callbacks m"
  "pm_calls (log_pm e m) = pm_calls m" "processes (log_pm e m) = processes m" "pm_next (log_pm e m) = pm_next m"
  "pm_events (log_pm e m) = pm_events m @ e" "pm_callbacks (log_pm e m) = pm_callbacks m"
  "pm_calls (put_process i p m) = pm_calls m" "pm_next (put_process i p m) = pm_next m"
  "pm_events (put_process i p m) = pm_events m" "pm_callbacks (put_process i p m) = pm_callbacks m"
  by (simp_all add: os_def log_pm_def put_process_def)

lemma pm_inv_distinct_ids:
  assumes "pm_inv m"
  shows "distinct (map fst (processes m) @ map event_process (pm_events m))"
proof -
  have "mset (map fst (processes m) @ map event_process (pm_events m)) = mset [1..<pm_next m]"
    using assms by (simp add: pm_inv_def ids_of_def)
  then show ?thesis using mset_eq_imp_distinct_iff distinct_upt by blast
qed

lemma pm_inv_distinct: "pm_inv m \<Longrightarrow> distinct (map fst (processes m))"
  using pm_inv_distinct_ids by simp

lemma put_process_split:
  assumes "pm_inv m" and "map_of (processes m) i = Some p"
  obtains us vs where "processes m = us @ (i, p) # vs" "\<And>q. processes (put_process i q m) = us @ (i, q) # vs"
    "i \<notin> fst ` set us" "i \<notin> fst ` set vs"
proof -
  from map_of_SomeD [OF assms(2)] obtain us vs where split: "processes m = us @ (i, p) # vs" by (meson split_list)
  with pm_inv_distinct [OF assms(1)] have out: "i \<notin> fst ` set us" "i \<notin> fst ` set vs" by auto
  have "map (\<lambda>(j, r). if j = i then (j, q) else (j, r)) ws = ws" if "i \<notin> fst ` set ws" for ws :: "(nat \<times> child_process) list" and q
    using that by (induction ws) auto
  then have "processes (put_process i q m) = us @ (i, q) # vs" for q using out by (simp add: put_process_def split)
  then show ?thesis using that split out by blast
qed

text \<open>The operations that leave every process in the table.\<close>

lemma pm_inv_same:
  assumes "pm_inv m" and "table_ok (pm_calls m') (processes m')" and "map fst (processes m') = map fst (processes m)"
    and "pm_next m' = pm_next m" "pm_events m' = pm_events m"
  shows "pm_inv m'"
  using assms by (simp add: pm_inv_def ids_of_def)

lemma pm_inv_change:
  assumes "pm_inv m" and "map_of (processes m) i = Some p" and "child_step p q c" and "child_ok q"
  shows "pm_inv (put_process i q (os c m))"
proof -
  obtain us vs where s: "processes m = us @ (i, p) # vs" "\<And>q. processes (put_process i q m) = us @ (i, q) # vs"
    using put_process_split [OF assms(1,2)] by metis
  then have new: "processes (put_process i q (os c m)) = us @ (i, q) # vs" by (simp add: put_process_def)
  have "table_ok (pm_calls m @ c) (us @ (i, q) # vs)"
    using table_ok_step [OF _ assms(3,4)] assms(1) s(1) by (simp add: pm_inv_def)
  then show ?thesis using pm_inv_same [OF assms(1)] s(1) new by simp
qed

lemma pm_inv_child: "pm_inv m \<Longrightarrow> map_of (processes m) i = Some p \<Longrightarrow> child_ok p"
  using map_of_SomeD [of "processes m" i p] by (auto simp: pm_inv_def table_ok_def)

lemma pm_inv_calls:
  assumes "pm_inv m" and "map_of (processes m) i = Some p" and "child_step p p c"
  shows "pm_inv (os c m)"
proof -
  obtain us vs where "processes m = us @ (i, p) # vs" using put_process_split [OF assms(1,2)] by metis
  then have "table_ok (pm_calls m @ c) (processes m)"
    using table_ok_step [OF _ assms(3) pm_inv_child [OF assms(1,2)]] assms(1) by (simp add: pm_inv_def)
  then show ?thesis using pm_inv_same [OF assms(1)] by simp
qed

lemma pm_inv_write: "process_write n i data m = (w, m') \<Longrightarrow> pm_inv m \<Longrightarrow> pm_inv m'"
  by (auto simp: process_write_def child_step_def intro!: pm_inv_calls split: option.splits if_splits)

lemma pm_inv_kill: "process_kill sent i sig m = (b, m') \<Longrightarrow> pm_inv m \<Longrightarrow> pm_inv m'"
  by (auto simp: process_kill_def child_step_def intro!: pm_inv_calls split: option.splits if_splits)

lemma pm_inv_close_stdin:
  assumes "process_close_stdin i m = (b, m')" and "pm_inv m"
  shows "pm_inv m'"
proof (cases "m' = m")
  case False
  then obtain p where p: "map_of (processes m) i = Some p" "stdin_fd p \<ge> 0"
    and m': "m' = put_process i (p\<lparr>stdin_fd := -1, stdin_closed := True\<rparr>) (os [Closed (stdin_fd p)] m)"
    using assms(1) by (auto simp: process_close_stdin_def split: option.splits if_splits)
  have ok: "child_ok p" by (rule pm_inv_child [OF assms(2) p(1)])
  then have "\<not> finished p" using p(2) by (auto simp: child_ok_def held_def fd_held_def)
  then have "child_step p (p\<lparr>stdin_fd := -1, stdin_closed := True\<rparr>) [Closed (stdin_fd p)]"
    "child_ok (p\<lparr>stdin_fd := -1, stdin_closed := True\<rparr>)"
    using p(2) ok by (simp_all add: child_step_def child_ok_def output_of_def held_def fd_held_def)
  then show ?thesis unfolding m' by (rule pm_inv_change [OF assms(2) p(1)])
qed (use assms in simp)

lemma pm_inv_read:
  assumes "process_read a i m = (t, m')" and "pm_inv m"
  shows "pm_inv m'"
proof (cases "map_of (processes m) i")
  case (Some p)
  obtain q c where r: "poll_process a p = (q, c)" by fastforce
  note spec = poll_process_spec [OF r pm_inv_child [OF assms(2) Some]]
  let ?q = "q\<lparr>delivered_out := delivered_out q @ unread_out q, delivered_err := delivered_err q @ unread_err q,
               unread_out := [], unread_err := []\<rparr>"
  have "child_step p ?q c" "child_ok ?q"
    using spec by (simp_all add: child_step_def child_ok_def output_of_def held_def split: if_splits)
  then have "pm_inv (put_process i ?q (os c m))" by (rule pm_inv_change [OF assms(2) Some])
  then show ?thesis using assms(1) by (auto simp: process_read_def Some r)
qed (use assms in \<open>simp add: process_read_def\<close>)

lemma pm_inv_poll_processes:
  assumes "pm_inv m"
  shows "pm_inv (poll_processes answers m)"
proof -
  obtain qs c where r: "poll_all answers (processes m) = (qs, c)" by fastforce
  have "table_ok (pm_calls m @ c) qs \<and> map fst qs = map fst (processes m)"
    using table_ok_poll_all [of "pm_calls m" "[]", OF _ r] assms by (simp add: pm_inv_def)
  then show ?thesis using pm_inv_same [OF assms, of "poll_processes answers m"] by (simp add: poll_processes_def r)
qed

text \<open>The operations that remove processes.\<close>

lemma pm_inv_fewer:
  assumes "pm_inv m" and "table_ok (pm_calls m') (processes m')" and "pm_next m' = pm_next m"
    and "pm_events m' = pm_events m @ evs" and "ids_of (processes m') + mset (map event_process evs) = ids_of (processes m)"
  shows "pm_inv m'"
  using assms(1-3) unfolding pm_inv_def assms(4) assms(5) [symmetric] by (simp add: ac_simps)

lemma table_children: "pm_inv m \<Longrightarrow> \<forall>(i, p)\<in>set (processes m). child_ok p"
  by (simp add: pm_inv_def table_ok_def)

lemma pm_inv_poll:
  assumes "process_poll answers n m = (out, m')" and "pm_inv m"
  shows "pm_inv m'"
proof -
  let ?m = "poll_processes answers m"
  have inv: "pm_inv ?m" by (rule pm_inv_poll_processes [OF assms(2)])
  obtain k out' rest evs where r: "collect_finished k (processes ?m) [] = (out', rest, evs)"
    and m': "m' = log_pm evs (?m\<lparr>processes := rest\<rparr>)"
    using assms(1) by (auto simp: process_poll_def Let_def split: prod.splits)
  note s = collect_finished_spec [OF r table_children [OF inv]]
  have "table_ok (pm_calls ?m) rest" using table_ok_fewer [OF _ s] inv by (simp add: pm_inv_def)
  then show ?thesis using pm_inv_fewer [OF inv, of m' evs] collect_finished_ids [OF r] by (simp add: m')
qed

lemma pm_inv_dispatch:
  assumes "process_dispatch answers m = m'" and "pm_inv m"
  shows "pm_inv m'"
proof -
  let ?m = "poll_processes answers m"
  have inv: "pm_inv ?m" by (rule pm_inv_poll_processes [OF assms(2)])
  obtain rest evs cbs where r: "dispatch_finished (processes ?m) (pm_callbacks ?m) = (rest, evs, cbs)"
    and m': "m' = log_pm evs (?m\<lparr>processes := rest, pm_callbacks := cbs\<rparr>)"
    using assms(1) by (auto simp: process_dispatch_def Let_def split: prod.splits)
  note s = dispatch_finished_spec [OF r table_children [OF inv]]
  have "table_ok (pm_calls ?m) rest" using table_ok_fewer [OF _ s] inv by (simp add: pm_inv_def)
  then show ?thesis using pm_inv_fewer [OF inv, of m' evs] dispatch_finished_ids [OF r] by (simp add: m')
qed

lemma pm_inv_drop: "process_drop m = m' \<Longrightarrow> pm_inv m \<Longrightarrow> pm_inv m'"
  by (rule pm_inv_fewer [of m m' "map (\<lambda>(i, p). Dropped i) (processes m)"])
    (auto simp: process_drop_def pm_inv_def ids_of_def comp_def split_def mset_map intro!: table_ok_drop_all
      [unfolded split_def])

lemma delete_middle:
  "i \<notin> fst ` set us \<Longrightarrow> i \<notin> fst ` set vs \<Longrightarrow> AList.delete i (us @ (i, p) # vs) = us @ vs"
  by (induction us) (auto simp: delete_idem)

lemma pm_inv_wait_turn:
  assumes "wait_turn a i m = (res, m')" and "pm_inv m"
  shows "pm_inv m'"
proof (cases "map_of (processes m) i")
  case (Some p)
  obtain q c where r: "poll_process a p = (q, c)" by fastforce
  have ok: "child_step p q c" "child_ok q" using poll_process_spec [OF r pm_inv_child [OF assms(2) Some]] by simp_all
  let ?m = "put_process i q (os c m)"
  have inv: "pm_inv ?m" by (rule pm_inv_change [OF assms(2) Some ok])
  show ?thesis
  proof (cases "finished q")
    case False
    then show ?thesis using assms(1) inv by (simp add: wait_turn_def Some r)
  next
    case True
    obtain us vs where s: "processes m = us @ (i, p) # vs" "\<And>q. processes (put_process i q m) = us @ (i, q) # vs"
      and out: "i \<notin> fst ` set us" "i \<notin> fst ` set vs"
      using put_process_split [OF assms(2) Some] by metis
    have new: "processes ?m = us @ (i, q) # vs" using s by (simp add: put_process_def)
    obtain cbs where m': "m' = log_pm [Reported i (cp_result q)] (?m\<lparr>processes := AList.delete i (processes ?m), pm_callbacks := cbs\<rparr>)"
      using assms(1) True by (auto simp: wait_turn_def Some r Let_def)
    have "table_ok (pm_calls ?m) (us @ (i, q) # vs)" using inv unfolding pm_inv_def new by blast
    moreover have "held q = {#}" using True ok(2) by (simp add: child_ok_def)
    ultimately have "table_ok (pm_calls ?m) (us @ vs)" using True by (rule_tac table_ok_fewer) auto
    moreover have "processes m' = us @ vs" using delete_middle [OF out] by (simp add: m' new)
    ultimately show ?thesis using pm_inv_fewer [OF inv, of m' "[Reported i (cp_result q)]"] new by (simp add: m')
  qed
qed (use assms in \<open>simp add: wait_turn_def\<close>)

lemma pm_inv_spawn:
  assumes "spawn_process a args cb m = (r, m')" and "pipes_ok a" and "fork_ok a (pm_calls m)" and "pm_next m + 1 < 2 ^ 64"
    and "pm_inv m"
  shows "pm_inv m'"
proof -
  have table: "table_ok (pm_calls m) (processes m)" using assms(5) by (simp add: pm_inv_def)
  have gone: "pm_inv m'" if "\<exists>c. pm_calls m' = pm_calls m @ c \<and> fds_opened c = fds_closed c \<and> (\<forall>L. live_after c L = Some L)"
    and "processes m' = processes m" "pm_next m' = pm_next m" "pm_events m' = pm_events m"
    using that table_ok_calls [OF table] by (intro pm_inv_same [OF assms(5)]) auto
  show ?thesis
  proof (cases r)
    case (Inl e)
    then show ?thesis using assms(1)
      by (intro gone) (auto simp: spawn_process_def opened_def closed_ends_def Let_def split: option.splits if_splits prod.splits)
  next
    case (Inr i)
    define err where "err = (if pa_merge_stderr args then None else err_pipe a)"
    define err_calls where "err_calls = (case err of None \<Rightarrow> [] | Some e \<Rightarrow> opened e)"
    define err_close where "err_close = (case err of None \<Rightarrow> [] | Some e \<Rightarrow> [Closed (snd e)])"
    obtain out inp pid where o: "out_pipe a = Some out" and n: "in_pipe a = Some inp" and f: "fork_pid a = Some pid"
      and add: "add_process a args cb out err inp pid
        (os ([Forked pid, Closed (snd out)] @ err_close @ [Closed (fst inp)]) (os (opened inp) (os err_calls (os (opened out) m))))
        = (i, m')"
      using assms(1) Inr
      by (auto simp: spawn_process_def Let_def err_def err_calls_def err_close_def split: option.splits if_splits prod.splits)
    obtain p w where m': "processes m' = processes m @ [(pm_next m, p)]" "pm_next m' = pm_next m + 1" "pm_events m' = pm_events m"
      and calls: "pm_calls m' = pm_calls m @ ((opened out @ err_calls @ opened inp
          @ ([Forked pid, Closed (snd out)] @ err_close @ [Closed (fst inp)])) @ w)"
      and w: "fds_opened w = {#}" "fds_closed w = {#}" "\<And>L. live_after w L = Some L"
      and p: "cp_pid p = pid" "\<not> finished p" "child_ok p" "stdout_fd p = fst out" "stdin_fd p = snd inp"
        "stderr_fd p = (case err of None \<Rightarrow> -1 | Some e \<Rightarrow> fst e)"
      using add assms(4)
      by (auto simp: add_process_def Let_def child_ok_def output_of_def fresh_result_def split: option.splits if_splits prod.splits)
    have "pid \<notin> set (live_pids (processes m))" using assms(3) f table by (auto simp: fork_ok_def table_ok_def)
    moreover have "fst out \<ge> 0" "snd inp \<ge> 0" "\<And>e. err = Some e \<Longrightarrow> fst e \<ge> 0"
      using assms(2) o n unfolding pipes_ok_def err_def by (metis insertCI option.distinct(1))+
    ultimately have "table_ok (pm_calls m') (processes m')"
      unfolding calls m'(1) using p w
      by (intro table_ok_add [OF table])
        (auto simp: held_def fd_held_def opened_def err_calls_def err_close_def live_after_append split: option.splits)
    moreover have "[1..<pm_next m + 1] = [1..<pm_next m] @ [pm_next m]" using assms(5) by (simp add: pm_inv_def)
    ultimately show ?thesis using assms(5) by (simp add: pm_inv_def m' ac_simps)
  qed
qed

interpretation processes: invariant_system "\<lambda>m. \<exists>cbs. m = new_manager cbs" process_step pm_inv
proof (unfold_locales, goal_cases)
  case (1 m)
  then show ?case by (auto simp: pm_inv_def table_ok_def new_manager_def)
next
  case (2 m m')
  from 2(1) show ?case
  proof cases
    case (Spawn a args cb r)
    then show ?thesis using pm_inv_spawn 2(2) by blast
  next
    case (Write n i data w)
    then show ?thesis using pm_inv_write 2(2) by blast
  next
    case (Close_stdin i b)
    then show ?thesis using pm_inv_close_stdin 2(2) by blast
  next
    case (Kill sent i sig b)
    then show ?thesis using pm_inv_kill 2(2) by blast
  next
    case (Read a i t)
    then show ?thesis using pm_inv_read 2(2) by blast
  next
    case (Poll answers n out)
    then show ?thesis using pm_inv_poll 2(2) by blast
  next
    case (Wait_turn a i res)
    then show ?thesis using pm_inv_wait_turn 2(2) by blast
  next
    case (Dispatch answers)
    then show ?thesis using pm_inv_dispatch 2(2) by blast
  next
    case Drop
    then show ?thesis using pm_inv_drop 2(2) by blast
  qed
qed

lemma reachable_pm_inv: "process_reachable m \<Longrightarrow> pm_inv m"
  using processes.inv_reachable unfolding process_reachable_def by blast

text \<open>C32: In every history of a process manager, each descriptor the parent opened has been closed as often as it was
  opened, save those the processes of the table hold, of which a finished process holds none. When the system gives a
  new child the id of no child that waits to be reaped, every signal and every reaping is of a child that has not been
  reaped, and the children not yet reaped are the unfinished ones of the table.\<close>

theorem children_settled:
  assumes "process_reachable m"
  shows "fds_opened (pm_calls m) = fds_closed (pm_calls m) + held_by (processes m)
    \<and> held_by (filter (\<lambda>(i, p). finished p) (processes m)) = {#}
    \<and> live_after (pm_calls m) {} = Some (set (live_pids (processes m)))"
proof -
  have inv: "pm_inv m" by (rule reachable_pm_inv [OF assms])
  have "\<forall>(i, p)\<in>set ps. child_ok p \<Longrightarrow> held_by (filter (\<lambda>(i, p). finished p) ps) = {#}" for ps
    by (induction ps) (auto simp: child_ok_def)
  with table_children [OF inv] inv show ?thesis by (simp add: pm_inv_def table_ok_def)
qed

text \<open>Every process leaves the table in one way, once: ids are given in order, and an id is in the table, or was
  reported to the script, handed to its callback, discarded or dropped.\<close>

lemma processes_accounted:
  "process_reachable m \<Longrightarrow> ids_of (processes m) + mset (map event_process (pm_events m)) = mset [1..<pm_next m]"
  using reachable_pm_inv by (simp add: pm_inv_def)

text \<open>What scripts have read of a finished process, followed by what they have not, is the text of its result: no
  output is lost, repeated or reordered.\<close>

lemma output_read_once:
  assumes "process_reachable m" and "(i, p) \<in> set (processes m)" and "finished p"
  shows "stdout_text (cp_result p) = delivered_out p @ unread_out p \<and> stderr_text (cp_result p) = delivered_err p @ unread_err p"
  using reachable_pm_inv [OF assms(1)] assms(2,3) by (auto simp: pm_inv_def table_ok_def child_ok_def output_of_def)

text \<open>A finished process with a callback is erased by a poll: the script gets no result, and its callback is not called.\<close>

lemma poll_discards:
  "finished p \<Longrightarrow> callback_id p \<noteq> 0 \<Longrightarrow> collect_finished n [(i, p)] [] = ([], [], [Discarded_result i (callback_id p)])"
  by (simp add: Let_def)

end
