(* ===== verification/Child_Run_Properties.thy ===== *)
theory Child_Run_Properties
  imports Child_Properties
begin

text \<open>
  The properties of \<open>process.run\<close>: when it returns, that it leaves no descriptor and no child behind, and the errors of
  its options. The examples of the properties of child processes are here too.
\<close>

section \<open>When a run returns\<close>

definition ends_output :: "bool \<Rightarrow> drain \<Rightarrow> bool" where
  "ends_output ready d \<longleftrightarrow> ready \<and> snd d \<noteq> Would_block"

definition ends_child :: "process_args \<Rightarrow> turn_answers \<Rightarrow> bool" where
  "ends_child args a \<longleftrightarrow> t_wait a \<noteq> None \<or> (\<exists>t. pa_timeout args = Some t \<and> t \<le> t_elapsed a)"

lemma run_os_fields [simp]:
  "out_open (run_os cs s) = out_open s" "err_open (run_os cs s) = err_open s" "child_done (run_os cs s) = child_done s"
  "run_in (run_os cs s) = run_in s" "run_calls (run_os cs s) = run_calls s @ cs"
  by (simp_all add: run_os_def)

lemma wait_child_fields [simp]:
  "out_open (wait_child pid a s) = out_open s" "err_open (wait_child pid a s) = err_open s" "run_in (wait_child pid a s) = run_in s"
  "child_done (wait_child pid a s) = (child_done s \<or> t_wait a \<noteq> None)"
  by (auto simp: wait_child_def split: option.splits)

lemma check_timeout_fields [simp]:
  "out_open (check_timeout args pid a s) = out_open s" "err_open (check_timeout args pid a s) = err_open s"
  "run_in (check_timeout args pid a s) = run_in s"
  "child_done (check_timeout args pid a s) = (child_done s \<or> (\<exists>t. pa_timeout args = Some t \<and> t \<le> t_elapsed a))"
  by (auto simp: check_timeout_def split: option.splits prod.splits)

lemma write_input_fields [simp]:
  "out_open (write_input args a s) = out_open s" "err_open (write_input args a s) = err_open s"
  "child_done (write_input args a s) = child_done s"
  by (auto simp: write_input_def Let_def split: option.splits)

lemma read_outputs_fields [simp]:
  "out_open (read_outputs a s) = (out_open s \<and> \<not> ends_output (t_out_ready a) (t_out a))"
  "err_open (read_outputs a s) = (err_open s \<and> \<not> ends_output (t_err_ready a) (t_err a))"
  "child_done (read_outputs a s) = child_done s" "run_in (read_outputs a s) = run_in s"
  "run_calls (read_outputs a s) = run_calls s"
  by (auto simp: read_outputs_def Let_def ends_output_def drain_fd_eq)

lemma run_turn_fields:
  "out_open (run_turn args pid a s) = (out_open s \<and> \<not> ends_output (t_out_ready a) (t_out a))"
  "err_open (run_turn args pid a s) = (err_open s \<and> \<not> ends_output (t_err_ready a) (t_err a))"
  "child_done (run_turn args pid a s) = (child_done s \<or> ends_child args a)"
  by (auto simp: run_turn_def ends_child_def)

lemma run_loop_returns:
  "run_loop_turns args pid as s \<noteq> None \<longleftrightarrow>
    (out_open s \<longrightarrow> (\<exists>a\<in>set as. ends_output (t_out_ready a) (t_out a)))
    \<and> (err_open s \<longrightarrow> (\<exists>a\<in>set as. ends_output (t_err_ready a) (t_err a)))
    \<and> (child_done s \<or> (\<exists>a\<in>set as. ends_child args a))"
proof (induction as arbitrary: s)
  case Nil
  then show ?case by (subst run_loop_turns.simps) auto
next
  case (Cons a as)
  then show ?case by (subst run_loop_turns.simps) (auto simp: run_turn_fields)
qed

lemma started_run:
  assumes "out_pipe a = Some out" and "pa_merge_stderr args \<or> err_pipe a \<noteq> None"
    and "pa_stdin args = None \<or> in_pipe a \<noteq> None" and "fork_pid a = Some pid"
  shows "run_process_sync a turns took args \<noteq> None \<longleftrightarrow>
    run_loop_turns args pid turns (initial_run args (map_option snd (if pa_stdin args = None then None else in_pipe a))) \<noteq> None"
  using assms by (auto simp: run_process_sync_def Let_def split: option.splits)

text \<open>C33: \<open>process.run\<close> on a child that was started returns exactly when each output it reads reaches its end and the child
  ends or runs out of time. The time limit ends the child, not the run: a run whose output pipe another process holds
  open does not return.\<close>

theorem run_returns:
  assumes "out_pipe a = Some out" and "pa_merge_stderr args \<or> err_pipe a \<noteq> None"
    and "pa_stdin args = None \<or> in_pipe a \<noteq> None" and "fork_pid a = Some pid"
  shows "run_process_sync a turns took args \<noteq> None \<longleftrightarrow>
    (\<exists>t\<in>set turns. ends_output (t_out_ready t) (t_out t))
    \<and> (pa_merge_stderr args \<or> (\<exists>t\<in>set turns. ends_output (t_err_ready t) (t_err t)))
    \<and> (\<exists>t\<in>set turns. ends_child args t)"
  unfolding started_run [OF assms] run_loop_returns by (auto simp: initial_run_def)

section \<open>What a run leaves behind\<close>

definition open_end :: "int option \<Rightarrow> int multiset" where
  "open_end fd = (case fd of None \<Rightarrow> {#} | Some f \<Rightarrow> {#f#})"

definition run_ok :: "int \<Rightarrow> int option \<Rightarrow> run_state \<Rightarrow> bool" where
  "run_ok pid inp s \<longleftrightarrow> fds_opened (run_calls s) = {#} \<and> open_end inp = fds_closed (run_calls s) + open_end (run_in s)
    \<and> live_after (run_calls s) {pid} = Some (if child_done s then {} else {pid})"

lemma run_ok_wait: "run_ok pid inp s \<Longrightarrow> run_ok pid inp (wait_child pid a s)"
  by (auto simp: run_ok_def wait_child_def live_after_append split: option.splits)

lemma run_ok_timeout:
  assumes "run_ok pid inp s"
  shows "run_ok pid inp (check_timeout args pid a s)"
proof (cases "child_done s \<or> pa_timeout args = None \<or> t_elapsed a < the (pa_timeout args)")
  case True
  then show ?thesis using assms by (auto simp: check_timeout_def split: option.split)
next
  case False
  obtain st cs where t: "terminate_child (t_in_time a) (t_killed a) pid = (st, cs)" by fastforce
  note u = terminate_child_calls [OF t]
  show ?thesis using False assms u(3) [of "{pid}"] u(1,2)
    by (auto simp: check_timeout_def t run_ok_def live_after_append)
qed

lemma run_ok_write: "run_ok pid inp s \<Longrightarrow> run_ok pid inp (write_input args a s)"
  by (auto simp: run_ok_def write_input_def open_end_def Let_def live_after_append split: option.splits)

lemma run_ok_read: "run_ok pid inp s \<Longrightarrow> run_ok pid inp (read_outputs a s)"
  by (simp add: run_ok_def)

lemma run_loop_ok: "run_loop_turns args pid as s = Some t \<Longrightarrow> run_ok pid inp s \<Longrightarrow> run_ok pid inp t \<and> child_done t"
proof (induction as arbitrary: s)
  case Nil
  then show ?case by (subst (asm) run_loop_turns.simps) (simp split: if_splits)
next
  case (Cons a as)
  have "run_ok pid inp (run_turn args pid a s)"
    unfolding run_turn_def by (intro run_ok_read run_ok_write run_ok_timeout run_ok_wait Cons.prems(2))
  moreover have "(if out_open s \<or> err_open s \<or> \<not> child_done s then run_loop_turns args pid as (run_turn args pid a s) else Some s) = Some t"
    using Cons.prems(1) by (subst (asm) run_loop_turns.simps) (auto split: if_splits)
  ultimately show ?case using Cons.IH Cons.prems(2) by (auto split: if_splits)
qed

text \<open>C34: Whatever way \<open>process.run\<close> returns, with a result or an exception, every descriptor it opened has been closed
  once, and the child, if there was one, was reaped once and signalled only before that.\<close>

theorem run_leaves_nothing:
  assumes "run_process_sync a turns took args = Some (r, cs)"
  shows "fds_opened cs = fds_closed cs \<and> live_after cs {} = Some {}"
proof -
  define err where "err = (if pa_merge_stderr args then None else err_pipe a)"
  define inp where "inp = (if pa_stdin args = None then None else in_pipe a)"
  show ?thesis
  proof (cases r)
    case (Inl e)
    then show ?thesis using assms
      by (auto simp: run_process_sync_def opened_def closed_ends_def Let_def split: option.splits if_splits)
  next
    case (Inr res)
    obtain out pid s where run: "run_loop_turns args pid turns (initial_run args (map_option snd inp)) = Some s"
      and cs: "cs = opened out @ (case err of None \<Rightarrow> [] | Some e \<Rightarrow> opened e) @ (case inp of None \<Rightarrow> [] | Some i \<Rightarrow> opened i)
        @ [Forked pid, Closed (snd out)] @ (case err of None \<Rightarrow> [] | Some e \<Rightarrow> [Closed (snd e)])
        @ (case inp of None \<Rightarrow> [] | Some i \<Rightarrow> [Closed (fst i)]) @ run_calls s @ [Closed (fst out)]
        @ (case err of None \<Rightarrow> [] | Some e \<Rightarrow> [Closed (fst e)]) @ (case run_in s of None \<Rightarrow> [] | Some fd \<Rightarrow> [Closed fd])"
      using assms Inr unfolding run_process_sync_def Let_def err_def [symmetric] inp_def [symmetric]
      by (auto split: option.splits if_splits)
    have "run_ok pid (map_option snd inp) (initial_run args (map_option snd inp))"
      by (simp add: run_ok_def initial_run_def)
    from run_loop_ok [OF run this] have s: "fds_opened (run_calls s) = {#}"
      "open_end (map_option snd inp) = fds_closed (run_calls s) + open_end (run_in s)" "live_after (run_calls s) {pid} = Some {}"
      by (simp_all add: run_ok_def)
    have "fds_opened cs = fds_closed cs"
      using s(1,2) by (cases err; cases inp; cases "run_in s") (simp_all add: cs opened_def open_end_def)
    moreover have "live_after cs {} = Some {}"
      using s(3) by (cases err; cases inp; cases "run_in s") (simp_all add: cs opened_def live_after_append)
    ultimately show ?thesis by simp
  qed
qed

section \<open>Options\<close>

lemma all_strings_Inr: "all_strings vs = Inr ss \<longleftrightarrow> vs = map String_value ss"
proof -
  have "all_strings (map String_value ts) = Inr ts" for ts by (induction ts) simp_all
  moreover have "all_strings vs = Inr ss \<Longrightarrow> vs = map String_value ss"
    by (induction vs arbitrary: ss) (auto simp: bind_result_Inr_iff split: script_value.splits)
  ultimately show ?thesis by blast
qed

lemma parse_argv_Inr: "parse_argv v = Inr ss \<longleftrightarrow> ss \<noteq> [] \<and> (\<exists>kvs. v = Table_value (map String_value ss) kvs)"
  by (auto simp: parse_argv_def all_strings_Inr split: script_value.splits)

text \<open>C35: Options are accepted exactly when \<open>args\<close> is a non-empty table of strings, and \<open>cwd\<close>, \<open>timeout\<close> and \<open>stdin\<close> are
  absent or of their types; otherwise they are refused with an exception. An environment or a flag of another type is
  no error.\<close>

theorem options_refused:
  "(\<exists>a. parse_args opts = Inr a) \<longleftrightarrow>
    (\<exists>ss kvs. ss \<noteq> [] \<and> opts ''args'' = Table_value (map String_value ss) kvs)
    \<and> (opts ''cwd'' = Nil_value \<or> (\<exists>s. opts ''cwd'' = String_value s))
    \<and> (opts ''timeout'' = Nil_value \<or> (\<exists>n. opts ''timeout'' = Number_value n))
    \<and> (opts ''stdin'' = Nil_value \<or> (\<exists>s. opts ''stdin'' = String_value s))"
proof -
  have "(\<exists>c. parse_cwd v = Inr c) \<longleftrightarrow> v = Nil_value \<or> (\<exists>s. v = String_value s)"
    and "(\<exists>t. parse_timeout v = Inr t) \<longleftrightarrow> v = Nil_value \<or> (\<exists>n. v = Number_value n)"
    and "(\<exists>s. parse_stdin v = Inr s) \<longleftrightarrow> v = Nil_value \<or> (\<exists>s. v = String_value s)" for v
    by (auto simp: parse_cwd_def parse_timeout_def parse_stdin_def split: script_value.splits)
  moreover have "(\<exists>a. parse_args opts = Inr a) \<longleftrightarrow> (\<exists>ss. parse_argv (opts ''args'') = Inr ss) \<and> (\<exists>c. parse_cwd (opts ''cwd'') = Inr c)
      \<and> (\<exists>t. parse_timeout (opts ''timeout'') = Inr t) \<and> (\<exists>s. parse_stdin (opts ''stdin'') = Inr s)"
    by (auto simp: parse_args_def bind_result_Inr_iff)
  ultimately show ?thesis by (simp only: parse_argv_Inr ex_simps)
qed

section \<open>Examples\<close>

definition sample_args :: process_args where
  "sample_args = \<lparr>pa_args = [''cat''], pa_cwd = None, pa_env = [], pa_clear_env = False, pa_timeout = Some 5, pa_stdin = None,
     pa_merge_stderr = True\<rparr>"

definition sample_spawn :: spawn_answers where
  "sample_spawn = \<lparr>out_pipe = Some (3, 4), err_pipe = None, in_pipe = Some (5, 6), fork_pid = Some 100, first_write = 0\<rparr>"

definition late_answers :: poll_answers where
  "late_answers = \<lparr>first_out = ([''ab''], Would_block), first_err = ([], Would_block), has_exited = None, elapsed = 7,
     ends_in_time = None, killed_status = Term_signal 9, last_out = ([''c''], Would_block), last_err = ([], Would_block), took_ms = 7\<rparr>"

definition one_child :: process_manager where
  "one_child = snd (spawn_process sample_spawn sample_args None (new_manager initial_callbacks))"

definition killed_child :: process_manager where
  "killed_child = snd (process_read late_answers 1 one_child)"

lemma killed_child_reachable: "process_reachable killed_child"
proof -
  have "process_step (new_manager initial_callbacks) one_child"
    by (rule process_step.Spawn [of sample_spawn _ sample_args None "fst (spawn_process sample_spawn sample_args None (new_manager initial_callbacks))"])
      (auto simp: one_child_def pipes_ok_def fork_ok_def sample_spawn_def new_manager_def)
  moreover have "process_step one_child killed_child"
    by (rule process_step.Read [of late_answers 1 _ "fst (process_read late_answers 1 one_child)"]) (simp add: killed_child_def)
  ultimately show ?thesis unfolding process_reachable_def by (meson rtranclp.intros)
qed

lemma one_child_eq:
  "processes one_child = [(1, \<lparr>cp_pid = 100, stdout_fd = 3, stderr_fd = -1, stdin_fd = 6, stdin_closed = False, stdout_buffer = [],
     stderr_buffer = [], unread_out = [], unread_err = [], cp_timeout = Some 5, finished = False, cp_result = fresh_result,
     callback_id = 0, cp_merge = True, delivered_out = [], delivered_err = []\<rparr>)]"
  "pm_calls one_child = [Opened 3, Opened 4, Opened 5, Opened 6, Forked 100, Closed 4, Closed 5]"
  by (simp_all add: one_child_def spawn_process_def sample_spawn_def sample_args_def add_process_def new_manager_def opened_def os_def)

text \<open>The child was signalled twice and reaped, its pipes are closed, and the script has read all it wrote.\<close>

lemmas read_defs = process_read_def poll_process_def read_stdout_def read_stderr_def drain_fd_eq late_answers_def
  terminate_child_def finish_process_def close_fd_def

lemma killed_child_eq:
  "\<exists>p. processes killed_child = [(1, p)] \<and> finished p \<and> delivered_out p = ''abc''"
  "pm_calls killed_child = pm_calls one_child @ [Signalled 100 15, Signalled 100 9, Reaped 100, Closed 3, Closed 6]"
  by (simp_all add: killed_child_def read_defs one_child_eq Let_def os_def put_process_def sigterm_def sigkill_def)

theorem children_settled_witness:
  "fds_opened (pm_calls killed_child) = fds_closed (pm_calls killed_child)
    \<and> live_after (pm_calls killed_child) {} = Some (set (live_pids (processes killed_child)))"
proof -
  obtain p where "processes killed_child = [(1, p)]" "finished p" using killed_child_eq(1) by blast
  with children_settled [OF killed_child_reachable] show ?thesis by simp
qed

definition silent_turn :: turn_answers where
  "silent_turn = \<lparr>t_wait = Some (Exit_status 0), t_elapsed = 9, t_in_time = None, t_killed = Term_signal 9, t_write = 0,
     t_out_ready = True, t_err_ready = False, t_out = ([''x''], Would_block), t_err = ([], Would_block)\<rparr>"

definition last_turn :: turn_answers where
  "last_turn = silent_turn\<lparr>t_out := ([''y''], End_of_file)\<rparr>"

text \<open>The child is reaped in the first turn; another process holds the pipe.\<close>

lemma sample_started:
  "out_pipe sample_spawn = Some (3, 4)" "pa_merge_stderr sample_args \<or> err_pipe sample_spawn \<noteq> None"
  "pa_stdin sample_args = None \<or> in_pipe sample_spawn \<noteq> None" "fork_pid sample_spawn = Some 100"
  by (simp_all add: sample_spawn_def sample_args_def)

lemma sample_turns:
  "\<not> ends_output (t_out_ready silent_turn) (t_out silent_turn)" "ends_output (t_out_ready last_turn) (t_out last_turn)"
  "ends_child sample_args silent_turn" "pa_merge_stderr sample_args"
  by (simp_all add: silent_turn_def last_turn_def ends_output_def ends_child_def sample_args_def)

theorem run_returns_witness:
  "run_process_sync sample_spawn [silent_turn, silent_turn] 9 sample_args = None
    \<and> run_process_sync sample_spawn [silent_turn, last_turn] 9 sample_args \<noteq> None"
proof -
  note iff = run_returns [OF sample_started]
  have "\<not> run_process_sync sample_spawn [silent_turn, silent_turn] 9 sample_args \<noteq> None" unfolding iff using sample_turns by simp
  moreover have "run_process_sync sample_spawn [silent_turn, last_turn] 9 sample_args \<noteq> None" unfolding iff using sample_turns by simp
  ultimately show ?thesis by blast
qed

theorem run_leaves_nothing_witness:
  "\<exists>r cs. run_process_sync sample_spawn [silent_turn, last_turn] 9 sample_args = Some (r, cs) \<and> fds_opened cs = fds_closed cs"
proof -
  have "run_process_sync sample_spawn [silent_turn, last_turn] 9 sample_args \<noteq> None"
    unfolding started_run [OF sample_started] run_loop_returns using sample_turns by (simp add: initial_run_def)
  then obtain r cs where "run_process_sync sample_spawn [silent_turn, last_turn] 9 sample_args = Some (r, cs)" by auto
  then show ?thesis using run_leaves_nothing by blast
qed

end
