(* ===== verification/Http_Server.thy ===== *)
theory Http_Server
  imports Prelude
begin

text \<open>
  The HTTP server of scripts, \<open>src/src/lua_http_server.cpp\<close>: threads of the server library hand each request to the
  script thread and wait for its answer, streams of server-sent events are written by library threads and closed from
  either side, and a stop fails what is waiting. Calls and streams live in stores; the threads of the library, the
  call the script thread is in and the phase of a stop are part of the state. A script function is a number.
\<close>

section \<open>Streams of server-sent events\<close>

text \<open>\<open>es_accepted\<close> and \<open>es_written\<close> are ghosts: the chunks \<open>send\<close> accepted, and those the library took.\<close>

record sse_stream =
  es_chunks :: "string list"
  es_closed :: bool
  es_notified :: bool
  es_handler :: nat
  es_enqueue :: bool
  es_accepted :: "string list"
  es_written :: "string list"

definition new_stream :: sse_stream where
  "new_stream = \<lparr>es_chunks = [], es_closed = False, es_notified = False, es_handler = 0, es_enqueue = False,
     es_accepted = [], es_written = []\<rparr>"

definition sse_send :: "string \<Rightarrow> sse_stream \<Rightarrow> bool \<times> sse_stream" where
  "sse_send data st =
    (if es_closed st then (False, st)
     else (True, st\<lparr>es_chunks := es_chunks st @ [data], es_accepted := es_accepted st @ [data]\<rparr>))"

text \<open>The critical section of \<open>mark_closed\<close>, whether it goes on to notify, and that of \<open>notify_closed_once\<close>, with the
  handler it calls.\<close>

definition mark_closed :: "sse_stream \<Rightarrow> bool \<times> sse_stream" where
  "mark_closed st = (\<not> es_notified st, if es_closed st then st else st\<lparr>es_closed := True\<rparr>)"

definition notify_closed_once :: "sse_stream \<Rightarrow> nat option \<times> sse_stream" where
  "notify_closed_once st =
    (if es_notified st then (None, st)
     else (if es_handler st \<noteq> 0 \<and> es_enqueue st then Some (es_handler st) else None, st\<lparr>es_notified := True\<rparr>))"

definition set_close_handler :: "nat \<Rightarrow> sse_stream \<Rightarrow> bool \<times> sse_stream" where
  "set_close_handler h st = (es_closed st \<and> \<not> es_notified st, st\<lparr>es_handler := h, es_enqueue := True\<rparr>)"

text \<open>A library thread in \<open>write_chunks\<close>: at a wait or between chunks, with a chunk to write, or about to mark the stream
  closed because the client is gone.\<close>

datatype writer = Ready | Writing string | Leaving

text \<open>A turn goes on, or ends the thread because the stream is closed, or because the client is gone. A chunk that could
  not be written is lost. \<open>good\<close> is whether the client can still be written to.\<close>

datatype writer_end = Goes_on writer | Ended_closed | Client_gone

definition writer_turn :: "bool \<Rightarrow> writer \<Rightarrow> sse_stream \<Rightarrow> writer_end \<times> sse_stream" where
  "writer_turn good w st =
    (case w of
       Ready \<Rightarrow>
         (case es_chunks st of
            c # cs \<Rightarrow> (Goes_on (Writing c), st\<lparr>es_chunks := cs\<rparr>)
          | [] \<Rightarrow>
              if es_closed st then (Ended_closed, st)
              else (Goes_on (if good then Ready else Leaving), st))
     | Writing c \<Rightarrow> if good then (Goes_on Ready, st\<lparr>es_written := es_written st @ [c]\<rparr>) else (Goes_on Leaving, st)
     | Leaving \<Rightarrow> (Client_gone, st))"

section \<open>Calls\<close>

record request_data =
  rd_method :: string
  rd_path :: string
  rd_body :: string
  rd_headers :: "(string \<times> string) list"
  rd_params :: "(string \<times> string) list"

record response_data =
  rs_status :: int
  rs_body :: string
  rs_headers :: "(string \<times> string) list"

definition fresh_response :: response_data where
  "fresh_response = \<lparr>rs_status = 200, rs_body = [], rs_headers = []\<rparr>"

datatype call_kind = Route_call | Sse_call | Close_call

record pending_call =
  pc_kind :: call_kind
  pc_handler :: nat
  pc_request :: request_data
  pc_stream :: "nat option"
  pc_response :: response_data
  pc_done :: bool

definition no_request :: request_data where
  "no_request = \<lparr>rd_method = [], rd_path = [], rd_body = [], rd_headers = [], rd_params = []\<rparr>"

definition new_call :: "call_kind \<Rightarrow> nat \<Rightarrow> request_data \<Rightarrow> nat option \<Rightarrow> pending_call" where
  "new_call k h req sid = \<lparr>pc_kind = k, pc_handler = h, pc_request = req, pc_stream = sid, pc_response = fresh_response, pc_done = False\<rparr>"

text \<open>What a handler of a route returns, as far as responses distinguish it, or that it failed.\<close>

datatype handler_result =
  Response_table "int option" "string option" "(string \<times> string option) list option"
| Nil_result
| Text_result string
| Handler_failed string

definition apply_response :: "handler_result \<Rightarrow> response_data \<Rightarrow> response_data" where
  "apply_response res r =
    (case res of
       Response_table status body headers \<Rightarrow>
         r\<lparr>rs_status := (case status of None \<Rightarrow> 200 | Some n \<Rightarrow> n), rs_body := (case body of None \<Rightarrow> [] | Some b \<Rightarrow> b),
           rs_headers := rs_headers r @ (case headers of
               None \<Rightarrow> []
             | Some hs \<Rightarrow> concat (map (\<lambda>(k, v). case v of None \<Rightarrow> [] | Some x \<Rightarrow> [(k, x)]) hs))\<rparr>
     | Nil_result \<Rightarrow> r\<lparr>rs_status := 204\<rparr>
     | Text_result t \<Rightarrow> r\<lparr>rs_status := 200, rs_body := t\<rparr>
     | Handler_failed e \<Rightarrow> r)"

section \<open>The server\<close>

text \<open>A stream to be notified of its end, and a close handler to be put in the queue: what a thread still does after a
  critical section of a stream.\<close>

datatype stream_task = To_notify nat | To_enqueue nat nat

text \<open>The phase of a stop, with the streams it still closes and the calls it still fails.\<close>

datatype stop_phase =
  No_stop
| Collecting_streams
| Closing_streams "nat list"
| Stopping_library
| Taking_calls
| Failing_calls "nat list"
| Joining_thread

record route =
  rt_method :: string
  rt_path :: string
  rt_sse :: bool
  rt_handler :: nat

text \<open>\<open>ws_arriving\<close> are requests for streams between the tracking of the stream and the wait; \<open>ws_waiting\<close> the calls library
  threads wait for; \<open>ws_writers\<close> the threads writing streams; \<open>ws_call\<close> the call whose handler the script thread runs.
  \<open>ws_replies\<close> is a ghost: the responses given to the library.\<close>

record http_server =
  ws_running :: bool
  ws_port :: int
  ws_next_handler :: nat
  ws_handlers :: "nat \<rightharpoonup> nat"
  ws_routes :: "route list"
  ws_pending :: "nat list"
  ws_calls :: "nat \<Rightarrow> pending_call"
  ws_next_call :: nat
  ws_streams :: "nat \<Rightarrow> sse_stream"
  ws_next_stream :: nat
  ws_active :: "nat list"
  ws_arriving :: "(nat \<times> request_data \<times> nat) list"
  ws_waiting :: "nat list"
  ws_writers :: "(nat \<times> writer) list"
  ws_tasks :: "stream_task list"
  ws_call :: "nat option"
  ws_stop :: stop_phase
  ws_replies :: "(nat \<times> response_data) list"

definition new_server :: http_server where
  "new_server = \<lparr>ws_running = False, ws_port = 0, ws_next_handler = 1, ws_handlers = Map.empty, ws_routes = [], ws_pending = [],
     ws_calls = (\<lambda>_. new_call Route_call 0 no_request None), ws_next_call = 0, ws_streams = (\<lambda>_. new_stream), ws_next_stream = 0,
     ws_active = [], ws_arriving = [], ws_waiting = [], ws_writers = [], ws_tasks = [], ws_call = None, ws_stop = No_stop,
     ws_replies = []\<rparr>"

definition set_call :: "nat \<Rightarrow> pending_call \<Rightarrow> http_server \<Rightarrow> http_server" where
  "set_call c p s = s\<lparr>ws_calls := (ws_calls s)(c := p)\<rparr>"

definition set_stream :: "nat \<Rightarrow> sse_stream \<Rightarrow> http_server \<Rightarrow> http_server" where
  "set_stream sid st s = s\<lparr>ws_streams := (ws_streams s)(sid := st)\<rparr>"

definition add_task :: "bool \<Rightarrow> stream_task \<Rightarrow> http_server \<Rightarrow> http_server" where
  "add_task b t s = (if b then s\<lparr>ws_tasks := t # ws_tasks s\<rparr> else s)"

text \<open>\<open>close\<close> of a stream, up to the notification.\<close>

definition close_stream :: "nat \<Rightarrow> http_server \<Rightarrow> http_server" where
  "close_stream sid s = (case mark_closed (ws_streams s sid) of (b, st) \<Rightarrow> add_task b (To_notify sid) (set_stream sid st s))"

definition close_call_stream :: "nat \<Rightarrow> http_server \<Rightarrow> http_server" where
  "close_call_stream c s = (case pc_stream (ws_calls s c) of None \<Rightarrow> s | Some sid \<Rightarrow> close_stream sid s)"

section \<open>Routes\<close>

definition assert_can_register_route :: "http_server \<Rightarrow> unit result" where
  "assert_can_register_route s =
    (if ws_port s \<noteq> 0 \<or> ws_running s then Inl (Runtime_error ''HTTP server: routes must be registered before listen'') else Inr ())"

definition add_handler :: "nat \<Rightarrow> http_server \<Rightarrow> nat \<times> http_server" where
  "add_handler f s = (ws_next_handler s,
     s\<lparr>ws_next_handler := ws_next_handler s + 1, ws_handlers := (ws_handlers s)(ws_next_handler s \<mapsto> f)\<rparr>)"

definition server_route :: "string \<Rightarrow> string \<Rightarrow> nat \<Rightarrow> http_server \<Rightarrow> unit result \<times> http_server" where
  "server_route verb path f s =
    (case assert_can_register_route s of
       Inl e \<Rightarrow> (Inl e, s)
     | Inr _ \<Rightarrow>
         (case add_handler f s of (h, s) \<Rightarrow>
            if verb = ''GET'' \<or> verb = ''POST''
            then (Inr (), s\<lparr>ws_routes := ws_routes s @ [\<lparr>rt_method = verb, rt_path = path, rt_sse = False, rt_handler = h\<rparr>]\<rparr>)
            else (Inl (Runtime_error (''HTTP server: unsupported route method '' @ verb)), s)))"

definition server_route_sse :: "string \<Rightarrow> nat \<Rightarrow> http_server \<Rightarrow> unit result \<times> http_server" where
  "server_route_sse path f s =
    (case assert_can_register_route s of
       Inl e \<Rightarrow> (Inl e, s)
     | Inr _ \<Rightarrow>
         (case add_handler f s of (h, s) \<Rightarrow>
            (Inr (), s\<lparr>ws_routes := ws_routes s @ [\<lparr>rt_method = ''GET'', rt_path = path, rt_sse = True, rt_handler = h\<rparr>]\<rparr>)))"

text \<open>\<open>any_port\<close> and \<open>bound\<close> are the answers of the library to the two ways to bind; \<open>show_port\<close> is \<open>std::to_string\<close>.\<close>

definition server_listen :: "(int \<Rightarrow> string) \<Rightarrow> int \<Rightarrow> bool \<Rightarrow> int \<Rightarrow> http_server \<Rightarrow> int result \<times> http_server" where
  "server_listen show_port any_port bound port s =
    (if ws_port s \<noteq> 0 \<or> ws_running s then (Inl (Runtime_error ''HTTP server: listen called more than once''), s)
     else let actual_port = (if port = 0 then any_port else if \<not> bound then -1 else port) in
       if actual_port < 0 then (Inl (Runtime_error (''HTTP server: failed to bind to port '' @ show_port port)), s)
       else (Inr actual_port, s\<lparr>ws_port := actual_port, ws_running := True\<rparr>))"

section \<open>Threads of the library\<close>

definition stopped_response :: "response_data \<Rightarrow> response_data" where
  "stopped_response r = r\<lparr>rs_status := 503, rs_body := ''HTTP server stopped''\<rparr>"

text \<open>The first critical section of \<open>wait_for_lua\<close>; the thread then waits for the call.\<close>

definition wait_for_lua :: "pending_call \<Rightarrow> http_server \<Rightarrow> http_server" where
  "wait_for_lua p s =
    (let c = ws_next_call s; s = s\<lparr>ws_next_call := c + 1, ws_waiting := c # ws_waiting s\<rparr> in
     if \<not> ws_running s then set_call c (p\<lparr>pc_response := stopped_response (pc_response p), pc_done := True\<rparr>) s
     else set_call c p (s\<lparr>ws_pending := ws_pending s @ [c]\<rparr>))"

definition begin_route :: "nat \<Rightarrow> request_data \<Rightarrow> http_server \<Rightarrow> http_server" where
  "begin_route h req s = wait_for_lua (new_call Route_call h req None) s"

definition track_stream :: "nat \<Rightarrow> request_data \<Rightarrow> http_server \<Rightarrow> http_server" where
  "track_stream h req s =
    (let sid = ws_next_stream s in
     s\<lparr>ws_next_stream := sid + 1, ws_streams := (ws_streams s)(sid := new_stream), ws_active := ws_active s @ [sid],
       ws_arriving := (h, req, sid) # ws_arriving s\<rparr>)"

definition begin_sse :: "nat \<Rightarrow> request_data \<Rightarrow> nat \<Rightarrow> http_server \<Rightarrow> http_server" where
  "begin_sse h req sid s =
    wait_for_lua (new_call Sse_call h req (Some sid)) (s\<lparr>ws_arriving := remove1 (h, req, sid) (ws_arriving s)\<rparr>)"

text \<open>The headers a stream is answered with; the content is written by \<open>write_chunks\<close>.\<close>

definition sse_response :: response_data where
  "sse_response = fresh_response\<lparr>rs_headers := [(''Cache-Control'', ''no-cache''), (''Connection'', ''keep-alive'')]\<rparr>"

definition end_wait :: "nat \<Rightarrow> http_server \<Rightarrow> http_server" where
  "end_wait c s =
    (let p = ws_calls s c; s = s\<lparr>ws_waiting := remove1 c (ws_waiting s)\<rparr> in
     case pc_stream p of
       None \<Rightarrow> s\<lparr>ws_replies := ws_replies s @ [(c, pc_response p)]\<rparr>
     | Some sid \<Rightarrow>
         if rs_status (pc_response p) \<ge> 400 then s\<lparr>ws_replies := ws_replies s @ [(c, pc_response p)]\<rparr>
         else s\<lparr>ws_replies := ws_replies s @ [(c, sse_response)], ws_writers := (sid, Ready) # ws_writers s\<rparr>)"

definition server_writer_turn :: "bool \<Rightarrow> nat \<times> writer \<Rightarrow> http_server \<Rightarrow> http_server" where
  "server_writer_turn good w s =
    (case writer_turn good (snd w) (ws_streams s (fst w)) of (r, st) \<Rightarrow>
       let s = set_stream (fst w) st s; others = remove1 w (ws_writers s) in
       (case r of
         Goes_on w' \<Rightarrow> s\<lparr>ws_writers := (fst w, w') # others\<rparr>
       | Ended_closed \<Rightarrow> s\<lparr>ws_writers := others\<rparr>
       | Client_gone \<Rightarrow> close_stream (fst w) (s\<lparr>ws_writers := others\<rparr>)))"

text \<open>The two critical sections that end a close: the notification, and \<open>enqueue_sse_close\<close>, which looks at \<open>running_\<close>
  first outside and then inside its critical section; the flag only falls, so the second look decides.\<close>

definition enqueue_sse_close :: "nat \<Rightarrow> nat \<Rightarrow> http_server \<Rightarrow> http_server" where
  "enqueue_sse_close h sid s =
    (if \<not> ws_running s then s
     else let c = ws_next_call s in
       set_call c (new_call Close_call h no_request (Some sid)) (s\<lparr>ws_next_call := c + 1, ws_pending := ws_pending s @ [c]\<rparr>))"

definition run_task :: "stream_task \<Rightarrow> http_server \<Rightarrow> http_server" where
  "run_task t s =
    (let s = s\<lparr>ws_tasks := remove1 t (ws_tasks s)\<rparr> in
     case t of
       To_notify sid \<Rightarrow>
         (case notify_closed_once (ws_streams s sid) of (called, st) \<Rightarrow>
            let s = set_stream sid st s in
            (case called of None \<Rightarrow> s | Some h \<Rightarrow> s\<lparr>ws_tasks := To_enqueue h sid # ws_tasks s\<rparr>))
     | To_enqueue h sid \<Rightarrow> enqueue_sse_close h sid s)"

section \<open>The script thread\<close>

definition finish_call :: "nat \<Rightarrow> http_server \<Rightarrow> http_server" where
  "finish_call c s = set_call c ((ws_calls s c)\<lparr>pc_done := True\<rparr>) s"

definition answer_call :: "nat \<Rightarrow> response_data \<Rightarrow> http_server \<Rightarrow> http_server" where
  "answer_call c r s = set_call c ((ws_calls s c)\<lparr>pc_response := r\<rparr>) s"

text \<open>\<open>dispatch\<close> takes the next call, and \<open>dispatch_one\<close> looks its handler up and calls it; the rest of \<open>dispatch_one\<close> is
  \<open>dispatch_result\<close>.\<close>

definition dispatch_take :: "http_server \<Rightarrow> http_server" where
  "dispatch_take s =
    (case ws_pending s of
       [] \<Rightarrow> s
     | c # cs \<Rightarrow>
         let s = s\<lparr>ws_pending := cs\<rparr> in
         (case ws_handlers s (pc_handler (ws_calls s c)) of
           None \<Rightarrow>
             finish_call c (close_call_stream c
               (answer_call c ((pc_response (ws_calls s c))\<lparr>rs_status := 500, rs_body := ''Handler not found''\<rparr>) s))
         | Some f \<Rightarrow> s\<lparr>ws_call := Some c\<rparr>))"

definition dispatch_result :: "nat \<Rightarrow> handler_result \<Rightarrow> http_server \<Rightarrow> http_server" where
  "dispatch_result c res s =
    (let p = ws_calls s c; r = pc_response p;
         s1 = (case res of
             Handler_failed e \<Rightarrow> close_call_stream c (answer_call c (r\<lparr>rs_status := 500, rs_body := ''Handler error: '' @ e\<rparr>) s)
           | _ \<Rightarrow>
               if pc_kind p = Route_call then answer_call c (apply_response res r) s
               else answer_call c (r\<lparr>rs_status := 200\<rparr>) s);
         s2 = (if pc_kind p = Close_call then s1\<lparr>ws_handlers := (ws_handlers s1)(pc_handler p := None)\<rparr> else s1)
     in (finish_call c s2)\<lparr>ws_call := None\<rparr>)"

text \<open>The functions of the stream table scripts get.\<close>

definition stream_send :: "nat \<Rightarrow> string \<Rightarrow> http_server \<Rightarrow> bool \<times> http_server" where
  "stream_send sid data s = (case sse_send data (ws_streams s sid) of (b, st) \<Rightarrow> (b, set_stream sid st s))"

definition stream_on_close :: "nat \<Rightarrow> nat \<Rightarrow> http_server \<Rightarrow> http_server" where
  "stream_on_close sid f s =
    (case add_handler f s of (h, s) \<Rightarrow>
       case set_close_handler h (ws_streams s sid) of (b, st) \<Rightarrow> add_task b (To_notify sid) (set_stream sid st s))"

text \<open>As scripts call them: the first argument that is a string, or a function, counts.\<close>

fun first_arg :: "'a option list \<Rightarrow> 'a option" where
  "first_arg [] = None"
| "first_arg (None # as) = first_arg as"
| "first_arg (Some a # as) = Some a"

definition script_send :: "nat \<Rightarrow> string option list \<Rightarrow> http_server \<Rightarrow> bool result \<times> http_server" where
  "script_send sid args s =
    (case first_arg args of
       None \<Rightarrow> (Inl (Runtime_error ''SSEStream.send requires a string''), s)
     | Some data \<Rightarrow> (case stream_send sid data s of (b, s) \<Rightarrow> (Inr b, s)))"

definition script_on_close :: "nat \<Rightarrow> nat option list \<Rightarrow> http_server \<Rightarrow> unit result \<times> http_server" where
  "script_on_close sid args s =
    (case first_arg args of
       None \<Rightarrow> (Inl (Runtime_error ''SSEStream.on-close requires a function''), s)
     | Some f \<Rightarrow> (Inr (), stream_on_close sid f s))"

section \<open>Stopping\<close>

definition stop_begin :: "http_server \<Rightarrow> http_server" where
  "stop_begin s = (if ws_running s then s\<lparr>ws_running := False, ws_stop := Collecting_streams\<rparr> else s)"

text \<open>\<open>dead\<close> are the streams nobody holds any more.\<close>

definition collect_streams :: "(nat \<Rightarrow> bool) \<Rightarrow> http_server \<Rightarrow> http_server" where
  "collect_streams dead s =
    (let live = filter (\<lambda>sid. \<not> dead sid) (ws_active s) in s\<lparr>ws_active := live, ws_stop := Closing_streams live\<rparr>)"

definition fail_call :: "nat \<Rightarrow> http_server \<Rightarrow> http_server" where
  "fail_call c s = finish_call c (close_call_stream c (answer_call c (stopped_response (pc_response (ws_calls s c))) s))"

definition stop_turn :: "(nat \<Rightarrow> bool) \<Rightarrow> http_server \<Rightarrow> http_server" where
  "stop_turn dead s =
    (case ws_stop s of
       No_stop \<Rightarrow> s
     | Collecting_streams \<Rightarrow> collect_streams dead s
     | Closing_streams [] \<Rightarrow> s\<lparr>ws_stop := Stopping_library\<rparr>
     | Closing_streams (sid # sids) \<Rightarrow> close_stream sid (s\<lparr>ws_stop := Closing_streams sids\<rparr>)
     | Stopping_library \<Rightarrow> s\<lparr>ws_stop := Taking_calls\<rparr>
     | Taking_calls \<Rightarrow> s\<lparr>ws_pending := [], ws_stop := Failing_calls (ws_pending s)\<rparr>
     | Failing_calls [] \<Rightarrow> s\<lparr>ws_stop := Joining_thread\<rparr>
     | Failing_calls (c # cs) \<Rightarrow> fail_call c (s\<lparr>ws_stop := Failing_calls cs\<rparr>)
     | Joining_thread \<Rightarrow> s\<lparr>ws_stop := No_stop\<rparr>)"

end
