(* ===== verification/Http_Server_Steps.thy ===== *)
theory Http_Server_Steps
  imports Http_Server
begin

text \<open>
  The steps of an HTTP server: critical sections of the threads of the library, of the script thread and of a stop,
  in any order; and the invariants of its calls.
\<close>

section \<open>Steps\<close>

text \<open>The streams a thread of the library holds.\<close>

definition held_streams :: "http_server \<Rightarrow> nat list" where
  "held_streams s = map (\<lambda>(h, req, sid). sid) (ws_arriving s)
     @ concat (map (\<lambda>c. case pc_stream (ws_calls s c) of None \<Rightarrow> [] | Some sid \<Rightarrow> [sid]) (ws_waiting s)) @ map fst (ws_writers s)"

text \<open>
  The library calls a route only while it listens; a port it chooses is not 0. It ends a join when none of its threads is
  in a handler or writes a stream. A running script function may use its streams, register close handlers and stop the
  server; a stop keeps the script thread until it has joined.
\<close>

inductive http_server_step :: "http_server \<Rightarrow> http_server \<Rightarrow> bool" where
  Listen: "ws_stop s = No_stop \<Longrightarrow> any_port \<noteq> 0 \<Longrightarrow> server_listen show_port any_port bound port s = (r, t) \<Longrightarrow> http_server_step s t"
| Route: "ws_stop s = No_stop \<Longrightarrow> server_route verb path f s = (r, t) \<Longrightarrow> http_server_step s t"
| Route_sse: "ws_stop s = No_stop \<Longrightarrow> server_route_sse path f s = (r, t) \<Longrightarrow> http_server_step s t"
| Request: "ws_port s \<noteq> 0 \<Longrightarrow> rt \<in> set (ws_routes s) \<Longrightarrow> \<not> rt_sse rt \<Longrightarrow> http_server_step s (begin_route (rt_handler rt) req s)"
| Track: "ws_port s \<noteq> 0 \<Longrightarrow> rt \<in> set (ws_routes s) \<Longrightarrow> rt_sse rt \<Longrightarrow> http_server_step s (track_stream (rt_handler rt) req s)"
| Request_sse: "(h, req, sid) \<in> set (ws_arriving s) \<Longrightarrow> http_server_step s (begin_sse h req sid s)"
| End_wait: "c \<in> set (ws_waiting s) \<Longrightarrow> pc_done (ws_calls s c) \<Longrightarrow> http_server_step s (end_wait c s)"
| Write_turn: "w \<in> set (ws_writers s) \<Longrightarrow> http_server_step s (server_writer_turn good w s)"
| Task: "k \<in> set (ws_tasks s) \<Longrightarrow> http_server_step s (run_task k s)"
| Dispatch: "ws_stop s = No_stop \<Longrightarrow> ws_call s = None \<Longrightarrow> http_server_step s (dispatch_take s)"
| Result: "ws_stop s = No_stop \<Longrightarrow> ws_call s = Some c \<Longrightarrow> http_server_step s (dispatch_result c res s)"
| Send: "ws_stop s = No_stop \<Longrightarrow> sid < ws_next_stream s \<Longrightarrow> stream_send sid data s = (b, t) \<Longrightarrow> http_server_step s t"
| Close: "ws_stop s = No_stop \<Longrightarrow> sid < ws_next_stream s \<Longrightarrow> http_server_step s (close_stream sid s)"
| On_close: "ws_stop s = No_stop \<Longrightarrow> sid < ws_next_stream s \<Longrightarrow> http_server_step s (stream_on_close sid f s)"
| Stop: "ws_stop s = No_stop \<Longrightarrow> http_server_step s (stop_begin s)"
| Stop_turn: "ws_stop s \<noteq> No_stop \<Longrightarrow> ws_stop s \<noteq> Joining_thread \<Longrightarrow> \<forall>sid. dead sid \<longrightarrow> sid \<notin> set (held_streams s)
    \<Longrightarrow> http_server_step s (stop_turn dead s)"
| Join: "ws_stop s = Joining_thread \<Longrightarrow> ws_arriving s = [] \<Longrightarrow> ws_waiting s = [] \<Longrightarrow> ws_writers s = []
    \<Longrightarrow> http_server_step s (stop_turn dead s)"

definition http_server_reachable :: "http_server \<Rightarrow> bool" where
  "http_server_reachable s \<longleftrightarrow> http_server_step\<^sup>*\<^sup>* new_server s"

text \<open>What scripts call are such steps, or errors that change nothing.\<close>

lemma script_call_steps:
  assumes "ws_stop s = No_stop" and "sid < ws_next_stream s"
  shows "script_send sid args s = (r, t) \<Longrightarrow> t = s \<or> http_server_step s t"
    and "script_on_close sid fs s = (q, t) \<Longrightarrow> t = s \<or> http_server_step s t"
  using http_server_step.Send [OF assms] http_server_step.On_close [OF assms]
  by (auto simp: script_send_def script_on_close_def split: option.splits prod.splits)

section \<open>What the operations leave alone\<close>

text \<open>All but the streams and the tasks.\<close>

definition same_calls :: "http_server \<Rightarrow> http_server \<Rightarrow> bool" where
  "same_calls s t \<longleftrightarrow> t = s\<lparr>ws_streams := ws_streams t, ws_tasks := ws_tasks t\<rparr>"

lemma same_calls_fields:
  assumes "same_calls s t"
  shows "ws_running t = ws_running s" "ws_port t = ws_port s" "ws_next_handler t = ws_next_handler s"
    "ws_handlers t = ws_handlers s" "ws_routes t = ws_routes s" "ws_pending t = ws_pending s" "ws_calls t = ws_calls s"
    "ws_next_call t = ws_next_call s" "ws_next_stream t = ws_next_stream s" "ws_active t = ws_active s"
    "ws_arriving t = ws_arriving s" "ws_waiting t = ws_waiting s" "ws_writers t = ws_writers s" "ws_call t = ws_call s"
    "ws_stop t = ws_stop s" "ws_replies t = ws_replies s"
  by (subst assms [unfolded same_calls_def], simp)+

lemma close_stream_same: "same_calls s (close_stream sid s)"
  by (simp add: same_calls_def close_stream_def add_task_def set_stream_def split: prod.split)

lemma close_call_stream_same: "same_calls s (close_call_stream c s)"
proof (cases "pc_stream (ws_calls s c)")
  case None
  then show ?thesis by (simp add: close_call_stream_def same_calls_def)
qed (simp add: close_call_stream_def close_stream_same)

lemmas close_fields [simp] = same_calls_fields [OF close_stream_same] same_calls_fields [OF close_call_stream_same]

lemma set_stream_fields [simp]:
  "ws_pending (set_stream i st s) = ws_pending s" "ws_calls (set_stream i st s) = ws_calls s" "ws_waiting (set_stream i st s) = ws_waiting s"
  "ws_stop (set_stream i st s) = ws_stop s" "ws_call (set_stream i st s) = ws_call s" "ws_next_call (set_stream i st s) = ws_next_call s"
  "ws_replies (set_stream i st s) = ws_replies s" "ws_running (set_stream i st s) = ws_running s" "ws_port (set_stream i st s) = ws_port s"
  "ws_tasks (set_stream i st s) = ws_tasks s" "ws_streams (set_stream i st s) = (ws_streams s)(i := st)"
  "ws_arriving (set_stream i st s) = ws_arriving s" "ws_writers (set_stream i st s) = ws_writers s" "ws_active (set_stream i st s) = ws_active s"
  "ws_next_stream (set_stream i st s) = ws_next_stream s" "ws_handlers (set_stream i st s) = ws_handlers s"
  "ws_next_handler (set_stream i st s) = ws_next_handler s" "ws_routes (set_stream i st s) = ws_routes s"
  by (simp_all add: set_stream_def)

lemma set_call_fields [simp]:
  "ws_pending (set_call i p s) = ws_pending s" "ws_calls (set_call i p s) = (ws_calls s)(i := p)" "ws_waiting (set_call i p s) = ws_waiting s"
  "ws_stop (set_call i p s) = ws_stop s" "ws_call (set_call i p s) = ws_call s" "ws_next_call (set_call i p s) = ws_next_call s"
  "ws_replies (set_call i p s) = ws_replies s" "ws_running (set_call i p s) = ws_running s" "ws_port (set_call i p s) = ws_port s"
  "ws_tasks (set_call i p s) = ws_tasks s" "ws_streams (set_call i p s) = ws_streams s"
  "ws_arriving (set_call i p s) = ws_arriving s" "ws_writers (set_call i p s) = ws_writers s" "ws_active (set_call i p s) = ws_active s"
  "ws_next_stream (set_call i p s) = ws_next_stream s" "ws_handlers (set_call i p s) = ws_handlers s"
  "ws_next_handler (set_call i p s) = ws_next_handler s" "ws_routes (set_call i p s) = ws_routes s"
  by (simp_all add: set_call_def)

section \<open>Calls\<close>

definition open_calls :: "http_server \<Rightarrow> nat list" where
  "open_calls s = ws_pending s @ (case ws_stop s of Failing_calls cs \<Rightarrow> cs | _ \<Rightarrow> [])
     @ (case ws_call s of None \<Rightarrow> [] | Some c \<Rightarrow> [c])"

definition call_ok :: "http_server \<Rightarrow> nat \<Rightarrow> bool" where
  "call_ok s c \<longleftrightarrow> c < ws_next_call s \<and> \<not> pc_done (ws_calls s c) \<and> (pc_kind (ws_calls s c) = Close_call \<or> c \<in> set (ws_waiting s))"

definition wait_ok :: "http_server \<Rightarrow> nat \<Rightarrow> bool" where
  "wait_ok s c \<longleftrightarrow> c < ws_next_call s \<and> pc_kind (ws_calls s c) \<noteq> Close_call \<and> (pc_done (ws_calls s c) \<or> c \<in> set (open_calls s))"

definition call_inv :: "http_server \<Rightarrow> bool" where
  "call_inv s \<longleftrightarrow> distinct (open_calls s) \<and> distinct (ws_waiting s @ map fst (ws_replies s))
    \<and> (\<forall>c\<in>set (open_calls s). call_ok s c) \<and> (\<forall>c\<in>set (ws_waiting s). wait_ok s c)
    \<and> (\<forall>c\<in>fst ` set (ws_replies s). c < ws_next_call s)"

lemmas call_inv_defs = call_inv_def call_ok_def wait_ok_def

text \<open>Steps that leave the calls alone, add a call, and answer the calls of a prefix of the open ones.\<close>

lemma call_inv_same:
  assumes "call_inv s" and "ws_calls t = ws_calls s" "ws_waiting t = ws_waiting s" "mset (open_calls t) = mset (open_calls s)"
    "ws_next_call t = ws_next_call s" "ws_replies t = ws_replies s"
  shows "call_inv t"
proof -
  have "distinct (open_calls t) = distinct (open_calls s)" "set (open_calls t) = set (open_calls s)"
    using assms(4) mset_eq_imp_distinct_iff mset_eq_setD by blast+
  then show ?thesis using assms by (simp add: call_inv_defs)
qed

lemma call_inv_add:
  assumes "call_inv s" and "ws_next_call t = ws_next_call s + 1" "ws_replies t = ws_replies s"
    "ws_calls t = (ws_calls s)(ws_next_call s := p)" "ws_stop t = ws_stop s" "ws_call t = ws_call s"
    and "if pc_kind p = Close_call then ws_waiting t = ws_waiting s else ws_waiting t = ws_next_call s # ws_waiting s"
    and "if pc_done p then ws_pending t = ws_pending s \<and> pc_kind p \<noteq> Close_call else ws_pending t = ws_pending s @ [ws_next_call s]"
  shows "call_inv t"
proof -
  let ?c = "ws_next_call s"
  have old: "?c \<notin> set (open_calls s)" "?c \<notin> set (ws_waiting s)" "?c \<notin> fst ` set (ws_replies s)"
    using assms(1) by (fastforce simp: call_inv_defs)+
  have opened: "mset (open_calls t) = mset ((if pc_done p then [] else [?c]) @ open_calls s)"
    using assms(5,6,8) by (auto simp: open_calls_def)
  have set: "set (open_calls t) = (if pc_done p then {} else {?c}) \<union> set (open_calls s)"
    using mset_eq_setD [OF opened] by simp
  have "distinct (open_calls t) = distinct ((if pc_done p then [] else [?c]) @ open_calls s)"
    by (rule mset_eq_imp_distinct_iff [OF opened])
  then have "distinct (open_calls t)" using assms(1) old(1) by (simp add: call_inv_def)
  then show ?thesis using assms old set
    by (cases "pc_kind p = Close_call"; cases "pc_done p") (auto simp: call_inv_defs less_Suc_eq)
qed

lemma call_inv_answer:
  assumes "call_inv s" and "mset (open_calls s) = add_mset c (mset (open_calls t))" and "ws_waiting t = ws_waiting s"
    "ws_next_call t = ws_next_call s" "ws_replies t = ws_replies s"
    and "ws_calls t = (ws_calls s)(c := (ws_calls s c)\<lparr>pc_response := r, pc_done := True\<rparr>)"
  shows "call_inv t"
proof -
  have "mset (open_calls s) = mset (c # open_calls t)" using assms(2) by simp
  then have "distinct (open_calls s) = distinct (c # open_calls t)" "set (open_calls s) = set (c # open_calls t)"
    using mset_eq_imp_distinct_iff mset_eq_setD by blast+
  then show ?thesis using assms(1,3-6) by (auto simp: call_inv_defs)
qed

lemma end_wait_fields:
  "ws_waiting (end_wait c s) = remove1 c (ws_waiting s)"
  "map fst (ws_replies (end_wait c s)) = map fst (ws_replies s) @ [c]"
  "ws_calls (end_wait c s) = ws_calls s" "ws_next_call (end_wait c s) = ws_next_call s" "ws_pending (end_wait c s) = ws_pending s"
  "ws_stop (end_wait c s) = ws_stop s" "ws_call (end_wait c s) = ws_call s"
  "ws_writers (end_wait c s) = (case pc_stream (ws_calls s c) of
      Some sid \<Rightarrow> if rs_status (pc_response (ws_calls s c)) \<ge> 400 then ws_writers s else (sid, Ready) # ws_writers s
    | None \<Rightarrow> ws_writers s)"
  "ws_arriving (end_wait c s) = ws_arriving s" "ws_active (end_wait c s) = ws_active s" "ws_streams (end_wait c s) = ws_streams s"
  "ws_running (end_wait c s) = ws_running s" "ws_port (end_wait c s) = ws_port s" "ws_next_stream (end_wait c s) = ws_next_stream s"
  "ws_handlers (end_wait c s) = ws_handlers s" "ws_next_handler (end_wait c s) = ws_next_handler s" "ws_tasks (end_wait c s) = ws_tasks s"
  "ws_routes (end_wait c s) = ws_routes s"
  by (simp_all add: end_wait_def Let_def split: option.split)

lemma call_inv_end_wait:
  assumes "call_inv s" and "c \<in> set (ws_waiting s)" and "pc_done (ws_calls s c)"
  shows "call_inv (end_wait c s)"
proof -
  have same: "open_calls (end_wait c s) = open_calls s" by (simp add: open_calls_def end_wait_fields)
  have replies: "fst ` set (ws_replies (end_wait c s)) = insert c (fst ` set (ws_replies s))"
    using arg_cong [OF end_wait_fields(2), of set] by simp
  have "c \<notin> set (open_calls s)" "c < ws_next_call s" using assms by (auto simp: call_inv_defs)
  then show ?thesis using assms(1,2) by (auto simp: call_inv_defs same replies end_wait_fields distinct_remove1)
qed

lemma fail_call_fields:
  "ws_calls (fail_call c s) = (ws_calls s)(c := (ws_calls s c)\<lparr>pc_response := stopped_response (pc_response (ws_calls s c)), pc_done := True\<rparr>)"
  "ws_waiting (fail_call c s) = ws_waiting s" "ws_next_call (fail_call c s) = ws_next_call s" "ws_replies (fail_call c s) = ws_replies s"
  "ws_pending (fail_call c s) = ws_pending s" "ws_stop (fail_call c s) = ws_stop s" "ws_call (fail_call c s) = ws_call s"
  by (simp_all add: fail_call_def finish_call_def answer_call_def)

lemma call_inv_stop_turn:
  assumes "call_inv s"
  shows "call_inv (stop_turn dead s)"
proof (cases "\<exists>c cs. ws_stop s = Failing_calls (c # cs)")
  case True
  then obtain c cs where "ws_stop s = Failing_calls (c # cs)" by blast
  then show ?thesis
    by (intro call_inv_answer [OF assms, of c _ "stopped_response (pc_response (ws_calls s c))"])
      (simp_all add: stop_turn_def fail_call_fields open_calls_def)
next
  case False
  then show ?thesis
    by (intro call_inv_same [OF assms])
      (auto simp: stop_turn_def collect_streams_def Let_def open_calls_def split: stop_phase.splits list.splits)
qed

lemma dispatch_result_call:
  "\<exists>r. ws_calls (dispatch_result c res s) c = (ws_calls s c)\<lparr>pc_response := r, pc_done := True\<rparr>
    \<and> ws_calls (dispatch_result c res s) = (ws_calls s)(c := (ws_calls s c)\<lparr>pc_response := r, pc_done := True\<rparr>)"
  by (cases res) (auto simp: dispatch_result_def Let_def finish_call_def answer_call_def)

lemma dispatch_result_fields:
  "ws_waiting (dispatch_result c res s) = ws_waiting s" "ws_next_call (dispatch_result c res s) = ws_next_call s"
  "ws_replies (dispatch_result c res s) = ws_replies s" "ws_pending (dispatch_result c res s) = ws_pending s"
  "ws_stop (dispatch_result c res s) = ws_stop s" "ws_call (dispatch_result c res s) = None"
  by (cases res; auto simp: dispatch_result_def Let_def finish_call_def answer_call_def)+

lemma call_inv_result:
  assumes "call_inv s" and "ws_call s = Some c"
  shows "call_inv (dispatch_result c res s)"
proof -
  obtain r where "ws_calls (dispatch_result c res s) = (ws_calls s)(c := (ws_calls s c)\<lparr>pc_response := r, pc_done := True\<rparr>)"
    using dispatch_result_call by blast
  then show ?thesis using assms(2)
    by (intro call_inv_answer [OF assms(1), of c _ r]) (simp_all add: dispatch_result_fields open_calls_def)
qed

lemma call_inv_dispatch:
  assumes "call_inv s" and "ws_call s = None"
  shows "call_inv (dispatch_take s)"
proof (cases "ws_pending s")
  case Nil
  then show ?thesis using assms(1) by (simp add: dispatch_take_def)
next
  case (Cons c cs)
  show ?thesis
  proof (cases "ws_handlers s (pc_handler (ws_calls s c))")
    case None
    then show ?thesis using Cons
      by (intro call_inv_answer [OF assms(1), of c _ "(pc_response (ws_calls s c))\<lparr>rs_status := 500, rs_body := ''Handler not found''\<rparr>"])
        (simp_all add: dispatch_take_def finish_call_def answer_call_def open_calls_def)
  next
    case (Some f)
    then show ?thesis using Cons assms(2)
      by (intro call_inv_same [OF assms(1)]) (simp_all add: dispatch_take_def open_calls_def)
  qed
qed

lemma call_inv_wait:
  assumes "call_inv s" and "pc_kind p \<noteq> Close_call" and "\<not> pc_done p"
  shows "call_inv (wait_for_lua p s)"
  using assms(2,3)
  by (intro call_inv_add [OF assms(1), of _ "if ws_running s then p else p\<lparr>pc_response := stopped_response (pc_response p), pc_done := True\<rparr>"])
    (simp_all add: wait_for_lua_def Let_def)

lemma open_calls_same:
  "ws_pending t = ws_pending s \<Longrightarrow> ws_stop t = ws_stop s \<Longrightarrow> ws_call t = ws_call s \<Longrightarrow> open_calls t = open_calls s"
  by (simp add: open_calls_def)

lemma call_inv_arriving: "call_inv (s\<lparr>ws_arriving := as\<rparr>) = call_inv s"
  by (simp add: call_inv_defs open_calls_def)

lemma call_inv_task:
  assumes "call_inv s"
  shows "call_inv (run_task k s)"
proof (cases "ws_running s \<and> (\<exists>h sid. k = To_enqueue h sid)")
  case True
  then obtain h sid where "k = To_enqueue h sid" by blast
  then show ?thesis using True
    by (intro call_inv_add [OF assms, of _ "new_call Close_call h no_request (Some sid)"])
      (simp_all add: run_task_def enqueue_sse_close_def Let_def new_call_def)
next
  case False
  then show ?thesis
    by (intro call_inv_same [OF assms])
      (auto simp: run_task_def enqueue_sse_close_def Let_def open_calls_def split: stream_task.splits prod.splits option.splits)
qed

lemma call_inv_step: "http_server_step s t \<Longrightarrow> call_inv s \<Longrightarrow> call_inv t"
proof (induction rule: http_server_step.induct)
  case (Listen s any_port show_port bound port r t)
  then show ?case
    by (intro call_inv_same [OF Listen(4)]) (auto simp: server_listen_def Let_def open_calls_def split: if_splits)
next
  case (Route s verb path f r t)
  then show ?case
    by (intro call_inv_same [OF Route(3)])
      (auto simp: server_route_def assert_can_register_route_def add_handler_def Let_def open_calls_def split: if_splits)
next
  case (Route_sse s path f r t)
  then show ?case
    by (intro call_inv_same [OF Route_sse(3)])
      (auto simp: server_route_sse_def assert_can_register_route_def add_handler_def Let_def open_calls_def split: if_splits)
next
  case (Request s rt req)
  then show ?case by (simp add: begin_route_def new_call_def call_inv_wait)
next
  case (Track s rt req)
  show ?case by (rule call_inv_same [OF Track(4)]) (simp_all add: track_stream_def Let_def open_calls_def)
next
  case (Request_sse h req sid s)
  then show ?case by (simp add: begin_sse_def new_call_def call_inv_wait call_inv_arriving)
next
  case (End_wait c s)
  then show ?case by (simp add: call_inv_end_wait)
next
  case (Write_turn w s good)
  show ?case
    by (rule call_inv_same [OF Write_turn(2)])
      (auto simp: server_writer_turn_def Let_def open_calls_def split: prod.splits writer_end.splits)
next
  case (Task k s)
  then show ?case by (simp add: call_inv_task)
next
  case (Dispatch s)
  then show ?case by (simp add: call_inv_dispatch)
next
  case (Result s c res)
  then show ?case by (simp add: call_inv_result)
next
  case (Send s sid data b t)
  then show ?case by (intro call_inv_same [OF Send(4)]) (auto simp: stream_send_def open_calls_def split: prod.splits)
next
  case (Close s sid)
  show ?case by (rule call_inv_same [OF Close(3)]) (simp_all add: open_calls_def)
next
  case (On_close s sid f)
  show ?case by (rule call_inv_same [OF On_close(3)])
      (auto simp: stream_on_close_def add_handler_def add_task_def open_calls_def split: prod.splits)
next
  case (Stop s)
  show ?case by (rule call_inv_same [OF Stop(2)]) (use Stop in \<open>auto simp: stop_begin_def open_calls_def\<close>)
next
  case (Stop_turn s dead)
  then show ?case by (simp add: call_inv_stop_turn)
next
  case (Join s dead)
  then show ?case by (simp add: call_inv_stop_turn)
qed

section \<open>Stopping\<close>

definition serving :: "http_server \<Rightarrow> nat \<Rightarrow> bool" where
  "serving s sid \<longleftrightarrow> sid \<in> fst ` set (ws_writers s)
    \<or> (\<exists>c\<in>set (ws_waiting s). pc_stream (ws_calls s c) = Some sid \<and> \<not> (pc_done (ws_calls s c) \<and> rs_status (pc_response (ws_calls s c)) \<ge> 400))"

lemma held_iff:
  "sid \<in> set (held_streams s) \<longleftrightarrow> (\<exists>h req. (h, req, sid) \<in> set (ws_arriving s))
    \<or> (\<exists>c\<in>set (ws_waiting s). pc_stream (ws_calls s c) = Some sid) \<or> sid \<in> fst ` set (ws_writers s)"
  by (force simp: held_streams_def image_iff split: option.splits)

lemma serving_held: "serving s sid \<Longrightarrow> sid \<in> set (held_streams s)"
  unfolding serving_def held_iff by blast

definition idle :: "http_server \<Rightarrow> bool" where
  "idle s \<longleftrightarrow> ws_pending s = [] \<and> ws_waiting s = [] \<and> ws_arriving s = [] \<and> ws_writers s = []"

definition to_close :: "stop_phase \<Rightarrow> nat \<Rightarrow> bool" where
  "to_close ph sid = (case ph of Collecting_streams \<Rightarrow> True | Closing_streams sids \<Rightarrow> sid \<in> set sids | _ \<Rightarrow> False)"

definition queue_failed :: "stop_phase \<Rightarrow> bool" where
  "queue_failed ph = (case ph of No_stop \<Rightarrow> True | Failing_calls _ \<Rightarrow> True | Joining_thread \<Rightarrow> True | _ \<Rightarrow> False)"

definition held_ok :: "http_server \<Rightarrow> bool" where
  "held_ok s \<longleftrightarrow> (\<forall>sid. sid \<in> set (held_streams s) \<longrightarrow> sid \<in> set (ws_active s)) \<and> (\<forall>sid\<in>set (ws_active s). sid < ws_next_stream s)"

definition stop_inv :: "http_server \<Rightarrow> bool" where
  "stop_inv s \<longleftrightarrow> held_ok s
    \<and> (ws_running s \<longrightarrow> ws_port s \<noteq> 0 \<and> ws_stop s = No_stop)
    \<and> (ws_port s = 0 \<longrightarrow> idle s \<and> ws_stop s = No_stop)
    \<and> (\<not> ws_running s \<and> queue_failed (ws_stop s) \<longrightarrow> ws_pending s = [])
    \<and> (\<not> ws_running s \<longrightarrow> (\<forall>sid. serving s sid \<longrightarrow> es_closed (ws_streams s sid) \<or> to_close (ws_stop s) sid))"

lemma stop_inv_running:
  "ws_running t \<Longrightarrow> ws_port t \<noteq> 0 \<Longrightarrow> ws_stop t = No_stop \<Longrightarrow> held_ok t \<Longrightarrow> stop_inv t"
  by (simp add: stop_inv_def)

definition keeps_closed :: "http_server \<Rightarrow> http_server \<Rightarrow> bool" where
  "keeps_closed s t \<longleftrightarrow> (\<forall>sid<ws_next_stream s. es_closed (ws_streams s sid) \<longrightarrow> es_closed (ws_streams t sid))"

definition less_held :: "http_server \<Rightarrow> http_server \<Rightarrow> bool" where
  "less_held s t \<longleftrightarrow> (\<forall>sid. sid \<in> set (held_streams t) \<longrightarrow> sid \<in> set (held_streams s)) \<and> (\<forall>sid. serving t sid \<longrightarrow> serving s sid)
    \<and> (idle s \<longrightarrow> idle t)"

lemma stop_inv_less:
  assumes "stop_inv s" and "less_held s t" and "keeps_closed s t"
    and "ws_running t = ws_running s" "ws_port t = ws_port s" "ws_stop t = ws_stop s" "ws_active t = ws_active s"
      "ws_next_stream t = ws_next_stream s"
    and "ws_pending s = [] \<Longrightarrow> \<not> ws_running s \<Longrightarrow> ws_pending t = []"
  shows "stop_inv t"
proof -
  have ok: "held_ok s" using assms(1) by (simp add: stop_inv_def)
  then have "held_ok t" using assms(2,7,8) by (auto simp: held_ok_def less_held_def)
  moreover have "es_closed (ws_streams t sid) \<or> to_close (ws_stop s) sid" if "\<not> ws_running s" "serving t sid" for sid
  proof -
    have "serving s sid" using that(2) assms(2) by (simp add: less_held_def)
    moreover from serving_held [OF this] have "sid < ws_next_stream s" using ok by (simp add: held_ok_def)
    ultimately show ?thesis using assms(1,3) that(1) by (auto simp: stop_inv_def keeps_closed_def)
  qed
  ultimately show ?thesis using assms by (auto simp: stop_inv_def less_held_def)
qed

lemma less_held_same:
  "ws_arriving t = ws_arriving s \<Longrightarrow> ws_waiting t = ws_waiting s \<Longrightarrow> ws_writers t = ws_writers s \<Longrightarrow> ws_calls t = ws_calls s
    \<Longrightarrow> (ws_pending s = [] \<Longrightarrow> ws_pending t = []) \<Longrightarrow> less_held s t"
  by (simp add: less_held_def held_iff serving_def idle_def)

lemma keeps_closed_same: "ws_streams t = ws_streams s \<Longrightarrow> keeps_closed s t"
  by (simp add: keeps_closed_def)

lemma keeps_closed_set: "(es_closed (ws_streams s sid) \<longrightarrow> es_closed st) \<Longrightarrow> ws_streams t = (ws_streams s)(sid := st) \<Longrightarrow> keeps_closed s t"
  by (simp add: keeps_closed_def)

lemma close_stream_streams [simp]: "ws_streams (close_stream sid s) = (ws_streams s)(sid := snd (mark_closed (ws_streams s sid)))"
  by (simp add: close_stream_def add_task_def split: prod.split)

lemma keeps_closed_close: "keeps_closed s (close_stream sid s)"
  by (simp add: keeps_closed_def mark_closed_def)

lemma keeps_closed_close_call: "keeps_closed s (close_call_stream c s)"
  by (simp add: close_call_stream_def keeps_closed_close keeps_closed_same split: option.split)

lemma keeps_closed_trans: "keeps_closed s t \<Longrightarrow> keeps_closed t u \<Longrightarrow> ws_next_stream t = ws_next_stream s \<Longrightarrow> keeps_closed s u"
  by (simp add: keeps_closed_def)

text \<open>Answering a call: it stays or leaves what is served.\<close>

lemma less_held_answer:
  assumes "ws_arriving t = ws_arriving s" "ws_waiting t = ws_waiting s" "ws_writers t = ws_writers s"
    and "ws_calls t = (ws_calls s)(c := (ws_calls s c)\<lparr>pc_response := r, pc_done := True\<rparr>)" and "\<not> pc_done (ws_calls s c)"
    and "ws_pending s = [] \<Longrightarrow> ws_pending t = []"
  shows "less_held s t"
  using assms by (auto simp: less_held_def held_iff serving_def idle_def split: if_splits)

lemma wait_for_lua_fields:
  "ws_running (wait_for_lua p s) = ws_running s" "ws_port (wait_for_lua p s) = ws_port s" "ws_stop (wait_for_lua p s) = ws_stop s"
  "ws_active (wait_for_lua p s) = ws_active s" "ws_next_stream (wait_for_lua p s) = ws_next_stream s"
  "ws_streams (wait_for_lua p s) = ws_streams s" "ws_arriving (wait_for_lua p s) = ws_arriving s"
  "ws_writers (wait_for_lua p s) = ws_writers s" "ws_waiting (wait_for_lua p s) = ws_next_call s # ws_waiting s"
  "ws_call (wait_for_lua p s) = ws_call s" "ws_tasks (wait_for_lua p s) = ws_tasks s" "ws_routes (wait_for_lua p s) = ws_routes s"
  "ws_handlers (wait_for_lua p s) = ws_handlers s" "ws_next_handler (wait_for_lua p s) = ws_next_handler s"
  "ws_replies (wait_for_lua p s) = ws_replies s" "ws_next_call (wait_for_lua p s) = ws_next_call s + 1"
  "ws_pending (wait_for_lua p s) = (if ws_running s then ws_pending s @ [ws_next_call s] else ws_pending s)"
  "ws_calls (wait_for_lua p s) = (ws_calls s)(ws_next_call s :=
      if ws_running s then p else p\<lparr>pc_response := stopped_response (pc_response p), pc_done := True\<rparr>)"
  by (simp_all add: wait_for_lua_def Let_def)

lemma wait_held:
  assumes "call_inv s"
  shows "sid \<in> set (held_streams (wait_for_lua p s)) \<longleftrightarrow> sid \<in> set (held_streams s) \<or> pc_stream p = Some sid"
proof -
  have "ws_next_call s \<notin> set (ws_waiting s)" using assms by (auto simp: call_inv_defs)
  then have "(\<exists>c\<in>set (ws_waiting s). pc_stream (ws_calls (wait_for_lua p s) c) = Some sid)
      \<longleftrightarrow> (\<exists>c\<in>set (ws_waiting s). pc_stream (ws_calls s c) = Some sid)"
    by (intro bex_cong) (auto simp: wait_for_lua_fields)
  moreover have "pc_stream (ws_calls (wait_for_lua p s) (ws_next_call s)) = pc_stream p" by (simp add: wait_for_lua_fields)
  ultimately show ?thesis by (auto simp: held_iff wait_for_lua_fields(7-9) simp del: fun_upd_apply)
qed

lemma wait_serving:
  assumes "call_inv s" and "\<not> ws_running s"
  shows "serving (wait_for_lua p s) sid \<longleftrightarrow> serving s sid"
proof -
  have "ws_next_call s \<notin> set (ws_waiting s)" using assms(1) by (auto simp: call_inv_defs)
  then show ?thesis using assms(2) by (auto simp: serving_def wait_for_lua_fields stopped_response_def split: if_splits)
qed

lemma stop_inv_wait:
  assumes "stop_inv s" and "call_inv s" and "ws_port s \<noteq> 0" and "\<And>sid. pc_stream p = Some sid \<Longrightarrow> sid \<in> set (ws_active s)"
  shows "stop_inv (wait_for_lua p s)"
proof -
  have "held_ok (wait_for_lua p s)" using assms(1,4) by (auto simp: stop_inv_def held_ok_def wait_held [OF assms(2)] wait_for_lua_fields)
  then show ?thesis using assms(1,3) wait_serving [OF assms(2)] by (auto simp: stop_inv_def wait_for_lua_fields)
qed

lemma stop_inv_request_sse:
  assumes "stop_inv s" and "call_inv s" and "(h, req, sid) \<in> set (ws_arriving s)"
  shows "stop_inv (begin_sse h req sid s)"
proof -
  let ?s = "s\<lparr>ws_arriving := remove1 (h, req, sid) (ws_arriving s)\<rparr>"
  have "sid \<in> set (held_streams s)" using assms(3) by (auto simp: held_iff)
  then have "sid \<in> set (ws_active s)" using assms(1) by (simp add: stop_inv_def held_ok_def)
  moreover have "less_held s ?s"
    by (auto simp: less_held_def held_iff serving_def idle_def dest: notin_set_remove1 in_set_remove1 set_remove1_subset [THEN subsetD])
  then have "stop_inv ?s" by (rule stop_inv_less [OF assms(1)]) (simp_all add: keeps_closed_def)
  moreover have "ws_port s \<noteq> 0" using assms(1,3) by (auto simp: stop_inv_def idle_def)
  ultimately show ?thesis
    unfolding begin_sse_def by (intro stop_inv_wait) (simp_all add: assms(2) call_inv_arriving new_call_def)
qed

lemma stop_inv_end_wait:
  assumes "stop_inv s" and "c \<in> set (ws_waiting s)" and "pc_done (ws_calls s c)"
  shows "stop_inv (end_wait c s)"
proof (rule stop_inv_less [OF assms(1)])
  have sub: "x \<in> set (remove1 c (ws_waiting s)) \<Longrightarrow> x \<in> set (ws_waiting s)" for x by (meson notin_set_remove1)
  show "less_held s (end_wait c s)"
    using assms(2,3) sub by (auto simp: less_held_def held_iff serving_def idle_def end_wait_fields split: option.splits if_splits)
qed (simp_all add: end_wait_fields keeps_closed_def)

lemma writer_turn_closed: "es_closed (snd (writer_turn good w st)) = es_closed st"
  by (simp add: writer_turn_def split: writer.splits list.splits)

lemma server_writer_turn_fields:
  "ws_waiting (server_writer_turn good w s) = ws_waiting s" "ws_calls (server_writer_turn good w s) = ws_calls s"
  "ws_next_call (server_writer_turn good w s) = ws_next_call s" "ws_pending (server_writer_turn good w s) = ws_pending s"
  "ws_stop (server_writer_turn good w s) = ws_stop s" "ws_call (server_writer_turn good w s) = ws_call s"
  "ws_arriving (server_writer_turn good w s) = ws_arriving s" "ws_active (server_writer_turn good w s) = ws_active s"
  "ws_running (server_writer_turn good w s) = ws_running s" "ws_port (server_writer_turn good w s) = ws_port s"
  "ws_next_stream (server_writer_turn good w s) = ws_next_stream s" "ws_handlers (server_writer_turn good w s) = ws_handlers s"
  "ws_next_handler (server_writer_turn good w s) = ws_next_handler s" "ws_routes (server_writer_turn good w s) = ws_routes s"
  "ws_replies (server_writer_turn good w s) = ws_replies s"
  "ws_writers (server_writer_turn good w s) = (case fst (writer_turn good (snd w) (ws_streams s (fst w))) of
      Goes_on w' \<Rightarrow> (fst w, w') # remove1 w (ws_writers s) | _ \<Rightarrow> remove1 w (ws_writers s))"
  by (simp_all add: server_writer_turn_def Let_def split: prod.split writer_end.split)

lemma keeps_closed_writer: "keeps_closed s (server_writer_turn good w s)"
  using writer_turn_closed [of good "snd w" "ws_streams s (fst w)"]
  by (auto simp: keeps_closed_def server_writer_turn_def Let_def mark_closed_def split: prod.splits writer_end.splits)

lemma stop_inv_writer:
  assumes "stop_inv s" and "w \<in> set (ws_writers s)"
  shows "stop_inv (server_writer_turn good w s)"
proof (rule stop_inv_less [OF assms(1) _ keeps_closed_writer])
  have "x \<in> set (remove1 w (ws_writers s)) \<Longrightarrow> x \<in> set (ws_writers s)" for x by (meson notin_set_remove1)
  then have "fst ` set (ws_writers (server_writer_turn good w s)) \<subseteq> fst ` set (ws_writers s)"
    using assms(2) by (auto simp: server_writer_turn_fields split: writer_end.splits)
  then show "less_held s (server_writer_turn good w s)"
    using assms(2) by (auto simp: less_held_def held_iff serving_def idle_def server_writer_turn_fields(1-15))
qed (simp_all add: server_writer_turn_fields)

lemma stop_inv_task:
  assumes "stop_inv s" and "call_inv s"
  shows "stop_inv (run_task k s)"
proof -
  have fresh: "ws_next_call s \<notin> set (ws_waiting s)" using assms(2) by (auto simp: call_inv_defs)
  have same: "ws_arriving (run_task k s) = ws_arriving s" "ws_waiting (run_task k s) = ws_waiting s"
      "ws_writers (run_task k s) = ws_writers s" "ws_running (run_task k s) = ws_running s" "ws_port (run_task k s) = ws_port s"
      "ws_stop (run_task k s) = ws_stop s" "ws_active (run_task k s) = ws_active s" "ws_next_stream (run_task k s) = ws_next_stream s"
    by (auto simp: run_task_def enqueue_sse_close_def Let_def split: stream_task.splits prod.splits option.splits)
  have calls: "c \<in> set (ws_waiting s) \<Longrightarrow> ws_calls (run_task k s) c = ws_calls s c" for c
    using fresh by (auto simp: run_task_def enqueue_sse_close_def Let_def split: stream_task.splits prod.splits option.splits)
  have pending: "\<not> ws_running s \<Longrightarrow> ws_pending (run_task k s) = ws_pending s"
    by (auto simp: run_task_def enqueue_sse_close_def Let_def split: stream_task.splits prod.splits option.splits)
  have held: "sid \<in> set (held_streams (run_task k s)) \<longleftrightarrow> sid \<in> set (held_streams s)" for sid
    using calls by (simp add: held_iff same)
  have serve: "serving (run_task k s) sid \<longleftrightarrow> serving s sid" for sid using calls by (simp add: serving_def same)
  have "held_ok (run_task k s)" using assms(1) by (simp add: stop_inv_def held_ok_def held same)
  moreover have "es_closed (ws_streams (run_task k s) sid) \<longleftrightarrow> es_closed (ws_streams s sid)" for sid
    by (auto simp: run_task_def notify_closed_once_def enqueue_sse_close_def Let_def split: stream_task.splits prod.splits option.splits)
  moreover have "ws_port s = 0 \<Longrightarrow> \<not> ws_running s" using assms(1) by (auto simp: stop_inv_def)
  ultimately show ?thesis using assms(1) pending by (auto simp: stop_inv_def same serve idle_def)
qed

lemma stop_inv_result:
  assumes "stop_inv s" and "call_inv s" and "ws_call s = Some c"
  shows "stop_inv (dispatch_result c res s)"
proof -
  have "\<not> pc_done (ws_calls s c)" using assms(2,3) by (simp add: call_inv_defs open_calls_def)
  moreover obtain r where "ws_calls (dispatch_result c res s) = (ws_calls s)(c := (ws_calls s c)\<lparr>pc_response := r, pc_done := True\<rparr>)"
    using dispatch_result_call by blast
  moreover have same: "ws_arriving (dispatch_result c res s) = ws_arriving s" "ws_writers (dispatch_result c res s) = ws_writers s"
      "ws_running (dispatch_result c res s) = ws_running s" "ws_port (dispatch_result c res s) = ws_port s"
      "ws_active (dispatch_result c res s) = ws_active s" "ws_next_stream (dispatch_result c res s) = ws_next_stream s"
    by (cases res; auto simp: dispatch_result_def Let_def finish_call_def answer_call_def)+
  ultimately have "less_held s (dispatch_result c res s)" by (intro less_held_answer) (simp_all add: dispatch_result_fields)
  moreover have "keeps_closed s (dispatch_result c res s)"
    using keeps_closed_close_call [of "answer_call c (pc_response (ws_calls s c)\<lparr>rs_status := 500, rs_body := ''Handler error: '' @ e\<rparr>) s" c for e]
    by (cases res) (auto simp: keeps_closed_def dispatch_result_def Let_def finish_call_def answer_call_def)
  ultimately show ?thesis by (rule stop_inv_less [OF assms(1)]) (simp_all add: same dispatch_result_fields)
qed

lemma stop_inv_dispatch:
  assumes "stop_inv s" and "call_inv s"
  shows "stop_inv (dispatch_take s)"
proof (cases "ws_pending s")
  case Nil
  then show ?thesis using assms(1) by (simp add: dispatch_take_def)
next
  case (Cons c cs)
  let ?r = "(pc_response (ws_calls s c))\<lparr>rs_status := 500, rs_body := ''Handler not found''\<rparr>"
  have undone: "\<not> pc_done (ws_calls s c)" using assms(2) Cons by (simp add: call_inv_defs open_calls_def)
  show ?thesis
  proof (cases "ws_handlers s (pc_handler (ws_calls s c))")
    case None
    show ?thesis
    proof (rule stop_inv_less [OF assms(1)])
      show "less_held s (dispatch_take s)" using Cons None undone
        by (intro less_held_answer [of _ _ c ?r]) (simp_all add: dispatch_take_def finish_call_def answer_call_def)
      show "keeps_closed s (dispatch_take s)" using Cons None keeps_closed_close_call [of "answer_call c ?r (s\<lparr>ws_pending := cs\<rparr>)" c]
        by (simp add: keeps_closed_def dispatch_take_def finish_call_def answer_call_def)
    qed (use Cons None in \<open>simp_all add: dispatch_take_def finish_call_def answer_call_def\<close>)
  next
    case (Some f)
    show ?thesis
      by (rule stop_inv_less [OF assms(1)])
        (use Cons Some in \<open>auto simp: dispatch_take_def less_held_def held_iff serving_def idle_def keeps_closed_def\<close>)
  qed
qed

lemma fail_call_other:
  "ws_arriving (fail_call c s) = ws_arriving s" "ws_writers (fail_call c s) = ws_writers s" "ws_running (fail_call c s) = ws_running s"
  "ws_port (fail_call c s) = ws_port s" "ws_active (fail_call c s) = ws_active s" "ws_next_stream (fail_call c s) = ws_next_stream s"
  "ws_handlers (fail_call c s) = ws_handlers s" "ws_routes (fail_call c s) = ws_routes s" "ws_next_handler (fail_call c s) = ws_next_handler s"
  by (simp_all add: fail_call_def finish_call_def answer_call_def)

lemma keeps_closed_fail: "keeps_closed s (fail_call c s)"
  using keeps_closed_close_call [of "answer_call c (stopped_response (pc_response (ws_calls s c))) s" c]
  by (simp add: keeps_closed_def fail_call_def finish_call_def answer_call_def)

lemma stop_inv_stop_turn:
  assumes "stop_inv s" and "call_inv s" and "ws_stop s \<noteq> No_stop" and "\<forall>sid. dead sid \<longrightarrow> sid \<notin> set (held_streams s)"
  shows "stop_inv (stop_turn dead s)"
proof -
  have basic: "held_ok s" "\<not> ws_running s" "ws_port s \<noteq> 0" "queue_failed (ws_stop s) \<Longrightarrow> ws_pending s = []"
    and closed: "\<And>sid. serving s sid \<Longrightarrow> es_closed (ws_streams s sid) \<or> to_close (ws_stop s) sid"
    using assms(1,3) by (auto simp: stop_inv_def)
  have ints: "stop_inv t" if "held_ok t" "\<not> ws_running t" "ws_port t \<noteq> 0" "queue_failed (ws_stop t) \<Longrightarrow> ws_pending t = []"
      "\<And>sid. serving t sid \<Longrightarrow> es_closed (ws_streams t sid) \<or> to_close (ws_stop t) sid" for t
    using that by (simp add: stop_inv_def)
  note phases = to_close_def queue_failed_def
  show ?thesis
  proof (cases "ws_stop s")
    case Collecting_streams
    let ?t = "s\<lparr>ws_active := filter (\<lambda>sid. \<not> dead sid) (ws_active s), ws_stop := Closing_streams (filter (\<lambda>sid. \<not> dead sid) (ws_active s))\<rparr>"
    have same: "sid \<in> set (held_streams ?t) \<longleftrightarrow> sid \<in> set (held_streams s)" "serving ?t sid \<longleftrightarrow> serving s sid" for sid
      by (simp_all add: held_iff serving_def)
    have "stop_inv ?t"
      using basic closed assms(4) serving_held
      by (intro ints) (auto simp: held_ok_def same phases Collecting_streams)
    then show ?thesis by (simp add: stop_turn_def Collecting_streams collect_streams_def Let_def)
  next
    case (Closing_streams sids)
    show ?thesis
    proof (cases sids)
      case Nil
      then show ?thesis using basic closed
        by (intro ints) (auto simp: stop_turn_def Closing_streams phases held_ok_def held_iff serving_def)
    next
      case (Cons sid rest)
      let ?t = "close_stream sid (s\<lparr>ws_stop := Closing_streams rest\<rparr>)"
      have same: "i \<in> set (held_streams ?t) \<longleftrightarrow> i \<in> set (held_streams s)" "serving ?t i \<longleftrightarrow> serving s i" for i
        by (simp_all add: held_iff serving_def)
      have "es_closed (ws_streams ?t i) \<or> i \<in> set rest" if "serving s i" for i
        using closed [OF that] by (auto simp: Closing_streams Cons phases mark_closed_def)
      then have "stop_inv ?t" using basic by (intro ints) (simp_all add: held_ok_def same phases)
      then show ?thesis by (simp add: stop_turn_def Closing_streams Cons)
    qed
  next
    case Stopping_library
    then show ?thesis using basic closed
      by (intro ints) (auto simp: stop_turn_def phases held_ok_def held_iff serving_def)
  next
    case Taking_calls
    then show ?thesis using basic closed
      by (intro ints) (auto simp: stop_turn_def phases held_ok_def held_iff serving_def)
  next
    case Joining_thread
    then show ?thesis using basic closed
      by (intro ints) (auto simp: stop_turn_def phases held_ok_def held_iff serving_def)
  next
    case (Failing_calls cs)
    show ?thesis
    proof (cases cs)
      case Nil
      then show ?thesis using basic closed
        by (intro ints) (auto simp: stop_turn_def Failing_calls phases held_ok_def held_iff serving_def)
    next
      case (Cons c rest)
      let ?s = "s\<lparr>ws_stop := Failing_calls rest\<rparr>"
      have "stop_inv ?s"
        using basic closed by (intro ints) (auto simp: Failing_calls phases held_ok_def held_iff serving_def)
      moreover have "\<not> pc_done (ws_calls ?s c)" using assms(2) by (simp add: call_inv_defs open_calls_def Failing_calls Cons)
      then have "less_held ?s (fail_call c ?s)"
        by (intro less_held_answer [of _ _ c "stopped_response (pc_response (ws_calls ?s c))"]) (simp_all add: fail_call_other fail_call_fields)
      ultimately have "stop_inv (fail_call c ?s)"
        by (rule stop_inv_less [OF _ _ keeps_closed_fail]) (simp_all add: fail_call_other fail_call_fields)
      then show ?thesis by (simp add: stop_turn_def Failing_calls Cons)
    qed
  qed (use assms(3) in simp)
qed

lemma stop_inv_track:
  assumes "stop_inv s" and "ws_port s \<noteq> 0"
  shows "stop_inv (track_stream h req s)"
proof -
  let ?t = "track_stream h req s"
  have ok: "held_ok s" using assms(1) by (simp add: stop_inv_def)
  have held: "sid \<in> set (held_streams ?t) \<longleftrightarrow> sid = ws_next_stream s \<or> sid \<in> set (held_streams s)" for sid
    by (auto simp: held_iff track_stream_def Let_def)
  have serve: "serving ?t sid \<longleftrightarrow> serving s sid" for sid by (simp add: serving_def track_stream_def Let_def)
  have "held_ok ?t" using ok by (auto simp: held_ok_def held) (auto simp: track_stream_def Let_def less_Suc_eq)
  moreover have "es_closed (ws_streams ?t sid) \<longleftrightarrow> es_closed (ws_streams s sid)" if "serving s sid" for sid
    using serving_held [OF that] ok by (auto simp: held_ok_def track_stream_def Let_def)
  ultimately show ?thesis using assms serve by (auto simp: stop_inv_def) (auto simp: track_stream_def Let_def)
qed

lemma stop_inv_send:
  assumes "stop_inv s" and "stream_send sid data s = (b, t)"
  shows "stop_inv t"
  using assms(2)
  by (intro stop_inv_less [OF assms(1)])
    (auto simp: stream_send_def sse_send_def keeps_closed_def intro!: less_held_same split: prod.splits if_splits)

lemma stop_inv_same:
  assumes "stop_inv s" and "ws_arriving t = ws_arriving s" "ws_waiting t = ws_waiting s" "ws_writers t = ws_writers s"
    "ws_calls t = ws_calls s" "ws_pending t = ws_pending s" "ws_running t = ws_running s" "ws_port t = ws_port s"
    "ws_stop t = ws_stop s" "ws_active t = ws_active s" "ws_next_stream t = ws_next_stream s"
    "\<And>sid. es_closed (ws_streams s sid) \<Longrightarrow> es_closed (ws_streams t sid)"
  shows "stop_inv t"
  using assms(2-) by (intro stop_inv_less [OF assms(1) less_held_same]) (auto simp: keeps_closed_def)

lemma stop_inv_on_close: "stop_inv s \<Longrightarrow> stop_inv (stream_on_close sid f s)"
  by (erule stop_inv_same) (auto simp: stream_on_close_def add_handler_def add_task_def set_close_handler_def)

lemma stop_inv_close: "stop_inv s \<Longrightarrow> stop_inv (close_stream sid s)"
  by (rule stop_inv_less [OF _ _ keeps_closed_close]) (simp_all add: less_held_same)

lemma stop_inv_stop: "stop_inv s \<Longrightarrow> stop_inv (stop_begin s)"
  by (auto simp: stop_begin_def stop_inv_def held_ok_def held_iff to_close_def queue_failed_def)

lemma stop_inv_listen:
  assumes "stop_inv s" and "server_listen show_port any_port bound port s = (r, t)" and "any_port \<noteq> 0"
  shows "stop_inv t"
proof (cases "t = s")
  case False
  then obtain p where t: "t = s\<lparr>ws_port := p, ws_running := True\<rparr>" "p \<noteq> 0" and s: "ws_port s = 0"
    using assms(2,3) by (auto simp: server_listen_def Let_def split: if_splits)
  have "held_ok t = held_ok s" by (simp add: t held_ok_def held_streams_def)
  then show ?thesis using assms(1) s by (intro stop_inv_running) (simp_all add: t stop_inv_def)
qed (use assms(1) in simp)

section \<open>The invariant of a server\<close>

definition http_server_inv :: "http_server \<Rightarrow> bool" where
  "http_server_inv s \<longleftrightarrow> call_inv s \<and> stop_inv s"

lemma stop_inv_step: "http_server_step s t \<Longrightarrow> call_inv s \<Longrightarrow> stop_inv s \<Longrightarrow> stop_inv t"
proof (induction rule: http_server_step.induct)
  case (Route s verb path f r t)
  show ?case by (rule stop_inv_same [OF Route(4)])
      (use Route(2) in \<open>auto simp: server_route_def assert_can_register_route_def add_handler_def split: if_splits\<close>)
next
  case (Route_sse s path f r t)
  show ?case by (rule stop_inv_same [OF Route_sse(4)])
      (use Route_sse(2) in \<open>auto simp: server_route_sse_def assert_can_register_route_def add_handler_def split: if_splits\<close>)
next
  case (Listen s any_port show_port bound port r t)
  show ?case by (rule stop_inv_listen [OF Listen(5,3,2)])
next
  case (Request s rt req)
  then show ?case unfolding begin_route_def by (intro stop_inv_wait) (simp_all add: new_call_def)
next
  case (Send s sid data b t)
  show ?case by (rule stop_inv_send [OF Send(5,3)])
next
  case (Join s dead)
  then show ?case by (intro stop_inv_stop_turn) (simp_all add: held_streams_def)
qed (simp_all add: stop_inv_track stop_inv_request_sse stop_inv_end_wait stop_inv_writer stop_inv_task stop_inv_dispatch
    stop_inv_result stop_inv_close stop_inv_on_close stop_inv_stop stop_inv_stop_turn)

interpretation web: invariant_system "\<lambda>s. s = new_server" http_server_step http_server_inv
proof (unfold_locales, goal_cases)
  case (1 s)
  then show ?case
    by (simp add: http_server_inv_def call_inv_def open_calls_def stop_inv_def held_ok_def held_streams_def new_server_def idle_def serving_def)
next
  case (2 s t)
  then show ?case using call_inv_step stop_inv_step unfolding http_server_inv_def by blast
qed

lemma reachable_http_server_inv: "http_server_reachable s \<Longrightarrow> http_server_inv s"
  using web.inv_reachable unfolding http_server_reachable_def by blast

end
