(* ===== verification/Http_Server_Properties.thy ===== *)
theory Http_Server_Properties
  imports Http_Server_Steps
begin

text \<open>
  The properties of the HTTP server: every request is answered once, a stop outside the server's own handlers ends, one
  inside them never does, events reach the client in the order they were sent, and a close handler registered after the
  end of its stream is not called.
\<close>

section \<open>Answers\<close>

text \<open>C38: In every history of a server each request the library hands over is answered at most once, and a request not
  answered yet is either finished, so that its thread can take the answer, or in exactly one of the queue, the calls a stop
  fails and the running handler, once.\<close>

theorem requests_answered_once:
  assumes "http_server_reachable s"
  shows "distinct (ws_waiting s @ map fst (ws_replies s))
    \<and> (\<forall>c\<in>set (ws_waiting s). count (mset (open_calls s)) c = (if pc_done (ws_calls s c) then 0 else 1))"
proof -
  have inv: "call_inv s" using reachable_http_server_inv [OF assms] by (simp add: http_server_inv_def)
  have "count (mset (open_calls s)) c = (if pc_done (ws_calls s c) then 0 else 1)" if "c \<in> set (ws_waiting s)" for c
  proof (cases "c \<in> set (open_calls s)")
    case True
    then have "count (mset (open_calls s)) c = 1" using inv by (simp add: call_inv_def distinct_count_atmost_1)
    then show ?thesis using True inv by (simp add: call_inv_defs)
  next
    case False
    then have "pc_done (ws_calls s c)" using inv that by (auto simp: call_inv_defs)
    then show ?thesis using False by (simp add: count_eq_zero_iff)
  qed
  then show ?thesis using inv by (simp add: call_inv_def)
qed

section \<open>The end of a stop\<close>

text \<open>The turns of the library's threads that bring no new request.\<close>

inductive library_turn :: "http_server \<Rightarrow> http_server \<Rightarrow> bool" where
  Asks: "(h, req, sid) \<in> set (ws_arriving s) \<Longrightarrow> library_turn s (begin_sse h req sid s)"
| Leaves: "c \<in> set (ws_waiting s) \<Longrightarrow> pc_done (ws_calls s c) \<Longrightarrow> library_turn s (end_wait c s)"
| Writes: "w \<in> set (ws_writers s) \<Longrightarrow> library_turn s (server_writer_turn good w s)"

lemma library_turn_step: "library_turn s t \<Longrightarrow> http_server_step s t"
  by (induction rule: library_turn.induct) (auto intro: http_server_step.intros)

fun writer_work :: "writer \<Rightarrow> nat" where
  "writer_work Ready = 4"
| "writer_work (Writing c) = 6"
| "writer_work Leaving = 3"

definition chunk_work :: "http_server \<Rightarrow> nat" where
  "chunk_work s = (\<Sum>sid<ws_next_stream s. 4 * length (es_chunks (ws_streams s sid)))"

definition library_work :: "http_server \<Rightarrow> nat" where
  "library_work s = 8 * length (ws_arriving s) + 7 * length (ws_waiting s) + sum_list (map (\<lambda>(sid, w). writer_work w) (ws_writers s))
     + chunk_work s"

definition awaits_join :: "http_server \<Rightarrow> bool" where
  "awaits_join s \<longleftrightarrow> http_server_inv s \<and> ws_stop s = Joining_thread \<and> ws_call s = None"

lemma joining_open: "awaits_join s \<Longrightarrow> open_calls s = []"
  by (auto simp: awaits_join_def http_server_inv_def stop_inv_def queue_failed_def open_calls_def)

lemma joining_done: "awaits_join s \<Longrightarrow> c \<in> set (ws_waiting s) \<Longrightarrow> pc_done (ws_calls s c)"
  using joining_open [of s] unfolding awaits_join_def http_server_inv_def call_inv_def by (metis wait_ok_def empty_iff empty_set)

lemma joining_writer:
  assumes "awaits_join s" and "(sid, w) \<in> set (ws_writers s)"
  shows "es_closed (ws_streams s sid)" "sid < ws_next_stream s"
proof -
  have "serving s sid" using assms(2) by (force simp: serving_def)
  then show "es_closed (ws_streams s sid)" "sid < ws_next_stream s"
    using assms(1) serving_held [of s sid] by (auto simp: awaits_join_def http_server_inv_def stop_inv_def to_close_def held_ok_def)
qed

lemma library_turn_same: "library_turn s t \<Longrightarrow> ws_stop t = ws_stop s \<and> ws_call t = ws_call s"
  by (induction rule: library_turn.induct) (simp_all add: begin_sse_def wait_for_lua_fields end_wait_fields server_writer_turn_fields)

lemma joining_turn: "library_turn s t \<Longrightarrow> awaits_join s \<Longrightarrow> awaits_join t"
  using web.inv_step [OF library_turn_step, of s t] library_turn_same [of s t] by (simp add: awaits_join_def)

lemma chunk_work_update:
  fixes sid n :: nat
  assumes "sid < n"
  shows "(\<Sum>i<n. 4 * length (es_chunks ((f(sid := st)) i))) + 4 * length (es_chunks (f sid))
    = (\<Sum>i<n. 4 * length (es_chunks (f i))) + (4::nat) * length (es_chunks st)"
proof -
  have "(\<Sum>i<n. g i) = g sid + (\<Sum>i\<in>{..<n} - {sid}. g i)" for g :: "nat \<Rightarrow> nat" using assms by (simp add: sum.remove)
  moreover have "(\<Sum>i\<in>{..<n} - {sid}. 4 * length (es_chunks ((f(sid := st)) i))) = (\<Sum>i\<in>{..<n} - {sid}. 4 * length (es_chunks (f i)))"
    by (rule sum.cong) auto
  ultimately show ?thesis by simp
qed

lemma writer_turn_work:
  assumes "writer_turn good w st = (r, st')" and "es_closed st"
  shows "(case r of Goes_on w' \<Rightarrow> writer_work w' | _ \<Rightarrow> 0) + 4 * length (es_chunks st') < writer_work w + 4 * length (es_chunks st)"
  using assms by (auto simp: writer_turn_def split: writer.splits list.splits if_splits)

lemma writer_step_chunks:
  "ws_streams (server_writer_turn good (sid, w) s) sid' =
    (let (r, st) = writer_turn good w (ws_streams s sid) in
     if sid' = sid then (if r = Client_gone then snd (mark_closed st) else st) else ws_streams s sid')"
  by (auto simp: server_writer_turn_def Let_def split: prod.splits writer_end.splits)

lemma library_work_writer:
  assumes "awaits_join s" and "(sid, w) \<in> set (ws_writers s)"
  shows "library_work (server_writer_turn good (sid, w) s) < library_work s"
proof -
  obtain r st where t: "writer_turn good w (ws_streams s sid) = (r, st)" by fastforce
  let ?t = "server_writer_turn good (sid, w) s"
  let ?st = "if r = Client_gone then snd (mark_closed st) else st"
  have closed: "es_closed (ws_streams s sid)" "sid < ws_next_stream s" using joining_writer [OF assms] by simp_all
  have "ws_streams ?t = (ws_streams s)(sid := ?st)" by (rule ext) (simp add: writer_step_chunks t)
  moreover have "es_chunks ?st = es_chunks st" by (simp add: mark_closed_def)
  ultimately have chunks: "chunk_work ?t + 4 * length (es_chunks (ws_streams s sid)) = chunk_work s + 4 * length (es_chunks st)"
    using chunk_work_update [OF closed(2), of "ws_streams s" ?st] by (simp add: chunk_work_def server_writer_turn_fields)
  have "sum_list (map f (ws_writers s)) = f (sid, w) + sum_list (map f (remove1 (sid, w) (ws_writers s)))" for f :: "nat \<times> writer \<Rightarrow> nat"
    by (rule sum_list_map_remove1 [OF assms(2)])
  from this [of "\<lambda>(sid, w). writer_work w"]
  have "sum_list (map (\<lambda>(sid, w). writer_work w) (ws_writers ?t)) + writer_work w
      = sum_list (map (\<lambda>(sid, w). writer_work w) (ws_writers s)) + (case r of Goes_on w' \<Rightarrow> writer_work w' | _ \<Rightarrow> 0)"
    by (cases r) (simp_all add: server_writer_turn_fields t)
  with writer_turn_work [OF t closed(1)] chunks show ?thesis by (simp add: library_work_def server_writer_turn_fields)
qed

lemma library_turn_work: "library_turn s t \<Longrightarrow> awaits_join s \<Longrightarrow> library_work t < library_work s"
proof (induction rule: library_turn.induct)
  case (Asks h req sid s)
  then obtain n where "length (ws_arriving s) = Suc n" by (cases "ws_arriving s") auto
  moreover have "\<not> ws_running s" using Asks(2) by (auto simp: awaits_join_def http_server_inv_def stop_inv_def)
  ultimately show ?case using Asks(1)
    by (simp add: library_work_def chunk_work_def begin_sse_def wait_for_lua_fields length_remove1)
next
  case (Leaves c s)
  then obtain n where "length (ws_waiting s) = Suc n" by (cases "ws_waiting s") auto
  then show ?case using Leaves(1)
    by (simp add: library_work_def chunk_work_def end_wait_fields length_remove1 split: option.split)
next
  case (Writes w s good)
  then show ?case using library_work_writer [of s "fst w" "snd w"] by simp
qed

lemma joining_goes_on:
  assumes "awaits_join s"
  shows "(\<exists>u. library_turn s u) \<or> http_server_step s (s\<lparr>ws_stop := No_stop\<rparr>)"
proof (cases "ws_arriving s = [] \<and> ws_waiting s = [] \<and> ws_writers s = []")
  case True
  then show ?thesis using assms http_server_step.Join [of s "\<lambda>_. False"] by (simp add: awaits_join_def stop_turn_def)
next
  case False
  then consider h req sid where "(h, req, sid) \<in> set (ws_arriving s)" | c where "c \<in> set (ws_waiting s)" | w where "w \<in> set (ws_writers s)"
    by (metis list.set_intros(1) neq_Nil_conv prod_cases3)
  then show ?thesis
  proof cases
    case 1
    then show ?thesis using library_turn.Asks by blast
  next
    case 2
    then show ?thesis using library_turn.Leaves joining_done [OF assms] by blast
  next
    case 3
    then show ?thesis using library_turn.Writes by blast
  qed
qed

text \<open>C36: A stop that has come to wait for the library's thread, outside any handler, ends: every answer and every stream
  its threads still hold is finished or closed, they end after a number of turns known beforehand, and at every point
  before that one of them can go on or the wait is over.\<close>

theorem stop_ends:
  assumes "http_server_reachable s" and "ws_stop s = Joining_thread" and "ws_call s = None"
  shows "(\<forall>n t. (library_turn ^^ n) s t \<longrightarrow> n \<le> library_work s)
    \<and> (\<forall>t. library_turn\<^sup>*\<^sup>* s t \<longrightarrow> (\<exists>u. library_turn t u) \<or> http_server_step t (t\<lparr>ws_stop := No_stop\<rparr>))"
proof -
  have j: "awaits_join s" using assms reachable_http_server_inv by (simp add: awaits_join_def)
  have "awaits_join t \<and> library_work t + n \<le> library_work s" if "(library_turn ^^ n) s t" for n t
    using that
  proof (induction n arbitrary: t)
    case (Suc n)
    then obtain u where "(library_turn ^^ n) s u" "library_turn u t" by auto
    then show ?case using Suc.IH joining_turn library_turn_work by fastforce
  qed (use j in simp)
  then show ?thesis using joining_goes_on by (metis add_leD2 rtranclp_power)
qed

text \<open>C37: A handler of a route that stops its own server never gets the control back: in every continuation the stop still
  waits for the library's thread, and the request of the handler for its answer.\<close>

theorem stop_in_handler_hangs:
  assumes "http_server_reachable s" and "ws_stop s = Joining_thread" and "ws_call s = Some c" "pc_kind (ws_calls s c) \<noteq> Close_call"
    and "http_server_step\<^sup>*\<^sup>* s t"
  shows "ws_stop t = Joining_thread \<and> c \<in> set (ws_waiting t) \<and> \<not> pc_done (ws_calls t c)"
proof -
  have "call_inv s" using reachable_http_server_inv [OF assms(1)] by (simp add: http_server_inv_def)
  then have "c < ws_next_call s \<and> c \<in> set (ws_waiting s) \<and> \<not> pc_done (ws_calls s c)"
    using assms(3,4) by (simp add: call_inv_defs open_calls_def)
  with assms(5,2) have "ws_stop t = Joining_thread \<and> c \<in> set (ws_waiting t) \<and> \<not> pc_done (ws_calls t c) \<and> c < ws_next_call t"
  proof (induction rule: rtranclp_induct)
    case (step t u)
    then have t: "ws_stop t = Joining_thread" "c \<in> set (ws_waiting t)" "\<not> pc_done (ws_calls t c)" "c < ws_next_call t" by simp_all
    from step.hyps(2) show ?case
    proof cases
      case (End_wait c')
      then have "c' \<noteq> c" using t by auto
      then show ?thesis using End_wait t by (simp add: end_wait_fields)
    next
      case (Task k)
      then show ?thesis using t
        by (auto simp: run_task_def enqueue_sse_close_def Let_def split: stream_task.splits prod.splits option.splits)
    qed (use t in \<open>auto simp: begin_route_def begin_sse_def wait_for_lua_fields track_stream_def Let_def server_writer_turn_fields\<close>)
  qed simp
  then show ?thesis by simp
qed

section \<open>Close handlers\<close>

text \<open>The ids of handlers that a task, an open call, a route or an arriving request names, and those a stream holds.\<close>

definition named :: "http_server \<Rightarrow> nat \<Rightarrow> bool" where
  "named s h \<longleftrightarrow> (\<exists>i. To_enqueue h i \<in> set (ws_tasks s)) \<or> (\<exists>c\<in>set (open_calls s). pc_handler (ws_calls s c) = h)
    \<or> (\<exists>rt\<in>set (ws_routes s). rt_handler rt = h) \<or> (\<exists>x\<in>set (ws_arriving s). fst x = h)"

definition armed :: "http_server \<Rightarrow> nat \<Rightarrow> nat \<Rightarrow> bool" where
  "armed s i h \<longleftrightarrow> es_handler (ws_streams s i) = h \<and> h \<noteq> 0"

text \<open>A step names the next id, ids named before, and those of streams not notified yet; it lets streams hold the next id,
  keeps a notification and forgets a handler only after its call.\<close>

definition names_old :: "http_server \<Rightarrow> http_server \<Rightarrow> bool" where
  "names_old s t \<longleftrightarrow> ws_next_handler s \<le> ws_next_handler t
    \<and> (\<forall>h. named t h \<longrightarrow> named s h \<or> (\<exists>i. armed s i h \<and> \<not> es_notified (ws_streams s i))
        \<or> h = ws_next_handler s \<and> h < ws_next_handler t)
    \<and> (\<forall>i h. armed t i h \<longrightarrow> armed s i h \<or> h = ws_next_handler s \<and> h < ws_next_handler t)"

definition keeps_ended :: "http_server \<Rightarrow> http_server \<Rightarrow> bool" where
  "keeps_ended s t \<longleftrightarrow> ws_next_stream s \<le> ws_next_stream t
    \<and> (\<forall>i<ws_next_stream s. es_notified (ws_streams s i) \<longrightarrow> es_notified (ws_streams t i))
    \<and> (\<forall>h<ws_next_handler s. \<not> named s h \<longrightarrow> ws_handlers t h = ws_handlers s h)"

lemma names_old_less:
  assumes "ws_next_handler t = ws_next_handler s" and "ws_routes t = ws_routes s" and "set (ws_arriving t) \<subseteq> set (ws_arriving s)"
    and "\<And>h i. To_enqueue h i \<in> set (ws_tasks t) \<Longrightarrow> To_enqueue h i \<in> set (ws_tasks s)"
    and "\<And>c. c \<in> set (open_calls t) \<Longrightarrow> c \<in> set (open_calls s) \<and> pc_handler (ws_calls t c) = pc_handler (ws_calls s c)"
    and "\<And>i. es_handler (ws_streams t i) = es_handler (ws_streams s i)"
  shows "names_old s t"
proof -
  have "named t h \<Longrightarrow> named s h" for h using assms(2-5) unfolding named_def by (metis subsetD)
  then show ?thesis using assms(1,6) by (simp add: names_old_def armed_def)
qed

lemma keeps_ended_same:
  assumes "ws_next_stream t = ws_next_stream s" and "ws_handlers t = ws_handlers s"
    and "\<And>i. es_notified (ws_streams s i) \<Longrightarrow> es_notified (ws_streams t i)"
  shows "keeps_ended s t"
  using assms by (simp add: keeps_ended_def)

lemma close_stream_tasks: "set (ws_tasks (close_stream sid s)) \<subseteq> insert (To_notify sid) (set (ws_tasks s))"
  by (auto simp: close_stream_def add_task_def split: prod.split)

lemma close_stream_enqueues: "To_enqueue h i \<in> set (ws_tasks (close_stream sid s)) \<Longrightarrow> To_enqueue h i \<in> set (ws_tasks s)"
  using close_stream_tasks by fastforce

lemma close_call_stream_tasks: "To_enqueue h i \<in> set (ws_tasks (close_call_stream c s)) \<Longrightarrow> To_enqueue h i \<in> set (ws_tasks s)"
  using close_stream_enqueues by (simp add: close_call_stream_def split: option.splits)

lemma close_call_stream_streams:
  "es_handler (ws_streams (close_call_stream c s) i) = es_handler (ws_streams s i)"
  "es_notified (ws_streams (close_call_stream c s) i) = es_notified (ws_streams s i)"
  by (simp_all add: close_call_stream_def mark_closed_def split: option.split)

lemma open_calls_task:
  "open_calls (run_task k s) = (case k of To_enqueue h sid \<Rightarrow> if ws_running s
      then ws_pending s @ [ws_next_call s] @ drop (length (ws_pending s)) (open_calls s) else open_calls s | _ \<Rightarrow> open_calls s)"
  by (auto simp: run_task_def enqueue_sse_close_def Let_def open_calls_def split: stream_task.splits prod.splits option.splits)

lemma named_wait:
  assumes "call_inv s" and "named (wait_for_lua p s) h"
  shows "named s h \<or> h = pc_handler p"
proof -
  have "\<forall>c\<in>set (open_calls s). c \<noteq> ws_next_call s" using assms(1) by (auto simp: call_inv_defs)
  moreover have "set (open_calls (wait_for_lua p s)) \<subseteq> insert (ws_next_call s) (set (open_calls s))"
    by (auto simp: open_calls_def wait_for_lua_fields)
  moreover have "pc_handler (ws_calls (wait_for_lua p s) (ws_next_call s)) = pc_handler p" by (simp add: wait_for_lua_fields)
  moreover have "c \<noteq> ws_next_call s \<Longrightarrow> ws_calls (wait_for_lua p s) c = ws_calls s c" for c by (simp add: wait_for_lua_fields)
  ultimately have "c \<in> set (open_calls (wait_for_lua p s)) \<Longrightarrow> pc_handler (ws_calls (wait_for_lua p s) c) = pc_handler p
      \<or> c \<in> set (open_calls s) \<and> pc_handler (ws_calls (wait_for_lua p s) c) = pc_handler (ws_calls s c)" for c
    by (metis insertE subsetD)
  then show ?thesis using assms(2) unfolding named_def wait_for_lua_fields(7,11,12) by metis
qed

lemma names_old_wait: "call_inv s \<Longrightarrow> named s (pc_handler p) \<Longrightarrow> names_old s (wait_for_lua p s)"
  using named_wait [of s p] by (auto simp: names_old_def armed_def wait_for_lua_fields)

lemma keeps_ended_wait: "keeps_ended s (wait_for_lua p s)"
  by (rule keeps_ended_same) (simp_all add: wait_for_lua_fields)

lemma names_old_task:
  assumes "call_inv s" and "k \<in> set (ws_tasks s)"
  shows "names_old s (run_task k s)"
proof -
  have fresh: "\<forall>c\<in>set (open_calls s). c \<noteq> ws_next_call s" using assms(1) by (auto simp: call_inv_defs)
  have old: "ws_next_handler (run_task k s) = ws_next_handler s" "ws_routes (run_task k s) = ws_routes s"
      "ws_arriving (run_task k s) = ws_arriving s" "es_handler (ws_streams (run_task k s) i) = es_handler (ws_streams s i)" for i
    by (auto simp: run_task_def enqueue_sse_close_def notify_closed_once_def Let_def split: stream_task.splits prod.splits option.splits)
  have tasks: "To_enqueue h i \<in> set (ws_tasks (run_task k s)) \<Longrightarrow>
      To_enqueue h i \<in> set (ws_tasks s) \<or> armed s i h \<and> \<not> es_notified (ws_streams s i)" for h i
    by (auto simp: run_task_def enqueue_sse_close_def notify_closed_once_def armed_def Let_def dest: notin_set_remove1 
        split: stream_task.splits prod.splits option.splits if_splits)
  have calls: "c \<in> set (open_calls (run_task k s)) \<Longrightarrow> c \<in> set (open_calls s) \<and> pc_handler (ws_calls (run_task k s) c) = pc_handler (ws_calls s c)
      \<or> (\<exists>i. To_enqueue (pc_handler (ws_calls (run_task k s) c)) i \<in> set (ws_tasks s))" for c
  proof (cases "ws_running s \<and> (\<exists>h sid. k = To_enqueue h sid)")
    case True
    then obtain h sid where k: "k = To_enqueue h sid" by blast
    assume "c \<in> set (open_calls (run_task k s))"
    moreover have "set (open_calls (run_task k s)) = insert (ws_next_call s) (set (open_calls s))"
      using True by (auto simp: k open_calls_def run_task_def enqueue_sse_close_def Let_def)
    ultimately show ?thesis using fresh assms(2) True
      by (cases "c = ws_next_call s") (auto simp: k run_task_def enqueue_sse_close_def Let_def new_call_def)
  next
    case False
    then have "open_calls (run_task k s) = open_calls s" "ws_calls (run_task k s) = ws_calls s"
      by (auto simp: open_calls_def run_task_def enqueue_sse_close_def Let_def split: stream_task.splits prod.splits option.splits)
    then show "c \<in> set (open_calls (run_task k s)) \<Longrightarrow> ?thesis" by simp
  qed
  have "named (run_task k s) h \<Longrightarrow> named s h \<or> (\<exists>i. armed s i h \<and> \<not> es_notified (ws_streams s i))" for h
    using tasks calls unfolding named_def old by metis
  then show ?thesis unfolding names_old_def armed_def old by auto
qed

lemma keeps_ended_task: "keeps_ended s (run_task k s)"
  by (rule keeps_ended_same)
    (auto simp: run_task_def enqueue_sse_close_def notify_closed_once_def Let_def split: stream_task.splits prod.splits option.splits)

lemma open_calls_dispatch:
  assumes "ws_call s = None"
  shows "set (open_calls (dispatch_take s)) \<subseteq> set (open_calls s)"
  using assms by (auto simp: open_calls_def dispatch_take_def finish_call_def answer_call_def Let_def split: list.splits option.splits)

lemma names_old_refl: "names_old s s" "keeps_ended s s"
  by (simp_all add: names_old_def keeps_ended_def)

lemma dispatch_take_step:
  assumes "ws_call s = None"
  shows "names_old s (dispatch_take s) \<and> keeps_ended s (dispatch_take s)"
proof (cases "ws_pending s")
  case Nil
  then show ?thesis by (simp add: dispatch_take_def names_old_refl)
next
  case (Cons c cs)
  show ?thesis
  proof (cases "ws_handlers s (pc_handler (ws_calls s c))")
    case None
    let ?t = "answer_call c ((pc_response (ws_calls s c))\<lparr>rs_status := 500, rs_body := ''Handler not found''\<rparr>) (s\<lparr>ws_pending := cs\<rparr>)"
    have d: "dispatch_take s = finish_call c (close_call_stream c ?t)" using Cons None by (simp add: dispatch_take_def)
    have "names_old s (dispatch_take s)"
    proof (rule names_old_less)
      show "c' \<in> set (open_calls s) \<and> pc_handler (ws_calls (dispatch_take s) c') = pc_handler (ws_calls s c')"
        if "c' \<in> set (open_calls (dispatch_take s))" for c'
        using that open_calls_dispatch [OF assms] by (auto simp: d finish_call_def answer_call_def)
      show "To_enqueue h i \<in> set (ws_tasks (dispatch_take s)) \<Longrightarrow> To_enqueue h i \<in> set (ws_tasks s)" for h i
        using close_call_stream_tasks [of h i c ?t] by (simp add: d finish_call_def answer_call_def)
    qed (simp_all add: d finish_call_def answer_call_def close_call_stream_streams)
    moreover have "keeps_ended s (dispatch_take s)"
      by (rule keeps_ended_same) (simp_all add: d finish_call_def answer_call_def close_call_stream_streams)
    ultimately show ?thesis by blast
  next
    case (Some f)
    then have d: "dispatch_take s = s\<lparr>ws_pending := cs, ws_call := Some c\<rparr>" using Cons by (simp add: dispatch_take_def)
    have "set (open_calls (dispatch_take s)) \<subseteq> set (open_calls s)" by (rule open_calls_dispatch [OF assms])
    then have "names_old s (dispatch_take s)" by (intro names_old_less) (auto simp: d)
    moreover have "keeps_ended s (dispatch_take s)" by (rule keeps_ended_same) (simp_all add: d)
    ultimately show ?thesis by blast
  qed
qed

lemma dispatch_result_step:
  assumes "ws_call s = Some c"
  shows "names_old s (dispatch_result c res s)" "keeps_ended s (dispatch_result c res s)"
proof -
  obtain r where calls: "ws_calls (dispatch_result c res s) = (ws_calls s)(c := (ws_calls s c)\<lparr>pc_response := r, pc_done := True\<rparr>)"
    using dispatch_result_call by blast
  let ?s = "\<lambda>e. answer_call c ((pc_response (ws_calls s c))\<lparr>rs_status := 500, rs_body := ''Handler error: '' @ e\<rparr>) s"
  have failed: "ws_tasks (dispatch_result c (Handler_failed e) s) = ws_tasks (close_call_stream c (?s e))"
      "ws_streams (dispatch_result c (Handler_failed e) s) = ws_streams (close_call_stream c (?s e))" for e
    by (simp_all add: dispatch_result_def Let_def finish_call_def)
  have returned: "\<nexists>e. res = Handler_failed e \<Longrightarrow> ws_tasks (dispatch_result c res s) = ws_tasks s \<and> ws_streams (dispatch_result c res s) = ws_streams s"
    by (cases res) (simp_all add: dispatch_result_def Let_def finish_call_def answer_call_def)
  have tasks: "To_enqueue h i \<in> set (ws_tasks (dispatch_result c res s)) \<Longrightarrow> To_enqueue h i \<in> set (ws_tasks s)" for h i
    using returned failed close_call_stream_tasks [of h i c "?s e" for e] by (cases "\<exists>e. res = Handler_failed e") (auto simp: answer_call_def)
  have streams: "es_handler (ws_streams (dispatch_result c res s) i) = es_handler (ws_streams s i)"
      "es_notified (ws_streams (dispatch_result c res s) i) = es_notified (ws_streams s i)" for i
    using returned by (cases "\<exists>e. res = Handler_failed e"; auto simp: failed close_call_stream_streams answer_call_def)+
  have same: "ws_next_handler (dispatch_result c res s) = ws_next_handler s" "ws_routes (dispatch_result c res s) = ws_routes s"
      "ws_arriving (dispatch_result c res s) = ws_arriving s" "ws_next_stream (dispatch_result c res s) = ws_next_stream s"
    by (cases res; simp add: dispatch_result_def Let_def finish_call_def answer_call_def)+
  show "names_old s (dispatch_result c res s)"
  proof (rule names_old_less)
    show "c' \<in> set (open_calls s) \<and> pc_handler (ws_calls (dispatch_result c res s) c') = pc_handler (ws_calls s c')"
      if "c' \<in> set (open_calls (dispatch_result c res s))" for c'
      using that by (auto simp: calls open_calls_def dispatch_result_fields)
  qed (use tasks in \<open>simp_all add: same streams\<close>)
  have "h \<noteq> pc_handler (ws_calls s c) \<Longrightarrow> ws_handlers (dispatch_result c res s) h = ws_handlers s h" for h
    by (cases res) (simp_all add: dispatch_result_def Let_def finish_call_def answer_call_def)
  moreover have "c \<in> set (open_calls s)" using assms by (simp add: open_calls_def)
  then have "named s (pc_handler (ws_calls s c))" unfolding named_def by blast
  ultimately show "keeps_ended s (dispatch_result c res s)" unfolding keeps_ended_def same streams by (metis order_refl)
qed

lemma fail_call_step: "names_old s (fail_call c s)" "keeps_ended s (fail_call c s)"
proof -
  let ?t = "answer_call c (stopped_response (pc_response (ws_calls s c))) s"
  have d: "fail_call c s = finish_call c (close_call_stream c ?t)" by (simp add: fail_call_def)
  show "names_old s (fail_call c s)"
  proof (rule names_old_less)
    show "To_enqueue h i \<in> set (ws_tasks (fail_call c s)) \<Longrightarrow> To_enqueue h i \<in> set (ws_tasks s)" for h i
      using close_call_stream_tasks [of h i c ?t] by (simp add: d finish_call_def answer_call_def)
    show "c' \<in> set (open_calls (fail_call c s)) \<Longrightarrow> c' \<in> set (open_calls s) \<and> pc_handler (ws_calls (fail_call c s) c') = pc_handler (ws_calls s c')" for c'
      by (simp add: fail_call_fields open_calls_def)
  qed (simp_all add: d finish_call_def answer_call_def close_call_stream_streams)
  show "keeps_ended s (fail_call c s)"
    by (rule keeps_ended_same) (simp_all add: d finish_call_def answer_call_def close_call_stream_streams)
qed

lemma close_stream_step: "names_old s (close_stream sid s)" "keeps_ended s (close_stream sid s)"
proof -
  have "To_enqueue h i \<in> set (ws_tasks (close_stream sid s)) \<Longrightarrow> To_enqueue h i \<in> set (ws_tasks s)" for h i
    using close_stream_tasks by fastforce
  then show "names_old s (close_stream sid s)"
    by (intro names_old_less) (simp_all add: open_calls_def mark_closed_def)
  show "keeps_ended s (close_stream sid s)" by (rule keeps_ended_same) (auto simp: mark_closed_def)
qed

lemma step_trans:
  assumes "names_old s t \<and> keeps_ended s t" and "u = t\<lparr>ws_stop := ph\<rparr>" and "set (open_calls u) \<subseteq> set (open_calls t)"
  shows "names_old s u \<and> keeps_ended s u"
proof -
  have "named u h \<Longrightarrow> named t h" for h using assms(2,3) by (auto simp: named_def)
  moreover have "armed u i h = armed t i h" for i h by (simp add: armed_def assms(2))
  ultimately show ?thesis using assms(1) unfolding names_old_def keeps_ended_def by (auto simp: assms(2))
qed

lemma stop_turn_step: "names_old s (stop_turn dead s) \<and> keeps_ended s (stop_turn dead s)"
proof -
  have plain: "names_old s t \<and> keeps_ended s t"
    if t: "t = s\<lparr>ws_active := ws_active t, ws_pending := ws_pending t, ws_stop := ws_stop t\<rparr>"
      and sub: "set (open_calls t) \<subseteq> set (open_calls s)" for t
  proof -
    have same: "ws_next_handler t = ws_next_handler s" "ws_routes t = ws_routes s" "ws_arriving t = ws_arriving s" "ws_tasks t = ws_tasks s"
      "ws_calls t = ws_calls s" "ws_streams t = ws_streams s" "ws_next_stream t = ws_next_stream s" "ws_handlers t = ws_handlers s"
      by (subst t, simp)+
    have "names_old s t" by (rule names_old_less) (use sub in \<open>auto simp: same\<close>)
    moreover have "keeps_ended s t" by (rule keeps_ended_same) (simp_all add: same)
    ultimately show ?thesis by blast
  qed
  show ?thesis
  proof (cases "\<exists>sid sids. ws_stop s = Closing_streams (sid # sids)")
    case True
    then obtain sid sids where ph: "ws_stop s = Closing_streams (sid # sids)" by blast
    let ?s = "s\<lparr>ws_stop := Closing_streams sids\<rparr>"
    have t: "stop_turn dead s = close_stream sid ?s" by (simp add: stop_turn_def ph)
    have "names_old s (close_stream sid s\<lparr>ws_stop := Closing_streams sids\<rparr>) \<and> keeps_ended s (close_stream sid s\<lparr>ws_stop := Closing_streams sids\<rparr>)"
      by (rule step_trans [of s "close_stream sid s"]) (simp_all add: close_stream_step open_calls_def ph)
    moreover have "close_stream sid s\<lparr>ws_stop := Closing_streams sids\<rparr> = close_stream sid ?s"
      by (simp add: close_stream_def mark_closed_def add_task_def set_stream_def)
    ultimately show ?thesis by (simp add: t)
  next
    case no_close: False
    show ?thesis
    proof (cases "\<exists>c cs. ws_stop s = Failing_calls (c # cs)")
      case True
      then obtain c cs where ph: "ws_stop s = Failing_calls (c # cs)" by blast
      let ?s = "s\<lparr>ws_stop := Failing_calls cs\<rparr>"
      have "names_old s (fail_call c s\<lparr>ws_stop := Failing_calls cs\<rparr>) \<and> keeps_ended s (fail_call c s\<lparr>ws_stop := Failing_calls cs\<rparr>)"
        by (rule step_trans [of s "fail_call c s"]) (auto simp: fail_call_step fail_call_fields open_calls_def ph)
      moreover have "fail_call c s\<lparr>ws_stop := Failing_calls cs\<rparr> = fail_call c ?s"
        by (simp add: fail_call_def finish_call_def answer_call_def set_call_def close_call_stream_def close_stream_def mark_closed_def
            add_task_def set_stream_def split: option.split)
      ultimately show ?thesis by (simp add: stop_turn_def ph)
    next
      case False
      let ?t = "stop_turn dead s"
      have "?t = s\<lparr>ws_active := ws_active ?t, ws_pending := ws_pending ?t, ws_stop := ws_stop ?t\<rparr>"
        using no_close False by (auto simp: stop_turn_def collect_streams_def Let_def split: stop_phase.splits list.splits)
      moreover have "set (open_calls (stop_turn dead s)) \<subseteq> set (open_calls s)"
        using no_close False by (auto simp: stop_turn_def collect_streams_def Let_def open_calls_def split: stop_phase.splits list.splits)
      ultimately show ?thesis using plain by blast
    qed
  qed
qed

lemma writer_turn_names:
  assumes "writer_turn good w st = (r, st')"
  shows "es_handler st' = es_handler st" "es_notified st' = es_notified st"
  using assms by (auto simp: writer_turn_def split: writer.splits list.splits if_splits)

lemma server_writer_step: "names_old s (server_writer_turn good w s) \<and> keeps_ended s (server_writer_turn good w s)"
proof -
  obtain r st where t: "writer_turn good (snd w) (ws_streams s (fst w)) = (r, st)" by fastforce
  have same: "es_handler st = es_handler (ws_streams s (fst w))" "es_notified st = es_notified (ws_streams s (fst w))"
    using writer_turn_names [OF t] by simp_all
  have streams: "es_handler (ws_streams (server_writer_turn good w s) i) = es_handler (ws_streams s i)"
      "es_notified (ws_streams (server_writer_turn good w s) i) = es_notified (ws_streams s i)" for i
    using same by (cases r; simp add: server_writer_turn_def t mark_closed_def)+
  have tasks: "To_enqueue h i \<in> set (ws_tasks (server_writer_turn good w s)) \<Longrightarrow> To_enqueue h i \<in> set (ws_tasks s)" for h i
    by (cases r) (auto simp: server_writer_turn_def t Let_def dest!: close_stream_enqueues)
  have "names_old s (server_writer_turn good w s)"
    by (rule names_old_less) (use tasks in \<open>simp_all add: streams server_writer_turn_fields open_calls_def\<close>)
  moreover have "keeps_ended s (server_writer_turn good w s)" by (rule keeps_ended_same) (simp_all add: streams server_writer_turn_fields)
  ultimately show ?thesis by blast
qed

lemma add_handler_step:
  assumes "ws_next_handler t = ws_next_handler s + 1" and "\<And>h. named t h \<Longrightarrow> named s h \<or> h = ws_next_handler s"
    and "\<And>i h. armed t i h \<Longrightarrow> armed s i h \<or> h = ws_next_handler s" and "ws_next_stream t = ws_next_stream s"
    and "ws_handlers t = (ws_handlers s)(ws_next_handler s \<mapsto> f)"
    and "\<And>i. es_notified (ws_streams t i) = es_notified (ws_streams s i)"
  shows "names_old s t \<and> keeps_ended s t"
  using assms by (auto simp: names_old_def keeps_ended_def)

lemma route_step:
  assumes "t = s\<lparr>ws_next_handler := ws_next_handler s + 1, ws_handlers := (ws_handlers s)(ws_next_handler s \<mapsto> f), ws_routes := rs\<rparr>"
    and "rt_handler ` set rs \<subseteq> insert (ws_next_handler s) (rt_handler ` set (ws_routes s))"
  shows "names_old s t \<and> keeps_ended s t"
proof (rule add_handler_step)
  show "named s h \<or> h = ws_next_handler s" if "named t h" for h
  proof -
    have "rt \<in> set rs \<Longrightarrow> rt_handler rt = ws_next_handler s \<or> (\<exists>r\<in>set (ws_routes s). rt_handler r = rt_handler rt)" for rt
      using assms(2) by (metis image_iff image_subset_iff insertE)
    moreover have "open_calls t = open_calls s" by (simp add: assms(1) open_calls_def)
    ultimately show ?thesis using that unfolding named_def by (simp add: assms(1)) metis
  qed
qed (simp_all add: assms(1) armed_def)

lemma same_step:
  assumes "ws_next_handler t = ws_next_handler s" "ws_routes t = ws_routes s" "ws_arriving t = ws_arriving s" "ws_tasks t = ws_tasks s"
    "ws_calls t = ws_calls s" "ws_next_stream t = ws_next_stream s" "ws_handlers t = ws_handlers s" "open_calls t = open_calls s"
    "\<And>i. es_handler (ws_streams t i) = es_handler (ws_streams s i)" "\<And>i. es_notified (ws_streams t i) = es_notified (ws_streams s i)"
  shows "names_old s t \<and> keeps_ended s t"
  using assms by (intro conjI names_old_less keeps_ended_same) simp_all

lemma http_step_names: "http_server_step s t \<Longrightarrow> call_inv s \<Longrightarrow> names_old s t \<and> keeps_ended s t"
proof (induction rule: http_server_step.induct)
  case (Listen s any_port show_port bound port r t)
  then show ?case by (intro same_step) (auto simp: server_listen_def Let_def open_calls_def split: if_splits)
next
  case (Route s verb path f r t)
  show ?case
  proof (cases "t = s")
    case False
    then have "\<exists>rs. t = s\<lparr>ws_next_handler := ws_next_handler s + 1, ws_handlers := (ws_handlers s)(ws_next_handler s \<mapsto> f), ws_routes := rs\<rparr>
        \<and> rt_handler ` set rs \<subseteq> insert (ws_next_handler s) (rt_handler ` set (ws_routes s))"
      using Route(2) by (cases s) (auto simp: server_route_def assert_can_register_route_def add_handler_def split: if_splits)
    then show ?thesis by (elim exE conjE) (rule route_step)
  qed (simp add: names_old_refl)
next
  case (Route_sse s path f r t)
  show ?case
  proof (cases "t = s")
    case False
    then have "\<exists>rs. t = s\<lparr>ws_next_handler := ws_next_handler s + 1, ws_handlers := (ws_handlers s)(ws_next_handler s \<mapsto> f), ws_routes := rs\<rparr>
        \<and> rt_handler ` set rs \<subseteq> insert (ws_next_handler s) (rt_handler ` set (ws_routes s))"
      using Route_sse(2) by (cases s) (auto simp: server_route_sse_def assert_can_register_route_def add_handler_def split: if_splits)
    then show ?thesis by (elim exE conjE) (rule route_step)
  qed (simp add: names_old_refl)
next
  case (Request s rt req)
  have "named s (rt_handler rt)" using Request(2) by (auto simp: named_def)
  with Request(4) have "names_old s (begin_route (rt_handler rt) req s)"
    unfolding begin_route_def by (intro names_old_wait) (simp_all add: new_call_def)
  then show ?case by (simp add: begin_route_def keeps_ended_wait)
next
  case (Track s rt req)
  let ?t = "track_stream (rt_handler rt) req s"
  have "rt_handler rt = h \<or> named s h" if "named ?t h" for h
    using that by (auto simp: named_def track_stream_def Let_def open_calls_def)
  moreover have "named s (rt_handler rt)" using Track(2) by (auto simp: named_def)
  moreover have "armed ?t i h \<Longrightarrow> armed s i h" for i h by (auto simp: armed_def track_stream_def Let_def new_stream_def split: if_splits)
  ultimately show ?case by (auto simp: names_old_def keeps_ended_def) (auto simp: track_stream_def Let_def)
next
  case (Request_sse h req sid s)
  let ?s = "s\<lparr>ws_arriving := remove1 (h, req, sid) (ws_arriving s)\<rparr>"
  have same: "ws_next_handler ?s = ws_next_handler s" "\<And>i h. armed ?s i h = armed s i h" "ws_streams ?s = ws_streams s" "ws_handlers ?s = ws_handlers s"
      "ws_next_stream ?s = ws_next_stream s" by (simp_all add: armed_def)
  have "set (ws_arriving ?s) \<subseteq> set (ws_arriving s)" by (simp add: set_remove1_subset)
  moreover have "open_calls ?s = open_calls s" "ws_tasks ?s = ws_tasks s" "ws_calls ?s = ws_calls s" "ws_routes ?s = ws_routes s"
    by (simp_all add: open_calls_def)
  ultimately have sub: "named ?s h' \<Longrightarrow> named s h'" for h' unfolding named_def by (elim disjE) (simp_all, blast)
  let ?p = "new_call Sse_call h req (Some sid)"
  have inv: "call_inv ?s" using Request_sse(2) by (simp add: call_inv_arriving)
  have "named (wait_for_lua ?p ?s) h' \<Longrightarrow> named ?s h' \<or> h' = h" for h'
    using named_wait [OF inv, of ?p] by (simp add: new_call_def)
  moreover have "named s h" using Request_sse(1) by (force simp: named_def)
  ultimately have "names_old s (wait_for_lua ?p ?s)"
    using sub by (auto simp: names_old_def armed_def wait_for_lua_fields)
  moreover have "keeps_ended s (wait_for_lua ?p ?s)" by (rule keeps_ended_same) (simp_all add: wait_for_lua_fields)
  ultimately show ?case by (simp add: begin_sse_def)
next
  case (End_wait c s)
  show ?case by (rule same_step) (simp_all add: end_wait_fields open_calls_def)
next
  case (Write_turn w s good)
  show ?case by (rule server_writer_step)
next
  case (Task k s)
  then show ?case by (simp add: names_old_task keeps_ended_task)
next
  case (Dispatch s)
  then show ?case by (simp add: dispatch_take_step)
next
  case (Result s c res)
  then show ?case by (simp add: dispatch_result_step)
next
  case (Send s sid data b t)
  then show ?case by (intro same_step) (auto simp: stream_send_def sse_send_def open_calls_def split: prod.splits if_splits)
next
  case (Close s sid)
  show ?case by (simp add: close_stream_step)
next
  case (On_close s sid f)
  show ?case
    by (rule add_handler_step [of _ _ f])
      (auto simp: stream_on_close_def add_handler_def set_close_handler_def add_task_def named_def armed_def open_calls_def split: if_splits)
next
  case (Stop s)
  show ?case by (rule same_step) (use Stop in \<open>auto simp: stop_begin_def open_calls_def\<close>)
next
  case (Stop_turn s dead)
  show ?case by (rule stop_turn_step)
next
  case (Join s dead)
  show ?case by (rule stop_turn_step)
qed

text \<open>Every id that is named or held has been given out.\<close>

definition given_out :: "http_server \<Rightarrow> bool" where
  "given_out s \<longleftrightarrow> 1 \<le> ws_next_handler s \<and> (\<forall>h. named s h \<or> (\<exists>i. armed s i h) \<longrightarrow> h < ws_next_handler s)"

lemma given_out_step: "names_old s t \<Longrightarrow> given_out s \<Longrightarrow> given_out t"
  unfolding names_old_def given_out_def by (meson le_trans less_le_trans)

interpretation given: invariant_system "\<lambda>s. s = new_server" http_server_step "\<lambda>s. http_server_inv s \<and> given_out s"
proof (unfold_locales, goal_cases)
  case (1 s)
  then show ?case using web.inv_start
    by (auto simp: given_out_def named_def armed_def new_server_def open_calls_def new_stream_def)
next
  case (2 s t)
  then show ?case using web.inv_step http_step_names given_out_step unfolding http_server_inv_def by blast
qed

text \<open>A handler that only a stream already notified holds.\<close>

definition never_called :: "nat \<Rightarrow> nat \<Rightarrow> http_server \<Rightarrow> bool" where
  "never_called h sid s \<longleftrightarrow> h < ws_next_handler s \<and> sid < ws_next_stream s \<and> es_notified (ws_streams s sid)
    \<and> \<not> named s h \<and> (\<forall>i. i \<noteq> sid \<longrightarrow> \<not> armed s i h)"

lemma never_called_step:
  assumes "names_old s t" and "keeps_ended s t" and "never_called h sid s"
  shows "never_called h sid t" "ws_handlers t h = ws_handlers s h"
proof -
  have old: "h < ws_next_handler s" "sid < ws_next_stream s" "es_notified (ws_streams s sid)" "\<not> named s h" "\<And>i. i \<noteq> sid \<Longrightarrow> \<not> armed s i h"
    using assms(3) by (auto simp: never_called_def)
  then show "ws_handlers t h = ws_handlers s h" using assms(2) by (simp add: keeps_ended_def)
  have "\<not> named t h" using assms(1) old unfolding names_old_def by (metis less_irrefl)
  moreover have "i \<noteq> sid \<Longrightarrow> \<not> armed t i h" for i using assms(1) old unfolding names_old_def by (metis less_irrefl)
  moreover have "es_notified (ws_streams t sid)" "sid < ws_next_stream t" "h < ws_next_handler t"
    using assms(1,2) old by (auto simp: keeps_ended_def names_old_def)
  ultimately show "never_called h sid t" by (simp add: never_called_def)
qed

text \<open>C40: A close handler that a script registers on a stream after the end of the stream was notified is never called: no
  later history puts a call for it in the queue. The server keeps the handler for ever.\<close>

theorem late_close_handler:
  assumes "http_server_reachable s" and "sid < ws_next_stream s" and "es_notified (ws_streams s sid)"
    and "http_server_step\<^sup>*\<^sup>* (stream_on_close sid f s) t" and "h = ws_next_handler s"
  shows "(\<forall>c\<in>set (open_calls t). pc_handler (ws_calls t c) \<noteq> h) \<and> ws_handlers t h = Some f"
proof -
  have inv: "http_server_inv s \<and> given_out s" using given.inv_reachable assms(1) unfolding http_server_reachable_def by blast
  let ?s = "stream_on_close sid f s"
  have fresh: "\<not> named s h" "\<And>i. \<not> armed s i h" using inv assms(5) unfolding given_out_def by auto
  have s1: "ws_handlers ?s h = Some f" "ws_next_handler ?s = h + 1" "ws_next_stream ?s = ws_next_stream s" "es_notified (ws_streams ?s sid)"
      "\<And>i. i \<noteq> sid \<Longrightarrow> ws_streams ?s i = ws_streams s i" "named ?s h = named s h"
    using assms(3,5) by (auto simp: stream_on_close_def add_handler_def set_close_handler_def add_task_def named_def open_calls_def)
  have "i \<noteq> sid \<Longrightarrow> \<not> armed ?s i h" for i using fresh(2) [of i] by (simp add: armed_def s1(5))
  then have start: "never_called h sid ?s" using assms(2) fresh(1) by (simp add: never_called_def s1)
  have inv1: "call_inv ?s" using inv call_inv_same [of s ?s]
    by (simp add: http_server_inv_def stream_on_close_def add_handler_def set_close_handler_def add_task_def open_calls_def)
  from assms(4) have "call_inv t \<and> never_called h sid t \<and> ws_handlers t h = Some f"
  proof (induction rule: rtranclp_induct)
    case (step t u)
    then have "names_old t u \<and> keeps_ended t u" using http_step_names by blast
    with step show ?case using never_called_step [of t u h sid] call_inv_step [of t u] by simp
  qed (use inv1 start s1 in simp)
  then have "\<not> named t h" "ws_handlers t h = Some f" by (auto simp: never_called_def)
  then show ?thesis unfolding named_def by blast
qed

end
