(* ===== verification/Http_Server_Streams.thy ===== *)
theory Http_Server_Streams
  imports Http_Server_Steps "HOL-Library.Sublist"
begin

text \<open>
  What a client gets of a stream of the HTTP server: the chunks the script's sends were told to be accepted, in order, each
  at most once.
\<close>

text \<open>The streams threads hold, with what each is about to do; a stream not written yet is at its start.\<close>

definition waited :: "http_server \<Rightarrow> nat \<Rightarrow> (nat \<times> writer) list" where
  "waited s c = (case pc_stream (ws_calls s c) of None \<Rightarrow> [] | Some sid \<Rightarrow> [(sid, Ready)])"

definition served :: "http_server \<Rightarrow> (nat \<times> writer) list" where
  "served s = map (\<lambda>(h, req, sid). (sid, Ready)) (ws_arriving s)
     @ concat (map (waited s) (ws_waiting s)) @ ws_writers s"

lemma served_held: "map fst (served s) = held_streams s"
proof -
  have "map fst (waited s c) = (case pc_stream (ws_calls s c) of None \<Rightarrow> [] | Some sid \<Rightarrow> [sid])" for c
    by (simp add: waited_def split: option.split)
  then show ?thesis by (simp add: served_def held_streams_def map_concat comp_def case_prod_unfold)
qed

definition flight :: "writer \<Rightarrow> sse_stream \<Rightarrow> bool" where
  "flight w st = (case w of
      Ready \<Rightarrow> es_accepted st = es_written st @ es_chunks st
    | Writing c \<Rightarrow> es_accepted st = es_written st @ c # es_chunks st
    | Leaving \<Rightarrow> True)"

definition stream_inv :: "http_server \<Rightarrow> bool" where
  "stream_inv s \<longleftrightarrow> distinct (held_streams s) \<and> (\<forall>sid. prefix (es_written (ws_streams s sid)) (es_accepted (ws_streams s sid)))
    \<and> (\<forall>x\<in>set (served s). flight (snd x) (ws_streams s (fst x)))"

definition same_content :: "sse_stream \<Rightarrow> sse_stream \<Rightarrow> bool" where
  "same_content st st' \<longleftrightarrow> es_chunks st' = es_chunks st \<and> es_accepted st' = es_accepted st \<and> es_written st' = es_written st"

lemma flight_same: "same_content st st' \<Longrightarrow> flight w st' = flight w st"
  by (simp add: flight_def same_content_def split: writer.split)

lemma stream_inv_less:
  assumes "stream_inv s" and "mset (served t) \<subseteq># mset (served s)" and "\<And>sid. same_content (ws_streams s sid) (ws_streams t sid)"
  shows "stream_inv t"
proof -
  have "mset (held_streams t) \<subseteq># mset (held_streams s)"
    unfolding served_held [symmetric] using image_mset_subseteq_mono [OF assms(2), of fst] by simp
  then have "distinct (held_streams t)" using assms(1) distinct_submset unfolding stream_inv_def by blast
  moreover have "set (served t) \<subseteq> set (served s)" using mset_subset_eqD [OF assms(2)] by auto
  then have "\<forall>x\<in>set (served t). flight (snd x) (ws_streams t (fst x))"
    using assms(1) flight_same [OF assms(3)] unfolding stream_inv_def by blast
  ultimately show ?thesis using assms(1,3) by (simp add: stream_inv_def same_content_def)
qed

lemma same_content_simps [simp]: "same_content st st" "same_content st (snd (mark_closed st))"
  "same_content st (snd (notify_closed_once st))" "same_content st (snd (set_close_handler h st))"
  by (simp_all add: same_content_def mark_closed_def notify_closed_once_def set_close_handler_def)

lemma served_same:
  assumes "ws_arriving t = ws_arriving s" "ws_waiting t = ws_waiting s" "ws_writers t = ws_writers s"
    and "\<And>c. c \<in> set (ws_waiting s) \<Longrightarrow> pc_stream (ws_calls t c) = pc_stream (ws_calls s c)"
  shows "served t = served s"
proof -
  have "map (waited t) (ws_waiting s) = map (waited s) (ws_waiting s)"
    by (intro map_cong) (simp_all add: waited_def assms(4))
  then show ?thesis by (simp add: served_def assms(1-3) del: map_eq_conv)
qed

lemma served_wait:
  assumes "call_inv s"
  shows "mset (served (wait_for_lua p s)) = mset (case pc_stream p of None \<Rightarrow> [] | Some sid \<Rightarrow> [(sid, Ready)]) + mset (served s)"
proof -
  have "ws_next_call s \<notin> set (ws_waiting s)" using assms by (auto simp: call_inv_defs)
  then have "map (waited (wait_for_lua p s)) (ws_waiting s) = map (waited s) (ws_waiting s)"
    by (intro map_cong) (auto simp: waited_def wait_for_lua_fields)
  moreover have "waited (wait_for_lua p s) (ws_next_call s) = (case pc_stream p of None \<Rightarrow> [] | Some sid \<Rightarrow> [(sid, Ready)])"
    by (simp add: waited_def wait_for_lua_fields)
  ultimately show ?thesis by (simp add: served_def wait_for_lua_fields(7,8,9) del: map_eq_conv)
qed

lemma stream_inv_writer:
  assumes "stream_inv s" and "(sid, w) \<in> set (ws_writers s)"
  shows "stream_inv (server_writer_turn good (sid, w) s)"
proof -
  let ?t = "server_writer_turn good (sid, w) s"
  obtain r st where t: "writer_turn good w (ws_streams s sid) = (r, st)" by fastforce
  have "(sid, w) \<in> set (served s)" using assms(2) by (simp add: served_def)
  then have fl: "flight w (ws_streams s sid)" using assms(1) unfolding stream_inv_def by fastforce
  have pre: "prefix (es_written (ws_streams s sid)) (es_accepted (ws_streams s sid))" using assms(1) by (simp add: stream_inv_def)
  have new: "prefix (es_written st) (es_accepted st)" "case r of Goes_on w' \<Rightarrow> flight w' st | _ \<Rightarrow> True"
    using t fl pre by (auto simp: writer_turn_def flight_def split: writer.splits list.splits if_splits)
  have streams: "\<exists>st'. ws_streams ?t = (ws_streams s)(sid := st') \<and> same_content st st'"
    by (cases r) (auto simp: server_writer_turn_def t Let_def)
  then obtain st' where st': "ws_streams ?t = (ws_streams s)(sid := st')" "same_content st st'" by blast
  define others where "others = map (\<lambda>(h, req, sid). (sid, Ready)) (ws_arriving s)
     @ concat (map (waited s) (ws_waiting s))
     @ remove1 (sid, w) (ws_writers s)"
  have before: "mset (served s) = add_mset (sid, w) (mset others)" using assms(2) by (simp add: served_def others_def)
  define front where "front = (case r of Goes_on w' \<Rightarrow> [(sid, w')] | _ \<Rightarrow> [])"
  have after: "mset (served ?t) = mset (front @ others)"
  proof -
    have "waited ?t = waited s" by (rule ext) (simp add: waited_def server_writer_turn_fields)
    then show ?thesis by (cases r) (simp_all add: served_def server_writer_turn_fields t others_def front_def)
  qed
  have "mset (map fst (served s)) = mset (map fst ((sid, w) # others))"
    unfolding mset_map [of fst "served s"] mset_map [of fst "(sid, w) # others"] by (simp only: before mset.simps)
  then have "mset (held_streams s) = mset (sid # map fst others)" by (simp add: served_held)
  then have dist: "distinct (sid # map fst others)" using assms(1) mset_eq_imp_distinct_iff unfolding stream_inv_def by blast
  from after have "mset (map fst (served ?t)) = mset (map fst (front @ others))" by (simp only: mset_map)
  then have "mset (held_streams ?t) = mset (map fst front @ map fst others)" by (simp only: served_held map_append)
  then have "distinct (held_streams ?t) = distinct (map fst front @ map fst others)" by (rule mset_eq_imp_distinct_iff)
  then have "distinct (held_streams ?t)" using dist by (cases r) (simp_all add: front_def)
  moreover have "prefix (es_written (ws_streams ?t i)) (es_accepted (ws_streams ?t i))" for i
    using assms(1) new(1) st' by (simp add: stream_inv_def same_content_def)
  moreover have "flight (snd x) (ws_streams ?t (fst x))" if "x \<in> set (served ?t)" for x
  proof -
    have "x \<in> set (front @ others)" using that mset_eq_setD [OF after] by blast
    then consider w' where "r = Goes_on w'" "x = (sid, w')" | "x \<in> set others" by (cases r) (auto simp: front_def)
    then show ?thesis
    proof cases
      case 1
      then show ?thesis using new(2) st' by (auto simp: flight_def same_content_def split: writer.splits)
    next
      case 2
      then have "x \<in># mset (served s)" unfolding before by simp
      moreover have "fst x \<noteq> sid" using 2 dist by (metis distinct.simps(2) image_eqI list.set_map)
      ultimately show ?thesis using assms(1) st' by (auto simp: stream_inv_def)
    qed
  qed
  ultimately show ?thesis by (simp add: stream_inv_def)
qed

lemma stream_inv_same:
  assumes "stream_inv s" and "served t = served s" and "\<And>sid. same_content (ws_streams s sid) (ws_streams t sid)"
  shows "stream_inv t"
  using assms by (intro stream_inv_less [OF assms(1)]) simp_all

lemma close_call_content: "ws_streams u = ws_streams s \<Longrightarrow> same_content (ws_streams s sid) (ws_streams (close_call_stream c u) sid)"
  by (simp add: close_call_stream_def split: option.split)

lemma stream_inv_send:
  assumes "stream_inv s" and "stream_send sid data s = (b, t)"
  shows "stream_inv t"
proof (cases "es_closed (ws_streams s sid)")
  case True
  then have "t = set_stream sid (ws_streams s sid) s" using assms(2) by (simp add: stream_send_def sse_send_def)
  then show ?thesis by (intro stream_inv_same [OF assms(1)]) (auto intro!: served_same)
next
  case False
  let ?st = "(ws_streams s sid)\<lparr>es_chunks := es_chunks (ws_streams s sid) @ [data], es_accepted := es_accepted (ws_streams s sid) @ [data]\<rparr>"
  have t: "t = set_stream sid ?st s" using assms(2) False by (simp add: stream_send_def sse_send_def)
  have "served t = served s" "held_streams t = held_streams s" by (rule served_same, simp_all add: t held_streams_def)
  moreover have "flight w (ws_streams s sid) \<Longrightarrow> flight w ?st" for w by (simp add: flight_def split: writer.splits)
  ultimately show ?thesis using assms(1) by (auto simp: stream_inv_def t)
qed

lemma stream_inv_track:
  assumes "stream_inv s" and "stop_inv s"
  shows "stream_inv (track_stream h req s)"
proof -
  let ?n = "ws_next_stream s" and ?t = "track_stream h req s"
  have fresh: "?n \<notin> set (held_streams s)" using assms(2) by (auto simp: stop_inv_def held_ok_def)
  have "waited ?t = waited s" by (rule ext) (simp add: waited_def track_stream_def Let_def)
  then have served: "served ?t = (?n, Ready) # served s" by (simp add: served_def) (simp add: track_stream_def Let_def)
  then have "held_streams ?t = ?n # held_streams s" by (simp add: served_held [symmetric])
  moreover have "x \<in> set (served s) \<Longrightarrow> fst x \<noteq> ?n" for x using fresh unfolding served_held [symmetric] by force
  moreover have "ws_streams ?t = (ws_streams s)(?n := new_stream)" by (simp add: track_stream_def Let_def)
  ultimately show ?thesis using assms(1) fresh served by (auto simp: stream_inv_def flight_def new_stream_def)
qed

lemma map_remove1: "x \<in> set xs \<Longrightarrow> mset (map f xs) = add_mset (f x) (mset (map f (remove1 x xs)))"
  by (induction xs) auto

lemma concat_remove1: "c \<in> set cs \<Longrightarrow> mset (concat (map f cs)) = mset (f c) + mset (concat (map f (remove1 c cs)))"
  by (induction cs) auto

lemma stream_inv_end_wait:
  assumes "stream_inv s" and "c \<in> set (ws_waiting s)"
  shows "stream_inv (end_wait c s)"
proof (rule stream_inv_less [OF assms(1)])
  have waited: "waited (end_wait c s) = waited s" by (rule ext) (simp add: waited_def end_wait_fields)
  from concat_remove1 [OF assms(2), of "waited s"] show "mset (served (end_wait c s)) \<subseteq># mset (served s)"
    by (auto simp: served_def waited end_wait_fields) (auto simp: waited_def split: option.splits)
qed (simp add: end_wait_fields)

lemma stream_inv_step: "http_server_step s t \<Longrightarrow> call_inv s \<Longrightarrow> stop_inv s \<Longrightarrow> stream_inv s \<Longrightarrow> stream_inv t"
proof (induction rule: http_server_step.induct)
  case (Listen s any_port show_port bound port r t)
  show ?case by (rule stream_inv_same [OF Listen(6)])
      (use Listen(3) in \<open>auto simp: server_listen_def Let_def intro!: served_same split: if_splits\<close>)
next
  case (Route s verb path f r t)
  show ?case by (rule stream_inv_same [OF Route(5)])
      (use Route(2) in \<open>auto simp: server_route_def assert_can_register_route_def add_handler_def intro!: served_same split: if_splits\<close>)
next
  case (Route_sse s path f r t)
  show ?case by (rule stream_inv_same [OF Route_sse(5)])
      (use Route_sse(2) in \<open>auto simp: server_route_sse_def assert_can_register_route_def add_handler_def intro!: served_same split: if_splits\<close>)
next
  case (Request s rt req)
  show ?case unfolding begin_route_def
    by (rule stream_inv_less [OF Request(6)]) (simp_all add: served_wait [OF Request(4)] wait_for_lua_fields new_call_def)
next
  case (Track s rt req)
  then show ?case by (simp add: stream_inv_track)
next
  case (Request_sse h req sid s)
  let ?s = "s\<lparr>ws_arriving := remove1 (h, req, sid) (ws_arriving s)\<rparr>"
  have inv: "call_inv ?s" using Request_sse(2) by (simp add: call_inv_arriving)
  have "mset (served s) = add_mset (sid, Ready) (mset (served ?s))"
  proof -
    have "waited ?s = waited s" by (rule ext) (simp add: waited_def)
    then show ?thesis using map_remove1 [OF Request_sse(1), of "\<lambda>(h, req, sid). (sid, Ready)"] by (simp add: served_def)
  qed
  then show ?case unfolding begin_sse_def
    by (intro stream_inv_less [OF Request_sse(4)]) (simp_all add: served_wait [OF inv] wait_for_lua_fields new_call_def)
next
  case (End_wait c s)
  then show ?case by (simp add: stream_inv_end_wait)
next
  case (Write_turn w s good)
  then show ?case using stream_inv_writer [of s "fst w" "snd w"] by simp
next
  case (Task k s)
  have "ws_next_call s \<notin> set (ws_waiting s)" using Task(2) by (auto simp: call_inv_defs)
  then have "served (run_task k s) = served s"
    by (intro served_same) (auto simp: run_task_def enqueue_sse_close_def Let_def split: stream_task.splits prod.splits option.splits)
  then show ?case
    by (rule stream_inv_same [OF Task(4)])
      (auto simp: run_task_def enqueue_sse_close_def notify_closed_once_def same_content_def Let_def
        split: stream_task.splits prod.splits option.splits)
next
  case (Dispatch s)
  show ?case
  proof (rule stream_inv_same [OF Dispatch(5)])
    show "served (dispatch_take s) = served s"
      by (rule served_same) (auto simp: dispatch_take_def finish_call_def answer_call_def Let_def split: list.splits option.splits)
    show "same_content (ws_streams s sid) (ws_streams (dispatch_take s) sid)" for sid
      by (auto simp: dispatch_take_def finish_call_def answer_call_def Let_def intro!: close_call_content split: list.splits option.splits)
  qed
next
  case (Result s c res)
  show ?case
  proof (rule stream_inv_same [OF Result(5)])
    show "served (dispatch_result c res s) = served s"
      by (rule served_same) (cases res; auto simp: dispatch_result_def finish_call_def answer_call_def Let_def)+
    show "same_content (ws_streams s sid) (ws_streams (dispatch_result c res s) sid)" for sid
      by (cases res) (auto simp: dispatch_result_def finish_call_def answer_call_def Let_def intro!: close_call_content)
  qed
next
  case (Send s sid data b t)
  show ?case by (rule stream_inv_send [OF Send(6,3)])
next
  case (Close s sid)
  show ?case by (rule stream_inv_same [OF Close(5)]) (auto intro!: served_same)
next
  case (On_close s sid f)
  show ?case
    by (rule stream_inv_same [OF On_close(5)])
      (auto simp: stream_on_close_def add_handler_def set_close_handler_def add_task_def same_content_def intro!: served_same)
next
  case (Stop s)
  show ?case by (rule stream_inv_same [OF Stop(4)]) (auto simp: stop_begin_def intro!: served_same)
next
  case (Stop_turn s dead)
  show ?case
  proof (rule stream_inv_same [OF Stop_turn(6)])
    show "served (stop_turn dead s) = served s"
      by (rule served_same)
        (auto simp: stop_turn_def collect_streams_def Let_def fail_call_fields fail_call_other split: stop_phase.splits list.splits)
    have "ws_streams u = ws_streams s \<Longrightarrow> same_content (ws_streams s sid) (ws_streams (fail_call c u) sid)" for u c sid
      by (simp add: fail_call_def finish_call_def answer_call_def close_call_content)
    moreover have "same_content st (if es_closed st then st else st\<lparr>es_closed := True\<rparr>)" for st by (simp add: same_content_def)
    ultimately show "same_content (ws_streams s sid) (ws_streams (stop_turn dead s) sid)" for sid
      by (auto simp: stop_turn_def collect_streams_def Let_def mark_closed_def split: stop_phase.splits list.splits)
  qed
next
  case (Join s dead)
  show ?case by (rule stream_inv_same [OF Join(7)]) (auto simp: stop_turn_def Join intro!: served_same)
qed

interpretation streams: invariant_system "\<lambda>s. s = new_server" http_server_step "\<lambda>s. http_server_inv s \<and> stream_inv s"
proof (unfold_locales, goal_cases)
  case (1 s)
  then show ?case using web.inv_start
    by (simp add: stream_inv_def new_server_def held_streams_def served_def new_stream_def)
next
  case (2 s t)
  then show ?case using web.inv_step stream_inv_step unfolding http_server_inv_def by blast
qed

text \<open>C39: In every history of a server, what the library took of a stream for its client is a prefix of the chunks for which
  the script's sends returned true, in their order; and once the stream's thread is at rest with no chunk left, it is all
  of them.\<close>

theorem events_in_order:
  assumes "http_server_reachable s"
  shows "prefix (es_written (ws_streams s sid)) (es_accepted (ws_streams s sid))
    \<and> ((sid, Ready) \<in> set (ws_writers s) \<and> es_chunks (ws_streams s sid) = []
        \<longrightarrow> es_written (ws_streams s sid) = es_accepted (ws_streams s sid))"
proof -
  have inv: "stream_inv s" using streams.inv_reachable assms unfolding http_server_reachable_def by blast
  have "flight Ready (ws_streams s sid)" if "(sid, Ready) \<in> set (ws_writers s)"
  proof -
    have "(sid, Ready) \<in> set (served s)" using that by (simp add: served_def)
    then show ?thesis using inv unfolding stream_inv_def by fastforce
  qed
  then show ?thesis using inv by (auto simp: stream_inv_def flight_def)
qed

end
