(* ===== verification/Http_Server_Examples.thy ===== *)
theory Http_Server_Examples
  imports Http_Server_Properties Http_Server_Streams
begin

text \<open>
  Histories of an HTTP server that its properties are applied to: a route whose handler stops the server, and a stream
  of events that is sent to, closed and stopped.
\<close>

definition listening :: http_server where
  "listening = snd (server_listen (\<lambda>_. []) 1 True 80 (snd (server_route ''GET'' ''/'' 5 (snd (server_route_sse ''/e'' 7 new_server)))))"

lemma listening_eq:
  "listening = new_server\<lparr>ws_running := True, ws_port := 80, ws_next_handler := 3, ws_handlers := [1 \<mapsto> 7, 2 \<mapsto> 5],
     ws_routes := [\<lparr>rt_method = ''GET'', rt_path = ''/e'', rt_sse = True, rt_handler = 1\<rparr>,
       \<lparr>rt_method = ''GET'', rt_path = ''/'', rt_sse = False, rt_handler = 2\<rparr>]\<rparr>"
  by (simp add: listening_def server_listen_def server_route_def server_route_sse_def assert_can_register_route_def add_handler_def
      new_server_def numeral_2_eq_2)

lemma listening_reachable: "http_server_reachable listening"
proof -
  let ?s1 = "snd (server_route_sse ''/e'' 7 new_server)"
  let ?s2 = "snd (server_route ''GET'' ''/'' 5 ?s1)"
  have "http_server_step new_server ?s1" by (rule http_server_step.Route_sse [of _ "''/e''" 7 "fst (server_route_sse ''/e'' 7 new_server)"]) (simp_all add: new_server_def)
  moreover have "http_server_step ?s1 ?s2"
    by (rule http_server_step.Route [of _ "''GET''" "''/''" 5 "fst (server_route ''GET'' ''/'' 5 ?s1)"])
      (simp_all add: new_server_def server_route_sse_def assert_can_register_route_def add_handler_def)
  moreover have "http_server_step ?s2 listening"
    by (rule http_server_step.Listen [of _ 1 "\<lambda>_. []" True 80 "fst (server_listen (\<lambda>_. []) 1 True 80 ?s2)"])
      (simp_all add: listening_def new_server_def server_route_sse_def server_route_def assert_can_register_route_def add_handler_def)
  ultimately show ?thesis unfolding http_server_reachable_def by (meson rtranclp.rtrancl_into_rtrancl rtranclp.rtrancl_refl)
qed

lemma reachable_next: "http_server_reachable s \<Longrightarrow> http_server_step s t \<Longrightarrow> http_server_reachable t"
  unfolding http_server_reachable_def by (rule rtranclp.rtrancl_into_rtrancl)

text \<open>All turns of a stop but the join, for streams that are all alive.\<close>

fun stop_turns :: "nat \<Rightarrow> http_server \<Rightarrow> http_server" where
  "stop_turns 0 s = s"
| "stop_turns (Suc n) s = (if ws_stop s = No_stop \<or> ws_stop s = Joining_thread then s else stop_turns n (stop_turn (\<lambda>_. False) s))"

lemma stop_turns_reachable: "http_server_reachable s \<Longrightarrow> http_server_reachable (stop_turns n s)"
  by (induction n s rule: stop_turns.induct) (auto intro: reachable_next http_server_step.Stop_turn)

text \<open>The handler of the plain route stops the server.\<close>

definition in_handler :: http_server where
  "in_handler = dispatch_take (begin_route 2 no_request listening)"

definition hanging :: http_server where
  "hanging = stop_turns 6 (stop_begin in_handler)"

lemma in_handler_eq:
  "in_handler = listening\<lparr>ws_calls := (ws_calls listening)(0 := new_call Route_call 2 no_request None), ws_next_call := 1,
     ws_waiting := [0], ws_call := Some 0\<rparr>"
  by (simp add: in_handler_def begin_route_def wait_for_lua_def dispatch_take_def Let_def listening_eq new_server_def new_call_def set_call_def)

lemma hanging_fields: "ws_stop hanging = Joining_thread" "ws_call hanging = Some 0" "pc_kind (ws_calls hanging 0) = Route_call"
  by (simp_all add: hanging_def numeral_eq_Suc stop_begin_def stop_turn_def collect_streams_def Let_def in_handler_eq listening_eq new_server_def new_call_def)

lemma hanging_reachable: "http_server_reachable hanging"
proof -
  have "http_server_step listening (begin_route 2 no_request listening)"
    using http_server_step.Request [of listening "\<lparr>rt_method = ''GET'', rt_path = ''/'', rt_sse = False, rt_handler = 2\<rparr>" no_request]
    by (simp add: listening_eq)
  moreover have "http_server_step (begin_route 2 no_request listening) in_handler"
    unfolding in_handler_def
    by (rule http_server_step.Dispatch) (simp_all add: begin_route_def wait_for_lua_fields listening_eq new_server_def)
  moreover have "http_server_step in_handler (stop_begin in_handler)"
    by (rule http_server_step.Stop) (simp add: in_handler_eq listening_eq new_server_def)
  ultimately show ?thesis unfolding hanging_def
    by (intro stop_turns_reachable) (meson listening_reachable reachable_next)
qed

theorem stop_in_handler_hangs_witness: "ws_stop hanging = Joining_thread \<and> 0 \<in> set (ws_waiting hanging) \<and> \<not> pc_done (ws_calls hanging 0)"
  by (rule stop_in_handler_hangs [OF hanging_reachable hanging_fields(1,2)]) (simp_all add: hanging_fields)

text \<open>A stream that is sent to while its thread writes.\<close>

definition streaming :: http_server where
  "streaming = snd (stream_send 0 ''hi'' (end_wait 0 (dispatch_result 0 Nil_result (dispatch_take
     (begin_sse 1 no_request 0 (track_stream 1 no_request listening))))))"

lemma streaming_eq:
  "streaming = listening\<lparr>ws_calls := (ws_calls listening)(0 := (new_call Sse_call 1 no_request (Some 0))\<lparr>pc_done := True\<rparr>), ws_next_call := 1,
     ws_streams := (ws_streams listening)(0 := new_stream\<lparr>es_chunks := [''hi''], es_accepted := [''hi'']\<rparr>), ws_next_stream := 1,
     ws_active := [0], ws_writers := [(0, Ready)], ws_replies := [(0, sse_response)]\<rparr>"
  by (simp add: streaming_def track_stream_def begin_sse_def wait_for_lua_def dispatch_take_def dispatch_result_def end_wait_def Let_def
      stream_send_def sse_send_def finish_call_def answer_call_def set_call_def set_stream_def new_stream_def new_call_def
      listening_eq new_server_def fresh_response_def)

lemma streaming_reachable: "http_server_reachable streaming"
proof -
  let ?a = "track_stream 1 no_request listening"
  let ?b = "begin_sse 1 no_request 0 ?a"
  let ?c = "dispatch_take ?b"
  let ?d = "dispatch_result 0 Nil_result ?c"
  let ?e = "end_wait 0 ?d"
  note defs = track_stream_def begin_sse_def wait_for_lua_def dispatch_take_def dispatch_result_def end_wait_def Let_def
      finish_call_def answer_call_def set_call_def new_call_def listening_eq new_server_def fresh_response_def
  have "http_server_step listening ?a"
    using http_server_step.Track [of listening "\<lparr>rt_method = ''GET'', rt_path = ''/e'', rt_sse = True, rt_handler = 1\<rparr>" no_request]
    by (simp add: listening_eq)
  moreover have "http_server_step ?a ?b" by (rule http_server_step.Request_sse) (simp add: defs)
  moreover have "http_server_step ?b ?c" by (rule http_server_step.Dispatch) (simp_all add: defs)
  moreover have "http_server_step ?c ?d" by (rule http_server_step.Result) (simp_all add: defs)
  moreover have "http_server_step ?d ?e" by (rule http_server_step.End_wait) (simp_all add: defs)
  moreover have "http_server_step ?e streaming"
    unfolding streaming_def by (rule http_server_step.Send [of _ 0 "''hi''" "fst (stream_send 0 ''hi'' ?e)"]) (simp_all add: defs)
  ultimately show ?thesis by (meson listening_reachable reachable_next)
qed

definition stopping :: http_server where
  "stopping = stop_turns 7 (stop_begin streaming)"

lemma stop_turns_phases:
  "ws_stop s = Collecting_streams \<Longrightarrow>
    stop_turns (Suc n) s = stop_turns n (s\<lparr>ws_active := ws_active s, ws_stop := Closing_streams (ws_active s)\<rparr>)"
  "ws_stop s = Closing_streams (sid # sids) \<Longrightarrow> stop_turns (Suc n) s = stop_turns n (close_stream sid (s\<lparr>ws_stop := Closing_streams sids\<rparr>))"
  "ws_stop s = Closing_streams [] \<Longrightarrow> stop_turns (Suc n) s = stop_turns n (s\<lparr>ws_stop := Stopping_library\<rparr>)"
  "ws_stop s = Stopping_library \<Longrightarrow> stop_turns (Suc n) s = stop_turns n (s\<lparr>ws_stop := Taking_calls\<rparr>)"
  "ws_stop s = Taking_calls \<Longrightarrow> stop_turns (Suc n) s = stop_turns n (s\<lparr>ws_pending := [], ws_stop := Failing_calls (ws_pending s)\<rparr>)"
  "ws_stop s = Failing_calls [] \<Longrightarrow> stop_turns (Suc n) s = stop_turns n (s\<lparr>ws_stop := Joining_thread\<rparr>)"
  "ws_stop s = Joining_thread \<Longrightarrow> stop_turns n s = s"
  by (simp_all add: stop_turn_def collect_streams_def Let_def) (cases n, simp_all)

lemma closing_turns:
  "ws_stop s = Collecting_streams \<Longrightarrow> ws_active s = [sid] \<Longrightarrow> ws_pending s = [] \<Longrightarrow> ws_stop (stop_turns 7 s) = Joining_thread"
  by (simp add: numeral_eq_Suc stop_turns_phases del: stop_turns.simps)

lemma stop_turns_call: "ws_call (stop_turns n s) = ws_call s"
proof (induction n s rule: stop_turns.induct)
  case (2 n s)
  have "ws_call (stop_turn (\<lambda>_. False) s) = ws_call s"
    by (simp add: stop_turn_def collect_streams_def Let_def fail_call_fields split: stop_phase.split list.split)
  with 2 show ?case by simp
qed simp

lemma stopping_fields: "ws_stop stopping = Joining_thread" "ws_call stopping = None"
proof -
  have "ws_stop (stop_begin streaming) = Collecting_streams" "ws_active (stop_begin streaming) = [0]" "ws_pending (stop_begin streaming) = []"
    "ws_call (stop_begin streaming) = None"
    by (simp_all add: stop_begin_def streaming_eq listening_eq new_server_def)
  then show "ws_stop stopping = Joining_thread" "ws_call stopping = None"
    by (simp_all add: stopping_def closing_turns stop_turns_call)
qed

lemma stopping_reachable: "http_server_reachable stopping"
  unfolding stopping_def
  by (intro stop_turns_reachable reachable_next [OF streaming_reachable] http_server_step.Stop) (simp add: streaming_eq listening_eq new_server_def)

theorem requests_answered_once_witness: "distinct (ws_waiting streaming @ map fst (ws_replies streaming)) \<and> ws_replies streaming = [(0, sse_response)]"
  using requests_answered_once [OF streaming_reachable] by (simp add: streaming_eq)

theorem stop_ends_witness: "(\<exists>u. library_turn stopping u) \<or> http_server_step stopping (stopping\<lparr>ws_stop := No_stop\<rparr>)"
  using stop_ends [OF stopping_reachable stopping_fields] by blast

theorem events_in_order_witness: "prefix (es_written (ws_streams streaming 0)) [''hi'']"
  using events_in_order [OF streaming_reachable, of 0] by (simp add: streaming_eq)

text \<open>The stream ends, and then a handler for its end is registered.\<close>

definition ended :: http_server where
  "ended = run_task (To_notify 0) (close_stream 0 streaming)"

lemma ended_eq:
  "ended = streaming\<lparr>ws_streams := (ws_streams streaming)(0 := (ws_streams streaming 0)\<lparr>es_closed := True, es_notified := True\<rparr>)\<rparr>"
  by (simp add: ended_def run_task_def close_stream_def mark_closed_def add_task_def set_stream_def notify_closed_once_def
      new_stream_def streaming_eq listening_eq new_server_def)

lemma ended_reachable: "http_server_reachable ended"
proof -
  have "http_server_step streaming (close_stream 0 streaming)" by (rule http_server_step.Close) (simp_all add: streaming_eq listening_eq new_server_def)
  moreover have "http_server_step (close_stream 0 streaming) ended"
    unfolding ended_def
    by (rule http_server_step.Task) (simp add: close_stream_def mark_closed_def add_task_def streaming_eq new_stream_def)
  ultimately show ?thesis by (meson streaming_reachable reachable_next)
qed

theorem late_close_handler_witness: "ws_handlers (stream_on_close 0 9 ended) (ws_next_handler ended) = Some 9"
  using late_close_handler [OF ended_reachable, of 0 9 "stream_on_close 0 9 ended"] by (simp add: ended_eq streaming_eq)

end
