(* ===== verification/Spec2Isabelle.thy ===== *)
theory Spec2Isabelle
  imports Realtime_Protocol Realtime_Client_Properties Ssh_Properties Vector_Properties Job_Properties
    Input_Properties Temporal_Properties Dotenv_Properties
    Script_Callbacks_Properties Terminal_Process_Properties
    Resource_Properties Shader_Includes Http_Properties Random_Properties Child_Run_Properties Http_Server_Examples
begin

text \<open>
  Verification library of the \<open>space\<close> engine (the C++ sources under \<open>src/src\<close>). It holds models of
  the services behind the engine's script interface, each translated operation by operation from its
  source, and the theorems that make them correct. Paths below are relative to \<open>src/src\<close>.

  \<^bold>\<open>The program's parts and how they interact.\<close> The engine (\<open>engine.cpp\<close>) runs a frame loop: it copies
  the keyboard, starts an input frame, pumps the platform's events into the input state
  (\<open>input_state.cpp\<close>), lets the scripts run, polls the finished jobs (\<open>job_system.cpp\<close>), turns results into
  textures and sounds (\<open>resource_manager.cpp\<close>, \<open>texture.cpp\<close>), reads the children of its terminals
  (\<open>terminal.cpp\<close>), dispatches the callbacks that services queued for the scripts (\<open>lua_callbacks.cpp\<close>) and
  draws from the vector buffers that the scripts filled (\<open>vector_buffer.h\<close>, \<open>lua_vector_buffer.cpp\<close>). Scripts
  start long work through services that own threads and answer through queues polled once a frame: the
  realtime server and client (\<open>realtime/core.cpp\<close>), which admit players by signed tickets
  (\<open>realtime/auth_ticket.cpp\<close>), the SSH service (\<open>ssh_service.cpp\<close>), the HTTP client (\<open>http_client.cpp\<close>), the HTTP
  server, whose requests wait for the script thread (\<open>lua_http_server.cpp\<close>), and child processes, whose callbacks go
  through the callback queue (\<open>lua_process.cpp\<close>). Scripts also compute with dates and times (\<open>temporal.cpp\<close>), draw random
  numbers (\<open>lua_random.cpp\<close>) and read environment files (\<open>dotenv.cpp\<close>).

  \<^bold>\<open>Theories, in the order of their imports.\<close>
  \<^item> \<open>Prelude\<close>: bytes and characters, decimal printing, results (\<open>Inl\<close> an exception, \<open>Inr\<close> a value),
    outcomes (a state together with the exception that left the operation, if any), sequences of steps,
    and the locale \<open>invariant_system\<close> (states closed under steps) shared by the components.
  \<^item> \<open>Auth_Ticket\<close> (\<open>realtime/auth_ticket.cpp\<close>): tickets, hex, validation, JSON form, signing, verifying.
    A ticket that verifies was signed with the secret, and verifying inverts making.
  \<^item> \<open>Ticket_Codec\<close> (\<open>append_u8\<close> to \<open>decode_auth_ticket\<close> of \<open>realtime/core.cpp\<close>): the ticket inside the 256
    bytes of user data of a connect token; decoding inverts encoding and accepts nothing else.
  \<^item> \<open>Feature_Registry\<close>, \<open>Realtime_Support\<close>: the registered features, and the constants, messages,
    guarded callbacks and address checks that server and client share (\<open>realtime/core.cpp\<close>, \<open>core.h\<close>).
  \<^item> \<open>Realtime_Server\<close>, \<open>_Safety\<close>, \<open>_Properties\<close>: the server's state, its worker loop, the handlers and
    the public operations; the invariant of every reachable state (locale \<open>invariant_system\<close>), what a
    connection, a command, a payload and a received message do, and how the server ends.
  \<^item> \<open>Realtime_Client\<close>, \<open>_Safety\<close>, \<open>_Properties\<close>: the client as two machines, its worker and its caller, that stop
    between any two accesses to what they share; an assertion for every place they can stand at, what the lifecycle
    tells in every interleaving, and the runs in which \<open>close\<close> is overtaken (\<open>close_overtaken\<close>, \<open>close_undone\<close>).
  \<^item> \<open>Realtime_Protocol\<close>: server and client composed; the active features stay in agreement.
  \<^item> \<open>Ssh_Service\<close>, \<open>Ssh_Properties\<close> (\<open>ssh_service.cpp\<close>): operations, sessions, channels, tunnels, timers
    and the event queue, as critical sections that interleave freely.
  \<^item> \<open>Floats\<close>: comparisons and clamping of 32-bit floats by their bit patterns.
  \<^item> \<open>Vector_Buffer\<close>, \<open>Vector_Writes\<close>: the region allocator and the checked, batched and diffing writes;
    \<open>Vector_Safety\<close>, \<open>Vector_Steps\<close>: the invariant that the regions tile the buffer, and the locale
    \<open>owned_regions\<close> of what the holder of a region may rely on; \<open>Vector_Properties\<close>.
  \<^item> \<open>Job_System\<close>, \<open>Job_Properties\<close> (\<open>job_system.cpp\<close>): the pool's queue and workers, cut at the mutexes
    and the condition variable; the locale \<open>drained_queue\<close> of what a poll promises.
  \<^item> \<open>Input_Devices\<close>, \<open>Input_State\<close>, \<open>Input_Events\<close> (\<open>input_*_state.cpp\<close>, \<open>input_state.cpp\<close>): devices, touch
    contacts, pens, the handlers and the start of a frame; \<open>Input_Safety\<close>, \<open>Input_Properties\<close>.
  \<^item> \<open>Calendar\<close>, \<open>Temporal\<close>, \<open>Temporal_Text\<close>, \<open>Temporal_Arithmetic\<close>, \<open>Temporal_Properties\<close> (\<open>temporal.cpp\<close>): the
    date library's day numbers, instants, plain and zoned date-times, their fields, texts and arithmetic. The
    day numbers are equal to counting days month by month; printing and parsing are inverse.
  \<^item> \<open>Dotenv\<close>, \<open>Dotenv_Properties\<close> (\<open>dotenv.cpp\<close>): the lines of environment files and what loading one assigns.
  \<^item> \<open>Script_Callbacks\<close>, \<open>Script_Callbacks_Properties\<close> (\<open>lua_callbacks.cpp\<close>): registry, queue and nested dispatch as
    critical sections, and the dispatch functions as their refinements.
  \<^item> \<open>Terminal\<close>, \<open>Terminal_Process\<close>, \<open>Terminal_Safety\<close>, \<open>Terminal_Properties\<close>, \<open>Terminal_Process_Properties\<close>
    (\<open>terminal.cpp\<close>): scrollback, damage, keys, and the pseudo terminal; the scrollback is the longest suffix that
    fits its limits, the dirty regions are exactly the damage.
  \<^item> \<open>Textures\<close>, \<open>Texture_Properties\<close> (\<open>texture.cpp\<close>), \<open>Resource_Manager\<close>, \<open>Resource_Properties\<close>,
    \<open>Shader_Includes\<close> (\<open>resource_manager.cpp\<close>): pixel buffers and their upload, the requests, jobs, results
    and slices of uploads, and the include preprocessor with the relation \<open>expands\<close> it decides.
  \<^item> \<open>Http_Client\<close>, \<open>Http_Properties\<close> (\<open>http_client.cpp\<close>, \<open>http_client.h\<close>): the queue of requests, its workers,
    cancellation and shutdown, cut at the mutexes and the condition variable; every id is answered at most once.
  \<^item> \<open>Script_Random\<close>, \<open>Random_Properties\<close> (\<open>lua_random.cpp\<close>): seeding, draws, shuffles and samples over an engine
    and distributions that are parameters.
  \<^item> \<open>Child_Processes\<close>, \<open>Child_Run\<close>, \<open>Child_Properties\<close>, \<open>Child_Run_Properties\<close> (\<open>lua_process.cpp\<close>): options, the table
    of processes, and the loop of \<open>process.run\<close>; the log of system calls shows that descriptors are closed and
    children reaped once.
  \<^item> \<open>Http_Server\<close>, \<open>_Steps\<close>, \<open>_Properties\<close>, \<open>_Streams\<close>, \<open>_Examples\<close> (\<open>lua_http_server.cpp\<close>): requests handed to the
    script thread, event streams, close handlers and stops, cut at the mutexes; the invariants of calls, of stops and
    of streams, and the histories the properties are applied to.

  \<^bold>\<open>Correspondence.\<close> A struct or class is a record with the source's fields, an enum a datatype, an
  integer a word of its width (\<open>size_t\<close> offsets of the vector buffer are naturals with the wrap-around
  written out by \<open>wrap\<close>), an exception an \<open>Inl\<close> or the first component of an outcome, an unordered map
  an association list where the order of an iteration can be seen and a map elsewhere. Output to a peer, a
  callback or the application is an entry of a log in the state, in order.

  \<^bold>\<open>Granularity and bounds.\<close> The worker of the realtime server is cut at its loop iterations, which hold
  no lock across callbacks; worker and caller of the realtime client at every access to the lifecycle, the connected
  and running flags and the queue of commands, with one thread making all calls; the SSH service, the job system, the HTTP client and the HTTP server are cut at their critical sections;
  an operation on child processes holds the manager's mutex throughout and is one step. Ids are
  64-bit counters that the theorems assume have not wrapped (below \<open>2^64 - 1\<close>); vector-buffer histories
  use sizes below \<open>2^63\<close> and offsets that stay below \<open>2^64\<close> with the count added, beyond which the lemmas \<open>wrapped_offset_corrupts\<close> and
  \<open>huge_allocation_overlaps\<close> show the checks fail. A terminal is resized to any size, also to one without rows or
  columns. Only the loop of \<open>callbacks.run-loop\<close> uses fuel, as it may run
  for ever, with a lemma that says when it ends (\<open>run_loop_ends\<close>); every other loop is structural, consumes the
  list of the system's answers, or has a termination proof.

  \<^bold>\<open>Parameters.\<close> The network library (its user data, inboxes, client states), the cryptographic hash, the JSON
  library, the SSH backend, job handlers registered elsewhere, rounding float addition and subtraction, the
  time-zone database and the clock, the environment, what scripts do when they are called, the terminal
  library (acting through its callbacks) and the results of system calls on the pseudo terminal, on pipes and on
  children, the transfer library of HTTP, the threads of the HTTP server library (steps in any order), the random
  engine and its distributions, the decoders of images and sounds and the addresses of buffers, and the canonical form of a path are arguments of the
  definitions that use them. The constants of the vendored network and input libraries, and the day-number
  formulas of the date library, are taken from \<open>src/external\<close>. Hypotheses about the parameters are named in the
  theorems and instantiated in their witnesses.

  \<^bold>\<open>Not modelled, and why.\<close> The script bindings (\<open>lua_*.cpp\<close> other than those named above) convert
  arguments; rendering, windows, audio, video, the browser, the tray, search and torrents are calls of external
  libraries; physics, layout and colours are floating-point numerics; logging, paths, assets and message sockets sit
  on the operating system. Within the modelled parts: memory exhaustion, the bit-level message format of the network
  library, the data race of \<open>start\<close> (which writes \<open>bound_address\<close> after its worker is running), a handle
  table whose finished threads are kept until shutdown (SSH), the child side of a fork and the Windows variant of
  processes, signals a write to a closed pipe raises, diagnostics, and the script engine's stack.
\<close>

end
